(* ===== verification/Prelude.thy ===== *)
theory Prelude
  imports Main "HOL-Library.Word" "HOL-Library.Monad_Syntax"
begin

text \<open>
  Shared vocabulary of the development: machine integers, byte memories and their
  little-endian encodings, guarded memory access, and the generic lemmas that every
  component uses.

  A page of the buffer pool is a function from byte offsets to bytes; only the offsets
  below \<open>PAGE_SIZE\<close> exist. An access of the source that would touch a byte outside the
  page is the value \<open>None\<close> of the option monad: in C++ it is undefined behaviour, so the
  model stops there instead of giving it a meaning.
\<close>

named_theorems page_simps \<open>reading and writing byte memories\<close>
named_theorems enc_simps \<open>little-endian encodings\<close>

type_synonym byte = "8 word"
type_synonym i32 = "32 word"
type_synonym i16 = "16 word"
type_synonym i64 = "64 word"

type_synonym page = "nat \<Rightarrow> byte"

section \<open>Compile-time constants (common/config.h)\<close>

definition PAGE_SIZE :: nat where "PAGE_SIZE = 16384"

definition MAX_TUPLE_SIZE :: nat where "MAX_TUPLE_SIZE = 8192"

definition INVALID_PAGE_ID :: i32 where "INVALID_PAGE_ID = - 1"

section \<open>Little-endian integers\<close>

fun le_enc :: "nat \<Rightarrow> nat \<Rightarrow> byte list" where
  "le_enc 0 k = []"
| "le_enc (Suc n) k = word_of_nat (k mod 256) # le_enc n (k div 256)"

fun le_dec :: "byte list \<Rightarrow> nat" where
  "le_dec [] = 0"
| "le_dec (b # bs) = unat b + 256 * le_dec bs"

lemma length_le_enc [simp, enc_simps]: "length (le_enc n k) = n"
  by (induction n arbitrary: k) auto

lemma unat_byte_of_mod [simp]: "unat (word_of_nat (k mod 256) :: byte) = k mod 256"
  by (simp add: unat_of_nat)

lemma le_dec_enc_mod: "le_dec (le_enc n k) = k mod 256 ^ n"
proof (induction n arbitrary: k)
  case 0
  then show ?case by simp
next
  case (Suc n)
  have "le_dec (le_enc (Suc n) k) = k mod 256 + 256 * (k div 256 mod 256 ^ n)"
    by (simp add: Suc.IH)
  also have "\<dots> = k mod 256 ^ Suc n"
    by (simp add: mod_mult2_eq)
  finally show ?case .
qed

lemma le_dec_enc [simp, enc_simps]: "k < 256 ^ n \<Longrightarrow> le_dec (le_enc n k) = k"
  by (simp add: le_dec_enc_mod)

lemma le_dec_bound: "le_dec bs < 256 ^ length bs"
proof (induction bs)
  case Nil
  then show ?case by simp
next
  case (Cons b bs)
  have "unat b < 256" using unsigned_less [of b] by simp
  with Cons.IH show ?case by simp
qed

lemma le_enc_dec [simp, enc_simps]: "length bs = n \<Longrightarrow> le_enc n (le_dec bs) = bs"
proof (induction bs arbitrary: n)
  case Nil
  then show ?case by simp
next
  case (Cons b bs)
  have b: "unat b < 256" using unsigned_less [of b] by simp
  then have "(unat b + 256 * le_dec bs) mod 256 = unat b"
    and "(unat b + 256 * le_dec bs) div 256 = le_dec bs" by simp_all
  with Cons show ?case by auto
qed

definition enc_word :: "'a::len word \<Rightarrow> byte list" where
  "enc_word w = le_enc (LENGTH('a) div 8) (unat w)"

definition dec_word :: "byte list \<Rightarrow> 'a::len word" where
  "dec_word bs = word_of_nat (le_dec bs)"

lemma length_enc_word [simp, enc_simps]:
  "length (enc_word (w :: 'a::len word)) = LENGTH('a) div 8"
  by (simp add: enc_word_def)

lemma dec_enc_word:
  assumes "8 * (LENGTH('a::len) div 8) = LENGTH('a)"
  shows "dec_word (enc_word (w :: 'a word)) = w"
proof -
  have "unat w < 2 ^ LENGTH('a)" by (rule unsigned_less)
  moreover have "(256::nat) ^ (LENGTH('a) div 8) = 2 ^ LENGTH('a)"
    using assms power_mult [of "2::nat" 8 "LENGTH('a) div 8"] by simp
  ultimately show ?thesis by (simp add: enc_word_def dec_word_def)
qed

lemma dec_enc_i16 [simp, enc_simps]: "dec_word (enc_word (w :: i16)) = w"
  and dec_enc_i32 [simp, enc_simps]: "dec_word (enc_word (v :: i32)) = v"
  and dec_enc_i64 [simp, enc_simps]: "dec_word (enc_word (u :: i64)) = u"
  by (simp_all add: dec_enc_word)

section \<open>Byte memories\<close>

definition mem_read :: "page \<Rightarrow> nat \<Rightarrow> nat \<Rightarrow> byte list" where
  "mem_read m off n = map m [off..<off + n]"

definition mem_write :: "page \<Rightarrow> nat \<Rightarrow> byte list \<Rightarrow> page" where
  "mem_write m off bs = (\<lambda>i. if off \<le> i \<and> i < off + length bs then bs ! (i - off) else m i)"

definition zero_page :: page where "zero_page = (\<lambda>_. 0)"

lemma length_mem_read [simp, page_simps]: "length (mem_read m off n) = n"
  by (simp add: mem_read_def)

lemma nth_mem_read [simp]: "i < n \<Longrightarrow> mem_read m off n ! i = m (off + i)"
  by (simp add: mem_read_def)

lemma mem_read_write_same [simp, page_simps]:
  "n = length bs \<Longrightarrow> mem_read (mem_write m off bs) off n = bs"
  by (rule nth_equalityI) (simp_all add: mem_write_def)

lemma mem_read_write_disjoint [page_simps]:
  "off + n \<le> off' \<or> off' + length bs \<le> off \<or> n = 0 \<or> bs = [] \<Longrightarrow>
   mem_read (mem_write m off' bs) off n = mem_read m off n"
  by (rule nth_equalityI) (auto simp: mem_write_def)

lemma mem_read_write_inside:
  "off' \<le> off \<Longrightarrow> off + n \<le> off' + length bs \<Longrightarrow>
   mem_read (mem_write m off' bs) off n = take n (drop (off - off') bs)"
  by (rule nth_equalityI) (auto simp: mem_write_def)

lemma mem_write_read_id [simp]: "mem_write m off (mem_read m off n) = m"
  by (rule ext) (auto simp: mem_write_def)

lemma mem_write_Nil [simp]: "mem_write m off [] = m"
  by (rule ext) (auto simp: mem_write_def)

lemma mem_write_write_same [simp]:
  "length bs = length cs \<Longrightarrow> mem_write (mem_write m off cs) off bs = mem_write m off bs"
  by (rule ext) (simp add: mem_write_def)

lemma mem_read_zero [simp]: "mem_read zero_page off n = replicate n 0"
  by (rule nth_equalityI) (simp_all add: zero_page_def)

lemma mem_read_app: "mem_read m off (j + k) = mem_read m off j @ mem_read m (off + j) k"
  by (rule nth_equalityI) (auto simp: nth_append)

section \<open>Guarded access\<close>

text \<open>\<open>pg_read\<close> and \<open>pg_write\<close> are \<open>memcpy\<close> out of and into a page.\<close>

definition pg_read :: "page \<Rightarrow> nat \<Rightarrow> nat \<Rightarrow> byte list option" where
  "pg_read m off n = (if off + n \<le> PAGE_SIZE then Some (mem_read m off n) else None)"

definition pg_write :: "page \<Rightarrow> nat \<Rightarrow> byte list \<Rightarrow> page option" where
  "pg_write m off bs = (if off + length bs \<le> PAGE_SIZE then Some (mem_write m off bs) else None)"

lemma pg_read_Some [simp, page_simps]:
  "off + n \<le> PAGE_SIZE \<Longrightarrow> pg_read m off n = Some (mem_read m off n)"
  by (simp add: pg_read_def)

lemma pg_write_Some [simp, page_simps]:
  "off + length bs \<le> PAGE_SIZE \<Longrightarrow> pg_write m off bs = Some (mem_write m off bs)"
  by (simp add: pg_write_def)

lemma pg_write_None: "PAGE_SIZE < off + length bs \<Longrightarrow> pg_write m off bs = None"
  by (simp add: pg_write_def)

lemma pg_read_None: "PAGE_SIZE < off + n \<Longrightarrow> pg_read m off n = None"
  by (simp add: pg_read_def)

section \<open>Lists\<close>

lemma map_upt_cong: "(\<And>i. i < n \<Longrightarrow> f i = g i) \<Longrightarrow> map f [0..<n] = map g [0..<n]"
  by simp

lemma map_upt_update:
  "k < n \<Longrightarrow> (\<And>i. i < n \<Longrightarrow> i \<noteq> k \<Longrightarrow> f i = g i) \<Longrightarrow>
   map f [0..<n] = (map g [0..<n])[k := f k]"
  by (rule nth_equalityI) (auto simp: nth_list_update)

end
