(* ===== verification/Rid.thy ===== *)
theory Rid
  imports Prelude
begin

text \<open>
  Row identifiers (common/rid.h) and page identifiers (storage/disk/disk_manager.h).
  A page id packs a file number into its upper and a page number into its lower 16 bits;
  \<open>INVALID_PAGE_ID\<close> is the id of the last page of the last file.
\<close>

section \<open>Page identifiers\<close>

definition GetFileId :: "i32 \<Rightarrow> 16 word" where
  "GetFileId page_id = ucast (and (signed_drop_bit 16 page_id) 0xFFFF)"

definition GetPageNo :: "i32 \<Rightarrow> 16 word" where
  "GetPageNo page_id = ucast (and page_id 0xFFFF)"

definition MakePageId :: "16 word \<Rightarrow> 16 word \<Rightarrow> i32" where
  "MakePageId file_id page_no = or (push_bit 16 (ucast file_id)) (ucast page_no)"

lemma low16_mask: "(0xFFFF :: i32) = mask 16"
  by (simp add: mask_eq_exp_minus_1)

lemmas page_id_bits = GetFileId_def GetPageNo_def MakePageId_def low16_mask bit_simps

lemma GetFileId_MakePageId [simp]: "GetFileId (MakePageId f n) = f"
  by (rule bit_word_eqI) (auto simp: page_id_bits dest: bit_imp_le_length)

lemma GetPageNo_MakePageId [simp]: "GetPageNo (MakePageId f n) = n"
  by (rule bit_word_eqI) (auto simp: page_id_bits dest: bit_imp_le_length)

lemma MakePageId_GetFileId_GetPageNo [simp]: "MakePageId (GetFileId p) (GetPageNo p) = p"
  by (rule bit_word_eqI) (auto simp: page_id_bits, metis le_add_diff_inverse not_less)

lemma MakePageId_inject [simp]: "MakePageId f n = MakePageId g m \<longleftrightarrow> f = g \<and> n = m"
  by (metis GetFileId_MakePageId GetPageNo_MakePageId)

lemma page_id_cases: obtains f n where "p = MakePageId f n"
  by (metis MakePageId_GetFileId_GetPageNo)

lemma MakePageId_INVALID: "MakePageId f n = INVALID_PAGE_ID \<longleftrightarrow> f = - 1 \<and> n = - 1"
proof -
  have "MakePageId (- 1) (- 1) = INVALID_PAGE_ID"
    by (rule bit_word_eqI) (auto simp: page_id_bits INVALID_PAGE_ID_def)
  then show ?thesis by (metis MakePageId_inject)
qed

section \<open>Row identifiers\<close>

datatype RID = RID (rid_page_id: i32) (rid_slot_id: i16)

lemma sint_inject [simp]: "sint a = sint b \<longleftrightarrow> a = b"
  by (auto intro: signed_word_eqI)

text \<open>\<open>RID::operator<\<close> on the signed fields.\<close>

fun rid_less :: "RID \<Rightarrow> RID \<Rightarrow> bool" where
  "rid_less (RID p s) (RID q t) =
     (if p \<noteq> q then sint p < sint q else sint s < sint t)"

instantiation RID :: linorder
begin

definition less_RID :: "RID \<Rightarrow> RID \<Rightarrow> bool" where
  "less_RID = rid_less"

definition less_eq_RID :: "RID \<Rightarrow> RID \<Rightarrow> bool" where
  "less_eq_RID r q = (rid_less r q \<or> r = q)"

instance
proof
  fix x y z :: RID
  show "x < y \<longleftrightarrow> x \<le> y \<and> \<not> y \<le> x"
    by (cases x; cases y) (auto simp: less_RID_def less_eq_RID_def)
  show "x \<le> x" by (simp add: less_eq_RID_def)
  show "x \<le> y \<Longrightarrow> y \<le> z \<Longrightarrow> x \<le> z"
    by (cases x; cases y; cases z) (auto simp: less_eq_RID_def split: if_splits)
  show "x \<le> y \<Longrightarrow> y \<le> x \<Longrightarrow> x = y"
    by (cases x; cases y) (auto simp: less_eq_RID_def split: if_splits)
  show "x \<le> y \<or> y \<le> x"
    by (cases x; cases y)
      (auto simp: less_eq_RID_def not_less_iff_gr_or_eq)
qed

end

text \<open>The default \<open>RID\<close> stands for a key that an index does not hold.\<close>

definition default_rid :: RID where "default_rid = RID 0 0"

end
