(* ===== verification/Table_Page.thy ===== *)
theory Table_Page
  imports Rid
begin

text \<open>
  The slotted page (storage/page/table_page.h and .cpp), at the level of bytes: a header
  of 24 bytes, the slot array behind it, tuple data from the end of the page downwards.
  Every operation is in the option monad, \<open>None\<close> meaning an access outside the 16 KB of
  the page. Slot numbers are \<open>int16_t\<close> values, written as \<open>int\<close>; \<open>uint32_t\<close> arithmetic is
  taken modulo \<open>2 ^ 32\<close> where it can wrap.
\<close>

section \<open>Header\<close>

definition TABLE_PAGE_HEADER_SIZE :: nat where "TABLE_PAGE_HEADER_SIZE = 24"
definition OFFSET_PAGE_ID :: nat where "OFFSET_PAGE_ID = 0"
definition OFFSET_LSN :: nat where "OFFSET_LSN = 4"
definition OFFSET_PREV_PAGE_ID :: nat where "OFFSET_PREV_PAGE_ID = 12"
definition OFFSET_NEXT_PAGE_ID :: nat where "OFFSET_NEXT_PAGE_ID = 16"
definition OFFSET_SLOT_COUNT :: nat where "OFFSET_SLOT_COUNT = 20"
definition OFFSET_FREE_SPACE_PTR :: nat where "OFFSET_FREE_SPACE_PTR = 22"
definition SLOT_SIZE :: nat where "SLOT_SIZE = 4"

lemmas layout_defs = PAGE_SIZE_def MAX_TUPLE_SIZE_def TABLE_PAGE_HEADER_SIZE_def
  OFFSET_PAGE_ID_def OFFSET_LSN_def OFFSET_PREV_PAGE_ID_def OFFSET_NEXT_PAGE_ID_def
  OFFSET_SLOT_COUNT_def OFFSET_FREE_SPACE_PTR_def SLOT_SIZE_def

definition GetPageId :: "page \<Rightarrow> i32" where
  "GetPageId p = dec_word (mem_read p OFFSET_PAGE_ID 4)"

definition SetPageId :: "i32 \<Rightarrow> page \<Rightarrow> page" where
  "SetPageId pid p = mem_write p OFFSET_PAGE_ID (enc_word pid)"

definition GetLSN :: "page \<Rightarrow> i64" where
  "GetLSN p = dec_word (mem_read p OFFSET_LSN 8)"

definition SetLSN :: "i64 \<Rightarrow> page \<Rightarrow> page" where
  "SetLSN lsn p = mem_write p OFFSET_LSN (enc_word lsn)"

definition GetPrevPageId :: "page \<Rightarrow> i32" where
  "GetPrevPageId p = dec_word (mem_read p OFFSET_PREV_PAGE_ID 4)"

definition SetPrevPageId :: "i32 \<Rightarrow> page \<Rightarrow> page" where
  "SetPrevPageId pid p = mem_write p OFFSET_PREV_PAGE_ID (enc_word pid)"

definition GetNextPageId :: "page \<Rightarrow> i32" where
  "GetNextPageId p = dec_word (mem_read p OFFSET_NEXT_PAGE_ID 4)"

definition SetNextPageId :: "i32 \<Rightarrow> page \<Rightarrow> page" where
  "SetNextPageId pid p = mem_write p OFFSET_NEXT_PAGE_ID (enc_word pid)"

definition GetSlotCount :: "page \<Rightarrow> nat" where
  "GetSlotCount p = le_dec (mem_read p OFFSET_SLOT_COUNT 2)"

definition GetFreeSpacePointer :: "page \<Rightarrow> nat" where
  "GetFreeSpacePointer p = le_dec (mem_read p OFFSET_FREE_SPACE_PTR 2)"

text \<open>The \<open>memcpy\<close> of a \<open>uint16_t\<close> into the slot-count field.\<close>

definition set_slot_count :: "nat \<Rightarrow> page \<Rightarrow> page" where
  "set_slot_count n p = mem_write p OFFSET_SLOT_COUNT (le_enc 2 (n mod 65536))"

text \<open>\<open>TablePage::Init\<close>: zero the page, then set the header fields.\<close>

definition Init :: "i32 \<Rightarrow> page" where
  "Init pid =
     mem_write
       (set_slot_count 0
         (SetNextPageId INVALID_PAGE_ID
           (SetPrevPageId INVALID_PAGE_ID (SetLSN 0 (SetPageId pid zero_page)))))
       OFFSET_FREE_SPACE_PTR (le_enc 2 0)"

section \<open>Slots\<close>

text \<open>\<open>slot_id\<close> is converted to \<open>uint32_t\<close> before it is scaled.\<close>

definition GetSlotOffset :: "int \<Rightarrow> nat" where
  "GetSlotOffset slot_id = nat ((24 + (slot_id mod 2 ^ 32) * 4) mod 2 ^ 32)"

definition GetSlotInfo :: "page \<Rightarrow> int \<Rightarrow> (nat \<times> nat) option" where
  "GetSlotInfo p slot_id = do {
     raw_offset \<leftarrow> pg_read p (GetSlotOffset slot_id) 2;
     raw_size \<leftarrow> pg_read p (GetSlotOffset slot_id + 2) 2;
     Some (le_dec raw_offset, le_dec raw_size) }"

definition SetSlotInfo :: "int \<Rightarrow> nat \<Rightarrow> nat \<Rightarrow> page \<Rightarrow> page option" where
  "SetSlotInfo slot_id offset sz p = do {
     p \<leftarrow> pg_write p (GetSlotOffset slot_id) (le_enc 2 (offset mod 65536));
     pg_write p (GetSlotOffset slot_id + 2) (le_enc 2 (sz mod 65536)) }"

definition SetSlotDeleted :: "int \<Rightarrow> page \<Rightarrow> page option" where
  "SetSlotDeleted slot_id p = pg_write p (GetSlotOffset slot_id) (le_enc 2 0xFFFF)"

definition IsDeleted :: "page \<Rightarrow> int \<Rightarrow> bool option" where
  "IsDeleted p slot_id = do {
     raw_offset \<leftarrow> pg_read p (GetSlotOffset slot_id) 2;
     Some (le_dec raw_offset = 0xFFFF) }"

text \<open>The loop that \<open>GetFreeSpace\<close> and \<open>InsertTuple\<close> share: the lowest offset of a live tuple.\<close>

fun lowest_tuple_loop :: "page \<Rightarrow> nat list \<Rightarrow> nat \<Rightarrow> nat option" where
  "lowest_tuple_loop p [] lowest = Some lowest"
| "lowest_tuple_loop p (i # is) lowest = do {
     deleted \<leftarrow> IsDeleted p (int i);
     if deleted then lowest_tuple_loop p is lowest
     else do {
       (off, sz) \<leftarrow> GetSlotInfo p (int i);
       lowest_tuple_loop p is (if off < lowest then off else lowest) } }"

definition GetFreeSpace :: "page \<Rightarrow> nat option" where
  "GetFreeSpace p = do {
     let slot_count = GetSlotCount p;
     let slot_array_end = TABLE_PAGE_HEADER_SIZE + slot_count * SLOT_SIZE;
     lowest_tuple \<leftarrow> lowest_tuple_loop p [0..<slot_count] PAGE_SIZE;
     Some (if lowest_tuple \<le> slot_array_end then 0 else lowest_tuple - slot_array_end) }"

section \<open>Tuples\<close>

text \<open>
  The result of \<open>InsertTuple\<close> carries the slot the source writes through its out-parameter;
  \<open>None\<close> inside the pair is the return value \<open>false\<close>.
\<close>

definition InsertTuple :: "byte list \<Rightarrow> page \<Rightarrow> (int option \<times> page) option" where
  "InsertTuple data p =
     (let sz = length data in
      if sz = 0 \<or> sz > MAX_TUPLE_SIZE then Some (None, p)
      else do {
        let slot_count = GetSlotCount p;
        let slot_array_end = TABLE_PAGE_HEADER_SIZE + (slot_count + 1) * SLOT_SIZE;
        lowest_tuple \<leftarrow> lowest_tuple_loop p [0..<slot_count] PAGE_SIZE;
        let new_tuple_offset = (lowest_tuple + 2 ^ 32 - sz) mod 2 ^ 32;
        if slot_array_end > new_tuple_offset then Some (None, p)
        else do {
          p \<leftarrow> pg_write p new_tuple_offset data;
          p \<leftarrow> SetSlotInfo (int slot_count) new_tuple_offset sz p;
          Some (Some (int slot_count), set_slot_count (slot_count + 1) p) } })"

definition GetTuple :: "page \<Rightarrow> int \<Rightarrow> byte list option option" where
  "GetTuple p slot_id =
     (if slot_id < 0 \<or> slot_id \<ge> int (GetSlotCount p) then Some None
      else do {
        deleted \<leftarrow> IsDeleted p slot_id;
        if deleted then Some None
        else do {
          (offset, s) \<leftarrow> GetSlotInfo p slot_id;
          data \<leftarrow> pg_read p offset s;
          Some (Some data) } })"

definition MarkDelete :: "int \<Rightarrow> page \<Rightarrow> (bool \<times> page) option" where
  "MarkDelete slot_id p =
     (if slot_id < 0 \<or> slot_id \<ge> int (GetSlotCount p) then Some (False, p)
      else do {
        deleted \<leftarrow> IsDeleted p slot_id;
        if deleted then Some (False, p)
        else do {
          p \<leftarrow> SetSlotDeleted slot_id p;
          Some (True, p) } })"

text \<open>
  \<open>ApplyDelete\<close>: the first loop moves every tuple stored above the deleted one down by its
  size, in slot order; the second closes the gap in the slot array.
\<close>

fun compact_loop :: "int \<Rightarrow> nat \<Rightarrow> nat \<Rightarrow> nat list \<Rightarrow> page \<Rightarrow> page option" where
  "compact_loop slot_id deleted_offset deleted_size [] p = Some p"
| "compact_loop slot_id deleted_offset deleted_size (i # is) p =
     (if int i = slot_id then compact_loop slot_id deleted_offset deleted_size is p
      else do {
        deleted \<leftarrow> IsDeleted p (int i);
        if deleted then compact_loop slot_id deleted_offset deleted_size is p
        else do {
          (off, sz) \<leftarrow> GetSlotInfo p (int i);
          if off > deleted_offset then do {
            let new_off = (off + 2 ^ 32 - deleted_size) mod 2 ^ 32;
            data \<leftarrow> pg_read p off sz;
            p \<leftarrow> pg_write p new_off data;
            p \<leftarrow> SetSlotInfo (int i) new_off sz p;
            compact_loop slot_id deleted_offset deleted_size is p }
          else compact_loop slot_id deleted_offset deleted_size is p } })"

fun shift_slots_loop :: "nat list \<Rightarrow> page \<Rightarrow> page option" where
  "shift_slots_loop [] p = Some p"
| "shift_slots_loop (i # is) p = do {
     (off, sz) \<leftarrow> GetSlotInfo p (int i + 1);
     p \<leftarrow> SetSlotInfo (int i) off sz p;
     shift_slots_loop is p }"

definition ApplyDelete :: "int \<Rightarrow> page \<Rightarrow> (bool \<times> page) option" where
  "ApplyDelete slot_id p =
     (if slot_id < 0 \<or> slot_id \<ge> int (GetSlotCount p) then Some (False, p)
      else do {
        deleted \<leftarrow> IsDeleted p slot_id;
        if deleted then Some (False, p)
        else do {
          let slot_count = GetSlotCount p;
          (deleted_offset, deleted_size) \<leftarrow> GetSlotInfo p slot_id;
          p \<leftarrow> compact_loop slot_id deleted_offset deleted_size [0..<slot_count] p;
          p \<leftarrow> shift_slots_loop [nat slot_id..<slot_count - 1] p;
          Some (True, set_slot_count (slot_count - 1) p) } })"

definition UpdateTuple :: "int \<Rightarrow> byte list \<Rightarrow> page \<Rightarrow> (bool \<times> page) option" where
  "UpdateTuple slot_id new_data p =
     (if slot_id < 0 \<or> slot_id \<ge> int (GetSlotCount p) then Some (False, p)
      else do {
        deleted \<leftarrow> IsDeleted p slot_id;
        if deleted then Some (False, p)
        else do {
          let new_size = length new_data;
          (old_offset, old_size) \<leftarrow> GetSlotInfo p slot_id;
          if new_size \<le> old_size then do {
            p \<leftarrow> pg_write p old_offset new_data;
            p \<leftarrow> (if new_size < old_size
                  then pg_write p (old_offset + new_size) (replicate (old_size - new_size) 0)
                  else Some p);
            p \<leftarrow> SetSlotInfo slot_id old_offset new_size p;
            Some (True, p) }
          else do {
            (_, p) \<leftarrow> MarkDelete slot_id p;
            (inserted, p) \<leftarrow> InsertTuple new_data p;
            (case inserted of
               None \<Rightarrow> do {
                 p \<leftarrow> SetSlotInfo slot_id old_offset old_size p;
                 Some (False, p) }
             | Some new_slot_id \<Rightarrow> Some (False, p)) } } })"

end
