(* ===== verification/Table_Page_Abs.thy ===== *)
theory Table_Page_Abs
  imports Table_Page
begin

text \<open>
  What a slotted page means: the list of its slots, each holding a tuple or marked as
  deleted (\<open>tp_abs\<close>), for the pages that satisfy the layout invariant (\<open>tp_wf\<close>). The lemmas
  here evaluate the byte-level operations of \<open>Table_Page\<close> slot by slot.
\<close>

section \<open>Slots as pairs of numbers\<close>

definition slot_off :: "page \<Rightarrow> nat \<Rightarrow> nat" where
  "slot_off p k = le_dec (mem_read p (24 + 4 * k) 2)"

definition slot_size :: "page \<Rightarrow> nat \<Rightarrow> nat" where
  "slot_size p k = le_dec (mem_read p (26 + 4 * k) 2)"

definition live :: "page \<Rightarrow> nat \<Rightarrow> bool" where
  "live p k \<longleftrightarrow> slot_off p k \<noteq> 0xFFFF"

definition set_slot :: "nat \<Rightarrow> nat \<Rightarrow> nat \<Rightarrow> page \<Rightarrow> page" where
  "set_slot k off sz p =
     mem_write (mem_write p (24 + 4 * k) (le_enc 2 (off mod 65536)))
       (26 + 4 * k) (le_enc 2 (sz mod 65536))"

definition set_deleted :: "nat \<Rightarrow> page \<Rightarrow> page" where
  "set_deleted k p = mem_write p (24 + 4 * k) (le_enc 2 0xFFFF)"

abbreviation valid_slot :: "nat \<Rightarrow> bool" where "valid_slot k \<equiv> k < 4090"

lemma GetSlotOffset_int: "valid_slot k \<Longrightarrow> GetSlotOffset (int k) = 24 + 4 * k"
  by (simp add: GetSlotOffset_def nat_eq_iff)

lemma GetSlotInfo_int [simp]:
  "valid_slot k \<Longrightarrow> GetSlotInfo p (int k) = Some (slot_off p k, slot_size p k)"
  by (simp add: GetSlotInfo_def GetSlotOffset_int slot_off_def slot_size_def layout_defs)

lemma IsDeleted_int [simp]: "valid_slot k \<Longrightarrow> IsDeleted p (int k) = Some (\<not> live p k)"
  by (simp add: IsDeleted_def GetSlotOffset_int slot_off_def live_def layout_defs)

lemma SetSlotInfo_int [simp]:
  "valid_slot k \<Longrightarrow> SetSlotInfo (int k) off sz p = Some (set_slot k off sz p)"
  by (simp add: SetSlotInfo_def GetSlotOffset_int set_slot_def layout_defs)

lemma SetSlotDeleted_int [simp]:
  "valid_slot k \<Longrightarrow> SetSlotDeleted (int k) p = Some (set_deleted k p)"
  by (simp add: SetSlotDeleted_def GetSlotOffset_int set_deleted_def layout_defs)

lemma slot_set_slot:
  "slot_off (set_slot k off sz p) j = (if j = k then off mod 65536 else slot_off p j)"
  "slot_size (set_slot k off sz p) j = (if j = k then sz mod 65536 else slot_size p j)"
  by (cases j k rule: linorder_cases;
      simp add: slot_off_def slot_size_def set_slot_def mem_read_write_disjoint)+

lemma slot_set_deleted:
  "slot_off (set_deleted k p) j = (if j = k then 0xFFFF else slot_off p j)"
  "slot_size (set_deleted k p) j = slot_size p j"
  by (cases j k rule: linorder_cases;
      simp add: slot_off_def slot_size_def set_deleted_def mem_read_write_disjoint)+

lemma slot_set_count:
  "slot_off (set_slot_count n p) j = slot_off p j"
  "slot_size (set_slot_count n p) j = slot_size p j"
  by (auto simp: slot_off_def slot_size_def set_slot_count_def layout_defs mem_read_write_disjoint)

lemma slot_write_above:
  "24 + 4 * j + 4 \<le> off \<Longrightarrow> slot_off (mem_write p off bs) j = slot_off p j"
  "24 + 4 * j + 4 \<le> off \<Longrightarrow> slot_size (mem_write p off bs) j = slot_size p j"
  by (auto simp: slot_off_def slot_size_def mem_read_write_disjoint)

lemmas slot_simps = slot_set_slot slot_set_deleted slot_set_count

lemma slot_bounds [simp]: "slot_off p k < 65536" "slot_size p k < 65536"
  using le_dec_bound [of "mem_read p (24 + 4 * k) 2"] le_dec_bound [of "mem_read p (26 + 4 * k) 2"]
  by (simp_all add: slot_off_def slot_size_def)

lemma set_slot_idem [simp]: "set_slot k (slot_off p k) (slot_size p k) p = p"
proof -
  have "le_enc 2 (slot_off p k) = mem_read p (24 + 4 * k) 2"
    and "le_enc 2 (slot_size p k) = mem_read p (26 + 4 * k) 2"
    by (simp_all add: slot_off_def slot_size_def del: le_enc.simps)
  then show ?thesis by (simp add: set_slot_def)
qed

section \<open>Well-formed pages and their meaning\<close>

text \<open>
  \<open>tp_wf\<close>: the slot array fits into the page, every live tuple lies between the slot array
  and the end of the page and is no longer than the callers' buffers, and live tuples do
  not overlap.
\<close>

definition slot_end :: "page \<Rightarrow> nat" where
  "slot_end p = 24 + 4 * GetSlotCount p"

definition tuple_in :: "page \<Rightarrow> nat \<Rightarrow> bool" where
  "tuple_in p k \<longleftrightarrow> slot_end p \<le> slot_off p k \<and> slot_off p k + slot_size p k \<le> PAGE_SIZE \<and>
     slot_size p k \<le> MAX_TUPLE_SIZE"

definition apart :: "page \<Rightarrow> nat \<Rightarrow> nat \<Rightarrow> bool" where
  "apart p j k \<longleftrightarrow> slot_off p j + slot_size p j \<le> slot_off p k \<or>
     slot_off p k + slot_size p k \<le> slot_off p j"

definition tp_wf :: "page \<Rightarrow> bool" where
  "tp_wf p \<longleftrightarrow> slot_end p \<le> PAGE_SIZE \<and>
     (\<forall>k < GetSlotCount p. live p k \<longrightarrow> tuple_in p k) \<and>
     (\<forall>k < GetSlotCount p. \<forall>j < k. live p j \<longrightarrow> live p k \<longrightarrow> apart p j k)"

definition tuple_at :: "page \<Rightarrow> nat \<Rightarrow> byte list" where
  "tuple_at p k = mem_read p (slot_off p k) (slot_size p k)"

definition tp_slot :: "page \<Rightarrow> nat \<Rightarrow> byte list option" where
  "tp_slot p k = (if live p k then Some (tuple_at p k) else None)"

definition tp_abs :: "page \<Rightarrow> byte list option list" where
  "tp_abs p = map (tp_slot p) [0..<GetSlotCount p]"

lemma length_tp_abs [simp]: "length (tp_abs p) = GetSlotCount p"
  by (simp add: tp_abs_def)

lemma nth_tp_abs: "k < GetSlotCount p \<Longrightarrow> tp_abs p ! k = tp_slot p k"
  by (simp add: tp_abs_def)

lemma tp_wf_slots: "tp_wf p \<Longrightarrow> GetSlotCount p \<le> 4090"
  by (simp add: tp_wf_def slot_end_def layout_defs)

lemma tp_wf_valid: "tp_wf p \<Longrightarrow> k < GetSlotCount p \<Longrightarrow> valid_slot k"
  by (drule tp_wf_slots) simp

lemma tp_wf_tuple: "tp_wf p \<Longrightarrow> k < GetSlotCount p \<Longrightarrow> live p k \<Longrightarrow> tuple_in p k"
  by (simp add: tp_wf_def)

lemma apart_sym: "apart p j k = apart p k j"
  by (auto simp: apart_def)

lemma tp_wf_apart:
  "tp_wf p \<Longrightarrow> j < GetSlotCount p \<Longrightarrow> k < GetSlotCount p \<Longrightarrow> j \<noteq> k \<Longrightarrow> live p j \<Longrightarrow> live p k \<Longrightarrow>
   apart p j k"
  by (cases j k rule: linorder_cases) (auto simp: tp_wf_def apart_sym)

section \<open>The lowest tuple\<close>

definition lowest_tuple :: "page \<Rightarrow> nat" where
  "lowest_tuple p =
     fold (\<lambda>k low. if live p k \<and> slot_off p k < low then slot_off p k else low)
       [0..<GetSlotCount p] PAGE_SIZE"

lemma lowest_tuple_loop_fold:
  "\<forall>k \<in> set ks. valid_slot k \<Longrightarrow>
   lowest_tuple_loop p ks low =
     Some (fold (\<lambda>k low. if live p k \<and> slot_off p k < low then slot_off p k else low) ks low)"
  by (induction ks arbitrary: low) auto

lemma lowest_tuple_loop_wf:
  "tp_wf p \<Longrightarrow> lowest_tuple_loop p [0..<GetSlotCount p] PAGE_SIZE = Some (lowest_tuple p)"
  by (simp add: lowest_tuple_loop_fold lowest_tuple_def tp_wf_valid)

lemma fold_lowest_le:
  "fold (\<lambda>k low. if P k \<and> f k < low then f k else low) ks (low::nat) \<le> low"
  by (induction ks arbitrary: low) (auto intro: le_trans less_imp_le)

lemma fold_lowest_le_mem:
  "k \<in> set ks \<Longrightarrow> P k \<Longrightarrow>
   fold (\<lambda>k low. if P k \<and> f k < low then f k else low) ks (low::nat) \<le> f k"
proof (induction ks arbitrary: low)
  case Nil
  then show ?case by simp
next
  case (Cons j ks)
  show ?case
  proof (cases "k \<in> set ks")
    case True
    then show ?thesis using Cons by simp
  next
    case False
    then have "k = j" using Cons.prems by simp
    then show ?thesis
      using fold_lowest_le [of P f ks "if P j \<and> f j < low then f j else low"] Cons.prems
      by (auto split: if_splits)
  qed
qed

lemma fold_lowest_in:
  "fold (\<lambda>k low. if P k \<and> f k < low then f k else low) ks (low::nat) = low \<or>
   (\<exists>k \<in> set ks. P k \<and> fold (\<lambda>k low. if P k \<and> f k < low then f k else low) ks low = f k)"
proof (induction ks arbitrary: low)
  case Nil
  then show ?case by simp
next
  case (Cons j ks)
  show ?case
    using Cons [of "if P j \<and> f j < low then f j else low"] by (auto split: if_splits)
qed

lemma lowest_tuple_le: "lowest_tuple p \<le> PAGE_SIZE"
  unfolding lowest_tuple_def by (rule fold_lowest_le)

lemma lowest_tuple_le_off:
  "k < GetSlotCount p \<Longrightarrow> live p k \<Longrightarrow> lowest_tuple p \<le> slot_off p k"
  unfolding lowest_tuple_def by (rule fold_lowest_le_mem) auto

lemma lowest_tuple_ge:
  assumes "tp_wf p" shows "slot_end p \<le> lowest_tuple p"
proof -
  have "lowest_tuple p = PAGE_SIZE \<or>
      (\<exists>k \<in> set [0..<GetSlotCount p]. live p k \<and> lowest_tuple p = slot_off p k)"
    unfolding lowest_tuple_def by (rule fold_lowest_in)
  then show ?thesis
    using assms by (auto simp: tp_wf_def tuple_in_def)
qed

definition free_space :: "page \<Rightarrow> nat" where
  "free_space p = lowest_tuple p - slot_end p"

lemma GetFreeSpace_wf: "tp_wf p \<Longrightarrow> GetFreeSpace p = Some (free_space p)"
  by (simp add: GetFreeSpace_def lowest_tuple_loop_wf free_space_def slot_end_def
      TABLE_PAGE_HEADER_SIZE_def SLOT_SIZE_def Let_def mult.commute)

section \<open>Fields survive the writes of the operations\<close>

lemma GetSlotCount_set_slot [simp]: "GetSlotCount (set_slot k off sz p) = GetSlotCount p"
  by (simp add: GetSlotCount_def set_slot_def layout_defs mem_read_write_disjoint)

lemma GetSlotCount_set_deleted [simp]: "GetSlotCount (set_deleted k p) = GetSlotCount p"
  by (simp add: GetSlotCount_def set_deleted_def layout_defs mem_read_write_disjoint)

lemma GetSlotCount_set_count [simp]: "n < 65536 \<Longrightarrow> GetSlotCount (set_slot_count n p) = n"
  by (simp add: GetSlotCount_def set_slot_count_def layout_defs)

lemma GetSlotCount_write [simp]: "24 \<le> off \<Longrightarrow> GetSlotCount (mem_write p off bs) = GetSlotCount p"
  by (simp add: GetSlotCount_def layout_defs mem_read_write_disjoint)

lemma tuple_read_set_slot:
  "24 + 4 * k + 4 \<le> a \<Longrightarrow> mem_read (set_slot k off sz p) a n = mem_read p a n"
  by (simp add: set_slot_def mem_read_write_disjoint)

lemma tuple_read_set_deleted:
  "24 + 4 * k + 4 \<le> a \<Longrightarrow> mem_read (set_deleted k p) a n = mem_read p a n"
  by (simp add: set_deleted_def mem_read_write_disjoint)

lemma tuple_read_set_count:
  "24 \<le> a \<Longrightarrow> mem_read (set_slot_count c p) a n = mem_read p a n"
  by (simp add: set_slot_count_def layout_defs mem_read_write_disjoint)

lemmas tuple_reads = tuple_read_set_slot tuple_read_set_deleted tuple_read_set_count

section \<open>Init\<close>

lemma GetSlotCount_Init [simp]: "GetSlotCount (Init pid) = 0"
  by (simp add: GetSlotCount_def Init_def set_slot_count_def layout_defs mem_read_write_disjoint)

lemma header_Init [simp]:
  "GetNextPageId (Init pid) = INVALID_PAGE_ID" "GetPrevPageId (Init pid) = INVALID_PAGE_ID"
  "GetPageId (Init pid) = pid" "GetLSN (Init pid) = 0"
  by (simp_all add: GetNextPageId_def GetPrevPageId_def GetPageId_def GetLSN_def Init_def
      SetNextPageId_def SetPrevPageId_def SetPageId_def SetLSN_def set_slot_count_def layout_defs
      mem_read_write_disjoint)

lemma tp_wf_Init [simp]: "tp_wf (Init pid)"
  by (simp add: tp_wf_def slot_end_def PAGE_SIZE_def)

lemma tp_abs_Init [simp]: "tp_abs (Init pid) = []"
  by (simp add: tp_abs_def)

section \<open>InsertTuple\<close>

definition inserted_page :: "byte list \<Rightarrow> page \<Rightarrow> page" where
  "inserted_page data p =
     (let n = GetSlotCount p; off = lowest_tuple p - length data in
      set_slot_count (n + 1) (set_slot n off (length data) (mem_write p off data)))"

lemma InsertTuple_reject:
  "data = [] \<or> length data > MAX_TUPLE_SIZE \<Longrightarrow> InsertTuple data p = Some (None, p)"
  by (auto simp: InsertTuple_def)

lemma InsertTuple_run:
  assumes "tp_wf p" "data \<noteq> []" "length data \<le> MAX_TUPLE_SIZE" "length data \<le> lowest_tuple p"
  shows "InsertTuple data p =
    (if slot_end p + 4 + length data \<le> lowest_tuple p
     then Some (Some (int (GetSlotCount p)), inserted_page data p) else Some (None, p))"
proof -
  let ?n = "GetSlotCount p" and ?low = "lowest_tuple p" and ?sz = "length data"
  have low: "?low \<le> 16384" using lowest_tuple_le [of p] by (simp add: PAGE_SIZE_def)
  then have off: "(?low + 2 ^ 32 - ?sz) mod 2 ^ 32 = ?low - ?sz"
    using assms(4) by (simp add: mod_if)
  show ?thesis
  proof (cases "slot_end p + 4 + ?sz \<le> ?low")
    case True
    then have n: "?n < 4090" using low by (simp add: slot_end_def)
    have "?low - ?sz + ?sz \<le> PAGE_SIZE" using lowest_tuple_le [of p] assms(4) by simp
    with True n assms off show ?thesis
      by (simp add: InsertTuple_def lowest_tuple_loop_wf slot_end_def TABLE_PAGE_HEADER_SIZE_def
          SLOT_SIZE_def Let_def inserted_page_def)
  next
    case False
    with assms off show ?thesis
      by (simp add: InsertTuple_def lowest_tuple_loop_wf slot_end_def TABLE_PAGE_HEADER_SIZE_def
          SLOT_SIZE_def Let_def)
  qed
qed

text \<open>
  The wrap-around: when the tuple is longer than everything below the lowest live tuple,
  the unsigned subtraction wraps, the overlap test passes and the write leaves the page.
\<close>

lemma InsertTuple_wraps:
  assumes "tp_wf p" "length data \<le> MAX_TUPLE_SIZE" "lowest_tuple p < length data"
  shows "InsertTuple data p = None"
proof -
  let ?n = "GetSlotCount p" and ?low = "lowest_tuple p" and ?sz = "length data"
  have sz: "?sz \<le> 8192" and n: "?n \<le> 4090" and "data \<noteq> []"
    using assms tp_wf_slots by (auto simp: MAX_TUPLE_SIZE_def)
  have off: "(?low + 2 ^ 32 - ?sz) mod 2 ^ 32 = ?low + 2 ^ 32 - ?sz"
    using assms(3) by simp
  have big: "PAGE_SIZE < ?low + 2 ^ 32 - ?sz + ?sz" and "\<not> ?low + 2 ^ 32 - ?sz < 24 + (?n + 1) * 4"
    using sz n by (simp_all add: PAGE_SIZE_def)
  with off show ?thesis
    using assms(1,2) \<open>data \<noteq> []\<close>
    by (simp add: InsertTuple_def lowest_tuple_loop_wf TABLE_PAGE_HEADER_SIZE_def SLOT_SIZE_def
        Let_def pg_write_None)
qed

text \<open>The state after a successful insertion.\<close>

definition fits :: "byte list \<Rightarrow> page \<Rightarrow> bool" where
  "fits data p \<longleftrightarrow> data \<noteq> [] \<and> length data \<le> MAX_TUPLE_SIZE \<and>
     slot_end p + 4 + length data \<le> lowest_tuple p"

lemma fits_room:
  assumes "fits data p"
  shows "24 + 4 * GetSlotCount p + 4 \<le> lowest_tuple p - length data"
    "lowest_tuple p - length data + length data = lowest_tuple p"
    "length data \<le> 8192" "lowest_tuple p \<le> 16384"
  using assms lowest_tuple_le [of p] by (auto simp: fits_def slot_end_def layout_defs)

lemma fits_slots: "fits data p \<Longrightarrow> GetSlotCount p < 4090"
  using lowest_tuple_le [of p] by (simp add: fits_def slot_end_def PAGE_SIZE_def)

lemma inserted_count:
  "fits data p \<Longrightarrow> GetSlotCount (inserted_page data p) = Suc (GetSlotCount p)"
  using fits_slots [of data p] by (simp add: inserted_page_def Let_def)

lemma inserted_slot:
  assumes "fits data p" "k \<le> GetSlotCount p"
  shows "slot_off (inserted_page data p) k =
      (if k = GetSlotCount p then lowest_tuple p - length data else slot_off p k)"
    and "slot_size (inserted_page data p) k =
      (if k = GetSlotCount p then length data else slot_size p k)"
proof -
  have "lowest_tuple p - length data < 65536" "length data < 65536"
    "24 + 4 * k + 4 \<le> lowest_tuple p - length data"
    using fits_room [OF assms(1)] assms(2) by simp_all
  then show "slot_off (inserted_page data p) k =
      (if k = GetSlotCount p then lowest_tuple p - length data else slot_off p k)"
    and "slot_size (inserted_page data p) k =
      (if k = GetSlotCount p then length data else slot_size p k)"
    by (simp_all add: inserted_page_def Let_def slot_simps slot_write_above)
qed

lemma inserted_live:
  assumes "fits data p" "k \<le> GetSlotCount p"
  shows "live (inserted_page data p) k = (k = GetSlotCount p \<or> live p k)"
proof -
  have "lowest_tuple p - length data < 0xFFFF"
    using assms lowest_tuple_le [of p] by (simp add: layout_defs)
  then show ?thesis using assms by (simp add: live_def inserted_slot)
qed

lemma inserted_read:
  assumes "fits data p" "lowest_tuple p \<le> a"
  shows "mem_read (inserted_page data p) a n = mem_read p a n"
proof -
  have "24 + 4 * GetSlotCount p + 4 \<le> a" "24 \<le> a"
    "lowest_tuple p - length data + length data \<le> a"
    using assms by (simp_all add: fits_def slot_end_def)
  then show ?thesis
    by (simp add: inserted_page_def Let_def tuple_reads mem_read_write_disjoint)
qed

lemma inserted_data:
  assumes "fits data p"
  shows "mem_read (inserted_page data p) (lowest_tuple p - length data) (length data) = data"
proof -
  have "24 + 4 * GetSlotCount p + 4 \<le> lowest_tuple p - length data" "24 \<le> lowest_tuple p - length data"
    using fits_room [OF assms] by simp_all
  then show ?thesis by (simp add: inserted_page_def Let_def tuple_reads)
qed

lemma inserted_wf:
  assumes wf: "tp_wf p" and f: "fits data p"
  shows "tp_wf (inserted_page data p)"
proof -
  let ?q = "inserted_page data p" and ?n = "GetSlotCount p"
  have e: "slot_end ?q = slot_end p + 4" using f by (simp add: slot_end_def inserted_count)
  have room: "slot_end p + 4 + length data \<le> lowest_tuple p" and sz: "length data \<le> MAX_TUPLE_SIZE"
    using f by (simp_all add: fits_def)
  have low: "lowest_tuple p \<le> PAGE_SIZE" by (rule lowest_tuple_le)
  have old: "slot_end p + 4 \<le> slot_off p k \<and> lowest_tuple p \<le> slot_off p k" if "k < ?n" "live p k" for k
    using lowest_tuple_le_off [OF that] room by simp
  have "tuple_in ?q k" if "k < Suc ?n" "live ?q k" for k
  proof (cases "k = ?n")
    case True
    then show ?thesis using f e room sz low by (simp add: tuple_in_def inserted_slot)
  next
    case False
    with that have "k < ?n" "live p k" using f by (simp_all add: inserted_live)
    then show ?thesis
      using f e old [of k] tp_wf_tuple [OF wf] by (simp add: tuple_in_def inserted_slot)
  qed
  moreover have "apart ?q j k" if "k < Suc ?n" "j < k" "live ?q j" "live ?q k" for j k
  proof -
    have j: "j < ?n" "live p j" using that f by (simp_all add: inserted_live)
    show ?thesis
    proof (cases "k = ?n")
      case True
      then show ?thesis using f j old [of j] room by (simp add: apart_def inserted_slot)
    next
      case False
      with that have "k < ?n" "live p k" using f by (simp_all add: inserted_live)
      then show ?thesis
        using f j tp_wf_apart [OF wf, of j k] that(2) by (simp add: apart_def inserted_slot)
    qed
  qed
  ultimately show ?thesis
    using f e room low by (simp add: tp_wf_def inserted_count)
qed

lemma inserted_abs:
  assumes "tp_wf p" and f: "fits data p"
  shows "tp_abs (inserted_page data p) = tp_abs p @ [Some data]"
proof (rule nth_equalityI)
  let ?q = "inserted_page data p" and ?n = "GetSlotCount p"
  show "length (tp_abs ?q) = length (tp_abs p @ [Some data])"
    using f by (simp add: inserted_count)
  fix k assume "k < length (tp_abs ?q)"
  then have k: "k < Suc ?n" using f by (simp add: inserted_count)
  show "tp_abs ?q ! k = (tp_abs p @ [Some data]) ! k"
  proof (cases "k = ?n")
    case True
    then show ?thesis
      using f by (simp add: nth_tp_abs inserted_count tp_slot_def inserted_live tuple_at_def
          inserted_slot inserted_data nth_append)
  next
    case False
    then have "k < ?n" using k by simp
    then show ?thesis
      using f lowest_tuple_le_off [of k p]
      by (auto simp: nth_tp_abs inserted_count tp_slot_def inserted_live tuple_at_def
          inserted_slot inserted_read nth_append)
  qed
qed

lemma InsertTuple_fits:
  "tp_wf p \<Longrightarrow> fits data p \<Longrightarrow>
   InsertTuple data p = Some (Some (int (GetSlotCount p)), inserted_page data p)"
  by (subst InsertTuple_run) (auto simp: fits_def)

section \<open>GetTuple and MarkDelete\<close>

lemma GetTuple_wf:
  assumes "tp_wf p"
  shows "GetTuple p s =
    Some (if 0 \<le> s \<and> s < int (GetSlotCount p) then tp_abs p ! nat s else None)"
proof (cases "0 \<le> s \<and> s < int (GetSlotCount p)")
  case True
  then obtain k where k: "s = int k" "k < GetSlotCount p"
    by (metis nat_0_le of_nat_less_iff)
  with assms tp_wf_valid [OF assms] tp_wf_tuple [OF assms, of k] show ?thesis
    by (auto simp: GetTuple_def nth_tp_abs tp_slot_def tuple_in_def tuple_at_def)
next
  case False
  then show ?thesis by (auto simp: GetTuple_def)
qed

lemma deleted_live: "live (set_deleted k p) j = (j \<noteq> k \<and> live p j)"
  by (simp add: live_def slot_simps)

lemma deleted_wf: "tp_wf p \<Longrightarrow> tp_wf (set_deleted k p)"
  by (auto simp: tp_wf_def slot_end_def tuple_in_def apart_def deleted_live slot_simps)

lemma deleted_abs:
  assumes "tp_wf p" "k < GetSlotCount p"
  shows "tp_abs (set_deleted k p) = (tp_abs p)[k := None]"
proof (rule nth_equalityI)
  fix j assume "j < length (tp_abs (set_deleted k p))"
  then have j: "j < GetSlotCount p" by simp
  show "tp_abs (set_deleted k p) ! j = (tp_abs p)[k := None] ! j"
  proof (cases "j \<noteq> k \<and> live p j")
    case True
    then have "24 + 4 * k + 4 \<le> slot_off p j"
      using tp_wf_tuple [OF assms(1) j] assms(2) by (simp add: tuple_in_def slot_end_def)
    then show ?thesis
      using True j by (simp add: nth_tp_abs tp_slot_def deleted_live tuple_at_def slot_simps tuple_reads)
  next
    case False
    then show ?thesis
      using j assms(2) by (auto simp: nth_tp_abs nth_list_update tp_slot_def deleted_live)
  qed
qed simp

lemma MarkDelete_wf:
  assumes "tp_wf p" "k < GetSlotCount p"
  shows "MarkDelete (int k) p = Some (if live p k then (True, set_deleted k p) else (False, p))"
  using assms tp_wf_valid [OF assms] by (simp add: MarkDelete_def)

lemma MarkDelete_out: "s < 0 \<or> s \<ge> int (GetSlotCount p) \<Longrightarrow> MarkDelete s p = Some (False, p)"
  by (auto simp: MarkDelete_def)

section \<open>UpdateTuple\<close>

definition updated_page :: "nat \<Rightarrow> byte list \<Rightarrow> page \<Rightarrow> page" where
  "updated_page k data p =
     set_slot k (slot_off p k) (length data)
       (mem_write p (slot_off p k) (data @ replicate (slot_size p k - length data) 0))"

lemma mem_write_append:
  "mem_write (mem_write p a xs) (a + length xs) ys = mem_write p a (xs @ ys)"
  by (rule ext) (auto simp: mem_write_def nth_append)

lemma UpdateTuple_in_place:
  assumes wf: "tp_wf p" and k: "k < GetSlotCount p" "live p k" and sz: "length data \<le> slot_size p k"
  shows "UpdateTuple (int k) data p = Some (True, updated_page k data p)"
proof -
  have "slot_off p k + slot_size p k \<le> PAGE_SIZE"
    using tp_wf_tuple [OF wf k] by (simp add: tuple_in_def)
  then show ?thesis
    using k sz tp_wf_valid [OF wf k(1)]
    by (auto simp: UpdateTuple_def updated_page_def Let_def mem_write_append)
qed

lemma updated_slot:
  assumes wf: "tp_wf p" and k: "k < GetSlotCount p" "live p k" and sz: "length data \<le> slot_size p k"
    and j: "j < GetSlotCount p"
  shows "slot_off (updated_page k data p) j = slot_off p j"
    and "slot_size (updated_page k data p) j = (if j = k then length data else slot_size p j)"
proof -
  have "24 + 4 * j + 4 \<le> slot_off p k" "length data < 65536"
    using tp_wf_tuple [OF wf k] j sz le_less_trans [OF sz slot_bounds(2)]
    by (auto simp: tuple_in_def slot_end_def)
  then show "slot_off (updated_page k data p) j = slot_off p j"
    and "slot_size (updated_page k data p) j = (if j = k then length data else slot_size p j)"
    using slot_bounds(1) [of p k]
    by (auto simp: updated_page_def slot_simps slot_write_above simp del: slot_bounds)
qed

lemma updated_count:
  assumes "tp_wf p" "k < GetSlotCount p" "live p k"
  shows "GetSlotCount (updated_page k data p) = GetSlotCount p"
proof -
  have "24 \<le> slot_off p k"
    using tp_wf_tuple [OF assms] by (simp add: tuple_in_def slot_end_def)
  then show ?thesis by (simp add: updated_page_def)
qed

lemma updated_wf:
  assumes "tp_wf p" "k < GetSlotCount p" "live p k" "length data \<le> slot_size p k"
  shows "tp_wf (updated_page k data p)"
proof -
  let ?q = "updated_page k data p"
  note cnt = updated_count [OF assms(1-3), of data] and slot = updated_slot [OF assms]
  have live: "live ?q j = live p j" if "j < GetSlotCount p" for j
    using slot [OF that] by (simp add: live_def)
  have "tuple_in ?q j" if "j < GetSlotCount p" "live p j" for j
    using tp_wf_tuple [OF assms(1) that] that assms(4) slot [OF that(1)] cnt
    by (auto simp: tuple_in_def slot_end_def)
  moreover have "apart ?q i j" if "j < GetSlotCount p" "i < j" "live p i" "live p j" for i j
    using tp_wf_apart [OF assms(1), of i j] that assms(4) slot [of i] slot [of j]
    by (auto simp: apart_def split: if_splits)
  moreover have "slot_end ?q \<le> PAGE_SIZE" using assms(1) cnt by (simp add: tp_wf_def slot_end_def)
  ultimately show ?thesis
    using cnt live by (auto simp: tp_wf_def)
qed

lemma updated_abs:
  assumes "tp_wf p" "k < GetSlotCount p" "live p k" "length data \<le> slot_size p k"
  shows "tp_abs (updated_page k data p) = (tp_abs p)[k := Some data]"
proof (rule nth_equalityI)
  let ?q = "updated_page k data p"
  note cnt = updated_count [OF assms(1-3), of data] and slot = updated_slot [OF assms]
  show "length (tp_abs ?q) = length ((tp_abs p)[k := Some data])" using cnt by simp
  fix j assume "j < length (tp_abs ?q)"
  then have j: "j < GetSlotCount p" using cnt by simp
  have live: "live ?q j = live p j" using slot [OF j] by (simp add: live_def)
  have above: "24 + 4 * k + 4 \<le> slot_off p i" if "i < GetSlotCount p" "live p i" for i
    using tp_wf_tuple [OF assms(1) that] assms(2) by (simp add: tuple_in_def slot_end_def)
  show "tp_abs ?q ! j = (tp_abs p)[k := Some data] ! j"
  proof (cases "j = k")
    case True
    have "tuple_at ?q k = take (length data) (data @ replicate (slot_size p k - length data) 0)"
      using assms above [OF assms(2,3)]
      by (subst tuple_at_def, simp only: slot [OF assms(2)] if_True)
        (simp add: updated_page_def tuple_reads mem_read_write_inside)
    then show ?thesis
      using True j assms(3) cnt live by (simp add: nth_tp_abs tp_slot_def)
  next
    case False
    have "tuple_at ?q j = tuple_at p j" if "live p j"
      using False assms above [OF j that] tp_wf_apart [OF assms(1) j assms(2) False that assms(3)]
      by (simp add: tuple_at_def slot [OF j])
        (auto simp: updated_page_def tuple_reads apart_def mem_read_write_disjoint)
    then show ?thesis
      using False j cnt live by (simp add: nth_tp_abs tp_slot_def)
  qed
qed

lemma restore_deleted [simp]:
  "set_slot k (slot_off p k) (slot_size p k) (set_deleted k p) = p"
proof -
  have "mem_write (set_deleted k p) (24 + 4 * k) (le_enc 2 (slot_off p k mod 65536)) =
      mem_write p (24 + 4 * k) (le_enc 2 (slot_off p k mod 65536))"
    by (simp add: set_deleted_def)
  then have "set_slot k (slot_off p k) (slot_size p k) (set_deleted k p) =
      set_slot k (slot_off p k) (slot_size p k) p"
    by (simp add: set_slot_def)
  then show ?thesis by simp
qed

lemma UpdateTuple_grow:
  assumes wf: "tp_wf p" and k: "k < GetSlotCount p" "live p k" and sz: "slot_size p k < length data"
    and max: "length data \<le> MAX_TUPLE_SIZE"
  shows "UpdateTuple (int k) data p =
    (if lowest_tuple (set_deleted k p) < length data then None
     else Some (False, if fits data (set_deleted k p) then inserted_page data (set_deleted k p) else p))"
proof -
  let ?q = "set_deleted k p"
  have q: "tp_wf ?q" "GetSlotCount ?q = GetSlotCount p" using wf by (simp_all add: deleted_wf)
  have "data \<noteq> []" using sz by auto
  then have ins: "InsertTuple data ?q =
      (if lowest_tuple ?q < length data then None
       else if fits data ?q then Some (Some (int (GetSlotCount p)), inserted_page data ?q)
       else Some (None, ?q))"
    using InsertTuple_wraps [OF q(1) max] InsertTuple_run [OF q(1) _ max] max q(2)
    by (simp add: fits_def)
  have v: "valid_slot k" by (rule tp_wf_valid [OF wf k(1)])
  have "\<not> length data \<le> slot_size p k" using sz by simp
  then show ?thesis
    using k v by (simp add: UpdateTuple_def Let_def ins MarkDelete_wf [OF wf k(1)])
qed

section \<open>ApplyDelete\<close>

text \<open>The loop over the slot array; \<open>shifted\<close> is its effect on the fields of the slots.\<close>

fun shifted :: "nat list \<Rightarrow> page \<Rightarrow> page" where
  "shifted [] p = p"
| "shifted (i # is) p = shifted is (set_slot i (slot_off p (Suc i)) (slot_size p (Suc i)) p)"

lemma shift_slots_loop_shifted:
  "\<forall>i \<in> set is. Suc i < 4090 \<Longrightarrow> shift_slots_loop is p = Some (shifted is p)"
proof (induction "is" arbitrary: p)
  case Nil
  then show ?case by simp
next
  case (Cons i "is")
  have "GetSlotInfo p (int i + 1) = Some (slot_off p (Suc i), slot_size p (Suc i))"
    using GetSlotInfo_int [of "Suc i" p] Cons.prems by (simp add: add.commute)
  with Cons show ?case by simp
qed

lemma shifted_slots:
  "slot_off (shifted [a..<b] p) j = (if a \<le> j \<and> j < b then slot_off p (Suc j) else slot_off p j) \<and>
   slot_size (shifted [a..<b] p) j = (if a \<le> j \<and> j < b then slot_size p (Suc j) else slot_size p j)"
proof (induction "b - a" arbitrary: a p)
  case 0
  then show ?case by simp
next
  case (Suc d)
  then have "[a..<b] = a # [Suc a..<b]" "d = b - Suc a" by (simp_all add: upt_rec)
  then show ?case
    using Suc.hyps(1) [of "Suc a"] Suc.hyps(2) by (auto simp: slot_simps not_less_eq_eq le_Suc_eq)
qed

lemma shifted_read:
  "b \<le> m \<Longrightarrow> 24 + 4 * m \<le> x \<Longrightarrow> mem_read (shifted [a..<b] p) x n = mem_read p x n"
proof (induction "b - a" arbitrary: a p)
  case 0
  then show ?case by simp
next
  case (Suc d)
  then have "[a..<b] = a # [Suc a..<b]" "d = b - Suc a" "a < b" by (simp_all add: upt_rec)
  then show ?case using Suc by (simp add: tuple_reads)
qed

lemma shifted_count [simp]: "GetSlotCount (shifted is p) = GetSlotCount p"
  by (induction "is" arbitrary: p) simp_all

lemma compact_loop_none:
  "\<forall>i \<in> set is. valid_slot i \<Longrightarrow>
   \<forall>i \<in> set is. int i \<noteq> s \<longrightarrow> live p i \<longrightarrow> slot_off p i \<le> off \<Longrightarrow>
   compact_loop s off sz is p = Some p"
  by (induction "is") auto

text \<open>
  Deleting the tuple stored at the highest offset: nothing is moved, the slot disappears
  and the later slots are renumbered.
\<close>

definition highest :: "nat \<Rightarrow> page \<Rightarrow> bool" where
  "highest k p \<longleftrightarrow> (\<forall>i < GetSlotCount p. live p i \<longrightarrow> slot_off p i \<le> slot_off p k)"

definition removed_page :: "nat \<Rightarrow> page \<Rightarrow> page" where
  "removed_page k p = set_slot_count (GetSlotCount p - 1) (shifted [k..<GetSlotCount p - 1] p)"

lemma ApplyDelete_highest:
  assumes wf: "tp_wf p" and k: "k < GetSlotCount p" "live p k" "highest k p"
  shows "ApplyDelete (int k) p = Some (True, removed_page k p)"
proof -
  have v: "valid_slot k" by (rule tp_wf_valid [OF wf k(1)])
  have "compact_loop (int k) (slot_off p k) (slot_size p k) [0..<GetSlotCount p] p = Some p"
    using k(3) tp_wf_valid [OF wf] by (intro compact_loop_none) (auto simp: highest_def)
  moreover have "shift_slots_loop [k..<GetSlotCount p - 1] p =
      Some (shifted [k..<GetSlotCount p - 1] p)"
    using tp_wf_slots [OF wf] by (intro shift_slots_loop_shifted) auto
  ultimately show ?thesis
    using k v by (simp add: ApplyDelete_def removed_page_def Let_def)
qed

lemma removed_slots:
  assumes "tp_wf p" "k < GetSlotCount p"
  shows "GetSlotCount (removed_page k p) = GetSlotCount p - 1"
    and "j < GetSlotCount p - 1 \<Longrightarrow>
      slot_off (removed_page k p) j = slot_off p (if k \<le> j then Suc j else j)"
    and "j < GetSlotCount p - 1 \<Longrightarrow>
      slot_size (removed_page k p) j = slot_size p (if k \<le> j then Suc j else j)"
  using assms tp_wf_slots [OF assms(1)] shifted_slots [of k "GetSlotCount p - 1" p j]
  by (simp_all add: removed_page_def slot_simps)

lemma removed_read:
  assumes "slot_end p \<le> a"
  shows "mem_read (removed_page k p) a n = mem_read p a n"
  using assms shifted_read [of "GetSlotCount p - 1" "GetSlotCount p" a k p n]
  by (simp add: removed_page_def slot_end_def tuple_reads)

lemma removed_wf_abs:
  assumes wf: "tp_wf p" and k: "k < GetSlotCount p"
  shows "tp_wf (removed_page k p)"
    and "tp_abs (removed_page k p) = take k (tp_abs p) @ drop (Suc k) (tp_abs p)"
proof -
  let ?q = "removed_page k p" and ?n = "GetSlotCount p" and ?f = "\<lambda>j. if k \<le> j then Suc j else j"
  note slots = removed_slots [OF wf k]
  have f: "?f j < ?n" if "j < ?n - 1" for j using that by auto
  have live: "live ?q j = live p (?f j)" if "j < ?n - 1" for j
    using slots(2) [OF that] by (simp add: live_def)
  have inn: "tuple_in ?q j" if "j < ?n - 1" "live ?q j" for j
  proof -
    have "tuple_in p (?f j)"
      using tp_wf_tuple [OF wf f [OF that(1)]] that(2) live [OF that(1)] by blast
    then show ?thesis
      unfolding tuple_in_def slot_end_def slots(1) slots(2,3) [OF that(1)]
      by auto
  qed
  have "apart ?q i j" if "j < ?n - 1" "i < j" "live ?q i" "live ?q j" for i j
  proof -
    have i: "i < ?n - 1" using that by simp
    have "?f i \<noteq> ?f j" using that by auto
    from tp_wf_apart [OF wf f [OF i] f [OF that(1)] this] show ?thesis
      using that live [OF i] live [OF that(1)] slots(2,3) [OF i] slots(2,3) [OF that(1)]
      by (simp only: apart_def)
  qed
  moreover have "slot_end ?q \<le> PAGE_SIZE" using wf slots(1) by (auto simp: tp_wf_def slot_end_def)
  ultimately show "tp_wf ?q" using inn slots(1) by (simp add: tp_wf_def)
  have "tp_slot ?q j = tp_slot p (?f j)" if j: "j < ?n - 1" for j
  proof (cases "live p (?f j)")
    case True
    have "slot_end p \<le> slot_off p (?f j)"
      using tp_wf_tuple [OF wf f [OF j] True] by (simp only: tuple_in_def)
    then show ?thesis
      using True live [OF j] slots(2,3) [OF j] by (simp only: tp_slot_def tuple_at_def removed_read)
  next
    case False
    then show ?thesis using live [OF j] by (simp only: tp_slot_def if_False)
  qed
  then show "tp_abs ?q = take k (tp_abs p) @ drop (Suc k) (tp_abs p)"
    using k slots(1) by (intro nth_equalityI) (auto simp: nth_tp_abs nth_append min_def)
qed

end
