(* ===== verification/Table_Page_Props.thy ===== *)
theory Table_Page_Props
  imports Table_Page_Abs
begin

text \<open>
  The interface of a slotted page that the table heap relies on (locale \<open>tuple_page\<close>), its
  interpretation on the byte-level page, and the properties of the page operations.
\<close>

section \<open>The interface\<close>

text \<open>
  A page has a list of slots; a slot holds a tuple or is deleted. Insertion appends, deletion
  clears a slot, nothing else changes.
\<close>

locale tuple_page =
  fixes wf :: "'p \<Rightarrow> bool"
    and contents :: "'p \<Rightarrow> byte list option list"
    and free :: "'p \<Rightarrow> nat option"
    and insert_t :: "byte list \<Rightarrow> 'p \<Rightarrow> (int option \<times> 'p) option"
    and get_t :: "'p \<Rightarrow> int \<Rightarrow> byte list option option"
    and mark_t :: "int \<Rightarrow> 'p \<Rightarrow> (bool \<times> 'p) option"
  assumes free_total: "wf p \<Longrightarrow> \<exists>n. free p = Some n"
    and insert_law: "wf p \<Longrightarrow> free p = Some n \<Longrightarrow> data \<noteq> [] \<Longrightarrow> length data \<le> MAX_TUPLE_SIZE \<Longrightarrow>
      length data + 4 \<le> n \<Longrightarrow>
      \<exists>q. insert_t data p = Some (Some (int (length (contents p))), q) \<and> wf q \<and>
          contents q = contents p @ [Some data]"
    and get_law: "wf p \<Longrightarrow> get_t p s =
      Some (if 0 \<le> s \<and> s < int (length (contents p)) then contents p ! nat s else None)"
    and mark_law: "wf p \<Longrightarrow> \<exists>q. mark_t s p = Some (get_t p s \<noteq> Some None, q) \<and> wf q \<and>
      contents q = (if 0 \<le> s \<and> s < int (length (contents p))
                    then (contents p)[nat s := None] else contents p)"
begin

lemma insert_then_get:
  assumes "wf p" "free p = Some n" "data \<noteq> []" "length data \<le> MAX_TUPLE_SIZE" "length data + 4 \<le> n"
    and "insert_t data p = Some (r, q)"
  shows "r = Some (int (length (contents p)))"
    and "get_t q (int (length (contents p))) = Some (Some data)"
    and "s \<noteq> int (length (contents p)) \<Longrightarrow> get_t q s = get_t p s"
proof -
  from insert_law [OF assms(1-5)] assms(6)
  have q: "r = Some (int (length (contents p)))" "wf q" "contents q = contents p @ [Some data]"
    by auto
  then show "r = Some (int (length (contents p)))" by simp
  show "get_t q (int (length (contents p))) = Some (Some data)"
    using q by (simp add: get_law)
  show "get_t q s = get_t p s" if "s \<noteq> int (length (contents p))"
    using q assms(1) that by (auto simp: get_law nth_append)
qed

lemma mark_then_get:
  assumes "wf p" "mark_t s p = Some (ok, q)"
  shows "wf q" and "get_t q s = Some None" and "s' \<noteq> s \<Longrightarrow> get_t q s' = get_t p s'"
    and "ok \<longleftrightarrow> get_t p s \<noteq> Some None"
proof -
  from mark_law [OF assms(1), of s] assms(2)
  have q: "ok = (get_t p s \<noteq> Some None)" "wf q"
    and c: "contents q = (if 0 \<le> s \<and> s < int (length (contents p))
                    then (contents p)[nat s := None] else contents p)"
    by auto
  show "wf q" by (rule q(2))
  show "ok \<longleftrightarrow> get_t p s \<noteq> Some None" using q(1) by simp
  show "get_t q s = Some None"
    using q(2) assms(1) c by (auto simp: get_law)
  show "get_t q s' = get_t p s'" if "s' \<noteq> s"
    using q(2) assms(1) c that by (auto simp: get_law nth_list_update nat_eq_iff)
qed

end

lemma MarkDelete_law:
  assumes "tp_wf p"
  shows "\<exists>q. MarkDelete s p = Some (GetTuple p s \<noteq> Some None, q) \<and> tp_wf q \<and>
    tp_abs q = (if 0 \<le> s \<and> s < int (length (tp_abs p)) then (tp_abs p)[nat s := None] else tp_abs p)"
proof (cases "0 \<le> s \<and> s < int (GetSlotCount p)")
  case True
  then obtain k where k: "s = int k" "k < GetSlotCount p"
    by (metis nat_0_le of_nat_less_iff)
  have "(tp_abs p)[k := None] = tp_abs p" if "\<not> live p k"
    using that k by (simp add: list_update_same_conv nth_tp_abs tp_slot_def)
  with k show ?thesis
    using assms by (simp add: MarkDelete_wf GetTuple_wf nth_tp_abs tp_slot_def deleted_wf deleted_abs)
next
  case False
  then show ?thesis using assms by (auto simp: MarkDelete_out GetTuple_wf)
qed

lemma fits_free:
  "tp_wf p \<Longrightarrow> data \<noteq> [] \<Longrightarrow> length data \<le> MAX_TUPLE_SIZE \<Longrightarrow> GetFreeSpace p = Some n \<Longrightarrow>
   length data + 4 \<le> n \<Longrightarrow> fits data p"
  by (auto simp: GetFreeSpace_wf free_space_def fits_def)

interpretation tp: tuple_page tp_wf tp_abs GetFreeSpace InsertTuple GetTuple MarkDelete
proof
  fix p :: page and data :: "byte list" and n s
  assume wf: "tp_wf p"
  show "\<exists>n. GetFreeSpace p = Some n" using wf by (simp add: GetFreeSpace_wf)
  show "GetTuple p s = Some (if 0 \<le> s \<and> s < int (length (tp_abs p)) then tp_abs p ! nat s else None)"
    using GetTuple_wf [OF wf] by simp
  show "\<exists>q. MarkDelete s p = Some (GetTuple p s \<noteq> Some None, q) \<and> tp_wf q \<and>
    tp_abs q = (if 0 \<le> s \<and> s < int (length (tp_abs p)) then (tp_abs p)[nat s := None] else tp_abs p)"
    using MarkDelete_law [OF wf] .
  assume "GetFreeSpace p = Some n" "data \<noteq> []" "length data \<le> MAX_TUPLE_SIZE" "length data + 4 \<le> n"
  then have "fits data p" using fits_free wf by blast
  then show "\<exists>q. InsertTuple data p = Some (Some (int (length (tp_abs p))), q) \<and> tp_wf q \<and>
      tp_abs q = tp_abs p @ [Some data]"
    using wf by (simp add: InsertTuple_fits inserted_wf inserted_abs)
qed

section \<open>The links of the page chain are untouched\<close>

lemma header_reads:
  "a + n \<le> 20 \<Longrightarrow> mem_read (set_slot k off sz p) a n = mem_read p a n"
  "a + n \<le> 20 \<Longrightarrow> mem_read (set_deleted k p) a n = mem_read p a n"
  "a + n \<le> 20 \<Longrightarrow> mem_read (set_slot_count c p) a n = mem_read p a n"
  by (simp_all add: set_slot_def set_deleted_def set_slot_count_def layout_defs mem_read_write_disjoint)

lemma inserted_next [simp]:
  assumes "fits data p" shows "GetNextPageId (inserted_page data p) = GetNextPageId p"
  using fits_room(1) [OF assms]
  by (simp add: GetNextPageId_def inserted_page_def Let_def header_reads mem_read_write_disjoint
      OFFSET_NEXT_PAGE_ID_def)

lemma deleted_next [simp]: "GetNextPageId (set_deleted k p) = GetNextPageId p"
  by (simp add: GetNextPageId_def header_reads OFFSET_NEXT_PAGE_ID_def)

lemma updated_next [simp]:
  assumes "tp_wf p" "k < GetSlotCount p" "live p k"
  shows "GetNextPageId (updated_page k data p) = GetNextPageId p"
proof -
  have "24 \<le> slot_off p k" using tp_wf_tuple [OF assms] by (simp add: tuple_in_def slot_end_def)
  then show ?thesis
    by (simp add: GetNextPageId_def updated_page_def header_reads mem_read_write_disjoint
        OFFSET_NEXT_PAGE_ID_def)
qed

section \<open>Concrete pages\<close>

lemma lowest_tuple_Init [simp]: "lowest_tuple (Init pid) = PAGE_SIZE"
  by (simp add: lowest_tuple_def)

lemma slot_end_Init [simp]: "slot_end (Init pid) = 24"
  by (simp add: slot_end_def)

lemma fits_Init: "data \<noteq> [] \<Longrightarrow> length data \<le> MAX_TUPLE_SIZE \<Longrightarrow> fits data (Init pid)"
  by (simp add: fits_def layout_defs)

lemma lowest_tuple_inserted:
  assumes "tp_wf p" "fits data p"
  shows "lowest_tuple (inserted_page data p) = lowest_tuple p - length data"
proof -
  let ?q = "inserted_page data p" and ?n = "GetSlotCount p"
  have le: "lowest_tuple ?q \<le> lowest_tuple p - length data"
    using lowest_tuple_le_off [of ?n ?q] assms(2) by (simp add: inserted_count inserted_live inserted_slot)
  have "lowest_tuple ?q = PAGE_SIZE \<or>
      (\<exists>k \<in> set [0..<GetSlotCount ?q]. live ?q k \<and> lowest_tuple ?q = slot_off ?q k)"
    unfolding lowest_tuple_def by (rule fold_lowest_in)
  then consider "lowest_tuple ?q = PAGE_SIZE" |
    k where "k < Suc ?n" "live ?q k" "lowest_tuple ?q = slot_off ?q k"
    unfolding inserted_count [OF assms(2)] set_upt by fastforce
  then have "lowest_tuple p - length data \<le> lowest_tuple ?q"
  proof cases
    case 1
    then show ?thesis using lowest_tuple_le [of p] by simp
  next
    case 2
    then show ?thesis
      using assms(2) lowest_tuple_le_off [of k p]
      by (cases "k = ?n") (auto simp: inserted_live inserted_slot)
  qed
  with le show ?thesis by simp
qed

lemmas inserted_facts = inserted_count inserted_slot inserted_live inserted_wf inserted_abs
  lowest_tuple_inserted

text \<open>A page with two tuples, used by the witnesses.\<close>

definition demo_page :: page where
  "demo_page = inserted_page [2, 2] (inserted_page [1, 1] (Init 7))"

lemma demo_fits: "fits [1, 1] (Init 7)" "fits [2, 2] (inserted_page [1, 1] (Init 7))"
proof -
  show f: "fits [1, 1] (Init 7)" by (rule fits_Init) (simp_all add: MAX_TUPLE_SIZE_def)
  show "fits [2, 2] (inserted_page [1, 1] (Init 7))"
    using f by (simp add: fits_def [of "[2, 2]"] slot_end_def inserted_count lowest_tuple_inserted layout_defs)
qed

lemma demo_facts:
  "tp_wf demo_page" "GetSlotCount demo_page = 2" "tp_abs demo_page = [Some [1, 1], Some [2, 2]]"
  "lowest_tuple demo_page = 16380" "live demo_page 0" "live demo_page (Suc 0)"
  "slot_off demo_page 0 = 16382" "slot_off demo_page (Suc 0) = 16380"
  "slot_size demo_page 0 = 2" "slot_size demo_page (Suc 0) = 2"
  using demo_fits by (simp_all add: demo_page_def inserted_facts layout_defs)

section \<open>Properties\<close>

text \<open>C1: on a well-formed page that reports enough free space, \<open>InsertTuple\<close> stays inside the
  page, returns the next slot, keeps the layout invariant and the chain link, makes the new
  slot read back the inserted bytes and leaves every other slot as it was.\<close>

theorem insert_tuple_appends:
  assumes "tp_wf p" "GetFreeSpace p = Some n" "data \<noteq> []" "length data \<le> MAX_TUPLE_SIZE"
    "length data + SLOT_SIZE \<le> n"
  shows "\<exists>q. InsertTuple data p = Some (Some (int (GetSlotCount p)), q) \<and> tp_wf q \<and>
    tp_abs q = tp_abs p @ [Some data] \<and> GetNextPageId q = GetNextPageId p \<and>
    GetTuple q (int (GetSlotCount p)) = Some (Some data) \<and>
    (\<forall>s. s \<noteq> int (GetSlotCount p) \<longrightarrow> GetTuple q s = GetTuple p s)"
proof -
  have le: "length data + 4 \<le> n" using assms(5) by (simp add: SLOT_SIZE_def)
  have f: "fits data p" using fits_free [OF assms(1,3,4,2) le] .
  have ins: "InsertTuple data p = Some (Some (int (GetSlotCount p)), inserted_page data p)"
    using InsertTuple_fits [OF assms(1) f] .
  from tp.insert_then_get(2,3) [OF assms(1,2,3,4) le ins] show ?thesis
    using assms(1) f by (simp add: ins inserted_wf inserted_abs)
qed

theorem insert_tuple_appends_witness:
  "tp_wf demo_page \<and> (\<exists>q. InsertTuple [3] demo_page = Some (Some 2, q) \<and> tp_wf q \<and>
    tp_abs q = [Some [1, 1], Some [2, 2], Some [3]])"
proof -
  have "GetFreeSpace demo_page = Some 16348"
    by (simp add: GetFreeSpace_wf free_space_def slot_end_def demo_facts)
  from insert_tuple_appends [OF demo_facts(1) this, of "[3]"] show ?thesis
    by (auto simp: demo_facts MAX_TUPLE_SIZE_def SLOT_SIZE_def)
qed

text \<open>\<open>InsertTuple\<close> is memory-safe exactly as long as the tuple is not longer than the
  bytes below the lowest live tuple: beyond that the unsigned subtraction
  \<open>lowest_tuple - size\<close> wraps, passes the overlap test, and the tuple is copied outside the page.\<close>

theorem insert_tuple_out_of_page_iff:
  assumes "tp_wf p" "length data \<le> MAX_TUPLE_SIZE"
  shows "InsertTuple data p = None \<longleftrightarrow> lowest_tuple p < length data"
proof (cases "lowest_tuple p < length data")
  case True
  then show ?thesis using InsertTuple_wraps [OF assms] by simp
next
  case False
  then show ?thesis
    using InsertTuple_run [OF assms(1) _ assms(2)] by (cases "data = []") (simp_all add: InsertTuple_reject)
qed

definition full_page :: page where
  "full_page = inserted_page (replicate 4000 2) (inserted_page (replicate 8192 1) (Init 7))"

lemma full_page_facts: "tp_wf full_page" "lowest_tuple full_page = 4192"
proof -
  have a: "fits (replicate 8192 1) (Init 7)"
    by (rule fits_Init) (simp_all add: MAX_TUPLE_SIZE_def flip: length_greater_0_conv)
  have b: "fits (replicate 4000 2) (inserted_page (replicate 8192 1) (Init 7))"
    using a by (simp add: fits_def [of "replicate 4000 2"] slot_end_def inserted_count
        lowest_tuple_inserted layout_defs flip: length_greater_0_conv)
  from a b show "tp_wf full_page" "lowest_tuple full_page = 4192"
    by (simp_all add: full_page_def inserted_wf lowest_tuple_inserted PAGE_SIZE_def)
qed

theorem insert_tuple_out_of_page_iff_witness:
  "tp_wf full_page \<and> InsertTuple (replicate 5000 9) full_page = None"
  using insert_tuple_out_of_page_iff [OF full_page_facts(1), of "replicate 5000 9"] full_page_facts
  by (simp add: MAX_TUPLE_SIZE_def)

text \<open>C2: \<open>MarkDelete\<close> reports whether the slot held a tuple, empties that slot only, and keeps
  the layout invariant and the chain link.\<close>

theorem mark_delete_clears_one_slot:
  assumes "tp_wf p"
  shows "\<exists>q. MarkDelete s p = Some (GetTuple p s \<noteq> Some None, q) \<and> tp_wf q \<and>
    GetNextPageId q = GetNextPageId p \<and> GetSlotCount q = GetSlotCount p \<and>
    GetTuple q s = Some None \<and> (\<forall>s'. s' \<noteq> s \<longrightarrow> GetTuple q s' = GetTuple p s')"
proof -
  from tp.mark_law [OF assms] obtain q where q: "MarkDelete s p = Some (GetTuple p s \<noteq> Some None, q)"
    by blast
  have "GetNextPageId q = GetNextPageId p \<and> GetSlotCount q = GetSlotCount p"
  proof (cases "0 \<le> s \<and> s < int (GetSlotCount p)")
    case True
    then obtain k where "s = int k" "k < GetSlotCount p" by (metis nat_0_le of_nat_less_iff)
    with q show ?thesis by (auto simp: MarkDelete_wf [OF assms] split: if_splits)
  next
    case False
    then show ?thesis using q by (auto simp: MarkDelete_out)
  qed
  with q tp.mark_then_get(1,2,3) [OF assms q] show ?thesis by blast
qed

theorem mark_delete_clears_one_slot_witness:
  "tp_wf demo_page \<and> (\<exists>q. MarkDelete 0 demo_page = Some (True, q) \<and>
    GetTuple q 0 = Some None \<and> GetTuple q 1 = Some (Some [2, 2]))"
proof -
  have g: "GetTuple demo_page 0 = Some (Some [1, 1])" "GetTuple demo_page 1 = Some (Some [2, 2])"
    by (simp_all add: GetTuple_wf demo_facts)
  from mark_delete_clears_one_slot [OF demo_facts(1), of 0] obtain q
    where q: "MarkDelete 0 demo_page = Some (GetTuple demo_page 0 \<noteq> Some None, q)"
      "GetTuple q 0 = Some None" "\<forall>s'. s' \<noteq> 0 \<longrightarrow> GetTuple q s' = GetTuple demo_page s'"
    by blast
  from q(3) have "GetTuple q 1 = Some (Some [2, 2])" using g(2) by simp
  with q(1,2) g(1) show ?thesis using demo_facts(1) by auto
qed

text \<open>an update that does not grow the tuple is done in place: the slot then reads the new
  bytes, every other slot and the invariant are kept.\<close>

theorem update_tuple_in_place:
  assumes "tp_wf p" "GetTuple p s = Some (Some old)" "length data \<le> length old"
  shows "\<exists>q. UpdateTuple s data p = Some (True, q) \<and> tp_wf q \<and>
    tp_abs q = (tp_abs p)[nat s := Some data] \<and> GetNextPageId q = GetNextPageId p"
proof -
  from assms(1,2) obtain k where k: "s = int k" "k < GetSlotCount p" "live p k" "old = tuple_at p k"
    by (auto simp: GetTuple_wf nth_tp_abs tp_slot_def nat_less_iff split: if_splits
        dest: zero_le_imp_eq_int)
  have sz: "length data \<le> slot_size p k" using assms(3) k(4) by (simp add: tuple_at_def)
  show ?thesis
    using UpdateTuple_in_place [OF assms(1) k(2,3) sz] updated_wf [OF assms(1) k(2,3) sz]
      updated_abs [OF assms(1) k(2,3) sz] updated_next [OF assms(1) k(2,3)] k(1)
    by simp
qed

theorem update_tuple_in_place_witness:
  "tp_wf demo_page \<and> (\<exists>q. UpdateTuple 0 [7] demo_page = Some (True, q) \<and>
    tp_abs q = [Some [7], Some [2, 2]])"
proof -
  have "GetTuple demo_page 0 = Some (Some [1, 1])" by (simp add: GetTuple_wf demo_facts)
  from update_tuple_in_place [OF demo_facts(1) this, of "[7]"] show ?thesis
    by (auto simp: demo_facts)
qed

text \<open>an update that grows the tuple always returns \<open>false\<close>, in two different situations:
  when the page has room the old slot is deleted and the new tuple is already appended; when
  it has none the page is exactly as before. (It leaves the page altogether in the case of C2.)\<close>

theorem update_tuple_growing:
  assumes "tp_wf p" "GetTuple p s = Some (Some old)" "length old < length data"
    "length data \<le> MAX_TUPLE_SIZE" "UpdateTuple s data p = Some (r, q)"
  shows "r = False \<and> tp_wf q \<and>
    (q = p \<or> tp_abs q = (tp_abs p)[nat s := None] @ [Some data])"
proof -
  from assms(1,2) obtain k where k: "s = int k" "k < GetSlotCount p" "live p k" "old = tuple_at p k"
    by (auto simp: GetTuple_wf nth_tp_abs tp_slot_def nat_less_iff split: if_splits
        dest: zero_le_imp_eq_int)
  have sz: "slot_size p k < length data" using assms(3) k(4) by (simp add: tuple_at_def)
  have wf: "tp_wf (set_deleted k p)" by (rule deleted_wf [OF assms(1)])
  from UpdateTuple_grow [OF assms(1) k(2,3) sz assms(4)] assms(5) k(1)
  have "r = False" and
    "q = (if fits data (set_deleted k p) then inserted_page data (set_deleted k p) else p)"
    by (simp_all split: if_splits)
  then show ?thesis
    using assms(1) k(1,2) wf by (simp add: inserted_wf inserted_abs deleted_abs)
qed

text \<open>Deleting slot 0 of the demo page leaves the second tuple as the lowest one.\<close>

lemma demo_deleted:
  "lowest_tuple (set_deleted 0 demo_page) = 16380" "fits [7, 7, 7] (set_deleted 0 demo_page)"
proof -
  show low: "lowest_tuple (set_deleted 0 demo_page) = 16380"
    by (simp add: lowest_tuple_def demo_facts deleted_live slot_simps upt_rec PAGE_SIZE_def)
  show "fits [7, 7, 7] (set_deleted 0 demo_page)"
    by (simp add: fits_def low slot_end_def demo_facts MAX_TUPLE_SIZE_def)
qed

theorem update_tuple_growing_witness:
  "\<exists>q. UpdateTuple 0 [7, 7, 7] demo_page = Some (False, q) \<and>
    tp_abs q = [None, Some [2, 2], Some [7, 7, 7]]"
proof -
  let ?q = "inserted_page [7, 7, 7] (set_deleted 0 demo_page)"
  have run: "UpdateTuple 0 [7, 7, 7] demo_page = Some (False, ?q)"
    using UpdateTuple_grow [of demo_page 0 "[7, 7, 7]"] demo_deleted
    by (simp add: demo_facts MAX_TUPLE_SIZE_def)
  have "GetTuple demo_page 0 = Some (Some [1, 1])" by (simp add: GetTuple_wf demo_facts)
  from update_tuple_growing [OF demo_facts(1) this _ _ run] have "?q = demo_page \<or>
      tp_abs ?q = [None, Some [2, 2], Some [7, 7, 7]]"
    by (simp add: demo_facts MAX_TUPLE_SIZE_def)
  moreover have "GetSlotCount ?q \<noteq> GetSlotCount demo_page"
    using demo_deleted by (simp add: inserted_count)
  ultimately show ?thesis using run by metis
qed

text \<open>\<open>ApplyDelete\<close> of the tuple stored at the highest offset removes exactly that slot and
  renumbers the later ones; the remaining tuples keep their bytes.\<close>

theorem apply_delete_highest:
  assumes "tp_wf p" "k < GetSlotCount p" "live p k" "highest k p"
  shows "\<exists>q. ApplyDelete (int k) p = Some (True, q) \<and> tp_wf q \<and>
    tp_abs q = take k (tp_abs p) @ drop (Suc k) (tp_abs p)"
  using ApplyDelete_highest [OF assms] removed_wf_abs [OF assms(1,2)] by blast

theorem apply_delete_highest_witness:
  "highest 0 demo_page \<and> (\<exists>q. ApplyDelete 0 demo_page = Some (True, q) \<and> tp_abs q = [Some [2, 2]])"
proof -
  have h: "highest 0 demo_page"
    by (simp add: highest_def demo_facts numeral_2_eq_2 less_Suc_eq)
  from apply_delete_highest [OF demo_facts(1) _ demo_facts(5) h] h show ?thesis
    by (auto simp: demo_facts)
qed

text \<open>
  A page with three tuples. The compaction loop visits the slots in order, so it moves the
  highest tuple first, onto the bytes of its lower neighbour that has not been moved yet.
\<close>

definition three_page :: page where
  "three_page = inserted_page [3, 3] demo_page"

lemma three_fits: "fits [3, 3] demo_page"
  by (simp add: fits_def demo_facts slot_end_def MAX_TUPLE_SIZE_def)

lemma three_facts:
  "tp_wf three_page" "GetSlotCount three_page = 3"
  "tp_abs three_page = [Some [1, 1], Some [2, 2], Some [3, 3]]"
  "live three_page 0" "live three_page (Suc 0)" "live three_page 2"
  "slot_off three_page 0 = 16382" "slot_off three_page (Suc 0) = 16380" "slot_off three_page 2 = 16378"
  "slot_size three_page 0 = 2" "slot_size three_page (Suc 0) = 2" "slot_size three_page 2 = 2"
  using three_fits by (simp_all add: three_page_def inserted_facts demo_facts)

lemma three_bytes: "mem_read three_page 16382 2 = [1, 1]"
  using three_facts nth_tp_abs [of 0 three_page] by (simp add: tp_slot_def tuple_at_def)

lemma IsDeleted_number: "valid_slot (numeral n) \<Longrightarrow> IsDeleted p (numeral n) = Some (\<not> live p (numeral n))"
  and GetSlotInfo_number: "valid_slot (numeral n) \<Longrightarrow>
    GetSlotInfo p (numeral n) = Some (slot_off p (numeral n), slot_size p (numeral n))"
  using IsDeleted_int [of "numeral n" p] GetSlotInfo_int [of "numeral n" p] by simp_all

lemmas slot_numbers = IsDeleted_number GetSlotInfo_number
  IsDeleted_int [of 0, simplified] GetSlotInfo_int [of 0, simplified] SetSlotInfo_int [of 0, simplified]
  IsDeleted_int [of "Suc 0", simplified] GetSlotInfo_int [of "Suc 0", simplified]
  SetSlotInfo_int [of "Suc 0", simplified]

definition corrupted_page :: page where
  "corrupted_page = set_slot_count 2
     (set_slot 1 16378 2 (mem_write
       (set_slot 0 16380 2 (mem_write three_page 16380 [1, 1])) 16378 [1, 1]))"

lemma three_apply_delete: "ApplyDelete 2 three_page = Some (True, corrupted_page)"
proof -
  let ?a = "set_slot 0 16380 2 (mem_write three_page 16380 [1, 1])"
  have a: "live ?a (Suc 0)" "slot_off ?a (Suc 0) = 16380" "slot_size ?a (Suc 0) = 2"
    "mem_read ?a 16380 2 = [1, 1]"
    using three_facts by (simp_all add: live_def slot_simps slot_write_above tuple_reads)
  have upt: "[0..<3] = [0, 1, 2::nat]" by (simp add: upt_rec)
  have "compact_loop 2 16378 2 [0..<3] three_page =
      Some (set_slot 1 16378 2 (mem_write ?a 16378 [1, 1]))"
    using a three_facts three_bytes
    by (simp add: upt slot_numbers Let_def PAGE_SIZE_def)
  then show ?thesis
    using three_facts by (simp add: ApplyDelete_def slot_numbers Let_def corrupted_page_def)
qed

text \<open>\<open>ApplyDelete\<close> can destroy another tuple: on a page holding three tuples, deleting the
  last one leaves slot 1 with the bytes of slot 0 instead of its own.\<close>

theorem apply_delete_corrupts:
  "\<exists>p q. tp_wf p \<and> GetTuple p 1 = Some (Some [2, 2]) \<and>
     ApplyDelete 2 p = Some (True, q) \<and> GetTuple q 1 = Some (Some [1, 1])"
proof (intro exI conjI)
  show "tp_wf three_page" by (rule three_facts)
  show "GetTuple three_page 1 = Some (Some [2, 2])" by (simp add: GetTuple_wf three_facts)
  show "ApplyDelete 2 three_page = Some (True, corrupted_page)" by (rule three_apply_delete)
  show "GetTuple corrupted_page 1 = Some (Some [1, 1])"
    by (simp add: GetTuple_def corrupted_page_def slot_numbers live_def slot_simps tuple_reads
        PAGE_SIZE_def)
qed

end
