(* ===== verification/Replacers.thy ===== *)
theory Replacers
  imports Prelude
begin

text \<open>
  The page replacement policies (buffer/lru_k_replacer.cpp, buffer/clock_replacer.cpp) behind
  the interface buffer/replacer.h. Each public method runs under the replacer's mutex, so an
  operation is one atomic step of the state. Frame numbers are \<open>nat\<close>: the pool hands out
  \<open>0 .. num_frames - 1\<close>. An \<open>unordered_map\<close> that is iterated is a list of its entries in
  iteration order; the results hold for every order.
\<close>

section \<open>LRU-K\<close>

definition SIZE_MAX :: nat where "SIZE_MAX = 2 ^ 64 - 1"

record lruk =
  lru_k :: nat
  access_history :: "nat \<rightharpoonup> nat list"
  evictables :: "(nat \<times> bool) list"
  curr_size :: nat
  curr_timestamp :: nat

definition LRUKReplacer :: "nat \<Rightarrow> lruk" where
  "LRUKReplacer k = \<lparr>lru_k = k, access_history = Map.empty, evictables = [], curr_size = 0,
     curr_timestamp = 0\<rparr>"

definition RecordAccess :: "nat \<Rightarrow> lruk \<Rightarrow> lruk" where
  "RecordAccess frame_id s =
     (let ts = curr_timestamp s + 1;
          history = ts # (case access_history s frame_id of None \<Rightarrow> [] | Some h \<Rightarrow> h);
          history = (if length history > lru_k s then butlast history else history)
      in s\<lparr>curr_timestamp := ts, access_history := (access_history s)(frame_id \<mapsto> history)\<rparr>)"

definition GetKDistance :: "lruk \<Rightarrow> nat \<Rightarrow> nat" where
  "GetKDistance s frame_id =
     (case access_history s frame_id of
        None \<Rightarrow> SIZE_MAX
      | Some h \<Rightarrow>
          if h = [] then SIZE_MAX
          else if length h < lru_k s then SIZE_MAX
          else curr_timestamp s - last h)"

text \<open>The scan of \<open>Victim\<close>; the accumulator is \<open>(victim, max_distance)\<close> once one is found.\<close>

fun lruk_scan :: "lruk \<Rightarrow> (nat \<times> bool) list \<Rightarrow> (nat \<times> nat) option \<Rightarrow> (nat \<times> nat) option" where
  "lruk_scan s [] best = best"
| "lruk_scan s ((fid, evictable) # es) best =
     (if \<not> evictable then lruk_scan s es best
      else
        let distance = GetKDistance s fid in
        (case best of
           None \<Rightarrow> lruk_scan s es (Some (fid, distance))
         | Some (victim, max_distance) \<Rightarrow>
             if distance > max_distance then lruk_scan s es (Some (fid, distance))
             else lruk_scan s es best))"

definition erase_key :: "nat \<Rightarrow> (nat \<times> bool) list \<Rightarrow> (nat \<times> bool) list" where
  "erase_key f es = filter (\<lambda>e. fst e \<noteq> f) es"

definition lruk_victim :: "lruk \<Rightarrow> lruk \<times> nat option" where
  "lruk_victim s =
     (if curr_size s = 0 then (s, None)
      else case lruk_scan s (evictables s) None of
        None \<Rightarrow> (s, None)
      | Some (victim, _) \<Rightarrow>
          (s\<lparr>evictables := erase_key victim (evictables s),
             access_history := (access_history s)(victim := None),
             curr_size := curr_size s - 1\<rparr>, Some victim))"

definition lruk_pin :: "nat \<Rightarrow> lruk \<Rightarrow> lruk" where
  "lruk_pin frame_id s =
     (let s = RecordAccess frame_id s in
      if frame_id \<in> fst ` set (evictables s)
      then s\<lparr>evictables := erase_key frame_id (evictables s), curr_size := curr_size s - 1\<rparr>
      else s)"

definition lruk_unpin :: "nat \<Rightarrow> lruk \<Rightarrow> lruk" where
  "lruk_unpin frame_id s =
     (if frame_id \<in> fst ` set (evictables s) then s
      else
        let s = RecordAccess frame_id s in
        s\<lparr>evictables := (frame_id, True) # evictables s, curr_size := curr_size s + 1\<rparr>)"

section \<open>Clock\<close>

record frame_state =
  evictable :: bool
  ref_bit :: bool

record clock =
  num_frames :: nat
  frames :: "frame_state list"
  clock_hand :: nat
  clock_size :: nat

definition ClockReplacer :: "nat \<Rightarrow> clock" where
  "ClockReplacer n = \<lparr>num_frames = n,
     frames = replicate n \<lparr>evictable = False, ref_bit = False\<rparr>, clock_hand = 0, clock_size = 0\<rparr>"

text \<open>The sweep; the first argument counts the iterations left, \<open>num_frames - scanned\<close>.\<close>

fun clock_sweep :: "nat \<Rightarrow> clock \<Rightarrow> clock \<times> nat option" where
  "clock_sweep 0 c = (c, None)"
| "clock_sweep (Suc n) c =
     (let frame = frames c ! clock_hand c;
          next = (clock_hand c + 1) mod num_frames c in
      if evictable frame then
        if \<not> ref_bit frame then
          (c\<lparr>frames := (frames c)[clock_hand c := frame\<lparr>evictable := False\<rparr>],
             clock_size := clock_size c - 1, clock_hand := next\<rparr>, Some (clock_hand c))
        else
          clock_sweep n (c\<lparr>frames := (frames c)[clock_hand c := frame\<lparr>ref_bit := False\<rparr>],
             clock_hand := next\<rparr>)
      else clock_sweep n (c\<lparr>clock_hand := next\<rparr>))"

definition clock_victim :: "clock \<Rightarrow> clock \<times> nat option" where
  "clock_victim c = (if clock_size c = 0 then (c, None) else clock_sweep (num_frames c) c)"

definition clock_pin :: "nat \<Rightarrow> clock \<Rightarrow> clock" where
  "clock_pin frame_id c =
     (if frame_id \<ge> num_frames c then c
      else
        let frame = frames c ! frame_id in
        if evictable frame
        then c\<lparr>frames := (frames c)[frame_id := frame\<lparr>evictable := False, ref_bit := True\<rparr>],
               clock_size := clock_size c - 1\<rparr>
        else c)"

definition clock_unpin :: "nat \<Rightarrow> clock \<Rightarrow> clock" where
  "clock_unpin frame_id c =
     (if frame_id \<ge> num_frames c then c
      else
        let frame = frames c ! frame_id in
        if \<not> evictable frame
        then c\<lparr>frames := (frames c)[frame_id := frame\<lparr>evictable := True, ref_bit := True\<rparr>],
               clock_size := clock_size c + 1\<rparr>
        else c)"

section \<open>Virtual dispatch\<close>

text \<open>The buffer pool holds a \<open>unique_ptr<Replacer>\<close>: one of the two policies.\<close>

datatype replacer = LRUK lruk | Clock clock

fun Victim :: "replacer \<Rightarrow> replacer \<times> nat option" where
  "Victim (LRUK s) = (case lruk_victim s of (s', f) \<Rightarrow> (LRUK s', f))"
| "Victim (Clock c) = (case clock_victim c of (c', f) \<Rightarrow> (Clock c', f))"

fun Pin :: "nat \<Rightarrow> replacer \<Rightarrow> replacer" where
  "Pin f (LRUK s) = LRUK (lruk_pin f s)"
| "Pin f (Clock c) = Clock (clock_pin f c)"

fun Unpin :: "nat \<Rightarrow> replacer \<Rightarrow> replacer" where
  "Unpin f (LRUK s) = LRUK (lruk_unpin f s)"
| "Unpin f (Clock c) = Clock (clock_unpin f c)"

fun Size :: "replacer \<Rightarrow> nat" where
  "Size (LRUK s) = curr_size s"
| "Size (Clock c) = clock_size c"

section \<open>The contract of a replacement policy\<close>

locale replacement_policy =
  fixes inv :: "'r \<Rightarrow> bool"
    and evictable_set :: "'r \<Rightarrow> nat set"
    and manages :: "'r \<Rightarrow> nat \<Rightarrow> bool"
    and victim :: "'r \<Rightarrow> 'r \<times> nat option"
    and pin :: "nat \<Rightarrow> 'r \<Rightarrow> 'r"
    and unpin :: "nat \<Rightarrow> 'r \<Rightarrow> 'r"
    and count :: "'r \<Rightarrow> nat"
  assumes victim_None: "inv r \<Longrightarrow> victim r = (r', None) \<Longrightarrow>
      inv r' \<and> evictable_set r' = evictable_set r \<and> manages r' = manages r"
    and victim_Some: "inv r \<Longrightarrow> victim r = (r', Some f) \<Longrightarrow>
      inv r' \<and> f \<in> evictable_set r \<and> evictable_set r' = evictable_set r - {f} \<and> manages r' = manages r"
    and pin_law: "inv r \<Longrightarrow>
      inv (pin f r) \<and> evictable_set (pin f r) = evictable_set r - {f} \<and> manages (pin f r) = manages r"
    and unpin_law: "inv r \<Longrightarrow> manages r f \<Longrightarrow>
      inv (unpin f r) \<and> evictable_set (unpin f r) = insert f (evictable_set r) \<and>
      manages (unpin f r) = manages r"
    and count_law: "inv r \<Longrightarrow> finite (evictable_set r) \<and> count r = card (evictable_set r)"
begin

lemma victim_only_evictable:
  assumes "inv r" "victim r = (r', fo)"
  shows "inv r' \<and> manages r' = manages r \<and> evictable_set r' = evictable_set r - set_option fo \<and>
   set_option fo \<subseteq> evictable_set r"
proof (cases fo)
  case None
  from victim_None [OF assms(1) assms(2) [unfolded None]] show ?thesis by (simp add: None)
next
  case (Some f)
  from victim_Some [OF assms(1) assms(2) [unfolded Some]] show ?thesis by (simp add: Some)
qed

lemma pinned_not_victim:
  assumes "inv r" "victim (pin f r) = (r', Some g)" shows "g \<noteq> f"
  using victim_Some [OF _ assms(2)] pin_law [OF assms(1), of f] by auto

lemma count_victim:
  assumes "inv r" "victim r = (r', Some f)" shows "count r = Suc (count r')"
proof -
  from victim_Some [OF assms]
  have inv: "inv r'" and f: "f \<in> evictable_set r" and e: "evictable_set r' = evictable_set r - {f}"
    by auto
  have "finite (evictable_set r)" using count_law [OF assms(1)] ..
  then have "card (evictable_set r) = Suc (card (evictable_set r'))"
    using card_Suc_Diff1 [OF _ f] e by simp
  then show ?thesis using count_law [OF assms(1)] count_law [OF inv] by simp
qed

end

text \<open>A policy that never refuses while a frame is evictable.\<close>

locale prompt_policy = replacement_policy +
  assumes victim_total: "inv r \<Longrightarrow> evictable_set r \<noteq> {} \<Longrightarrow> \<exists>r' f. victim r = (r', Some f)"
begin

lemma victim_iff: "inv r \<Longrightarrow> (\<exists>r' f. victim r = (r', Some f)) \<longleftrightarrow> evictable_set r \<noteq> {}"
  using victim_total victim_Some by fastforce

end

section \<open>LRU-K keeps the contract\<close>

definition lruk_set :: "lruk \<Rightarrow> nat set" where
  "lruk_set s = fst ` set (evictables s)"

definition lruk_inv :: "lruk \<Rightarrow> bool" where
  "lruk_inv s \<longleftrightarrow> distinct (map fst (evictables s)) \<and> (\<forall>e \<in> set (evictables s). snd e) \<and>
     curr_size s = length (evictables s)"

lemma RecordAccess_fields [simp]:
  "evictables (RecordAccess f s) = evictables s" "curr_size (RecordAccess f s) = curr_size s"
  "lru_k (RecordAccess f s) = lru_k s" "curr_timestamp (RecordAccess f s) = Suc (curr_timestamp s)"
  by (simp_all add: RecordAccess_def Let_def)

lemma set_erase_key [simp]: "fst ` set (erase_key f es) = fst ` set es - {f}"
  by (auto simp: erase_key_def)

lemma length_erase_key:
  "distinct (map fst es) \<Longrightarrow> f \<in> fst ` set es \<Longrightarrow> length (erase_key f es) = length es - 1"
proof (induction es)
  case Nil
  then show ?case by simp
next
  case (Cons e es)
  show ?case
  proof (cases "fst e = f")
    case True
    then have "filter (\<lambda>e. fst e \<noteq> f) es = es"
      using Cons.prems by (auto simp: filter_id_conv image_iff)
    then show ?thesis using True by (simp add: erase_key_def)
  next
    case False
    then have "f \<in> fst ` set es" using Cons.prems(2) by auto
    then have "length (erase_key f es) = length es - 1" "es \<noteq> []"
      using Cons.IH Cons.prems(1) by auto
    then show ?thesis using False by (simp add: erase_key_def)
  qed
qed

lemma distinct_erase_key: "distinct (map fst es) \<Longrightarrow> distinct (map fst (erase_key f es))"
  by (simp add: erase_key_def distinct_map_filter)

lemma lruk_scan_result:
  "lruk_scan s es best = r \<Longrightarrow> \<forall>e \<in> set es. snd e \<Longrightarrow>
   case r of None \<Rightarrow> best = None \<and> es = []
   | Some (v, d) \<Rightarrow> (best = Some (v, d) \<or> v \<in> fst ` set es \<and> d = GetKDistance s v) \<and>
       (\<forall>e \<in> set es. GetKDistance s (fst e) \<le> d) \<and> (\<forall>b. best = Some b \<longrightarrow> snd b \<le> d)"
proof (induction es arbitrary: best)
  case Nil
  then show ?case by (auto split: option.splits)
next
  case (Cons e es)
  obtain f where e: "e = (f, True)" using Cons.prems(2) by (cases e) auto
  let ?d = "GetKDistance s f"
  define best' where "best' = (case best of None \<Rightarrow> Some (f, ?d)
     | Some (v, m) \<Rightarrow> if ?d > m then Some (f, ?d) else best)"
  have "lruk_scan s es best' = r"
    using Cons.prems(1) by (auto simp: e best'_def Let_def split: option.splits)
  from Cons.IH [OF this] Cons.prems(2) show ?case
    by (auto simp: e best'_def split: option.splits if_splits prod.splits)
qed

lemma lruk_victim_cases:
  assumes "lruk_inv s" "lruk_victim s = (s', fo)"
  shows "(fo = None \<and> s' = s \<and> evictables s = []) \<or>
    (\<exists>f. fo = Some f \<and> f \<in> lruk_set s \<and>
       (\<forall>g \<in> lruk_set s. GetKDistance s g \<le> GetKDistance s f) \<and>
       s' = s\<lparr>evictables := erase_key f (evictables s),
              access_history := (access_history s)(f := None), curr_size := curr_size s - 1\<rparr>)"
proof (cases "lruk_scan s (evictables s) None")
  case None
  with lruk_scan_result [OF None] assms show ?thesis
    by (auto simp: lruk_inv_def lruk_victim_def split: if_splits)
next
  case (Some vd)
  obtain f d where vd: "vd = (f, d)" by (cases vd)
  with lruk_scan_result [OF Some] assms(1)
  have "f \<in> lruk_set s" "d = GetKDistance s f" "\<forall>e \<in> set (evictables s). GetKDistance s (fst e) \<le> d"
    by (auto simp: lruk_inv_def lruk_set_def)
  then show ?thesis
    using assms Some vd by (auto simp: lruk_victim_def lruk_inv_def lruk_set_def split: if_splits)
qed

lemma lruk_erase:
  assumes "lruk_inv s" "f \<in> lruk_set s"
    and "evictables s' = erase_key f (evictables s)" "curr_size s' = curr_size s - 1"
  shows "lruk_inv s' \<and> lruk_set s' = lruk_set s - {f}"
  using assms by (auto simp: lruk_inv_def lruk_set_def length_erase_key distinct_erase_key)
    (auto simp: erase_key_def)

interpretation lruk_policy:
  prompt_policy lruk_inv lruk_set "\<lambda>_ _. True" lruk_victim lruk_pin lruk_unpin curr_size
proof
  fix r r' :: lruk and f
  assume inv: "lruk_inv r"
  show "lruk_inv r' \<and> lruk_set r' = lruk_set r \<and> (\<lambda>_. True) = (\<lambda>_. True)" if "lruk_victim r = (r', None)"
    using lruk_victim_cases [OF inv that] inv by simp
  show "lruk_inv r' \<and> f \<in> lruk_set r \<and> lruk_set r' = lruk_set r - {f} \<and> (\<lambda>_. True) = (\<lambda>_. True)"
    if "lruk_victim r = (r', Some f)"
    using lruk_victim_cases [OF inv that] lruk_erase [OF inv, of f r'] by auto
  show "lruk_inv (lruk_pin f r) \<and> lruk_set (lruk_pin f r) = lruk_set r - {f} \<and>
      (\<lambda>_. True) = (\<lambda>_. True)"
  proof (cases "f \<in> lruk_set r")
    case True
    then show ?thesis
      using lruk_erase [OF inv True, of "lruk_pin f r"] by (simp add: lruk_pin_def Let_def lruk_set_def)
  next
    case False
    then show ?thesis using inv by (auto simp: lruk_pin_def Let_def lruk_set_def lruk_inv_def)
  qed
  show "lruk_inv (lruk_unpin f r) \<and> lruk_set (lruk_unpin f r) = insert f (lruk_set r) \<and>
      (\<lambda>_. True) = (\<lambda>_. True)"
    using inv by (auto simp: lruk_unpin_def Let_def lruk_set_def lruk_inv_def)
  show "finite (lruk_set r) \<and> curr_size r = card (lruk_set r)"
    using inv distinct_card [of "map fst (evictables r)"] by (simp add: lruk_set_def lruk_inv_def)
  show "\<exists>r' f. lruk_victim r = (r', Some f)" if "lruk_set r \<noteq> {}"
  proof -
    obtain s fo where v: "lruk_victim r = (s, fo)" by (cases "lruk_victim r")
    from lruk_victim_cases [OF inv v] that v show ?thesis by (auto simp: lruk_set_def)
  qed
qed

section \<open>Clock keeps the contract\<close>

definition clock_set :: "clock \<Rightarrow> nat set" where
  "clock_set c = {f. f < num_frames c \<and> evictable (frames c ! f)}"

definition clock_inv :: "clock \<Rightarrow> bool" where
  "clock_inv c \<longleftrightarrow> length (frames c) = num_frames c \<and>
     (num_frames c = 0 \<or> clock_hand c < num_frames c) \<and> clock_size c = card (clock_set c)"

lemma clock_set_finite [simp]: "finite (clock_set c)"
  by (simp add: clock_set_def)

lemma clock_set_update:
  assumes "length (frames c) = num_frames c" "f < num_frames c"
    and "frames c' = (frames c)[f := fr]" "num_frames c' = num_frames c"
  shows "clock_set c' = (if evictable fr then insert f (clock_set c) else clock_set c - {f})"
  using assms by (auto simp: clock_set_def nth_list_update)

lemma clock_sweep_law:
  assumes "clock_inv c" "0 < num_frames c" "clock_sweep n c = (c', fo)"
  shows "clock_inv c' \<and> num_frames c' = num_frames c \<and> clock_set c' = clock_set c - set_option fo \<and>
    set_option fo \<subseteq> clock_set c"
  using assms
proof (induction n arbitrary: c)
  case 0
  then show ?case by simp
next
  case (Suc n)
  let ?h = "clock_hand c" and ?fr = "frames c ! clock_hand c"
  let ?next = "(clock_hand c + 1) mod num_frames c"
  have h: "?h < num_frames c" and len: "length (frames c) = num_frames c"
    and sz: "clock_size c = card (clock_set c)"
    using Suc.prems by (auto simp: clock_inv_def)
  have next_ok: "?next < num_frames c" using Suc.prems(2) by simp
  consider "\<not> evictable ?fr" | "evictable ?fr" "\<not> ref_bit ?fr" | "evictable ?fr" "ref_bit ?fr" by blast
  then show ?case
  proof cases
    case 1
    let ?c = "c\<lparr>clock_hand := ?next\<rparr>"
    have same: "clock_set ?c = clock_set c" by (simp add: clock_set_def)
    have "clock_inv ?c" using len next_ok sz same by (simp add: clock_inv_def)
    from Suc.IH [OF this] Suc.prems 1 same show ?thesis by (simp add: Let_def)
  next
    case 2
    let ?c = "c\<lparr>frames := (frames c)[?h := ?fr\<lparr>evictable := False\<rparr>],
      clock_size := clock_size c - 1, clock_hand := ?next\<rparr>"
    have "c' = ?c" "fo = Some ?h" using Suc.prems(3) 2 by (simp_all add: Let_def)
    moreover have "clock_set ?c = clock_set c - {?h}"
      using clock_set_update [OF len h, of ?c "?fr\<lparr>evictable := False\<rparr>"] by simp
    moreover have "?h \<in> clock_set c" using 2 h by (simp add: clock_set_def)
    ultimately show ?thesis using len next_ok sz by (simp add: clock_inv_def)
  next
    case 3
    let ?c = "c\<lparr>frames := (frames c)[?h := ?fr\<lparr>ref_bit := False\<rparr>], clock_hand := ?next\<rparr>"
    have "?h \<in> clock_set c" using 3 h by (simp add: clock_set_def)
    then have same: "clock_set ?c = clock_set c"
      using clock_set_update [OF len h, of ?c "?fr\<lparr>ref_bit := False\<rparr>"] 3 by (simp add: insert_absorb)
    have "clock_inv ?c" using len next_ok sz same by (simp add: clock_inv_def)
    from Suc.IH [OF this] Suc.prems 3 same show ?thesis by (simp add: Let_def)
  qed
qed

lemma clock_victim_law:
  assumes "clock_inv c" "clock_victim c = (c', fo)"
  shows "clock_inv c' \<and> num_frames c' = num_frames c \<and> clock_set c' = clock_set c - set_option fo \<and>
    set_option fo \<subseteq> clock_set c"
proof (cases "clock_size c = 0")
  case True
  then show ?thesis using assms by (simp add: clock_victim_def)
next
  case False
  then have "0 < num_frames c" using assms(1) by (auto simp: clock_inv_def clock_set_def card_eq_0_iff)
  then show ?thesis using clock_sweep_law [OF assms(1)] assms(2) False by (simp add: clock_victim_def)
qed

interpretation clock_policy:
  replacement_policy clock_inv clock_set "\<lambda>c f. f < num_frames c" clock_victim clock_pin clock_unpin
    clock_size
proof
  fix r r' :: clock and f
  assume inv: "clock_inv r"
  show "clock_inv r' \<and> clock_set r' = clock_set r \<and> (\<lambda>f. f < num_frames r') = (\<lambda>f. f < num_frames r)"
    if "clock_victim r = (r', None)"
    using clock_victim_law [OF inv that] by simp
  show "clock_inv r' \<and> f \<in> clock_set r \<and> clock_set r' = clock_set r - {f} \<and>
      (\<lambda>f. f < num_frames r') = (\<lambda>f. f < num_frames r)" if "clock_victim r = (r', Some f)"
    using clock_victim_law [OF inv that] by simp
  have len: "length (frames r) = num_frames r" and sz: "clock_size r = card (clock_set r)"
    using inv by (simp_all add: clock_inv_def)
  let ?off = "(frames r ! f)\<lparr>evictable := False, ref_bit := True\<rparr>"
  let ?on = "(frames r ! f)\<lparr>evictable := True, ref_bit := True\<rparr>"
  show "clock_inv (clock_pin f r) \<and> clock_set (clock_pin f r) = clock_set r - {f} \<and>
      (\<lambda>g. g < num_frames (clock_pin f r)) = (\<lambda>f. f < num_frames r)"
  proof (cases "f \<in> clock_set r")
    case True
    then have f: "f < num_frames r" "evictable (frames r ! f)" by (auto simp: clock_set_def)
    have "clock_set (r\<lparr>frames := (frames r)[f := ?off], clock_size := clock_size r - 1\<rparr>) = clock_set r - {f}"
      by (subst clock_set_update [OF len f(1), where fr = ?off]) simp_all
    then show ?thesis
      using f inv True sz by (auto simp: clock_pin_def Let_def clock_inv_def)
  next
    case False
    then have "clock_pin f r = r" by (auto simp: clock_pin_def clock_set_def Let_def)
    then show ?thesis using inv False by simp
  qed
  show "clock_inv (clock_unpin f r) \<and> clock_set (clock_unpin f r) = insert f (clock_set r) \<and>
      (\<lambda>g. g < num_frames (clock_unpin f r)) = (\<lambda>f. f < num_frames r)" if f: "f < num_frames r"
  proof (cases "f \<in> clock_set r")
    case True
    then have "clock_unpin f r = r" by (auto simp: clock_unpin_def clock_set_def Let_def)
    then show ?thesis using inv True by (simp add: insert_absorb)
  next
    case False
    then have e: "\<not> evictable (frames r ! f)" using f by (auto simp: clock_set_def)
    have "clock_set (r\<lparr>frames := (frames r)[f := ?on], clock_size := clock_size r + 1\<rparr>) =
        insert f (clock_set r)"
      by (subst clock_set_update [OF len f, where fr = ?on]) simp_all
    then show ?thesis
      using f e inv False sz by (auto simp: clock_unpin_def Let_def clock_inv_def)
  qed
  show "finite (clock_set r) \<and> clock_size r = card (clock_set r)" using sz by simp
qed

section \<open>Dispatch keeps the contract\<close>

fun replacer_inv :: "replacer \<Rightarrow> bool" where
  "replacer_inv (LRUK s) = lruk_inv s"
| "replacer_inv (Clock c) = clock_inv c"

fun evictable_frames :: "replacer \<Rightarrow> nat set" where
  "evictable_frames (LRUK s) = lruk_set s"
| "evictable_frames (Clock c) = clock_set c"

fun manages_frame :: "replacer \<Rightarrow> nat \<Rightarrow> bool" where
  "manages_frame (LRUK s) = (\<lambda>_. True)"
| "manages_frame (Clock c) = (\<lambda>f. f < num_frames c)"

interpretation policy:
  replacement_policy replacer_inv evictable_frames manages_frame Victim Pin Unpin Size
proof
  fix r r' :: replacer and f
  assume inv: "replacer_inv r"
  show "replacer_inv r' \<and> evictable_frames r' = evictable_frames r \<and> manages_frame r' = manages_frame r"
    if "Victim r = (r', None)"
    using that inv by (cases r) (auto split: prod.splits dest: lruk_policy.victim_None clock_policy.victim_None)
  show "replacer_inv r' \<and> f \<in> evictable_frames r \<and> evictable_frames r' = evictable_frames r - {f} \<and>
      manages_frame r' = manages_frame r" if v: "Victim r = (r', Some f)"
  proof (cases r)
    case (LRUK s)
    then obtain s' where "r' = LRUK s'" "lruk_victim s = (s', Some f)"
      using v by (auto split: prod.splits)
    then show ?thesis using lruk_policy.victim_Some [of s s' f] inv LRUK by simp
  next
    case (Clock c)
    then obtain c' where "r' = Clock c'" "clock_victim c = (c', Some f)"
      using v by (auto split: prod.splits)
    then show ?thesis using clock_policy.victim_Some [of c c' f] inv Clock by simp
  qed
  show "replacer_inv (Pin f r) \<and> evictable_frames (Pin f r) = evictable_frames r - {f} \<and>
      manages_frame (Pin f r) = manages_frame r"
    using inv lruk_policy.pin_law clock_policy.pin_law by (cases r) simp_all
  show "replacer_inv (Unpin f r) \<and> evictable_frames (Unpin f r) = insert f (evictable_frames r) \<and>
      manages_frame (Unpin f r) = manages_frame r" if "manages_frame r f"
    using that inv lruk_policy.unpin_law clock_policy.unpin_law by (cases r) simp_all
  show "finite (evictable_frames r) \<and> Size r = card (evictable_frames r)"
    using inv lruk_policy.count_law clock_policy.count_law by (cases r) simp_all
qed

section \<open>How far one sweep of the clock gets\<close>

definition hand_at :: "clock \<Rightarrow> nat \<Rightarrow> nat" where
  "hand_at c i = (clock_hand c + i) mod num_frames c"

definition second_chance :: "clock \<Rightarrow> nat \<Rightarrow> bool" where
  "second_chance c f \<longleftrightarrow> evictable (frames c ! f) \<and> ref_bit (frames c ! f)"

definition ready :: "clock \<Rightarrow> nat \<Rightarrow> bool" where
  "ready c f \<longleftrightarrow> evictable (frames c ! f) \<and> \<not> ref_bit (frames c ! f)"

definition clock_step :: "clock \<Rightarrow> clock" where
  "clock_step c = (let frame = frames c ! clock_hand c in
     c\<lparr>frames := (if evictable frame then (frames c)[clock_hand c := frame\<lparr>ref_bit := False\<rparr>] else frames c),
       clock_hand := (clock_hand c + 1) mod num_frames c\<rparr>)"

lemma clock_sweep_Suc:
  "\<not> ready c (clock_hand c) \<Longrightarrow> clock_sweep (Suc n) c = clock_sweep n (clock_step c)"
  "ready c (clock_hand c) \<Longrightarrow> \<exists>c'. clock_sweep (Suc n) c = (c', Some (clock_hand c))"
  by (auto simp: ready_def clock_step_def Let_def)

lemma clock_step_facts:
  assumes "clock_hand c < num_frames c" "length (frames c) = num_frames c"
  shows "num_frames (clock_step c) = num_frames c" "length (frames (clock_step c)) = num_frames c"
    "clock_hand (clock_step c) < num_frames c" "hand_at (clock_step c) i = hand_at c (Suc i)"
    "f < num_frames c \<Longrightarrow> second_chance (clock_step c) f \<longleftrightarrow> second_chance c f \<and> f \<noteq> clock_hand c"
    "f < num_frames c \<Longrightarrow> evictable (frames (clock_step c) ! f) = evictable (frames c ! f)"
  using assms
  by (auto simp: clock_step_def Let_def second_chance_def nth_list_update hand_at_def mod_simps)

lemma hand_at_0 [simp]: "clock_hand c < num_frames c \<Longrightarrow> hand_at c 0 = clock_hand c"
  by (simp add: hand_at_def)

lemma hand_at_less: "0 < num_frames c \<Longrightarrow> hand_at c i < num_frames c"
  by (simp add: hand_at_def)

lemma sweep_None_clears:
  assumes "clock_hand c < num_frames c" "length (frames c) = num_frames c"
    and "clock_sweep n c = (c', None)" "f < num_frames c"
    and "\<not> second_chance c f \<or> (\<exists>i < n. f = hand_at c i)"
  shows "\<not> second_chance c' f"
  using assms
proof (induction n arbitrary: c)
  case 0
  then show ?case by simp
next
  case (Suc n)
  note facts = clock_step_facts [OF Suc.prems(1,2)]
  have "\<not> ready c (clock_hand c)"
    using clock_sweep_Suc(2) [of c n] Suc.prems(3) by auto
  then have sweep: "clock_sweep n (clock_step c) = (c', None)"
    using clock_sweep_Suc(1) Suc.prems(3) by simp
  have "\<not> second_chance (clock_step c) f \<or> (\<exists>i < n. f = hand_at (clock_step c) i)"
  proof (cases "f = clock_hand c \<or> \<not> second_chance c f")
    case True
    then show ?thesis using facts(5) Suc.prems(4) by auto
  next
    case False
    then obtain i where "i < Suc n" "f = hand_at c i" using Suc.prems(5) by auto
    with False Suc.prems(1) obtain j where "i = Suc j" "j < n" by (cases i) auto
    then show ?thesis using facts(4) \<open>f = hand_at c i\<close> by auto
  qed
  then show ?case
    using Suc.IH [of "clock_step c"] facts(1-3) sweep Suc.prems(4) by auto
qed

lemma sweep_keeps_hand:
  assumes "clock_hand c < num_frames c" "length (frames c) = num_frames c"
    and "clock_sweep n c = (c', None)"
  shows "clock_hand c' < num_frames c \<and> length (frames c') = num_frames c \<and> num_frames c' = num_frames c"
  using assms
proof (induction n arbitrary: c)
  case 0
  then show ?case by simp
next
  case (Suc n)
  have "\<not> ready c (clock_hand c)"
    using clock_sweep_Suc(2) [of c n] Suc.prems(3) by auto
  then have "clock_sweep n (clock_step c) = (c', None)"
    using clock_sweep_Suc(1) Suc.prems(3) by simp
  with Suc.IH [of "clock_step c"] clock_step_facts(1-3) [OF Suc.prems(1,2)] show ?case by simp
qed

lemma sweep_finds_ready:
  assumes "clock_hand c < num_frames c" "length (frames c) = num_frames c"
    and "i < n" "evictable (frames c ! hand_at c i)" "\<forall>f < num_frames c. \<not> second_chance c f"
  shows "\<exists>c' f. clock_sweep n c = (c', Some f)"
  using assms
proof (induction n arbitrary: c i)
  case 0
  then show ?case by simp
next
  case (Suc n)
  note facts = clock_step_facts [OF Suc.prems(1,2)]
  show ?case
  proof (cases "ready c (clock_hand c)")
    case True
    then show ?thesis using clock_sweep_Suc(2) [of c n] by auto
  next
    case False
    have "i \<noteq> 0"
    proof
      assume "i = 0"
      then show False using False Suc.prems by (auto simp: ready_def second_chance_def)
    qed
    then obtain j where j: "i = Suc j" "j < n" using Suc.prems(3) by (cases i) auto
    have "hand_at c i < num_frames c" using Suc.prems(1) by (simp add: hand_at_def)
    then have "evictable (frames (clock_step c) ! hand_at (clock_step c) j)"
      using facts(4,6) j(1) Suc.prems(4) by simp
    with Suc.IH [of "clock_step c" j] facts(1-3,5) j(2) Suc.prems(5) show ?thesis
      by (simp add: clock_sweep_Suc(1) [OF False] del: clock_sweep.simps)
  qed
qed

lemma sweep_refuses:
  assumes "clock_hand c < num_frames c" "length (frames c) = num_frames c" "n \<le> num_frames c"
    and "\<forall>i < n. \<not> ready c (hand_at c i)"
  shows "\<exists>c'. clock_sweep n c = (c', None)"
  using assms
proof (induction n arbitrary: c)
  case 0
  then show ?case by simp
next
  case (Suc n)
  note facts = clock_step_facts [OF Suc.prems(1,2)]
  have h: "\<not> ready c (clock_hand c)" using Suc.prems(1,4) by (metis hand_at_0 zero_less_Suc)
  have "\<not> ready (clock_step c) (hand_at (clock_step c) i)" if "i < n" for i
  proof -
    have "hand_at c (Suc i) \<noteq> clock_hand c"
    proof
      assume "hand_at c (Suc i) = clock_hand c"
      then have "(clock_hand c + Suc i) mod num_frames c = clock_hand c mod num_frames c"
        using Suc.prems(1) by (simp add: hand_at_def)
      then have "num_frames c dvd Suc i" by (simp add: mod_eq_dvd_iff_nat)
      then have "num_frames c \<le> Suc i" by (rule dvd_imp_le) simp
      then show False using that Suc.prems(3) by simp
    qed
    moreover have "\<not> ready c (hand_at c (Suc i))" using that Suc.prems(4) by simp
    ultimately show ?thesis
      using facts(4) by (simp add: ready_def clock_step_def Let_def nth_list_update)
  qed
  with Suc.IH [of "clock_step c"] facts(1-3) Suc.prems(3) show ?case
    by (simp add: clock_sweep_Suc(1) [OF h] del: clock_sweep.simps)
qed

lemma clock_refuses:
  assumes "clock_inv c" "\<forall>f \<in> clock_set c. ref_bit (frames c ! f)"
  shows "\<exists>c'. clock_victim c = (c', None) \<and> clock_set c' = clock_set c"
proof (cases "clock_size c = 0")
  case True
  then show ?thesis by (simp add: clock_victim_def)
next
  case False
  then have n: "0 < num_frames c" using assms(1) by (auto simp: clock_inv_def clock_set_def card_eq_0_iff)
  then have c: "clock_hand c < num_frames c" "length (frames c) = num_frames c"
    using assms(1) by (auto simp: clock_inv_def)
  have "\<forall>i < num_frames c. \<not> ready c (hand_at c i)"
    using assms(2) hand_at_less [OF n] by (auto simp: ready_def clock_set_def)
  from sweep_refuses [OF c order_refl this] obtain c' where "clock_sweep (num_frames c) c = (c', None)"
    by blast
  then show ?thesis
    using False clock_victim_law [OF assms(1), of c' None] by (simp add: clock_victim_def)
qed

section \<open>Traces\<close>

text \<open>A run of the replacer against the set of evictable frames it stands for.\<close>

datatype request = RPin nat | RUnpin nat | RVictim

datatype event = Pinned nat | Unpinned nat | Evicted nat | Refused

fun serve :: "request \<Rightarrow> replacer \<Rightarrow> replacer \<times> event" where
  "serve (RPin f) r = (Pin f r, Pinned f)"
| "serve (RUnpin f) r = (Unpin f r, Unpinned f)"
| "serve RVictim r = (case Victim r of (r', None) \<Rightarrow> (r', Refused) | (r', Some f) \<Rightarrow> (r', Evicted f))"

fun serve_all :: "request list \<Rightarrow> replacer \<Rightarrow> replacer \<times> event list" where
  "serve_all [] r = (r, [])"
| "serve_all (q # qs) r =
     (let (r, e) = serve q r; (r, es) = serve_all qs r in (r, e # es))"

fun spec_trace :: "event list \<Rightarrow> nat set \<Rightarrow> nat set option" where
  "spec_trace [] E = Some E"
| "spec_trace (Pinned f # es) E = spec_trace es (E - {f})"
| "spec_trace (Unpinned f # es) E = spec_trace es (insert f E)"
| "spec_trace (Evicted f # es) E = (if f \<in> E then spec_trace es (E - {f}) else None)"
| "spec_trace (Refused # es) E = spec_trace es E"

lemma serve_spec:
  assumes "replacer_inv r" "\<forall>f. q = RUnpin f \<longrightarrow> manages_frame r f" "serve q r = (r', e)"
  shows "replacer_inv r'" "manages_frame r' = manages_frame r"
    "spec_trace (e # es) (evictable_frames r) = spec_trace es (evictable_frames r')"
proof -
  have "replacer_inv r' \<and> manages_frame r' = manages_frame r \<and>
    spec_trace (e # es) (evictable_frames r) = spec_trace es (evictable_frames r')"
  proof (cases q)
    case (RPin f)
    then have "r' = Pin f r" "e = Pinned f" using assms(3) by simp_all
    then show ?thesis using policy.pin_law [OF assms(1), of f] by simp
  next
    case (RUnpin f)
    then have "r' = Unpin f r" "e = Unpinned f" "manages_frame r f" using assms(2,3) by simp_all
    then show ?thesis using policy.unpin_law [OF assms(1), of f] by simp
  next
    case RVictim
    obtain r1 fo where v: "Victim r = (r1, fo)" by (cases "Victim r")
    show ?thesis
    proof (cases fo)
      case None
      with v RVictim assms(3) have "r' = r1" "e = Refused" by simp_all
      then show ?thesis using policy.victim_None [OF assms(1) v [unfolded None]] by simp
    next
      case (Some f)
      with v RVictim assms(3) have "r' = r1" "e = Evicted f" by simp_all
      then show ?thesis using policy.victim_Some [OF assms(1) v [unfolded Some]] by simp
    qed
  qed
  then show "replacer_inv r'" "manages_frame r' = manages_frame r"
    "spec_trace (e # es) (evictable_frames r) = spec_trace es (evictable_frames r')" by auto
qed

lemma serve_all_spec:
  "replacer_inv r \<Longrightarrow> \<forall>f. RUnpin f \<in> set qs \<longrightarrow> manages_frame r f \<Longrightarrow> serve_all qs r = (rz, es) \<Longrightarrow>
   replacer_inv rz \<and> spec_trace es (evictable_frames r) = Some (evictable_frames rz)"
proof (induction qs arbitrary: r es)
  case Nil
  then show ?case by simp
next
  case (Cons q qs)
  obtain r1 e where s: "serve q r = (r1, e)" by (cases "serve q r")
  obtain r2 es2 where a: "serve_all qs r1 = (r2, es2)" by (cases "serve_all qs r1")
  have a: "serve_all qs r1 = (rz, es2)" and eq: "es = e # es2" using Cons.prems(3) s a by simp_all
  have q: "\<forall>f. q = RUnpin f \<longrightarrow> manages_frame r f" using Cons.prems(2) by auto
  note st = serve_spec [OF Cons.prems(1) q s]
  have "\<forall>f. RUnpin f \<in> set qs \<longrightarrow> manages_frame r1 f" using Cons.prems(2) st(2) by simp
  from Cons.IH [OF st(1) this a] st(3) [of es2] show ?case by (simp add: eq)
qed

lemma fresh_inv [simp]:
  "lruk_inv (LRUKReplacer k)" "lruk_set (LRUKReplacer k) = {}"
  "clock_inv (ClockReplacer n)" "clock_set (ClockReplacer n) = {}"
  "num_frames (ClockReplacer n) = n"
proof -
  show e: "clock_set (ClockReplacer n) = {}" by (auto simp: clock_set_def ClockReplacer_def)
  show "clock_inv (ClockReplacer n)"
    unfolding clock_inv_def e by (simp add: ClockReplacer_def) (cases n, simp_all)
qed (simp_all add: lruk_inv_def lruk_set_def LRUKReplacer_def ClockReplacer_def)

section \<open>Properties\<close>

text \<open>C3: the frame LRU-K evicts is an evictable one of largest backward k-distance (frames seen
  fewer than k times count as infinitely far); only that frame and its history are dropped.\<close>

theorem lruk_victim_farthest:
  assumes "lruk_inv s" "lruk_victim s = (s', Some f)"
  shows "f \<in> lruk_set s \<and> (\<forall>g \<in> lruk_set s. GetKDistance s g \<le> GetKDistance s f) \<and>
    lruk_set s' = lruk_set s - {f} \<and> access_history s' = (access_history s)(f := None)"
  using lruk_victim_cases [OF assms] lruk_policy.victim_Some [OF assms] by auto

text \<open>Frame 3 has been seen once, frame 5 twice: with k = 2 frame 3 is infinitely far.\<close>

definition demo_lruk :: lruk where
  "demo_lruk = lruk_unpin 3 (lruk_unpin 5 (lruk_pin 5 (LRUKReplacer 2)))"

lemma demo_lruk_facts:
  "lruk_inv demo_lruk" "lruk_set demo_lruk = {3, 5}" "\<exists>s. lruk_victim demo_lruk = (s, Some 3)"
  by (auto simp: demo_lruk_def lruk_unpin_def lruk_pin_def LRUKReplacer_def RecordAccess_def
      lruk_inv_def lruk_set_def lruk_victim_def GetKDistance_def SIZE_MAX_def Let_def)

theorem lruk_victim_farthest_witness:
  "\<exists>s. lruk_victim demo_lruk = (s, Some 3) \<and> lruk_set s = {5} \<and>
    GetKDistance demo_lruk 5 \<le> GetKDistance demo_lruk 3"
proof -
  from demo_lruk_facts(3) obtain s where s: "lruk_victim demo_lruk = (s, Some 3)" ..
  from lruk_victim_farthest [OF demo_lruk_facts(1) s] s show ?thesis
    by (auto simp: demo_lruk_facts)
qed

text \<open>C4: \<open>Pin\<close>, \<open>Unpin\<close> and \<open>Victim\<close> of either policy, in any order, follow the set of
  evictable frames: a frame is only evicted while it is unpinned and not yet evicted, and the
  replacer ends holding exactly the frames the history leaves evictable.\<close>

theorem replacer_refines_set:
  assumes "r = LRUK (LRUKReplacer k) \<or> r = Clock (ClockReplacer n)"
    and "\<forall>f. RUnpin f \<in> set qs \<longrightarrow> f < n" and "serve_all qs r = (r', es)"
  shows "spec_trace es {} = Some (evictable_frames r') \<and> Size r' = card (evictable_frames r')"
proof -
  have r: "replacer_inv r" "evictable_frames r = {}" "\<And>f. f < n \<Longrightarrow> manages_frame r f"
    using assms(1) by auto
  then have "\<forall>f. RUnpin f \<in> set qs \<longrightarrow> manages_frame r f" using assms(2) by blast
  from serve_all_spec [OF r(1) this assms(3)] show ?thesis
    using policy.count_law [of r'] by (simp add: r(2))
qed

theorem replacer_refines_set_witness:
  "\<exists>r es. serve_all [RUnpin 0, RUnpin 1, RPin 0, RVictim, RVictim] (Clock (ClockReplacer 2)) = (r, es) \<and>
     es = [Unpinned 0, Unpinned 1, Pinned 0, Refused, Evicted 1] \<and>
     spec_trace es {} = Some {} \<and> Size r = 0"
proof -
  let ?qs = "[RUnpin 0, RUnpin 1, RPin 0, RVictim, RVictim]"
  obtain r es where run: "serve_all ?qs (Clock (ClockReplacer 2)) = (r, es)"
    by (cases "serve_all ?qs (Clock (ClockReplacer 2))")
  have "es = [Unpinned 0, Unpinned 1, Pinned 0, Refused, Evicted 1] \<and> Size r = 0"
    using run by (auto simp: ClockReplacer_def clock_unpin_def clock_pin_def clock_victim_def Let_def
        numeral_2_eq_2 numeral_3_eq_3)
  with run replacer_refines_set [OF _ _ run, of undefined 2] show ?thesis by auto
qed

text \<open>one call of \<open>ClockReplacer::Victim\<close> refuses whenever every evictable frame still has
  its reference bit, which is how \<open>Unpin\<close> leaves a frame; the comment in the code expects a
  victim after at most one full rotation.\<close>

theorem clock_victim_refuses:
  assumes "clock_inv c" "\<forall>f \<in> clock_set c. ref_bit (frames c ! f)"
  shows "\<exists>c'. clock_victim c = (c', None) \<and> clock_set c' = clock_set c"
  by (rule clock_refuses [OF assms])

definition demo_clock :: clock where
  "demo_clock = clock_unpin 1 (clock_unpin 0 (ClockReplacer 2))"

lemma demo_clock_facts:
  "clock_inv demo_clock" "clock_set demo_clock = {0, 1}" "ref_bit (frames demo_clock ! 0)"
  "ref_bit (frames demo_clock ! Suc 0)"
proof -
  have a: "clock_inv (clock_unpin 0 (ClockReplacer 2))" "clock_set (clock_unpin 0 (ClockReplacer 2)) = {0}"
      "num_frames (clock_unpin 0 (ClockReplacer 2)) = 2"
    using clock_policy.unpin_law [of "ClockReplacer 2" 0] by (auto simp: clock_unpin_def Let_def)
  then show "clock_inv demo_clock" "clock_set demo_clock = {0, 1}"
    using clock_policy.unpin_law [of "clock_unpin 0 (ClockReplacer 2)" 1] by (auto simp: demo_clock_def)
  show "ref_bit (frames demo_clock ! 0)" "ref_bit (frames demo_clock ! Suc 0)"
    by (simp_all add: demo_clock_def clock_unpin_def ClockReplacer_def Let_def numeral_2_eq_2)
qed

theorem clock_victim_refuses_witness:
  "clock_set demo_clock \<noteq> {} \<and> (\<exists>c. clock_victim demo_clock = (c, None) \<and> clock_set c = {0, 1})"
  using clock_victim_refuses [OF demo_clock_facts(1)] by (simp add: demo_clock_facts)

text \<open>A second call in a row never refuses: the sweep that found nothing has cleared every
  reference bit, so the next one evicts a frame as soon as one is evictable.\<close>

theorem clock_second_victim:
  assumes "clock_inv c" "clock_set c \<noteq> {}" "clock_victim c = (c', None)"
  shows "\<exists>c'' f. clock_victim c' = (c'', Some f) \<and> f \<in> clock_set c"
proof -
  obtain g where g: "g < num_frames c" "g \<in> clock_set c" using assms(2) by (auto simp: clock_set_def)
  have size: "clock_size c \<noteq> 0" using assms(1,2) by (simp add: clock_inv_def)
  have c: "clock_hand c < num_frames c" "length (frames c) = num_frames c"
    using assms(1) g(1) by (auto simp: clock_inv_def)
  have sweep: "clock_sweep (num_frames c) c = (c', None)"
    using assms(3) size by (simp add: clock_victim_def)
  note law = clock_victim_law [OF assms(1,3)]
  note c' = sweep_keeps_hand [OF c sweep]
  have reach: "\<exists>i < num_frames d. f = hand_at d i" if "f < num_frames d" "clock_hand d < num_frames d" for d f
  proof (cases "clock_hand d \<le> f")
    case True
    then have "hand_at d (f - clock_hand d) = f" using that by (simp add: hand_at_def)
    moreover have "f - clock_hand d < num_frames d" using that by simp
    ultimately show ?thesis by metis
  next
    case False
    then have "hand_at d (f + num_frames d - clock_hand d) = f" using that by (simp add: hand_at_def)
    moreover have "f + num_frames d - clock_hand d < num_frames d" using False that by simp
    ultimately show ?thesis by metis
  qed
  have clear: "\<forall>f < num_frames c'. \<not> second_chance c' f"
    using sweep_None_clears [OF c sweep] reach [OF _ c(1)] c' by auto
  have g': "g < num_frames c'" "evictable (frames c' ! g)" using law g c' by (auto simp: clock_set_def)
  obtain i where i: "i < num_frames c'" "g = hand_at c' i" using reach [of g c'] g' c' by auto
  from sweep_finds_ready [of c' i "num_frames c'"] i g'(2) clear c'
  obtain c'' f where "clock_sweep (num_frames c') c' = (c'', Some f)" by auto
  moreover have "clock_size c' \<noteq> 0" using law assms(2) by (auto simp: clock_inv_def)
  ultimately have v: "clock_victim c' = (c'', Some f)" by (simp add: clock_victim_def)
  then show ?thesis using clock_victim_law [of c' c'' "Some f"] law by auto
qed

lemma demo_clock_first: "\<exists>c. clock_victim demo_clock = (c, None)"
proof -
  have "snd (clock_victim demo_clock) = None"
    by (simp add: demo_clock_def clock_unpin_def ClockReplacer_def clock_victim_def Let_def numeral_2_eq_2)
  then show ?thesis by (metis prod.collapse)
qed

theorem clock_second_victim_witness:
  "\<exists>c c' f. clock_victim demo_clock = (c, None) \<and> clock_victim c = (c', Some f) \<and> f \<in> {0, 1}"
proof -
  from demo_clock_first obtain c where c: "clock_victim demo_clock = (c, None)" ..
  have "clock_set demo_clock \<noteq> {}" by (simp add: demo_clock_facts)
  from clock_second_victim [OF demo_clock_facts(1) this c] obtain c' f
    where "clock_victim c = (c', Some f)" "f \<in> {0, 1}" unfolding demo_clock_facts(2) by blast
  with c show ?thesis by blast
qed

end
