(* ===== verification/Disk_Manager.thy ===== *)
theory Disk_Manager
  imports Rid
begin

text \<open>
  The disk manager (storage/disk/disk_manager.h and .cpp): database files as sequences of
  16 KB pages, page 0 holding the header with the page count and the head of the chain of
  freed pages.

  The file system below it is part of the state: \<open>dir\<close> maps paths to inodes, \<open>blocks\<close> holds
  the contents of an inode, page by page (the code transfers whole pages at page offsets only),
  and \<open>broken\<close> marks the positions whose transfers fail. An open \<open>fstream\<close> is the inode it was
  opened on, so removing a path does not disturb it. An entry of \<open>files\<close> is always open: the
  code erases the entry when it closes the stream.

  \<open>None\<close> as the result of an operation means that the source does not get to a result:
  it locks the mutex it already holds, or goes on with a header it failed to read.
\<close>

section \<open>State\<close>

record file_entry =
  table_name :: string
  db_path :: string
  inode :: nat
  num_pages :: i16

record disk =
  dir :: "string \<rightharpoonup> nat"
  blocks :: "nat \<Rightarrow> page list"
  next_inode :: nat
  permitted :: "string \<Rightarrow> bool"
  broken :: "nat \<Rightarrow> nat \<Rightarrow> bool"
  files :: "(i16 \<times> file_entry) list"
  next_file_id :: i16

text \<open>\<open>files_\<close> is a \<open>std::map\<close>: its entries in the order of their keys.\<close>

definition files_put :: "i16 \<Rightarrow> file_entry \<Rightarrow> (i16 \<times> file_entry) list \<Rightarrow> (i16 \<times> file_entry) list" where
  "files_put fid e fs = filter (\<lambda>x. fst x < fid) fs @ (fid, e) # filter (\<lambda>x. fid < fst x) fs"

definition files_erase :: "i16 \<Rightarrow> (i16 \<times> file_entry) list \<Rightarrow> (i16 \<times> file_entry) list" where
  "files_erase fid fs = filter (\<lambda>x. fst x \<noteq> fid) fs"

definition GetFileEntry :: "i16 \<Rightarrow> disk \<Rightarrow> file_entry option" where
  "GetFileEntry fid d = map_of (files d) fid"

section \<open>Streams\<close>

text \<open>A write beyond the end leaves a hole of zeros, as the file system does.\<close>

definition stream_read :: "nat \<Rightarrow> nat \<Rightarrow> disk \<Rightarrow> page option" where
  "stream_read ino n d =
     (if n < length (blocks d ino) \<and> \<not> broken d ino n then Some (blocks d ino ! n) else None)"

definition put_page :: "nat \<Rightarrow> page \<Rightarrow> page list \<Rightarrow> page list" where
  "put_page n p ps = (if n < length ps then ps[n := p] else ps @ replicate (n - length ps) zero_page @ [p])"

definition stream_write :: "nat \<Rightarrow> nat \<Rightarrow> page \<Rightarrow> disk \<Rightarrow> disk option" where
  "stream_write ino n p d =
     (if broken d ino n then None
      else Some (d\<lparr>blocks := (blocks d)(ino := put_page n p (blocks d ino))\<rparr>))"

section \<open>File header\<close>

definition OFFSET_TOTAL_PAGES :: nat where "OFFSET_TOTAL_PAGES = 64"
definition OFFSET_FIRST_FREE :: nat where "OFFSET_FIRST_FREE = 66"

lemmas file_header_defs = OFFSET_TOTAL_PAGES_def OFFSET_FIRST_FREE_def

definition total_pages :: "page \<Rightarrow> i16" where
  "total_pages h = dec_word (mem_read h OFFSET_TOTAL_PAGES 2)"

definition set_total_pages :: "i16 \<Rightarrow> page \<Rightarrow> page" where
  "set_total_pages n h = mem_write h OFFSET_TOTAL_PAGES (enc_word n)"

definition first_free_page :: "page \<Rightarrow> i16" where
  "first_free_page h = dec_word (mem_read h OFFSET_FIRST_FREE 2)"

definition set_first_free_page :: "i16 \<Rightarrow> page \<Rightarrow> page" where
  "set_first_free_page n h = mem_write h OFFSET_FIRST_FREE (enc_word n)"

text \<open>\<open>strncpy\<close> of at most 63 characters into the zeroed 64-byte field.\<close>

definition header_name :: "string \<Rightarrow> byte list" where
  "header_name s = take 63 (takeWhile (\<lambda>b. b \<noteq> 0) (map of_char s))"

definition FileHeader :: "string \<Rightarrow> page" where
  "FileHeader s = set_first_free_page 0 (set_total_pages 1 (mem_write zero_page 0 (header_name s)))"

text \<open>A freed page stores the next page of the free chain in its first two bytes.\<close>

definition next_free :: "page \<Rightarrow> i16" where
  "next_free p = dec_word (mem_read p 0 2)"

definition free_page :: "i16 \<Rightarrow> page" where
  "free_page n = mem_write zero_page 0 (enc_word n)"

section \<open>Files\<close>

definition register :: "string \<Rightarrow> string \<Rightarrow> nat \<Rightarrow> i16 \<Rightarrow> disk \<Rightarrow> disk \<times> i16" where
  "register name path ino n d =
     (let file_id = next_file_id d in
      (d\<lparr>next_file_id := file_id + 1,
         files := files_put file_id \<lparr>table_name = name, db_path = path, inode = ino, num_pages = n\<rparr> (files d)\<rparr>,
       file_id))"

definition OpenFile :: "string \<Rightarrow> string \<Rightarrow> disk \<Rightarrow> disk \<times> i16" where
  "OpenFile name path d =
     (case find (\<lambda>x. db_path (snd x) = path) (files d) of
        Some (fid, _) \<Rightarrow> (d, fid)
      | None \<Rightarrow>
          (case dir d path of
             None \<Rightarrow> (d, - 1)
           | Some ino \<Rightarrow>
               if \<not> permitted d path then (d, - 1)
               else register name path ino (of_nat (length (blocks d ino))) d))"

text \<open>
  \<open>CreateFile\<close> on a path that exists calls \<open>OpenFile\<close>, which locks \<open>mutex_\<close> again: the call
  never returns. The write of the header is not checked: on a failing device the file is left
  empty and registered all the same.
\<close>

definition CreateFile :: "string \<Rightarrow> string \<Rightarrow> disk \<Rightarrow> (disk \<times> i16) option" where
  "CreateFile name path d =
     (if dir d path \<noteq> None then None
      else if \<not> permitted d path then Some (d, - 1)
      else
        let ino = next_inode d;
            d = d\<lparr>dir := (dir d)(path \<mapsto> ino), next_inode := ino + 1,
                  blocks := (blocks d)(ino := (if broken d ino 0 then [] else [FileHeader name]))\<rparr>
        in Some (register name path ino 1 d))"

definition CloseFile :: "i16 \<Rightarrow> disk \<Rightarrow> disk" where
  "CloseFile fid d = d\<lparr>files := files_erase fid (files d)\<rparr>"

definition DeleteFile :: "i16 \<Rightarrow> string \<Rightarrow> disk \<Rightarrow> disk" where
  "DeleteFile fid path d =
     d\<lparr>files := files_erase fid (files d), dir := (dir d)(path := None)\<rparr>"

definition GetTableName :: "i16 \<Rightarrow> disk \<Rightarrow> string" where
  "GetTableName fid d = (case GetFileEntry fid d of Some e \<Rightarrow> table_name e | None \<Rightarrow> '''')"

definition GetNumPages :: "i16 \<Rightarrow> disk \<Rightarrow> i16" where
  "GetNumPages fid d = (case GetFileEntry fid d of Some e \<Rightarrow> num_pages e | None \<Rightarrow> 0)"

definition SyncFile :: "i16 \<Rightarrow> disk \<Rightarrow> bool" where
  "SyncFile fid d = (GetFileEntry fid d \<noteq> None)"

section \<open>Pages\<close>

definition ReadPage :: "i32 \<Rightarrow> disk \<Rightarrow> page option" where
  "ReadPage page_id d =
     (case GetFileEntry (GetFileId page_id) d of
        None \<Rightarrow> None
      | Some e \<Rightarrow> stream_read (inode e) (unat (GetPageNo page_id)) d)"

definition WritePage :: "i32 \<Rightarrow> page \<Rightarrow> disk \<Rightarrow> disk \<times> bool" where
  "WritePage page_id data d =
     (case GetFileEntry (GetFileId page_id) d of
        None \<Rightarrow> (d, False)
      | Some e \<Rightarrow>
          (case stream_write (inode e) (unat (GetPageNo page_id)) data d of
             None \<Rightarrow> (d, False)
           | Some d' \<Rightarrow> (d', True)))"

definition AllocatePage :: "i16 \<Rightarrow> disk \<Rightarrow> (disk \<times> i32) option" where
  "AllocatePage file_id d =
     (case GetFileEntry file_id d of
        None \<Rightarrow> Some (d, INVALID_PAGE_ID)
      | Some entry \<Rightarrow> do {
          header \<leftarrow> stream_read (inode entry) 0 d;
          if first_free_page header \<noteq> 0 then do {
            let page_no = first_free_page header;
            free_page_data \<leftarrow> stream_read (inode entry) (unat page_no) d;
            d \<leftarrow> stream_write (inode entry) 0 (set_first_free_page (next_free free_page_data) header) d;
            Some (d, MakePageId file_id page_no) }
          else do {
            let page_no = num_pages entry;
            let entry = entry\<lparr>num_pages := page_no + 1\<rparr>;
            let d = d\<lparr>files := files_put file_id entry (files d)\<rparr>;
            d \<leftarrow> stream_write (inode entry) 0 (set_total_pages (num_pages entry) header) d;
            d \<leftarrow> stream_write (inode entry) (unat page_no) zero_page d;
            Some (d, MakePageId file_id page_no) } })"

definition DeallocatePage :: "i32 \<Rightarrow> disk \<Rightarrow> disk option" where
  "DeallocatePage page_id d =
     (case GetFileEntry (GetFileId page_id) d of
        None \<Rightarrow> Some d
      | Some entry \<Rightarrow> do {
          header \<leftarrow> stream_read (inode entry) 0 d;
          d \<leftarrow> stream_write (inode entry) (unat (GetPageNo page_id)) (free_page (first_free_page header)) d;
          stream_write (inode entry) 0 (set_first_free_page (GetPageNo page_id) header) d })"

end
