(* ===== verification/Disk_Props.thy ===== *)
theory Disk_Props
  imports Disk_Manager
begin

text \<open>
  Correctness of the disk manager: open files never share an inode, so a page written under
  one page id is read back under that id only (locale \<open>block_device\<close>, interpreted on
  \<open>ReadPage\<close> and \<open>WritePage\<close>); the chain of freed pages hands out every page at most once.
\<close>

section \<open>The interface of a block device\<close>

locale block_device =
  fixes inv :: "'d \<Rightarrow> bool"
    and rd :: "'i \<Rightarrow> 'd \<Rightarrow> 'p option"
    and wr :: "'i \<Rightarrow> 'p \<Rightarrow> 'd \<Rightarrow> 'd \<times> bool"
  assumes write_ok: "inv d \<Longrightarrow> wr i p d = (d', True) \<Longrightarrow> inv d' \<and> rd i d' = Some p"
    and write_other: "inv d \<Longrightarrow> wr i p d = (d', True) \<Longrightarrow> j \<noteq> i \<Longrightarrow> rd j d = Some q \<Longrightarrow> rd j d' = Some q"
    and write_fail: "inv d \<Longrightarrow> wr i p d = (d', False) \<Longrightarrow> d' = d"
begin

lemma write_inv: "inv d \<Longrightarrow> inv (fst (wr i p d))"
  using write_ok [of d i p] write_fail [of d i p] by (cases "wr i p d"; cases "snd (wr i p d)") auto

lemma write_keeps:
  assumes "inv d" "rd j d = Some q"
  shows "\<exists>q'. rd j (fst (wr i p d)) = Some q' \<and> (j \<noteq> i \<longrightarrow> q' = q)"
proof (cases "wr i p d")
  case (Pair d' ok)
  then show ?thesis
    using write_ok [OF assms(1), of i p d'] write_other [OF assms(1), of i p d' j q]
      write_fail [OF assms(1), of i p d'] assms(2)
    by (cases ok; cases "j = i") auto
qed

lemma write_same: "inv d \<Longrightarrow> rd i d = Some p \<Longrightarrow> rd i (fst (wr i p d)) = Some p"
  using write_ok [of d i p] write_fail [of d i p] by (cases "wr i p d"; cases "snd (wr i p d)") auto

end

section \<open>Files\<close>

lemma map_of_filter_key: "map_of (filter (\<lambda>x. P (fst x)) xs) k = (if P k then map_of xs k else None)"
  by (induction xs) auto

lemma map_of_files_put [simp]: "map_of (files_put fid e fs) = (map_of fs)(fid \<mapsto> e)"
proof (rule ext)
  fix k
  consider "k < fid" | "k = fid" | "fid < k" by fastforce
  then show "map_of (files_put fid e fs) k = ((map_of fs)(fid \<mapsto> e)) k"
    by cases (auto simp: files_put_def map_add_def map_of_filter_key [where P = "\<lambda>k. k < fid"]
        map_of_filter_key [where P = "\<lambda>k. fid < k"] split: option.splits)
qed

lemma map_of_files_erase [simp]: "map_of (files_erase fid fs) = (map_of fs)(fid := None)"
  by (rule ext) (simp add: files_erase_def map_of_filter_key [where P = "\<lambda>k. k \<noteq> fid"])

lemma set_files_put: "set (files_put fid e fs) \<subseteq> insert (fid, e) (set fs)"
  by (auto simp: files_put_def)

lemma sorted_files_put:
  "sorted_wrt (<) (map fst fs) \<Longrightarrow> sorted_wrt (<) (map fst (files_put fid e fs))"
  by (auto simp: files_put_def sorted_wrt_append sorted_wrt_map sorted_wrt_filter)

lemma sorted_files_erase:
  "sorted_wrt (<) (map fst fs) \<Longrightarrow> sorted_wrt (<) (map fst (files_erase fid fs))"
  by (auto simp: files_erase_def sorted_wrt_map sorted_wrt_filter)

text \<open>What keeps two open files apart.\<close>

definition disk_inv :: "disk \<Rightarrow> bool" where
  "disk_inv d \<longleftrightarrow>
     sorted_wrt (<) (map fst (files d)) \<and>
     (\<forall>f g e e'. GetFileEntry f d = Some e \<and> GetFileEntry g d = Some e' \<and> inode e = inode e' \<longrightarrow> f = g) \<and>
     (\<forall>f e path. GetFileEntry f d = Some e \<and> dir d path = Some (inode e) \<longrightarrow> path = db_path e) \<and>
     (\<forall>f e. GetFileEntry f d = Some e \<longrightarrow> inode e < next_inode d) \<and>
     (\<forall>path i. dir d path = Some i \<longrightarrow> i < next_inode d) \<and> inj_on (dir d) (dom (dir d))"

lemma disk_invD:
  assumes "disk_inv d"
  shows "sorted_wrt (<) (map fst (files d))"
    "GetFileEntry f d = Some e \<Longrightarrow> GetFileEntry g d = Some e' \<Longrightarrow> inode e = inode e' \<Longrightarrow> f = g"
    "GetFileEntry f d = Some e \<Longrightarrow> dir d path = Some (inode e) \<Longrightarrow> path = db_path e"
    "GetFileEntry f d = Some e \<Longrightarrow> inode e < next_inode d"
    "dir d path = Some i \<Longrightarrow> i < next_inode d"
    "inj_on (dir d) (dom (dir d))"
    "dir d path = Some i \<Longrightarrow> dir d path' = Some i \<Longrightarrow> path = path'"
  using assms unfolding disk_inv_def by (metis, metis, metis, metis, metis, metis, metis domI inj_on_def)

definition fresh_disk :: disk where
  "fresh_disk = \<lparr>dir = Map.empty, blocks = (\<lambda>_. []), next_inode = 0, permitted = (\<lambda>_. True),
     broken = (\<lambda>_ _. False), files = [], next_file_id = 0\<rparr>"

lemma fresh_disk_inv [simp]: "disk_inv fresh_disk"
  by (simp add: disk_inv_def fresh_disk_def GetFileEntry_def)

lemma disk_inv_cong:
  assumes "disk_inv d" "dir d' = dir d" "next_inode d' = next_inode d"
    "sorted_wrt (<) (map fst (files d'))"
    "\<And>f e. GetFileEntry f d' = Some e \<Longrightarrow>
       \<exists>e0. GetFileEntry f d = Some e0 \<and> inode e0 = inode e \<and> db_path e0 = db_path e"
  shows "disk_inv d'"
  unfolding disk_inv_def
proof (intro conjI allI impI)
  fix f g e e'
  assume "GetFileEntry f d' = Some e \<and> GetFileEntry g d' = Some e' \<and> inode e = inode e'"
  then show "f = g" using assms(1,5) unfolding disk_inv_def by metis
next
  fix f e path
  assume "GetFileEntry f d' = Some e \<and> dir d' path = Some (inode e)"
  then show "path = db_path e" using assms(1,2,5) unfolding disk_inv_def by metis
next
  fix f e
  assume "GetFileEntry f d' = Some e"
  then show "inode e < next_inode d'" using assms(1,3,5) unfolding disk_inv_def by metis
qed (use assms(1-4) in \<open>auto simp: disk_inv_def\<close>)

lemma stream_write_fields:
  assumes "stream_write ino n p d = Some d'"
  shows "dir d' = dir d" "next_inode d' = next_inode d" "files d' = files d"
    "permitted d' = permitted d" "broken d' = broken d" "next_file_id d' = next_file_id d"
    "GetFileEntry f d' = GetFileEntry f d" "blocks d' = (blocks d)(ino := put_page n p (blocks d ino))"
  using assms by (auto simp: stream_write_def GetFileEntry_def split: if_splits)

lemma stream_write_inv:
  assumes "disk_inv d" "stream_write ino n p d = Some d'" shows "disk_inv d'"
  using stream_write_fields [OF assms(2)] disk_invD(1) [OF assms(1)] by (intro disk_inv_cong [OF assms(1)]) simp_all

lemma files_put_inv:
  assumes "disk_inv d" "GetFileEntry fid d = Some e" "inode e' = inode e" "db_path e' = db_path e"
  shows "disk_inv (d\<lparr>files := files_put fid e' (files d)\<rparr>)"
  using assms
  by (intro disk_inv_cong [OF assms(1)])
    (auto simp: disk_inv_def GetFileEntry_def sorted_files_put split: if_splits)

lemma files_erase_inv:
  assumes "disk_inv d" shows "disk_inv (d\<lparr>files := files_erase fid (files d)\<rparr>)"
  using assms
  by (intro disk_inv_cong [OF assms])
    (auto simp: disk_inv_def GetFileEntry_def sorted_files_erase split: if_splits)

lemma register_inv:
  assumes "disk_inv d" "ino < next_inode d" "dir d path = Some ino"
    "\<And>f e. GetFileEntry f d = Some e \<Longrightarrow> inode e \<noteq> ino"
  shows "disk_inv (fst (register name path ino n d))"
proof -
  let ?d = "fst (register name path ino n d)"
  have e: "GetFileEntry f ?d = Some e \<longleftrightarrow>
      (if f = next_file_id d then e = \<lparr>table_name = name, db_path = path, inode = ino, num_pages = n\<rparr>
       else GetFileEntry f d = Some e)" for f e
    by (auto simp: register_def Let_def GetFileEntry_def)
  have same: "dir ?d = dir d" "next_inode ?d = next_inode d" by (simp_all add: register_def Let_def)
  note D = disk_invD [OF assms(1)]
  show ?thesis
    unfolding disk_inv_def e same
  proof (intro conjI allI impI)
    show "sorted_wrt (<) (map fst (files ?d))"
      using D(1) by (simp add: register_def Let_def sorted_files_put)
  next
    fix f g e e'
    assume "(if f = next_file_id d then e = \<lparr>table_name = name, db_path = path, inode = ino, num_pages = n\<rparr>
       else GetFileEntry f d = Some e) \<and>
      (if g = next_file_id d then e' = \<lparr>table_name = name, db_path = path, inode = ino, num_pages = n\<rparr>
       else GetFileEntry g d = Some e') \<and> inode e = inode e'"
    then show "f = g" using assms(4) [of f e] assms(4) [of g e'] D(2) [of f e g e']
      by (auto split: if_splits)
  next
    fix f e q
    assume "(if f = next_file_id d then e = \<lparr>table_name = name, db_path = path, inode = ino, num_pages = n\<rparr>
       else GetFileEntry f d = Some e) \<and> dir d q = Some (inode e)"
    then show "q = db_path e" using D(3) [of f e q] D(7) [OF _ assms(3), of q] by (auto split: if_splits)
  next
    fix f e
    assume "if f = next_file_id d then e = \<lparr>table_name = name, db_path = path, inode = ino, num_pages = n\<rparr>
       else GetFileEntry f d = Some e"
    then show "inode e < next_inode d" using assms(2) D(4) [of f e] by (auto split: if_splits)
  qed (use D(5,6) in auto)
qed

lemma OpenFile_inv:
  assumes "disk_inv d" shows "disk_inv (fst (OpenFile name path d))"
proof (cases "find (\<lambda>x. db_path (snd x) = path) (files d)")
  case (Some x)
  then show ?thesis using assms by (cases x) (simp add: OpenFile_def)
next
  case None
  then have closed: "\<And>x. x \<in> set (files d) \<Longrightarrow> db_path (snd x) \<noteq> path"
    unfolding find_None_iff by blast
  show ?thesis
  proof (cases "dir d path")
    case None
    then show ?thesis using assms \<open>find _ _ = None\<close> by (simp add: OpenFile_def)
  next
    case (Some ino)
    have "inode e \<noteq> ino" if "GetFileEntry f d = Some e" for f e
    proof
      assume "inode e = ino"
      then have "db_path e = path" using assms that Some unfolding disk_inv_def by metis
      moreover have "(f, e) \<in> set (files d)" using that map_of_SomeD unfolding GetFileEntry_def by metis
      ultimately show False using closed by force
    qed
    moreover have "ino < next_inode d" using assms Some unfolding disk_inv_def by metis
    ultimately have "disk_inv (fst (register name path ino n d))" for n
      using register_inv [OF assms _ Some] by blast
    then show ?thesis using assms None Some by (simp add: OpenFile_def)
  qed
qed

lemma CreateFile_inv:
  assumes "disk_inv d" "CreateFile name path d = Some (d', fid)"
  shows "disk_inv d'"
proof (cases "permitted d path")
  case False
  then show ?thesis using assms by (auto simp: CreateFile_def split: if_splits)
next
  case True
  let ?ino = "next_inode d"
  let ?d = "d\<lparr>dir := (dir d)(path \<mapsto> ?ino), next_inode := ?ino + 1,
     blocks := (blocks d)(?ino := (if broken d ?ino 0 then [] else [FileHeader name]))\<rparr>"
  have new: "dir d path = None" and d': "d' = fst (register name path ?ino 1 ?d)"
    using assms(2) True by (auto simp: CreateFile_def Let_def split: if_splits)
  have old: "inode e < ?ino" if "GetFileEntry f d = Some e" for f e
    using assms(1) that unfolding disk_inv_def by metis
  have "disk_inv ?d"
    unfolding disk_inv_def
  proof (intro conjI allI impI)
    show "sorted_wrt (<) (map fst (files ?d))" using assms(1) by (simp add: disk_inv_def)
  next
    fix f g e e'
    assume "GetFileEntry f ?d = Some e \<and> GetFileEntry g ?d = Some e' \<and> inode e = inode e'"
    then show "f = g" using assms(1) unfolding disk_inv_def GetFileEntry_def by simp
  next
    fix f e q
    assume a: "GetFileEntry f ?d = Some e \<and> dir ?d q = Some (inode e)"
    then have f: "GetFileEntry f d = Some e" by (simp add: GetFileEntry_def)
    with a old [OF f] have "dir d q = Some (inode e)" by (auto split: if_splits)
    with f show "q = db_path e" using assms(1) unfolding disk_inv_def by metis
  next
    fix f e
    assume "GetFileEntry f ?d = Some e"
    then show "inode e < next_inode ?d" using old [of f e] by (simp add: GetFileEntry_def)
  next
    fix q i
    assume "dir ?d q = Some i"
    then show "i < next_inode ?d" using assms(1) by (auto simp: disk_inv_def less_SucI split: if_splits)
  next
    have "inj_on (dir d) (dom (dir d))" "\<And>q. dir d q \<noteq> Some ?ino"
      using disk_invD(5,6) [OF assms(1)] by blast+
    then show "inj_on (dir ?d) (dom (dir ?d))" using new
      by (auto simp: inj_on_def dom_def)
  qed
  moreover have "inode e \<noteq> ?ino" if "GetFileEntry f ?d = Some e" for f e
    using old [of f e] that by (simp add: GetFileEntry_def)
  ultimately show ?thesis unfolding d' by (intro register_inv) auto
qed

lemma DeleteFile_inv:
  assumes "disk_inv d" shows "disk_inv (DeleteFile fid path d)"
proof -
  have "disk_inv (d\<lparr>files := files_erase fid (files d)\<rparr>)" by (rule files_erase_inv [OF assms])
  then show ?thesis
    unfolding disk_inv_def DeleteFile_def GetFileEntry_def
    by (auto simp: inj_on_def split: if_splits)
qed

lemma WritePage_inv: "disk_inv d \<Longrightarrow> WritePage pid data d = (d', ok) \<Longrightarrow> disk_inv d'"
  by (auto simp: WritePage_def split: option.splits intro: stream_write_inv)

lemma AllocatePage_inv:
  assumes "disk_inv d" "AllocatePage fid d = Some (d', pid)" shows "disk_inv d'"
proof (cases "GetFileEntry fid d")
  case None
  then show ?thesis using assms by (simp add: AllocatePage_def)
next
  case (Some e)
  then obtain header where h: "stream_read (inode e) 0 d = Some header"
    using assms(2) by (auto simp: AllocatePage_def bind_eq_Some_conv)
  show ?thesis
  proof (cases "first_free_page header = 0")
    case True
    let ?d = "d\<lparr>files := files_put fid (e\<lparr>num_pages := num_pages e + 1\<rparr>) (files d)\<rparr>"
    from assms(2) Some h True obtain d1 p1 n2 p2 where
      "stream_write (inode e) 0 p1 ?d = Some d1" "stream_write (inode e) n2 p2 d1 = Some d'"
      by (auto simp: AllocatePage_def bind_eq_Some_conv Let_def)
    moreover have "disk_inv ?d" by (rule files_put_inv [OF assms(1) Some]) simp_all
    ultimately show ?thesis using stream_write_inv by blast
  next
    case False
    from assms(2) Some h False obtain p1 where "stream_write (inode e) 0 p1 d = Some d'"
      by (auto simp: AllocatePage_def bind_eq_Some_conv Let_def)
    then show ?thesis using stream_write_inv assms(1) by blast
  qed
qed

lemma DeallocatePage_inv: "disk_inv d \<Longrightarrow> DeallocatePage pid d = Some d' \<Longrightarrow> disk_inv d'"
  by (auto simp: DeallocatePage_def bind_eq_Some_conv split: option.splits intro: stream_write_inv)

section \<open>Reading and writing pages\<close>

lemma put_page_nth [simp]: "put_page n p ps ! n = p"
  by (simp add: put_page_def nth_append)

lemma put_page_length: "length (put_page n p ps) = max (length ps) (Suc n)"
  by (auto simp: put_page_def)

lemma put_page_other: "m < length ps \<Longrightarrow> m \<noteq> n \<Longrightarrow> put_page n p ps ! m = ps ! m"
  by (simp add: put_page_def nth_append)

lemma put_page_inside [simp]: "n < length ps \<Longrightarrow> put_page n p ps = ps[n := p]"
  by (simp add: put_page_def)

lemma put_page_end [simp]: "n = length ps \<Longrightarrow> put_page n p ps = ps @ [p]"
  by (simp add: put_page_def)

lemma stream_read_write_same:
  "stream_write ino n p d = Some d' \<Longrightarrow> stream_read ino n d' = Some p"
  using stream_write_fields [of ino n p d d']
  by (simp add: stream_read_def put_page_length) (simp add: stream_write_def split: if_splits)

lemma stream_read_write_other:
  "stream_write ino n p d = Some d' \<Longrightarrow> ino' \<noteq> ino \<or> m \<noteq> n \<Longrightarrow> stream_read ino' m d = Some q \<Longrightarrow>
   stream_read ino' m d' = Some q"
  using stream_write_fields [of ino n p d d']
  by (cases "ino' = ino") (auto simp: stream_read_def put_page_length put_page_other split: if_splits)

lemma ReadPage_stream_write:
  assumes "disk_inv d" "GetFileEntry f d = Some e" "stream_write (inode e) n p d = Some d'"
    "ReadPage pid d = Some q" "GetFileId pid \<noteq> f \<or> unat (GetPageNo pid) \<noteq> n"
  shows "ReadPage pid d' = Some q"
proof -
  from assms(4) obtain e' where e': "GetFileEntry (GetFileId pid) d = Some e'"
      "stream_read (inode e') (unat (GetPageNo pid)) d = Some q"
    by (auto simp: ReadPage_def split: option.splits)
  have "inode e' \<noteq> inode e \<or> unat (GetPageNo pid) \<noteq> n"
    using disk_invD(2) [OF assms(1) e'(1) assms(2)] assms(5) by blast
  from stream_read_write_other [OF assms(3) this e'(2)] show ?thesis
    using stream_write_fields(7) [OF assms(3)] e'(1) by (simp add: ReadPage_def)
qed

interpretation device: block_device disk_inv ReadPage WritePage
proof
  fix d d' :: disk and i j p q
  assume inv: "disk_inv d"
  show "d' = d" if "WritePage i p d = (d', False)"
    using that by (auto simp: WritePage_def split: option.splits)
  assume w: "WritePage i p d = (d', True)"
  then obtain e where e: "GetFileEntry (GetFileId i) d = Some e"
      "stream_write (inode e) (unat (GetPageNo i)) p d = Some d'"
    by (auto simp: WritePage_def split: option.splits)
  show "disk_inv d' \<and> ReadPage i d' = Some p"
    using WritePage_inv [OF inv w] stream_read_write_same [OF e(2)] e(1) stream_write_fields(7) [OF e(2)]
    by (simp add: ReadPage_def)
  show "ReadPage j d' = Some q" if "j \<noteq> i" "ReadPage j d = Some q"
  proof (rule ReadPage_stream_write [OF inv e that(2)])
    show "GetFileId j \<noteq> GetFileId i \<or> unat (GetPageNo j) \<noteq> unat (GetPageNo i)"
      using that(1) MakePageId_GetFileId_GetPageNo unfolding word_unat_eq_iff [symmetric] by metis
  qed
qed

section \<open>The chain of freed pages\<close>

lemma header_fields [simp]:
  "first_free_page (set_first_free_page n h) = n" "total_pages (set_first_free_page n h) = total_pages h"
  "first_free_page (set_total_pages n h) = first_free_page h" "total_pages (set_total_pages n h) = n"
  "next_free (free_page n) = n" "first_free_page (FileHeader name) = 0" "total_pages (FileHeader name) = 1"
  by (simp_all add: first_free_page_def set_first_free_page_def total_pages_def set_total_pages_def
      next_free_def free_page_def FileHeader_def file_header_defs mem_read_write_disjoint)

text \<open>\<open>free_chain ps n fl\<close>: the chain that starts at page \<open>n\<close> runs through the pages \<open>fl\<close> and ends.\<close>

fun free_chain :: "page list \<Rightarrow> i16 \<Rightarrow> i16 list \<Rightarrow> bool" where
  "free_chain ps n [] = (n = 0)"
| "free_chain ps n (m # fl) =
     (n = m \<and> m \<noteq> 0 \<and> unat m < length ps \<and> free_chain ps (next_free (ps ! unat m)) fl)"

lemma free_chain_update:
  "free_chain ps m fl \<Longrightarrow> n \<notin> unat ` set fl \<Longrightarrow> free_chain (ps[n := p]) m fl"
  by (induction fl arbitrary: m) auto

lemma free_chain_append: "free_chain ps m fl \<Longrightarrow> free_chain (ps @ qs) m fl"
  by (induction fl arbitrary: m) (auto simp: nth_append)

lemma free_chain_mem: "free_chain ps m fl \<Longrightarrow> n \<in> set fl \<Longrightarrow> n \<noteq> 0 \<and> unat n < length ps"
  by (induction fl arbitrary: m) auto

text \<open>
  A file in order: its length is the recorded page count, page 0 is there, no position is
  broken, and \<open>fl\<close> are the pages of its free chain, each once.
\<close>

definition file_wf :: "disk \<Rightarrow> i16 \<Rightarrow> i16 list \<Rightarrow> bool" where
  "file_wf d fid fl \<longleftrightarrow>
     (case GetFileEntry fid d of None \<Rightarrow> False
      | Some e \<Rightarrow> length (blocks d (inode e)) = unat (num_pages e) \<and> num_pages e \<noteq> 0 \<and>
          (\<forall>n. \<not> broken d (inode e) n) \<and>
          free_chain (blocks d (inode e)) (first_free_page (blocks d (inode e) ! 0)) fl \<and> distinct fl)"

definition allocated :: "disk \<Rightarrow> i16 \<Rightarrow> i16 list \<Rightarrow> i16 set" where
  "allocated d fid fl = {n. 0 < n \<and> n < GetNumPages fid d} - set fl"

lemma file_wfE:
  assumes "file_wf d fid fl"
  obtains e ps where "GetFileEntry fid d = Some e" "blocks d (inode e) = ps"
    "length ps = unat (num_pages e)" "0 < length ps" "num_pages e \<noteq> 0"
    "\<forall>n. \<not> broken d (inode e) n" "free_chain ps (first_free_page (ps ! 0)) fl" "distinct fl"
    "GetNumPages fid d = num_pages e"
  using assms by (auto simp: file_wf_def GetNumPages_def unat_gt_0 split: option.splits)

lemma allocated_bounds:
  "GetFileEntry fid d = Some e \<Longrightarrow> length ps = unat (num_pages e) \<Longrightarrow> n \<in> allocated d fid fl \<Longrightarrow>
   n \<noteq> 0 \<and> unat n < length ps \<and> n \<notin> set fl"
  by (auto simp: allocated_def GetNumPages_def word_less_nat_alt)

definition with_page :: "nat \<Rightarrow> nat \<Rightarrow> page \<Rightarrow> disk \<Rightarrow> disk" where
  "with_page ino n p d = d\<lparr>blocks := (blocks d)(ino := put_page n p (blocks d ino))\<rparr>"

lemma with_page_fields [simp]:
  "dir (with_page ino n p d) = dir d" "next_inode (with_page ino n p d) = next_inode d"
  "files (with_page ino n p d) = files d" "broken (with_page ino n p d) = broken d"
  "GetFileEntry f (with_page ino n p d) = GetFileEntry f d"
  "GetNumPages f (with_page ino n p d) = GetNumPages f d"
  "blocks (with_page ino n p d) = (blocks d)(ino := put_page n p (blocks d ino))"
  by (simp_all add: with_page_def GetFileEntry_def GetNumPages_def)

lemma stream_write_run: "\<not> broken d ino n \<Longrightarrow> stream_write ino n p d = Some (with_page ino n p d)"
  by (simp add: stream_write_def with_page_def)

lemma stream_read_run:
  "\<not> broken d ino n \<Longrightarrow> n < length (blocks d ino) \<Longrightarrow> stream_read ino n d = Some (blocks d ino ! n)"
  by (simp add: stream_read_def)

definition with_files :: "i16 \<Rightarrow> file_entry \<Rightarrow> disk \<Rightarrow> disk" where
  "with_files fid e d = d\<lparr>files := files_put fid e (files d)\<rparr>"

lemma with_files_fields [simp]:
  "dir (with_files fid e d) = dir d" "next_inode (with_files fid e d) = next_inode d"
  "broken (with_files fid e d) = broken d" "blocks (with_files fid e d) = blocks d"
  "GetFileEntry f (with_files fid e d) = (if f = fid then Some e else GetFileEntry f d)"
  by (simp_all add: with_files_def GetFileEntry_def)

text \<open>The three runs of the allocator on a file in order.\<close>

lemma AllocatePage_reuse:
  assumes "GetFileEntry fid d = Some e" "0 < length (blocks d (inode e))" "\<And>n. \<not> broken d (inode e) n"
    "first_free_page (blocks d (inode e) ! 0) = m" "m \<noteq> 0" "unat m < length (blocks d (inode e))"
  shows "AllocatePage fid d =
    Some (with_page (inode e) 0
      (set_first_free_page (next_free (blocks d (inode e) ! unat m)) (blocks d (inode e) ! 0)) d,
      MakePageId fid m)"
  using assms by (simp add: AllocatePage_def Let_def stream_read_run stream_write_run)

lemma AllocatePage_grow:
  assumes "GetFileEntry fid d = Some e" "0 < length (blocks d (inode e))" "\<And>n. \<not> broken d (inode e) n"
    "first_free_page (blocks d (inode e) ! 0) = 0"
  shows "AllocatePage fid d =
    Some (with_page (inode e) (unat (num_pages e)) zero_page (with_page (inode e) 0
      (set_total_pages (num_pages e + 1) (blocks d (inode e) ! 0))
      (with_files fid (e\<lparr>num_pages := num_pages e + 1\<rparr>) d)), MakePageId fid (num_pages e))"
  using assms
  by (simp add: AllocatePage_def Let_def stream_read_run stream_write_run flip: with_files_def)

lemma DeallocatePage_run:
  assumes "GetFileEntry fid d = Some e" "0 < length (blocks d (inode e))" "\<And>n. \<not> broken d (inode e) n"
  shows "DeallocatePage (MakePageId fid n) d =
    Some (with_page (inode e) 0 (set_first_free_page n (blocks d (inode e) ! 0))
      (with_page (inode e) (unat n) (free_page (first_free_page (blocks d (inode e) ! 0))) d))"
  using assms by (simp add: DeallocatePage_def stream_read_run stream_write_run)

text \<open>Pages other than the ones an operation writes are read as before.\<close>

lemma ReadPage_entry:
  "GetFileEntry (GetFileId q) d = Some e \<Longrightarrow> ReadPage q d = stream_read (inode e) (unat (GetPageNo q)) d"
  by (simp add: ReadPage_def)

lemma page_id_differs:
  "q \<noteq> MakePageId f n \<Longrightarrow> GetFileId q \<noteq> f \<or> unat (GetPageNo q) \<noteq> unat n"
  "q \<noteq> MakePageId f 0 \<Longrightarrow> GetFileId q \<noteq> f \<or> unat (GetPageNo q) \<noteq> 0"
  using MakePageId_GetFileId_GetPageNo [of q] unfolding unat_eq_0 word_unat_eq_iff [symmetric] by metis+

lemma ReadPage_with_page:
  assumes "disk_inv d" "GetFileEntry fid d = Some e" "ReadPage q d = Some c"
    "GetFileId q \<noteq> fid \<or> unat (GetPageNo q) \<noteq> n" "\<not> broken d (inode e) n"
  shows "ReadPage q (with_page (inode e) n p d) = Some c"
  using ReadPage_stream_write [OF assms(1,2) stream_write_run [OF assms(5)] assms(3,4)] .

lemma with_page_inv: "disk_inv d \<Longrightarrow> \<not> broken d ino n \<Longrightarrow> disk_inv (with_page ino n p d)"
  using stream_write_inv stream_write_run by blast

lemma ReadPage_with_files:
  assumes "GetFileEntry fid d = Some e" "inode e' = inode e"
  shows "ReadPage q (with_files fid e' d) = ReadPage q d"
  using assms by (simp add: ReadPage_def stream_read_def split: option.splits)

lemma with_files_inv:
  assumes "disk_inv d" "GetFileEntry fid d = Some e" "inode e' = inode e" "db_path e' = db_path e"
  shows "disk_inv (with_files fid e' d)"
  using files_put_inv [OF assms] by (simp add: with_files_def)

section \<open>What the allocator does to a file in order\<close>

lemma allocate_reuse_law:
  assumes "disk_inv d" "file_wf d fid (m # fl)"
  shows "\<exists>d'. AllocatePage fid d = Some (d', MakePageId fid m) \<and> disk_inv d' \<and> file_wf d' fid fl \<and>
    GetNumPages fid d' = GetNumPages fid d \<and>
    (\<forall>q c. ReadPage q d = Some c \<longrightarrow> q \<noteq> MakePageId fid 0 \<longrightarrow> ReadPage q d' = Some c)"
proof -
  from assms(2) obtain e ps where e: "GetFileEntry fid d = Some e" "blocks d (inode e) = ps"
    "length ps = unat (num_pages e)" "0 < length ps" "num_pages e \<noteq> 0" "\<forall>n. \<not> broken d (inode e) n"
    "free_chain ps (first_free_page (ps ! 0)) (m # fl)" "distinct (m # fl)" using file_wfE by blast
  let ?d = "with_page (inode e) 0 (set_first_free_page (next_free (ps ! unat m)) (ps ! 0)) d"
  have m: "first_free_page (ps ! 0) = m" "m \<noteq> 0" "unat m < length ps"
    "free_chain ps (next_free (ps ! unat m)) fl" using e(7) by auto
  have "AllocatePage fid d = Some (?d, MakePageId fid m)"
    using AllocatePage_reuse [OF e(1) _ e(6) [rule_format], of m] m e(2,4) by simp
  moreover have "0 \<notin> unat ` set fl" using free_chain_mem [OF m(4)] by (auto simp: unat_eq_0)
  then have "file_wf ?d fid fl"
    using e m free_chain_update by (simp add: file_wf_def)
  moreover have "ReadPage q ?d = Some c" if "ReadPage q d = Some c" "q \<noteq> MakePageId fid 0" for q c
    using ReadPage_with_page [OF assms(1) e(1) that(1) page_id_differs(2) [OF that(2)] e(6) [rule_format]] .
  ultimately show ?thesis using with_page_inv [OF assms(1) e(6) [rule_format]] by (intro exI [of _ ?d]) simp
qed

lemma allocate_grow_law:
  assumes "disk_inv d" "file_wf d fid []" "GetNumPages fid d \<noteq> - 1"
  shows "\<exists>d'. AllocatePage fid d = Some (d', MakePageId fid (GetNumPages fid d)) \<and> disk_inv d' \<and>
    file_wf d' fid [] \<and> GetNumPages fid d' = GetNumPages fid d + 1 \<and>
    ReadPage (MakePageId fid (GetNumPages fid d)) d' = Some zero_page \<and>
    (\<forall>q c. ReadPage q d = Some c \<longrightarrow> q \<noteq> MakePageId fid 0 \<longrightarrow> ReadPage q d' = Some c)"
proof -
  from assms(2) obtain e ps where e: "GetFileEntry fid d = Some e" "blocks d (inode e) = ps"
    "length ps = unat (num_pages e)" "0 < length ps" "num_pages e \<noteq> 0" "\<forall>n. \<not> broken d (inode e) n"
    "free_chain ps (first_free_page (ps ! 0)) []" "distinct ([] :: i16 list)" "GetNumPages fid d = num_pages e"
    using file_wfE by blast
  let ?n = "num_pages e"
  let ?d0 = "with_files fid (e\<lparr>num_pages := ?n + 1\<rparr>) d"
  let ?d1 = "with_page (inode e) 0 (set_total_pages (?n + 1) (ps ! 0)) ?d0"
  let ?d2 = "with_page (inode e) (unat ?n) zero_page ?d1"
  have run: "AllocatePage fid d = Some (?d2, MakePageId fid ?n)"
    using AllocatePage_grow [OF e(1) _ e(6) [rule_format]] e(2,4,7) by simp
  have n1: "?n + 1 \<noteq> 0" using assms(3) e(9) by (metis add.commute add_eq_0_iff)
  then have suc: "unat (?n + 1) = Suc (unat ?n)" using unatSuc [of ?n] by (simp add: add.commute)
  have blocks: "blocks ?d2 (inode e) = ps[0 := set_total_pages (?n + 1) (ps ! 0)] @ [zero_page]"
    using e(2-4) by (simp flip: e(3))
  have "file_wf ?d2 fid []"
    using e blocks suc n1 by (simp add: file_wf_def nth_append)
  moreover have i0: "disk_inv ?d0" by (rule with_files_inv [OF assms(1) e(1)]) simp_all
  have i1: "disk_inv ?d1" by (rule with_page_inv [OF i0]) (simp add: e(6))
  have i2: "disk_inv ?d2" by (rule with_page_inv [OF i1]) (simp add: e(6))
  moreover have "ReadPage (MakePageId fid ?n) ?d2 = Some zero_page"
    using e(3,4,6) blocks by (simp add: ReadPage_def stream_read_def nth_append)
  moreover have "ReadPage q ?d2 = Some c" if q: "ReadPage q d = Some c" "q \<noteq> MakePageId fid 0" for q c
  proof -
    have 0: "ReadPage q ?d0 = Some c" using ReadPage_with_files [OF e(1)] q(1) by simp
    have 1: "ReadPage q ?d1 = Some c"
      using page_id_differs(2) [OF q(2)] ReadPage_with_page [OF i0, of fid "e\<lparr>num_pages := ?n + 1\<rparr>" q c 0] 0 e(6) by simp
    have "GetFileId q \<noteq> fid \<or> unat (GetPageNo q) \<noteq> unat ?n"
      using q(1) e(1-3) by (auto simp: ReadPage_def stream_read_def split: if_splits)
    then show ?thesis
      using ReadPage_with_page [OF i1, of fid "e\<lparr>num_pages := ?n + 1\<rparr>" q c "unat ?n"] 1 e(6) by simp
  qed
  moreover have "GetNumPages fid ?d2 = ?n + 1" by (simp add: GetNumPages_def with_files_def GetFileEntry_def)
  ultimately show ?thesis using run e(9) by (intro exI [of _ ?d2]) simp
qed

lemma deallocate_law:
  assumes "disk_inv d" "file_wf d fid fl" "n \<in> allocated d fid fl"
  shows "\<exists>d'. DeallocatePage (MakePageId fid n) d = Some d' \<and> disk_inv d' \<and> file_wf d' fid (n # fl) \<and>
    GetNumPages fid d' = GetNumPages fid d \<and>
    (\<forall>q c. ReadPage q d = Some c \<longrightarrow> q \<noteq> MakePageId fid 0 \<longrightarrow> q \<noteq> MakePageId fid n \<longrightarrow> ReadPage q d' = Some c)"
proof -
  from assms(2) obtain e ps where e: "GetFileEntry fid d = Some e" "blocks d (inode e) = ps"
    "length ps = unat (num_pages e)" "0 < length ps" "num_pages e \<noteq> 0" "\<forall>n. \<not> broken d (inode e) n"
    "free_chain ps (first_free_page (ps ! 0)) fl" "distinct fl" using file_wfE by blast
  from allocated_bounds [OF e(1,3) assms(3)] have n: "n \<noteq> 0" "unat n < length ps" "n \<notin> set fl" "unat n \<noteq> 0"
    by (auto simp: unat_eq_0)
  let ?h = "ps ! 0"
  let ?d1 = "with_page (inode e) (unat n) (free_page (first_free_page ?h)) d"
  let ?d2 = "with_page (inode e) 0 (set_first_free_page n ?h) ?d1"
  have run: "DeallocatePage (MakePageId fid n) d = Some ?d2"
    using DeallocatePage_run [OF e(1) _ e(6) [rule_format]] e(2,4) by simp
  have "free_chain (ps[unat n := free_page (first_free_page ?h), 0 := set_first_free_page n ?h])
      (first_free_page ?h) fl"
    using e(7) n(3) free_chain_mem [OF e(7)]
    by (intro free_chain_update) (auto simp: unat_eq_0 simp flip: word_unat_eq_iff)
  then have "file_wf ?d2 fid (n # fl)"
    using e n by (simp add: file_wf_def)
  moreover have i1: "disk_inv ?d1" by (rule with_page_inv [OF assms(1) e(6) [rule_format]])
  have "disk_inv ?d2" by (rule with_page_inv [OF i1]) (simp add: e(6))
  moreover have "ReadPage q ?d2 = Some c"
    if q: "ReadPage q d = Some c" "q \<noteq> MakePageId fid 0" "q \<noteq> MakePageId fid n" for q c
  proof -
    have "ReadPage q ?d1 = Some c"
      by (rule ReadPage_with_page [OF assms(1) e(1) q(1) page_id_differs(1) [OF q(3)] e(6) [rule_format]])
    then show ?thesis
      using ReadPage_with_page [OF i1, of fid e q c 0] page_id_differs(2) [OF q(2)] e(1,6) by simp
  qed
  ultimately show ?thesis using run by (intro exI [of _ ?d2]) simp
qed

text \<open>Other files are not touched.\<close>

lemma file_wf_other:
  assumes "disk_inv d" "GetFileEntry fid d = Some e" "g \<noteq> fid" "GetFileEntry g d' = GetFileEntry g d"
    "\<And>i. i \<noteq> inode e \<Longrightarrow> blocks d' i = blocks d i" "broken d' = broken d"
  shows "file_wf d' g fl = file_wf d g fl"
proof (cases "GetFileEntry g d")
  case None
  then show ?thesis using assms(4) by (simp add: file_wf_def)
next
  case (Some e')
  then have "inode e' \<noteq> inode e" using disk_invD(2) [OF assms(1) Some assms(2)] assms(3) by blast
  then show ?thesis using Some assms(4-6) by (simp add: file_wf_def)
qed

lemma AllocatePage_others:
  assumes "disk_inv d" "AllocatePage fid d = Some (d', pid)" "g \<noteq> fid"
  shows "GetFileEntry g d' = GetFileEntry g d" "file_wf d' g fl = file_wf d g fl"
proof -
  have "GetFileEntry g d' = GetFileEntry g d \<and> file_wf d' g fl = file_wf d g fl"
  proof (cases "GetFileEntry fid d")
    case None
    then show ?thesis using assms by (simp add: AllocatePage_def)
  next
    case (Some e)
    obtain header where h: "stream_read (inode e) 0 d = Some header"
      using assms(2) Some by (auto simp: AllocatePage_def bind_eq_Some_conv)
    have "GetFileEntry g d' = GetFileEntry g d \<and> (\<forall>i. i \<noteq> inode e \<longrightarrow> blocks d' i = blocks d i) \<and> broken d' = broken d"
    proof (cases "first_free_page header = 0")
      case True
      let ?d = "d\<lparr>files := files_put fid (e\<lparr>num_pages := num_pages e + 1\<rparr>) (files d)\<rparr>"
      from assms(2) Some h True obtain d1 p1 n2 p2 where
        w: "stream_write (inode e) 0 p1 ?d = Some d1" "stream_write (inode e) n2 p2 d1 = Some d'"
        by (auto simp: AllocatePage_def bind_eq_Some_conv Let_def)
      show ?thesis
        using stream_write_fields(5,7,8) [OF w(1)] stream_write_fields(5,7,8) [OF w(2)] assms(3)
        by (simp add: GetFileEntry_def)
    next
      case False
      from assms(2) Some h False obtain p1 where w: "stream_write (inode e) 0 p1 d = Some d'"
        by (auto simp: AllocatePage_def bind_eq_Some_conv Let_def)
      show ?thesis using stream_write_fields(5,7,8) [OF w] by simp
    qed
    then show ?thesis using file_wf_other [OF assms(1) Some assms(3)] by blast
  qed
  then show "GetFileEntry g d' = GetFileEntry g d" "file_wf d' g fl = file_wf d g fl" by auto
qed

lemma DeallocatePage_others:
  assumes "disk_inv d" "DeallocatePage pid d = Some d'"
  shows "GetFileEntry g d' = GetFileEntry g d" "g \<noteq> GetFileId pid \<Longrightarrow> file_wf d' g fl = file_wf d g fl"
proof -
  have "GetFileEntry g d' = GetFileEntry g d \<and> (g \<noteq> GetFileId pid \<longrightarrow> file_wf d' g fl = file_wf d g fl)"
  proof (cases "GetFileEntry (GetFileId pid) d")
    case None
    then show ?thesis using assms by (simp add: DeallocatePage_def)
  next
    case (Some e)
    from assms(2) Some obtain d1 n1 p1 p2 where
      w: "stream_write (inode e) n1 p1 d = Some d1" "stream_write (inode e) 0 p2 d1 = Some d'"
      by (auto simp: DeallocatePage_def bind_eq_Some_conv)
    have "GetFileEntry g d' = GetFileEntry g d \<and> (\<forall>i. i \<noteq> inode e \<longrightarrow> blocks d' i = blocks d i) \<and> broken d' = broken d"
      using stream_write_fields(5,7,8) [OF w(1)] stream_write_fields(5,7,8) [OF w(2)] by simp
    then show ?thesis using file_wf_other [OF assms(1) Some] by blast
  qed
  then show "GetFileEntry g d' = GetFileEntry g d" "g \<noteq> GetFileId pid \<Longrightarrow> file_wf d' g fl = file_wf d g fl" by auto
qed

text \<open>Both runs of the allocator in one law.\<close>

lemma allocate_law:
  assumes "disk_inv d" "file_wf d fid fl" "fl = [] \<longrightarrow> GetNumPages fid d \<noteq> - 1"
  shows "\<exists>d' n. AllocatePage fid d = Some (d', MakePageId fid n) \<and> n \<notin> allocated d fid fl \<and>
    disk_inv d' \<and> file_wf d' fid (tl fl) \<and> allocated d' fid (tl fl) = insert n (allocated d fid fl) \<and>
    (fl \<noteq> [] \<longrightarrow> n = hd fl) \<and>
    (\<forall>q c. ReadPage q d = Some c \<longrightarrow> q \<noteq> MakePageId fid 0 \<longrightarrow> ReadPage q d' = Some c)"
proof (cases fl)
  case Nil
  from allocate_grow_law [OF assms(1) _ assms(3) [rule_format, OF Nil]] assms(2) Nil
  obtain d' where d': "AllocatePage fid d = Some (d', MakePageId fid (GetNumPages fid d))" "disk_inv d'"
    "file_wf d' fid []" "GetNumPages fid d' = GetNumPages fid d + 1"
    "\<forall>q c. ReadPage q d = Some c \<longrightarrow> q \<noteq> MakePageId fid 0 \<longrightarrow> ReadPage q d' = Some c" by blast
  have pos: "0 < GetNumPages fid d"
    using assms(2) by (auto simp: file_wf_def GetNumPages_def word_neq_0_conv split: option.splits)
  have "unat (GetNumPages fid d + 1) = Suc (unat (GetNumPages fid d))"
    using assms(3) Nil unatSuc [of "GetNumPages fid d"]
    by (metis add.commute add_eq_0_iff)
  then have "allocated d' fid [] = insert (GetNumPages fid d) (allocated d fid [])"
    using pos d'(4) by (auto simp: allocated_def word_less_nat_alt less_Suc_eq simp flip: word_unat_eq_iff)
  then show ?thesis using d' Nil by (auto simp: allocated_def)
next
  case (Cons m fl')
  from allocate_reuse_law [OF assms(1) assms(2) [unfolded Cons]]
  obtain d' where d': "AllocatePage fid d = Some (d', MakePageId fid m)" "disk_inv d'"
    "file_wf d' fid fl'" "GetNumPages fid d' = GetNumPages fid d"
    "\<forall>q c. ReadPage q d = Some c \<longrightarrow> q \<noteq> MakePageId fid 0 \<longrightarrow> ReadPage q d' = Some c" by blast
  have "0 < m \<and> m < GetNumPages fid d \<and> m \<notin> set fl'"
    using assms(2) Cons
    by (auto simp: file_wf_def GetNumPages_def word_less_nat_alt unat_gt_0 split: option.splits)
  then have "m \<notin> allocated d fid fl" "allocated d' fid fl' = insert m (allocated d fid fl)"
    using d'(4) Cons by (auto simp: allocated_def)
  then show ?thesis using d' Cons by auto
qed

section \<open>A fresh file\<close>

definition demo_disk :: disk where
  "demo_disk = fst (the (CreateFile ''t'' ''data/t.db'' fresh_disk))"

lemma demo_disk_eq:
  "CreateFile ''t'' ''data/t.db'' fresh_disk = Some (demo_disk, 0)"
  "GetFileEntry 0 demo_disk = Some \<lparr>table_name = ''t'', db_path = ''data/t.db'', inode = 0, num_pages = 1\<rparr>"
  "blocks demo_disk 0 = [FileHeader ''t'']" "broken demo_disk = (\<lambda>_ _. False)"
  by (simp_all add: demo_disk_def CreateFile_def fresh_disk_def register_def Let_def files_put_def
      GetFileEntry_def)

lemma demo_disk_facts: "disk_inv demo_disk" "file_wf demo_disk 0 []" "GetNumPages 0 demo_disk = 1"
  using CreateFile_inv [OF fresh_disk_inv demo_disk_eq(1)] demo_disk_eq(2-)
  by (simp_all add: file_wf_def GetNumPages_def)

section \<open>Properties\<close>

text \<open>The file operations of the disk manager as one step relation.\<close>

inductive disk_step :: "disk \<Rightarrow> disk \<Rightarrow> bool" where
  create: "CreateFile name path d = Some (d', fid) \<Longrightarrow> disk_step d d'"
| reopen: "OpenFile name path d = (d', fid) \<Longrightarrow> disk_step d d'"
| close: "disk_step d (CloseFile fid d)"
| delete: "disk_step d (DeleteFile fid path d)"
| wr: "WritePage pid data d = (d', ok) \<Longrightarrow> disk_step d d'"
| allocate: "AllocatePage fid d = Some (d', pid) \<Longrightarrow> disk_step d d'"
| deallocate: "DeallocatePage pid d = Some d' \<Longrightarrow> disk_step d d'"

lemma disk_step_inv: "disk_step d d' \<Longrightarrow> disk_inv d \<Longrightarrow> disk_inv d'"
proof (induction rule: disk_step.induct)
  case (create name path d d' fid)
  then show ?case using CreateFile_inv by blast
next
  case (reopen name path d d' fid)
  then show ?case using OpenFile_inv [of d name path] by simp
next
  case (close d fid)
  then show ?case unfolding CloseFile_def by (rule files_erase_inv)
qed (use DeleteFile_inv WritePage_inv AllocatePage_inv DeallocatePage_inv in blast)+

text \<open>C5: after any sequence of file and page operations on a fresh disk manager, a successful
  \<open>WritePage\<close> is what \<open>ReadPage\<close> of that page id returns, and a page readable under any other
  id keeps its contents, in whatever files the two ids lie.\<close>

theorem write_read_page:
  assumes "disk_step\<^sup>*\<^sup>* fresh_disk d" "WritePage i p d = (d', True)"
  shows "ReadPage i d' = Some p \<and> (\<forall>j q. j \<noteq> i \<longrightarrow> ReadPage j d = Some q \<longrightarrow> ReadPage j d' = Some q)"
proof -
  have "disk_inv d" using assms(1) by induction (auto intro: disk_step_inv)
  then show ?thesis using device.write_ok device.write_other assms(2) by blast
qed

lemma demo_disk_reach: "disk_step\<^sup>*\<^sup>* fresh_disk demo_disk"
  using disk_step.create [OF demo_disk_eq(1)] by (rule r_into_rtranclp)

theorem write_read_page_witness:
  "\<exists>d'. WritePage (MakePageId 0 0) zero_page demo_disk = (d', True) \<and>
    ReadPage (MakePageId 0 0) d' = Some zero_page"
proof -
  have "snd (WritePage (MakePageId 0 0) zero_page demo_disk)"
    by (simp add: WritePage_def demo_disk_eq stream_write_def)
  then obtain d' where w: "WritePage (MakePageId 0 0) zero_page demo_disk = (d', True)"
    by (metis prod.collapse)
  from write_read_page [OF demo_disk_reach w] w show ?thesis by blast
qed

text \<open>C6: on a file in order \<open>AllocatePage\<close> hands out a page that is not in use, a freed one as
  long as there is one; the pages in use are then exactly one more, the file stays in order and
  no page but its header changes.\<close>

theorem allocate_page_fresh:
  assumes "disk_inv d" "file_wf d fid fl" "fl = [] \<longrightarrow> GetNumPages fid d \<noteq> - 1"
  shows "\<exists>d' n. AllocatePage fid d = Some (d', MakePageId fid n) \<and> n \<notin> allocated d fid fl \<and>
    disk_inv d' \<and> file_wf d' fid (tl fl) \<and> allocated d' fid (tl fl) = insert n (allocated d fid fl) \<and>
    (fl \<noteq> [] \<longrightarrow> n = hd fl) \<and>
    (\<forall>q c. ReadPage q d = Some c \<longrightarrow> q \<noteq> MakePageId fid 0 \<longrightarrow> ReadPage q d' = Some c)"
  by (rule allocate_law [OF assms])

theorem allocate_page_fresh_witness:
  "\<exists>d'. AllocatePage 0 demo_disk = Some (d', MakePageId 0 1) \<and> allocated d' 0 [] = {1}"
proof -
  have a: "allocated demo_disk 0 [] = {}"
    by (auto simp: allocated_def demo_disk_facts word_less_nat_alt unat_eq_0)
  have "\<exists>d'. AllocatePage 0 demo_disk = Some (d', MakePageId 0 1)"
    using allocate_grow_law [OF demo_disk_facts(1,2)] by (simp add: demo_disk_facts) blast
  with allocate_page_fresh [OF demo_disk_facts(1,2)] a show ?thesis
    by (auto simp: demo_disk_facts)
qed

definition demo_disk2 :: disk where
  "demo_disk2 = fst (the (AllocatePage 0 demo_disk))"

lemma demo_disk2_facts: "disk_inv demo_disk2" "file_wf demo_disk2 0 []" "1 \<in> allocated demo_disk2 0 []"
  and demo_disk2_alloc: "AllocatePage 0 demo_disk = Some (demo_disk2, MakePageId 0 1)"
  and demo_disk2_pages: "GetNumPages 0 demo_disk2 = 2"
  and demo_disk2_zero: "ReadPage (MakePageId 0 1) demo_disk2 = Some zero_page"
proof -
  have "GetNumPages 0 demo_disk \<noteq> - 1" by (simp add: demo_disk_facts)
  from allocate_grow_law [OF demo_disk_facts(1,2) this]
  obtain d' where d': "AllocatePage 0 demo_disk = Some (d', MakePageId 0 (GetNumPages 0 demo_disk))"
    "disk_inv d'" "file_wf d' 0 []" "GetNumPages 0 d' = GetNumPages 0 demo_disk + 1"
    "ReadPage (MakePageId 0 (GetNumPages 0 demo_disk)) d' = Some zero_page" by blast
  then have "demo_disk2 = d'" by (simp add: demo_disk2_def)
  with d' show "disk_inv demo_disk2" "file_wf demo_disk2 0 []" "1 \<in> allocated demo_disk2 0 []"
    "AllocatePage 0 demo_disk = Some (demo_disk2, MakePageId 0 1)"
    "GetNumPages 0 demo_disk2 = 2" "ReadPage (MakePageId 0 1) demo_disk2 = Some zero_page"
    by (simp_all add: allocated_def demo_disk_facts)
qed

text \<open>\<open>DeallocatePage\<close> of a page in use keeps every other page, and the next
  \<open>AllocatePage\<close> of the file returns it again, leaving the file as it was before the two calls.\<close>

theorem deallocate_then_allocate:
  assumes "disk_inv d" "file_wf d fid fl" "n \<in> allocated d fid fl"
  shows "\<exists>d1 d2. DeallocatePage (MakePageId fid n) d = Some d1 \<and> n \<notin> allocated d1 fid (n # fl) \<and>
    AllocatePage fid d1 = Some (d2, MakePageId fid n) \<and> disk_inv d2 \<and> file_wf d2 fid fl \<and>
    allocated d2 fid fl = allocated d fid fl \<and>
    (\<forall>q c. ReadPage q d = Some c \<longrightarrow> q \<notin> {MakePageId fid 0, MakePageId fid n} \<longrightarrow> ReadPage q d2 = Some c)"
proof -
  from deallocate_law [OF assms] obtain d1 where d1: "DeallocatePage (MakePageId fid n) d = Some d1"
    "disk_inv d1" "file_wf d1 fid (n # fl)" "GetNumPages fid d1 = GetNumPages fid d"
    "\<forall>q c. ReadPage q d = Some c \<longrightarrow> q \<noteq> MakePageId fid 0 \<longrightarrow> q \<noteq> MakePageId fid n \<longrightarrow> ReadPage q d1 = Some c"
    by blast
  from allocate_reuse_law [OF d1(2,3)] obtain d2 where d2: "AllocatePage fid d1 = Some (d2, MakePageId fid n)"
    "disk_inv d2" "file_wf d2 fid fl" "GetNumPages fid d2 = GetNumPages fid d1"
    "\<forall>q c. ReadPage q d1 = Some c \<longrightarrow> q \<noteq> MakePageId fid 0 \<longrightarrow> ReadPage q d2 = Some c"
    by blast
  have "n \<notin> allocated d1 fid (n # fl)" "allocated d2 fid fl = allocated d fid fl"
    using d1(4) d2(4) by (simp_all add: allocated_def)
  then show ?thesis using d1 d2 by blast
qed

theorem deallocate_then_allocate_witness:
  "\<exists>d1 d2. DeallocatePage (MakePageId 0 1) demo_disk2 = Some d1 \<and>
    AllocatePage 0 d1 = Some (d2, MakePageId 0 1) \<and> file_wf d2 0 []"
  using deallocate_then_allocate [OF demo_disk2_facts] by blast

text \<open>nothing stops a page from being freed twice. The chain then loops, and the next two
  calls of \<open>AllocatePage\<close> hand the same page to two owners.\<close>

theorem double_free_shares_page:
  assumes "disk_inv d" "file_wf d fid fl" "n \<in> allocated d fid fl"
  shows "\<exists>d1 d2 d3 d4. DeallocatePage (MakePageId fid n) d = Some d1 \<and>
    DeallocatePage (MakePageId fid n) d1 = Some d2 \<and>
    AllocatePage fid d2 = Some (d3, MakePageId fid n) \<and>
    AllocatePage fid d3 = Some (d4, MakePageId fid n)"
proof -
  from deallocate_law [OF assms] obtain d1 where d1: "DeallocatePage (MakePageId fid n) d = Some d1"
    "disk_inv d1" "file_wf d1 fid (n # fl)" by blast
  from d1(3) obtain e ps where e: "GetFileEntry fid d1 = Some e" "blocks d1 (inode e) = ps" "0 < length ps"
    "\<forall>k. \<not> broken d1 (inode e) k" "free_chain ps (first_free_page (ps ! 0)) (n # fl)"
    using file_wfE by blast
  from e(5) have n: "first_free_page (ps ! 0) = n" "n \<noteq> 0" "unat n < length ps" by auto
  let ?h = "set_first_free_page n (ps ! 0)"
  let ?d2 = "with_page (inode e) 0 ?h (with_page (inode e) (unat n) (free_page n) d1)"
  have free: "DeallocatePage (MakePageId fid n) d1 = Some ?d2"
    using DeallocatePage_run [OF e(1), of n] e(2-4) n(1) by simp
  have again: "\<exists>d'. AllocatePage fid d = Some (d', MakePageId fid n) \<and> GetFileEntry fid d' = Some e \<and>
      length (blocks d' (inode e)) = length ps \<and> (\<forall>k. \<not> broken d' (inode e) k) \<and>
      first_free_page (blocks d' (inode e) ! 0) = n \<and> next_free (blocks d' (inode e) ! unat n) = n"
    if "GetFileEntry fid d = Some e" "length (blocks d (inode e)) = length ps" "\<forall>k. \<not> broken d (inode e) k"
      "first_free_page (blocks d (inode e) ! 0) = n" "next_free (blocks d (inode e) ! unat n) = n" for d
    using AllocatePage_reuse [OF that(1), of n] that e(3) n by (auto simp: unat_eq_0 nth_list_update)
  have "unat n \<noteq> 0" using n(2) by (simp add: unat_eq_0)
  then have "length (blocks ?d2 (inode e)) = length ps" "first_free_page (blocks ?d2 (inode e) ! 0) = n"
    "next_free (blocks ?d2 (inode e) ! unat n) = n"
    using e(2,3) n(3) by simp_all
  from again [OF _ this(1) _ this(2,3)] e(1,4) obtain d3
    where d3: "AllocatePage fid ?d2 = Some (d3, MakePageId fid n)" "GetFileEntry fid d3 = Some e"
      "length (blocks d3 (inode e)) = length ps" "\<forall>k. \<not> broken d3 (inode e) k"
      "first_free_page (blocks d3 (inode e) ! 0) = n" "next_free (blocks d3 (inode e) ! unat n) = n"
    by fastforce
  from again [OF d3(2-)] obtain d4 where "AllocatePage fid d3 = Some (d4, MakePageId fid n)" by blast
  then show ?thesis using d1(1) free d3(1) by blast
qed

theorem double_free_shares_page_witness:
  "\<exists>d1 d2 d3 d4. DeallocatePage (MakePageId 0 1) demo_disk2 = Some d1 \<and>
    DeallocatePage (MakePageId 0 1) d1 = Some d2 \<and>
    AllocatePage 0 d2 = Some (d3, MakePageId 0 1) \<and> AllocatePage 0 d3 = Some (d4, MakePageId 0 1)"
  using double_free_shares_page [OF demo_disk2_facts] by blast

text \<open>the page count is a \<open>uint16_t\<close>. When it has wrapped to 0 and no page is free,
  \<open>AllocatePage\<close> hands out page 0: the file header, which it has just zeroed.\<close>

theorem allocate_page_wraps:
  assumes "GetFileEntry fid d = Some e" "0 < length (blocks d (inode e))" "\<forall>n. \<not> broken d (inode e) n"
    "first_free_page (blocks d (inode e) ! 0) = 0" "num_pages e = 0"
  shows "\<exists>d'. AllocatePage fid d = Some (d', MakePageId fid 0) \<and>
    ReadPage (MakePageId fid 0) d' = Some zero_page"
  using AllocatePage_grow [OF assms(1)] assms(2-5)
  by (auto simp: ReadPage_def stream_read_def)

definition data_pages :: "page list" where "data_pages = replicate 65535 zero_page"

lemma length_data_pages: "length data_pages = 65535"
  by (simp only: data_pages_def length_replicate)

definition wrapped_disk :: disk where
  "wrapped_disk = fst (OpenFile ''t'' ''t.db'' (fresh_disk\<lparr>dir := [''t.db'' \<mapsto> 0],
     blocks := (\<lambda>_. FileHeader ''t'' # data_pages), next_inode := 1\<rparr>))"

theorem allocate_page_wraps_witness:
  "\<exists>d'. AllocatePage 0 wrapped_disk = Some (d', MakePageId 0 0) \<and>
    ReadPage (MakePageId 0 0) wrapped_disk = Some (FileHeader ''t'') \<and>
    ReadPage (MakePageId 0 0) d' = Some zero_page"
proof -
  let ?e = "\<lparr>table_name = ''t'', db_path = ''t.db'', inode = 0, num_pages = 0\<rparr>"
  have w: "GetFileEntry 0 wrapped_disk = Some ?e"
    "blocks wrapped_disk 0 = FileHeader ''t'' # data_pages"
    "broken wrapped_disk = (\<lambda>_ _. False)"
    by (simp_all add: wrapped_disk_def OpenFile_def fresh_disk_def register_def Let_def files_put_def
        GetFileEntry_def length_data_pages)
  then show ?thesis using allocate_page_wraps [of 0 wrapped_disk ?e]
    by (simp add: ReadPage_def stream_read_def)
qed

end
