(* ===== verification/Buffer_Pool.thy ===== *)
theory Buffer_Pool
  imports Disk_Props Replacers
begin

text \<open>
  The buffer pool (buffer/buffer_pool_manager.h and .cpp, storage/page/page.h) over the disk
  manager and a replacement policy. Every public method holds the pool's mutex from its first
  access of the state to its return, so each is one atomic step. A \<open>Page*\<close> is the number of its
  frame, \<open>nullptr\<close> and \<open>INVALID_FRAME_ID\<close> are \<open>None\<close>. The page table is the list of its entries
  in the iteration order of the \<open>unordered_map\<close>, which the flushing loops follow.

  The operations that allocate or free disk pages are in the option monad for the outcomes that
  the disk manager leaves open (\<open>Disk_Manager\<close>).
\<close>

section \<open>State\<close>

record frame =
  fr_data :: page
  fr_page_id :: i32
  fr_pin_count :: int
  fr_dirty :: bool

record bpm =
  pool_size :: nat
  disk_manager :: disk
  replacer :: replacer
  pages :: "frame list"
  page_table :: "(i32 \<times> nat) list"
  free_list :: "nat list"
  access_count :: nat
  hit_count :: nat

definition empty_frame :: frame where
  "empty_frame = \<lparr>fr_data = zero_page, fr_page_id = INVALID_PAGE_ID, fr_pin_count = 0, fr_dirty = False\<rparr>"

definition BufferPoolManager :: "nat \<Rightarrow> disk \<Rightarrow> replacer \<Rightarrow> bpm" where
  "BufferPoolManager n d r = \<lparr>pool_size = n, disk_manager = d, replacer = r,
     pages = replicate n empty_frame, page_table = [], free_list = [0..<n],
     access_count = 0, hit_count = 0\<rparr>"

definition find_page :: "i32 \<Rightarrow> bpm \<Rightarrow> nat option" where
  "find_page pid b = map_of (page_table b) pid"

definition table_erase :: "i32 \<Rightarrow> (i32 \<times> nat) list \<Rightarrow> (i32 \<times> nat) list" where
  "table_erase pid t = filter (\<lambda>x. fst x \<noteq> pid) t"

definition table_put :: "i32 \<Rightarrow> nat \<Rightarrow> (i32 \<times> nat) list \<Rightarrow> (i32 \<times> nat) list" where
  "table_put pid f t = (pid, f) # table_erase pid t"

definition set_frame :: "nat \<Rightarrow> frame \<Rightarrow> bpm \<Rightarrow> bpm" where
  "set_frame f fr b = b\<lparr>pages := (pages b)[f := fr]\<rparr>"

text \<open>What a client does to the bytes of a page it holds a pointer to.\<close>

definition modify_page :: "nat \<Rightarrow> (page \<Rightarrow> page) \<Rightarrow> bpm \<Rightarrow> bpm" where
  "modify_page f g b = set_frame f ((pages b ! f)\<lparr>fr_data := g (fr_data (pages b ! f))\<rparr>) b"

definition page_at :: "nat \<Rightarrow> bpm \<Rightarrow> page" where
  "page_at f b = fr_data (pages b ! f)"

definition MarkDirty :: "nat \<Rightarrow> bpm \<Rightarrow> bpm" where
  "MarkDirty f b = set_frame f ((pages b ! f)\<lparr>fr_dirty := True\<rparr>) b"

section \<open>Frames\<close>

definition EvictPage :: "bpm \<Rightarrow> bpm \<times> nat option" where
  "EvictPage b =
     (case Victim (replacer b) of
        (r, None) \<Rightarrow> (b\<lparr>replacer := r\<rparr>, None)
      | (r, Some evicted_frame) \<Rightarrow>
          (let b = b\<lparr>replacer := r\<rparr>;
               page = pages b ! evicted_frame;
               old_page_id = fr_page_id page;
               (d, written) = (if fr_dirty page then WritePage old_page_id (fr_data page) (disk_manager b)
                               else (disk_manager b, True));
               b = b\<lparr>disk_manager := d\<rparr>
           in if \<not> written then (b, None)
              else
                (set_frame evicted_frame
                   (page\<lparr>fr_data := zero_page, fr_page_id := INVALID_PAGE_ID, fr_dirty := False\<rparr>)
                   (b\<lparr>page_table := table_erase old_page_id (page_table b)\<rparr>),
                 Some evicted_frame)))"

definition GetFreeFrame :: "bpm \<Rightarrow> bpm \<times> nat option" where
  "GetFreeFrame b =
     (case free_list b of
        f # fs \<Rightarrow> (b\<lparr>free_list := fs\<rparr>, Some f)
      | [] \<Rightarrow> EvictPage b)"

section \<open>Pages\<close>

definition FetchPage :: "i32 \<Rightarrow> bpm \<Rightarrow> bpm \<times> nat option" where
  "FetchPage page_id b =
     (if page_id = INVALID_PAGE_ID then (b, None)
      else
        let b = b\<lparr>access_count := access_count b + 1\<rparr> in
        case find_page page_id b of
          Some frame_id \<Rightarrow>
            (let page = pages b ! frame_id;
                 b = set_frame frame_id (page\<lparr>fr_pin_count := fr_pin_count page + 1\<rparr>) b
             in (b\<lparr>replacer := Pin frame_id (replacer b), hit_count := hit_count b + 1\<rparr>, Some frame_id))
        | None \<Rightarrow>
            (case GetFreeFrame b of
               (b, None) \<Rightarrow> (b, None)
             | (b, Some frame_id) \<Rightarrow>
                 (case ReadPage page_id (disk_manager b) of
                    None \<Rightarrow> (b\<lparr>free_list := free_list b @ [frame_id]\<rparr>, None)
                  | Some contents \<Rightarrow>
                      (let page = pages b ! frame_id;
                           b = set_frame frame_id
                             (page\<lparr>fr_data := contents, fr_page_id := page_id,
                                   fr_pin_count := fr_pin_count page + 1, fr_dirty := False\<rparr>) b
                       in (b\<lparr>replacer := Pin frame_id (replacer b),
                             page_table := table_put page_id frame_id (page_table b)\<rparr>, Some frame_id)))))"

definition UnpinPage :: "i32 \<Rightarrow> bool \<Rightarrow> bpm \<Rightarrow> bpm \<times> bool" where
  "UnpinPage page_id is_dirty b =
     (if page_id = INVALID_PAGE_ID then (b, False)
      else
        case find_page page_id b of
          None \<Rightarrow> (b, False)
        | Some frame_id \<Rightarrow>
            let page = pages b ! frame_id in
            if fr_pin_count page \<le> 0 then (b, False)
            else
              let page = (if is_dirty then page\<lparr>fr_dirty := True\<rparr> else page);
                  page = page\<lparr>fr_pin_count := fr_pin_count page - 1\<rparr>;
                  b = set_frame frame_id page b
              in (if fr_pin_count page = 0 then b\<lparr>replacer := Unpin frame_id (replacer b)\<rparr> else b, True))"

definition NewPage :: "i16 \<Rightarrow> bpm \<Rightarrow> (bpm \<times> i32 \<times> nat option) option" where
  "NewPage file_id b = do {
     (d, page_id) \<leftarrow> AllocatePage file_id (disk_manager b);
     let b = b\<lparr>disk_manager := d\<rparr>;
     if page_id = INVALID_PAGE_ID then Some (b, page_id, None)
     else
       (case GetFreeFrame b of
          (b, None) \<Rightarrow> do {
            d \<leftarrow> DeallocatePage page_id (disk_manager b);
            Some (b\<lparr>disk_manager := d\<rparr>, page_id, None) }
        | (b, Some frame_id) \<Rightarrow>
            (let page = pages b ! frame_id;
                 b = set_frame frame_id
                   (page\<lparr>fr_data := zero_page, fr_page_id := page_id,
                         fr_pin_count := fr_pin_count page + 1, fr_dirty := False\<rparr>) b
             in Some (b\<lparr>replacer := Pin frame_id (replacer b),
                        page_table := table_put page_id frame_id (page_table b)\<rparr>,
                      page_id, Some frame_id))) }"

definition DeletePage :: "i32 \<Rightarrow> bpm \<Rightarrow> (bpm \<times> bool) option" where
  "DeletePage page_id b =
     (if page_id = INVALID_PAGE_ID then Some (b, False)
      else
        let found = find_page page_id b in
        if (case found of None \<Rightarrow> False | Some f \<Rightarrow> fr_pin_count (pages b ! f) > 0) then Some (b, False)
        else
          let b = (case found of
                     None \<Rightarrow> b
                   | Some f \<Rightarrow>
                       (let b = set_frame f ((pages b ! f)\<lparr>fr_data := zero_page,
                                  fr_page_id := INVALID_PAGE_ID, fr_dirty := False\<rparr>) b
                        in b\<lparr>replacer := Pin f (replacer b),
                             page_table := table_erase page_id (page_table b),
                             free_list := free_list b @ [f]\<rparr>))
          in do {
            d \<leftarrow> DeallocatePage page_id (disk_manager b);
            Some (b\<lparr>disk_manager := d\<rparr>, True) })"

section \<open>Flushing\<close>

definition FlushPage :: "i32 \<Rightarrow> bpm \<Rightarrow> bpm \<times> bool" where
  "FlushPage page_id b =
     (if page_id = INVALID_PAGE_ID then (b, False)
      else
        case find_page page_id b of
          None \<Rightarrow> (b, False)
        | Some f \<Rightarrow>
            let page = pages b ! f in
            if \<not> fr_dirty page then (b, True)
            else
              (case WritePage page_id (fr_data page) (disk_manager b) of
                 (d, False) \<Rightarrow> (b\<lparr>disk_manager := d\<rparr>, False)
               | (d, True) \<Rightarrow> (set_frame f (page\<lparr>fr_dirty := False\<rparr>) (b\<lparr>disk_manager := d\<rparr>), True)))"

text \<open>The loop of \<open>FlushAllPages\<close> and \<open>FlushFilePages\<close>: the result of \<open>WritePage\<close> is not looked at.\<close>

fun flush_entries :: "(i32 \<Rightarrow> bool) \<Rightarrow> (i32 \<times> nat) list \<Rightarrow> bpm \<Rightarrow> bpm" where
  "flush_entries sel [] b = b"
| "flush_entries sel ((page_id, f) # es) b =
     (if \<not> sel page_id then flush_entries sel es b
      else
        let page = pages b ! f in
        if fr_dirty page then
          (let (d, _) = WritePage page_id (fr_data page) (disk_manager b)
           in flush_entries sel es (set_frame f (page\<lparr>fr_dirty := False\<rparr>) (b\<lparr>disk_manager := d\<rparr>)))
        else flush_entries sel es b)"

definition FlushAllPages :: "bpm \<Rightarrow> bpm" where
  "FlushAllPages b = flush_entries (\<lambda>_. True) (page_table b) b"

definition FlushFilePages :: "i16 \<Rightarrow> bpm \<Rightarrow> bpm" where
  "FlushFilePages file_id b = flush_entries (\<lambda>p. GetFileId p = file_id) (page_table b) b"

section \<open>Statistics\<close>

definition GetDirtyPageCount :: "bpm \<Rightarrow> nat" where
  "GetDirtyPageCount b = length (filter (\<lambda>(_, f). fr_dirty (pages b ! f)) (page_table b))"

definition GetFreeFrameCount :: "bpm \<Rightarrow> nat" where
  "GetFreeFrameCount b = length (free_list b)"

definition ResetStats :: "bpm \<Rightarrow> bpm" where
  "ResetStats b = b\<lparr>access_count := 0, hit_count := 0\<rparr>"

text \<open>A change of the bytes of a frame that may leave the page.\<close>

definition change_page :: "nat \<Rightarrow> (page \<Rightarrow> page option) \<Rightarrow> bpm \<Rightarrow> bpm option" where
  "change_page f g b = map_option (\<lambda>p. modify_page f (\<lambda>_. p) b) (g (page_at f b))"

end
