(* ===== verification/Buffer_Pool_Inv.thy ===== *)
theory Buffer_Pool_Inv
  imports Buffer_Pool
begin

text \<open>
  The invariant of the buffer pool and what every operation does to it. \<open>view b p\<close> is the
  contents of page \<open>p\<close> as the clients see them: the frame that holds it, else the disk.
  \<open>U\<close> is the set of pages a client has changed (or just created) without having told the pool
  so far: they are pinned, and their next \<open>UnpinPage\<close> is to say dirty. \<open>H\<close> holds the frame in
  the hands of an operation between \<open>GetFreeFrame\<close> and its installation.
\<close>

named_theorems pool_simps \<open>projections of pool states\<close>

lemma map_of_table_erase [simp]: "map_of (table_erase p t) q = (if q = p then None else map_of t q)"
  by (simp add: table_erase_def map_of_filter_key [where P = "\<lambda>k. k \<noteq> p"])

lemma map_of_table_put [simp]: "map_of (table_put p f t) q = (if q = p then Some f else map_of t q)"
  by (simp add: table_put_def)

lemma set_frame_fields [simp, pool_simps]:
  "pool_size (set_frame f fr b) = pool_size b" "disk_manager (set_frame f fr b) = disk_manager b"
  "replacer (set_frame f fr b) = replacer b" "page_table (set_frame f fr b) = page_table b"
  "free_list (set_frame f fr b) = free_list b" "pages (set_frame f fr b) = (pages b)[f := fr]"
  "find_page p (set_frame f fr b) = find_page p b"
  "access_count (set_frame f fr b) = access_count b" "hit_count (set_frame f fr b) = hit_count b"
  by (simp_all add: set_frame_def find_page_def)

lemma find_page_simps [simp, pool_simps]:
  "find_page p (b\<lparr>replacer := r\<rparr>) = find_page p b"
  "find_page p (b\<lparr>disk_manager := d\<rparr>) = find_page p b"
  "find_page p (b\<lparr>free_list := fl\<rparr>) = find_page p b"
  "find_page p (b\<lparr>access_count := n\<rparr>) = find_page p b"
  "find_page p (b\<lparr>hit_count := n\<rparr>) = find_page p b"
  "find_page p (b\<lparr>pages := ps\<rparr>) = find_page p b"
  "find_page p (b\<lparr>page_table := t\<rparr>) = map_of t p"
  by (simp_all add: find_page_def)

lemma set_frame_out: "length (pages b) \<le> f \<Longrightarrow> set_frame f fr b = b"
  by (simp add: set_frame_def list_update_beyond)

section \<open>The invariant\<close>

definition frames_ok :: "nat set \<Rightarrow> bpm \<Rightarrow> bool" where
  "frames_ok H b \<longleftrightarrow>
     length (pages b) = pool_size b \<and>
     (\<forall>p f. find_page p b = Some f \<longleftrightarrow>
        p \<noteq> INVALID_PAGE_ID \<and> f < pool_size b \<and> fr_page_id (pages b ! f) = p) \<and>
     distinct (free_list b) \<and>
     (\<forall>f. f \<in> set (free_list b) \<union> H \<longleftrightarrow> f < pool_size b \<and> fr_page_id (pages b ! f) = INVALID_PAGE_ID) \<and>
     set (free_list b) \<inter> H = {} \<and>
     (\<forall>f < pool_size b. 0 \<le> fr_pin_count (pages b ! f)) \<and>
     (\<forall>f < pool_size b. fr_page_id (pages b ! f) = INVALID_PAGE_ID \<longrightarrow> fr_pin_count (pages b ! f) = 0)"

definition replacer_ok :: "bpm \<Rightarrow> bool" where
  "replacer_ok b \<longleftrightarrow>
     replacer_inv (replacer b) \<and> (\<forall>f < pool_size b. manages_frame (replacer b) f) \<and>
     (\<forall>f \<in> evictable_frames (replacer b). f < pool_size b \<and>
        fr_page_id (pages b ! f) \<noteq> INVALID_PAGE_ID \<and> fr_pin_count (pages b ! f) = 0)"

definition coherent :: "i32 set \<Rightarrow> bpm \<Rightarrow> bool" where
  "coherent U b \<longleftrightarrow>
     (\<forall>p f. find_page p b = Some f \<longrightarrow> \<not> fr_dirty (pages b ! f) \<longrightarrow> p \<notin> U \<longrightarrow>
        ReadPage p (disk_manager b) = Some (fr_data (pages b ! f))) \<and>
     (\<forall>p \<in> U. \<exists>f. find_page p b = Some f \<and> 0 < fr_pin_count (pages b ! f))"

definition pool_inv :: "nat set \<Rightarrow> i32 set \<Rightarrow> bpm \<Rightarrow> bool" where
  "pool_inv H U b \<longleftrightarrow> frames_ok H b \<and> replacer_ok b \<and> coherent U b \<and> disk_inv (disk_manager b)"

definition view :: "bpm \<Rightarrow> i32 \<Rightarrow> page option" where
  "view b p = (case find_page p b of Some f \<Rightarrow> Some (fr_data (pages b ! f)) | None \<Rightarrow> ReadPage p (disk_manager b))"

definition pins :: "bpm \<Rightarrow> i32 \<Rightarrow> int" where
  "pins b p = (case find_page p b of Some f \<Rightarrow> fr_pin_count (pages b ! f) | None \<Rightarrow> 0)"

lemma frames_okD:
  assumes "frames_ok H b"
  shows "length (pages b) = pool_size b"
    "find_page p b = Some f \<Longrightarrow> p \<noteq> INVALID_PAGE_ID \<and> f < pool_size b \<and> fr_page_id (pages b ! f) = p"
    "p \<noteq> INVALID_PAGE_ID \<Longrightarrow> f < pool_size b \<Longrightarrow> fr_page_id (pages b ! f) = p \<Longrightarrow> find_page p b = Some f"
    "f \<in> set (free_list b) \<union> H \<Longrightarrow> f < pool_size b \<and> fr_page_id (pages b ! f) = INVALID_PAGE_ID \<and>
       fr_pin_count (pages b ! f) = 0"
    "f < pool_size b \<Longrightarrow> fr_page_id (pages b ! f) = INVALID_PAGE_ID \<Longrightarrow> f \<in> set (free_list b) \<union> H"
    "f < pool_size b \<Longrightarrow> 0 \<le> fr_pin_count (pages b ! f)"
    "distinct (free_list b)" "set (free_list b) \<inter> H = {}"
  using assms unfolding frames_ok_def by (blast+)

lemma pool_invD:
  assumes "pool_inv H U b"
  shows "frames_ok H b" "replacer_ok b" "coherent U b" "disk_inv (disk_manager b)"
  using assms by (simp_all add: pool_inv_def)

lemma find_page_inj: "frames_ok H b \<Longrightarrow> find_page p b = Some f \<Longrightarrow> find_page q b = Some f \<Longrightarrow> p = q"
  by (auto dest: frames_okD(2))

lemma pool_inv_initial:
  assumes "disk_inv d" "replacer_inv r" "evictable_frames r = {}" "\<forall>f < n. manages_frame r f"
  shows "pool_inv {} {} (BufferPoolManager n d r)"
  using assms
  by (auto simp: pool_inv_def frames_ok_def replacer_ok_def coherent_def BufferPoolManager_def
      find_page_def empty_frame_def)

section \<open>Changing the contents or the flags of one frame\<close>

text \<open>The frame keeps its page id; its pin count stays positive or the frame is not evictable.\<close>

lemma frames_ok_set_frame:
  assumes "frames_ok H b" "fr_page_id fr = fr_page_id (pages b ! f)" "0 \<le> fr_pin_count fr"
    "fr_page_id (pages b ! f) \<noteq> INVALID_PAGE_ID"
  shows "frames_ok H (set_frame f fr b)"
proof (cases "f < pool_size b")
  case False
  then have "set_frame f fr b = b" using frames_okD(1) [OF assms(1)] by (simp add: set_frame_out)
  then show ?thesis using assms(1) by simp
next
  case True
  have *: "fr_page_id ((pages b)[f := fr] ! g) = fr_page_id (pages b ! g)" for g
    using assms(2) True frames_okD(1) [OF assms(1)] by (cases "g = f") simp_all
  show ?thesis
    using assms True unfolding frames_ok_def set_frame_fields *
    by (auto simp: nth_list_update)
qed

lemma replacer_ok_set_frame:
  assumes "replacer_ok b" "length (pages b) = pool_size b"
    "f \<in> evictable_frames (replacer b) \<Longrightarrow>
      fr_page_id fr \<noteq> INVALID_PAGE_ID \<and> fr_pin_count fr = 0"
  shows "replacer_ok (set_frame f fr b)"
  unfolding replacer_ok_def set_frame_fields
proof (intro conjI ballI)
  fix g assume g: "g \<in> evictable_frames (replacer b)"
  then show "g < pool_size b" "fr_page_id ((pages b)[f := fr] ! g) \<noteq> INVALID_PAGE_ID"
    "fr_pin_count ((pages b)[f := fr] ! g) = 0"
    using assms by (cases "g = f"; simp add: replacer_ok_def)+
qed (use assms(1) in \<open>auto simp: replacer_ok_def\<close>)

lemma replacer_ok_Pin:
  assumes "replacer_ok b" shows "replacer_ok (b\<lparr>replacer := Pin f (replacer b)\<rparr>)"
  using assms policy.pin_law [of "replacer b" f] by (auto simp: replacer_ok_def)

lemma replacer_ok_Unpin:
  assumes "replacer_ok b" "f < pool_size b" "fr_page_id (pages b ! f) \<noteq> INVALID_PAGE_ID"
    "fr_pin_count (pages b ! f) = 0"
  shows "replacer_ok (b\<lparr>replacer := Unpin f (replacer b)\<rparr>)"
  using assms policy.unpin_law [of "replacer b" f] by (auto simp: replacer_ok_def)

lemma frames_ok_cong:
  assumes "frames_ok H b" "pool_size b' = pool_size b" "pages b' = pages b" "free_list b' = free_list b"
    "\<And>p. find_page p b' = find_page p b"
  shows "frames_ok H b'"
  using assms by (simp add: frames_ok_def)

lemma replacer_ok_cong:
  assumes "replacer_ok b" "pool_size b' = pool_size b" "pages b' = pages b" "replacer b' = replacer b"
  shows "replacer_ok b'"
  using assms by (simp add: replacer_ok_def)

lemma coherent_cong:
  assumes "coherent U b" "pages b' = pages b" "disk_manager b' = disk_manager b"
    "\<And>p. find_page p b' = find_page p b"
  shows "coherent U b'"
  using assms by (simp add: coherent_def)

section \<open>Eviction\<close>

definition view_le :: "bpm \<Rightarrow> bpm \<Rightarrow> bool" where
  "view_le b b' \<longleftrightarrow> (\<forall>p c. view b p = Some c \<longrightarrow> view b' p = Some c)"

lemma view_le_refl [simp]: "view_le b b"
  by (simp add: view_le_def)

lemma view_le_trans: "view_le a b \<Longrightarrow> view_le b c \<Longrightarrow> view_le a c"
  by (simp add: view_le_def)

lemma view_cong:
  assumes "pages b' = pages b" "disk_manager b' = disk_manager b" "\<And>p. find_page p b' = find_page p b"
  shows "view b' = view b" "pins b' = pins b"
  using assms by (auto simp: view_def pins_def fun_eq_iff split: option.splits)

lemma pins_cong: "pages b' = pages b \<Longrightarrow> (\<And>p. find_page p b' = find_page p b) \<Longrightarrow> pins b' = pins b"
  by (auto simp: pins_def fun_eq_iff split: option.splits)

text \<open>Writing back a frame keeps the view.\<close>

lemma write_back:
  assumes "frames_ok H b" "coherent U b" "disk_inv (disk_manager b)" "find_page p b = Some f"
    "WritePage p (fr_data (pages b ! f)) (disk_manager b) = (d, ok)"
  shows "disk_inv d" "coherent U (b\<lparr>disk_manager := d\<rparr>)" "view_le b (b\<lparr>disk_manager := d\<rparr>)"
    "\<not> ok \<Longrightarrow> d = disk_manager b" "ok \<Longrightarrow> ReadPage p d = Some (fr_data (pages b ! f))"
proof -
  have keep: "ReadPage q d = Some c" if "ReadPage q (disk_manager b) = Some c" "q = p \<Longrightarrow> c = fr_data (pages b ! f)" for q c
  proof (cases "q = p")
    case True
    with that device.write_same [OF assms(3), of p "fr_data (pages b ! f)"] assms(5) show ?thesis by simp
  next
    case False
    with device.write_keeps [OF assms(3) that(1), of p "fr_data (pages b ! f)"] assms(5) show ?thesis by auto
  qed
  show inv: "disk_inv d" using device.write_inv [OF assms(3), of p "fr_data (pages b ! f)"] assms(5) by simp
  show "coherent U (b\<lparr>disk_manager := d\<rparr>)"
    unfolding coherent_def
  proof (intro conjI allI impI)
    fix q g
    assume q: "find_page q (b\<lparr>disk_manager := d\<rparr>) = Some g" "\<not> fr_dirty (pages (b\<lparr>disk_manager := d\<rparr>) ! g)" "q \<notin> U"
    then have "ReadPage q (disk_manager b) = Some (fr_data (pages b ! g))"
      using assms(2) by (simp add: coherent_def)
    then show "ReadPage q (disk_manager (b\<lparr>disk_manager := d\<rparr>)) = Some (fr_data (pages (b\<lparr>disk_manager := d\<rparr>) ! g))"
      using keep [of q] q(1) assms(4) by (cases "q = p") simp_all
  qed (use assms(2) in \<open>simp add: coherent_def\<close>)
  show "view_le b (b\<lparr>disk_manager := d\<rparr>)"
    unfolding view_le_def
  proof (intro allI impI)
    fix q c
    assume v: "view b q = Some c"
    show "view (b\<lparr>disk_manager := d\<rparr>) q = Some c"
    proof (cases "find_page q b")
      case None
      then have "q \<noteq> p" "ReadPage q (disk_manager b) = Some c" using v assms(4) by (auto simp: view_def)
      then have "ReadPage q d = Some c" by (intro keep) simp_all
      then show ?thesis using None by (simp add: view_def)
    next
      case (Some g)
      then show ?thesis using v by (simp add: view_def)
    qed
  qed
  show "d = disk_manager b" if "\<not> ok"
    using device.write_fail [OF assms(3)] assms(5) that by simp
  show "ReadPage p d = Some (fr_data (pages b ! f))" if ok
    using device.write_ok [OF assms(3)] assms(5) that by simp
qed

text \<open>Emptying an unpinned frame whose contents are on disk.\<close>

definition clear_frame :: "nat \<Rightarrow> bpm \<Rightarrow> bpm" where
  "clear_frame f b = set_frame f ((pages b ! f)\<lparr>fr_data := zero_page, fr_page_id := INVALID_PAGE_ID, fr_dirty := False\<rparr>)
     (b\<lparr>page_table := table_erase (fr_page_id (pages b ! f)) (page_table b)\<rparr>)"

lemma clear_frame_fields [simp]:
  "pool_size (clear_frame f b) = pool_size b" "disk_manager (clear_frame f b) = disk_manager b"
  "replacer (clear_frame f b) = replacer b" "free_list (clear_frame f b) = free_list b"
  "find_page p (clear_frame f b) = (if p = fr_page_id (pages b ! f) then None else find_page p b)"
  by (simp_all add: clear_frame_def find_page_def)

lemma clear_frame_nth:
  "f < length (pages b) \<Longrightarrow> pages (clear_frame f b) ! g =
     (if g = f then (pages b ! f)\<lparr>fr_data := zero_page, fr_page_id := INVALID_PAGE_ID, fr_dirty := False\<rparr>
      else pages b ! g)"
  by (simp add: clear_frame_def)

lemma clear_frame_frames_ok:
  assumes "frames_ok H b" "find_page p b = Some f" "fr_pin_count (pages b ! f) = 0"
  shows "frames_ok (insert f H) (clear_frame f b)"
proof -
  note D = frames_okD [OF assms(1)]
  have f: "p \<noteq> INVALID_PAGE_ID" "f < pool_size b" "fr_page_id (pages b ! f) = p" using D(2) [OF assms(2)] by auto
  have nth: "pages (clear_frame f b) ! g = (if g = f then (pages b ! f)\<lparr>fr_data := zero_page,
      fr_page_id := INVALID_PAGE_ID, fr_dirty := False\<rparr> else pages b ! g)" for g
    using clear_frame_nth f(2) D(1) by simp
  have not_free: "f \<notin> set (free_list b) \<union> H" using D(4) [of f] f by auto
  show ?thesis
    unfolding frames_ok_def clear_frame_fields nth
  proof (intro conjI allI impI)
    show "length (pages (clear_frame f b)) = pool_size b" using D(1) by (simp add: clear_frame_def)
  next
    fix q g
    show "((if q = fr_page_id (pages b ! f) then None else find_page q b) = Some g) =
      (q \<noteq> INVALID_PAGE_ID \<and> g < pool_size b \<and>
       fr_page_id (if g = f then (pages b ! f)\<lparr>fr_data := zero_page, fr_page_id := INVALID_PAGE_ID, fr_dirty := False\<rparr>
         else pages b ! g) = q)"
    proof (cases "g = f")
      case True
      then show ?thesis using find_page_inj [OF assms(1,2), of q] f(3) by auto
    next
      case False
      then have "q \<noteq> p" if "q \<noteq> INVALID_PAGE_ID" "g < pool_size b" "fr_page_id (pages b ! g) = q"
        using D(3) [OF that] assms(2) by auto
      then show ?thesis using D(2) [of q g] D(3) [of q g] False f(3) by (cases "q = p") (simp, metis, simp, metis)
    qed
  next
    show "distinct (free_list b)" by (rule D(7))
  next
    show "set (free_list b) \<inter> insert f H = {}" using D(8) not_free by auto
  next
    fix g
    show "(g \<in> set (free_list b) \<union> insert f H) = (g < pool_size b \<and>
       fr_page_id (if g = f then (pages b ! f)\<lparr>fr_data := zero_page, fr_page_id := INVALID_PAGE_ID, fr_dirty := False\<rparr>
         else pages b ! g) = INVALID_PAGE_ID)"
      using D(4) [of g] D(5) [of g] f(2) by auto
  qed (use D(4,5,6) assms(3) in auto)
qed

lemma clear_frame_rest:
  assumes "frames_ok H b" "find_page p b = Some f" "fr_pin_count (pages b ! f) = 0" "coherent U b"
    "ReadPage p (disk_manager b) = Some (fr_data (pages b ! f))"
  shows "coherent U (clear_frame f b)" "view (clear_frame f b) = view b" "pins (clear_frame f b) = pins b"
proof -
  note D = frames_okD [OF assms(1)]
  have f: "f < length (pages b)" "fr_page_id (pages b ! f) = p" using D(1) D(2) [OF assms(2)] by auto
  have other: "find_page q b = Some g \<Longrightarrow> q \<noteq> p \<Longrightarrow> g \<noteq> f" for q g
    using find_page_inj [OF assms(1,2)] by auto
  have "p \<notin> U" using assms(2-4) by (auto simp: coherent_def)
  then show "coherent U (clear_frame f b)"
    unfolding coherent_def clear_frame_fields f(2) clear_frame_nth [OF f(1)]
    using assms(4) other unfolding coherent_def by (simp split: if_splits) metis
  show "view (clear_frame f b) = view b"
    unfolding view_def fun_eq_iff clear_frame_fields f(2) clear_frame_nth [OF f(1)]
    using assms(2,5) other by (auto split: option.splits)
  show "pins (clear_frame f b) = pins b"
    unfolding pins_def fun_eq_iff clear_frame_fields f(2) clear_frame_nth [OF f(1)]
    using assms(2,3) other by (auto split: option.splits)
qed

lemma EvictPage_Some:
  assumes "EvictPage b = (b', Some f)"
  shows "\<exists>r d. Victim (replacer b) = (r, Some f) \<and>
    (if fr_dirty (pages b ! f)
     then WritePage (fr_page_id (pages b ! f)) (fr_data (pages b ! f)) (disk_manager b) = (d, True)
     else d = disk_manager b) \<and>
    b' = clear_frame f (b\<lparr>replacer := r, disk_manager := d\<rparr>)"
  using assms
  by (auto simp: EvictPage_def clear_frame_def Let_def split: prod.splits option.splits if_splits)

lemma EvictPage_None:
  assumes "EvictPage b = (b', None)"
  shows "\<exists>r. b' = b\<lparr>replacer := r\<rparr> \<and> (Victim (replacer b) = (r, None) \<or>
    (\<exists>f d. Victim (replacer b) = (r, Some f) \<and> fr_dirty (pages b ! f) \<and>
       WritePage (fr_page_id (pages b ! f)) (fr_data (pages b ! f)) (disk_manager b) = (d, False)))"
proof -
  have "d = disk_manager b" if "WritePage p x (disk_manager b) = (d, False)" for d p x
    using that by (auto simp: WritePage_def split: option.splits)
  then show ?thesis
    using assms by (auto simp: EvictPage_def Let_def split: prod.splits option.splits if_splits)
qed

lemma replacer_victim:
  assumes "replacer_ok b" "Victim (replacer b) = (r, fo)"
  shows "replacer_ok (b\<lparr>replacer := r\<rparr>)" "set_option fo \<subseteq> evictable_frames (replacer b)"
    "evictable_frames r = evictable_frames (replacer b) - set_option fo"
  using assms policy.victim_only_evictable [OF _ assms(2)] by (auto simp: replacer_ok_def)

lemma evictable_mapped:
  assumes "frames_ok H b" "replacer_ok b" "f \<in> evictable_frames (replacer b)"
  shows "find_page (fr_page_id (pages b ! f)) b = Some f \<and> fr_pin_count (pages b ! f) = 0"
  using assms frames_okD(3) [OF assms(1)] by (auto simp: replacer_ok_def)

lemma EvictPage_law:
  assumes "pool_inv {} U b" "EvictPage b = (b', fo)"
  shows "pool_inv (set_option fo) U b'" "view_le b b'" "pins b' = pins b" "pool_size b' = pool_size b"
    "fo = None \<Longrightarrow> disk_manager b' = disk_manager b" "free_list b' = free_list b"
proof -
  note I = pool_invD [OF assms(1)]
  have "pool_inv (set_option fo) U b' \<and> view_le b b' \<and> pins b' = pins b \<and> pool_size b' = pool_size b \<and>
    (fo = None \<longrightarrow> disk_manager b' = disk_manager b) \<and> free_list b' = free_list b"
  proof (cases fo)
    case None
    from EvictPage_None [OF assms(2) [unfolded None]] obtain r fo' where
      r: "b' = b\<lparr>replacer := r\<rparr>" "Victim (replacer b) = (r, fo')" by blast
    have "replacer_ok b'" using replacer_victim(1) [OF I(2) r(2)] r(1) by simp
    moreover have "frames_ok {} b'" using frames_ok_cong [OF I(1)] r(1) by simp
    moreover have "coherent U b'" using coherent_cong [OF I(3)] r(1) by simp
    moreover have "view b' = view b" "pins b' = pins b" using view_cong [of b' b] r(1) by simp_all
    ultimately show ?thesis using None r(1) I(4) by (simp add: pool_inv_def view_le_def)
  next
    case (Some f)
    let ?p = "fr_page_id (pages b ! f)"
    from EvictPage_Some [OF assms(2) [unfolded Some]] obtain r d where
      r: "Victim (replacer b) = (r, Some f)" "b' = clear_frame f (b\<lparr>replacer := r, disk_manager := d\<rparr>)" and
      d: "if fr_dirty (pages b ! f) then WritePage ?p (fr_data (pages b ! f)) (disk_manager b) = (d, True)
          else d = disk_manager b" by blast
    let ?c = "b\<lparr>replacer := r, disk_manager := d\<rparr>"
    from replacer_victim(2) [OF I(2) r(1)] have "f \<in> evictable_frames (replacer b)" by simp
    from evictable_mapped [OF I(1,2) this] have f: "find_page ?p b = Some f" "fr_pin_count (pages b ! f) = 0"
      by auto
    then have "?p \<notin> U" using I(3) by (auto simp: coherent_def)
    have D: "disk_inv d \<and> coherent U (b\<lparr>disk_manager := d\<rparr>) \<and> view_le b (b\<lparr>disk_manager := d\<rparr>) \<and>
        ReadPage ?p d = Some (fr_data (pages b ! f))"
    proof (cases "fr_dirty (pages b ! f)")
      case True
      then show ?thesis using write_back [OF I(1,3,4) f(1)] d by simp
    next
      case False
      then show ?thesis using d I(3,4) f(1) \<open>?p \<notin> U\<close> by (simp add: coherent_def)
    qed
    have c: "frames_ok {} ?c" "coherent U ?c" "find_page ?p ?c = Some f" "fr_pin_count (pages ?c ! f) = 0"
      "ReadPage ?p (disk_manager ?c) = Some (fr_data (pages ?c ! f))"
      using frames_ok_cong [OF I(1), of ?c] coherent_cong [of U "b\<lparr>disk_manager := d\<rparr>" ?c] D f by simp_all
    have "replacer_ok (b\<lparr>replacer := r\<rparr>)" by (rule replacer_victim(1) [OF I(2) r(1)])
    then have "replacer_ok ?c" by (rule replacer_ok_cong) simp_all
    moreover have "f \<notin> evictable_frames (replacer ?c)" using replacer_victim(3) [OF I(2) r(1)] by simp
    ultimately have "replacer_ok b'"
      using frames_okD(1) [OF c(1)] unfolding r(2) clear_frame_def
      by (intro replacer_ok_set_frame) (auto simp: replacer_ok_def)
    moreover have "frames_ok {f} b'" using clear_frame_frames_ok [OF c(1,3,4)] r(2) by simp
    moreover have "coherent U b'" "view b' = view ?c" "pins b' = pins ?c"
      using clear_frame_rest [OF c(1,3,4,2,5)] r(2) by simp_all
    moreover have "view ?c = view (b\<lparr>disk_manager := d\<rparr>)" by (rule view_cong) simp_all
    moreover have "pins ?c = pins b" by (rule pins_cong) simp_all
    ultimately show ?thesis using D Some r(2) by (simp add: pool_inv_def view_le_def)
  qed
  then show "pool_inv (set_option fo) U b'" "view_le b b'" "pins b' = pins b" "pool_size b' = pool_size b"
    "fo = None \<Longrightarrow> disk_manager b' = disk_manager b" "free_list b' = free_list b" by blast+
qed

lemma GetFreeFrame_law:
  assumes "pool_inv {} U b" "GetFreeFrame b = (b', fo)"
  shows "pool_inv (set_option fo) U b'" "view_le b b'" "pins b' = pins b" "pool_size b' = pool_size b"
    "fo = None \<Longrightarrow> disk_manager b' = disk_manager b"
proof -
  have "pool_inv (set_option fo) U b' \<and> view_le b b' \<and> pins b' = pins b \<and> pool_size b' = pool_size b \<and>
    (fo = None \<longrightarrow> disk_manager b' = disk_manager b)"
  proof (cases "free_list b")
    case Nil
    then have "EvictPage b = (b', fo)" using assms(2) by (simp add: GetFreeFrame_def)
    note law = EvictPage_law [OF assms(1) this]
    show ?thesis by (intro conjI impI law(1-5))
  next
    case (Cons f fs)
    then have b': "b' = b\<lparr>free_list := fs\<rparr>" "fo = Some f" using assms(2) by (simp_all add: GetFreeFrame_def)
    note I = pool_invD [OF assms(1)]
    have "frames_ok {f} b'" using I(1) Cons unfolding frames_ok_def b' by simp
    moreover have "replacer_ok b'" using replacer_ok_cong [OF I(2), of b'] b' by simp
    moreover have "coherent U b'" using coherent_cong [OF I(3), of b'] b' by simp
    moreover have "view b' = view b" "pins b' = pins b" using view_cong [of b' b] b' by simp_all
    ultimately show ?thesis using b' I(4) by (simp add: pool_inv_def view_le_def)
  qed
  then show "pool_inv (set_option fo) U b'" "view_le b b'" "pins b' = pins b" "pool_size b' = pool_size b"
    "fo = None \<Longrightarrow> disk_manager b' = disk_manager b" by blast+
qed

section \<open>Installing a page in the frame in hand\<close>

definition install :: "nat \<Rightarrow> i32 \<Rightarrow> page \<Rightarrow> bpm \<Rightarrow> bpm" where
  "install f p c b = (set_frame f ((pages b ! f)\<lparr>fr_data := c, fr_page_id := p,
       fr_pin_count := fr_pin_count (pages b ! f) + 1, fr_dirty := False\<rparr>) b)
     \<lparr>replacer := Pin f (replacer b), page_table := table_put p f (page_table b)\<rparr>"

lemma install_fields [simp]:
  "pool_size (install f p c b) = pool_size b" "disk_manager (install f p c b) = disk_manager b"
  "replacer (install f p c b) = Pin f (replacer b)" "free_list (install f p c b) = free_list b"
  "find_page q (install f p c b) = (if q = p then Some f else find_page q b)"
  by (simp_all add: install_def find_page_def)

lemma install_law:
  assumes "pool_inv {f} U b" "find_page p b = None" "p \<noteq> INVALID_PAGE_ID"
    and "U' = U \<and> ReadPage p (disk_manager b) = Some c \<or> U' = insert p U"
  shows "pool_inv {} U' (install f p c b)" "view (install f p c b) = (view b)(p \<mapsto> c)"
    "pins (install f p c b) = (pins b)(p := 1)" "page_at f (install f p c b) = c"
proof -
  note I = pool_invD [OF assms(1)]
  note D = frames_okD [OF I(1)]
  have f: "f < pool_size b" "fr_page_id (pages b ! f) = INVALID_PAGE_ID" "fr_pin_count (pages b ! f) = 0"
    using D(4) [of f] by auto
  have nth: "pages (install f p c b) ! g = (if g = f then (pages b ! f)\<lparr>fr_data := c, fr_page_id := p,
      fr_pin_count := 1, fr_dirty := False\<rparr> else pages b ! g)" for g
    using f D(1) by (simp add: install_def)
  have other: "g \<noteq> f" if "find_page q b = Some g" for q g using D(2) [OF that] f(2) by auto
  have fresh: "fr_page_id (pages b ! g) \<noteq> p" if "g < pool_size b" for g
    using D(3) [OF assms(3) that] assms(2) by auto
  have "frames_ok {} (install f p c b)"
    unfolding frames_ok_def install_fields nth
  proof (intro conjI allI impI)
    show "length (pages (install f p c b)) = pool_size b" using D(1) by (simp add: install_def)
  next
    fix q g
    show "((if q = p then Some f else find_page q b) = Some g) = (q \<noteq> INVALID_PAGE_ID \<and> g < pool_size b \<and>
        fr_page_id (if g = f then (pages b ! f)\<lparr>fr_data := c, fr_page_id := p,
          fr_pin_count := 1, fr_dirty := False\<rparr> else pages b ! g) = q)"
    proof (cases "g = f")
      case True
      then show ?thesis using other [of q] f(1) assms(3) by auto
    next
      case False
      have "(find_page q b = Some g) = (q \<noteq> INVALID_PAGE_ID \<and> g < pool_size b \<and> fr_page_id (pages b ! g) = q)"
        using D(2) [of q g] D(3) [of q g] by blast
      then show ?thesis using False fresh [of g] by (cases "q = p") auto
    qed
  next
    fix g
    show "(g \<in> set (free_list b) \<union> {}) = (g < pool_size b \<and>
        fr_page_id (if g = f then (pages b ! f)\<lparr>fr_data := c, fr_page_id := p,
          fr_pin_count := 1, fr_dirty := False\<rparr> else pages b ! g) = INVALID_PAGE_ID)"
      using D(4) [of g] D(5) [of g] D(8) assms(3) by auto
  next
    show "distinct (free_list b)" by (rule D(7))
  next
    fix g assume "g < pool_size b"
    then show "0 \<le> fr_pin_count (if g = f then (pages b ! f)\<lparr>fr_data := c, fr_page_id := p,
      fr_pin_count := 1, fr_dirty := False\<rparr> else pages b ! g)" using D(6) [of g] by simp
  next
    fix g assume "g < pool_size b" "fr_page_id (if g = f then (pages b ! f)\<lparr>fr_data := c, fr_page_id := p,
      fr_pin_count := 1, fr_dirty := False\<rparr> else pages b ! g) = INVALID_PAGE_ID"
    then show "fr_pin_count (if g = f then (pages b ! f)\<lparr>fr_data := c, fr_page_id := p,
      fr_pin_count := 1, fr_dirty := False\<rparr> else pages b ! g) = 0"
      using D(4) [of g] D(5) [of g] assms(3) by (auto split: if_splits)
  qed simp
  moreover have "f \<notin> evictable_frames (replacer b)" using I(2) f(2) by (auto simp: replacer_ok_def)
  then have "replacer_ok (install f p c b)"
    using policy.pin_law [of "replacer b" f] I(2) unfolding replacer_ok_def install_fields nth by auto
  moreover have "coherent U' (install f p c b)"
  proof -
    have "p \<notin> U" using I(3) assms(2) by (auto simp: coherent_def)
    then show ?thesis
      using assms(4) I(3) other assms(2) unfolding coherent_def install_fields nth
      by (auto split: if_splits) metis+
  qed
  ultimately show "pool_inv {} U' (install f p c b)" using I(4) by (simp add: pool_inv_def)
  show "view (install f p c b) = (view b)(p \<mapsto> c)" "pins (install f p c b) = (pins b)(p := 1)"
    unfolding view_def pins_def fun_eq_iff install_fields nth
    using other by (auto split: option.splits)
  show "page_at f (install f p c b) = c" by (simp add: page_at_def nth)
qed

section \<open>Fetching\<close>

lemma FetchPage_hit:
  assumes "pool_inv {} U b" "find_page p b = Some f" "FetchPage p b = (b', r)"
  shows "r = Some f" "pool_inv {} U b'" "view b' = view b" "pins b' = (pins b)(p := pins b p + 1)"
    "find_page p b' = Some f" "page_at f b' = page_at f b" "disk_manager b' = disk_manager b"
    "\<And>q. find_page q b' = find_page q b" "pool_size b' = pool_size b"
proof -
  note I = pool_invD [OF assms(1)]
  note D = frames_okD [OF I(1)]
  have f: "p \<noteq> INVALID_PAGE_ID" "f < pool_size b" "fr_page_id (pages b ! f) = p" "0 \<le> fr_pin_count (pages b ! f)"
    using D(2) [OF assms(2)] D(6) by auto
  let ?fr = "(pages b ! f)\<lparr>fr_pin_count := fr_pin_count (pages b ! f) + 1\<rparr>"
  let ?c = "set_frame f ?fr b"
  have b': "r = Some f" "b' = (set_frame f ?fr (b\<lparr>access_count := access_count b + 1\<rparr>))
      \<lparr>replacer := Pin f (replacer b), hit_count := hit_count b + 1\<rparr>"
    using assms(2,3) f(1) by (simp_all add: FetchPage_def Let_def)
  show "r = Some f" by (rule b'(1))
  have fields: "pages b' = pages ?c" "disk_manager b' = disk_manager b" "free_list b' = free_list b"
    "pool_size b' = pool_size b" "replacer b' = Pin f (replacer b)" "find_page q b' = find_page q b" for q
    by (simp_all add: b')
  have nth: "pages ?c ! g = (if g = f then ?fr else pages b ! g)" for g
    using f(2) D(1) by simp
  show "find_page p b' = Some f" "disk_manager b' = disk_manager b" "\<And>q. find_page q b' = find_page q b"
    "pool_size b' = pool_size b"
    using assms(2) by (simp_all add: fields)
  have other: "g \<noteq> f" if "find_page q b = Some g" "q \<noteq> p" for q g using find_page_inj [OF I(1) assms(2)] that by auto
  show "view b' = view b" "pins b' = (pins b)(p := pins b p + 1)" "page_at f b' = page_at f b"
    unfolding view_def pins_def page_at_def fun_eq_iff fields nth
    using assms(2) other by (auto split: option.splits)
  have "frames_ok {} ?c" using f by (intro frames_ok_set_frame [OF I(1)]) auto
  then have "frames_ok {} b'" by (rule frames_ok_cong) (simp_all add: fields)
  moreover have "replacer_ok b'"
    using I(2) policy.pin_law [of "replacer b" f] D(1) f(2) unfolding replacer_ok_def fields nth by auto
  moreover have "coherent U b'"
    unfolding coherent_def fields nth
  proof (intro conjI allI impI ballI)
    fix q g assume "find_page q b = Some g" "\<not> fr_dirty (if g = f then ?fr else pages b ! g)" "q \<notin> U"
    then show "ReadPage q (disk_manager b) = Some (fr_data (if g = f then ?fr else pages b ! g))"
      using I(3) by (cases "g = f") (simp_all add: coherent_def)
  next
    fix q assume "q \<in> U"
    then obtain g where "find_page q b = Some g" "0 < fr_pin_count (pages b ! g)"
      using I(3) by (auto simp: coherent_def)
    then show "\<exists>g. find_page q b = Some g \<and> 0 < fr_pin_count (if g = f then ?fr else pages b ! g)" by auto
  qed
  ultimately show "pool_inv {} U b'" using I(4) by (simp add: pool_inv_def fields)
qed

lemma FetchPage_miss:
  assumes "find_page p b = None" "p \<noteq> INVALID_PAGE_ID"
  shows "FetchPage p b = (case GetFreeFrame (b\<lparr>access_count := access_count b + 1\<rparr>) of
     (b, None) \<Rightarrow> (b, None)
   | (b, Some f) \<Rightarrow>
       (case ReadPage p (disk_manager b) of
          None \<Rightarrow> (b\<lparr>free_list := free_list b @ [f]\<rparr>, None)
        | Some c \<Rightarrow> (install f p c b, Some f)))"
  using assms by (simp add: FetchPage_def Let_def install_def split: prod.splits option.splits)

text \<open>Putting the frame in hand back on the free list.\<close>

lemma put_back:
  assumes "pool_inv {f} U b"
  shows "pool_inv {} U (b\<lparr>free_list := free_list b @ [f]\<rparr>)"
proof -
  note I = pool_invD [OF assms]
  let ?b = "b\<lparr>free_list := free_list b @ [f]\<rparr>"
  have "frames_ok {} ?b" using I(1) unfolding frames_ok_def by simp
  moreover have "replacer_ok ?b" by (rule replacer_ok_cong [OF I(2)]) simp_all
  moreover have "coherent U ?b" by (rule coherent_cong [OF I(3)]) simp_all
  ultimately show ?thesis using I(4) by (simp add: pool_inv_def)
qed

lemma pool_inv_access: "pool_inv H U b \<Longrightarrow> pool_inv H U (b\<lparr>access_count := n\<rparr>)"
  using frames_ok_cong [of H b "b\<lparr>access_count := n\<rparr>"] replacer_ok_cong [of b "b\<lparr>access_count := n\<rparr>"]
    coherent_cong [of U b "b\<lparr>access_count := n\<rparr>"]
  by (simp add: pool_inv_def)

lemma EvictPage_find:
  assumes "EvictPage b = (b', fo)" "find_page p b' = Some g" shows "find_page p b = Some g"
proof (cases fo)
  case None
  then show ?thesis using EvictPage_None [of b b'] assms by auto
next
  case (Some f)
  then obtain r d where "b' = clear_frame f (b\<lparr>replacer := r, disk_manager := d\<rparr>)"
    using EvictPage_Some [of b b' f] assms(1) by blast
  then show ?thesis using assms(2) by (simp split: if_splits)
qed

lemma GetFreeFrame_find:
  assumes "GetFreeFrame b = (b', fo)" "find_page p b' = Some g" shows "find_page p b = Some g"
proof (cases "free_list b")
  case Nil
  then have "EvictPage b = (b', fo)" using assms(1) by (simp add: GetFreeFrame_def)
  then show ?thesis using EvictPage_find assms(2) by blast
next
  case (Cons f fs)
  then have "b' = b\<lparr>free_list := fs\<rparr>" using assms(1) by (simp add: GetFreeFrame_def)
  then show ?thesis using assms(2) by simp
qed

lemma pins_pos_find: "0 < pins b p \<Longrightarrow> \<exists>f. find_page p b = Some f"
  by (auto simp: pins_def split: option.splits)

lemma FetchPage_law:
  assumes "pool_inv {} U b" "FetchPage p b = (b', r)"
  shows "pool_inv {} U b'" "view_le b b'" "pool_size b' = pool_size b"
    "pins b' = (case r of None \<Rightarrow> pins b | Some f \<Rightarrow> (pins b)(p := pins b p + 1))"
    "r = Some f \<Longrightarrow> find_page p b' = Some f \<and> p \<noteq> INVALID_PAGE_ID \<and> view b' p = Some (page_at f b')"
proof -
  have "pool_inv {} U b' \<and> view_le b b' \<and> pool_size b' = pool_size b \<and>
    pins b' = (case r of None \<Rightarrow> pins b | Some f \<Rightarrow> (pins b)(p := pins b p + 1)) \<and>
    (\<forall>f. r = Some f \<longrightarrow> find_page p b' = Some f \<and> p \<noteq> INVALID_PAGE_ID \<and> view b' p = Some (page_at f b'))"
  proof (cases "p = INVALID_PAGE_ID")
    case True
    then show ?thesis using assms by (simp add: FetchPage_def)
  next
    case False
    show ?thesis
    proof (cases "find_page p b")
      case (Some f)
      note hit = FetchPage_hit [OF assms(1) Some assms(2)]
      from hit(3) have "view_le b b'" by (simp add: view_le_def)
      moreover have "view b' p = Some (page_at f b')" using hit(5) by (simp add: view_def page_at_def)
      ultimately show ?thesis using hit(1,2,4,5,9) False by simp
    next
      case None
      let ?a = "b\<lparr>access_count := access_count b + 1\<rparr>"
      have a: "pool_inv {} U ?a" by (rule pool_inv_access [OF assms(1)])
      have same: "view ?a = view b" "pins ?a = pins b" using view_cong [of ?a b] by simp_all
      obtain b1 fo where g: "GetFreeFrame ?a = (b1, fo)" by (cases "GetFreeFrame ?a")
      note law = GetFreeFrame_law [OF a g]
      note run = assms(2) [unfolded FetchPage_miss [OF None False] g prod.case]
      have le: "view_le b b1" using law(2) same by (simp add: view_le_def)
      have p0: "pins b p = 0" using None by (simp add: pins_def)
      show ?thesis
      proof (cases fo)
        case None
        then show ?thesis using run law(1,3,4) le same by simp
      next
        case (Some f)
        have fresh: "find_page p b1 = None"
          using GetFreeFrame_find [OF g, of p] None by (cases "find_page p b1") auto
        have held: "pool_inv {f} U b1" using law(1) Some by simp
        show ?thesis
        proof (cases "ReadPage p (disk_manager b1)")
          case None
          then have b': "b' = b1\<lparr>free_list := free_list b1 @ [f]\<rparr>" "r = None" using run Some by simp_all
          have "view b' = view b1" "pins b' = pins b1" using view_cong [of b' b1] b' by simp_all
          then show ?thesis using put_back [OF held] b' law(3,4) le same by (simp add: view_le_def)
        next
          case read: (Some c)
          then have b': "b' = install f p c b1" "r = Some f" using run Some by simp_all
          note inst = install_law [OF held fresh False, of U c]
          have i: "pool_inv {} U b'" "view b' = (view b1)(p \<mapsto> c)" "pins b' = (pins b1)(p := 1)" "page_at f b' = c"
            using inst read b' by simp_all
          have "view b1 p = Some c" using fresh read by (simp add: view_def)
          then have "view_le b1 b'" using i(2) by (simp add: view_le_def)
          then have "view_le b b'" using view_le_trans [OF le] by blast
          then show ?thesis using i b' law(3,4) same p0 False by simp
        qed
      qed
    qed
  qed
  then show "pool_inv {} U b'" "view_le b b'" "pool_size b' = pool_size b"
    "pins b' = (case r of None \<Rightarrow> pins b | Some f \<Rightarrow> (pins b)(p := pins b p + 1))"
    "r = Some f \<Longrightarrow> find_page p b' = Some f \<and> p \<noteq> INVALID_PAGE_ID \<and> view b' p = Some (page_at f b')"
    by blast+
qed

lemma FetchPage_find:
  assumes "pool_inv {} U b" "FetchPage p b = (b', r)" "find_page q b' = Some f" "find_page q b = Some g"
  shows "f = g"
proof (cases "p = INVALID_PAGE_ID")
  case True
  then show ?thesis using assms by (simp add: FetchPage_def)
next
  case False
  show ?thesis
  proof (cases "find_page p b")
    case (Some h)
    then show ?thesis using FetchPage_hit(8) [OF assms(1) Some assms(2)] assms(3,4) by simp
  next
    case None
    obtain b1 fo where free: "GetFreeFrame (b\<lparr>access_count := access_count b + 1\<rparr>) = (b1, fo)" by fastforce
    note run = assms(2) [unfolded FetchPage_miss [OF None False] free prod.case]
    have "q \<noteq> p" using None assms(4) by auto
    then have "find_page q b1 = Some f"
      using run assms(3) by (auto split: option.splits)
    then show ?thesis using GetFreeFrame_find [OF free] assms(4) by fastforce
  qed
qed

section \<open>Changing a mapped frame\<close>

lemma set_frame_law:
  assumes "pool_inv {} U b" "find_page p b = Some f" "fr_page_id fr = p" "0 \<le> fr_pin_count fr"
    and "f \<in> evictable_frames (replacer b) \<Longrightarrow> fr_pin_count fr = 0"
    and "U' - {p} = U - {p}" "p \<in> U' \<Longrightarrow> 0 < fr_pin_count fr"
    and "\<not> fr_dirty fr \<Longrightarrow> p \<notin> U' \<Longrightarrow> ReadPage p (disk_manager b) = Some (fr_data fr)"
  shows "pool_inv {} U' (set_frame f fr b)" "view (set_frame f fr b) = (view b)(p \<mapsto> fr_data fr)"
    "pins (set_frame f fr b) = (pins b)(p := fr_pin_count fr)"
proof -
  note I = pool_invD [OF assms(1)]
  note D = frames_okD [OF I(1)]
  have f: "p \<noteq> INVALID_PAGE_ID" "f < pool_size b" "fr_page_id (pages b ! f) = p"
    using D(2) [OF assms(2)] by auto
  have nth: "pages (set_frame f fr b) ! g = (if g = f then fr else pages b ! g)" for g
    using f(2) D(1) by simp
  have other: "g \<noteq> f" if "find_page q b = Some g" "q \<noteq> p" for q g
    using find_page_inj [OF I(1) assms(2)] that by auto
  have "frames_ok {} (set_frame f fr b)" using f assms(3,4) by (intro frames_ok_set_frame [OF I(1)]) auto
  moreover have "replacer_ok (set_frame f fr b)"
    using assms(3,5) f(1) D(1) by (intro replacer_ok_set_frame [OF I(2)]) auto
  moreover have "coherent U' (set_frame f fr b)"
    unfolding coherent_def nth
  proof (intro conjI allI impI ballI)
    fix q g
    assume q: "find_page q (set_frame f fr b) = Some g" "\<not> fr_dirty (if g = f then fr else pages b ! g)" "q \<notin> U'"
    show "ReadPage q (disk_manager (set_frame f fr b)) = Some (fr_data (if g = f then fr else pages b ! g))"
    proof (cases "q = p")
      case True
      then show ?thesis using q assms(2,8) by simp
    next
      case False
      then have "q \<notin> U" "g \<noteq> f" using q(1,3) assms(6) other by auto
      then show ?thesis using q(1,2) I(3) by (simp add: coherent_def)
    qed
  next
    fix q assume q: "q \<in> U'"
    show "\<exists>g. find_page q (set_frame f fr b) = Some g \<and> 0 < fr_pin_count (if g = f then fr else pages b ! g)"
    proof (cases "q = p")
      case True
      then show ?thesis using q assms(2,7) by simp
    next
      case False
      then have "q \<in> U" using q assms(6) by auto
      then obtain g where "find_page q b = Some g" "0 < fr_pin_count (pages b ! g)"
        using I(3) by (auto simp: coherent_def)
      then show ?thesis using other [of q g] False by simp
    qed
  qed
  ultimately show "pool_inv {} U' (set_frame f fr b)" using I(4) by (simp add: pool_inv_def)
  show "view (set_frame f fr b) = (view b)(p \<mapsto> fr_data fr)" "pins (set_frame f fr b) = (pins b)(p := fr_pin_count fr)"
    unfolding view_def pins_def fun_eq_iff nth
    using assms(2) other by (auto split: option.splits)
qed

lemma pinned_not_evictable:
  "replacer_ok b \<Longrightarrow> 0 < fr_pin_count (pages b ! f) \<Longrightarrow> f \<notin> evictable_frames (replacer b)"
  by (auto simp: replacer_ok_def)

lemma modify_page_law:
  assumes "pool_inv {} U b" "find_page p b = Some f" "0 < pins b p"
  shows "pool_inv {} (insert p U) (modify_page f g b)"
    "view (modify_page f g b) = (view b)(p \<mapsto> g (page_at f b))" "pins (modify_page f g b) = pins b"
    "find_page q (modify_page f g b) = find_page q b" "page_at f (modify_page f g b) = g (page_at f b)"
proof -
  note I = pool_invD [OF assms(1)]
  have f: "fr_page_id (pages b ! f) = p" "0 < fr_pin_count (pages b ! f)" "f < length (pages b)"
    using frames_okD(1,2) [OF I(1)] assms(2,3) by (auto simp: pins_def)
  let ?fr = "(pages b ! f)\<lparr>fr_data := g (fr_data (pages b ! f))\<rparr>"
  have law: "pool_inv {} (insert p U) (set_frame f ?fr b)"
    "view (set_frame f ?fr b) = (view b)(p \<mapsto> fr_data ?fr)" "pins (set_frame f ?fr b) = (pins b)(p := fr_pin_count ?fr)"
    using pinned_not_evictable [OF I(2) f(2)] f
    by (intro set_frame_law [OF assms(1,2), of ?fr "insert p U"]; simp)+
  show "pool_inv {} (insert p U) (modify_page f g b)" using law(1) by (simp add: modify_page_def)
  show "view (modify_page f g b) = (view b)(p \<mapsto> g (page_at f b))"
    using law(2) by (simp add: modify_page_def page_at_def)
  show "pins (modify_page f g b) = pins b"
    using law(3) assms(2) by (auto simp: modify_page_def pins_def fun_eq_iff)
  show "find_page q (modify_page f g b) = find_page q b" by (simp add: modify_page_def)
  show "page_at f (modify_page f g b) = g (page_at f b)" using f(3) by (simp add: modify_page_def page_at_def)
qed

lemma MarkDirty_law:
  assumes "pool_inv {} U b" "find_page p b = Some f" "0 < pins b p"
  shows "pool_inv {} U (MarkDirty f b)" "view (MarkDirty f b) = view b" "pins (MarkDirty f b) = pins b"
    "find_page q (MarkDirty f b) = find_page q b" "page_at f (MarkDirty f b) = page_at f b"
proof -
  note I = pool_invD [OF assms(1)]
  have f: "fr_page_id (pages b ! f) = p" "0 < fr_pin_count (pages b ! f)" "f < length (pages b)"
    using frames_okD(1,2) [OF I(1)] assms(2,3) by (auto simp: pins_def)
  let ?fr = "(pages b ! f)\<lparr>fr_dirty := True\<rparr>"
  have law: "pool_inv {} U (set_frame f ?fr b)"
    "view (set_frame f ?fr b) = (view b)(p \<mapsto> fr_data ?fr)" "pins (set_frame f ?fr b) = (pins b)(p := fr_pin_count ?fr)"
    using pinned_not_evictable [OF I(2) f(2)] f
    by (intro set_frame_law [OF assms(1,2), of ?fr U]; simp)+
  show "pool_inv {} U (MarkDirty f b)" using law(1) by (simp add: MarkDirty_def)
  show "view (MarkDirty f b) = view b" "pins (MarkDirty f b) = pins b"
    using law(2,3) assms(2) by (auto simp: MarkDirty_def pins_def view_def fun_eq_iff)
  show "find_page q (MarkDirty f b) = find_page q b" by (simp add: MarkDirty_def)
  show "page_at f (MarkDirty f b) = page_at f b" using f(3) by (simp add: MarkDirty_def page_at_def)
qed

text \<open>Unpinning: a page with unsaved changes is to be unpinned as dirty by its last user.\<close>

lemma UnpinPage_law:
  assumes "pool_inv {} U b" "0 < pins b p" "\<not> dirty \<Longrightarrow> p \<notin> U" "UnpinPage p dirty b = (b', ok)"
  shows "ok" "pool_inv {} (U - {p}) b'" "view b' = view b" "pins b' = (pins b)(p := pins b p - 1)"
    "find_page q b' = find_page q b" "pool_size b' = pool_size b"
proof -
  note I = pool_invD [OF assms(1)]
  obtain f where m: "find_page p b = Some f" using pins_pos_find [OF assms(2)] by blast
  have f: "fr_page_id (pages b ! f) = p" "0 < fr_pin_count (pages b ! f)" "f < length (pages b)"
    "p \<noteq> INVALID_PAGE_ID" "f < pool_size b"
    using frames_okD(1,2) [OF I(1)] m assms(2) by (auto simp: pins_def)
  let ?pg = "pages b ! f"
  let ?fr = "?pg\<lparr>fr_dirty := (dirty \<or> fr_dirty ?pg), fr_pin_count := fr_pin_count ?pg - 1\<rparr>"
  let ?c = "set_frame f ?fr b"
  have clean: "ReadPage p (disk_manager b) = Some (fr_data ?pg)" if "\<not> (dirty \<or> fr_dirty ?pg)"
    using I(3) m that assms(3) by (auto simp: coherent_def)
  have law: "pool_inv {} (U - {p}) ?c" "view ?c = (view b)(p \<mapsto> fr_data ?fr)"
    "pins ?c = (pins b)(p := fr_pin_count ?fr)"
    using pinned_not_evictable [OF I(2) f(2)] f clean
    by (intro set_frame_law [OF assms(1) m, of ?fr "U - {p}"]; simp)+
  have b': "ok" "b' = (if fr_pin_count ?pg = 1 then ?c\<lparr>replacer := Unpin f (replacer b)\<rparr> else ?c)"
    using assms(4) m f(2,4) by (auto simp: UnpinPage_def Let_def split: if_splits)
  show ok by (rule b'(1))
  have "fr_pin_count ?pg = 1 \<Longrightarrow> replacer_ok (?c\<lparr>replacer := Unpin f (replacer ?c)\<rparr>)"
    using pool_invD(2) [OF law(1)] f by (intro replacer_ok_Unpin) auto
  then show "pool_inv {} (U - {p}) b'"
    using law(1) frames_ok_cong [of "{}" ?c "?c\<lparr>replacer := Unpin f (replacer b)\<rparr>"]
      coherent_cong [of "U - {p}" ?c "?c\<lparr>replacer := Unpin f (replacer b)\<rparr>"]
    by (auto simp: b' pool_inv_def)
  have "view b' = view ?c" "pins b' = pins ?c" using view_cong [of b' ?c] by (simp_all add: b')
  then show "view b' = view b" "pins b' = (pins b)(p := pins b p - 1)"
    using law(2,3) m by (auto simp: view_def pins_def fun_eq_iff)
  show "find_page q b' = find_page q b" "pool_size b' = pool_size b" by (simp_all add: b')
qed

section \<open>Cached pages are allocated pages\<close>

text \<open>
  Every open file is in order, with the free pages \<open>fls fid\<close>, and the pool holds only pages that
  are in use: not the file header, not a freed page.
\<close>

definition in_use :: "(i16 \<Rightarrow> i16 list) \<Rightarrow> disk \<Rightarrow> i32 \<Rightarrow> bool" where
  "in_use fls d p \<longleftrightarrow> GetFileEntry (GetFileId p) d \<noteq> None \<and>
     GetPageNo p \<in> allocated d (GetFileId p) (fls (GetFileId p))"

definition files_ok :: "(i16 \<Rightarrow> i16 list) \<Rightarrow> bpm \<Rightarrow> bool" where
  "files_ok fls b \<longleftrightarrow>
     (\<forall>fid. GetFileEntry fid (disk_manager b) \<noteq> None \<longrightarrow> file_wf (disk_manager b) fid (fls fid)) \<and>
     (\<forall>p f. find_page p b = Some f \<longrightarrow> in_use fls (disk_manager b) p)"

lemma GetNumPages_cong: "GetFileEntry f d' = GetFileEntry f d \<Longrightarrow> GetNumPages f d' = GetNumPages f d"
  by (simp add: GetNumPages_def)

lemma WritePage_entry:
  assumes "WritePage p x d = (d', ok)" shows "GetFileEntry f d' = GetFileEntry f d"
  using assms stream_write_fields(7) by (auto simp: WritePage_def split: option.splits)

lemma WritePage_in_use:
  assumes "WritePage p x d = (d', ok)" shows "in_use fls d' q = in_use fls d q"
  by (simp add: in_use_def allocated_def GetNumPages_def WritePage_entry [OF assms])

lemma WritePage_file_wf:
  assumes "disk_inv d" "file_wf d fid fl" "GetFileId p = fid \<Longrightarrow> GetPageNo p \<in> allocated d fid fl"
    "WritePage p x d = (d', ok)"
  shows "file_wf d' fid fl"
proof (cases ok)
  case False
  then have "d' = d" using device.write_fail [OF assms(1), of p x d'] assms(4) by simp
  then show ?thesis using assms(2) by simp
next
  case True
  then obtain e where e: "GetFileEntry (GetFileId p) d = Some e"
      "stream_write (inode e) (unat (GetPageNo p)) x d = Some d'"
    using assms(4) by (auto simp: WritePage_def split: option.splits)
  note w = stream_write_fields [OF e(2)]
  from assms(2) obtain e0 where e0: "GetFileEntry fid d = Some e0" by (auto simp: file_wf_def split: option.splits)
  show ?thesis
  proof (cases "GetFileId p = fid")
    case False
    then have "inode e0 \<noteq> inode e" using disk_invD(2) [OF assms(1) e0 e(1)] by blast
    then show ?thesis using assms(2) e0 w by (simp add: file_wf_def)
  next
    case True
    then have "e0 = e" using e0 e(1) by simp
    from assms(2) e0 have len: "length (blocks d (inode e)) = unat (num_pages e)"
      and chain: "free_chain (blocks d (inode e)) (first_free_page (blocks d (inode e) ! 0)) fl"
      by (simp_all add: file_wf_def \<open>e0 = e\<close>)
    have n: "GetPageNo p \<noteq> 0" "unat (GetPageNo p) < length (blocks d (inode e))" "GetPageNo p \<notin> set fl"
      using allocated_bounds [OF _ len assms(3) [OF True]] e(1) True by auto
    have "free_chain ((blocks d (inode e))[unat (GetPageNo p) := x]) (first_free_page (blocks d (inode e) ! 0)) fl"
      using n(3) by (intro free_chain_update [OF chain]) (auto simp flip: word_unat_eq_iff)
    then show ?thesis
      using assms(2) e0 w n by (simp add: file_wf_def \<open>e0 = e\<close> unat_eq_0)
  qed
qed

lemma files_ok_cong:
  assumes "files_ok fls b" "disk_manager b' = disk_manager b"
    "\<And>p f. find_page p b' = Some f \<Longrightarrow> find_page p b \<noteq> None \<or> in_use fls (disk_manager b) p"
  shows "files_ok fls b'"
  using assms unfolding files_ok_def by fastforce

lemma files_ok_write:
  assumes "files_ok fls b" "disk_inv (disk_manager b)" "find_page p b = Some f"
    "WritePage p x (disk_manager b) = (d, ok)"
  shows "files_ok fls (b\<lparr>disk_manager := d\<rparr>)"
proof -
  note e = WritePage_entry [OF assms(4)] and u = WritePage_in_use [OF assms(4)]
  have "in_use fls (disk_manager b) p" using assms(1,3) by (auto simp: files_ok_def)
  then have "file_wf d fid (fls fid)" if "GetFileEntry fid d \<noteq> None" for fid
    using that assms(1) WritePage_file_wf [OF assms(2) _ _ assms(4), of fid "fls fid"]
    by (auto simp: files_ok_def in_use_def e)
  then show ?thesis using assms(1) by (simp add: files_ok_def u)
qed

lemma EvictPage_files:
  assumes "pool_inv {} U b" "files_ok fls b" "EvictPage b = (b', fo)"
  shows "files_ok fls b'"
proof (cases fo)
  case None
  then obtain r where "b' = b\<lparr>replacer := r\<rparr>" using EvictPage_None assms(3) by blast
  then show ?thesis using files_ok_cong [OF assms(2), of b'] by simp
next
  case (Some f)
  note I = pool_invD [OF assms(1)]
  from EvictPage_Some [OF assms(3) [unfolded Some]] obtain r d where
    r: "Victim (replacer b) = (r, Some f)" "b' = clear_frame f (b\<lparr>replacer := r, disk_manager := d\<rparr>)" and
    d: "if fr_dirty (pages b ! f) then WritePage (fr_page_id (pages b ! f)) (fr_data (pages b ! f)) (disk_manager b) = (d, True)
          else d = disk_manager b" by blast
  from replacer_victim(2) [OF I(2) r(1)] have "f \<in> evictable_frames (replacer b)" by simp
  from evictable_mapped [OF I(1,2) this] have "find_page (fr_page_id (pages b ! f)) b = Some f" ..
  then have "files_ok fls (b\<lparr>disk_manager := d\<rparr>)"
    using files_ok_write [OF assms(2) I(4)] d assms(2) by (auto split: if_splits)
  then show ?thesis
    by (rule files_ok_cong) (auto simp: r(2) split: if_splits)
qed

lemma GetFreeFrame_files:
  assumes "pool_inv {} U b" "files_ok fls b" "GetFreeFrame b = (b', fo)"
  shows "files_ok fls b'"
proof (cases "free_list b")
  case Nil
  then show ?thesis using EvictPage_files [OF assms(1,2)] assms(3) by (simp add: GetFreeFrame_def)
next
  case (Cons f fs)
  then have "b' = b\<lparr>free_list := fs\<rparr>" using assms(3) by (simp add: GetFreeFrame_def)
  then show ?thesis using files_ok_cong [OF assms(2), of b'] by simp
qed

lemma GetFreeFrame_in_use:
  assumes "GetFreeFrame b = (b', fo)" shows "in_use fls (disk_manager b') q = in_use fls (disk_manager b) q"
proof -
  have e: "in_use fls (disk_manager b') q = in_use fls (disk_manager b) q" if "EvictPage b = (b', fo)"
  proof (cases fo)
    case None
    then show ?thesis using EvictPage_None [of b b'] that by auto
  next
    case (Some f)
    with EvictPage_Some [of b b' f] that obtain r d where
      b': "b' = clear_frame f (b\<lparr>replacer := r, disk_manager := d\<rparr>)" and
      d: "if fr_dirty (pages b ! f) then WritePage (fr_page_id (pages b ! f)) (fr_data (pages b ! f)) (disk_manager b) = (d, True)
          else d = disk_manager b" by blast
    from d have "in_use fls d q = in_use fls (disk_manager b) q"
      using WritePage_in_use [of _ _ _ d True] by (cases "fr_dirty (pages b ! f)") auto
    then show ?thesis by (simp add: b')
  qed
  show ?thesis
  proof (cases "free_list b")
    case Nil
    then show ?thesis using e assms by (simp add: GetFreeFrame_def)
  next
    case (Cons f fs)
    then have "b' = b\<lparr>free_list := fs\<rparr>" using assms by (simp add: GetFreeFrame_def)
    then show ?thesis by simp
  qed
qed

lemma FetchPage_files:
  assumes "pool_inv {} U b" "files_ok fls b" "FetchPage p b = (b', r)" "in_use fls (disk_manager b) p"
  shows "files_ok fls b'" "in_use fls (disk_manager b') q = in_use fls (disk_manager b) q"
proof -
  have "files_ok fls b' \<and> in_use fls (disk_manager b') q = in_use fls (disk_manager b) q"
  proof (cases "p = INVALID_PAGE_ID")
    case True
    then show ?thesis using assms by (simp add: FetchPage_def)
  next
    case False
    show ?thesis
    proof (cases "find_page p b")
      case (Some f)
      note hit = FetchPage_hit [OF assms(1) Some assms(3)]
      have "files_ok fls b'" by (rule files_ok_cong [OF assms(2) hit(7)]) (simp add: hit(8))
      then show ?thesis by (simp add: hit(7))
    next
      case None
      let ?a = "b\<lparr>access_count := access_count b + 1\<rparr>"
      have a: "pool_inv {} U ?a" by (rule pool_inv_access [OF assms(1)])
      have fa: "files_ok fls ?a" by (rule files_ok_cong [OF assms(2)]) simp_all
      obtain b1 fo where g: "GetFreeFrame ?a = (b1, fo)" by (cases "GetFreeFrame ?a")
      note run = assms(3) [unfolded FetchPage_miss [OF None False] g prod.case]
      have f1: "files_ok fls b1" by (rule GetFreeFrame_files [OF a fa g])
      have u1: "in_use fls (disk_manager b1) q = in_use fls (disk_manager b) q" for q
        using GetFreeFrame_in_use [OF g] by simp
      show ?thesis
      proof (cases fo)
        case None
        then show ?thesis using run f1 u1 by simp
      next
        case (Some f)
        then have d: "disk_manager b' = disk_manager b1" and
          m: "\<And>q g. find_page q b' = Some g \<Longrightarrow> q = p \<or> find_page q b1 \<noteq> None"
          using run by (auto split: option.splits if_splits)
        have "files_ok fls b'" using m u1 assms(4) by (intro files_ok_cong [OF f1 d]) auto
        then show ?thesis using d u1 by simp
      qed
    qed
  qed
  then show "files_ok fls b'" "in_use fls (disk_manager b') q = in_use fls (disk_manager b) q" by auto
qed

lemma modify_page_files: "files_ok fls (modify_page f g b) = files_ok fls b" "disk_manager (modify_page f g b) = disk_manager b"
  and MarkDirty_files: "files_ok fls (MarkDirty f b) = files_ok fls b" "disk_manager (MarkDirty f b) = disk_manager b"
  by (simp_all add: files_ok_def modify_page_def MarkDirty_def)

lemma UnpinPage_files:
  "UnpinPage p dirty b = (b', ok) \<Longrightarrow> files_ok fls b' = files_ok fls b \<and> disk_manager b' = disk_manager b"
  by (auto simp: UnpinPage_def Let_def files_ok_def split: option.splits if_splits)

section \<open>New pages\<close>

lemma pool_disk_change:
  assumes "pool_inv {} U b" "disk_inv d"
    "\<And>q f c. find_page q b = Some f \<Longrightarrow> ReadPage q (disk_manager b) = Some c \<Longrightarrow> ReadPage q d = Some c"
  shows "pool_inv {} U (b\<lparr>disk_manager := d\<rparr>)"
proof -
  note I = pool_invD [OF assms(1)]
  have "frames_ok {} (b\<lparr>disk_manager := d\<rparr>)" by (rule frames_ok_cong [OF I(1)]) simp_all
  moreover have "replacer_ok (b\<lparr>disk_manager := d\<rparr>)" by (rule replacer_ok_cong [OF I(2)]) simp_all
  moreover have "coherent U (b\<lparr>disk_manager := d\<rparr>)"
    using I(3) assms(3) unfolding coherent_def by simp
  ultimately show ?thesis using assms(2) by (simp add: pool_inv_def)
qed

lemma in_use_not_header: "in_use fls d q \<Longrightarrow> q \<noteq> MakePageId fid 0"
  by (auto simp: in_use_def allocated_def)

text \<open>After the allocation on disk, before a frame is taken.\<close>

lemma allocated_pool:
  assumes "pool_inv {} U b" "files_ok fls b" "GetFileEntry fid (disk_manager b) \<noteq> None"
    "fls fid = [] \<longrightarrow> GetNumPages fid (disk_manager b) \<noteq> - 1"
    "AllocatePage fid (disk_manager b) = Some (d, pid)"
  defines "fls' \<equiv> fls(fid := tl (fls fid))" and "b1 \<equiv> b\<lparr>disk_manager := d\<rparr>"
  shows "pool_inv {} U b1" "files_ok fls' b1" "GetFileId pid = fid" "\<not> in_use fls (disk_manager b) pid"
    "in_use fls' d q \<longleftrightarrow> q = pid \<or> in_use fls (disk_manager b) q"
    "in_use fls (disk_manager b) q \<Longrightarrow> view b q = Some c \<Longrightarrow> view b1 q = Some c" "pins b1 = pins b"
    "find_page pid b1 = None" "fls fid \<noteq> [] \<Longrightarrow> GetPageNo pid = hd (fls fid)"
proof -
  note I = pool_invD [OF assms(1)]
  have "file_wf (disk_manager b) fid (fls fid)" using assms(2,3) by (auto simp: files_ok_def)
  from allocate_law [OF I(4) this assms(4)] assms(5) obtain n where
    n: "pid = MakePageId fid n" "n \<notin> allocated (disk_manager b) fid (fls fid)" "disk_inv d"
      "file_wf d fid (tl (fls fid))" "allocated d fid (tl (fls fid)) = insert n (allocated (disk_manager b) fid (fls fid))"
      "fls fid \<noteq> [] \<longrightarrow> n = hd (fls fid)"
      "\<forall>q c. ReadPage q (disk_manager b) = Some c \<longrightarrow> q \<noteq> MakePageId fid 0 \<longrightarrow> ReadPage q d = Some c"
    by auto
  note other = AllocatePage_others [OF I(4) assms(5)]
  have u: "in_use fls' d q \<longleftrightarrow> q = pid \<or> in_use fls (disk_manager b) q" for q
  proof (cases "GetFileId q = fid")
    case True
    have "q = pid \<longleftrightarrow> GetPageNo q = n"
      using True MakePageId_GetFileId_GetPageNo [of q] unfolding n(1) by (metis MakePageId_inject)
    moreover have "GetFileEntry fid d \<noteq> None" using n(4) by (auto simp: file_wf_def split: option.splits)
    ultimately show ?thesis using True assms(3) n(5) by (auto simp: in_use_def fls'_def)
  next
    case False
    then have "q \<noteq> pid" using n(1) by auto
    then show ?thesis using False other(1) [of "GetFileId q"]
      by (simp add: in_use_def fls'_def allocated_def GetNumPages_def)
  qed
  show "in_use fls' d q \<longleftrightarrow> q = pid \<or> in_use fls (disk_manager b) q" by (rule u)
  show "GetFileId pid = fid" "fls fid \<noteq> [] \<Longrightarrow> GetPageNo pid = hd (fls fid)" using n(1,6) by simp_all
  show nu: "\<not> in_use fls (disk_manager b) pid" using n(1,2) by (simp add: in_use_def)
  then have "find_page pid b = None" using assms(2) by (cases "find_page pid b") (auto simp: files_ok_def)
  then show "find_page pid b1 = None" by (simp add: b1_def)
  have keep: "ReadPage q d = Some c" if "in_use fls (disk_manager b) q" "ReadPage q (disk_manager b) = Some c" for q c
    using n(7) in_use_not_header that by blast
  show "pool_inv {} U b1"
    unfolding b1_def
  proof (rule pool_disk_change [OF assms(1) n(3)])
    fix q f c assume "find_page q b = Some f" "ReadPage q (disk_manager b) = Some c"
    then show "ReadPage q d = Some c" using keep assms(2) by (auto simp: files_ok_def)
  qed
  show "files_ok fls' b1"
    unfolding files_ok_def
  proof (intro conjI allI impI)
    fix g assume g: "GetFileEntry g (disk_manager b1) \<noteq> None"
    show "file_wf (disk_manager b1) g (fls' g)"
    proof (cases "g = fid")
      case True
      then show ?thesis using n(4) by (simp add: b1_def fls'_def)
    next
      case False
      then show ?thesis using g other [of g] assms(2) by (simp add: b1_def fls'_def files_ok_def)
    qed
  next
    fix q g assume "find_page q b1 = Some g"
    then show "in_use fls' (disk_manager b1) q" using assms(2) u by (simp add: b1_def files_ok_def)
  qed
  show "view b1 q = Some c" if "in_use fls (disk_manager b) q" "view b q = Some c"
    using keep that by (auto simp: view_def b1_def split: option.splits)
  show "pins b1 = pins b" by (rule pins_cong) (simp_all add: b1_def)
qed

lemma NewPage_law:
  assumes "pool_inv {} U b" "files_ok fls b" "GetFileEntry fid (disk_manager b) \<noteq> None"
    "fls fid = [] \<longrightarrow> GetNumPages fid (disk_manager b) \<noteq> - 1" "NewPage fid b = Some (b', pid, Some f)"
  defines "fls' \<equiv> fls(fid := tl (fls fid))"
  shows "pool_inv {} (insert pid U) b'" "files_ok fls' b'" "GetFileId pid = fid" "\<not> in_use fls (disk_manager b) pid"
    "in_use fls' (disk_manager b') q \<longleftrightarrow> q = pid \<or> in_use fls (disk_manager b) q"
    "in_use fls (disk_manager b) q \<Longrightarrow> view b q = Some c \<Longrightarrow> view b' q = Some c"
    "pins b' = (pins b)(pid := 1)" "find_page pid b' = Some f" "page_at f b' = zero_page"
    "view b' pid = Some zero_page" "pid \<noteq> INVALID_PAGE_ID"
proof -
  from assms(5) obtain d where a: "AllocatePage fid (disk_manager b) = Some (d, pid)" and v: "pid \<noteq> INVALID_PAGE_ID"
    by (auto simp: NewPage_def bind_eq_Some_conv Let_def split: if_splits prod.splits option.splits)
  let ?b1 = "b\<lparr>disk_manager := d\<rparr>"
  note al = allocated_pool [OF assms(1-4) a, folded fls'_def]
  obtain b2 fo where g: "GetFreeFrame ?b1 = (b2, fo)" by (cases "GetFreeFrame ?b1")
  have run: "fo = Some f" "b' = install f pid zero_page b2"
    using assms(5) a v g
    by (auto simp: NewPage_def bind_eq_Some_conv Let_def install_def split: option.splits)
  note law = GetFreeFrame_law [OF al(1) g]
  have held: "pool_inv {f} U b2" using law(1) run(1) by simp
  have fresh: "find_page pid b2 = None"
    using GetFreeFrame_find [OF g, of pid] al(8) by (cases "find_page pid b2") auto
  have "insert pid U = U \<and> ReadPage pid (disk_manager b2) = Some zero_page \<or> insert pid U = insert pid U" by simp
  note inst = install_law [OF held fresh v this]
  show "pool_inv {} (insert pid U) b'" using inst(1) run(2) by simp
  have "files_ok fls' b2" by (rule GetFreeFrame_files [OF al(1,2) g])
  have u: "in_use fls' (disk_manager b') q \<longleftrightarrow> q = pid \<or> in_use fls (disk_manager b) q" for q
    using al(5) GetFreeFrame_in_use [OF g] run(2) by simp
  show "in_use fls' (disk_manager b') q \<longleftrightarrow> q = pid \<or> in_use fls (disk_manager b) q" by (rule u)
  show "files_ok fls' b'"
    by (rule files_ok_cong [OF \<open>files_ok fls' b2\<close>]) (use u [of pid] run(2) in \<open>auto split: if_splits\<close>)
  show "GetFileId pid = fid" "\<not> in_use fls (disk_manager b) pid" by (fact al)+
  show "view b' q = Some c" if q: "in_use fls (disk_manager b) q" "view b q = Some c"
  proof -
    have "view b2 q = Some c" using al(6) [OF q] law(2) by (simp add: view_le_def)
    moreover have "q \<noteq> pid" using q(1) al(4) by auto
    ultimately show ?thesis using inst(2) run(2) by simp
  qed
  show "pins b' = (pins b)(pid := 1)" using inst(3) run(2) law(3) al(7) by simp
  show "find_page pid b' = Some f" "page_at f b' = zero_page" using run(2) inst(4) by simp_all
  show "view b' pid = Some zero_page" using inst(2) run(2) by simp
  show "pid \<noteq> INVALID_PAGE_ID" by (rule v)
qed

section \<open>Flushing\<close>

lemma FlushPage_law:
  assumes "pool_inv {} U b" "FlushPage p b = (b', True)" "p \<notin> U"
  shows "pool_inv {} U b'" "view_le b b'" "pins b' = pins b"
    "ReadPage p (disk_manager b') = view b p" "view b p \<noteq> None"
proof -
  note I = pool_invD [OF assms(1)]
  obtain f where m: "find_page p b = Some f" and v: "p \<noteq> INVALID_PAGE_ID"
    using assms(2) by (auto simp: FlushPage_def split: option.splits if_splits)
  have f: "fr_page_id (pages b ! f) = p" "f < length (pages b)" "0 \<le> fr_pin_count (pages b ! f)"
    using frames_okD(1,2,6) [OF I(1)] m by auto
  have view: "view b p = Some (fr_data (pages b ! f))" using m by (simp add: view_def)
  show "view b p \<noteq> None" by (simp add: view)
  have "pool_inv {} U b' \<and> view_le b b' \<and> pins b' = pins b \<and> ReadPage p (disk_manager b') = view b p"
  proof (cases "fr_dirty (pages b ! f)")
    case False
    then have "b' = b" using assms(2) m v by (simp add: FlushPage_def)
    moreover have "ReadPage p (disk_manager b) = view b p"
      using I(3) m False assms(3) view by (simp add: coherent_def)
    ultimately show ?thesis using assms(1) by simp
  next
    case True
    let ?fr = "(pages b ! f)\<lparr>fr_dirty := False\<rparr>"
    obtain d where d: "WritePage p (fr_data (pages b ! f)) (disk_manager b) = (d, True)"
      "b' = set_frame f ?fr (b\<lparr>disk_manager := d\<rparr>)"
      using assms(2) m v True by (auto simp: FlushPage_def Let_def split: prod.splits bool.splits)
    note wb = write_back [OF I(1,3,4) m d(1)]
    let ?c = "b\<lparr>disk_manager := d\<rparr>"
    have c: "pool_inv {} U ?c"
      using frames_ok_cong [OF I(1), of ?c] replacer_ok_cong [OF I(2), of ?c] wb(1,2) by (simp add: pool_inv_def)
    have "pool_inv {} U b' \<and> view b' = (view ?c)(p \<mapsto> fr_data ?fr) \<and> pins b' = (pins ?c)(p := fr_pin_count ?fr)"
      unfolding d(2) using f m wb(5) I(2) assms(3)
      by (intro conjI set_frame_law [OF c, of p f ?fr U]) (auto simp: replacer_ok_def)
    moreover have "view ?c p = Some (fr_data ?fr)" "pins ?c p = fr_pin_count ?fr"
      using m by (simp_all add: view_def pins_def)
    moreover have "pins ?c = pins b" by (rule pins_cong) simp_all
    ultimately have "pool_inv {} U b'" "view b' = view ?c" "pins b' = pins b" by (auto simp: fun_eq_iff)
    then show ?thesis using wb(3,5) d(2) view by (simp add: view_le_def)
  qed
  then show "pool_inv {} U b'" "view_le b b'" "pins b' = pins b"
    "ReadPage p (disk_manager b') = view b p" by auto
qed

end
