(* ===== verification/Buffer_Pool_Props.thy ===== *)
theory Buffer_Pool_Props
  imports Buffer_Pool_Inv
begin

text \<open>
  The interface of a page cache that the table heap and the indexes rely on (locale
  \<open>page_cache\<close>), its interpretation on the buffer pool, and the pool's properties.
\<close>

section \<open>The interface\<close>

locale page_cache =
  fixes inv :: "i32 set \<Rightarrow> 'b \<Rightarrow> bool"
    and vw :: "'b \<Rightarrow> i32 \<Rightarrow> page option"
    and pinned :: "'b \<Rightarrow> i32 \<Rightarrow> int"
    and at :: "i32 \<Rightarrow> 'b \<Rightarrow> nat option"
    and bytes :: "nat \<Rightarrow> 'b \<Rightarrow> page"
    and fetch :: "i32 \<Rightarrow> 'b \<Rightarrow> 'b \<times> nat option"
    and change :: "nat \<Rightarrow> (page \<Rightarrow> page) \<Rightarrow> 'b \<Rightarrow> 'b"
    and release :: "i32 \<Rightarrow> bool \<Rightarrow> 'b \<Rightarrow> 'b \<times> bool"
  assumes fetch_law: "inv U b \<Longrightarrow> fetch p b = (b', r) \<Longrightarrow>
      inv U b' \<and> (\<forall>q c. vw b q = Some c \<longrightarrow> vw b' q = Some c) \<and>
      pinned b' = (if r = None then pinned b else (pinned b)(p := pinned b p + 1)) \<and>
      (\<forall>f. r = Some f \<longrightarrow> at p b' = Some f \<and> vw b' p = Some (bytes f b'))"
    and change_law: "inv U b \<Longrightarrow> at p b = Some f \<Longrightarrow> 0 < pinned b p \<Longrightarrow>
      inv (insert p U) (change f g b) \<and> vw (change f g b) = (vw b)(p \<mapsto> g (bytes f b)) \<and>
      pinned (change f g b) = pinned b \<and> at q (change f g b) = at q b \<and>
      bytes f (change f g b) = g (bytes f b)"
    and release_law: "inv U b \<Longrightarrow> 0 < pinned b p \<Longrightarrow> \<not> dirty \<longrightarrow> p \<notin> U \<Longrightarrow> release p dirty b = (b', ok) \<Longrightarrow>
      ok \<and> inv (U - {p}) b' \<and> vw b' = vw b \<and> pinned b' = (pinned b)(p := pinned b p - 1)"
    and pinned_nonneg: "inv U b \<Longrightarrow> 0 \<le> pinned b p"
begin

text \<open>Reading a page through the cache leaves everything as it was.\<close>

lemma fetch_release:
  assumes "inv U b" "p \<notin> U" "fetch p b = (b1, Some f)" "release p False b1 = (b2, ok)"
  shows "ok" "inv U b2" "vw b q = Some c \<Longrightarrow> vw b2 q = Some c" "pinned b2 = pinned b"
    "vw b2 p = Some (bytes f b1)"
proof -
  note F = fetch_law [OF assms(1,3)]
  have inv1: "inv U b1" using F by blast
  have pos: "0 < pinned b1 p" using F pinned_nonneg [OF assms(1), of p] by simp
  note R = release_law [OF inv1 pos _ assms(4)]
  show "ok" using R assms(2) by blast
  show "inv U b2" using R assms(2) by (simp add: insert_absorb)
  show "vw b2 q = Some c" if "vw b q = Some c" using R F assms(2) that by simp
  show "pinned b2 = pinned b" using R F assms(2) by simp
  show "vw b2 p = Some (bytes f b1)" using R F assms(2) by simp
qed

text \<open>Changing a page: fetch, change, release as dirty.\<close>

lemma fetch_change_release:
  assumes "inv U b" "p \<notin> U" "fetch p b = (b1, Some f)" "release p True (change f g b1) = (b2, ok)"
  shows "ok" "inv U b2" "q \<noteq> p \<Longrightarrow> vw b q = Some c \<Longrightarrow> vw b2 q = Some c" "pinned b2 = pinned b"
    "vw b2 p = Some (g (bytes f b1))"
proof -
  note F = fetch_law [OF assms(1,3)]
  have inv1: "inv U b1" and at: "at p b1 = Some f" using F by blast+
  have pos: "0 < pinned b1 p" using F pinned_nonneg [OF assms(1), of p] by simp
  note C = change_law [OF inv1 at pos, of g]
  have inv2: "inv (insert p U) (change f g b1)" and pos2: "0 < pinned (change f g b1) p" using C pos by simp_all
  note R = release_law [OF inv2 pos2 _ assms(4)]
  show "ok" using R by blast
  show "inv U b2" using R assms(2) by simp
  show "vw b2 q = Some c" if "q \<noteq> p" "vw b q = Some c" using R C F that by simp
  show "pinned b2 = pinned b" using R C F by simp
  show "vw b2 p = Some (g (bytes f b1))" using R C by simp
qed

end

interpretation pool: page_cache "pool_inv {}" view pins find_page page_at FetchPage modify_page UnpinPage
proof
  fix U b b' p r f g q dirty ok
  show "pool_inv {} U b' \<and> (\<forall>q c. view b q = Some c \<longrightarrow> view b' q = Some c) \<and>
      pins b' = (if r = None then pins b else (pins b)(p := pins b p + 1)) \<and>
      (\<forall>f. r = Some f \<longrightarrow> find_page p b' = Some f \<and> view b' p = Some (page_at f b'))"
    if "pool_inv {} U b" "FetchPage p b = (b', r)"
    using FetchPage_law [OF that] by (auto simp: view_le_def split: option.splits)
  show "pool_inv {} (insert p U) (modify_page f g b) \<and> view (modify_page f g b) = (view b)(p \<mapsto> g (page_at f b)) \<and>
      pins (modify_page f g b) = pins b \<and> find_page q (modify_page f g b) = find_page q b \<and>
      page_at f (modify_page f g b) = g (page_at f b)"
    if "pool_inv {} U b" "find_page p b = Some f" "0 < pins b p"
    using modify_page_law [OF that] by blast
  show "ok \<and> pool_inv {} (U - {p}) b' \<and> view b' = view b \<and> pins b' = (pins b)(p := pins b p - 1)"
    if "pool_inv {} U b" "0 < pins b p" "\<not> dirty \<longrightarrow> p \<notin> U" "UnpinPage p dirty b = (b', ok)"
    using UnpinPage_law [OF that(1,2) _ that(4)] that(3) by blast
  show "0 \<le> pins b p" if "pool_inv {} U b"
    using frames_okD(2,6) [OF pool_invD(1) [OF that]] by (auto simp: pins_def split: option.splits)
qed

section \<open>When a fetch succeeds\<close>

definition writable :: "i32 \<Rightarrow> disk \<Rightarrow> bool" where
  "writable p d \<longleftrightarrow> (\<exists>e. GetFileEntry (GetFileId p) d = Some e \<and> \<not> broken d (inode e) (unat (GetPageNo p)))"

lemma writable_WritePage: "writable p d \<Longrightarrow> \<exists>d'. WritePage p x d = (d', True)"
  by (auto simp: writable_def WritePage_def stream_write_def)

lemma GetFreeFrame_succeeds:
  assumes "pool_inv {} U b" "replacer b = LRUK s" "free_list b \<noteq> [] \<or> evictable_frames (replacer b) \<noteq> {}"
    "\<And>q f. find_page q b = Some f \<Longrightarrow> writable q (disk_manager b)"
  shows "\<exists>b' f. GetFreeFrame b = (b', Some f)"
proof (cases "free_list b")
  case (Cons f fs)
  then show ?thesis by (simp add: GetFreeFrame_def)
next
  case Nil
  note I = pool_invD [OF assms(1)]
  have "lruk_inv s" "lruk_set s \<noteq> {}" using I(2) assms(2,3) Nil by (simp_all add: replacer_ok_def)
  from lruk_policy.victim_total [OF this] obtain s' f where v: "lruk_victim s = (s', Some f)" by blast
  then have V: "Victim (replacer b) = (LRUK s', Some f)" by (simp add: assms(2))
  from replacer_victim(2) [OF I(2) V] have "f \<in> evictable_frames (replacer b)" by simp
  from evictable_mapped [OF I(1,2) this] assms(4)
  have "writable (fr_page_id (pages b ! f)) (disk_manager b)" by blast
  from writable_WritePage [OF this] obtain d where
    "WritePage (fr_page_id (pages b ! f)) (fr_data (pages b ! f)) (disk_manager b) = (d, True)" by blast
  then show ?thesis using Nil V by (simp add: GetFreeFrame_def EvictPage_def Let_def)
qed

lemma FetchPage_total:
  assumes "pool_inv {} U b" "replacer b = LRUK s" "free_list b \<noteq> [] \<or> evictable_frames (replacer b) \<noteq> {}"
    "\<forall>q f. find_page q b = Some f \<longrightarrow> writable q (disk_manager b)"
    "p \<noteq> INVALID_PAGE_ID" "view b p \<noteq> None"
  shows "\<exists>b' f. FetchPage p b = (b', Some f)"
proof (cases "find_page p b")
  case (Some f)
  obtain b' r where "FetchPage p b = (b', r)" by fastforce
  with FetchPage_hit(1) [OF assms(1) Some this] show ?thesis by blast
next
  case None
  let ?a = "b\<lparr>access_count := access_count b + 1\<rparr>"
  have a: "pool_inv {} U ?a" by (rule pool_inv_access [OF assms(1)])
  have "\<exists>b' f. GetFreeFrame ?a = (b', Some f)"
    using assms(2-4) by (intro GetFreeFrame_succeeds [OF a]) auto
  then obtain b1 f where g: "GetFreeFrame ?a = (b1, Some f)" by blast
  obtain c where "view b p = Some c" using assms(6) by blast
  then have "view ?a p = Some c" using view_cong(1) [of ?a b] by simp
  then have "view b1 p = Some c" using GetFreeFrame_law(2) [OF a g] by (simp add: view_le_def)
  moreover have "find_page p b1 = None"
    using GetFreeFrame_find [OF g, of p] None by (cases "find_page p b1") auto
  ultimately have "ReadPage p (disk_manager b1) = Some c" by (simp add: view_def)
  then show ?thesis unfolding FetchPage_miss [OF None assms(5)] g by simp
qed

section \<open>Traces of a client\<close>

datatype pool_op = Fetch i32 | Change i32 "page \<Rightarrow> page" | Release i32 bool | Flush i32

fun pool_exec :: "pool_op \<Rightarrow> bpm \<Rightarrow> bpm" where
  "pool_exec (Fetch p) b = fst (FetchPage p b)"
| "pool_exec (Change p g) b = (case find_page p b of Some f \<Rightarrow> modify_page f g b | None \<Rightarrow> b)"
| "pool_exec (Release p dirty) b = fst (UnpinPage p dirty b)"
| "pool_exec (Flush p) b = fst (FlushPage p b)"

text \<open>
  The discipline of a client: it changes and releases pages it has pinned, and releases a page
  it has changed as dirty before it flushes it. \<open>U\<close> are the changed pages not released yet.
\<close>

fun disciplined :: "pool_op list \<Rightarrow> i32 set \<Rightarrow> bpm \<Rightarrow> bool" where
  "disciplined [] U b = True"
| "disciplined (Fetch p # ops) U b = disciplined ops U (pool_exec (Fetch p) b)"
| "disciplined (Change p g # ops) U b = (0 < pins b p \<and> disciplined ops (insert p U) (pool_exec (Change p g) b))"
| "disciplined (Release p dirty # ops) U b =
     (0 < pins b p \<and> (dirty \<or> p \<notin> U) \<and> disciplined ops (U - {p}) (pool_exec (Release p dirty) b))"
| "disciplined (Flush p # ops) U b = (p \<notin> U \<and> disciplined ops U (pool_exec (Flush p) b))"

text \<open>What the changes of a trace make of the contents of page \<open>p\<close>.\<close>

fun changed :: "i32 \<Rightarrow> pool_op list \<Rightarrow> page \<Rightarrow> page" where
  "changed p [] c = c"
| "changed p (Change q g # ops) c = changed p ops (if q = p then g c else c)"
| "changed p (_ # ops) c = changed p ops c"

lemma FlushPage_False:
  assumes "FlushPage p b = (b', False)" "pool_inv {} U b" shows "b' = b"
proof (cases "p = INVALID_PAGE_ID \<or> find_page p b = None")
  case True
  then show ?thesis using assms(1) by (cases "p = INVALID_PAGE_ID") (simp_all add: FlushPage_def)
next
  case False
  then obtain f where m: "find_page p b = Some f" "p \<noteq> INVALID_PAGE_ID" by auto
  obtain d ok where w: "WritePage p (fr_data (pages b ! f)) (disk_manager b) = (d, ok)" by fastforce
  have "\<not> ok" "b' = b\<lparr>disk_manager := d\<rparr>"
    using assms(1) m w by (auto simp: FlushPage_def Let_def split: if_splits bool.splits)
  then show ?thesis using device.write_fail [OF pool_invD(4) [OF assms(2)]] w by simp
qed

lemma FlushPage_any:
  assumes "pool_inv {} U b" "p \<notin> U" "FlushPage p b = (b', ok)"
  shows "pool_inv {} U b'" "view_le b b'"
proof -
  have "pool_inv {} U b' \<and> view_le b b'"
  proof (cases ok)
    case True
    then have "FlushPage p b = (b', True)" using assms(3) by simp
    from FlushPage_law(1,2) [OF assms(1) this assms(2)] show ?thesis ..
  next
    case False
    then have "FlushPage p b = (b', False)" using assms(3) by simp
    from FlushPage_False [OF this assms(1)] show ?thesis using assms(1) by simp
  qed
  then show "pool_inv {} U b'" "view_le b b'" by auto
qed

lemma trace_law:
  "pool_inv {} U b \<Longrightarrow> disciplined ops U b \<Longrightarrow> view b p = Some c \<Longrightarrow>
   view (fold pool_exec ops b) p = Some (changed p ops c)"
proof (induction ops arbitrary: U b c)
  case Nil
  then show ?case by simp
next
  case (Cons op ops)
  show ?case
  proof (cases op)
    case (Fetch q)
    obtain b1 r where f: "FetchPage q b = (b1, r)" by (cases "FetchPage q b")
    note law = FetchPage_law [OF Cons.prems(1) f]
    have "view b1 p = Some c" using law(2) Cons.prems(3) by (simp add: view_le_def)
    with Cons.IH [OF law(1)] Cons.prems(2) show ?thesis by (simp add: Fetch f)
  next
    case (Change q g)
    have pos: "0 < pins b q" using Cons.prems(2) Change by simp
    obtain f where m: "find_page q b = Some f" using pins_pos_find [OF pos] by blast
    note law = modify_page_law [OF Cons.prems(1) m pos, where g = g]
    have "view b q = Some (page_at f b)" using m by (simp add: view_def page_at_def)
    then have "view (modify_page f g b) p = Some (if q = p then g c else c)"
      using law(2) Cons.prems(3) by auto
    with Cons.IH [OF law(1)] Cons.prems(2) show ?thesis by (simp add: Change m)
  next
    case (Release q dirty)
    have pos: "0 < pins b q" "\<not> dirty \<Longrightarrow> q \<notin> U" using Cons.prems(2) Release by auto
    obtain b1 ok where r: "UnpinPage q dirty b = (b1, ok)" by (cases "UnpinPage q dirty b")
    note law = UnpinPage_law [OF Cons.prems(1) pos r]
    from Cons.IH [OF law(2)] Cons.prems(2,3) law(3) show ?thesis by (simp add: Release r)
  next
    case (Flush q)
    obtain b1 ok where r: "FlushPage q b = (b1, ok)" by (cases "FlushPage q b")
    have "q \<notin> U" using Cons.prems(2) Flush by simp
    note law = FlushPage_any [OF Cons.prems(1) this r]
    have "view b1 p = Some c" using law(2) Cons.prems(3) by (simp add: view_le_def)
    with Cons.IH [OF law(1)] Cons.prems(2) show ?thesis by (simp add: Flush r)
  qed
qed

section \<open>A concrete pool\<close>

text \<open>Two frames under LRU-2 over the file of \<open>demo_disk2\<close>, which has one data page in use.\<close>

definition demo_page_id :: i32 where "demo_page_id = MakePageId 0 1"

definition demo_pool :: bpm where
  "demo_pool = BufferPoolManager 2 demo_disk2 (LRUK (LRUKReplacer 2))"

lemma demo_pool_inv: "pool_inv {} {} demo_pool"
  unfolding demo_pool_def by (rule pool_inv_initial) (simp_all add: demo_disk2_facts)

lemma demo_page_id_valid: "demo_page_id \<noteq> INVALID_PAGE_ID"
  by (simp add: demo_page_id_def MakePageId_INVALID)

lemma demo_pool_files: "files_ok (\<lambda>_. []) demo_pool"
proof -
  have "GetFileEntry fid demo_disk2 \<noteq> None \<Longrightarrow> file_wf demo_disk2 fid []" for fid
  proof -
    assume a: "GetFileEntry fid demo_disk2 \<noteq> None"
    have "GetFileEntry fid demo_disk2 = GetFileEntry fid demo_disk" if "fid \<noteq> 0"
      using AllocatePage_others(1) [OF demo_disk_facts(1) demo_disk2_alloc that] .
    moreover have "GetFileEntry fid demo_disk = None" if "fid \<noteq> 0"
      using that by (simp add: demo_disk_def CreateFile_def fresh_disk_def register_def Let_def files_put_def
          GetFileEntry_def)
    ultimately have "fid = 0" using a by metis
    then show ?thesis using demo_disk2_facts(2) by simp
  qed
  then show ?thesis by (simp add: files_ok_def demo_pool_def BufferPoolManager_def find_page_def)
qed

lemma demo_in_use: "in_use (\<lambda>_. []) demo_disk2 demo_page_id"
  using demo_disk2_facts(2,3) by (auto simp: in_use_def demo_page_id_def file_wf_def split: option.splits)

lemma demo_view: "view demo_pool demo_page_id = Some zero_page"
  using demo_disk2_zero
  by (simp add: view_def demo_pool_def BufferPoolManager_def find_page_def demo_page_id_def)

lemma demo_fetch: "\<exists>b f. FetchPage demo_page_id demo_pool = (b, Some f)"
  using demo_disk2_zero demo_page_id_valid
  by (simp add: FetchPage_miss demo_pool_def BufferPoolManager_def find_page_def GetFreeFrame_def
      demo_page_id_def numeral_2_eq_2)

section \<open>Properties\<close>

text \<open>C7: \<open>FetchPage\<close> keeps the pool's invariant and shows every client the same pages as before.
  When it returns a frame, that frame holds the current contents of the page asked for, whose
  pin count alone has grown by one; pages in use stay where they are: no pinned page is evicted.\<close>

theorem fetch_page_correct:
  assumes "pool_inv {} U b" "FetchPage p b = (b', r)"
  shows "pool_inv {} U b' \<and> (\<forall>q c. view b q = Some c \<longrightarrow> view b' q = Some c) \<and>
    (\<forall>q. 0 < pins b q \<longrightarrow> (\<exists>f. find_page q b' = Some f \<and> find_page q b = Some f)) \<and>
    (case r of None \<Rightarrow> pins b' = pins b
     | Some f \<Rightarrow> pins b' = (pins b)(p := pins b p + 1) \<and> find_page p b' = Some f \<and>
         view b' p = Some (page_at f b'))"
proof -
  note law = FetchPage_law [OF assms]
  have "\<exists>f. find_page q b' = Some f \<and> find_page q b = Some f" if q: "0 < pins b q" for q
  proof -
    have "0 < pins b' q" using law(4) q by (auto split: option.splits)
    then obtain f where f: "find_page q b' = Some f" using pins_pos_find by blast
    obtain g where "find_page q b = Some g" using pins_pos_find [OF q] by blast
    with f show ?thesis using FetchPage_find [OF assms(1,2)] by metis
  qed
  then show ?thesis using law by (auto simp: view_le_def split: option.splits)
qed

theorem fetch_page_correct_witness:
  "\<exists>b f. FetchPage demo_page_id demo_pool = (b, Some f) \<and> page_at f b = zero_page \<and> pins b demo_page_id = 1"
proof -
  from demo_fetch obtain b f where f: "FetchPage demo_page_id demo_pool = (b, Some f)" by blast
  have "pins demo_pool demo_page_id = 0"
    by (simp add: pins_def demo_pool_def BufferPoolManager_def find_page_def)
  with fetch_page_correct [OF demo_pool_inv f] demo_view f show ?thesis by auto
qed

text \<open>C8: a client that changes only pages it has pinned, and releases what it has changed as
  dirty, sees the pool as plain memory: whatever is fetched, evicted and flushed in between, the
  contents of a page after any trace of operations are its initial contents with the changes the
  trace made to it.\<close>

theorem pool_transparent:
  assumes "pool_inv {} U b" "disciplined ops U b" "view b p = Some c"
  shows "view (fold pool_exec ops b) p = Some (changed p ops c)"
  by (rule trace_law [OF assms])

definition stamp :: "page \<Rightarrow> page" where "stamp c = mem_write c 100 [7]"

lemma demo_disciplined:
  "disciplined [Fetch demo_page_id, Change demo_page_id stamp, Release demo_page_id True] {} demo_pool"
proof -
  from demo_fetch obtain b f where f: "FetchPage demo_page_id demo_pool = (b, Some f)" by blast
  note law = FetchPage_law [OF demo_pool_inv f]
  have m: "find_page demo_page_id b = Some f" using law(5) by simp
  have "pins demo_pool demo_page_id = 0"
    by (simp add: pins_def demo_pool_def BufferPoolManager_def find_page_def)
  then have pos: "0 < pins b demo_page_id" using law(4) by simp
  show ?thesis using pos modify_page_law(3) [OF law(1) m pos, of stamp] by (simp add: f m)
qed

theorem pool_transparent_witness:
  "view (fold pool_exec [Fetch demo_page_id, Change demo_page_id stamp, Release demo_page_id True] demo_pool)
     demo_page_id = Some (stamp zero_page)"
  using pool_transparent [OF demo_pool_inv demo_disciplined demo_view] by simp

text \<open>C9: \<open>NewPage\<close> returns a page that was in use nowhere, pinned once and zeroed; every page in
  use keeps its contents, and the files of the pool stay in order with exactly that page added.\<close>

theorem new_page_fresh:
  assumes "pool_inv {} U b" "files_ok fls b" "GetFileEntry fid (disk_manager b) \<noteq> None"
    "fls fid = [] \<longrightarrow> GetNumPages fid (disk_manager b) \<noteq> - 1" "NewPage fid b = Some (b', pid, Some f)"
  shows "GetFileId pid = fid \<and> \<not> in_use fls (disk_manager b) pid \<and> pool_inv {} (insert pid U) b' \<and>
    files_ok (fls(fid := tl (fls fid))) b' \<and> view b' pid = Some zero_page \<and> pins b' = (pins b)(pid := 1) \<and>
    (\<forall>q. in_use (fls(fid := tl (fls fid))) (disk_manager b') q \<longleftrightarrow> q = pid \<or> in_use fls (disk_manager b) q) \<and>
    (\<forall>q c. in_use fls (disk_manager b) q \<longrightarrow> view b q = Some c \<longrightarrow> view b' q = Some c)"
  using NewPage_law [OF assms] by blast

theorem new_page_fresh_witness:
  "\<exists>b pid f. NewPage 0 demo_pool = Some (b, pid, Some f) \<and> GetFileId pid = 0 \<and> pid \<noteq> demo_page_id \<and>
    view b pid = Some zero_page"
proof -
  have d: "disk_manager demo_pool = demo_disk2" by (simp add: demo_pool_def BufferPoolManager_def)
  have e: "GetFileEntry 0 (disk_manager demo_pool) \<noteq> None"
    using demo_disk2_facts(2) by (auto simp: d file_wf_def split: option.splits)
  have n: "GetNumPages 0 (disk_manager demo_pool) \<noteq> - 1" using demo_disk2_pages by (simp add: d)
  from allocate_grow_law [OF demo_disk2_facts(1,2)] n obtain d' where
    "AllocatePage 0 demo_disk2 = Some (d', MakePageId 0 (GetNumPages 0 demo_disk2))" by (auto simp: d)
  then obtain b pid f where r: "NewPage 0 demo_pool = Some (b, pid, Some f)"
    by (auto simp: NewPage_def demo_pool_def BufferPoolManager_def GetFreeFrame_def MakePageId_INVALID
        numeral_2_eq_2)
  from new_page_fresh [OF demo_pool_inv demo_pool_files e _ r] n
  have "GetFileId pid = 0" "\<not> in_use (\<lambda>_. []) (disk_manager demo_pool) pid" "view b pid = Some zero_page" by auto
  then show ?thesis using r demo_in_use d by auto
qed

text \<open>when \<open>FlushPage\<close> reports success for a page without unsaved changes, the disk holds what
  the clients see of it, and no page looks different afterwards.\<close>

theorem flush_page_durable:
  assumes "pool_inv {} U b" "p \<notin> U" "FlushPage p b = (b', True)"
  shows "pool_inv {} U b' \<and> ReadPage p (disk_manager b') = view b p \<and> view b p \<noteq> None \<and>
    (\<forall>q c. view b q = Some c \<longrightarrow> view b' q = Some c) \<and> pins b' = pins b"
  using FlushPage_law [OF assms(1,3,2)] by (auto simp: view_le_def)

lemma demo_fetch_clean:
  "\<exists>b. FetchPage demo_page_id demo_pool = (b, Some 0) \<and> FlushPage demo_page_id b = (b, True)"
  using demo_disk2_zero demo_page_id_valid
  by (simp add: FetchPage_miss demo_pool_def BufferPoolManager_def find_page_def GetFreeFrame_def
      demo_page_id_def numeral_2_eq_2 install_def FlushPage_def table_put_def)

theorem flush_page_durable_witness:
  "\<exists>b b'. FetchPage demo_page_id demo_pool = (b, Some 0) \<and> FlushPage demo_page_id b = (b', True) \<and>
    ReadPage demo_page_id (disk_manager b') = Some zero_page"
proof -
  from demo_fetch_clean obtain b where b: "FetchPage demo_page_id demo_pool = (b, Some 0)"
    "FlushPage demo_page_id b = (b, True)" by blast
  note law = FetchPage_law [OF demo_pool_inv b(1)]
  have "view b demo_page_id = Some zero_page" using law(2) demo_view by (simp add: view_le_def)
  with flush_page_durable [OF law(1) _ b(2)] b show ?thesis by auto
qed

text \<open>C10: under LRU-K a fetch of a readable page succeeds as long as some frame is free or
  unpinned and the files of the cached pages can be written.\<close>

theorem fetch_page_succeeds:
  assumes "pool_inv {} U b" "replacer b = LRUK s" "free_list b \<noteq> [] \<or> evictable_frames (replacer b) \<noteq> {}"
    "\<forall>q f. find_page q b = Some f \<longrightarrow> writable q (disk_manager b)"
    "p \<noteq> INVALID_PAGE_ID" "view b p \<noteq> None"
  shows "\<exists>b' f. FetchPage p b = (b', Some f)"
  by (rule FetchPage_total [OF assms])

theorem fetch_page_succeeds_witness:
  "replacer demo_pool = LRUK (LRUKReplacer 2) \<and> (\<exists>b f. FetchPage demo_page_id demo_pool = (b, Some f))"
proof -
  have "replacer demo_pool = LRUK (LRUKReplacer 2)" "free_list demo_pool \<noteq> []" "\<And>q. find_page q demo_pool = None"
    by (simp_all add: demo_pool_def BufferPoolManager_def find_page_def)
  with fetch_page_succeeds [OF demo_pool_inv, of "LRUKReplacer 2" demo_page_id] demo_page_id_valid demo_view
  show ?thesis by simp
qed

text \<open>Under Clock the same fetch can fail with every frame unpinned: the sweep refuses while all
  reference bits are set, and the pool gives up after one sweep.\<close>

theorem clock_fetch_fails:
  assumes "pool_inv {} U b" "replacer b = Clock c" "free_list b = []" "find_page p b = None"
    "\<forall>f \<in> clock_set c. ref_bit (frames c ! f)"
  shows "\<exists>b'. FetchPage p b = (b', None)"
proof (cases "p = INVALID_PAGE_ID")
  case True
  then show ?thesis by (simp add: FetchPage_def)
next
  case False
  have "clock_inv c" using pool_invD(2) [OF assms(1)] assms(2) by (simp add: replacer_ok_def)
  from clock_refuses [OF this assms(5)] obtain c' where v: "clock_victim c = (c', None)" by blast
  show ?thesis
    using assms(2,3) v by (simp add: FetchPage_miss [OF assms(4) False] GetFreeFrame_def EvictPage_def)
qed

text \<open>A pool of one frame under Clock, whose page has been fetched and released.\<close>

definition clock_pool :: bpm where
  "clock_pool = fst (UnpinPage demo_page_id False
     (fst (FetchPage demo_page_id (BufferPoolManager 1 demo_disk2 (Clock (ClockReplacer 1))))))"

lemma clock_pool_facts:
  "pool_inv {} {} clock_pool" "replacer clock_pool = Clock (clock_unpin 0 (clock_pin 0 (ClockReplacer 1)))"
  "free_list clock_pool = []" "find_page (MakePageId 0 2) clock_pool = None"
proof -
  let ?b = "BufferPoolManager 1 demo_disk2 (Clock (ClockReplacer 1))"
  have i0: "pool_inv {} {} ?b" by (rule pool_inv_initial) (simp_all add: demo_disk2_facts)
  obtain b r where f: "FetchPage demo_page_id ?b = (b, r)" by fastforce
  have b: "b = install 0 demo_page_id zero_page (?b\<lparr>free_list := [], access_count := 1\<rparr>)" "r = Some 0"
    using f demo_disk2_zero demo_page_id_valid
    by (simp_all add: FetchPage_miss BufferPoolManager_def find_page_def GetFreeFrame_def demo_page_id_def)
  note law = FetchPage_law [OF i0 f]
  have pos: "0 < pins b demo_page_id" using law(4) b(2) by (simp add: pins_def BufferPoolManager_def find_page_def)
  obtain b2 ok where u: "UnpinPage demo_page_id False b = (b2, ok)" by fastforce
  have c: "clock_pool = b2" unfolding clock_pool_def f fst_conv u ..
  show "pool_inv {} {} clock_pool" using UnpinPage_law(2) [OF law(1) pos _ u] by (simp add: c)
  have "replacer b2 = Clock (clock_unpin 0 (clock_pin 0 (ClockReplacer 1))) \<and> free_list b2 = [] \<and>
      find_page (MakePageId 0 2) b2 = None"
    using u demo_page_id_valid
    by (simp add: UnpinPage_def b(1) install_def BufferPoolManager_def find_page_def empty_frame_def Let_def
        table_put_def table_erase_def demo_page_id_def set_frame_def split: if_splits) auto
  then show "replacer clock_pool = Clock (clock_unpin 0 (clock_pin 0 (ClockReplacer 1)))"
    "free_list clock_pool = []" "find_page (MakePageId 0 2) clock_pool = None" by (simp_all add: c)
qed

theorem clock_fetch_fails_witness:
  "evictable_frames (replacer clock_pool) = {0} \<and> (\<exists>b. FetchPage (MakePageId 0 2) clock_pool = (b, None))"
proof -
  have e: "frames (clock_unpin 0 (clock_pin 0 (ClockReplacer 1))) = [\<lparr>evictable = True, ref_bit = True\<rparr>]"
    "num_frames (clock_unpin 0 (clock_pin 0 (ClockReplacer 1))) = 1"
    by (simp_all add: clock_unpin_def clock_pin_def ClockReplacer_def)
  then have s: "clock_set (clock_unpin 0 (clock_pin 0 (ClockReplacer 1))) = {0}" by (auto simp: clock_set_def)
  with clock_fetch_fails [OF clock_pool_facts] e(1) show ?thesis by (simp add: clock_pool_facts(2))
qed

end
