(* ===== verification/Float64.thy ===== *)
theory Float64
  imports Prelude
begin

text \<open>
  C++ \<open>double\<close> as the source uses it: IEEE 754 binary64 values, kept as their 64-bit pattern,
  with comparison, conversion from and to \<open>int64_t\<close>, and rounding of a fraction to the
  nearest value (ties to even). The value of a finite pattern is the integer \<open>f64_scaled\<close> in
  units of \<open>2 ^ -1074\<close>, so that comparison is comparison of integers.
\<close>

type_synonym f64 = i64

definition f64_sign :: "f64 \<Rightarrow> bool" where
  "f64_sign x = (unat x \<ge> 2 ^ 63)"

definition f64_exponent :: "f64 \<Rightarrow> nat" where
  "f64_exponent x = unat x div 2 ^ 52 mod 2048"

definition f64_fraction :: "f64 \<Rightarrow> nat" where
  "f64_fraction x = unat x mod 2 ^ 52"

definition f64_nan :: "f64 \<Rightarrow> bool" where
  "f64_nan x \<longleftrightarrow> f64_exponent x = 2047 \<and> f64_fraction x \<noteq> 0"

definition f64_finite :: "f64 \<Rightarrow> bool" where
  "f64_finite x \<longleftrightarrow> f64_exponent x \<noteq> 2047"

text \<open>Infinity lies above every finite value in this scale.\<close>

definition f64_magnitude :: "f64 \<Rightarrow> nat" where
  "f64_magnitude x =
     (if f64_exponent x = 0 then f64_fraction x
      else (2 ^ 52 + f64_fraction x) * 2 ^ (f64_exponent x - 1))"

definition f64_scaled :: "f64 \<Rightarrow> int" where
  "f64_scaled x = (if f64_sign x then - int (f64_magnitude x) else int (f64_magnitude x))"

definition f64_eq :: "f64 \<Rightarrow> f64 \<Rightarrow> bool" where
  "f64_eq x y \<longleftrightarrow> \<not> f64_nan x \<and> \<not> f64_nan y \<and> f64_scaled x = f64_scaled y"

definition f64_less :: "f64 \<Rightarrow> f64 \<Rightarrow> bool" where
  "f64_less x y \<longleftrightarrow> \<not> f64_nan x \<and> \<not> f64_nan y \<and> f64_scaled x < f64_scaled y"

section \<open>Rounding\<close>

fun bitlen :: "nat \<Rightarrow> nat" where
  "bitlen n = (if n = 0 then 0 else Suc (bitlen (n div 2)))"

declare bitlen.simps [simp del]

text \<open>\<open>n / d\<close> to the nearest integer, ties to even.\<close>

definition round_div :: "nat \<Rightarrow> nat \<Rightarrow> nat" where
  "round_div n d =
     (let q = n div d; r = n mod d in
      if 2 * r > d \<or> (2 * r = d \<and> odd q) then q + 1 else q)"

definition f64_pack :: "bool \<Rightarrow> nat \<Rightarrow> nat \<Rightarrow> f64" where
  "f64_pack neg m s =
     (let bits = (if m < 2 ^ 52 then m
                  else if s + 1 \<ge> 2047 then 2047 * 2 ^ 52
                  else (s + 1) * 2 ^ 52 + (m - 2 ^ 52))
      in word_of_nat (if neg then 2 ^ 63 + bits else bits))"

text \<open>The double nearest to \<open>\<plusminus> num / den\<close>.\<close>

definition f64_of_ratio :: "bool \<Rightarrow> nat \<Rightarrow> nat \<Rightarrow> f64" where
  "f64_of_ratio neg num den =
     (let n = num * 2 ^ 1074;
          s = bitlen (n div den) - 53;
          m = round_div n (den * 2 ^ s)
      in if m = 2 ^ 53 then f64_pack neg (2 ^ 52) (s + 1) else f64_pack neg m s)"

definition f64_of_int :: "int \<Rightarrow> f64" where
  "f64_of_int n = f64_of_ratio (n < 0) (nat \<bar>n\<bar>) 1"

text \<open>
  \<open>static_cast<int64_t>\<close>: truncation towards zero; out of range, infinite and NaN values are
  undefined behaviour.
\<close>

definition f64_to_int64 :: "f64 \<Rightarrow> i64 option" where
  "f64_to_int64 x =
     (let k = int (f64_magnitude x div 2 ^ 1074);
          v = (if f64_sign x then - k else k)
      in if f64_finite x \<and> - (2 ^ 63) \<le> v \<and> v < 2 ^ 63 then Some (word_of_int v) else None)"

section \<open>Facts\<close>

lemma bitlen_bounds: "n \<noteq> 0 \<Longrightarrow> 2 ^ (bitlen n - 1) \<le> n \<and> n < 2 ^ bitlen n \<and> 0 < bitlen n"
proof (induction n rule: bitlen.induct)
  case (1 n)
  show ?case
  proof (cases "n div 2 = 0")
    case True
    then have "n = 1" using 1(2) by simp
    then show ?thesis by (simp add: bitlen.simps)
  next
    case False
    then obtain k where k: "bitlen (n div 2) = Suc k" using 1 by (cases "bitlen (n div 2)") auto
    have "bitlen n = Suc (Suc k)" using 1(2) k by (subst bitlen.simps) simp
    moreover have "2 ^ k \<le> n div 2" "n div 2 < 2 ^ Suc k" using 1 False k by auto
    moreover have "n = 2 * (n div 2) + n mod 2" "n mod 2 < 2" by simp_all
    ultimately show ?thesis by (simp only: power_Suc diff_Suc_1) linarith
  qed
qed

lemma bitlen_unique: "2 ^ k \<le> n \<Longrightarrow> n < 2 ^ Suc k \<Longrightarrow> bitlen n = Suc k"
proof -
  assume a: "2 ^ k \<le> n" "n < 2 ^ Suc k"
  then have n: "n \<noteq> 0" by (metis not_exp_less_eq_0_int bot_nat_0.extremum_uniqueI power_eq_0_iff zero_neq_numeral)
  from bitlen_bounds [OF n] have b: "2 ^ (bitlen n - 1) \<le> n" "n < 2 ^ bitlen n" "0 < bitlen n" by auto
  have "k < bitlen n" using a(1) b(2) by (metis le_less_trans nat_power_less_imp_less zero_less_numeral)
  moreover have "bitlen n - 1 < Suc k" using a(2) b(1) by (metis le_less_trans nat_power_less_imp_less zero_less_numeral)
  ultimately show ?thesis using b(3) by simp
qed

lemma round_div_exact: "0 < d \<Longrightarrow> round_div (q * d) d = q"
  by (simp add: round_div_def)

lemma div_mod_parts:
  "f < B \<Longrightarrow> (k * B + f) div B = k" "f < B \<Longrightarrow> (k * B + f) mod B = f" for f B k :: nat
  by simp_all

lemma f64_parts:
  assumes "unat x = k * 2 ^ 52 + f" "f < 2 ^ 52"
  shows "f64_exponent x = k mod 2048" "f64_fraction x = f"
  unfolding f64_exponent_def f64_fraction_def assms(1) div_mod_parts [OF assms(2)] by (rule refl)+

lemma f64_pack_parts:
  assumes "2 ^ 52 \<le> m" "m < 2 ^ 53" "s + 1 < 2047"
  shows "f64_exponent (f64_pack neg m s) = s + 1" "f64_fraction (f64_pack neg m s) = m - 2 ^ 52"
    "f64_sign (f64_pack neg m s) = neg"
proof -
  let ?k = "if neg then 2048 + (s + 1) else s + 1"
  have f: "m - 2 ^ 52 < 2 ^ 52" using assms(1,2) by simp
  have "s + 1 \<le> 2046" using assms(3) by simp
  then have "(s + 1) * 2 ^ 52 \<le> 2046 * 2 ^ (52::nat)" by (rule mult_le_mono1)
  then have b: "(s + 1) * 2 ^ 52 + (m - 2 ^ 52) < 2 ^ 63" using f by simp
  have "\<not> m < 2 ^ 52" "\<not> s + 1 \<ge> 2047" using assms by simp_all
  then have w: "f64_pack neg m s = word_of_nat (if neg then 2 ^ 63 + ((s + 1) * 2 ^ 52 + (m - 2 ^ 52))
      else (s + 1) * 2 ^ 52 + (m - 2 ^ 52))"
    unfolding f64_pack_def Let_def by (simp only: if_False)
  have small: "(if neg then 2 ^ 63 + ((s + 1) * 2 ^ 52 + (m - 2 ^ 52))
      else (s + 1) * 2 ^ 52 + (m - 2 ^ 52)) < 2 ^ LENGTH(64)" using b by simp
  have u: "unat (f64_pack neg m s) = ?k * 2 ^ 52 + (m - 2 ^ 52)"
    unfolding w unat_of_nat take_bit_eq_mod mod_less [OF small] by (simp add: algebra_simps)
  note p = f64_parts [OF u f]
  have "(2048 + (s + 1)) mod 2048 = (s + 1) mod 2048" by (rule mod_add_self1)
  then have "?k mod 2048 = s + 1" using assms(3) by (cases neg) simp_all
  then show "f64_exponent (f64_pack neg m s) = s + 1" "f64_fraction (f64_pack neg m s) = m - 2 ^ 52"
    using p by (simp_all only:)
  show "f64_sign (f64_pack neg m s) = neg"
    unfolding f64_sign_def w unat_of_nat take_bit_eq_mod mod_less [OF small] using b by simp
qed

text \<open>Integers of at most 53 bits are represented exactly.\<close>

lemma bitlen_shift: "n \<noteq> 0 \<Longrightarrow> bitlen (n * 2 ^ k) = bitlen n + k"
proof -
  assume n: "n \<noteq> 0"
  from bitlen_bounds [OF n] obtain j where j: "bitlen n = Suc j" "2 ^ j \<le> n" "n < 2 ^ Suc j"
    by (cases "bitlen n") auto
  have "2 ^ (j + k) \<le> n * 2 ^ k" "n * 2 ^ k < 2 ^ Suc (j + k)"
    using j(2,3) by (simp_all add: power_add)
  from bitlen_unique [OF this] show ?thesis by (simp add: j(1))
qed

lemma f64_scaled_of_int:
  assumes "\<bar>n\<bar> < 2 ^ 53"
  shows "f64_scaled (f64_of_int n) = n * 2 ^ 1074" "\<not> f64_nan (f64_of_int n)"
proof -
  let ?a = "nat \<bar>n\<bar>"
  have "f64_scaled (f64_of_int n) = n * 2 ^ 1074 \<and> \<not> f64_nan (f64_of_int n)"
  proof (cases "n = 0")
    case True
    have "f64_of_int 0 = 0"
      by (simp add: f64_of_int_def f64_of_ratio_def Let_def bitlen.simps [of 0] round_div_def f64_pack_def)
    then show ?thesis
      using True by (simp add: f64_scaled_def f64_magnitude_def f64_exponent_def f64_fraction_def f64_sign_def f64_nan_def)
  next
    case False
    then have a: "?a \<noteq> 0" "?a < 2 ^ 53" using assms by auto
    from bitlen_bounds [OF a(1)] obtain j where j: "bitlen ?a = Suc j" "2 ^ j \<le> ?a" "?a < 2 ^ Suc j"
      by (cases "bitlen ?a") auto
    have "(2::nat) ^ j < 2 ^ 53" using j(2) a(2) by (rule le_less_trans)
    then have "j < 53" by (rule power_less_imp_less_exp [rotated]) simp
    then have j52: "j \<le> 52" by simp
    let ?m = "?a * 2 ^ (52 - j)" and ?s = "j + 1022"
    have len: "bitlen (?a * 2 ^ 1074 div 1) - 53 = ?s"
      using bitlen_shift [OF a(1), of 1074] j(1) by simp
    have m: "2 ^ 52 \<le> ?m" "?m < 2 ^ 53"
    proof -
      have "(2::nat) ^ 52 = 2 ^ j * 2 ^ (52 - j)" "(2::nat) ^ 53 = 2 ^ Suc j * 2 ^ (52 - j)"
        using j52 by (simp_all flip: power_add power_Suc del: power_Suc)
      then show "2 ^ 52 \<le> ?m" "?m < 2 ^ 53" using j(2,3) by (simp_all only: mult_le_mono1 mult_less_mono1 zero_less_power zero_less_numeral)
    qed
    have split: "?a * 2 ^ 1074 = ?m * 2 ^ ?s"
    proof -
      have "(2::nat) ^ 1074 = 2 ^ ((52 - j) + ?s)" using j52 by (intro arg_cong [where f = "power 2"]) simp
      then show ?thesis by (simp only: power_add mult.assoc)
    qed
    have r: "round_div (?a * 2 ^ 1074) (1 * 2 ^ ?s) = ?m"
      unfolding split mult_1 by (rule round_div_exact) simp
    have of_int: "f64_of_int n = f64_pack (n < 0) ?m ?s"
      unfolding f64_of_int_def f64_of_ratio_def Let_def len r using less_imp_neq [OF m(2)] by (simp only: if_False)
    have "?s + 1 < 2047" using j52 by simp
    note parts = f64_pack_parts [OF m this, of "n < 0"]
    have "f64_magnitude (f64_of_int n) = ?m * 2 ^ ?s"
      unfolding f64_magnitude_def of_int parts using m(1) by (simp only: le_add_diff_inverse diff_add_inverse2 if_False add_is_0 one_neq_zero simp_thms)
    then have "f64_magnitude (f64_of_int n) = ?a * 2 ^ 1074" by (simp only: split)
    moreover have "f64_sign (f64_of_int n) = (n < 0)" using parts(3) of_int by (simp only:)
    moreover have "f64_exponent (f64_of_int n) \<noteq> 2047" unfolding of_int parts using j52 by simp
    ultimately show ?thesis
      unfolding f64_scaled_def f64_nan_def by (cases "n < 0") (simp_all only: of_nat_mult of_nat_power int_nat_eq, simp_all)
  qed
  then show "f64_scaled (f64_of_int n) = n * 2 ^ 1074" "\<not> f64_nan (f64_of_int n)" by auto
qed

text \<open>Beyond 53 bits neighbours collapse: \<open>2 ^ 53 + 1\<close> lies half way and rounds to \<open>2 ^ 53\<close>.\<close>

lemma f64_of_int_2_53: "f64_of_int (2 ^ 53) = f64_pack False (2 ^ 52) 1075"
  and f64_of_int_2_53_1: "f64_of_int (2 ^ 53 + 1) = f64_pack False (2 ^ 52) 1075"
proof -
  have len: "bitlen (2 ^ 53 * 2 ^ 1074 div 1) - 53 = 1075" "bitlen ((2 ^ 53 + 1) * 2 ^ 1074 div 1) - 53 = 1075"
  proof -
    have "bitlen (2 ^ 53) = Suc 53" by (rule bitlen_unique) simp_all
    then show "bitlen (2 ^ 53 * 2 ^ 1074 div 1) - 53 = 1075"
      unfolding div_by_1 by (subst bitlen_shift) simp_all
    have "bitlen (2 ^ 53 + 1) = Suc 53" by (rule bitlen_unique) simp_all
    then show "bitlen ((2 ^ 53 + 1) * 2 ^ 1074 div 1) - 53 = 1075"
      unfolding div_by_1 by (subst bitlen_shift) simp_all
  qed
  have s: "(2::nat) ^ 53 * 2 ^ 1074 = 2 ^ 52 * 2 ^ 1075" "((2::nat) ^ 53 + 1) * 2 ^ 1074 = 2 ^ 52 * 2 ^ 1075 + 2 ^ 1074"
    by (simp_all only: add_mult_distrib mult_1 flip: power_add) simp_all
  have r1: "round_div (2 ^ 53 * 2 ^ 1074) (1 * 2 ^ 1075) = 2 ^ 52"
    unfolding s(1) mult_1 by (rule round_div_exact) simp
  have f: "(2::nat) ^ 1074 < 2 ^ 1075" by (rule power_strict_increasing) simp_all
  have tie: "2 * (2::nat) ^ 1074 = 2 ^ 1075" by (simp flip: power_Suc)
  have r2: "round_div ((2 ^ 53 + 1) * 2 ^ 1074) (1 * 2 ^ 1075) = 2 ^ 52"
    unfolding round_div_def s(2) mult_1 div_mod_parts [OF f] Let_def tie by simp
  have ne: "(2::nat) ^ 52 \<noteq> 2 ^ 53" by simp
  have n1: "nat \<bar>2 ^ 53\<bar> = 2 ^ 53" and n2: "nat \<bar>2 ^ 53 + 1\<bar> = 2 ^ 53 + 1" by simp_all
  have p: "((2::int) ^ 53 < 0) = False" "((2::int) ^ 53 + 1 < 0) = False" by simp_all
  show "f64_of_int (2 ^ 53) = f64_pack False (2 ^ 52) 1075"
    unfolding f64_of_int_def f64_of_ratio_def Let_def n1 p len(1) r1 using ne by (simp only: if_False)
  show "f64_of_int (2 ^ 53 + 1) = f64_pack False (2 ^ 52) 1075"
    unfolding f64_of_int_def f64_of_ratio_def Let_def n2 p len(2) r2 using ne by (simp only: if_False)
qed

text \<open>Rounding never gives a NaN.\<close>

lemma round_div_le: "n < q * d \<Longrightarrow> round_div n d \<le> q"
proof -
  assume "n < q * d"
  then have "n div d < q" by (metis div_less_iff_less_mult mult_0_right not_gr_zero not_less_zero)
  then show ?thesis by (simp add: round_div_def Let_def)
qed

lemma f64_pack_not_nan: "m < 2 ^ 53 \<Longrightarrow> \<not> f64_nan (f64_pack neg m s)"
proof -
  assume m: "m < 2 ^ 53"
  consider "m < 2 ^ 52" | "2 ^ 52 \<le> m" "s + 1 \<ge> 2047" | "2 ^ 52 \<le> m" "s + 1 < 2047" by linarith
  then show ?thesis
  proof cases
    case 1
    then have "f64_pack neg m s = word_of_nat (if neg then 2048 * 2 ^ 52 + m else 0 * 2 ^ 52 + m)"
      by (simp add: f64_pack_def)
    moreover have "(if neg then 2048 * 2 ^ 52 + m else 0 * 2 ^ 52 + m) < 2 ^ LENGTH(64)" using 1 by simp
    ultimately have "unat (f64_pack neg m s) = (if neg then 2048 else 0) * 2 ^ 52 + m"
      by (simp add: unat_of_nat take_bit_nat_eq_self_iff)
    from f64_parts(1) [OF this 1] show ?thesis by (cases neg) (simp_all add: f64_nan_def)
  next
    case 2
    then have "\<not> m < 2 ^ 52" by simp
    then have "f64_pack neg m s = word_of_nat (if neg then 2 ^ 63 + 2047 * 2 ^ 52 else 2047 * 2 ^ 52)"
      unfolding f64_pack_def Let_def using 2(2) by (simp only: if_True if_False)
    then have "unat (f64_pack neg m s) = (if neg then 4095 else 2047) * 2 ^ 52 + 0"
      by (simp add: unat_of_nat)
    from f64_parts(2) [OF this] show ?thesis by (simp add: f64_nan_def)
  next
    case 3
    from f64_pack_parts(1) [OF 3(1) m 3(2), of neg] 3(2) show ?thesis by (simp add: f64_nan_def)
  qed
qed

lemma f64_of_ratio_not_nan: "0 < den \<Longrightarrow> \<not> f64_nan (f64_of_ratio neg num den)"
proof -
  assume den: "0 < den"
  let ?n = "num * 2 ^ 1074"
  let ?v = "?n div den"
  let ?s = "bitlen ?v - 53"
  have "?v < 2 ^ (53 + ?s)"
  proof (cases "?v = 0")
    case False
    from bitlen_bounds [OF this] have "?v < 2 ^ bitlen ?v" by blast
    also have "\<dots> \<le> 2 ^ (53 + ?s)" by (rule power_increasing) simp_all
    finally show ?thesis .
  qed simp
  then have "?n < 2 ^ (53 + ?s) * den" using den by (simp only: div_less_iff_less_mult)
  then have "?n < 2 ^ 53 * (den * 2 ^ ?s)" by (simp only: power_add mult_ac)
  then have m: "round_div ?n (den * 2 ^ ?s) \<le> 2 ^ 53" by (rule round_div_le)
  show ?thesis
  proof (cases "round_div ?n (den * 2 ^ ?s) = 2 ^ 53")
    case True
    have "f64_of_ratio neg num den = f64_pack neg (2 ^ 52) (?s + 1)"
      unfolding f64_of_ratio_def Let_def True by (rule if_P) (rule refl)
    moreover have "(2::nat) ^ 52 < 2 ^ 53" by simp
    ultimately show ?thesis using f64_pack_not_nan by metis
  next
    case False
    then have "round_div ?n (den * 2 ^ ?s) < 2 ^ 53" using m by simp
    moreover have "f64_of_ratio neg num den = f64_pack neg (round_div ?n (den * 2 ^ ?s)) ?s"
      unfolding f64_of_ratio_def Let_def using False by (simp only: if_False)
    ultimately show ?thesis using f64_pack_not_nan by metis
  qed
qed

lemma f64_of_int_not_nan [simp]: "\<not> f64_nan (f64_of_int n)"
  by (simp add: f64_of_int_def f64_of_ratio_not_nan)

end
