(* ===== verification/Strings.thy ===== *)
theory Strings
  imports Float64
begin

text \<open>
  \<open>std::string\<close> as a list of bytes, and the parts of the C and C++ library the source uses on
  them: decimal output (\<open>std::to_string\<close>, the zero-padded fields of \<open>snprintf\<close>), the
  \<open>%d\<close> conversion of \<open>sscanf\<close>, \<open>std::stoll\<close> and \<open>std::stod\<close>.
\<close>

type_synonym str = "byte list"

definition ascii :: "string \<Rightarrow> str" where
  "ascii s = map of_char s"

definition is_digit :: "byte \<Rightarrow> bool" where
  "is_digit b \<longleftrightarrow> 48 \<le> b \<and> b \<le> 57"

definition is_space :: "byte \<Rightarrow> bool" where
  "is_space b \<longleftrightarrow> b = 32 \<or> (9 \<le> b \<and> b \<le> 13)"

text \<open>\<open>std::string::operator<\<close> compares as unsigned characters.\<close>

fun str_less :: "str \<Rightarrow> str \<Rightarrow> bool" where
  "str_less _ [] = False"
| "str_less [] (_ # _) = True"
| "str_less (a # as) (b # bs) = (a < b \<or> (a = b \<and> str_less as bs))"

section \<open>Decimal output\<close>

definition digit :: "nat \<Rightarrow> byte" where
  "digit n = word_of_nat (48 + n)"

fun show_nat :: "nat \<Rightarrow> str" where
  "show_nat n = (if n < 10 then [digit n] else show_nat (n div 10) @ [digit (n mod 10)])"

declare show_nat.simps [simp del]

definition show_int :: "int \<Rightarrow> str" where
  "show_int n = (if n < 0 then 45 # show_nat (nat (- n)) else show_nat (nat n))"

text \<open>\<open>%0<w>d\<close> on a non-negative number.\<close>

definition show_padded :: "nat \<Rightarrow> nat \<Rightarrow> str" where
  "show_padded w n = (let s = show_nat n in replicate (w - length s) 48 @ s)"

section \<open>Decimal input\<close>

definition digit_value :: "byte \<Rightarrow> nat" where
  "digit_value b = unat b - 48"

fun number :: "nat \<Rightarrow> byte list \<Rightarrow> nat" where
  "number acc [] = acc"
| "number acc (b # bs) = number (10 * acc + digit_value b) bs"

text \<open>Blanks, a sign, digits: what \<open>%d\<close> and \<open>stoll\<close> accept; the number and the rest of the text.\<close>

definition scan_int :: "str \<Rightarrow> (int \<times> str) option" where
  "scan_int s =
     (let s = dropWhile is_space s;
          neg = (s \<noteq> [] \<and> hd s = 45);
          s = (if s \<noteq> [] \<and> (hd s = 45 \<or> hd s = 43) then tl s else s);
          ds = takeWhile is_digit s
      in if ds = [] then None
         else Some (if neg then - int (number 0 ds) else int (number 0 ds), dropWhile is_digit s))"

text \<open>\<open>std::stoll\<close>; \<open>None\<close> is the exception it throws.\<close>

definition stoll :: "str \<Rightarrow> i64 option" where
  "stoll s =
     (case scan_int s of
        None \<Rightarrow> None
      | Some (n, _) \<Rightarrow> if - (2 ^ 63) \<le> n \<and> n < 2 ^ 63 then Some (word_of_int n) else None)"

text \<open>
  \<open>std::stod\<close> on decimal text: digits with an optional fraction and exponent, rounded to the
  nearest double. The spellings of infinity, NaN and hexadecimal floats are left out (\<open>None\<close>, as
  for the exception \<open>stod\<close> throws when it finds no number or the number is out of range).
\<close>

definition scan_exponent :: "str \<Rightarrow> int" where
  "scan_exponent s =
     (case s of
        [] \<Rightarrow> 0
      | b # s' \<Rightarrow>
          if b = 101 \<or> b = 69 then
            (if s' \<noteq> [] \<and> is_space (hd s') then 0
             else case scan_int s' of None \<Rightarrow> 0 | Some (e, _) \<Rightarrow> e)
          else 0)"

definition stod :: "str \<Rightarrow> f64 option" where
  "stod s =
     (let s = dropWhile is_space s;
          neg = (s \<noteq> [] \<and> hd s = 45);
          s = (if s \<noteq> [] \<and> (hd s = 45 \<or> hd s = 43) then tl s else s);
          ds = takeWhile is_digit s;
          s = dropWhile is_digit s;
          (fs, s) = (if s \<noteq> [] \<and> hd s = 46 then (takeWhile is_digit (tl s), dropWhile is_digit (tl s)) else ([], s));
          e = scan_exponent s - int (length fs);
          m = number 0 (ds @ fs)
      in if ds @ fs = [] then None
         else
           let r = (if e \<ge> 0 then f64_of_ratio neg (m * 10 ^ nat e) 1 else f64_of_ratio neg m (10 ^ nat (- e)))
           in if f64_finite r \<and> (f64_exponent r \<noteq> 0 \<or> m = 0) then Some r else None)"

section \<open>Facts\<close>

lemma str_less_irrefl [simp]: "\<not> str_less s s"
  by (induction s) auto

lemma str_less_trans: "str_less a b \<Longrightarrow> str_less b c \<Longrightarrow> str_less a c"
proof (induction a b arbitrary: c rule: str_less.induct)
  case (3 a as b bs)
  then show ?case by (cases c) auto
next
  case (2 b bs)
  then show ?case by (cases c) auto
qed simp

lemma str_less_total: "str_less a b \<or> a = b \<or> str_less b a"
proof (induction a arbitrary: b)
  case Nil
  then show ?case by (cases b) auto
next
  case (Cons x a)
  then show ?case by (cases b) auto
qed

lemma digit_facts:
  assumes "n < 10"
  shows "is_digit (digit n)" "digit_value (digit n) = n" "digit n \<noteq> 45" "digit n \<noteq> 43" "\<not> is_space (digit n)"
proof -
  from assms have "n \<in> {0, 1, 2, 3, 4, 5, 6, 7, 8, 9}" by auto
  then show "is_digit (digit n)" "digit_value (digit n) = n" "digit n \<noteq> 45" "digit n \<noteq> 43" "\<not> is_space (digit n)"
    by (auto simp: is_digit_def digit_def digit_value_def is_space_def)
qed

lemma number_app: "number acc (xs @ ys) = number (number acc xs) ys"
  by (induction xs arbitrary: acc) auto

lemma show_nat_digits: "show_nat n \<noteq> [] \<and> list_all is_digit (show_nat n) \<and> number 0 (show_nat n) = n"
proof (induction n rule: show_nat.induct)
  case (1 n)
  show ?case
  proof (cases "n < 10")
    case True
    then show ?thesis by (subst (1 2 3) show_nat.simps) (simp add: digit_facts)
  next
    case False
    then have s: "show_nat n = show_nat (n div 10) @ [digit (n mod 10)]" by (subst show_nat.simps) simp
    show ?thesis using 1 [OF False] digit_facts [of "n mod 10"] by (simp add: s number_app)
  qed
qed

lemma number_zeros: "number 0 (replicate k 48 @ s) = number 0 s"
  by (induction k) (simp_all add: digit_value_def)

lemma show_padded_digits:
  "show_padded w n \<noteq> [] \<and> list_all is_digit (show_padded w n) \<and> number 0 (show_padded w n) = n"
  using show_nat_digits [of n]
  by (auto simp: show_padded_def Let_def number_zeros list_all_iff is_digit_def)

lemma digit_not_special: "is_digit b \<Longrightarrow> \<not> is_space b \<and> b \<noteq> 45 \<and> b \<noteq> 43"
  by (auto simp: is_digit_def is_space_def word_le_nat_alt)

text \<open>A padded number is read back, whatever follows it.\<close>

lemma scan_int_padded:
  assumes "rest = [] \<or> \<not> is_digit (hd rest)"
  shows "scan_int (show_padded w n @ rest) = Some (int n, rest)"
proof -
  obtain b bs where p: "show_padded w n = b # bs" using show_padded_digits [of w n] by (cases "show_padded w n") auto
  have all: "list_all is_digit (b # bs)" "number 0 (b # bs) = n" using show_padded_digits [of w n] p by auto
  have b: "\<not> is_space b" "b \<noteq> 45" "b \<noteq> 43" using all digit_not_special by auto
  have t: "takeWhile is_digit (bs @ rest) = bs" "dropWhile is_digit (bs @ rest) = rest"
    using all(1) assms by (cases rest; simp add: takeWhile_append dropWhile_append list_all_iff)+
  show ?thesis using all b t by (simp add: p scan_int_def Let_def)
qed

end
