(* ===== verification/Schemas.thy ===== *)
theory Schemas
  imports Strings
begin

text \<open>
  Types, columns and schemas (type/schema.h and .cpp): sizes, lookup by name, and the byte
  format in which the catalog stores a schema. A string is a list of bytes; \<open>TypeId\<close> has an
  underlying \<open>uint8_t\<close>, so the cast of a byte without an enumerator is a value of its own.
\<close>

datatype TypeId = INVALID | BOOLEAN | TINYINT | SMALLINT | INTEGER | BIGINT | DECIMAL | TIMESTAMP
  | VARCHAR | OTHER byte

definition type_code :: "TypeId \<Rightarrow> byte" where
  "type_code t = (case t of INVALID \<Rightarrow> 0 | BOOLEAN \<Rightarrow> 1 | TINYINT \<Rightarrow> 2 | SMALLINT \<Rightarrow> 3 | INTEGER \<Rightarrow> 4
     | BIGINT \<Rightarrow> 5 | DECIMAL \<Rightarrow> 6 | TIMESTAMP \<Rightarrow> 7 | VARCHAR \<Rightarrow> 8 | OTHER b \<Rightarrow> b)"

definition type_of_code :: "byte \<Rightarrow> TypeId" where
  "type_of_code b = (if b = 0 then INVALID else if b = 1 then BOOLEAN else if b = 2 then TINYINT
     else if b = 3 then SMALLINT else if b = 4 then INTEGER else if b = 5 then BIGINT
     else if b = 6 then DECIMAL else if b = 7 then TIMESTAMP else if b = 8 then VARCHAR else OTHER b)"

definition TypeIdToString :: "TypeId \<Rightarrow> str" where
  "TypeIdToString t = ascii (case t of INVALID \<Rightarrow> ''INVALID'' | BOOLEAN \<Rightarrow> ''BOOLEAN''
     | TINYINT \<Rightarrow> ''TINYINT'' | SMALLINT \<Rightarrow> ''SMALLINT'' | INTEGER \<Rightarrow> ''INTEGER'' | BIGINT \<Rightarrow> ''BIGINT''
     | DECIMAL \<Rightarrow> ''DECIMAL'' | TIMESTAMP \<Rightarrow> ''TIMESTAMP'' | VARCHAR \<Rightarrow> ''VARCHAR'' | OTHER _ \<Rightarrow> ''UNKNOWN'')"

definition TypeIdSize :: "TypeId \<Rightarrow> nat" where
  "TypeIdSize t = (case t of BOOLEAN \<Rightarrow> 1 | TINYINT \<Rightarrow> 1 | SMALLINT \<Rightarrow> 2 | INTEGER \<Rightarrow> 4 | BIGINT \<Rightarrow> 8
     | DECIMAL \<Rightarrow> 8 | TIMESTAMP \<Rightarrow> 8 | _ \<Rightarrow> 0)"

record column =
  column_name :: str
  column_type :: TypeId
  max_length :: i32
  is_nullable :: bool
  is_primary_key :: bool

type_synonym schema = "column list"

definition GetFixedSize :: "column \<Rightarrow> nat" where
  "GetFixedSize c = TypeIdSize (column_type c)"

definition GetStorageSize :: "column \<Rightarrow> nat" where
  "GetStorageSize c = (if column_type c = VARCHAR then unat (max_length c) else TypeIdSize (column_type c))"

text \<open>\<open>Column::operator==\<close> does not compare the primary-key flag.\<close>

definition column_eq :: "column \<Rightarrow> column \<Rightarrow> bool" where
  "column_eq a b \<longleftrightarrow> column_name a = column_name b \<and> column_type a = column_type b \<and>
     max_length a = max_length b \<and> is_nullable a = is_nullable b"

definition column_to_string :: "column \<Rightarrow> str" where
  "column_to_string c = column_name c @ ascii '':'' @ TypeIdToString (column_type c) @
     (if column_type c = VARCHAR then ascii ''('' @ show_nat (unat (max_length c)) @ ascii '')'' else []) @
     (if is_nullable c then ascii '' NULL'' else ascii '' NOT NULL'')"

fun join_columns :: "schema \<Rightarrow> str" where
  "join_columns [] = []"
| "join_columns [c] = column_to_string c"
| "join_columns (c # cs) = column_to_string c @ ascii '', '' @ join_columns cs"

definition schema_to_string :: "schema \<Rightarrow> str" where
  "schema_to_string s = ascii ''Schema('' @ join_columns s @ ascii '')''"

text \<open>The loop of \<open>GetColIdx\<close>: the first column of that name, else \<open>-1\<close>.\<close>

fun col_idx_loop :: "str \<Rightarrow> nat \<Rightarrow> schema \<Rightarrow> int" where
  "col_idx_loop name i [] = -1"
| "col_idx_loop name i (c # cs) = (if column_name c = name then int i else col_idx_loop name (i + 1) cs)"

definition GetColIdx :: "str \<Rightarrow> schema \<Rightarrow> int" where
  "GetColIdx name s = col_idx_loop name 0 s"

definition HasColumn :: "str \<Rightarrow> schema \<Rightarrow> bool" where
  "HasColumn name s \<longleftrightarrow> GetColIdx name s \<ge> 0"

definition GetFixedLengthSize :: "schema \<Rightarrow> nat" where
  "GetFixedLengthSize s = sum_list (map GetFixedSize s)"

section \<open>Byte format\<close>

definition encode_column :: "column \<Rightarrow> byte list" where
  "encode_column c =
     le_enc 2 (length (column_name c) mod 65536) @ column_name c @ [type_code (column_type c)] @
     enc_word (max_length c) @ [if is_nullable c then 1 else 0] @ [if is_primary_key c then 1 else 0]"

definition schema_serialize :: "schema \<Rightarrow> byte list" where
  "schema_serialize s = le_enc 4 (length s mod 2 ^ 32) @ concat (map encode_column s)"

text \<open>
  The loop of \<open>Deserialize\<close>, which stops at the first field that would pass the end; a column
  whose last byte is missing has no primary-key flag (the older format).
\<close>

fun decode_columns :: "nat \<Rightarrow> byte list \<Rightarrow> schema" where
  "decode_columns 0 d = []"
| "decode_columns (Suc k) d =
     (if length d < 2 then []
      else
        let name_len = le_dec (take 2 d); d = drop 2 d in
        if length d < name_len then []
        else
          let name = take name_len d; d = drop name_len d in
          if length d < 1 then []
          else
            let type = type_of_code (hd d); d = drop 1 d in
            if length d < 4 then []
            else
              let max_len = dec_word (take 4 d); d = drop 4 d in
              if length d < 1 then []
              else
                let nullable = (hd d \<noteq> 0);
                    d = drop 1 d;
                    is_pk = (d \<noteq> [] \<and> hd d \<noteq> 0);
                    d = drop 1 d
                in \<lparr>column_name = name, column_type = type, max_length = max_len, is_nullable = nullable,
                     is_primary_key = is_pk\<rparr> # decode_columns k d)"

definition schema_deserialize :: "byte list \<Rightarrow> schema" where
  "schema_deserialize d = (if length d < 4 then [] else decode_columns (le_dec (take 4 d)) (drop 4 d))"

section \<open>Facts\<close>

lemma type_of_code_code: "type_of_code (type_code t) = t" if "\<And>b. t = OTHER b \<Longrightarrow> 8 < b"
  using that by (cases t) (auto simp: type_of_code_def type_code_def)

lemma type_code_of_code: "type_code (type_of_code b) = b"
  by (simp add: type_of_code_def type_code_def)

definition column_ok :: "column \<Rightarrow> bool" where
  "column_ok c \<longleftrightarrow> length (column_name c) < 65536 \<and> (\<forall>b. column_type c = OTHER b \<longrightarrow> 8 < b)"

lemma decode_encode_column:
  assumes "column_ok c"
  shows "decode_columns (Suc k) (encode_column c @ rest) = c # decode_columns k rest"
proof -
  have len: "length (column_name c) < 65536" and t: "type_of_code (type_code (column_type c)) = column_type c"
    using assms type_of_code_code by (auto simp: column_ok_def)
  have "le_dec (take 2 (encode_column c @ rest)) = length (column_name c)"
    using len by (simp add: encode_column_def)
  then show ?thesis
    using len t by (simp add: encode_column_def Let_def)
qed

lemma decode_encode_columns:
  "\<forall>c \<in> set s. column_ok c \<Longrightarrow> decode_columns (length s) (concat (map encode_column s) @ rest) = s"
proof (induction s)
  case Nil
  then show ?case by simp
next
  case (Cons c s)
  then show ?case by (simp add: decode_encode_column del: decode_columns.simps)
qed

lemma col_idx_loop_found:
  "col_idx_loop name i s =
    (if name \<in> column_name ` set s then int i + int (length (takeWhile (\<lambda>c. column_name c \<noteq> name) s)) else -1)"
  by (induction s arbitrary: i) auto

section \<open>Properties\<close>

text \<open>C11: \<open>Schema::Deserialize\<close> reads back exactly the schema that \<open>Schema::Serialize\<close> wrote, also
  when more bytes follow, as long as every column name fits its 16-bit length field.\<close>

theorem schema_roundtrip:
  assumes "\<forall>c \<in> set s. column_ok c" "length s < 2 ^ 32"
  shows "schema_deserialize (schema_serialize s @ rest) = s"
  using decode_encode_columns [OF assms(1), of rest] assms(2)
  by (simp add: schema_deserialize_def schema_serialize_def)

definition demo_schema :: schema where
  "demo_schema =
     [\<lparr>column_name = ascii ''id'', column_type = INTEGER, max_length = 0, is_nullable = False, is_primary_key = True\<rparr>,
      \<lparr>column_name = ascii ''name'', column_type = VARCHAR, max_length = 20, is_nullable = True, is_primary_key = False\<rparr>]"

theorem schema_roundtrip_witness:
  "schema_deserialize (schema_serialize demo_schema @ [1, 2, 3]) = demo_schema"
  by (rule schema_roundtrip) (auto simp: demo_schema_def column_ok_def ascii_def)

end
