(* ===== verification/Values.thy ===== *)
theory Values
  imports Schemas
begin

text \<open>
  SQL values (type/value.h and .cpp): the tagged union, comparison with numeric promotion to
  \<open>double\<close>, printing, the byte format, and the conversion between timestamps and their text.
  \<open>None\<close> is a failing \<open>GOODS_DB_ASSERT\<close>, undefined behaviour (an \<open>int\<close> that overflows, an array
  index out of range) or an exception.
\<close>

datatype Value = VInvalid | VBoolean bool | VTinyInt byte | VSmallInt i16 | VInteger i32
  | VBigInt i64 | VDecimal f64 | VTimestamp i64 | VVarchar str

definition GetTypeId :: "Value \<Rightarrow> TypeId" where
  "GetTypeId v = (case v of VInvalid \<Rightarrow> INVALID | VBoolean _ \<Rightarrow> BOOLEAN | VTinyInt _ \<Rightarrow> TINYINT
     | VSmallInt _ \<Rightarrow> SMALLINT | VInteger _ \<Rightarrow> INTEGER | VBigInt _ \<Rightarrow> BIGINT | VDecimal _ \<Rightarrow> DECIMAL
     | VTimestamp _ \<Rightarrow> TIMESTAMP | VVarchar _ \<Rightarrow> VARCHAR)"

text \<open>The accessors assert the type.\<close>

definition GetAsBoolean :: "Value \<Rightarrow> bool option" where
  "GetAsBoolean v = (case v of VBoolean b \<Rightarrow> Some b | _ \<Rightarrow> None)"

definition GetAsTinyInt :: "Value \<Rightarrow> byte option" where
  "GetAsTinyInt v = (case v of VTinyInt n \<Rightarrow> Some n | _ \<Rightarrow> None)"

definition GetAsSmallInt :: "Value \<Rightarrow> i16 option" where
  "GetAsSmallInt v = (case v of VSmallInt n \<Rightarrow> Some n | _ \<Rightarrow> None)"

definition GetAsInteger :: "Value \<Rightarrow> i32 option" where
  "GetAsInteger v = (case v of VInteger n \<Rightarrow> Some n | _ \<Rightarrow> None)"

definition GetAsBigInt :: "Value \<Rightarrow> i64 option" where
  "GetAsBigInt v = (case v of VBigInt n \<Rightarrow> Some n | _ \<Rightarrow> None)"

definition GetAsDecimal :: "Value \<Rightarrow> f64 option" where
  "GetAsDecimal v = (case v of VDecimal x \<Rightarrow> Some x | _ \<Rightarrow> None)"

definition GetAsTimestamp :: "Value \<Rightarrow> i64 option" where
  "GetAsTimestamp v = (case v of VTimestamp t \<Rightarrow> Some t | _ \<Rightarrow> None)"

definition GetAsVarchar :: "Value \<Rightarrow> str option" where
  "GetAsVarchar v = (case v of VVarchar s \<Rightarrow> Some s | _ \<Rightarrow> None)"

text \<open>The promotion rank of the numeric types.\<close>

definition NumericRank :: "TypeId \<Rightarrow> nat" where
  "NumericRank t = (case t of TINYINT \<Rightarrow> 1 | SMALLINT \<Rightarrow> 2 | INTEGER \<Rightarrow> 3 | BIGINT \<Rightarrow> 4 | DECIMAL \<Rightarrow> 5 | _ \<Rightarrow> 0)"

section \<open>Comparison\<close>

definition IsNumericType :: "TypeId \<Rightarrow> bool" where
  "IsNumericType t \<longleftrightarrow> t = TINYINT \<or> t = SMALLINT \<or> t = INTEGER \<or> t = BIGINT \<or> t = DECIMAL"

definition ToDouble :: "Value \<Rightarrow> f64" where
  "ToDouble v = (case v of VTinyInt n \<Rightarrow> f64_of_int (sint n) | VSmallInt n \<Rightarrow> f64_of_int (sint n)
     | VInteger n \<Rightarrow> f64_of_int (sint n) | VBigInt n \<Rightarrow> f64_of_int (sint n) | VDecimal x \<Rightarrow> x | _ \<Rightarrow> 0)"

definition value_eq :: "Value \<Rightarrow> Value \<Rightarrow> bool" where
  "value_eq a b =
     (if IsNumericType (GetTypeId a) \<and> IsNumericType (GetTypeId b) then f64_eq (ToDouble a) (ToDouble b)
      else if GetTypeId a \<noteq> GetTypeId b then False
      else
        (case (a, b) of
           (VInvalid, VInvalid) \<Rightarrow> True
         | (VBoolean x, VBoolean y) \<Rightarrow> x = y
         | (VTimestamp x, VTimestamp y) \<Rightarrow> x = y
         | (VVarchar x, VVarchar y) \<Rightarrow> x = y
         | _ \<Rightarrow> False))"

definition value_less :: "Value \<Rightarrow> Value \<Rightarrow> bool option" where
  "value_less a b =
     (if IsNumericType (GetTypeId a) \<and> IsNumericType (GetTypeId b)
      then Some (f64_less (ToDouble a) (ToDouble b))
      else if GetTypeId a \<noteq> GetTypeId b then None
      else Some
        (case (a, b) of
           (VBoolean x, VBoolean y) \<Rightarrow> \<not> x \<and> y
         | (VTimestamp x, VTimestamp y) \<Rightarrow> sint x < sint y
         | (VVarchar x, VVarchar y) \<Rightarrow> str_less x y
         | _ \<Rightarrow> False))"

section \<open>Timestamps\<close>

definition is_leap :: "nat \<Rightarrow> bool" where
  "is_leap y \<longleftrightarrow> (y mod 4 = 0 \<and> y mod 100 \<noteq> 0) \<or> y mod 400 = 0"

definition year_length :: "nat \<Rightarrow> nat" where
  "year_length y = (if is_leap y then 366 else 365)"

definition days_before_month :: "nat list" where
  "days_before_month = [0, 31, 59, 90, 120, 151, 181, 212, 243, 273, 304, 334]"

text \<open>\<open>sscanf\<close> with \<open>%d-%d-%d %d:%d:%d\<close>: the fields converted before the first mismatch.\<close>

fun scan_fields :: "byte list \<Rightarrow> str \<Rightarrow> int list" where
  "scan_fields seps s =
     (case scan_int s of
        None \<Rightarrow> []
      | Some (n, rest) \<Rightarrow> n #
          (case seps of
             [] \<Rightarrow> []
           | sep # seps' \<Rightarrow>
               if sep = 32 then scan_fields seps' (dropWhile is_space rest)
               else if rest \<noteq> [] \<and> hd rest = sep then scan_fields seps' (tl rest)
               else []))"

declare scan_fields.simps [simp del]

definition field :: "int list \<Rightarrow> nat \<Rightarrow> int \<Rightarrow> int" where
  "field fs i d = (if i < length fs then fs ! i else d)"

definition int32_ok :: "int \<Rightarrow> bool" where
  "int32_ok n \<longleftrightarrow> - (2 ^ 31) \<le> n \<and> n < 2 ^ 31"

text \<open>The days of the years from 1970 to \<open>1970 + k - 1\<close>.\<close>

fun days_of_years :: "nat \<Rightarrow> nat" where
  "days_of_years 0 = 0"
| "days_of_years (Suc k) = days_of_years k + year_length (1970 + k)"

definition ParseTimestamp :: "str \<Rightarrow> i64 option" where
  "ParseTimestamp str =
     (if str = [] then Some 0
      else
        let fs = scan_fields [45, 45, 32, 58, 58] (takeWhile (\<lambda>b. b \<noteq> 0) str);
            year = field fs 0 0; month = field fs 1 1; day = field fs 2 1;
            hour = field fs 3 0; minute = field fs 4 0; sec = field fs 5 0
        in if \<not> list_all int32_ok fs then None
           else if year < 1970 then Some 0
           else if month < 1 \<or> 12 < month then None
           else
             let days = int (days_of_years (nat year - 1970));
                 days = days + int (days_before_month ! (nat month - 1));
                 days = (if month > 2 \<and> is_leap (nat year) then days + 1 else days)
             in if int32_ok (day - 1) \<and> int32_ok (hour * 3600) \<and> int32_ok (minute * 60)
                then Some (word_of_int ((days + (day - 1)) * 86400 + hour * 3600 + minute * 60 + sec))
                else None)"

function year_loop :: "nat \<Rightarrow> nat \<Rightarrow> nat \<times> nat" where
  "year_loop days year =
     (if days < year_length year then (days, year) else year_loop (days - year_length year) (year + 1))"
  by pat_completeness auto
termination by (relation "measure fst") (auto simp: year_length_def)

declare year_loop.simps [simp del]

definition month_length :: "nat \<Rightarrow> nat \<Rightarrow> nat" where
  "month_length year month =
     (if month = 2 then (if is_leap year then 29 else 28)
      else if month = 4 \<or> month = 6 \<or> month = 9 \<or> month = 11 then 30 else 31)"

function month_loop :: "nat \<Rightarrow> nat \<Rightarrow> nat \<Rightarrow> nat \<times> nat" where
  "month_loop year days month =
     (if month \<le> 12 then
        if days < month_length year month then (days, month)
        else month_loop year (days - month_length year month) (month + 1)
      else (days, month))"
  by pat_completeness auto
termination by (relation "measure (\<lambda>(_, _, m). 13 - m)") auto

declare month_loop.simps [simp del]

definition FormatTimestamp :: "i64 \<Rightarrow> str option" where
  "FormatTimestamp epoch =
     (if sint epoch \<le> 0 then Some (ascii ''1970-01-01 00:00:00'')
      else
        let remaining = nat (sint epoch);
            second = remaining mod 60; remaining = remaining div 60;
            minute = remaining mod 60; remaining = remaining div 60;
            hour = remaining mod 24; days = remaining div 24;
            (days, year) = year_loop days 1970;
            (days, month) = month_loop year days 1;
            day = days + 1
        in if year \<ge> 2 ^ 31 then None
           else Some (show_padded 4 year @ [45] @ show_padded 2 month @ [45] @ show_padded 2 day @ [32] @
                  show_padded 2 hour @ [58] @ show_padded 2 minute @ [58] @ show_padded 2 second))"

section \<open>Printing\<close>

text \<open>\<open>std::to_string(double)\<close>: six decimals, rounded half to even on the exact value.\<close>

definition show_f64 :: "f64 \<Rightarrow> str" where
  "show_f64 x =
     (let sign = (if f64_sign x then [45] else []) in
      if f64_nan x then sign @ ascii ''nan''
      else if \<not> f64_finite x then sign @ ascii ''inf''
      else let n = round_div (f64_magnitude x * 10 ^ 6) (2 ^ 1074)
           in sign @ show_nat (n div 10 ^ 6) @ [46] @ show_padded 6 (n mod 10 ^ 6))"

definition value_to_string :: "Value \<Rightarrow> str option" where
  "value_to_string v =
     (case v of
        VInvalid \<Rightarrow> Some (ascii ''NULL'')
      | VBoolean b \<Rightarrow> Some (if b then ascii ''true'' else ascii ''false'')
      | VTinyInt n \<Rightarrow> Some (show_int (sint n))
      | VSmallInt n \<Rightarrow> Some (show_int (sint n))
      | VInteger n \<Rightarrow> Some (show_int (sint n))
      | VBigInt n \<Rightarrow> Some (show_int (sint n))
      | VDecimal x \<Rightarrow> Some (show_f64 x)
      | VTimestamp t \<Rightarrow> map_option (\<lambda>s. [39] @ s @ [39]) (FormatTimestamp t)
      | VVarchar s \<Rightarrow> Some ([39] @ s @ [39]))"

section \<open>Byte format\<close>

definition GetSerializedSize :: "Value \<Rightarrow> nat" where
  "GetSerializedSize v =
     (case v of VVarchar s \<Rightarrow> (4 + length s) mod 2 ^ 32 | _ \<Rightarrow> TypeIdSize (GetTypeId v))"

text \<open>The bytes \<open>SerializeTo\<close> writes to its buffer.\<close>

definition SerializeTo :: "Value \<Rightarrow> byte list" where
  "SerializeTo v =
     (case v of
        VInvalid \<Rightarrow> []
      | VBoolean b \<Rightarrow> [if b then 1 else 0]
      | VTinyInt n \<Rightarrow> [n]
      | VSmallInt n \<Rightarrow> enc_word n
      | VInteger n \<Rightarrow> enc_word n
      | VBigInt n \<Rightarrow> enc_word n
      | VDecimal x \<Rightarrow> enc_word x
      | VTimestamp t \<Rightarrow> enc_word t
      | VVarchar s \<Rightarrow> le_enc 4 (length s mod 2 ^ 32) @ take (length s mod 2 ^ 32) s)"

text \<open>\<open>DeserializeFrom\<close> on the bytes of the buffer: the value and the bytes read. A type byte
  without an enumerator is read as \<open>INVALID\<close>.\<close>

definition DeserializeFrom :: "byte list \<Rightarrow> TypeId \<Rightarrow> (Value \<times> nat) option" where
  "DeserializeFrom buf type =
     (let fixed = (\<lambda>n mk. if length buf < n then None else Some (mk (take n buf), n)) in
      case type of
        BOOLEAN \<Rightarrow> fixed 1 (\<lambda>b. VBoolean (hd b \<noteq> 0))
      | TINYINT \<Rightarrow> fixed 1 (\<lambda>b. VTinyInt (hd b))
      | SMALLINT \<Rightarrow> fixed 2 (\<lambda>b. VSmallInt (dec_word b))
      | INTEGER \<Rightarrow> fixed 4 (\<lambda>b. VInteger (dec_word b))
      | BIGINT \<Rightarrow> fixed 8 (\<lambda>b. VBigInt (dec_word b))
      | DECIMAL \<Rightarrow> fixed 8 (\<lambda>b. VDecimal (dec_word b))
      | TIMESTAMP \<Rightarrow> fixed 8 (\<lambda>b. VTimestamp (dec_word b))
      | VARCHAR \<Rightarrow>
          (if length buf < 4 then None
           else let len = le_dec (take 4 buf) in
             if length buf < 4 + len then None
             else Some (VVarchar (take len (drop 4 buf)), (4 + len) mod 2 ^ 32))
      | _ \<Rightarrow> Some (VInvalid, 0))"

section \<open>Facts\<close>

lemma serialize_roundtrip:
  assumes "v \<noteq> VInvalid" "\<And>s. v = VVarchar s \<Longrightarrow> length s < 2 ^ 32 - 4"
  shows "DeserializeFrom (SerializeTo v @ rest) (GetTypeId v) = Some (v, GetSerializedSize v)"
  using assms
  by (cases v) (simp_all add: DeserializeFrom_def SerializeTo_def GetTypeId_def GetSerializedSize_def
      TypeIdSize_def)

section \<open>Calendar\<close>

text \<open>The days of the months before \<open>m\<close>, as \<open>ParseTimestamp\<close> counts them.\<close>

definition days_before :: "nat \<Rightarrow> nat \<Rightarrow> nat" where
  "days_before year m = days_before_month ! (m - 1) + (if m > 2 \<and> is_leap year then 1 else 0)"

lemma days_before_Suc:
  assumes "1 \<le> m" "m < 12" shows "days_before year (m + 1) = days_before year m + month_length year m"
proof -
  have "m = 1 \<or> m = 2 \<or> m = 3 \<or> m = 4 \<or> m = 5 \<or> m = 6 \<or> m = 7 \<or> m = 8 \<or> m = 9 \<or> m = 10 \<or> m = 11"
    using assms by presburger
  then show ?thesis
    by (auto simp: days_before_def days_before_month_def month_length_def)
qed

lemma days_before_end: "days_before year 12 + month_length year 12 = year_length year"
  by (simp add: days_before_def days_before_month_def month_length_def year_length_def)

lemma month_loop_law:
  assumes "1 \<le> m" "m \<le> 12" "days + days_before year m < year_length year" "month_loop year days m = (d, m')"
  shows "1 \<le> m' \<and> m' \<le> 12 \<and> d < month_length year m' \<and> d + days_before year m' = days + days_before year m"
  using assms
proof (induction year days m rule: month_loop.induct)
  case (1 year days m)
  show ?case
  proof (cases "days < month_length year m")
    case True
    then have "d = days" "m' = m" using 1(3,5) by (simp_all add: month_loop.simps [of year days m])
    then show ?thesis using True 1(2,3) by simp
  next
    case False
    then have rec: "month_loop year (days - month_length year m) (m + 1) = (d, m')"
      using 1(3,5) by (simp add: month_loop.simps [of year days m])
    have m12: "m < 12"
    proof (rule ccontr)
      assume "\<not> m < 12"
      then have "m = 12" using 1(3) by simp
      then show False using False 1(4) days_before_end [of year] by simp
    qed
    have "days - month_length year m + days_before year (m + 1) = days + days_before year m"
      using days_before_Suc [OF 1(2) m12] False by simp
    with 1(1) [OF 1(3) False _ _ _ rec] 1(4) m12 show ?thesis by simp
  qed
qed

lemma year_loop_law:
  "year_loop days (1970 + k) = (d, y) \<Longrightarrow>
   \<exists>j. y = 1970 + j \<and> d < year_length y \<and> d + days_of_years j = days + days_of_years k"
proof (induction days "1970 + k" arbitrary: k rule: year_loop.induct)
  case (1 days)
  show ?case
  proof (cases "days < year_length (1970 + k)")
    case True
    then have "d = days" "y = 1970 + k" using 1(2) by (simp_all add: year_loop.simps [of days])
    then show ?thesis using True by blast
  next
    case False
    then have "year_loop (days - year_length (1970 + k)) (1970 + Suc k) = (d, y)"
      using 1(2) by (simp add: year_loop.simps [of days])
    with 1(1) [OF False, of "Suc k"] False show ?thesis by auto
  qed
qed

section \<open>Reading back a printed timestamp\<close>

lemma digit_bytes: "is_digit 45 = False" "is_digit 32 = False" "is_digit 58 = False"
  by (simp_all add: is_digit_def)

lemma scan_fields_last: "scan_fields [] (show_padded w n) = [int n]"
  using scan_int_padded [of "[]" w n] by (simp add: scan_fields.simps)

lemma scan_fields_sep:
  assumes "sep = 45 \<or> sep = 58"
  shows "scan_fields (sep # seps) (show_padded w n @ sep # rest) = int n # scan_fields seps rest"
proof -
  have "scan_int (show_padded w n @ sep # rest) = Some (int n, sep # rest)"
    using assms by (intro scan_int_padded) (auto simp: digit_bytes)
  then show ?thesis using assms by (auto simp: scan_fields.simps)
qed

lemma scan_fields_space:
  "scan_fields (32 # seps) (show_padded w n @ 32 # show_padded w' n' @ rest) =
   int n # scan_fields seps (show_padded w' n' @ rest)"
proof -
  obtain b bs where p: "show_padded w' n' = b # bs"
    using show_padded_digits [of w' n'] by (cases "show_padded w' n'") auto
  then have "\<not> is_space b" using show_padded_digits [of w' n'] digit_not_special by auto
  moreover have "scan_int (show_padded w n @ 32 # show_padded w' n' @ rest) =
      Some (int n, 32 # show_padded w' n' @ rest)"
    by (intro scan_int_padded) (simp add: digit_bytes)
  moreover have "is_space 32" by (simp add: is_space_def)
  ultimately show ?thesis by (simp add: scan_fields.simps p)
qed

lemma digit_not_nul: "is_digit b \<Longrightarrow> b \<noteq> 0"
  by (auto simp: is_digit_def)

lemma takeWhile_printed:
  "takeWhile (\<lambda>b. b \<noteq> 0) (show_padded w n @ rest) = show_padded w n @ takeWhile (\<lambda>b. b \<noteq> 0) rest"
  using show_padded_digits [of w n] digit_not_nul by (intro takeWhile_append2) (auto simp: list_all_iff)

lemma scan_printed:
  "scan_fields [45, 45, 32, 58, 58] (takeWhile (\<lambda>b. b \<noteq> 0)
     (show_padded 4 y @ [45] @ show_padded 2 mo @ [45] @ show_padded 2 d @ [32] @
      show_padded 2 h @ [58] @ show_padded 2 mi @ [58] @ show_padded 2 s)) =
   [int y, int mo, int d, int h, int mi, int s]"
proof -
  have t: "takeWhile (\<lambda>b. b \<noteq> 0) (show_padded 2 s) = show_padded 2 s"
    using takeWhile_printed [of 2 s "[]"] by simp
  show ?thesis
    by (simp add: takeWhile_printed t scan_fields_sep scan_fields_space scan_fields_last)
qed

lemma format_epoch: "ParseTimestamp (ascii ''1970-01-01 00:00:00'') = Some 0"
proof -
  have "ascii ''1970-01-01 00:00:00'' = show_padded 4 1970 @ [45] @ show_padded 2 1 @ [45] @ show_padded 2 1 @ [32] @
      show_padded 2 0 @ [58] @ show_padded 2 0 @ [58] @ show_padded 2 0"
    by (simp add: ascii_def show_padded_def show_nat.simps Let_def digit_def numeral_2_eq_2 of_char_def)
  then show ?thesis
    using scan_printed [of 1970 1 1 0 0 0]
    by (simp add: ParseTimestamp_def Let_def field_def int32_ok_def days_before_month_def)
qed

lemma ParseTimestamp_fields:
  assumes "str \<noteq> []"
    "scan_fields [45, 45, 32, 58, 58] (takeWhile (\<lambda>b. b \<noteq> 0) str) = [int y, int m, int (Suc d), int h, int mi, int se]"
    "1970 \<le> y" "y < 2 ^ 31" "1 \<le> m" "m \<le> 12" "d < 31" "h < 24" "mi < 60" "se < 60"
  shows "ParseTimestamp str = Some (word_of_int
    (int ((days_of_years (y - 1970) + days_before y m + d) * 86400 + h * 3600 + mi * 60 + se)))"
proof -
  let ?fs = "[int y, int m, int (Suc d), int h, int mi, int se]"
  have f: "field ?fs 0 0 = int y" "field ?fs 1 1 = int m" "field ?fs 2 1 = int (Suc d)"
    "field ?fs 3 0 = int h" "field ?fs 4 0 = int mi" "field ?fs 5 0 = int se"
    by (simp_all add: field_def)
  have ok: "list_all int32_ok ?fs" "int32_ok (int (Suc d) - 1)" "int32_ok (int h * 3600)" "int32_ok (int mi * 60)"
    using assms by (simp_all add: int32_ok_def)
  have c: "\<not> int y < 1970" "\<not> (int m < 1 \<or> 12 < int m)" using assms by simp_all
  let ?days = "int (days_of_years (y - 1970)) + int (days_before_month ! (m - 1))"
  have l: "(if 2 < int m \<and> is_leap y then ?days + 1 else ?days) = int (days_of_years (y - 1970) + days_before y m)"
    by (simp add: days_before_def)
  have e: "(int (days_of_years (y - 1970) + days_before y m) + (int (Suc d) - 1)) * 86400 + int h * 3600 + int mi * 60 + int se
      = int ((days_of_years (y - 1970) + days_before y m + d) * 86400 + h * 3600 + mi * 60 + se)"
    by simp
  show ?thesis
    unfolding ParseTimestamp_def assms(2) Let_def f nat_int l e using ok c assms(1)
    by (simp only: if_False if_True simp_thms)
qed

lemma parse_format:
  assumes "FormatTimestamp t = Some s" "0 < sint t"
  shows "ParseTimestamp s = Some t"
proof -
  let ?r = "nat (sint t)"
  obtain d0 y where yl: "year_loop (?r div 60 div 60 div 24) 1970 = (d0, y)" by fastforce
  obtain d m where ml: "month_loop y d0 1 = (d, m)" by fastforce
  let ?sec = "?r mod 60" and ?min = "?r div 60 mod 60" and ?hour = "?r div 60 div 60 mod 24"
  let ?s = "show_padded 4 y @ [45] @ show_padded 2 m @ [45] @ show_padded 2 (Suc d) @ [32] @
      show_padded 2 ?hour @ [58] @ show_padded 2 ?min @ [58] @ show_padded 2 ?sec"
  have s: "s = ?s" "y < 2 ^ 31"
    using assms yl ml by (auto simp: FormatTimestamp_def Let_def split: if_splits)
  have "year_loop (?r div 60 div 60 div 24) (1970 + 0) = (d0, y)" using yl by simp
  from year_loop_law [OF this] obtain j where
    j: "y = 1970 + j" "d0 < year_length y" "d0 + days_of_years j = ?r div 60 div 60 div 24" by auto
  have "days_before y 1 = 0" by (simp add: days_before_def days_before_month_def)
  with month_loop_law [OF _ _ _ ml] j(2) have
    m: "1 \<le> m" "m \<le> 12" "d < month_length y m" "d + days_before y m = d0" by auto
  have d31: "d < 31" using m(3) by (auto simp: month_length_def split: if_splits)
  have fs: "scan_fields [45, 45, 32, 58, 58] (takeWhile (\<lambda>b. b \<noteq> 0) ?s) =
      [int y, int m, int (Suc d), int ?hour, int ?min, int ?sec]"
    by (rule scan_printed)
  have ne: "?s \<noteq> []" using show_padded_digits [of 4 y] by simp
  have small: "?sec < 60" "?min < 60" "?hour < 24" by simp_all
  have total: "sint t = int ((days_of_years j + days_before y m + d) * 86400 + ?hour * 3600 + ?min * 60 + ?sec)"
  proof -
    have "days_of_years j + days_before y m + d = ?r div 60 div 60 div 24" using j(3) m(4) by simp
    moreover have "?r div 60 div 60 div 24 * 86400 + ?hour * 3600 + ?min * 60 + ?sec = ?r"
      using div_mult_mod_eq [of ?r 60] div_mult_mod_eq [of "?r div 60" 60] div_mult_mod_eq [of "?r div 60 div 60" 24]
      by linarith
    ultimately show ?thesis using assms(2) by simp
  qed
  have "ParseTimestamp ?s = Some (word_of_int
      (int ((days_of_years (y - 1970) + days_before y m + d) * 86400 + ?hour * 3600 + ?min * 60 + ?sec)))"
    by (rule ParseTimestamp_fields [OF ne fs])
      (use s(2) m(1,2) d31 small j(1) in simp_all)
  moreover have "y - 1970 = j" using j(1) by simp
  ultimately show ?thesis using total s(1) by (simp only: flip: total) simp
qed

section \<open>Properties\<close>

text \<open>\<open>DeserializeFrom\<close> reads back the value that \<open>SerializeTo\<close> wrote, whatever follows it in the
  buffer, and reports the size \<open>GetSerializedSize\<close> announces.\<close>

theorem value_roundtrip:
  assumes "v \<noteq> VInvalid" "\<forall>s. v = VVarchar s \<longrightarrow> length s < 2 ^ 32 - 4"
  shows "DeserializeFrom (SerializeTo v @ rest) (GetTypeId v) = Some (v, GetSerializedSize v) \<and>
    length (SerializeTo v) = GetSerializedSize v"
  using serialize_roundtrip [OF assms(1)] assms
  by (cases v) (simp_all add: SerializeTo_def GetSerializedSize_def GetTypeId_def TypeIdSize_def)

theorem value_roundtrip_witness:
  "DeserializeFrom (SerializeTo (VVarchar [104, 105]) @ [9]) VARCHAR = Some (VVarchar [104, 105], 6)"
  using value_roundtrip [of "VVarchar [104, 105]" "[9]"] by (simp add: GetTypeId_def GetSerializedSize_def)

text \<open>C12: a timestamp printed by \<open>FormatTimestamp\<close> is read back by \<open>ParseTimestamp\<close> to the second;
  times before 1970 come back as 0.\<close>

theorem timestamp_roundtrip:
  assumes "FormatTimestamp t = Some s"
  shows "ParseTimestamp s = Some (if sint t \<le> 0 then 0 else t)"
proof (cases "sint t \<le> 0")
  case True
  then show ?thesis using assms format_epoch by (simp add: FormatTimestamp_def)
next
  case False
  then show ?thesis using parse_format [OF assms] by simp
qed

text \<open>The last second of 2000-02-29.\<close>

lemma demo_timestamp:
  "FormatTimestamp 951868799 = Some (show_padded 4 2000 @ [45] @ show_padded 2 (Suc 1) @ [45] @ show_padded 2 29 @ [32] @
     show_padded 2 23 @ [58] @ show_padded 2 59 @ [58] @ show_padded 2 59)"
  by (simp add: FormatTimestamp_def Let_def year_loop.simps month_loop.simps year_length_def month_length_def
      is_leap_def)

theorem timestamp_roundtrip_witness:
  "\<exists>s. FormatTimestamp 951868799 = Some s \<and> ParseTimestamp s = Some 951868799"
proof -
  obtain s where s: "FormatTimestamp 951868799 = Some s" using demo_timestamp by blast
  have "\<not> sint (951868799 :: i64) \<le> 0" by simp
  with timestamp_roundtrip [OF s] s show ?thesis by auto
qed

definition proper :: "Value \<Rightarrow> bool" where
  "proper v \<longleftrightarrow> (\<forall>x. v = VDecimal x \<longrightarrow> \<not> f64_nan x)"

lemma ToDouble_proper: "proper v \<Longrightarrow> IsNumericType (GetTypeId v) \<Longrightarrow> \<not> f64_nan (ToDouble v)"
  by (cases v) (auto simp: proper_def IsNumericType_def GetTypeId_def ToDouble_def)

lemma numeric_less:
  "proper a \<Longrightarrow> proper b \<Longrightarrow> IsNumericType (GetTypeId a) \<Longrightarrow> IsNumericType (GetTypeId b) \<Longrightarrow>
   value_less a b = Some (f64_scaled (ToDouble a) < f64_scaled (ToDouble b)) \<and>
   value_eq a b = (f64_scaled (ToDouble a) = f64_scaled (ToDouble b))"
  using ToDouble_proper by (simp add: value_less_def value_eq_def f64_less_def f64_eq_def)

text \<open>Outside the numbers two values are comparable when they have the same type.\<close>

lemmas value_defs = value_less_def value_eq_def GetTypeId_def IsNumericType_def

lemma other_irrefl: "\<not> IsNumericType (GetTypeId a) \<Longrightarrow> value_less a a \<noteq> Some True"
  by (cases a) (simp_all add: value_defs)

lemma other_trans:
  assumes "\<not> IsNumericType (GetTypeId a)" "value_less a b = Some True" "value_less b c = Some True"
  shows "value_less a c = Some True"
proof -
  from assms(1,2) consider "a = VBoolean False" "b = VBoolean True" |
    x y where "a = VTimestamp x" "b = VTimestamp y" | x y where "a = VVarchar x" "b = VVarchar y"
    by (cases a; cases b) (simp_all add: value_defs)
  then show ?thesis
    using assms(2,3) str_less_trans by cases (cases c; simp add: value_defs; blast?)+
qed

lemma other_eq:
  assumes "\<not> IsNumericType (GetTypeId a)" "value_less a b \<noteq> None"
  shows "value_eq a b \<longleftrightarrow> value_less a b = Some False \<and> value_less b a = Some False"
proof -
  from assms consider "a = VInvalid" "b = VInvalid" | x y where "a = VBoolean x" "b = VBoolean y" |
    x y where "a = VTimestamp x" "b = VTimestamp y" | x y where "a = VVarchar x" "b = VVarchar y"
    by (cases a; cases b) (simp_all add: value_defs)
  then show ?thesis
  proof cases
    case 1
    then show ?thesis by (simp add: value_defs)
  next
    case (2 x y)
    then show ?thesis by (auto simp: value_defs)
  next
    case (3 x y)
    then show ?thesis by (auto simp: value_defs intro: signed_word_eqI)
  next
    case (4 x y)
    then show ?thesis using str_less_total [of x y] by (auto simp: value_defs)
  qed
qed

text \<open>on values without NaN \<open>operator<\<close> is a strict weak order within each comparable class
  (the numbers, and every other type by itself), and two values neither of which is smaller are
  exactly those \<open>operator==\<close> calls equal: what sorting and the ordered index need.\<close>

theorem value_order:
  assumes "proper a" "proper b" "proper c"
  shows "value_less a a \<noteq> Some True \<and>
    (value_less a b = Some True \<longrightarrow> value_less b c = Some True \<longrightarrow> value_less a c = Some True) \<and>
    (value_less a b \<noteq> None \<longrightarrow>
       (value_eq a b \<longleftrightarrow> value_less a b = Some False \<and> value_less b a = Some False))"
proof (cases "IsNumericType (GetTypeId a)")
  case True
  have none: "value_less x y = None" if "IsNumericType (GetTypeId x)" "\<not> IsNumericType (GetTypeId y)" for x y
    using that by (auto simp: value_less_def)
  note less = numeric_less [OF assms(1,1) True True]
  show ?thesis
  proof (cases "IsNumericType (GetTypeId b)")
    case False
    then show ?thesis using less none [OF True False] by simp
  next
    case b: True
    note less_ab = numeric_less [OF assms(1,2) True b] and less_ba = numeric_less [OF assms(2,1) b True]
    show ?thesis
    proof (cases "IsNumericType (GetTypeId c)")
      case False
      then show ?thesis by (auto simp: less less_ab less_ba none [OF b False])
    next
      case c: True
      show ?thesis
        by (auto simp: less less_ab less_ba numeric_less [OF assms(2,3) b c] numeric_less [OF assms(1,3) True c])
    qed
  qed
next
  case False
  then show ?thesis using other_irrefl other_trans other_eq by metis
qed

theorem value_order_witness:
  "proper (VTinyInt 1) \<and> value_less (VTinyInt 1) (VBigInt 2) = Some True \<and>
   value_less (VBigInt 2) (VInteger 3) = Some True \<and> value_less (VTinyInt 1) (VInteger 3) = Some True"
proof -
  have s: "f64_scaled (f64_of_int 1) = 1 * 2 ^ 1074" "f64_scaled (f64_of_int 2) = 2 * 2 ^ 1074"
    "f64_scaled (f64_of_int 3) = 3 * 2 ^ 1074" by (rule f64_scaled_of_int, simp)+
  have "0 < (2::int) ^ 1074" by (rule zero_less_power) simp
  then have o: "1 * 2 ^ 1074 < 2 * (2::int) ^ 1074" "2 * 2 ^ 1074 < 3 * (2::int) ^ 1074" by linarith+
  have "value_less (VTinyInt 1) (VBigInt 2) = Some True" "value_less (VBigInt 2) (VInteger 3) = Some True"
    using o by (simp_all add: numeric_less proper_def IsNumericType_def GetTypeId_def ToDouble_def s)
  with value_order [of "VTinyInt 1" "VBigInt 2" "VInteger 3"] show ?thesis by (auto simp: proper_def)
qed

text \<open>numbers are compared as doubles, so two different BIGINTs beyond \<open>2 ^ 53\<close> are equal to
  every comparison the engine makes.\<close>

theorem bigint_comparison_collapses:
  "value_eq (VBigInt (2 ^ 53)) (VBigInt (2 ^ 53 + 1)) \<and>
   value_less (VBigInt (2 ^ 53)) (VBigInt (2 ^ 53 + 1)) = Some False \<and>
   value_less (VBigInt (2 ^ 53 + 1)) (VBigInt (2 ^ 53)) = Some False"
proof -
  have "sint (2 ^ 53 :: i64) = 2 ^ 53" "sint (2 ^ 53 + 1 :: i64) = 2 ^ 53 + 1" by simp_all
  then have "ToDouble (VBigInt (2 ^ 53)) = ToDouble (VBigInt (2 ^ 53 + 1))"
    unfolding ToDouble_def Value.case by (simp only: f64_of_int_2_53 f64_of_int_2_53_1)
  then show ?thesis by (simp add: numeric_less proper_def IsNumericType_def GetTypeId_def)
qed

end
