(* ===== verification/Tuples.thy ===== *)
theory Tuples
  imports Values
begin

text \<open>
  Rows (storage/table/tuple.h and .cpp): the byte layout of a tuple, the coercions applied when
  it is built, and reading a column back. \<open>data\<close> is the serialized row; a \<open>const Schema*\<close> is an
  \<open>option\<close>. The source fills a zeroed buffer area by area, in the order of the layout; the model
  writes the areas one after the other. \<open>None\<close> is a failed assertion, an exception of
  \<open>stoll\<close> or \<open>stod\<close>, or undefined behaviour (bytes outside the row, a cast out of range).
\<close>

section \<open>Layout\<close>

definition null_bitmap_size :: "nat \<Rightarrow> nat" where
  "null_bitmap_size n = (n + 7) div 8"

fun fixed_data_size :: "schema \<Rightarrow> nat" where
  "fixed_data_size [] = 0"
| "fixed_data_size (c # cs) =
     (if column_type c = VARCHAR then fixed_data_size cs else GetFixedSize c + fixed_data_size cs)"

fun varchar_count :: "schema \<Rightarrow> nat" where
  "varchar_count [] = 0"
| "varchar_count (c # cs) = (if column_type c = VARCHAR then 1 + varchar_count cs else varchar_count cs)"

definition var_data_start :: "schema \<Rightarrow> nat" where
  "var_data_start s = 4 + null_bitmap_size (length s) + fixed_data_size s + varchar_count s * 4"

text \<open>The string a value puts into a VARCHAR column; \<open>GetAsVarchar\<close> asserts the type.\<close>

definition varchar_of :: "Value \<Rightarrow> str option" where
  "varchar_of v = (if GetTypeId v = INVALID then Some [] else GetAsVarchar v)"

text \<open>The loop that assigns the VARCHAR offsets: the offsets and the tot size.\<close>

fun varchar_layout :: "nat \<Rightarrow> (column \<times> Value) list \<Rightarrow> (nat list \<times> nat) option" where
  "varchar_layout tot [] = Some ([], tot)"
| "varchar_layout tot ((c, v) # cvs) =
     (if column_type c = VARCHAR then do {
        str \<leftarrow> varchar_of v;
        (offsets, tot') \<leftarrow> varchar_layout (tot + 4 + length str) cvs;
        Some (tot # offsets, tot') }
      else varchar_layout tot cvs)"

text \<open>Setting the bits of NULL values; the byte index is a \<open>uint8_t\<close>.\<close>

fun set_null_bits :: "nat \<Rightarrow> Value list \<Rightarrow> byte list \<Rightarrow> byte list" where
  "set_null_bits i [] bm = bm"
| "set_null_bits i (v # vs) bm =
     set_null_bits (i + 1) vs
       (if GetTypeId v = INVALID
        then bm[i div 8 mod 256 := or (bm ! (i div 8 mod 256)) (push_bit (i mod 8) 1)]
        else bm)"

definition null_bitmap :: "Value list \<Rightarrow> byte list" where
  "null_bitmap vs = set_null_bits 0 vs (replicate (null_bitmap_size (length vs)) 0)"

section \<open>Fixed-length columns\<close>

definition numeric_code :: "TypeId \<Rightarrow> bool" where
  "numeric_code t \<longleftrightarrow> 2 \<le> type_code t \<and> type_code t \<le> 6"

definition number_of_value :: "Value \<Rightarrow> i64 option" where
  "number_of_value v =
     (case v of VTinyInt n \<Rightarrow> Some (scast n) | VSmallInt n \<Rightarrow> Some (scast n) | VInteger n \<Rightarrow> Some (scast n)
      | VBigInt n \<Rightarrow> Some n | VDecimal x \<Rightarrow> f64_to_int64 x | _ \<Rightarrow> Some 0)"

definition number_bytes :: "i64 \<Rightarrow> TypeId \<Rightarrow> byte list" where
  "number_bytes num t =
     (case t of TINYINT \<Rightarrow> [ucast num] | SMALLINT \<Rightarrow> enc_word (ucast num :: i16)
      | INTEGER \<Rightarrow> enc_word (ucast num :: i32) | BIGINT \<Rightarrow> enc_word num
      | DECIMAL \<Rightarrow> enc_word (f64_of_int (sint num)) | _ \<Rightarrow> [])"

definition parsed_bytes :: "str \<Rightarrow> TypeId \<Rightarrow> byte list option" where
  "parsed_bytes str t =
     (case t of
        BOOLEAN \<Rightarrow> Some [if str = ascii ''true'' \<or> str = ascii ''1'' then 1 else 0]
      | TINYINT \<Rightarrow> map_option (\<lambda>n. [ucast n]) (stoll str)
      | SMALLINT \<Rightarrow> map_option (\<lambda>n. enc_word (ucast n :: i16)) (stoll str)
      | INTEGER \<Rightarrow> map_option (\<lambda>n. enc_word (ucast n :: i32)) (stoll str)
      | BIGINT \<Rightarrow> map_option enc_word (stoll str)
      | DECIMAL \<Rightarrow> map_option enc_word (stod str)
      | TIMESTAMP \<Rightarrow> map_option enc_word (ParseTimestamp str)
      | t \<Rightarrow> Some (replicate (TypeIdSize t) 0))"

text \<open>The string \<open>serialized\<close> of a fixed-length column.\<close>

definition fixed_bytes :: "column \<Rightarrow> Value \<Rightarrow> byte list option" where
  "fixed_bytes c v =
     (let t = column_type c; vt = GetTypeId v in
      if vt = INVALID then Some (replicate (GetFixedSize c) 0)
      else if vt = t then Some (SerializeTo v)
      else if numeric_code vt \<and> numeric_code t
        then map_option (\<lambda>n. number_bytes n t) (number_of_value v)
      else (case v of
              VVarchar str \<Rightarrow> parsed_bytes str t
            | _ \<Rightarrow> Some (replicate (GetFixedSize c) 0)))"

fun fixed_area :: "(column \<times> Value) list \<Rightarrow> byte list option" where
  "fixed_area [] = Some []"
| "fixed_area ((c, v) # cvs) =
     (if column_type c = VARCHAR then fixed_area cvs
      else do {
        b \<leftarrow> fixed_bytes c v;
        bs \<leftarrow> fixed_area cvs;
        Some (b @ bs) })"

fun var_area :: "(column \<times> Value) list \<Rightarrow> byte list option" where
  "var_area [] = Some []"
| "var_area ((c, v) # cvs) =
     (if column_type c = VARCHAR then do {
        str \<leftarrow> varchar_of v;
        bs \<leftarrow> var_area cvs;
        Some (le_enc 4 (length str) @ str @ bs) }
      else var_area cvs)"

section \<open>Building and reading\<close>

text \<open>A row of 4 GB or more overflows the \<open>uint32_t\<close> sizes; the model stops there.\<close>

definition CreateFromValues :: "Value list \<Rightarrow> schema option \<Rightarrow> byte list option" where
  "CreateFromValues vs schema =
     (case schema of
        None \<Rightarrow> Some []
      | Some s \<Rightarrow>
          if vs = [] then Some []
          else if length vs \<noteq> length s then None
          else do {
            (offsets, tot) \<leftarrow> varchar_layout (var_data_start s) (zip s vs);
            fixed \<leftarrow> fixed_area (zip s vs);
            var \<leftarrow> var_area (zip s vs);
            if tot \<ge> 2 ^ 32 then None
            else Some (le_enc 2 (length s mod 65536) @ le_enc 2 (tot mod 65536) @ null_bitmap vs @
                   fixed @ concat (map (le_enc 4) offsets) @ var) })"

text \<open>\<open>Deserialize\<close> copies the number of bytes the row's own header states.\<close>

definition Deserialize :: "byte list \<Rightarrow> byte list option" where
  "Deserialize buf =
     (if length buf < 4 then None
      else let total_size = le_dec (take 2 (drop 2 buf)) in
        if length buf < total_size then None else Some (take total_size buf))"

definition data_read :: "byte list \<Rightarrow> nat \<Rightarrow> nat \<Rightarrow> byte list option" where
  "data_read d off n = (if off + n \<le> length d then Some (take n (drop off d)) else None)"

definition DeserializeValue :: "byte list \<Rightarrow> nat \<Rightarrow> TypeId \<Rightarrow> Value option" where
  "DeserializeValue d off t =
     (case t of
        BOOLEAN \<Rightarrow> map_option (\<lambda>b. VBoolean (hd b \<noteq> 0)) (data_read d off 1)
      | TINYINT \<Rightarrow> map_option (\<lambda>b. VTinyInt (hd b)) (data_read d off 1)
      | SMALLINT \<Rightarrow> map_option (\<lambda>b. VSmallInt (dec_word b)) (data_read d off 2)
      | INTEGER \<Rightarrow> map_option (\<lambda>b. VInteger (dec_word b)) (data_read d off 4)
      | BIGINT \<Rightarrow> map_option (\<lambda>b. VBigInt (dec_word b)) (data_read d off 8)
      | DECIMAL \<Rightarrow> map_option (\<lambda>b. VDecimal (dec_word b)) (data_read d off 8)
      | TIMESTAMP \<Rightarrow> map_option (\<lambda>b. VTimestamp (dec_word b)) (data_read d off 8)
      | _ \<Rightarrow> Some VInvalid)"

definition GetValue :: "byte list \<Rightarrow> schema option \<Rightarrow> nat \<Rightarrow> Value option" where
  "GetValue d schema col_idx =
     (case schema of
        None \<Rightarrow> Some VInvalid
      | Some s \<Rightarrow>
          if col_idx \<ge> length s then Some VInvalid
          else do {
            let col = s ! col_idx;
            null_byte \<leftarrow> data_read d (4 + col_idx div 8 mod 256) 1;
            if bit (hd null_byte) (col_idx mod 8) then Some VInvalid
            else do {
              let fixed_offset = 4 + null_bitmap_size (length s);
              let var_offset_base = fixed_offset + fixed_data_size s;
              if column_type col = VARCHAR then do {
                let varchar_idx = varchar_count (take col_idx s);
                off \<leftarrow> data_read d (var_offset_base + varchar_idx * 4) 4;
                len \<leftarrow> data_read d (le_dec off) 4;
                str \<leftarrow> data_read d (le_dec off + 4) (le_dec len);
                Some (VVarchar str) }
              else
                DeserializeValue d (fixed_offset + sum_list (map GetFixedSize (take col_idx s))) (column_type col) } })"

definition tuple_equals :: "byte list \<Rightarrow> byte list \<Rightarrow> bool" where
  "tuple_equals a b \<longleftrightarrow> length a = length b \<and> a = b"

text \<open>The loop of \<open>ToString\<close> over the columns; a value that cannot be read or printed stops it.\<close>

fun tuple_columns_string :: "byte list \<Rightarrow> schema \<Rightarrow> nat list \<Rightarrow> str option" where
  "tuple_columns_string d s [] = Some []"
| "tuple_columns_string d s (i # is) = do {
     v \<leftarrow> GetValue d (Some s) i;
     str \<leftarrow> value_to_string v;
     rest \<leftarrow> tuple_columns_string d s is;
     Some ((if i > 0 then ascii '', '' else []) @ str @ rest) }"

definition tuple_to_string :: "byte list \<Rightarrow> schema \<Rightarrow> str option" where
  "tuple_to_string d s =
     map_option (\<lambda>str. ascii ''Tuple('' @ str @ ascii '')'') (tuple_columns_string d s [0..<length s])"

section \<open>Facts\<close>

lemma length_set_null_bits [simp]: "length (set_null_bits i vs bm) = length bm"
  by (induction vs arbitrary: i bm) auto

lemma length_null_bitmap [simp]: "length (null_bitmap vs) = null_bitmap_size (length vs)"
  by (simp add: null_bitmap_def)

lemma numeric_code_simps [simp]:
  "numeric_code INVALID = False" "numeric_code BOOLEAN = False" "numeric_code TINYINT = True"
  "numeric_code SMALLINT = True" "numeric_code INTEGER = True" "numeric_code BIGINT = True"
  "numeric_code DECIMAL = True" "numeric_code TIMESTAMP = False" "numeric_code VARCHAR = False"
  by (simp_all add: numeric_code_def type_code_def word_le_nat_alt)

lemma length_number_bytes [simp]: "numeric_code t \<Longrightarrow> length (number_bytes n t) = TypeIdSize t"
  by (cases t) (simp_all add: number_bytes_def TypeIdSize_def)

lemma length_parsed_bytes: "parsed_bytes str t = Some b \<Longrightarrow> length b = TypeIdSize t"
  by (cases t) (auto simp: parsed_bytes_def TypeIdSize_def)

lemma length_fixed_bytes:
  assumes "fixed_bytes c v = Some b" "column_type c \<noteq> VARCHAR"
  shows "length b = GetFixedSize c"
proof -
  have "GetTypeId v = column_type c \<Longrightarrow> GetTypeId v \<noteq> INVALID \<Longrightarrow> length (SerializeTo v) = GetFixedSize c"
    using assms(2) unfolding GetFixedSize_def
    by (cases v) (auto simp: GetTypeId_def SerializeTo_def TypeIdSize_def dest: sym)
  with assms show ?thesis
    by (auto simp: fixed_bytes_def Let_def length_parsed_bytes GetFixedSize_def
        split: if_splits Value.splits)
qed

lemma length_fixed_area: "fixed_area (zip s vs) = Some b \<Longrightarrow> length s = length vs \<Longrightarrow> length b = fixed_data_size s"
proof (induction s arbitrary: vs b)
  case Nil
  then show ?case by simp
next
  case (Cons c s)
  then obtain v vs' where vs: "vs = v # vs'" by (cases vs) auto
  with Cons show ?case by (auto simp: bind_eq_Some_conv length_fixed_bytes split: if_splits)
qed

lemma data_read_mid:
  "off = length a \<Longrightarrow> n = length b \<Longrightarrow> data_read (a @ b @ c) off n = Some b"
  by (simp add: data_read_def)

text \<open>Where the bytes of a fixed-length column stand.\<close>

lemma GetFixedSize_VARCHAR [simp]: "column_type c = VARCHAR \<Longrightarrow> GetFixedSize c = 0"
  by (simp add: GetFixedSize_def TypeIdSize_def)

lemma fixed_area_nth:
  assumes "fixed_area (zip s vs) = Some area" "length vs = length s" "i < length s" "column_type (s ! i) \<noteq> VARCHAR"
  shows "\<exists>a b c. area = a @ b @ c \<and> length a = sum_list (map GetFixedSize (take i s)) \<and>
    fixed_bytes (s ! i) (vs ! i) = Some b"
  using assms
proof (induction s arbitrary: vs area i)
  case Nil
  then show ?case by simp
next
  case (Cons c s)
  from Cons.prems obtain v vs' where vs: "vs = v # vs'" by (cases vs) auto
  show ?case
  proof (cases i)
    case 0
    then show ?thesis using Cons.prems vs
      by (auto simp: bind_eq_Some_conv intro: exI [of _ "[]"])
  next
    case (Suc j)
    show ?thesis
    proof (cases "column_type c = VARCHAR")
      case True
      with Cons.prems vs Suc have "fixed_area (zip s vs') = Some area" by simp
      from Cons.IH [OF this, of j] True Cons.prems vs Suc show ?thesis by simp
    next
      case False
      with Cons.prems vs obtain b bs where b: "fixed_bytes c v = Some b" "fixed_area (zip s vs') = Some bs"
        "area = b @ bs" by (auto simp: bind_eq_Some_conv)
      from Cons.IH [OF b(2), of j] Cons.prems vs Suc obtain a b' c' where
        "bs = a @ b' @ c'" "length a = sum_list (map GetFixedSize (take j s))"
        "fixed_bytes (s ! j) (vs' ! j) = Some b'" by auto
      with b Suc vs length_fixed_bytes [OF b(1) False] show ?thesis
        by (intro exI [of _ "b @ a"] exI [of _ b'] exI [of _ c']) simp
    qed
  qed
qed

text \<open>Where a VARCHAR column's offset and bytes stand.\<close>

lemma varchar_layout_total:
  assumes "varchar_layout t0 cvs = Some (offs, tot)" "var_area cvs = Some area"
  shows "tot = t0 + length area"
  using assms
  by (induction cvs arbitrary: t0 offs area) (fastforce simp: bind_eq_Some_conv split: if_splits)+

lemma varchar_layout_length:
  "varchar_layout t0 (zip s vs) = Some (offs, tot) \<Longrightarrow> length vs = length s \<Longrightarrow> length offs = varchar_count s"
proof (induction s arbitrary: vs t0 offs)
  case Nil
  then show ?case by simp
next
  case (Cons c s)
  then show ?case by (cases vs) (auto simp: bind_eq_Some_conv split: if_splits)
qed

lemma varchar_nth:
  assumes "varchar_layout t0 (zip s vs) = Some (offs, tot)" "var_area (zip s vs) = Some area"
    "length vs = length s" "i < length s" "column_type (s ! i) = VARCHAR"
  shows "\<exists>a str c. area = a @ (le_enc 4 (length str) @ str) @ c \<and> varchar_of (vs ! i) = Some str \<and>
    varchar_count (take i s) < length offs \<and> offs ! varchar_count (take i s) = t0 + length a"
  using assms
proof (induction s arbitrary: vs t0 offs area i)
  case Nil
  then show ?case by simp
next
  case (Cons c s)
  from Cons.prems obtain v vs' where vs: "vs = v # vs'" by (cases vs) auto
  show ?case
  proof (cases i)
    case 0
    then show ?thesis using Cons.prems vs
      by (auto simp: bind_eq_Some_conv intro: exI [of _ "[]"])
  next
    case (Suc j)
    show ?thesis
    proof (cases "column_type c = VARCHAR")
      case False
      then show ?thesis using Cons.IH [of t0 vs' offs area j] Cons.prems vs Suc by simp
    next
      case True
      with Cons.prems vs obtain str offs' area' where b: "varchar_of v = Some str"
        "varchar_layout (t0 + 4 + length str) (zip s vs') = Some (offs', tot)" "offs = t0 # offs'"
        "var_area (zip s vs') = Some area'" "area = le_enc 4 (length str) @ str @ area'"
        by (auto simp: bind_eq_Some_conv)
      from Cons.IH [OF b(2,4), of j] Cons.prems vs Suc obtain a str' c' where
        "area' = a @ (le_enc 4 (length str') @ str') @ c'" "varchar_of (vs' ! j) = Some str'"
        "varchar_count (take j s) < length offs'"
        "offs' ! varchar_count (take j s) = t0 + 4 + length str + length a" by auto
      with b Suc vs True show ?thesis
        by (intro exI [of _ "le_enc 4 (length str) @ str @ a"] exI [of _ str'] exI [of _ c']) simp
    qed
  qed
qed

text \<open>The bitmap marks exactly the NULL columns, as long as the byte index does not wrap.\<close>

lemma set_null_bits_nth:
  assumes "k + length vs \<le> 8 * length bm" "length bm \<le> 256" "j < 8 * length bm"
  shows "bit (set_null_bits k vs bm ! (j div 8)) (j mod 8) \<longleftrightarrow>
    bit (bm ! (j div 8)) (j mod 8) \<or> (k \<le> j \<and> j < k + length vs \<and> GetTypeId (vs ! (j - k)) = INVALID)"
  using assms
proof (induction vs arbitrary: k bm)
  case Nil
  then show ?case by auto
next
  case (Cons v vs)
  let ?bm = "if GetTypeId v = INVALID then bm[k div 8 := or (bm ! (k div 8)) (push_bit (k mod 8) 1)] else bm"
  have k: "k div 8 mod 256 = k div 8" "k div 8 < length bm" using Cons.prems by auto
  have "bit (?bm ! (j div 8)) (j mod 8) \<longleftrightarrow> bit (bm ! (j div 8)) (j mod 8) \<or> (j = k \<and> GetTypeId v = INVALID)"
  proof (cases "j div 8 = k div 8")
    case True
    then have "j mod 8 = k mod 8 \<longleftrightarrow> j = k" by (metis div_mult_mod_eq)
    with True k show ?thesis
      by (auto simp: bit_or_iff push_bit_of_1 bit_exp_iff)
  next
    case False
    then show ?thesis using k by auto
  qed
  moreover have "length ?bm = length bm" by simp
  ultimately show ?case using Cons.IH [of "k + 1" ?bm] Cons.prems k
    by (auto simp: nth_Cons' split: if_splits)
qed

lemma null_bitmap_bit:
  assumes "i < length vs" "length vs \<le> 2048"
  shows "bit (null_bitmap vs ! (i div 8)) (i mod 8) \<longleftrightarrow> GetTypeId (vs ! i) = INVALID"
proof -
  have "null_bitmap_size (length vs) \<le> 256" "length vs \<le> 8 * null_bitmap_size (length vs)"
    using assms(2) by (auto simp: null_bitmap_size_def)
  moreover from this assms have "i div 8 < null_bitmap_size (length vs)" "i < 8 * null_bitmap_size (length vs)"
    by (auto simp: null_bitmap_size_def)
  ultimately show ?thesis
    using set_null_bits_nth [of 0 vs "replicate (null_bitmap_size (length vs)) 0" i] assms
    by (simp add: null_bitmap_def)
qed


lemma CreateFromValues_layout:
  assumes "CreateFromValues vs (Some s) = Some d" "vs \<noteq> []"
  obtains hdr fixed offs var tot where
    "d = hdr @ null_bitmap vs @ fixed @ concat (map (le_enc 4) offs) @ var" "length hdr = 4"
    "varchar_layout (var_data_start s) (zip s vs) = Some (offs, tot)" "fixed_area (zip s vs) = Some fixed"
    "var_area (zip s vs) = Some var" "length vs = length s" "tot < 2 ^ 32" "tot = length d"
    "hdr = le_enc 2 (length s mod 65536) @ le_enc 2 (tot mod 65536)"
proof -
  from assms obtain fixed offs var tot where l: "length vs = length s"
    "varchar_layout (var_data_start s) (zip s vs) = Some (offs, tot)" "fixed_area (zip s vs) = Some fixed"
    "var_area (zip s vs) = Some var" "tot < 2 ^ 32"
    "d = (le_enc 2 (length s mod 65536) @ le_enc 2 (tot mod 65536)) @ null_bitmap vs @ fixed @
       concat (map (le_enc 4) offs) @ var"
    by (auto simp: CreateFromValues_def bind_eq_Some_conv split: if_splits)
  have "length (concat (map (le_enc 4) offs)) = 4 * varchar_count s"
    using varchar_layout_length [OF l(2,1)] by (simp add: length_concat comp_def sum_list_triv)
  then have "tot = length d"
    using l varchar_layout_total [OF l(2,4)] length_fixed_area [OF l(3)] by (simp add: var_data_start_def)
  from that [OF l(6) _ l(2-4) l(1,5) this] show thesis by simp
qed

lemma data_read_byte: "i < length b \<Longrightarrow> off = length a + i \<Longrightarrow> data_read (a @ b @ c) off 1 = Some [b ! i]"
  by (simp add: data_read_def nth_append Cons_nth_drop_Suc [symmetric])

lemma nth_concat_enc:
  assumes "k < length offs"
  shows "\<exists>a c. concat (map (le_enc 4) offs) = a @ le_enc 4 (offs ! k) @ c \<and> length a = 4 * k"
proof -
  have "map (le_enc 4) offs = map (le_enc 4) (take k offs) @ le_enc 4 (offs ! k) # map (le_enc 4) (drop (k + 1) offs)"
    using assms id_take_nth_drop [of k offs] by (metis Suc_eq_plus1 list.simps(9) map_append)
  then have "concat (map (le_enc 4) offs) =
    concat (map (le_enc 4) (take k offs)) @ le_enc 4 (offs ! k) @ concat (map (le_enc 4) (drop (k + 1) offs))"
    by simp
  moreover have "length (concat (map (le_enc 4) (take k offs))) = 4 * k"
    using assms by (simp add: length_concat comp_def sum_list_triv)
  ultimately show ?thesis by blast
qed

lemma GetValue_null_bit:
  assumes "CreateFromValues vs (Some s) = Some d" "i < length s" "length s \<le> 2048" and v: "vs \<noteq> []"
  shows "\<exists>w. data_read d (4 + i div 8 mod 256) 1 = Some [w] \<and> (bit w (i mod 8) \<longleftrightarrow> GetTypeId (vs ! i) = INVALID)"
proof -
  obtain hdr rest where d: "d = hdr @ null_bitmap vs @ rest" "length hdr = 4" "length vs = length s"
    using CreateFromValues_layout [OF assms(1) v] by metis
  have "i div 8 mod 256 = i div 8" "i div 8 < length (null_bitmap vs)"
    using assms(2,3) d(3) by (auto simp: null_bitmap_size_def)
  then have "data_read d (4 + i div 8 mod 256) 1 = Some [null_bitmap vs ! (i div 8)]"
    unfolding d(1) using d(2) by (intro data_read_byte) simp_all
  with null_bitmap_bit [of i vs] assms d(3) show ?thesis by simp
qed


lemma GetValue_fixed:
  assumes c: "CreateFromValues vs (Some s) = Some d" and i: "i < length s" "length s \<le> 2048" and v: "vs \<noteq> []"
    and t: "column_type (s ! i) \<noteq> VARCHAR" "GetTypeId (vs ! i) \<noteq> INVALID"
  shows "\<exists>b. fixed_bytes (s ! i) (vs ! i) = Some b \<and> GetValue d (Some s) i = DeserializeValue b 0 (column_type (s ! i))"
proof -
  obtain w where w: "data_read d (4 + i div 8 mod 256) 1 = Some [w]" "\<not> bit w (i mod 8)"
    using GetValue_null_bit [OF c i v] t by auto
  obtain hdr fixed offs var tot where d:
    "d = hdr @ null_bitmap vs @ fixed @ concat (map (le_enc 4) offs) @ var" "length hdr = 4"
    "fixed_area (zip s vs) = Some fixed" "length vs = length s"
    using CreateFromValues_layout [OF c v] by metis
  from fixed_area_nth [OF d(3,4) i(1) t(1)] obtain a b z where f: "fixed = a @ b @ z"
    "length a = sum_list (map GetFixedSize (take i s))" "fixed_bytes (s ! i) (vs ! i) = Some b" by blast
  let ?off = "4 + null_bitmap_size (length s) + sum_list (map GetFixedSize (take i s))"
  have "d = (hdr @ null_bitmap vs @ a) @ b @ (z @ concat (map (le_enc 4) offs) @ var)"
    using d(1) f(1) by simp
  moreover have "length (hdr @ null_bitmap vs @ a) = ?off" using d f(2) by simp
  moreover have "length b = TypeIdSize (column_type (s ! i))"
    using length_fixed_bytes [OF f(3) t(1)] by (simp add: GetFixedSize_def)
  ultimately have "DeserializeValue d ?off (column_type (s ! i)) = DeserializeValue b 0 (column_type (s ! i))"
    by (cases "column_type (s ! i)") (auto simp: DeserializeValue_def data_read_def TypeIdSize_def)
  with w t i f(3) show ?thesis by (auto simp: GetValue_def)
qed

lemma GetValue_varchar:
  assumes c: "CreateFromValues vs (Some s) = Some d" and i: "i < length s" "length s \<le> 2048" and v: "vs \<noteq> []"
    and t: "column_type (s ! i) = VARCHAR" "GetTypeId (vs ! i) \<noteq> INVALID"
  shows "GetValue d (Some s) i = map_option VVarchar (varchar_of (vs ! i))"
proof -
  obtain w where w: "data_read d (4 + i div 8 mod 256) 1 = Some [w]" "\<not> bit w (i mod 8)"
    using GetValue_null_bit [OF c i v] t by auto
  obtain hdr fixed offs var tot where d:
    "d = hdr @ null_bitmap vs @ fixed @ concat (map (le_enc 4) offs) @ var" "length hdr = 4"
    "varchar_layout (var_data_start s) (zip s vs) = Some (offs, tot)" "fixed_area (zip s vs) = Some fixed"
    "var_area (zip s vs) = Some var" "length vs = length s" "tot < 2 ^ 32" "tot = length d"
    using CreateFromValues_layout [OF c v] by metis
  let ?k = "varchar_count (take i s)"
  from varchar_nth [OF d(3,5,6) i(1) t(1)] obtain a str z where f:
    "var = a @ (le_enc 4 (length str) @ str) @ z" "varchar_of (vs ! i) = Some str" "?k < length offs"
    "offs ! ?k = var_data_start s + length a" by blast
  obtain p q where o: "concat (map (le_enc 4) offs) = p @ le_enc 4 (offs ! ?k) @ q" "length p = 4 * ?k"
    using nth_concat_enc [OF f(3)] by blast
  have lens: "length fixed = fixed_data_size s" "length offs = varchar_count s"
    using length_fixed_area [OF d(4)] d(6) varchar_layout_length [OF d(3,6)] by simp_all
  then have "length (concat (map (le_enc 4) offs)) = 4 * varchar_count s"
    by (simp add: length_concat comp_def sum_list_triv)
  with d lens have pre: "length (hdr @ null_bitmap vs @ fixed @ concat (map (le_enc 4) offs)) = var_data_start s"
    by (simp add: var_data_start_def)
  have d1: "d = (hdr @ null_bitmap vs @ fixed @ p) @ le_enc 4 (offs ! ?k) @ (q @ var)" using d(1) o(1) by simp
  have r1: "data_read d (4 + null_bitmap_size (length s) + fixed_data_size s + ?k * 4) 4 = Some (le_enc 4 (offs ! ?k))"
    by (subst d1, rule data_read_mid) (use d(2,6) lens o(2) in simp_all)
  have dd: "d = (hdr @ null_bitmap vs @ fixed @ concat (map (le_enc 4) offs) @ a) @ le_enc 4 (length str) @ (str @ z)"
    using d(1) f(1) by simp
  have la: "length (hdr @ null_bitmap vs @ fixed @ concat (map (le_enc 4) offs) @ a) = offs ! ?k" using pre f(4) by simp
  have "length d = offs ! ?k + 4 + length str + length z" using la by (subst dd) simp
  then have b: "offs ! ?k < 256 ^ 4" "length str < 256 ^ 4" using d(7,8) by simp_all
  have r2: "data_read d (offs ! ?k) 4 = Some (le_enc 4 (length str))"
    by (subst dd, rule data_read_mid) (use la in simp_all)
  have "d = (hdr @ null_bitmap vs @ fixed @ concat (map (le_enc 4) offs) @ a @ le_enc 4 (length str)) @ str @ z"
    using dd by simp
  moreover have "length (hdr @ null_bitmap vs @ fixed @ concat (map (le_enc 4) offs) @ a @ le_enc 4 (length str)) =
    offs ! ?k + 4" using la by simp
  ultimately have r3: "data_read d (offs ! ?k + 4) (length str) = Some str" using data_read_mid by metis
  have e: "le_dec (le_enc 4 (offs ! ?k)) = offs ! ?k" "le_dec (le_enc 4 (length str)) = length str"
    using b by (simp_all only: le_dec_enc)
  show ?thesis
    using w t i f(2) r1 r2 r3 e by (simp add: GetValue_def Let_def)
qed

lemma GetValue_null:
  assumes "CreateFromValues vs (Some s) = Some d" "i < length s" "length s \<le> 2048" "vs \<noteq> []"
    "GetTypeId (vs ! i) = INVALID"
  shows "GetValue d (Some s) i = Some VInvalid"
  using GetValue_null_bit [OF assms(1-4)] assms by (auto simp: GetValue_def)

lemma Deserialize_created:
  assumes "CreateFromValues vs (Some s) = Some d" "vs \<noteq> []" "length d < 65536"
  shows "Deserialize (d @ rest) = Some d"
proof -
  obtain a b where d: "d = le_enc 2 a @ le_enc 2 (length d mod 65536) @ b"
    using CreateFromValues_layout [OF assms(1,2)] by (metis append_assoc)
  have "take 2 (drop 2 (d @ rest)) = le_enc 2 (length d)"
    using assms(3) by (subst d) simp
  moreover have "le_dec (le_enc 2 (length d)) = length d" using assms(3) by (intro le_dec_enc) simp
  moreover have "4 \<le> length d" by (subst d) simp
  ultimately show ?thesis by (simp add: Deserialize_def)
qed


section \<open>Properties\<close>

text \<open>The bytes of the VARCHAR data of a row.\<close>

definition var_size :: "(column \<times> Value) list \<Rightarrow> nat" where
  "var_size cvs = (\<Sum>(c, v)\<leftarrow>cvs. if column_type c = VARCHAR
     then 4 + (case v of VVarchar str \<Rightarrow> length str | _ \<Rightarrow> 0) else 0)"

definition fits_column :: "column \<Rightarrow> Value \<Rightarrow> bool" where
  "fits_column c v \<longleftrightarrow> v = VInvalid \<or> GetTypeId v = column_type c"

lemma GetTypeId_simps [simp]:
  "GetTypeId VInvalid = INVALID" "GetTypeId (VBoolean b) = BOOLEAN" "GetTypeId (VTinyInt i8) = TINYINT"
  "GetTypeId (VSmallInt i16) = SMALLINT" "GetTypeId (VInteger i32) = INTEGER" "GetTypeId (VBigInt i64) = BIGINT"
  "GetTypeId (VDecimal f) = DECIMAL" "GetTypeId (VTimestamp t) = TIMESTAMP" "GetTypeId (VVarchar str) = VARCHAR"
  by (simp_all add: GetTypeId_def)

lemma GetTypeId_INVALID [simp]: "GetTypeId v = INVALID \<longleftrightarrow> v = VInvalid"
  and GetTypeId_VARCHAR: "GetTypeId v = VARCHAR \<Longrightarrow> \<exists>str. v = VVarchar str"
  by (cases v; simp)+

lemma varchar_of_fits:
  "fits_column c v \<Longrightarrow> column_type c = VARCHAR \<Longrightarrow>
   \<exists>str. varchar_of v = Some str \<and> length str = (case v of VVarchar str \<Rightarrow> length str | _ \<Rightarrow> 0)"
  by (cases v) (auto simp: fits_column_def varchar_of_def GetAsVarchar_def)

lemma fixed_bytes_fits: "fits_column c v \<Longrightarrow> \<exists>b. fixed_bytes c v = Some b"
  by (auto simp: fits_column_def fixed_bytes_def Let_def)

lemma areas_exist:
  assumes "list_all2 fits_column s vs"
  shows "\<exists>offs. varchar_layout t0 (zip s vs) = Some (offs, t0 + var_size (zip s vs))"
    and "\<exists>fixed. fixed_area (zip s vs) = Some fixed" and "\<exists>var. var_area (zip s vs) = Some var"
  using assms
proof (induction s vs arbitrary: t0 rule: list_all2_induct)
  case Nil
  { case 1 show ?case by (simp add: var_size_def) }
  { case 2 show ?case by simp }
  { case 3 show ?case by simp }
next
  case (Cons c s v vs)
  { case 1
    show ?case
    proof (cases "column_type c = VARCHAR")
      case True
      obtain str where "varchar_of v = Some str" "length str = (case v of VVarchar str \<Rightarrow> length str | _ \<Rightarrow> 0)"
        using varchar_of_fits [OF Cons.hyps(1) True] by blast
      with Cons.IH(1) [of "t0 + 4 + length str"] True show ?thesis by (auto simp: var_size_def)
    next
      case False
      then show ?thesis using Cons.IH(1) [of t0] by (simp add: var_size_def)
    qed }
  { case 2 show ?case using Cons.IH(2) fixed_bytes_fits [OF Cons.hyps(1)] by auto }
  { case 3 show ?case using Cons.IH(3) varchar_of_fits [OF Cons.hyps(1)] by auto }
qed

lemma create_defined:
  assumes "list_all2 fits_column s vs" "s \<noteq> []" "var_data_start s + var_size (zip s vs) < 2 ^ 32"
  shows "\<exists>d. CreateFromValues vs (Some s) = Some d \<and> length d = var_data_start s + var_size (zip s vs)"
proof -
  have v: "vs \<noteq> []" "length vs = length s" using assms(1,2) by (auto dest: list_all2_lengthD)
  from areas_exist [OF assms(1)] obtain offs fixed var where
    e: "varchar_layout (var_data_start s) (zip s vs) = Some (offs, var_data_start s + var_size (zip s vs))"
      "fixed_area (zip s vs) = Some fixed" "var_area (zip s vs) = Some var" by metis
  then have "\<exists>d. CreateFromValues vs (Some s) = Some d" using v assms(3) by (simp add: CreateFromValues_def)
  then obtain d where d: "CreateFromValues vs (Some s) = Some d" by blast
  with CreateFromValues_layout [OF d v(1)] e(1) show ?thesis by (metis option.inject prod.inject)
qed

lemma GetValue_fits:
  assumes "CreateFromValues vs (Some s) = Some d" "i < length s" "length s \<le> 2048" "vs \<noteq> []"
    "fits_column (s ! i) (vs ! i)"
  shows "GetValue d (Some s) i = Some (vs ! i)"
proof (cases "vs ! i = VInvalid")
  case True
  then show ?thesis using GetValue_null [OF assms(1-4)] by simp
next
  case False
  then have t: "GetTypeId (vs ! i) \<noteq> INVALID" and m: "GetTypeId (vs ! i) = column_type (s ! i)"
    using assms(5) by (auto simp: fits_column_def)
  show ?thesis
  proof (cases "column_type (s ! i) = VARCHAR")
    case True
    then obtain str where "vs ! i = VVarchar str" using m GetTypeId_VARCHAR by metis
    then show ?thesis using GetValue_varchar [OF assms(1-4) True t]
      by (simp add: varchar_of_def GetAsVarchar_def)
  next
    case False
    then obtain b where b: "fixed_bytes (s ! i) (vs ! i) = Some b"
      "GetValue d (Some s) i = DeserializeValue b 0 (column_type (s ! i))"
      using GetValue_fixed [OF assms(1-4) False t] by blast
    have "b = SerializeTo (vs ! i)" using b(1) m t by (simp add: fixed_bytes_def Let_def)
    with b(2) m t False show ?thesis
      by (cases "vs ! i") (auto simp: DeserializeValue_def SerializeTo_def data_read_def dest: sym)
  qed
qed

text \<open>C13: a row built from values that fit its schema (a NULL fits every column) is returned, and
  every column of it reads back the value; as long as the row is shorter than 64 KB, \<open>Deserialize\<close>
  recovers it from the bytes of a page.\<close>

theorem tuple_roundtrip:
  assumes "list_all2 fits_column s vs" "s \<noteq> []" "length s \<le> 2048"
    "var_data_start s + var_size (zip s vs) < 2 ^ 32"
  shows "\<exists>d. CreateFromValues vs (Some s) = Some d \<and>
    (\<forall>i. GetValue d (Some s) i = Some (if i < length s then vs ! i else VInvalid)) \<and>
    (\<forall>rest. length d < 65536 \<longrightarrow> Deserialize (d @ rest) = Some d)"
proof -
  obtain d where d: "CreateFromValues vs (Some s) = Some d" using create_defined [OF assms(1,2,4)] by blast
  have v: "vs \<noteq> []" using assms(1,2) by auto
  have "GetValue d (Some s) i = Some (if i < length s then vs ! i else VInvalid)" for i
    using GetValue_fits [OF d _ assms(3) v, of i] list_all2_nthD [OF assms(1), of i]
    by (simp add: GetValue_def)
  with d Deserialize_created [OF d v] show ?thesis by blast
qed

definition demo_row :: "Value list" where
  "demo_row = [VInteger 7, VVarchar [104, 105], VInvalid]"

definition demo_row_schema :: schema where
  "demo_row_schema =
    [\<lparr>column_name = [97], column_type = INTEGER, max_length = 0, is_nullable = False, is_primary_key = True\<rparr>,
     \<lparr>column_name = [98], column_type = VARCHAR, max_length = 9, is_nullable = True, is_primary_key = False\<rparr>,
     \<lparr>column_name = [99], column_type = TIMESTAMP, max_length = 0, is_nullable = True, is_primary_key = False\<rparr>]"

theorem tuple_roundtrip_witness:
  "\<exists>d. CreateFromValues demo_row (Some demo_row_schema) = Some d \<and>
     GetValue d (Some demo_row_schema) 1 = Some (VVarchar [104, 105]) \<and>
     GetValue d (Some demo_row_schema) 2 = Some VInvalid"
proof -
  have h: "list_all2 fits_column demo_row_schema demo_row" "demo_row_schema \<noteq> []" "length demo_row_schema \<le> 2048"
    "var_data_start demo_row_schema + var_size (zip demo_row_schema demo_row) < 2 ^ 32"
    by (simp_all add: demo_row_schema_def demo_row_def fits_column_def var_data_start_def var_size_def
        null_bitmap_size_def GetFixedSize_def TypeIdSize_def)
  from tuple_roundtrip [OF h] obtain d where "CreateFromValues demo_row (Some demo_row_schema) = Some d"
    "\<forall>i. GetValue d (Some demo_row_schema) i = Some (if i < length demo_row_schema then demo_row ! i else VInvalid)"
    by blast
  then show ?thesis by (auto simp: demo_row_schema_def demo_row_def)
qed

text \<open>a \<open>BIGINT\<close> value (the parser's type of every integer literal) stored in a narrower integer
  column is reduced modulo the column's width without an error, and reads back reduced.\<close>

theorem tuple_narrows_integers:
  assumes "CreateFromValues vs (Some s) = Some d" "i < length s" "length s \<le> 2048" "vs \<noteq> []" "vs ! i = VBigInt n"
  shows "(column_type (s ! i) = TINYINT \<longrightarrow> GetValue d (Some s) i = Some (VTinyInt (ucast n))) \<and>
    (column_type (s ! i) = SMALLINT \<longrightarrow> GetValue d (Some s) i = Some (VSmallInt (ucast n))) \<and>
    (column_type (s ! i) = INTEGER \<longrightarrow> GetValue d (Some s) i = Some (VInteger (ucast n))) \<and>
    (column_type (s ! i) = BIGINT \<longrightarrow> GetValue d (Some s) i = Some (VBigInt n)) \<and>
    (column_type (s ! i) = DECIMAL \<longrightarrow> GetValue d (Some s) i = Some (VDecimal (f64_of_int (sint n))))"
proof (cases "column_type (s ! i) = VARCHAR")
  case False
  then obtain b where "fixed_bytes (s ! i) (vs ! i) = Some b"
    "GetValue d (Some s) i = DeserializeValue b 0 (column_type (s ! i))"
    using GetValue_fixed [OF assms(1-4)] assms(5) by auto
  then show ?thesis using assms(5)
    by (auto simp: fixed_bytes_def Let_def number_of_value_def number_bytes_def DeserializeValue_def data_read_def
        SerializeTo_def)
qed simp

theorem tuple_narrows_integers_witness:
  "\<exists>d. CreateFromValues [VBigInt 4294967301, VVarchar [], VInvalid] (Some demo_row_schema) = Some d \<and>
     GetValue d (Some demo_row_schema) 0 = Some (VInteger 5)"
proof -
  let ?vs = "[VBigInt 4294967301, VVarchar [], VInvalid]"
  obtain d where d: "CreateFromValues ?vs (Some demo_row_schema) = Some d"
    by (simp add: CreateFromValues_def demo_row_schema_def var_data_start_def null_bitmap_size_def
        GetFixedSize_def TypeIdSize_def fixed_bytes_def Let_def number_of_value_def varchar_of_def GetAsVarchar_def)
  have "column_type (demo_row_schema ! 0) = INTEGER" "0 < length demo_row_schema" "length demo_row_schema \<le> 2048"
    by (simp_all add: demo_row_schema_def)
  with tuple_narrows_integers [OF d, of 0] d show ?thesis by simp
qed

end
