(* ===== verification/Table_Heap.thy ===== *)
theory Table_Heap
  imports Buffer_Pool Table_Page Tuples
begin

text \<open>
  The table heap (storage/table/table_heap.h and .cpp) and its iterator (table_iterator.h and
  .cpp): a chain of slotted pages reached through the buffer pool. A tuple is its serialized
  bytes. Every operation takes the pool and returns it; \<open>None\<close> as the result of an operation
  means that the source does not get to a result: an access outside a page, a failed
  assertion, or a traversal of a page chain that does not end. The latches of the pages are
  not modelled: the operations run one after the other.
\<close>

record table_heap =
  first_page_id :: i32
  heap_file_id :: "i16 option"

text \<open>\<open>file_id_\<close> is left uninitialised for a heap without a page.\<close>

definition TableHeap :: "i32 \<Rightarrow> table_heap" where
  "TableHeap pid = \<lparr>first_page_id = pid,
     heap_file_id = (if pid \<noteq> INVALID_PAGE_ID then Some (GetFileId pid) else None)\<rparr>"

text \<open>An operation of \<open>TablePage\<close> on the bytes of a frame.\<close>

definition on_page :: "nat \<Rightarrow> (page \<Rightarrow> ('a \<times> page) option) \<Rightarrow> bpm \<Rightarrow> ('a \<times> bpm) option" where
  "on_page f op b = do {
     (r, p) \<leftarrow> op (page_at f b);
     Some (r, modify_page f (\<lambda>_. p) b) }"

section \<open>Insertion\<close>

datatype search = Failed | Inserted RID | NoRoom i32

text \<open>One page of the search loop of \<open>InsertTuple\<close>: insert into the fetched page if it has room.\<close>

definition try_insert :: "byte list \<Rightarrow> nat \<Rightarrow> bpm \<Rightarrow> (int option \<times> bpm) option" where
  "try_insert data f b = do {
     free_space \<leftarrow> GetFreeSpace (page_at f b);
     let needed = length data + SLOT_SIZE;
     if free_space \<ge> needed then on_page f (InsertTuple data) b else Some (None, b) }"

partial_function (option) insert_search ::
  "byte list \<Rightarrow> i32 \<Rightarrow> i32 \<Rightarrow> bpm \<Rightarrow> (bpm \<times> search) option" where
  "insert_search data current_page_id prev_page_id b =
     (if current_page_id = INVALID_PAGE_ID then Some (b, NoRoom prev_page_id)
      else
        case FetchPage current_page_id b of
          (b, None) \<Rightarrow> Some (b, Failed)
        | (b, Some f) \<Rightarrow>
            Option.bind (try_insert data f b) (\<lambda>(slot, b).
              case slot of
                Some slot_id \<Rightarrow>
                  Some (fst (UnpinPage current_page_id True (MarkDirty f b)),
                        Inserted (RID current_page_id (word_of_int slot_id)))
              | None \<Rightarrow>
                  insert_search data (GetNextPageId (page_at f b)) current_page_id
                    (fst (UnpinPage current_page_id False b))))"

definition AllocateNewPage :: "table_heap \<Rightarrow> i32 \<Rightarrow> bpm \<Rightarrow> (bpm \<times> i32) option" where
  "AllocateNewPage h prev_page_id b = do {
     file_id \<leftarrow> heap_file_id h;
     (b, new_page_id, new_page) \<leftarrow> NewPage file_id b;
     case new_page of
       None \<Rightarrow> Some (b, INVALID_PAGE_ID)
     | Some f \<Rightarrow> do {
         let b = modify_page f (\<lambda>_. zero_page) b;
         let b = modify_page f (\<lambda>_. SetPrevPageId prev_page_id (Init new_page_id)) b;
         Some (fst (UnpinPage new_page_id True (MarkDirty f b)), new_page_id) } }"

text \<open>Linking the new page from the last one, when that one can be fetched.\<close>

definition link_previous :: "i32 \<Rightarrow> i32 \<Rightarrow> nat \<Rightarrow> bpm \<Rightarrow> bpm" where
  "link_previous prev_page_id new_page_id f b =
     (if prev_page_id = INVALID_PAGE_ID then b
      else
        case FetchPage prev_page_id b of
          (b, None) \<Rightarrow> b
        | (b, Some g) \<Rightarrow>
            let b = modify_page g (SetNextPageId new_page_id) b;
                b = modify_page f (SetPrevPageId prev_page_id) b
            in fst (UnpinPage prev_page_id True (MarkDirty g b)))"

definition heap_InsertTuple :: "table_heap \<Rightarrow> byte list \<Rightarrow> bpm \<Rightarrow> (bpm \<times> RID option) option" where
  "heap_InsertTuple h data b =
     (if length data = 0 \<or> length data > MAX_TUPLE_SIZE then Some (b, None)
      else do {
        (b, found) \<leftarrow> insert_search data (first_page_id h) INVALID_PAGE_ID b;
        case found of
          Failed \<Rightarrow> Some (b, None)
        | Inserted rid \<Rightarrow> Some (b, Some rid)
        | NoRoom prev_page_id \<Rightarrow> do {
            (b, new_page_id) \<leftarrow> AllocateNewPage h prev_page_id b;
            if new_page_id = INVALID_PAGE_ID then Some (b, None)
            else
              (case FetchPage new_page_id b of
                 (b, None) \<Rightarrow> Some (b, None)
               | (b, Some f) \<Rightarrow> do {
                   let b = modify_page f (\<lambda>_. Init new_page_id) b;
                   let b = link_previous prev_page_id new_page_id f b;
                   (slot, b) \<leftarrow> on_page f (InsertTuple data) b;
                   slot_id \<leftarrow> slot;
                   Some (fst (UnpinPage new_page_id True (MarkDirty f b)),
                         Some (RID new_page_id (word_of_int slot_id))) }) } })"

section \<open>Reading, deleting, updating\<close>

text \<open>The tuple is copied through a buffer of \<open>MAX_TUPLE_SIZE\<close> bytes and then deserialized.\<close>

definition heap_GetTuple :: "RID \<Rightarrow> bpm \<Rightarrow> (bpm \<times> byte list option) option" where
  "heap_GetTuple rid b =
     (case FetchPage (rid_page_id rid) b of
        (b, None) \<Rightarrow> Some (b, None)
      | (b, Some f) \<Rightarrow> do {
          deleted \<leftarrow> IsDeleted (page_at f b) (sint (rid_slot_id rid));
          if deleted then Some (fst (UnpinPage (rid_page_id rid) False b), None)
          else do {
            stored \<leftarrow> GetTuple (page_at f b) (sint (rid_slot_id rid));
            let b = fst (UnpinPage (rid_page_id rid) False b);
            case stored of
              None \<Rightarrow> Some (b, None)
            | Some data \<Rightarrow>
                if length data > MAX_TUPLE_SIZE then None
                else map_option (\<lambda>t. (b, Some t)) (Deserialize data) } })"

definition heap_MarkDelete :: "RID \<Rightarrow> bpm \<Rightarrow> (bpm \<times> bool) option" where
  "heap_MarkDelete rid b =
     (case FetchPage (rid_page_id rid) b of
        (b, None) \<Rightarrow> Some (b, False)
      | (b, Some f) \<Rightarrow> do {
          (ok, b) \<leftarrow> on_page f (MarkDelete (sint (rid_slot_id rid))) b;
          let b = (if ok then MarkDirty f b else b);
          Some (fst (UnpinPage (rid_page_id rid) ok b), ok) })"

definition heap_ApplyDelete :: "RID \<Rightarrow> bpm \<Rightarrow> (bpm \<times> bool) option" where
  "heap_ApplyDelete rid b =
     (case FetchPage (rid_page_id rid) b of
        (b, None) \<Rightarrow> Some (b, False)
      | (b, Some f) \<Rightarrow> do {
          (ok, b) \<leftarrow> on_page f (ApplyDelete (sint (rid_slot_id rid))) b;
          let b = (if ok then MarkDirty f b else b);
          Some (fst (UnpinPage (rid_page_id rid) ok b), ok) })"

definition heap_UpdateTuple :: "table_heap \<Rightarrow> RID \<Rightarrow> byte list \<Rightarrow> bpm \<Rightarrow> (bpm \<times> RID option) option" where
  "heap_UpdateTuple h rid data b =
     (case FetchPage (rid_page_id rid) b of
        (b, None) \<Rightarrow> Some (b, None)
      | (b, Some f) \<Rightarrow> do {
          deleted \<leftarrow> IsDeleted (page_at f b) (sint (rid_slot_id rid));
          if deleted then Some (fst (UnpinPage (rid_page_id rid) False b), None)
          else do {
            (in_place, b) \<leftarrow> on_page f (UpdateTuple (sint (rid_slot_id rid)) data) b;
            let b = fst (UnpinPage (rid_page_id rid) in_place b);
            if in_place then Some (b, Some rid)
            else do {
              b \<leftarrow> (case FetchPage (rid_page_id rid) b of
                      (b, None) \<Rightarrow> Some b
                    | (b, Some g) \<Rightarrow> do {
                        (ok, b) \<leftarrow> on_page g (MarkDelete (sint (rid_slot_id rid))) b;
                        Some (fst (UnpinPage (rid_page_id rid) True (MarkDirty g b))) });
              heap_InsertTuple h data b } } })"

partial_function (option) last_page_loop :: "i32 \<Rightarrow> i32 \<Rightarrow> bpm \<Rightarrow> (bpm \<times> i32) option" where
  "last_page_loop current last_id b =
     (if current = INVALID_PAGE_ID then Some (b, last_id)
      else
        case FetchPage current b of
          (b, None) \<Rightarrow> Some (b, current)
        | (b, Some f) \<Rightarrow>
            last_page_loop (GetNextPageId (page_at f b)) current (fst (UnpinPage current False b)))"

definition GetLastPageId :: "table_heap \<Rightarrow> bpm \<Rightarrow> (bpm \<times> i32) option" where
  "GetLastPageId h b = last_page_loop (first_page_id h) (first_page_id h) b"

section \<open>Iteration\<close>

text \<open>The iterator holds a pinned frame while it stands on a page.\<close>

record titer =
  it_first_page_id :: i32
  it_page_id :: i32
  it_slot_id :: i16
  it_page :: "nat option"

text \<open>The first slot of a list that is not deleted.\<close>

fun next_live :: "page \<Rightarrow> nat list \<Rightarrow> nat option option" where
  "next_live p [] = Some None"
| "next_live p (i # is) = do {
     deleted \<leftarrow> IsDeleted p (int i);
     if deleted then next_live p is else Some (Some i) }"

text \<open>The slot count as the \<open>int16_t\<close> the loops compare with; a negative one ends them at once.\<close>

definition slot_limit :: "page \<Rightarrow> nat" where
  "slot_limit p = nat (sint (word_of_nat (GetSlotCount p) :: i16))"

definition release_current :: "titer \<Rightarrow> bpm \<Rightarrow> titer \<times> bpm" where
  "release_current it b =
     (case it_page it of
        None \<Rightarrow> (it, b)
      | Some f \<Rightarrow> (it\<lparr>it_page := None\<rparr>, fst (UnpinPage (fr_page_id (pages b ! f)) False b)))"

partial_function (option) seek_page :: "titer \<Rightarrow> bpm \<Rightarrow> (titer \<times> bpm) option" where
  "seek_page it b =
     (if it_page_id it = INVALID_PAGE_ID then Some (release_current it b)
      else
        case FetchPage (it_page_id it) b of
          (b, None) \<Rightarrow> Some (it\<lparr>it_page_id := INVALID_PAGE_ID, it_page := None\<rparr>, b)
        | (b, Some f) \<Rightarrow>
            Option.bind (next_live (page_at f b) [0..<slot_limit (page_at f b)]) (\<lambda>slot.
              case slot of
                Some i \<Rightarrow> Some (it\<lparr>it_slot_id := word_of_nat i, it_page := Some f\<rparr>, b)
              | None \<Rightarrow>
                  seek_page (it\<lparr>it_page_id := GetNextPageId (page_at f b), it_page := None\<rparr>)
                    (fst (UnpinPage (fr_page_id (pages b ! f)) False b))))"

definition AdvanceToNextValid :: "titer \<Rightarrow> bpm \<Rightarrow> (titer \<times> bpm) option" where
  "AdvanceToNextValid it b =
     (if it_page_id it = INVALID_PAGE_ID then seek_page it b
      else
        case it_page it of
          None \<Rightarrow> seek_page it b
        | Some f \<Rightarrow> do {
            slot \<leftarrow> next_live (page_at f b) [nat (sint (it_slot_id it) + 1)..<slot_limit (page_at f b)];
            case slot of
              Some i \<Rightarrow> Some (it\<lparr>it_slot_id := word_of_nat i\<rparr>, b)
            | None \<Rightarrow> do {
                let next_page_id = GetNextPageId (page_at f b);
                let (it, b) = release_current it b;
                seek_page (it\<lparr>it_page_id := next_page_id\<rparr>) b } })"

definition Reset :: "titer \<Rightarrow> bpm \<Rightarrow> (titer \<times> bpm) option" where
  "Reset it b =
     (let (it, b) = release_current (it\<lparr>it_page_id := it_first_page_id it, it_slot_id := - 1\<rparr>) b
      in AdvanceToNextValid it b)"

definition TableIterator :: "i32 \<Rightarrow> bpm \<Rightarrow> (titer \<times> bpm) option" where
  "TableIterator pid b =
     Reset \<lparr>it_first_page_id = pid, it_page_id = pid, it_slot_id = - 1, it_page = None\<rparr> b"

definition MakeIterator :: "table_heap \<Rightarrow> bpm \<Rightarrow> (titer \<times> bpm) option" where
  "MakeIterator h b = TableIterator (first_page_id h) b"

definition HasNext :: "titer \<Rightarrow> bool" where
  "HasNext it \<longleftrightarrow> it_page_id it \<noteq> INVALID_PAGE_ID"

text \<open>\<open>Next\<close> ignores the result of \<open>GetTuple\<close>; without a tuple it would read an uninitialised buffer.\<close>

definition Next :: "titer \<Rightarrow> bpm \<Rightarrow> ((RID \<times> byte list) \<times> titer \<times> bpm) option" where
  "Next it b = do {
     f \<leftarrow> it_page it;
     stored \<leftarrow> GetTuple (page_at f b) (sint (it_slot_id it));
     data \<leftarrow> stored;
     tuple \<leftarrow> (if length data > MAX_TUPLE_SIZE then None else Deserialize data);
     (it', b) \<leftarrow> AdvanceToNextValid it b;
     Some ((RID (it_page_id it) (it_slot_id it), tuple), it', b) }"

partial_function (option) count_loop :: "nat \<Rightarrow> titer \<Rightarrow> bpm \<Rightarrow> (nat \<times> titer \<times> bpm) option" where
  "count_loop count it b =
     (if \<not> HasNext it then Some (count, it, b)
      else Option.bind (Next it b) (\<lambda>(_, it, b). count_loop (count + 1) it b))"

definition Count :: "titer \<Rightarrow> bpm \<Rightarrow> (nat \<times> titer \<times> bpm) option" where
  "Count it b = do {
     (it, b) \<leftarrow> Reset it b;
     count_loop 0 it b }"

end
