(* ===== verification/Pool_Client.thy ===== *)
theory Pool_Client
  imports Buffer_Pool_Props
begin

text \<open>
  What the clients of the buffer pool (the table heap and the indexes) use of it: reading and
  changing one page, fetching a page again, and the files behind the pool.
\<close>

lemma view_find: "find_page p b = Some f \<Longrightarrow> view b p = Some (page_at f b)"
  by (simp add: view_def page_at_def)

text \<open>Reading a page through the pool.\<close>

lemma visit:
  assumes "pool_inv {} U b" "p \<notin> U" "FetchPage p b = (b1, Some f)" "UnpinPage p False b1 = (b2, ok)"
    "view b p = Some c"
  shows "page_at f b1 = c" "pool_inv {} U b2" "view_le b b2" "pins b2 = pins b"
proof -
  note r = pool.fetch_release [OF assms(1-4)]
  have "view b2 p = Some c" by (rule r(3) [OF assms(5)])
  then show "page_at f b1 = c" using r(5) by simp
  show "pool_inv {} U b2" "pins b2 = pins b" by (fact r(2), fact r(4))
  show "view_le b b2" using r(3) by (simp add: view_le_def)
qed

text \<open>Changing a page through the pool, marking it dirty, releasing it.\<close>

lemma alter:
  assumes "pool_inv {} U b" "p \<notin> U" "FetchPage p b = (b1, Some f)" "view b p = Some c"
    "UnpinPage p True (MarkDirty f (modify_page f (\<lambda>_. c') b1)) = (b2, ok)"
  shows "pool_inv {} U b2" "pins b2 = pins b" "view b2 p = Some c'"
    "\<And>q d. q \<noteq> p \<Longrightarrow> view b q = Some d \<Longrightarrow> view b2 q = Some d"
proof -
  note F = FetchPage_law [OF assms(1,3)]
  have at: "find_page p b1 = Some f" using F(5) by simp
  have pos: "0 < pins b1 p" using F(4) pool.pinned_nonneg [OF assms(1), of p] by simp
  note M = modify_page_law [OF F(1) at pos, where g = "\<lambda>_. c'"]
  let ?m = "modify_page f (\<lambda>_. c') b1"
  have at2: "find_page p ?m = Some f" and pos2: "0 < pins ?m p" using M(3,4) at pos by simp_all
  note D = MarkDirty_law [OF M(1) at2 pos2]
  have pos3: "0 < pins (MarkDirty f ?m) p" using D(3) pos2 by simp
  note R = UnpinPage_law [OF D(1) pos3 _ assms(5)]
  show "pool_inv {} U b2" using R(2) assms(2) by simp
  show "pins b2 = pins b" using R(4) D(3) M(3) F(4) by simp
  show "view b2 p = Some c'" using R(3) D(2) M(2) by simp
  show "view b2 q = Some d" if "q \<noteq> p" "view b q = Some d" for q d
    using that R(3) D(2) M(2) F(2) by (simp add: view_le_def)
qed


text \<open>A page that is released and fetched again at once is still in its frame, changed or not.\<close>

lemma unpin_refetch:
  assumes "pool_inv {} U b" "find_page p b = Some f" "0 < pins b p" "UnpinPage p False b = (b1, ok)"
    "FetchPage p b1 = (b2, r)"
  shows "r = Some f" "pool_inv {} U b2" "view b2 = view b" "pins b2 = pins b" "\<And>q. find_page q b2 = find_page q b"
    "page_at f b2 = page_at f b" "disk_manager b2 = disk_manager b"
proof -
  note I = pool_invD [OF assms(1)]
  note D = frames_okD [OF I(1)]
  have f: "p \<noteq> INVALID_PAGE_ID" "f < pool_size b" "fr_page_id (pages b ! f) = p" "f < length (pages b)"
    "0 < fr_pin_count (pages b ! f)"
    using D(1) D(2) [OF assms(2)] assms(2,3) by (auto simp: pins_def)
  let ?r = "if fr_pin_count (pages b ! f) = 1 then Unpin f (replacer b) else replacer b"
  have pages: "pages b2 = pages b" and rest: "r = Some f" "replacer b2 = Pin f ?r" "disk_manager b2 = disk_manager b"
    "page_table b2 = page_table b" "free_list b2 = free_list b" "pool_size b2 = pool_size b"
  proof -
    let ?fr = "(pages b ! f)\<lparr>fr_pin_count := fr_pin_count (pages b ! f) - 1\<rparr>"
    let ?s = "set_frame f ?fr b"
    have "b1 = (if fr_pin_count (pages b ! f) - 1 = 0 then ?s\<lparr>replacer := Unpin f (replacer b)\<rparr> else ?s)"
      using assms(2,4) f(1,5) by (simp add: UnpinPage_def Let_def split: if_splits)
    then have b1: "pages b1 = (pages b)[f := ?fr]" "replacer b1 = ?r" "disk_manager b1 = disk_manager b"
      "page_table b1 = page_table b" "free_list b1 = free_list b" "pool_size b1 = pool_size b"
      by (auto simp: set_frame_def)
    then have "find_page p b1 = Some f" using assms(2) by (simp add: find_page_def)
    then have "r = Some f \<and> b2 = (set_frame f ((pages b1 ! f)\<lparr>fr_pin_count := fr_pin_count (pages b1 ! f) + 1\<rparr>)
        (b1\<lparr>access_count := access_count b1 + 1\<rparr>))\<lparr>replacer := Pin f (replacer b1), hit_count := hit_count b1 + 1\<rparr>"
      using assms(5) f(1) by (simp add: FetchPage_def Let_def)
    moreover have "(pages b1 ! f)\<lparr>fr_pin_count := fr_pin_count (pages b1 ! f) + 1\<rparr> = pages b ! f"
      using f(4) b1(1) by simp
    ultimately show "pages b2 = pages b" "r = Some f" "replacer b2 = Pin f ?r" "disk_manager b2 = disk_manager b"
      "page_table b2 = page_table b" "free_list b2 = free_list b" "pool_size b2 = pool_size b"
      using b1 by (simp_all add: set_frame_def)
  qed
  show "r = Some f" "disk_manager b2 = disk_manager b" by (fact rest)+
  show find: "find_page q b2 = find_page q b" for q by (simp add: find_page_def rest)
  show "view b2 = view b" "pins b2 = pins b" using view_cong [OF pages rest(3) find] by simp_all
  show "page_at f b2 = page_at f b" by (simp add: page_at_def pages)
  have "replacer_ok b2"
    using I(2) policy.pin_law [of ?r f] policy.unpin_law [of "replacer b" f] f(2)
    unfolding replacer_ok_def rest(2,6) pages by (auto split: if_splits)
  then show "pool_inv {} U b2"
    using frames_ok_cong [OF I(1) rest(6) pages rest(5) find] coherent_cong [OF I(3) pages rest(3) find] I(4) rest(3)
    by (simp add: pool_inv_def)
qed

definition same_files :: "(i16 \<Rightarrow> i16 list) \<Rightarrow> bpm \<Rightarrow> bpm \<Rightarrow> bool" where
  "same_files fls b b' \<longleftrightarrow> files_ok fls b' \<and> (\<forall>q. in_use fls (disk_manager b') q = in_use fls (disk_manager b) q)"

lemma same_files_trans: "same_files fls a b \<Longrightarrow> same_files fls b c \<Longrightarrow> same_files fls a c"
  by (simp add: same_files_def)

lemma fetch_same_files:
  "pool_inv {} U b \<Longrightarrow> files_ok fls b \<Longrightarrow> FetchPage p b = (b', r) \<Longrightarrow> in_use fls (disk_manager b) p \<Longrightarrow>
   same_files fls b b'"
  using FetchPage_files unfolding same_files_def by blast

lemma same_files_unpin: "UnpinPage p dirty b = (b', ok) \<Longrightarrow> same_files fls a b \<Longrightarrow> same_files fls a b'"
  using UnpinPage_files [of p dirty b b' ok fls] by (simp add: same_files_def)

lemma same_files_modify [simp]:
  "same_files fls a (modify_page f g b) = same_files fls a b" "same_files fls a (MarkDirty f b) = same_files fls a b"
  by (simp_all add: same_files_def modify_page_files MarkDirty_files)


text \<open>A miss while frames are free.\<close>

lemma FetchPage_free:
  assumes "find_page p b = None" "p \<noteq> INVALID_PAGE_ID" "free_list b = f # fs" "ReadPage p (disk_manager b) = Some c"
  shows "FetchPage p b = (install f p c (b\<lparr>access_count := access_count b + 1, free_list := fs\<rparr>), Some f)"
  using assms by (simp add: FetchPage_miss GetFreeFrame_def)

lemma UnpinPage_fields:
  "free_list (fst (UnpinPage p dirty b)) = free_list b" "disk_manager (fst (UnpinPage p dirty b)) = disk_manager b"
  "find_page q (fst (UnpinPage p dirty b)) = find_page q b"
  by (simp_all add: UnpinPage_def Let_def split: option.splits)

section \<open>New pages\<close>

text \<open>\<open>NewPage\<close> always returns; without a frame it gives the page back to the file.\<close>

lemma NewPage_total:
  assumes "pool_inv {} U b" "files_ok fls b" "GetFileEntry fid (disk_manager b) \<noteq> None"
    "fls fid = [] \<longrightarrow> GetNumPages fid (disk_manager b) \<noteq> - 1"
  shows "\<exists>b' pid fo. NewPage fid b = Some (b', pid, fo) \<and>
    (fo = None \<longrightarrow> pool_inv {} U b' \<and> pins b' = pins b \<and>
       (\<forall>q c. in_use fls (disk_manager b) q \<longrightarrow> view b q = Some c \<longrightarrow> view b' q = Some c))"
proof -
  note I = pool_invD [OF assms(1)]
  have "file_wf (disk_manager b) fid (fls fid)" using assms(2,3) by (auto simp: files_ok_def)
  from allocate_law [OF I(4) this assms(4)] obtain d pid where
    a: "AllocatePage fid (disk_manager b) = Some (d, pid)" by auto
  let ?b1 = "b\<lparr>disk_manager := d\<rparr>" and ?fls = "fls(fid := tl (fls fid))"
  note al = allocated_pool [OF assms a]
  show ?thesis
  proof (cases "pid = INVALID_PAGE_ID")
    case True
    then have "NewPage fid b = Some (?b1, pid, None)" using a by (simp add: NewPage_def)
    then show ?thesis using al by auto
  next
    case False
    obtain b2 fo where g: "GetFreeFrame ?b1 = (b2, fo)" by fastforce
    note law = GetFreeFrame_law [OF al(1) g]
    show ?thesis
    proof (cases fo)
      case (Some f)
      then show ?thesis using a False g by (auto simp: NewPage_def Let_def)
    next
      case None
      have inv2: "pool_inv {} U b2" and d2: "disk_manager b2 = d" using law(1,5) None by simp_all
      have "in_use ?fls d pid" using al(5) [of pid] by simp
      then have e: "GetFileEntry fid d \<noteq> None" and n: "GetPageNo pid \<in> allocated d fid (?fls fid)"
        using al(3) by (auto simp: in_use_def)
      have "file_wf d fid (?fls fid)" using al(2) e by (auto simp: files_ok_def)
      from deallocate_law [OF _ this n] pool_invD(4) [OF inv2] d2 al(3) obtain d' where
        d': "DeallocatePage pid d = Some d'" "disk_inv d'"
          "\<And>q c. ReadPage q d = Some c \<Longrightarrow> q \<noteq> MakePageId fid 0 \<Longrightarrow> q \<noteq> pid \<Longrightarrow> ReadPage q d' = Some c"
        by (metis MakePageId_GetFileId_GetPageNo)
      let ?b3 = "b2\<lparr>disk_manager := d'\<rparr>"
      have run: "NewPage fid b = Some (?b3, pid, None)" using a False g None d'(1) d2 by (simp add: NewPage_def)
      have files2: "files_ok ?fls b2" by (rule GetFreeFrame_files [OF al(1,2) g])
      have nf: "find_page pid b2 = None"
        using GetFreeFrame_find [OF g, of pid] al(8) by (cases "find_page pid b2") auto
      have nh: "q \<noteq> MakePageId fid 0" if "in_use F D q" for F D q using that in_use_not_header by blast
      have inv3: "pool_inv {} U ?b3"
      proof (rule pool_disk_change [OF inv2 d'(2)])
        fix q f c assume q: "find_page q b2 = Some f" "ReadPage q (disk_manager b2) = Some c"
        then have "in_use ?fls d q" using files2 d2 by (auto simp: files_ok_def)
        moreover have "q \<noteq> pid" using q nf by auto
        ultimately show "ReadPage q d' = Some c" using d'(3) q(2) d2 nh by blast
      qed
      have "view ?b3 q = Some c" if q: "in_use fls (disk_manager b) q" "view b q = Some c" for q c
      proof -
        have "view b2 q = Some c" using al(6) [OF q] law(2) by (simp add: view_le_def)
        moreover have "q \<noteq> pid" using q(1) al(4) by auto
        ultimately show ?thesis using d'(3) [of q c] nh [OF q(1)] d2 by (auto simp: view_def split: option.splits)
      qed
      moreover have "pins ?b3 = pins b" using pins_cong [of ?b3 b2] law(3) al(7) by simp
      ultimately show ?thesis using run inv3 by blast
    qed
  qed
qed

text \<open>The entries of the open files change only when a page is allocated.\<close>

lemma GetFreeFrame_entry:
  assumes "GetFreeFrame b = (b', fo)" shows "GetFileEntry g (disk_manager b') = GetFileEntry g (disk_manager b)"
proof (cases "free_list b")
  case Nil
  then have e: "EvictPage b = (b', fo)" using assms by (simp add: GetFreeFrame_def)
  show ?thesis
  proof (cases fo)
    case None
    then show ?thesis using EvictPage_None [of b b'] e by auto
  next
    case (Some f)
    with EvictPage_Some [of b b' f] e obtain r d where
      b': "b' = clear_frame f (b\<lparr>replacer := r, disk_manager := d\<rparr>)" and
      d: "if fr_dirty (pages b ! f) then WritePage (fr_page_id (pages b ! f)) (fr_data (pages b ! f)) (disk_manager b) = (d, True)
          else d = disk_manager b" by blast
    from d have "GetFileEntry g d = GetFileEntry g (disk_manager b)"
      using WritePage_entry [of _ _ _ d True] by (cases "fr_dirty (pages b ! f)") auto
    then show ?thesis by (simp add: b')
  qed
next
  case (Cons f fs)
  then have "b' = b\<lparr>free_list := fs\<rparr>" using assms by (simp add: GetFreeFrame_def)
  then show ?thesis by simp
qed

lemma FetchPage_entry:
  assumes "pool_inv {} U b" "FetchPage p b = (b', r)"
  shows "GetFileEntry g (disk_manager b') = GetFileEntry g (disk_manager b)"
proof (cases "p = INVALID_PAGE_ID")
  case True
  then show ?thesis using assms by (simp add: FetchPage_def)
next
  case False
  show ?thesis
  proof (cases "find_page p b")
    case (Some f)
    then show ?thesis using FetchPage_hit [OF assms(1) Some assms(2)] by simp
  next
    case None
    obtain b1 fo where g: "GetFreeFrame (b\<lparr>access_count := access_count b + 1\<rparr>) = (b1, fo)" by fastforce
    note run = assms(2) [unfolded FetchPage_miss [OF None False] g prod.case]
    have "disk_manager b' = disk_manager b1" using run by (auto split: option.splits)
    then show ?thesis using GetFreeFrame_entry [OF g] by simp
  qed
qed

text \<open>Room for a number of new pages in a file: on its free chain, or before its page count wraps.\<close>

definition pages_left :: "(i16 \<Rightarrow> i16 list) \<Rightarrow> i16 \<Rightarrow> nat \<Rightarrow> bpm \<Rightarrow> bool" where
  "pages_left fls fid n b \<longleftrightarrow> GetFileEntry fid (disk_manager b) \<noteq> None \<and>
     unat (GetNumPages fid (disk_manager b)) + (n - length (fls fid)) \<le> 65535"

lemma pages_leftD:
  assumes "pages_left fls fid n b" "0 < n"
  shows "GetFileEntry fid (disk_manager b) \<noteq> None" "fls fid = [] \<longrightarrow> GetNumPages fid (disk_manager b) \<noteq> - 1"
proof -
  show "GetFileEntry fid (disk_manager b) \<noteq> None" using assms(1) by (simp add: pages_left_def)
  have "unat (- 1 :: i16) = 65535" by (simp add: unsigned_minus_1_eq_mask mask_eq_exp_minus_1)
  then show "fls fid = [] \<longrightarrow> GetNumPages fid (disk_manager b) \<noteq> - 1" using assms by (auto simp: pages_left_def)
qed

lemma pages_left_cong:
  "GetFileEntry fid (disk_manager b') = GetFileEntry fid (disk_manager b) \<Longrightarrow> pages_left fls fid n b' = pages_left fls fid n b"
  by (simp add: pages_left_def GetNumPages_def)

lemma NewPage_left:
  assumes "pool_inv {} U b" "files_ok fls b" "pages_left fls fid (Suc n) b" "NewPage fid b = Some (b', pid, Some f)"
  shows "pages_left (fls(fid := tl (fls fid))) fid n b'"
proof -
  note P = pages_leftD [OF assms(3) zero_less_Suc]
  let ?d = "disk_manager b"
  have wf: "file_wf ?d fid (fls fid)" using assms(2) P(1) by (auto simp: files_ok_def)
  note I = pool_invD(4) [OF assms(1)]
  from assms(4) obtain d where a: "AllocatePage fid ?d = Some (d, pid)"
    by (auto simp: NewPage_def bind_eq_Some_conv Let_def split: if_splits prod.splits option.splits)
  obtain b2 fo where g: "GetFreeFrame (b\<lparr>disk_manager := d\<rparr>) = (b2, fo)" by fastforce
  have "disk_manager b' = disk_manager b2"
    using assms(4) a g by (auto simp: NewPage_def bind_eq_Some_conv Let_def split: option.splits if_splits)
  then have e: "GetFileEntry fid (disk_manager b') = GetFileEntry fid d" using GetFreeFrame_entry [OF g] by simp
  have wfD: "file_wf x g fl \<Longrightarrow> GetFileEntry g x \<noteq> None" for x g fl by (auto simp: file_wf_def split: option.splits)
  have n: "GetNumPages fid d = (if fls fid = [] then GetNumPages fid ?d + 1 else GetNumPages fid ?d) \<and> GetFileEntry fid d \<noteq> None"
  proof (cases "fls fid")
    case Nil
    then have "file_wf ?d fid []" "GetNumPages fid ?d \<noteq> - 1" using wf P(2) by simp_all
    from allocate_grow_law [OF I this] a Nil show ?thesis by (auto dest: wfD)
  next
    case (Cons m ms)
    then have "file_wf ?d fid (m # ms)" using wf by simp
    from allocate_reuse_law [OF I this] a Cons show ?thesis by (auto dest: wfD)
  qed
  have "unat (GetNumPages fid ?d + 1) \<le> unat (GetNumPages fid ?d) + 1" by (simp add: unat_word_ariths)
  then show ?thesis
    using assms(3) n e by (cases "fls fid") (auto simp: pages_left_def GetNumPages_def)
qed

text \<open>A page that is pinned stays in its frame while a new page is made.\<close>

lemma NewPage_find:
  assumes "NewPage fid b = Some (b', pid, Some f)" "find_page q b' = Some g" "q \<noteq> pid"
  shows "find_page q b = Some g"
proof -
  from assms(1) obtain d where a: "AllocatePage fid (disk_manager b) = Some (d, pid)"
    by (auto simp: NewPage_def bind_eq_Some_conv Let_def split: if_splits prod.splits option.splits)
  obtain b2 fo where g: "GetFreeFrame (b\<lparr>disk_manager := d\<rparr>) = (b2, fo)" by fastforce
  have "find_page q b' = find_page q b2"
    using assms(1,3) a g by (auto simp: NewPage_def bind_eq_Some_conv Let_def find_page_def split: option.splits if_splits)
  then show ?thesis using GetFreeFrame_find [OF g, of q] assms(2) by (simp add: find_page_def)
qed

section \<open>A concrete pool with one page in use\<close>

definition page_disk :: "page \<Rightarrow> disk" where "page_disk c = fst (WritePage demo_page_id c demo_disk2)"

definition page_pool :: "page \<Rightarrow> bpm" where "page_pool c = BufferPoolManager 2 (page_disk c) (LRUK (LRUKReplacer 2))"

lemma page_disk_write: "WritePage demo_page_id c demo_disk2 = (page_disk c, True)"
proof -
  obtain e ps where e: "GetFileEntry 0 demo_disk2 = Some e" "\<forall>n. \<not> broken demo_disk2 (inode e) n"
    using file_wfE [OF demo_disk2_facts(2)] by metis
  then have "writable demo_page_id demo_disk2" by (simp add: writable_def demo_page_id_def)
  then show ?thesis using writable_WritePage [of demo_page_id demo_disk2 c] by (auto simp: page_disk_def)
qed

lemma page_disk_entry: "GetFileEntry fid (page_disk c) = GetFileEntry fid demo_disk2"
  by (rule WritePage_entry [OF page_disk_write])

lemma page_pool_facts:
  "pool_inv {} {} (page_pool c)" "files_ok (\<lambda>_. []) (page_pool c)" "view (page_pool c) demo_page_id = Some c"
  "in_use (\<lambda>_. []) (disk_manager (page_pool c)) q = in_use (\<lambda>_. []) demo_disk2 q"
  "n < 60000 \<Longrightarrow> pages_left (\<lambda>_. []) 0 n (page_pool c)" "\<exists>b f. FetchPage demo_page_id (page_pool c) = (b, Some f)"
proof -
  have inv: "disk_inv (page_disk c)" by (rule WritePage_inv [OF demo_disk2_facts(1) page_disk_write])
  have d: "disk_manager (page_pool c) = page_disk c" by (simp add: page_pool_def BufferPoolManager_def)
  show u: "in_use (\<lambda>_. []) (disk_manager (page_pool c)) q = in_use (\<lambda>_. []) demo_disk2 q" for q
    using WritePage_in_use [OF page_disk_write] d by simp
  show "pool_inv {} {} (page_pool c)" unfolding page_pool_def by (rule pool_inv_initial) (simp_all add: inv)
  have "file_wf (page_disk c) fid []" if "GetFileEntry fid (page_disk c) \<noteq> None" for fid
  proof (rule WritePage_file_wf [OF demo_disk2_facts(1) _ _ page_disk_write])
    show "file_wf demo_disk2 fid []"
      using demo_pool_files that by (simp add: files_ok_def demo_pool_def BufferPoolManager_def page_disk_entry)
    show "GetPageNo demo_page_id \<in> allocated demo_disk2 fid []" if "GetFileId demo_page_id = fid"
      using that demo_disk2_facts(3) by (auto simp: demo_page_id_def)
  qed
  then show "files_ok (\<lambda>_. []) (page_pool c)"
    by (simp add: files_ok_def d) (simp add: page_pool_def BufferPoolManager_def find_page_def)
  have r: "ReadPage demo_page_id (page_disk c) = Some c"
    using device.write_ok [OF demo_disk2_facts(1) page_disk_write] by simp
  then show "view (page_pool c) demo_page_id = Some c"
    by (simp add: view_def page_pool_def BufferPoolManager_def find_page_def)
  show "pages_left (\<lambda>_. []) 0 n (page_pool c)" if "n < 60000"
    using that demo_disk2_facts(2) demo_disk2_pages
    by (auto simp: pages_left_def d page_disk_entry GetNumPages_def file_wf_def split: option.splits)
  show "\<exists>b f. FetchPage demo_page_id (page_pool c) = (b, Some f)"
    using r demo_page_id_valid
    by (simp add: FetchPage_miss page_pool_def BufferPoolManager_def find_page_def GetFreeFrame_def numeral_2_eq_2)
qed

end
