(* ===== verification/Table_Heap_Props.thy ===== *)
theory Table_Heap_Props
  imports Table_Heap Pool_Client Table_Page_Props
begin

text \<open>
  Correctness of the table heap over the buffer pool: the chain of pages a heap is made of, the
  rows it holds, and what inserting, deleting and reading do to them, whatever the pool evicts
  in between.
\<close>

section \<open>Chains and rows\<close>

fun page_chain :: "(i32 \<Rightarrow> page option) \<Rightarrow> i32 list \<Rightarrow> i32 \<Rightarrow> bool" where
  "page_chain v [] cur = (cur = INVALID_PAGE_ID)"
| "page_chain v (p # ps) cur = (cur = p \<and> p \<noteq> INVALID_PAGE_ID \<and>
     (case v p of None \<Rightarrow> False | Some c \<Rightarrow> tp_wf c \<and> page_chain v ps (GetNextPageId c)))"

text \<open>The row a heap stores under a row id.\<close>

definition heap_row :: "(i32 \<Rightarrow> page option) \<Rightarrow> RID \<Rightarrow> byte list option" where
  "heap_row v rid = (case v (rid_page_id rid) of None \<Rightarrow> None
     | Some c \<Rightarrow> Option.bind (GetTuple c (sint (rid_slot_id rid))) id)"

lemma page_chain_mono:
  "page_chain v ps cur \<Longrightarrow> (\<And>p c. p \<in> set ps \<Longrightarrow> v p = Some c \<Longrightarrow> v' p = Some c) \<Longrightarrow> page_chain v' ps cur"
  by (induction ps arbitrary: cur) (auto split: option.splits)

lemma page_chain_view: "page_chain v ps cur \<Longrightarrow> p \<in> set ps \<Longrightarrow> \<exists>c. v p = Some c \<and> tp_wf c \<and> p \<noteq> INVALID_PAGE_ID"
  by (induction ps arbitrary: cur) (auto split: option.splits)

lemma page_chain_change:
  assumes "page_chain v ps cur" "v p = Some c" "tp_wf c'" "GetNextPageId c' = GetNextPageId c"
    "\<And>q d. q \<noteq> p \<Longrightarrow> q \<in> set ps \<Longrightarrow> v q = Some d \<Longrightarrow> v' q = Some d" "v' p = Some c'"
  shows "page_chain v' ps cur"
  using assms(1,5)
proof (induction ps arbitrary: cur)
  case Nil
  then show ?case by simp
next
  case (Cons q ps)
  then obtain d where d: "v q = Some d" "tp_wf d" "cur = q" "q \<noteq> INVALID_PAGE_ID"
    "page_chain v ps (GetNextPageId d)" by (auto split: option.splits)
  have t: "page_chain v' ps (GetNextPageId d)" using Cons.IH [OF d(5)] Cons.prems(2) by auto
  show ?case
  proof (cases "q = p")
    case True
    then show ?thesis using d t assms(2-4,6) by simp
  next
    case False
    then show ?thesis using d t Cons.prems(2) [OF False _ d(1)] by simp
  qed
qed

lemma page_chain_link:
  assumes "page_chain v (ps @ [p]) cur" "distinct (ps @ [p])" "v p = Some c"
    "v' p = Some c'" "tp_wf c'" "GetNextPageId c' = n" "v' n = Some e" "tp_wf e" "GetNextPageId e = INVALID_PAGE_ID"
    "n \<noteq> INVALID_PAGE_ID" "\<And>q d. q \<in> set ps \<Longrightarrow> v q = Some d \<Longrightarrow> v' q = Some d"
  shows "page_chain v' (ps @ [p, n]) cur"
  using assms(1,2,11)
proof (induction ps arbitrary: cur)
  case Nil
  then show ?case using assms(3-10) by (auto split: option.splits)
next
  case (Cons q ps)
  then show ?case by (auto split: option.splits)
qed

section \<open>Slot ids\<close>

lemma slot_count_small:
  assumes "tp_wf p" shows "GetSlotCount p \<le> 4090"
  using assms by (simp add: tp_wf_def slot_end_def PAGE_SIZE_def)

lemma sint_slot: "n \<le> 4090 \<Longrightarrow> sint (word_of_int (int n) :: i16) = int n"
  by (simp add: signed_of_int signed_take_bit_int_eq_self del: of_int_of_nat_eq)

lemma heap_row_inserted:
  assumes "tp_wf c" "fits data c" "v p = Some c" "v' p = Some (inserted_page data c)"
    "\<And>q d. q \<noteq> p \<Longrightarrow> v q = Some d \<Longrightarrow> v' q = Some d"
    "s = word_of_int (int (GetSlotCount c))"
  shows "heap_row v (RID p s) = None" "heap_row v' (RID p s) = Some data"
    "rid \<noteq> RID p s \<Longrightarrow> v (rid_page_id rid) \<noteq> None \<Longrightarrow> heap_row v' rid = heap_row v rid"
proof -
  have s: "sint s = int (GetSlotCount c)" using sint_slot [OF slot_count_small [OF assms(1)]] assms(6) by simp
  note w = inserted_wf [OF assms(1,2)] and a = inserted_abs [OF assms(1,2)]
  show "heap_row v (RID p s) = None" using s by (simp add: heap_row_def assms GetTuple_wf)
  show "heap_row v' (RID p s) = Some data" using s by (simp add: heap_row_def assms(2,4) GetTuple_wf w a nth_append inserted_count)
  show "heap_row v' rid = heap_row v rid" if r: "rid \<noteq> RID p s" "v (rid_page_id rid) \<noteq> None"
  proof (cases "rid_page_id rid = p")
    case True
    then have "sint (rid_slot_id rid) \<noteq> int (GetSlotCount c)"
      using r(1) s by (metis RID.collapse sint_inject)
    with True show ?thesis
      by (auto simp: heap_row_def assms(2,3,4) GetTuple_wf w a nth_append assms(1) inserted_count)
  next
    case False
    then show ?thesis using r(2) assms(5) by (auto simp: heap_row_def split: option.splits)
  qed
qed

section \<open>One page\<close>

lemma try_insert_law:
  assumes "tp_wf (page_at f b)" "data \<noteq> []" "length data \<le> MAX_TUPLE_SIZE"
  shows "try_insert data f b = Some (None, b) \<or>
    fits data (page_at f b) \<and>
    try_insert data f b = Some (Some (int (GetSlotCount (page_at f b))),
      modify_page f (\<lambda>_. inserted_page data (page_at f b)) b)"
proof -
  from tp.free_total [OF assms(1)] obtain n where n: "GetFreeSpace (page_at f b) = Some n" by blast
  show ?thesis
  proof (cases "length data + SLOT_SIZE \<le> n")
    case True
    then have "fits data (page_at f b)"
      using fits_free [OF assms n] by (simp add: SLOT_SIZE_def)
    with True n InsertTuple_fits [OF assms(1)] show ?thesis
      by (simp add: try_insert_def on_page_def)
  next
    case False
    then show ?thesis using n by (simp add: try_insert_def)
  qed
qed

section \<open>The search for a page with room\<close>

text \<open>What the search leaves behind: the views of all pages, but for the row it inserted.\<close>

definition searched :: "i32 list \<Rightarrow> byte list \<Rightarrow> bpm \<Rightarrow> bpm \<Rightarrow> search \<Rightarrow> bool" where
  "searched ps data b b' r \<longleftrightarrow>
     (case r of
        Inserted rid \<Rightarrow> \<exists>c. rid_page_id rid \<in> set ps \<and> view b (rid_page_id rid) = Some c \<and> tp_wf c \<and> fits data c \<and>
          rid_slot_id rid = word_of_int (int (GetSlotCount c)) \<and>
          view b' (rid_page_id rid) = Some (inserted_page data c) \<and>
          (\<forall>q d. q \<noteq> rid_page_id rid \<longrightarrow> view b q = Some d \<longrightarrow> view b' q = Some d)
      | _ \<Rightarrow> view_le b b')"

lemma insert_search_law:
  assumes "data \<noteq> []" "length data \<le> MAX_TUPLE_SIZE"
  shows "pool_inv {} U b \<Longrightarrow> U \<inter> set ps = {} \<Longrightarrow> page_chain (view b) ps cur \<Longrightarrow> files_ok fls b \<Longrightarrow>
    (\<And>p. p \<in> set ps \<Longrightarrow> in_use fls (disk_manager b) p) \<Longrightarrow>
    \<exists>b' r. insert_search data cur prev b = Some (b', r) \<and> pool_inv {} U b' \<and> pins b' = pins b \<and>
      searched ps data b b' r \<and> (\<forall>q. r = NoRoom q \<longrightarrow> q = last (prev # ps)) \<and> same_files fls b b'"
proof (induction ps arbitrary: b cur prev)
  case Nil
  then show ?case by (simp add: insert_search.simps searched_def same_files_def)
next
  case (Cons p ps)
  from Cons.prems(3) obtain c where c: "cur = p" "p \<noteq> INVALID_PAGE_ID" "view b p = Some c" "tp_wf c"
    "page_chain (view b) ps (GetNextPageId c)" by (auto split: option.splits)
  have pU: "p \<notin> U" using Cons.prems(2) by simp
  obtain b1 fo where f: "FetchPage p b = (b1, fo)" by fastforce
  note F = FetchPage_law [OF Cons.prems(1) f]
  have S: "same_files fls b b1"
    using fetch_same_files [OF Cons.prems(1,4) f] Cons.prems(5) by simp
  show ?case
  proof (cases fo)
    case None
    then have "insert_search data cur prev b = Some (b1, Failed)" using c(1,2) f by (simp add: insert_search.simps)
    then show ?thesis using F None S by (auto simp: searched_def)
  next
    case (Some g)
    have at: "page_at g b1 = c" using F(2,5) Some c(3) by (simp add: view_le_def)
    have fg: "FetchPage p b = (b1, Some g)" using f Some by simp
    from try_insert_law [of g b1 data] assms c(4) at
    consider "try_insert data g b1 = Some (None, b1)" |
      "fits data c" "try_insert data g b1 = Some (Some (int (GetSlotCount c)), modify_page g (\<lambda>_. inserted_page data c) b1)"
      by auto
    then show ?thesis
    proof cases
      case 1
      obtain b2 ok where u: "UnpinPage p False b1 = (b2, ok)" by fastforce
      note v = visit [OF Cons.prems(1) pU fg u c(3)]
      have "page_chain (view b2) ps (GetNextPageId c)"
        using page_chain_mono [OF c(5), of "view b2"] v(3) by (simp add: view_le_def)
      moreover have S2: "same_files fls b b2" by (rule same_files_unpin [OF u S])
      ultimately obtain b' r where
        r: "insert_search data (GetNextPageId c) p b2 = Some (b', r)" "pool_inv {} U b'" "pins b' = pins b2"
          "searched ps data b2 b' r" "\<forall>q. r = NoRoom q \<longrightarrow> q = last (p # ps)" "same_files fls b2 b'"
        using Cons.IH [OF v(2), of "GetNextPageId c" p] Cons.prems(2,5) unfolding same_files_def by auto
      have "insert_search data cur prev b = Some (b', r)"
        by (subst insert_search.simps) (simp add: c(1,2) fg 1 at u r(1))
      moreover have "searched (p # ps) data b b' r"
      proof (cases r)
        case (Inserted rid)
        with r(4) obtain e where e: "rid_page_id rid \<in> set ps" "view b2 (rid_page_id rid) = Some e" "tp_wf e" "fits data e"
          "rid_slot_id rid = word_of_int (int (GetSlotCount e))" "view b' (rid_page_id rid) = Some (inserted_page data e)"
          "\<forall>q d. q \<noteq> rid_page_id rid \<longrightarrow> view b2 q = Some d \<longrightarrow> view b' q = Some d" by (auto simp: searched_def)
        have "\<exists>d. view b (rid_page_id rid) = Some d" using page_chain_view [OF c(5) e(1)] by auto
        then have "view b (rid_page_id rid) = Some e" using e(2) v(3) by (auto simp: view_le_def)
        with e v(3) show ?thesis by (simp add: searched_def Inserted view_le_def)
      qed (use r(4) v(3) in \<open>auto simp: searched_def dest: view_le_trans\<close>)
      ultimately show ?thesis using r v(4) same_files_trans [OF S2 r(6)] by auto
    next
      case 2
      obtain b2 ok where u: "UnpinPage p True (MarkDirty g (modify_page g (\<lambda>_. inserted_page data c) b1)) = (b2, ok)"
        by fastforce
      note a = alter [OF Cons.prems(1) pU fg c(3) u]
      have "insert_search data cur prev b = Some (b2, Inserted (RID p (word_of_int (int (GetSlotCount c)))))"
        by (subst insert_search.simps) (simp add: c(1,2) fg 2 u)
      moreover have "searched (p # ps) data b b2 (Inserted (RID p (word_of_int (int (GetSlotCount c)))))"
        using a(3,4) c(3,4) 2(1) by (auto simp: searched_def)
      moreover have "same_files fls b b2" using same_files_unpin [OF u] S by simp
      ultimately show ?thesis using a(1,2) by auto
    qed
  qed
qed

section \<open>A new page\<close>

text \<open>A page whose bytes from the slot count on are the same holds the same tuples.\<close>

lemma same_slots:
  assumes "tp_wf p" "\<And>a n. 20 \<le> a \<Longrightarrow> mem_read q a n = mem_read p a n"
  shows "GetSlotCount q = GetSlotCount p" "tp_wf q" "tp_abs q = tp_abs p" "fits data q = fits data p"
proof -
  show c: "GetSlotCount q = GetSlotCount p" by (simp add: GetSlotCount_def assms(2) layout_defs)
  have o: "slot_off q = slot_off p" "slot_size q = slot_size p"
    by (simp_all add: fun_eq_iff slot_off_def slot_size_def assms(2))
  have l: "live q = live p" by (simp add: fun_eq_iff live_def o)
  show "tp_wf q" using assms(1) by (simp add: tp_wf_def slot_end_def tuple_in_def apart_def c o l)
  have "lowest_tuple q = lowest_tuple p" unfolding lowest_tuple_def c l o ..
  then show "fits data q = fits data p" by (simp add: fits_def slot_end_def c)
  have "tp_slot q k = tp_slot p k" if "k < GetSlotCount p" for k
  proof (cases "live p k")
    case True
    then have "24 \<le> slot_off p k" using tp_wf_tuple [OF assms(1) that] by (simp add: tuple_in_def slot_end_def)
    then show ?thesis by (simp add: tp_slot_def tuple_at_def l o assms(2))
  qed (simp add: tp_slot_def l)
  then show "tp_abs q = tp_abs p" by (simp add: tp_abs_def c)
qed

lemma link_writes:
  assumes "tp_wf p"
  shows "tp_wf (SetNextPageId n p)" "tp_abs (SetNextPageId n p) = tp_abs p" "GetNextPageId (SetNextPageId n p) = n"
    "tp_wf (SetPrevPageId n p)" "tp_abs (SetPrevPageId n p) = tp_abs p"
    "GetNextPageId (SetPrevPageId n p) = GetNextPageId p" "fits data (SetPrevPageId n p) = fits data p"
    "GetSlotCount (SetPrevPageId n p) = GetSlotCount p"
proof -
  have n: "mem_read (SetNextPageId n p) a m = mem_read p a m" if "20 \<le> a" for a m
    using that by (simp add: SetNextPageId_def layout_defs mem_read_write_disjoint)
  have q: "mem_read (SetPrevPageId n p) a m = mem_read p a m" if "16 \<le> a" for a m
    using that by (simp add: SetPrevPageId_def layout_defs mem_read_write_disjoint)
  note N = same_slots [OF assms n] and Q = same_slots [OF assms, of "SetPrevPageId n p"]
  show "tp_wf (SetNextPageId n p)" "tp_abs (SetNextPageId n p) = tp_abs p" using N by simp_all
  show "tp_wf (SetPrevPageId n p)" "tp_abs (SetPrevPageId n p) = tp_abs p" "fits data (SetPrevPageId n p) = fits data p"
    "GetSlotCount (SetPrevPageId n p) = GetSlotCount p"
    using Q q by simp_all
  show "GetNextPageId (SetNextPageId n p) = n" by (simp add: GetNextPageId_def SetNextPageId_def)
  show "GetNextPageId (SetPrevPageId n p) = GetNextPageId p" by (simp add: GetNextPageId_def q layout_defs)
qed

lemma fresh_page:
  assumes "data \<noteq> []" "length data \<le> MAX_TUPLE_SIZE" "c = Init n \<or> c = SetPrevPageId q (Init n)"
  shows "tp_wf c" "fits data c" "GetSlotCount c = 0" "GetNextPageId c = INVALID_PAGE_ID"
  using assms(3) fits_Init [OF assms(1,2), of n] by (auto simp: link_writes)

text \<open>\<open>AllocateNewPage\<close>: either no page, and nothing looks different, or an initialised one.\<close>

lemma AllocateNewPage_law:
  assumes "pool_inv {} U b" "files_ok fls b" "heap_file_id h = Some fid" "GetFileEntry fid (disk_manager b) \<noteq> None"
    "fls fid = [] \<longrightarrow> GetNumPages fid (disk_manager b) \<noteq> - 1" "\<And>p. p \<in> U \<Longrightarrow> in_use fls (disk_manager b) p"
  shows "\<exists>b' n. AllocateNewPage h prev b = Some (b', n) \<and> pool_inv {} U b' \<and> pins b' = pins b \<and>
    (\<forall>q c. in_use fls (disk_manager b) q \<longrightarrow> view b q = Some c \<longrightarrow> view b' q = Some c) \<and>
    (n \<noteq> INVALID_PAGE_ID \<longrightarrow> GetFileId n = fid \<and> \<not> in_use fls (disk_manager b) n \<and>
       view b' n = Some (SetPrevPageId prev (Init n)) \<and> files_ok (fls(fid := tl (fls fid))) b' \<and> pins b n = 0 \<and>
       (\<forall>q. in_use (fls(fid := tl (fls fid))) (disk_manager b') q \<longleftrightarrow> q = n \<or> in_use fls (disk_manager b) q))"
proof -
  from NewPage_total [OF assms(1,2,4,5)] obtain b1 pid fo where r: "NewPage fid b = Some (b1, pid, fo)"
    "fo = None \<Longrightarrow> pool_inv {} U b1 \<and> pins b1 = pins b \<and>
       (\<forall>q c. in_use fls (disk_manager b) q \<longrightarrow> view b q = Some c \<longrightarrow> view b1 q = Some c)" by blast
  show ?thesis
  proof (cases fo)
    case None
    then show ?thesis using r assms(3) by (simp add: AllocateNewPage_def)
  next
    case (Some f)
    note N = NewPage_law [OF assms(1,2,4,5) r(1) [unfolded Some]]
    let ?m1 = "modify_page f (\<lambda>_. zero_page) b1"
    let ?m2 = "modify_page f (\<lambda>_. SetPrevPageId prev (Init pid)) ?m1"
    obtain b2 ok where u: "UnpinPage pid True (MarkDirty f ?m2) = (b2, ok)" by fastforce
    have pos: "0 < pins b1 pid" using N(7) by simp
    note M1 = modify_page_law [OF N(1,8) pos, where g = "\<lambda>_. zero_page"]
    have at1: "find_page pid ?m1 = Some f" "0 < pins ?m1 pid" using M1(3,4) N(8) pos by simp_all
    note M2 = modify_page_law [OF M1(1) at1, where g = "\<lambda>_. SetPrevPageId prev (Init pid)"]
    have at2: "find_page pid ?m2 = Some f" "0 < pins ?m2 pid" using M2(3,4) at1 by simp_all
    note D = MarkDirty_law [OF M2(1) at2]
    have pos3: "0 < pins (MarkDirty f ?m2) pid" using D(3) at2 by simp
    note R = UnpinPage_law [OF D(1) pos3 _ u]
    have nU: "pid \<notin> U" using assms(6) N(4) by blast
    have run: "AllocateNewPage h prev b = Some (b2, pid)"
      using r(1) assms(3) Some u by (simp add: AllocateNewPage_def)
    have z: "pins b pid = 0"
    proof -
      have "find_page pid b = None" using assms(2) N(4) by (cases "find_page pid b") (auto simp: files_ok_def)
      then show ?thesis by (simp add: pins_def)
    qed
    have inv: "pool_inv {} U b2" using R(2) nU by (simp add: insert_commute insert_absorb)
    have pins: "pins b2 = pins b" using R(4) D(3) M2(3) M1(3) N(7) z by (auto simp: fun_eq_iff)
    have v: "view b2 = (view b1)(pid \<mapsto> SetPrevPageId prev (Init pid))" using R(3) D(2) M2(2) M1(2) by simp
    have keep: "view b2 q = Some c" if "in_use fls (disk_manager b) q" "view b q = Some c" for q c
      using N(6) [OF that] v that(1) N(4) by auto
    have files: "files_ok (fls(fid := tl (fls fid))) b2" "disk_manager b2 = disk_manager b1"
      using UnpinPage_files [OF u] N(2) by (simp_all add: modify_page_files MarkDirty_files)
    show ?thesis using run inv pins v keep files N(3,4,5) z by auto
  qed
qed


section \<open>Insertion\<close>

text \<open>The second half of \<open>InsertTuple\<close>, on the frame of the new page.\<close>

lemma link_previous_law:
  assumes "pool_inv {} (insert n U) b" "find_page n b = Some f" "0 < pins b n" "view b n = Some (Init n)"
    "prev = INVALID_PAGE_ID \<or> prev \<noteq> n \<and> prev \<notin> U \<and> (\<exists>c. view b prev = Some c \<and> tp_wf c)"
  defines "b' \<equiv> link_previous prev n f b"
  shows "pool_inv {} (insert n U) b'" "find_page n b' = Some f" "pins b' = pins b"
    "\<exists>e. view b' n = Some e \<and> (e = Init n \<or> e = SetPrevPageId prev (Init n))"
    "\<And>q d. q \<noteq> prev \<Longrightarrow> q \<noteq> n \<Longrightarrow> view b q = Some d \<Longrightarrow> view b' q = Some d"
    "prev \<noteq> INVALID_PAGE_ID \<Longrightarrow> view b' prev = view b prev \<or> view b' prev = map_option (SetNextPageId n) (view b prev)"
proof -
  have "pool_inv {} (insert n U) b' \<and> find_page n b' = Some f \<and> pins b' = pins b \<and>
    (\<exists>e. view b' n = Some e \<and> (e = Init n \<or> e = SetPrevPageId prev (Init n))) \<and>
    (\<forall>q d. q \<noteq> prev \<longrightarrow> q \<noteq> n \<longrightarrow> view b q = Some d \<longrightarrow> view b' q = Some d) \<and>
    (prev \<noteq> INVALID_PAGE_ID \<longrightarrow> view b' prev = view b prev \<or> view b' prev = map_option (SetNextPageId n) (view b prev))"
  proof (cases "prev = INVALID_PAGE_ID")
    case True
    then show ?thesis using assms by (simp add: link_previous_def)
  next
    case False
    with assms(5) obtain c where p: "prev \<noteq> n" "prev \<notin> U" "view b prev = Some c" "tp_wf c" by blast
    obtain b1 fo where f: "FetchPage prev b = (b1, fo)" by fastforce
    note F = FetchPage_law [OF assms(1) f]
    have pin_n: "0 < pins b1 n" using F(4) assms(3) p(1) by (auto split: option.splits)
    have at_n: "find_page n b1 = Some f"
    proof -
      obtain g where g: "find_page n b1 = Some g" using pins_pos_find [OF pin_n] by blast
      with FetchPage_find [OF assms(1) f g assms(2)] show ?thesis by simp
    qed
    show ?thesis
    proof (cases fo)
      case None
      have "b' = b1" using False f None by (simp add: b'_def link_previous_def)
      then show ?thesis using F None at_n assms(4) p(3) False by (simp add: view_le_def)
    next
      case (Some g)
      have at: "find_page prev b1 = Some g" and vp: "view b1 prev = Some c" and c: "page_at g b1 = c"
        using F(2,5) Some p(3) by (simp_all add: view_le_def)
      have vn: "view b1 n = Some (Init n)" using F(2) assms(4) by (simp add: view_le_def)
      have nonneg: "0 \<le> pins b prev" using pool.pinned_nonneg [OF assms(1)] .
      have pos: "0 < pins b1 prev" using F(4) Some nonneg by simp
      note M1 = modify_page_law [OF F(1) at pos, where g = "SetNextPageId n"]
      let ?m1 = "modify_page g (SetNextPageId n) b1"
      have at1: "find_page n ?m1 = Some f" "0 < pins ?m1 n" using M1(3,4) at_n pin_n by simp_all
      note M2 = modify_page_law [OF M1(1) at1, where g = "SetPrevPageId prev"]
      let ?m2 = "modify_page f (SetPrevPageId prev) ?m1"
      have at2: "find_page prev ?m2 = Some g" "0 < pins ?m2 prev" using M2(3,4) M1(3,4) at pos by simp_all
      note D = MarkDirty_law [OF M2(1) at2]
      obtain b2 ok where u: "UnpinPage prev True (MarkDirty g ?m2) = (b2, ok)" by fastforce
      have pos3: "0 < pins (MarkDirty g ?m2) prev" using D(3) at2 by simp
      note R = UnpinPage_law [OF D(1) pos3 _ u]
      have run: "b' = b2" using False f Some u by (simp add: b'_def link_previous_def Let_def)
      have "view ?m1 n = Some (Init n)" using M1(2) vn p(1) by simp
      then have "page_at f ?m1 = Init n" using view_find [OF at1(1)] by simp
      then have v: "view b' = (view b1)(prev \<mapsto> SetNextPageId n c, n \<mapsto> SetPrevPageId prev (Init n))"
        using R(3) D(2) M2(2) M1(2) c run by simp
      have "insert n (insert prev (insert n U)) - {prev} = insert n U" using p(1,2) by auto
      then have inv: "pool_inv {} (insert n U) b'" using R(2) run by simp
      have "find_page n b' = Some f" "pins b' = pins b"
        using R(4,5) D(3,4) M2(3,4) M1(3,4) at_n F(4) Some run by (auto simp: fun_eq_iff)
      then show ?thesis using inv v p(1,3) F(2) by (simp add: view_le_def)
    qed
  qed
  then show "pool_inv {} (insert n U) b'" "find_page n b' = Some f" "pins b' = pins b"
    "\<exists>e. view b' n = Some e \<and> (e = Init n \<or> e = SetPrevPageId prev (Init n))"
    "\<And>q d. q \<noteq> prev \<Longrightarrow> q \<noteq> n \<Longrightarrow> view b q = Some d \<Longrightarrow> view b' q = Some d"
    "prev \<noteq> INVALID_PAGE_ID \<Longrightarrow> view b' prev = view b prev \<or> view b' prev = map_option (SetNextPageId n) (view b prev)"
    by blast+
qed


text \<open>What an insertion promises to the rest of the program.\<close>

definition rows_kept :: "(i16 \<Rightarrow> i16 list) \<Rightarrow> RID option \<Rightarrow> bpm \<Rightarrow> bpm \<Rightarrow> bool" where
  "rows_kept fls r b b' \<longleftrightarrow>
     (\<forall>rid. in_use fls (disk_manager b) (rid_page_id rid) \<longrightarrow> view b (rid_page_id rid) \<noteq> None \<longrightarrow> r \<noteq> Some rid \<longrightarrow>
        heap_row (view b') rid = heap_row (view b) rid)"

lemma rows_kept_view:
  "(\<And>q c. in_use fls (disk_manager b) q \<Longrightarrow> view b q = Some c \<Longrightarrow> view b' q = Some c) \<Longrightarrow> rows_kept fls r b b'"
  by (auto simp: rows_kept_def heap_row_def)

lemma last_page_room:
  assumes "files_ok fls b" "in_use fls (disk_manager b) p" "GetFileId p = fid" "\<not> in_use fls (disk_manager b) (MakePageId fid (- 2))"
    "fls fid = []"
  shows "GetNumPages fid (disk_manager b) \<noteq> - 1"
proof
  assume "GetNumPages fid (disk_manager b) = - 1"
  moreover have "(- 2 :: i16) < - 1" "(0 :: i16) < - 2" by (simp_all add: word_gt_0)
  ultimately have "- 2 \<in> allocated (disk_manager b) fid []" by (simp only: allocated_def) simp
  then show False using assms by (simp add: in_use_def)
qed

lemma heap_InsertTuple_law:
  assumes b: "pool_inv {} {} b" "files_ok fls b" and h: "page_chain (view b) ps (first_page_id h)" "distinct ps" "ps \<noteq> []"
    "heap_file_id h = Some fid" "GetFileId (hd ps) = fid"
    and u: "\<And>p. p \<in> set ps \<Longrightarrow> in_use fls (disk_manager b) p"
    and room: "fls fid = [] \<longrightarrow> \<not> in_use fls (disk_manager b) (MakePageId fid (- 2))"
    and d: "data \<noteq> []" "length data \<le> MAX_TUPLE_SIZE"
  shows "\<exists>b' r. heap_InsertTuple h data b = Some (b', r) \<and> pool_inv {} {} b' \<and> pins b' = pins b \<and> rows_kept fls r b b' \<and>
    (\<forall>rid. r = Some rid \<longrightarrow> heap_row (view b') rid = Some data \<and>
       (rid_page_id rid \<in> set ps \<and> heap_row (view b) rid = None \<and> page_chain (view b') ps (first_page_id h) \<or>
        \<not> in_use fls (disk_manager b) (rid_page_id rid) \<and>
          (page_chain (view b') ps (first_page_id h) \<or> page_chain (view b') (ps @ [rid_page_id rid]) (first_page_id h))))"
proof -
  have nd: "\<not> (length data = 0 \<or> length data > MAX_TUPLE_SIZE)" using d by simp
  obtain b1 r1 where s: "insert_search data (first_page_id h) INVALID_PAGE_ID b = Some (b1, r1)"
    "pool_inv {} {} b1" "pins b1 = pins b" "searched ps data b b1 r1"
    "\<forall>q. r1 = NoRoom q \<longrightarrow> q = last (INVALID_PAGE_ID # ps)" "same_files fls b b1"
    using insert_search_law [OF d b(1) _ h(1) b(2) u, of INVALID_PAGE_ID] by auto
  note start = heap_InsertTuple_def [of h data b, unfolded if_not_P [OF nd] s(1), simplified]
  show ?thesis
  proof (cases r1)
    case Failed
    then have "view_le b b1" using s(4) by (simp add: searched_def)
    then show ?thesis using start Failed s(2,3) rows_kept_view [of fls b b1] by (auto simp: view_le_def)
  next
    case (Inserted rid)
    with s(4) obtain c where c: "rid_page_id rid \<in> set ps" "view b (rid_page_id rid) = Some c" "tp_wf c" "fits data c"
      "rid_slot_id rid = word_of_int (int (GetSlotCount c))" "view b1 (rid_page_id rid) = Some (inserted_page data c)"
      "\<And>q d. q \<noteq> rid_page_id rid \<Longrightarrow> view b q = Some d \<Longrightarrow> view b1 q = Some d" by (auto simp: searched_def)
    note row = heap_row_inserted [of c data "view b" "rid_page_id rid" "view b1" "rid_slot_id rid", OF c(3,4,2,6,7,5)]
    have "page_chain (view b1) ps (first_page_id h)"
      using page_chain_change [OF h(1) c(2) inserted_wf [OF c(3,4)] inserted_next [OF c(4)], of "view b1"] c(6,7)
      by blast
    then show ?thesis using start Inserted s(2,3) row c(1) by (auto simp: rows_kept_def)
  next
    case (NoRoom q)
    then have vle: "view_le b b1" and q: "q = last ps" using s(4,5) h(3) by (simp_all add: searched_def)
    have same: "files_ok fls b1" "\<And>p. in_use fls (disk_manager b1) p = in_use fls (disk_manager b) p"
      using s(6) by (simp_all add: same_files_def)
    have hd: "in_use fls (disk_manager b1) (hd ps)" using u [of "hd ps"] same(2) h(3) by simp
    then have e: "GetFileEntry fid (disk_manager b1) \<noteq> None" using h(5) by (auto simp: in_use_def)
    have n: "fls fid = [] \<longrightarrow> GetNumPages fid (disk_manager b1) \<noteq> - 1"
      using last_page_room [OF same(1) hd h(5)] room same(2) by auto
    obtain b2 new where a: "AllocateNewPage h q b1 = Some (b2, new)" "pool_inv {} {} b2" "pins b2 = pins b1"
      "\<forall>p c. in_use fls (disk_manager b1) p \<longrightarrow> view b1 p = Some c \<longrightarrow> view b2 p = Some c"
      "new \<noteq> INVALID_PAGE_ID \<longrightarrow> \<not> in_use fls (disk_manager b1) new \<and> view b2 new = Some (SetPrevPageId q (Init new))"
      using AllocateNewPage_law [OF s(2) same(1) h(4) e n, of q] by auto
    have k2: "view b2 p = Some c" if "in_use fls (disk_manager b) p" "view b p = Some c" for p c
      using a(4) vle that same(2) by (simp add: view_le_def)
    show ?thesis
    proof (cases "new = INVALID_PAGE_ID")
      case True
      then show ?thesis using start NoRoom a(1-3) s(3) rows_kept_view [of fls b b2, OF k2] by auto
    next
      case False
      obtain b3 fo where f: "FetchPage new b2 = (b3, fo)" by fastforce
      note F = FetchPage_law [OF a(2) f]
      have k3: "view b3 p = Some c" if "in_use fls (disk_manager b) p" "view b p = Some c" for p c
        using k2 [OF that] F(2) by (simp add: view_le_def)
      have nu: "\<not> in_use fls (disk_manager b) new" using a(5) False same(2) by simp
      show ?thesis
      proof (cases fo)
        case None
        then show ?thesis using start NoRoom a(1,3) s(3) False f F(1,4) rows_kept_view [of fls b b3, OF k3] by auto
      next
        case (Some g)
        have at: "find_page new b3 = Some g" using F(5) Some by simp
        have pos: "0 < pins b3 new" using F(4) Some pool.pinned_nonneg [OF a(2), of new] by simp
        let ?b4 = "modify_page g (\<lambda>_. Init new) b3"
        note M = modify_page_law [OF F(1) at pos, where g = "\<lambda>_. Init new"]
        have at4: "find_page new ?b4 = Some g" "0 < pins ?b4 new" "view ?b4 new = Some (Init new)"
          using M(2,3,4) at pos by simp_all
        have qps: "q \<in> set ps" using q h(3) by simp
        obtain cq where cq: "view b q = Some cq" "tp_wf cq" "q \<noteq> INVALID_PAGE_ID" using page_chain_view [OF h(1) qps] by blast
        have qn: "q \<noteq> new" using u [OF qps] nu by auto
        have k4: "view ?b4 p = Some c" if "in_use fls (disk_manager b) p" "view b p = Some c" for p c
          using k3 [OF that] M(2) that(1) nu by auto
        let ?b5 = "link_previous q new g ?b4"
        have "q = INVALID_PAGE_ID \<or> q \<noteq> new \<and> q \<notin> {} \<and> (\<exists>c. view ?b4 q = Some c \<and> tp_wf c)"
          using qn cq k4 [OF u [OF qps] cq(1)] by auto
        note L = link_previous_law [OF M(1) at4 this]
        from L(4) obtain e where e: "view ?b5 new = Some e" "e = Init new \<or> e = SetPrevPageId q (Init new)" by blast
        note fresh = fresh_page [OF d e(2)]
        have at5: "page_at g ?b5 = e" using view_find [OF L(2)] e(1) by simp
        let ?b6 = "modify_page g (\<lambda>_. inserted_page data e) ?b5"
        have pos5: "0 < pins ?b5 new" using L(3) at4(2) by simp
        note I = modify_page_law [OF L(1,2) pos5, where g = "\<lambda>_. inserted_page data e"]
        have at6: "find_page new ?b6 = Some g" "0 < pins ?b6 new" using I(3,4) L(2) pos5 by simp_all
        note D = MarkDirty_law [OF I(1) at6]
        obtain b7 ok where un: "UnpinPage new True (MarkDirty g ?b6) = (b7, ok)" by fastforce
        have pos6: "0 < pins (MarkDirty g ?b6) new" using D(3) at6 by simp
        note R = UnpinPage_law [OF D(1) pos6 _ un]
        have op: "on_page g (InsertTuple data) ?b5 = Some (Some 0, ?b6)"
          using InsertTuple_fits [OF fresh(1,2)] fresh(3) by (simp add: on_page_def at5)
        have run: "heap_InsertTuple h data b = Some (b7, Some (RID new 0))"
          using start NoRoom a(1) False f Some op un by simp
        have v7: "view b7 = (view ?b5)(new \<mapsto> inserted_page data e)" using R(3) D(2) I(2) by simp
        have inv: "pool_inv {} {} b7" using R(2) by simp
        have pins: "pins b7 = pins b" using R(4) D(3) I(3) L(3) M(3) F(4) Some a(3) s(3) by (simp add: fun_eq_iff)
        have "tp_abs e = []" using fresh(3) by (simp add: tp_abs_def)
        then have row: "heap_row (view b7) (RID new 0) = Some data"
          using v7 fresh(3) by (simp add: heap_row_def GetTuple_wf inserted_wf [OF fresh(1,2)] inserted_abs [OF fresh(1,2)]
              inserted_count [OF fresh(2)])
        have k5: "view b7 p = Some c" if "p \<noteq> q" "in_use fls (disk_manager b) p" "view b p = Some c" for p c
          using v7 L(5) [OF that(1)] k4 [OF that(2,3)] that(2) nu by auto
        have vq: "view b7 q = Some cq \<or> view b7 q = Some (SetNextPageId new cq)"
          using L(6) [OF cq(3)] k4 [OF u [OF qps] cq(1)] v7 qn by auto
        have kept: "rows_kept fls (Some (RID new 0)) b b7"
          unfolding rows_kept_def
        proof (intro allI impI)
          fix rid assume r: "in_use fls (disk_manager b) (rid_page_id rid)" "view b (rid_page_id rid) \<noteq> None"
          show "heap_row (view b7) rid = heap_row (view b) rid"
          proof (cases "rid_page_id rid = q")
            case True
            have "GetTuple (SetNextPageId new cq) s = GetTuple cq s" for s
              by (simp only: tp.get_law [OF link_writes(1) [OF cq(2)]] tp.get_law [OF cq(2)] link_writes(2) [OF cq(2)])
            with True vq cq(1) show ?thesis unfolding heap_row_def by fastforce
          next
            case False
            then show ?thesis using r k5 by (auto simp: heap_row_def)
          qed
        qed
        have chain: "page_chain (view b7) ps (first_page_id h) \<or> page_chain (view b7) (ps @ [new]) (first_page_id h)"
        proof -
          from q h(3) obtain ps0 where ps: "ps = ps0 @ [q]" by (metis append_butlast_last_id)
          have others: "view b7 p = Some c" if "p \<in> set ps0" "view b p = Some c" for p c
            using k5 [of p c] that u [of p] h(2) ps by auto
          from vq show ?thesis
          proof
            assume "view b7 q = Some cq"
            then have "view b7 p = Some c" if "p \<in> set ps" "view b p = Some c" for p c
              using that others cq(1) ps by auto
            from page_chain_mono [OF h(1), of "view b7", OF this] show ?thesis by blast
          next
            assume "view b7 q = Some (SetNextPageId new cq)"
            moreover have "view b7 new = Some (inserted_page data e)" using v7 by simp
            moreover note link_writes(1,3) [OF cq(2), of new] inserted_wf [OF fresh(1,2)]
            moreover have "GetNextPageId (inserted_page data e) = INVALID_PAGE_ID" using inserted_next [OF fresh(2)] fresh(4) by simp
            ultimately have "page_chain (view b7) (ps0 @ [q, new]) (first_page_id h)"
              using page_chain_link [of "view b" ps0 q "first_page_id h" cq "view b7"] h(1,2) cq(1) False others
              unfolding ps by blast
            then show ?thesis using ps by simp
          qed
        qed
        show ?thesis using run inv pins kept row chain nu by auto
      qed
    qed
  qed
qed


section \<open>Reading and deleting\<close>

lemma in_range:
  assumes "tp_wf c" "GetTuple c (sint s) = Some (Some data)"
  shows "0 \<le> sint s" "sint s < int (GetSlotCount c)" "IsDeleted c (sint s) = Some False" "length data \<le> MAX_TUPLE_SIZE"
proof -
  show r: "0 \<le> sint s" "sint s < int (GetSlotCount c)" using assms by (auto simp: GetTuple_wf split: if_splits)
  show "IsDeleted c (sint s) = Some False"
    using assms r by (auto simp: GetTuple_def bind_eq_Some_conv split: if_splits)
  obtain k where k: "sint s = int k" "k < GetSlotCount c" using r zero_le_imp_eq_int by force
  then have "live c k \<and> data = tuple_at c k"
    using assms by (auto simp: GetTuple_wf nth_tp_abs tp_slot_def split: if_splits)
  then show "length data \<le> MAX_TUPLE_SIZE"
    using tp_wf_tuple [OF assms(1) k(2)] by (simp add: tuple_in_def tuple_at_def)
qed

text \<open>Reading a row: the pool may refuse the page, otherwise the stored bytes come back.\<close>

lemma heap_GetTuple_law:
  assumes "pool_inv {} {} b" "view b (rid_page_id rid) = Some c" "tp_wf c" "heap_row (view b) rid = Some data"
    "Deserialize data = Some t"
  shows "\<exists>b' r. heap_GetTuple rid b = Some (b', r) \<and> pool_inv {} {} b' \<and> view_le b b' \<and> pins b' = pins b \<and>
    r = (if snd (FetchPage (rid_page_id rid) b) = None then None else Some t)"
proof -
  obtain b1 fo where f: "FetchPage (rid_page_id rid) b = (b1, fo)" by fastforce
  note F = FetchPage_law [OF assms(1) f]
  show ?thesis
  proof (cases fo)
    case None
    then show ?thesis using f F by (simp add: heap_GetTuple_def)
  next
    case (Some g)
    have fg: "FetchPage (rid_page_id rid) b = (b1, Some g)" using f Some by simp
    obtain b2 ok where u: "UnpinPage (rid_page_id rid) False b1 = (b2, ok)" by fastforce
    note v = visit [OF assms(1) _ fg u assms(2)]
    have g: "GetTuple c (sint (rid_slot_id rid)) = Some (Some data)"
      using assms(2,4) by (auto simp: heap_row_def bind_eq_Some_conv)
    have "heap_GetTuple rid b = Some (b2, Some t)"
      using fg in_range [OF assms(3) g] v(1) g u assms(5) by (simp add: heap_GetTuple_def)
    then show ?thesis using v(2-4) fg by simp
  qed
qed


section \<open>Updating\<close>

text \<open>The first half of a growing update on a page that has room: the old slot is deleted and the new
  tuple appended, but the page is released as clean and then marked once more.\<close>

lemma grow_state:
  assumes "pool_inv {} {} b" "files_ok fls b" "in_use fls (disk_manager b) p" "view b p = Some c" "tp_wf c"
    "FetchPage p b = (b1, Some f)" "tp_wf q" "MarkDelete s q = Some (ok, q)"
  defines "b2 \<equiv> fst (UnpinPage p False (modify_page f (\<lambda>_. q) b1))"
  shows "\<exists>b3 b4. FetchPage p b2 = (b3, Some f) \<and> on_page f (MarkDelete s) b3 = Some (ok, b4) \<and>
    pool_inv {} {} (fst (UnpinPage p True (MarkDirty f b4))) \<and>
    view (fst (UnpinPage p True (MarkDirty f b4))) p = Some q \<and>
    (\<forall>r d. r \<noteq> p \<longrightarrow> view b r = Some d \<longrightarrow> view (fst (UnpinPage p True (MarkDirty f b4))) r = Some d) \<and>
    same_files fls b (fst (UnpinPage p True (MarkDirty f b4))) \<and> pins (fst (UnpinPage p True (MarkDirty f b4))) = pins b \<and>
    find_page p (fst (UnpinPage p True (MarkDirty f b4))) = Some f"
proof -
  note F = FetchPage_law [OF assms(1,6)]
  have at: "find_page p b1 = Some f" using F(5) by simp
  have pos: "0 < pins b1 p" using F(4) pool.pinned_nonneg [OF assms(1), of p] by simp
  note M = modify_page_law [OF F(1) at pos, where g = "\<lambda>_. q"]
  let ?m = "modify_page f (\<lambda>_. q) b1"
  have at1: "find_page p ?m = Some f" "0 < pins ?m p" using M(3,4) at pos by simp_all
  obtain ok' where un: "UnpinPage p False ?m = (b2, ok')" unfolding b2_def by (cases "UnpinPage p False ?m") simp
  obtain b3 r where f: "FetchPage p b2 = (b3, r)" by fastforce
  note W = unpin_refetch [OF M(1) at1 un f]
  have at3: "find_page p b3 = Some f" "0 < pins b3 p" using W(4,5) at1 by simp_all
  let ?b4 = "modify_page f (\<lambda>_. q) b3"
  have "page_at f b3 = q" using W(6) M(5) by simp
  then have op: "on_page f (MarkDelete s) b3 = Some (ok, ?b4)" using assms(8) by (simp add: on_page_def)
  note N = modify_page_law [OF W(2) at3, where g = "\<lambda>_. q"]
  have at4: "find_page p ?b4 = Some f" "0 < pins ?b4 p" using N(3,4) at3 by simp_all
  note D = MarkDirty_law [OF N(1) at4]
  obtain b5 ok5 where u5: "UnpinPage p True (MarkDirty f ?b4) = (b5, ok5)" by fastforce
  have pos5: "0 < pins (MarkDirty f ?b4) p" using D(3) at4 by simp
  note R = UnpinPage_law [OF D(1) pos5 _ u5]
  have inv: "pool_inv {} {} b5" using R(2) by simp
  have v: "view b5 = (view b1)(p \<mapsto> q)" using R(3) D(2) N(2) W(3) M(2) by simp
  have keep: "view b5 r = Some d" if "r \<noteq> p" "view b r = Some d" for r d
    using v that F(2) by (simp add: view_le_def)
  have pins: "pins b5 = pins b" using R(4) D(3) N(3) W(4) M(3) F(4) by (simp add: fun_eq_iff)
  have "same_files fls b ?m" using fetch_same_files [OF assms(1,2,6,3)] by simp
  then have "same_files fls b b3"
    using W(5,7) unfolding same_files_def files_ok_def by auto
  then have "same_files fls b b5" using same_files_unpin [OF u5] by simp
  moreover have "find_page p b5 = Some f" using R(5) D(4) at4(1) by simp
  ultimately show ?thesis using f W(1) op inv v keep pins u5 by auto
qed

text \<open>A page that is already cached is found at once.\<close>

lemma insert_hit:
  assumes "pool_inv {} {} b" "find_page (first_page_id h) b = Some f" "view b (first_page_id h) = Some c" "tp_wf c"
    "fits data c" "GetFreeSpace c = Some n" "length data + SLOT_SIZE \<le> n"
  shows "\<exists>b' rid. heap_InsertTuple h data b = Some (b', Some rid)"
proof -
  obtain b1 r where f: "FetchPage (first_page_id h) b = (b1, r)" by fastforce
  note H = FetchPage_hit [OF assms(1,2) f]
  have p: "page_at f b1 = c" using H(6) view_find [OF assms(2)] assms(3) by simp
  have v: "first_page_id h \<noteq> INVALID_PAGE_ID" using frames_okD(2) [OF pool_invD(1) [OF assms(1)] assms(2)] by simp
  have d: "data \<noteq> []" "length data \<le> MAX_TUPLE_SIZE" using assms(5) by (simp_all add: fits_def)
  have "try_insert data f b1 = Some (Some (int (GetSlotCount c)), modify_page f (\<lambda>_. inserted_page data c) b1)"
    using assms(4-7) by (simp add: try_insert_def on_page_def p InsertTuple_fits)
  then have "\<exists>b' rid. insert_search data (first_page_id h) INVALID_PAGE_ID b = Some (b', Inserted rid)"
    by (subst insert_search.simps) (simp add: v f H(1))
  then show ?thesis using d by (auto simp: heap_InsertTuple_def)
qed

lemma heap_update_twice:
  assumes b: "pool_inv {} {} b" "files_ok fls b" and h: "page_chain (view b) ps (first_page_id h)" "distinct ps" "ps \<noteq> []"
    "heap_file_id h = Some fid" "GetFileId (hd ps) = fid"
    and u: "\<And>p. p \<in> set ps \<Longrightarrow> in_use fls (disk_manager b) p"
    and room: "fls fid = [] \<longrightarrow> \<not> in_use fls (disk_manager b) (MakePageId fid (- 2))"
    and rid: "rid_page_id rid \<in> set ps" "view b (rid_page_id rid) = Some c" "heap_row (view b) rid = Some old"
    and d: "length old < length data" "length data \<le> MAX_TUPLE_SIZE"
    and grown: "UpdateTuple (sint (rid_slot_id rid)) data c = Some (False, q)" "q \<noteq> c"
    and run: "heap_UpdateTuple h rid data b = Some (b', Some rid')"
  shows "\<exists>copy. copy \<noteq> rid' \<and> rid_page_id copy = rid_page_id rid \<and> heap_row (view b') copy = Some data \<and>
    heap_row (view b') rid' = Some data"
proof -
  let ?p = "rid_page_id rid" and ?s = "sint (rid_slot_id rid)"
  have wf: "tp_wf c" using page_chain_view [OF h(1) rid(1)] rid(2) by auto
  have g: "GetTuple c ?s = Some (Some old)" using rid(2,3) by (auto simp: heap_row_def bind_eq_Some_conv)
  note ir = in_range [OF wf g]
  obtain k where k: "?s = int k" "k < GetSlotCount c" using ir(1,2) zero_le_imp_eq_int by force
  have live: "live c k" "old = tuple_at c k"
    using g k wf by (auto simp: GetTuple_wf nth_tp_abs tp_slot_def split: if_splits)
  have sz: "slot_size c k < length data" using d(1) live(2) by (simp add: tuple_at_def)
  let ?e = "set_deleted k c"
  have e: "tp_wf ?e" by (rule deleted_wf [OF wf])
  have q: "q = inserted_page data ?e" "fits data ?e"
    using UpdateTuple_grow [OF wf k(2) live(1) sz d(2)] grown k(1) by (auto split: if_splits)
  have qwf: "tp_wf q" and qabs: "tp_abs q = (tp_abs c)[k := None] @ [Some data]"
    using e q wf k(2) by (simp_all add: inserted_wf inserted_abs deleted_abs)
  have qnext: "GetNextPageId q = GetNextPageId c" using q by simp
  have len: "GetSlotCount q = Suc (GetSlotCount c)" using arg_cong [OF qabs, of length] by simp
  have gone: "GetTuple q ?s = Some None" using qwf qabs k len by (simp add: GetTuple_wf nth_append)
  have mark: "MarkDelete ?s q = Some (False, q)"
  proof -
    have "\<not> live q k" using gone k qwf len by (auto simp: GetTuple_wf nth_tp_abs tp_slot_def split: if_splits)
    then show ?thesis using k qwf len by (simp add: MarkDelete_wf)
  qed
  have "FetchPage ?p b \<noteq> (b1, None)" for b1 using run by (auto simp: heap_UpdateTuple_def)
  then obtain b1 f where f: "FetchPage ?p b = (b1, Some f)" by (metis option.exhaust surj_pair)
  have at: "page_at f b1 = c" using FetchPage_law(2,5) [OF b(1) f] rid(2) by (simp add: view_le_def)
  obtain b3 b4 where G: "FetchPage ?p (fst (UnpinPage ?p False (modify_page f (\<lambda>_. q) b1))) = (b3, Some f)"
    "on_page f (MarkDelete ?s) b3 = Some (False, b4)"
    "pool_inv {} {} (fst (UnpinPage ?p True (MarkDirty f b4)))"
    "view (fst (UnpinPage ?p True (MarkDirty f b4))) ?p = Some q"
    "\<forall>r d. r \<noteq> ?p \<longrightarrow> view b r = Some d \<longrightarrow> view (fst (UnpinPage ?p True (MarkDirty f b4))) r = Some d"
    "same_files fls b (fst (UnpinPage ?p True (MarkDirty f b4)))"
    using grow_state [OF b u [OF rid(1)] rid(2) wf f qwf mark] by blast
  let ?b5 = "fst (UnpinPage ?p True (MarkDirty f b4))"
  have ins: "heap_InsertTuple h data ?b5 = Some (b', Some rid')"
  proof -
    have "on_page f (UpdateTuple ?s data) b1 = Some (False, modify_page f (\<lambda>_. q) b1)"
      by (simp add: on_page_def at grown(1))
    then show ?thesis using run f at ir(3) G(1,2) by (simp add: heap_UpdateTuple_def)
  qed
  have chain: "page_chain (view ?b5) ps (first_page_id h)"
    using page_chain_change [OF h(1) rid(2) qwf qnext, of "view ?b5"] G(4,5) by blast
  have same: "files_ok fls ?b5" "\<And>r. in_use fls (disk_manager ?b5) r = in_use fls (disk_manager b) r"
    using G(6) by (simp_all add: same_files_def)
  have dne: "data \<noteq> []" using d(1) by auto
  obtain b6 r where I: "heap_InsertTuple h data ?b5 = Some (b6, r)" "rows_kept fls r ?b5 b6"
    "\<forall>rid. r = Some rid \<longrightarrow> heap_row (view b6) rid = Some data \<and>
       (rid_page_id rid \<in> set ps \<and> heap_row (view ?b5) rid = None \<or> \<not> in_use fls (disk_manager ?b5) (rid_page_id rid))"
    using heap_InsertTuple_law [OF G(3) same(1) chain h(2-5) _ _ dne d(2)] u room same(2) by blast
  then have r: "b6 = b'" "r = Some rid'" using ins by simp_all
  let ?copy = "RID ?p (word_of_int (int (GetSlotCount c)))"
  have "sint (rid_slot_id ?copy) = int (GetSlotCount c)" using sint_slot [OF slot_count_small [OF wf]] by simp
  then have row: "heap_row (view ?b5) ?copy = Some data"
    using G(4) qwf qabs len by (simp add: heap_row_def GetTuple_wf nth_append)
  have used: "in_use fls (disk_manager ?b5) ?p" using u [OF rid(1)] same(2) by simp
  have ne: "?copy \<noteq> rid'" using I(3) r row used by auto
  then have "heap_row (view b') ?copy = Some data"
    using I(2) r row used G(4) by (simp add: rows_kept_def)
  with ne I(3) r show ?thesis by (intro exI [of _ ?copy]) simp
qed


section \<open>A concrete heap\<close>

text \<open>One page with one row in the file of \<open>demo_disk2\<close>, under a pool of two frames.\<close>

definition demo_row1 :: "byte list" where "demo_row1 = [1, 0, 4, 0]"

definition demo_heap_page :: page where
  "demo_heap_page = inserted_page demo_row1 (Init demo_page_id)"

definition heap_pool :: bpm where "heap_pool = page_pool demo_heap_page"

definition demo_heap :: table_heap where "demo_heap = TableHeap demo_page_id"

lemma demo_heap_page_facts:
  "tp_wf demo_heap_page" "GetSlotCount demo_heap_page = 1" "tp_abs demo_heap_page = [Some demo_row1]"
  "GetNextPageId demo_heap_page = INVALID_PAGE_ID" "live demo_heap_page 0" "slot_size demo_heap_page 0 = 4"
  "slot_off demo_heap_page 0 = 16380" "lowest_tuple demo_heap_page = 16380"
proof -
  have f: "fits demo_row1 (Init demo_page_id)" by (rule fits_Init) (simp_all add: demo_row1_def MAX_TUPLE_SIZE_def)
  show "tp_wf demo_heap_page" "GetSlotCount demo_heap_page = 1" "tp_abs demo_heap_page = [Some demo_row1]"
    "GetNextPageId demo_heap_page = INVALID_PAGE_ID" "live demo_heap_page 0" "slot_size demo_heap_page 0 = 4"
    "slot_off demo_heap_page 0 = 16380" "lowest_tuple demo_heap_page = 16380"
    using f by (simp_all add: demo_heap_page_def inserted_facts layout_defs demo_row1_def)
qed

lemmas heap_pool_facts = page_pool_facts [where c = demo_heap_page, folded heap_pool_def]

lemma demo_heap_facts:
  "page_chain (view heap_pool) [demo_page_id] (first_page_id demo_heap)" "first_page_id demo_heap = demo_page_id"
  "heap_file_id demo_heap = Some (GetFileId demo_page_id)"
  "\<not> in_use (\<lambda>_. []) (disk_manager heap_pool) (MakePageId (GetFileId demo_page_id) (- 2))"
  "in_use (\<lambda>_. []) (disk_manager heap_pool) demo_page_id"
  "heap_row (view heap_pool) (RID demo_page_id 0) = Some demo_row1"
proof -
  have "\<not> (- 2 :: i16) < 2" by simp
  then show "\<not> in_use (\<lambda>_. []) (disk_manager heap_pool) (MakePageId (GetFileId demo_page_id) (- 2))"
    unfolding heap_pool_facts(4) by (simp add: in_use_def allocated_def demo_page_id_def demo_disk2_pages)
  show "in_use (\<lambda>_. []) (disk_manager heap_pool) demo_page_id" using demo_in_use by (simp add: heap_pool_facts(4))
qed (simp_all add: demo_heap_def TableHeap_def heap_pool_facts demo_heap_page_facts demo_page_id_valid heap_row_def
    GetTuple_wf)


section \<open>Properties\<close>

text \<open>C14: on a heap whose chain of pages is in order \<open>InsertTuple\<close> comes to a result; every row in the
  pages in use keeps its bytes whatever the pool evicts, no pin is left behind, and a row id it
  returns reads the new tuple. The id names a free slot of the chain, or a page that was not in
  use, which is then linked at the end of the chain unless its predecessor could not be fetched.\<close>

theorem heap_insert:
  assumes "pool_inv {} {} b" "files_ok fls b" "page_chain (view b) ps (first_page_id h)" "distinct ps" "ps \<noteq> []"
    "heap_file_id h = Some fid" "GetFileId (hd ps) = fid" "\<And>p. p \<in> set ps \<Longrightarrow> in_use fls (disk_manager b) p"
    "fls fid = [] \<longrightarrow> \<not> in_use fls (disk_manager b) (MakePageId fid (- 2))" "data \<noteq> []" "length data \<le> MAX_TUPLE_SIZE"
  shows "\<exists>b' r. heap_InsertTuple h data b = Some (b', r) \<and> pool_inv {} {} b' \<and> pins b' = pins b \<and> rows_kept fls r b b' \<and>
    (\<forall>rid. r = Some rid \<longrightarrow> heap_row (view b') rid = Some data \<and>
       (rid_page_id rid \<in> set ps \<and> heap_row (view b) rid = None \<and> page_chain (view b') ps (first_page_id h) \<or>
        \<not> in_use fls (disk_manager b) (rid_page_id rid) \<and>
          (page_chain (view b') ps (first_page_id h) \<or> page_chain (view b') (ps @ [rid_page_id rid]) (first_page_id h))))"
  by (rule heap_InsertTuple_law [OF assms])

theorem heap_insert_witness:
  "\<exists>b' r. heap_InsertTuple demo_heap [2, 0, 4, 0] heap_pool = Some (b', r) \<and>
    rows_kept (\<lambda>_. []) r heap_pool b' \<and> (\<forall>rid. r = Some rid \<longrightarrow> heap_row (view b') rid = Some [2, 0, 4, 0])"
  using heap_insert [of heap_pool "\<lambda>_. []" "[demo_page_id]" demo_heap "GetFileId demo_page_id" "[2, 0, 4, 0]"]
    heap_pool_facts(1,2) demo_heap_facts
  by (auto simp: MAX_TUPLE_SIZE_def)

text \<open>\<open>GetTuple\<close> returns exactly the stored row, as \<open>Deserialize\<close> reads it, unless the pool cannot
  provide the page; nothing looks different afterwards.\<close>

theorem heap_get_row:
  assumes "pool_inv {} {} b" "view b (rid_page_id rid) = Some c" "tp_wf c" "heap_row (view b) rid = Some data"
    "Deserialize data = Some t"
  shows "\<exists>b' r. heap_GetTuple rid b = Some (b', r) \<and> pool_inv {} {} b' \<and> view_le b b' \<and> pins b' = pins b \<and>
    r = (if snd (FetchPage (rid_page_id rid) b) = None then None else Some t)"
  by (rule heap_GetTuple_law [OF assms])

theorem heap_get_row_witness:
  "\<exists>b'. heap_GetTuple (RID demo_page_id 0) heap_pool = Some (b', Some demo_row1)"
proof -
  have d: "Deserialize demo_row1 = Some demo_row1" by (simp add: Deserialize_def demo_row1_def)
  have "snd (FetchPage demo_page_id heap_pool) \<noteq> None"
    using demo_page_id_valid heap_pool_facts(3)
    by (simp add: FetchPage_miss heap_pool_def page_pool_def BufferPoolManager_def find_page_def GetFreeFrame_def view_def
        numeral_2_eq_2)
  with heap_get_row [OF heap_pool_facts(1), of "RID demo_page_id 0" demo_heap_page demo_row1 demo_row1] heap_pool_facts(3)
    demo_heap_page_facts(1) demo_heap_facts(6) d
  show ?thesis by auto
qed

text \<open>an update that grows a row on a page with room for it stores the new row twice: the page has
  already appended it when it reports failure, and the heap inserts it again.\<close>

theorem heap_update_duplicates:
  assumes "pool_inv {} {} b" "files_ok fls b" "page_chain (view b) ps (first_page_id h)" "distinct ps" "ps \<noteq> []"
    "heap_file_id h = Some fid" "GetFileId (hd ps) = fid" "\<And>p. p \<in> set ps \<Longrightarrow> in_use fls (disk_manager b) p"
    "fls fid = [] \<longrightarrow> \<not> in_use fls (disk_manager b) (MakePageId fid (- 2))"
    "rid_page_id rid \<in> set ps" "view b (rid_page_id rid) = Some c" "heap_row (view b) rid = Some old"
    "length old < length data" "length data \<le> MAX_TUPLE_SIZE"
    "UpdateTuple (sint (rid_slot_id rid)) data c = Some (False, q)" "q \<noteq> c"
    "heap_UpdateTuple h rid data b = Some (b', Some rid')"
  shows "\<exists>copy. copy \<noteq> rid' \<and> rid_page_id copy = rid_page_id rid \<and> heap_row (view b') copy = Some data \<and>
    heap_row (view b') rid' = Some data"
  by (rule heap_update_twice [OF assms])


definition grown_row :: "byte list" where "grown_row = [1, 0, 5, 0, 0]"

definition grown_page :: page where
  "grown_page = inserted_page grown_row (set_deleted 0 demo_heap_page)"

lemma grown_page_facts:
  "fits grown_row (set_deleted 0 demo_heap_page)" "UpdateTuple 0 grown_row demo_heap_page = Some (False, grown_page)"
  "tp_wf grown_page" "tp_abs grown_page = [None, Some grown_row]" "GetSlotCount grown_page = 2"
  "fits grown_row grown_page" "GetFreeSpace grown_page = Some 16347" "grown_page \<noteq> demo_heap_page"
  "MarkDelete 0 grown_page = Some (False, grown_page)"
proof -
  let ?e = "set_deleted 0 demo_heap_page"
  have low: "lowest_tuple ?e = 16384"
    by (simp add: lowest_tuple_def demo_heap_page_facts deleted_live slot_simps PAGE_SIZE_def)
  have e: "tp_wf ?e" by (rule deleted_wf [OF demo_heap_page_facts(1)])
  have d: "length grown_row = 5" "grown_row \<noteq> []" by (simp_all add: grown_row_def)
  show f: "fits grown_row ?e"
    by (simp add: fits_def low slot_end_def demo_heap_page_facts MAX_TUPLE_SIZE_def d)
  have "UpdateTuple (int 0) grown_row demo_heap_page = Some (False, grown_page)"
    using UpdateTuple_grow [OF demo_heap_page_facts(1), of 0 grown_row] demo_heap_page_facts f low d
    by (simp add: grown_page_def MAX_TUPLE_SIZE_def)
  then show "UpdateTuple 0 grown_row demo_heap_page = Some (False, grown_page)" by simp
  show wf: "tp_wf grown_page" and abs: "tp_abs grown_page = [None, Some grown_row]" and c: "GetSlotCount grown_page = 2"
    using f e demo_heap_page_facts by (simp_all add: grown_page_def inserted_wf inserted_abs deleted_abs inserted_count)
  have l: "lowest_tuple grown_page = 16379" using e f low d by (simp add: grown_page_def lowest_tuple_inserted)
  show "fits grown_row grown_page" by (simp add: fits_def l slot_end_def c d MAX_TUPLE_SIZE_def)
  show "GetFreeSpace grown_page = Some 16347" by (simp add: GetFreeSpace_wf wf free_space_def l slot_end_def c)
  show "grown_page \<noteq> demo_heap_page" using c demo_heap_page_facts(2) by auto
  have "GetTuple grown_page (int 0) = Some None" using wf abs c by (simp add: GetTuple_wf)
  then have "\<not> live grown_page 0" using wf c by (auto simp: GetTuple_wf nth_tp_abs tp_slot_def split: if_splits)
  then have "MarkDelete (int 0) grown_page = Some (False, grown_page)" using MarkDelete_wf [OF wf, of 0] c by simp
  then show "MarkDelete 0 grown_page = Some (False, grown_page)" by simp
qed

lemma demo_heap_update:
  "\<exists>b' rid. heap_UpdateTuple demo_heap (RID demo_page_id 0) grown_row heap_pool = Some (b', Some rid)"
proof -
  have "snd (FetchPage demo_page_id heap_pool) \<noteq> None"
    using demo_page_id_valid heap_pool_facts(3)
    by (simp add: FetchPage_miss heap_pool_def page_pool_def BufferPoolManager_def find_page_def GetFreeFrame_def view_def
        numeral_2_eq_2)
  then obtain b1 f where f: "FetchPage demo_page_id heap_pool = (b1, Some f)" by (metis option.exhaust prod.collapse)
  have at: "page_at f b1 = demo_heap_page"
    using FetchPage_law(2,5) [OF heap_pool_facts(1) f] heap_pool_facts(3) by (simp add: view_le_def)
  obtain b3 b4 where G: "FetchPage demo_page_id (fst (UnpinPage demo_page_id False (modify_page f (\<lambda>_. grown_page) b1))) = (b3, Some f)"
    "on_page f (MarkDelete 0) b3 = Some (False, b4)"
    "pool_inv {} {} (fst (UnpinPage demo_page_id True (MarkDirty f b4)))"
    "view (fst (UnpinPage demo_page_id True (MarkDirty f b4))) demo_page_id = Some grown_page"
    "find_page demo_page_id (fst (UnpinPage demo_page_id True (MarkDirty f b4))) = Some f"
    using grow_state [OF heap_pool_facts(1,2) demo_heap_facts(5) heap_pool_facts(3) demo_heap_page_facts(1) f
        grown_page_facts(3,9)] by blast
  have "IsDeleted demo_heap_page (int 0) = Some False"
    using IsDeleted_int [of 0 demo_heap_page] demo_heap_page_facts by (simp add: live_def)
  moreover have "on_page f (UpdateTuple 0 grown_row) b1 = Some (False, modify_page f (\<lambda>_. grown_page) b1)"
    by (simp add: on_page_def at grown_page_facts(2))
  ultimately have "heap_UpdateTuple demo_heap (RID demo_page_id 0) grown_row heap_pool =
      heap_InsertTuple demo_heap grown_row (fst (UnpinPage demo_page_id True (MarkDirty f b4)))"
    using f at G(1,2) by (simp add: heap_UpdateTuple_def)
  then show ?thesis
    using insert_hit [OF G(3), of demo_heap f grown_page grown_row 16347] G(4,5) demo_heap_facts(2) grown_page_facts(3,6,7)
    by (simp add: grown_row_def SLOT_SIZE_def)
qed

theorem heap_update_duplicates_witness:
  "\<exists>b rid copy. heap_UpdateTuple demo_heap (RID demo_page_id 0) grown_row heap_pool = Some (b, Some rid) \<and>
    copy \<noteq> rid \<and> heap_row (view b) copy = Some grown_row \<and> heap_row (view b) rid = Some grown_row"
proof -
  obtain b rid where u: "heap_UpdateTuple demo_heap (RID demo_page_id 0) grown_row heap_pool = Some (b, Some rid)"
    using demo_heap_update by blast
  have "\<exists>copy. copy \<noteq> rid \<and> rid_page_id copy = rid_page_id (RID demo_page_id 0) \<and> heap_row (view b) copy = Some grown_row \<and>
    heap_row (view b) rid = Some grown_row"
    by (rule heap_update_duplicates [OF heap_pool_facts(1,2) demo_heap_facts(1) _ _ demo_heap_facts(3) _ _ _ _ _ _ _ _ _
          grown_page_facts(8) u, where old = demo_row1])
      (use demo_heap_facts heap_pool_facts(3) grown_page_facts(2) in \<open>simp_all add: demo_row1_def grown_row_def MAX_TUPLE_SIZE_def\<close>)
  with u show ?thesis by blast
qed

end
