(* ===== verification/Hash_Index.thy ===== *)
theory Hash_Index
  imports Buffer_Pool
begin

unbundle bit_operations_syntax

text \<open>
  The extendible hash index (storage/index/extendible_hash_index.h and .cpp) at the level of the
  bytes of its directory and bucket pages, reached through the buffer pool. \<open>None\<close> as the result
  of an operation means that the source does not get to a result: a \<open>memcpy\<close> outside a page, a
  shift by too many bits, or a recursion that does not end.
\<close>

section \<open>Layout\<close>

definition BUCKET_HEADER_SIZE :: nat where "BUCKET_HEADER_SIZE = 6"
definition BUCKET_KV_SIZE :: nat where "BUCKET_KV_SIZE = 14"
definition MAX_BUCKET_SIZE :: nat where "MAX_BUCKET_SIZE = (PAGE_SIZE - BUCKET_HEADER_SIZE) div BUCKET_KV_SIZE"

lemmas bucket_defs = BUCKET_HEADER_SIZE_def BUCKET_KV_SIZE_def MAX_BUCKET_SIZE_def PAGE_SIZE_def

record hash_index =
  directory_page_id :: i32
  index_size :: nat

definition ExtendibleHashIndex :: "i32 \<Rightarrow> hash_index" where
  "ExtendibleHashIndex pid = \<lparr>directory_page_id = pid, index_size = 0\<rparr>"

definition HashKey :: "i64 \<Rightarrow> i32" where
  "HashKey key =
     (let k = key XOR drop_bit 33 key;
          k = k * 0xff51afd7ed558ccd;
          k = k XOR drop_bit 33 k;
          k = k * 0xc4ceb9fe1a85ec53;
          k = k XOR drop_bit 33 k
      in ucast k)"

text \<open>\<open>HashKey(key) & ((1 << depth) - 1)\<close>; the shift is undefined from 31 on.\<close>

definition hash_slot :: "i64 \<Rightarrow> nat \<Rightarrow> nat option" where
  "hash_slot key depth = (if depth \<ge> 31 then None else Some (unat (HashKey key) mod 2 ^ depth))"

text \<open>The first word of a directory page is the global depth, of a bucket page the local depth.\<close>

definition page_depth :: "page \<Rightarrow> nat" where
  "page_depth p = le_dec (mem_read p 0 4)"

definition set_page_depth :: "nat \<Rightarrow> page \<Rightarrow> page" where
  "set_page_depth n p = mem_write p 0 (le_enc 4 (n mod 2 ^ 32))"

definition entry_offset :: "nat \<Rightarrow> nat" where "entry_offset i = 4 + i * 8"

definition entry_bucket :: "page \<Rightarrow> nat \<Rightarrow> i32 option" where
  "entry_bucket d i = map_option dec_word (pg_read d (entry_offset i + 4) 4)"

definition set_entry_depth :: "nat \<Rightarrow> nat \<Rightarrow> page \<Rightarrow> page option" where
  "set_entry_depth i n d = pg_write d (entry_offset i) (le_enc 4 (n mod 2 ^ 32))"

definition set_entry_bucket :: "nat \<Rightarrow> i32 \<Rightarrow> page \<Rightarrow> page option" where
  "set_entry_bucket i pid d = pg_write d (entry_offset i + 4) (enc_word pid)"

definition bucket_size :: "page \<Rightarrow> nat" where
  "bucket_size p = le_dec (mem_read p 4 2)"

definition set_bucket_size :: "nat \<Rightarrow> page \<Rightarrow> page" where
  "set_bucket_size n p = mem_write p 4 (le_enc 2 (n mod 65536))"

definition kv_offset :: "nat \<Rightarrow> nat" where "kv_offset i = BUCKET_HEADER_SIZE + i * BUCKET_KV_SIZE"

definition kv_key :: "page \<Rightarrow> nat \<Rightarrow> i64 option" where
  "kv_key p i = map_option dec_word (pg_read p (kv_offset i) 8)"

definition kv_rid :: "page \<Rightarrow> nat \<Rightarrow> RID option" where
  "kv_rid p i = do {
     pid \<leftarrow> pg_read p (kv_offset i + 8) 4;
     slot \<leftarrow> pg_read p (kv_offset i + 12) 2;
     Some (RID (dec_word pid) (dec_word slot)) }"

definition put_kv :: "nat \<Rightarrow> i64 \<Rightarrow> RID \<Rightarrow> page \<Rightarrow> page option" where
  "put_kv i key rid p = do {
     p \<leftarrow> pg_write p (kv_offset i) (enc_word key);
     p \<leftarrow> pg_write p (kv_offset i + 8) (enc_word (rid_page_id rid));
     pg_write p (kv_offset i + 12) (enc_word (rid_slot_id rid)) }"

text \<open>Append a pair and store the new size, as every insertion does.\<close>

definition append_kv :: "i64 \<Rightarrow> RID \<Rightarrow> page \<Rightarrow> page option" where
  "append_kv key rid p = map_option (set_bucket_size (bucket_size p + 1)) (put_kv (bucket_size p) key rid p)"

section \<open>Buckets\<close>

definition GetBucketPageId :: "hash_index \<Rightarrow> i64 \<Rightarrow> bpm \<Rightarrow> (bpm \<times> i32) option" where
  "GetBucketPageId ix key b =
     (if directory_page_id ix = INVALID_PAGE_ID then Some (b, INVALID_PAGE_ID)
      else
        case FetchPage (directory_page_id ix) b of
          (b, None) \<Rightarrow> Some (b, INVALID_PAGE_ID)
        | (b, Some f) \<Rightarrow> do {
            slot \<leftarrow> hash_slot key (page_depth (page_at f b));
            bucket_id \<leftarrow> entry_bucket (page_at f b) slot;
            Some (fst (UnpinPage (directory_page_id ix) False b), bucket_id) })"

definition InsertIntoBucket :: "i32 \<Rightarrow> i64 \<Rightarrow> RID \<Rightarrow> bpm \<Rightarrow> (bpm \<times> bool) option" where
  "InsertIntoBucket pid key rid b =
     (case FetchPage pid b of
        (b, None) \<Rightarrow> Some (b, False)
      | (b, Some f) \<Rightarrow>
          if bucket_size (page_at f b) \<ge> MAX_BUCKET_SIZE then Some (fst (UnpinPage pid False b), False)
          else do {
            b \<leftarrow> change_page f (append_kv key rid) b;
            Some (fst (UnpinPage pid True (MarkDirty f b)), True) })"

text \<open>The first of the positions that holds the key.\<close>

fun find_key :: "page \<Rightarrow> i64 \<Rightarrow> nat list \<Rightarrow> nat option option" where
  "find_key p key [] = Some None"
| "find_key p key (i # is) = do {
     k \<leftarrow> kv_key p i;
     if k = key then Some (Some i) else find_key p key is }"

fun shift_down :: "nat list \<Rightarrow> page \<Rightarrow> page option" where
  "shift_down [] p = Some p"
| "shift_down (i # is) p = do {
     kv \<leftarrow> pg_read p (kv_offset (i + 1)) BUCKET_KV_SIZE;
     p \<leftarrow> pg_write p (kv_offset i) kv;
     shift_down is p }"

text \<open>The index found is kept in an \<open>int16_t\<close>: a position of 32768 or more counts as not found.\<close>

definition RemoveFromBucket :: "i32 \<Rightarrow> i64 \<Rightarrow> bpm \<Rightarrow> (bpm \<times> bool) option" where
  "RemoveFromBucket pid key b =
     (case FetchPage pid b of
        (b, None) \<Rightarrow> Some (b, False)
      | (b, Some f) \<Rightarrow> do {
          let size = bucket_size (page_at f b);
          found \<leftarrow> find_key (page_at f b) key [0..<size];
          case found of
            None \<Rightarrow> Some (fst (UnpinPage pid False b), False)
          | Some i \<Rightarrow>
              if i \<ge> 32768 then Some (fst (UnpinPage pid False b), False)
              else do {
                b \<leftarrow> change_page f (\<lambda>p. map_option (set_bucket_size (size - 1)) (shift_down [i..<size - 1] p)) b;
                Some (fst (UnpinPage pid True (MarkDirty f b)), True) } })"

section \<open>Splitting\<close>

fun read_entries :: "page \<Rightarrow> nat list \<Rightarrow> (i64 \<times> RID) list option" where
  "read_entries p [] = Some []"
| "read_entries p (i # is) = do {
     k \<leftarrow> kv_key p i;
     r \<leftarrow> kv_rid p i;
     es \<leftarrow> read_entries p is;
     Some ((k, r) # es) }"

text \<open>The loop over the directory: the entries of the old bucket get the new depth, and those with
  the new bit point to the new bucket.\<close>

fun redirect :: "i32 \<Rightarrow> i32 \<Rightarrow> nat \<Rightarrow> nat list \<Rightarrow> page \<Rightarrow> page option" where
  "redirect old new depth [] d = Some d"
| "redirect old new depth (i # is) d = do {
     old_bucket \<leftarrow> entry_bucket d i;
     d \<leftarrow> (if old_bucket = old then
             if bit i depth then Option.bind (set_entry_depth i (depth + 1) d) (set_entry_bucket i new)
             else set_entry_depth i (depth + 1) d
           else Some d);
     redirect old new depth is d }"

text \<open>The loop that puts the saved entries back, on the contents of the old and of the new bucket.\<close>

fun redistribute :: "i32 \<Rightarrow> page \<Rightarrow> (i64 \<times> RID) list \<Rightarrow> page \<times> page \<Rightarrow> (page \<times> page) option" where
  "redistribute old d [] (op, np) = Some (op, np)"
| "redistribute old d ((k, rid) # es) (op, np) = do {
     slot \<leftarrow> hash_slot k (page_depth d);
     target \<leftarrow> entry_bucket d slot;
     if target = old then do {
       op \<leftarrow> append_kv k rid op;
       redistribute old d es (op, np) }
     else do {
       np \<leftarrow> append_kv k rid np;
       redistribute old d es (op, np) } }"

fun copy_entries :: "nat \<Rightarrow> nat list \<Rightarrow> page \<Rightarrow> page option" where
  "copy_entries old_size [] d = Some d"
| "copy_entries old_size (i # is) d = do {
     e \<leftarrow> pg_read d (entry_offset i) 8;
     d \<leftarrow> pg_write d (entry_offset (i + old_size)) e;
     copy_entries old_size is d }"

definition doubled_page :: "page \<Rightarrow> page option" where
  "doubled_page d =
     (let depth = page_depth d in
      if depth \<ge> 32 then None
      else copy_entries (2 ^ depth) (rev [0..<2 ^ depth]) (set_page_depth (depth + 1) d))"

definition DoubleDirectory :: "hash_index \<Rightarrow> bpm \<Rightarrow> bpm option" where
  "DoubleDirectory ix b =
     (case FetchPage (directory_page_id ix) b of
        (b, None) \<Rightarrow> Some b
      | (b, Some f) \<Rightarrow> do {
          b \<leftarrow> change_page f doubled_page b;
          Some (fst (UnpinPage (directory_page_id ix) True (MarkDirty f b))) })"

text \<open>
  The new bucket is released before the entries are put into it; the code goes on writing through
  the pointer to its frame.
\<close>

partial_function (option) SplitBucket :: "hash_index \<Rightarrow> i32 \<Rightarrow> bpm \<Rightarrow> bpm option" where
  "SplitBucket ix pid b =
     (case FetchPage pid b of
        (b, None) \<Rightarrow> Some b
      | (b, Some f) \<Rightarrow>
          Option.bind (read_entries (page_at f b) [0..<bucket_size (page_at f b)]) (\<lambda>entries.
            let local_depth = page_depth (page_at f b) in
            case FetchPage (directory_page_id ix) b of
              (b, None) \<Rightarrow> Some (fst (UnpinPage pid False b))
            | (b, Some g) \<Rightarrow>
                let global_depth = page_depth (page_at g b) in
                if local_depth < global_depth then
                  Option.bind (NewPage 0 b) (\<lambda>(b, new_id, new_frame).
                    case new_frame of
                      None \<Rightarrow> Some (fst (UnpinPage (directory_page_id ix) False (fst (UnpinPage pid False b))))
                    | Some n \<Rightarrow>
                        if global_depth \<ge> 32 then None
                        else
                          let b = modify_page n (\<lambda>_. set_page_depth (local_depth + 1) zero_page) b in
                          Option.bind (change_page g (redirect pid new_id local_depth [0..<2 ^ global_depth]) b) (\<lambda>b.
                            let b = modify_page f (set_page_depth (local_depth + 1)) b;
                                b = fst (UnpinPage new_id True (MarkDirty n b));
                                b = modify_page f (set_bucket_size 0) b
                            in Option.bind (redistribute pid (page_at g b) entries (page_at f b, page_at n b)) (\<lambda>(op, np).
                                 let b = modify_page n (\<lambda>_. np) (modify_page f (\<lambda>_. op) b);
                                     b = MarkDirty g (MarkDirty f b)
                                 in Some (fst (UnpinPage (directory_page_id ix) True (fst (UnpinPage pid True b)))))))
                else
                  let b = fst (UnpinPage (directory_page_id ix) False (fst (UnpinPage pid False b))) in
                  Option.bind (DoubleDirectory ix b) (SplitBucket ix pid)))"

section \<open>The index\<close>

text \<open>The loop that creates the two buckets of a new directory; the directory page is changed in
  place. The result tells whether both could be created.\<close>

fun create_buckets :: "nat \<Rightarrow> nat list \<Rightarrow> bpm \<Rightarrow> (bpm \<times> bool) option" where
  "create_buckets f [] b = Some (b, True)"
| "create_buckets f (i # is) b = do {
     (b, bucket_id, bucket_page) \<leftarrow> NewPage 0 b;
     case bucket_page of
       None \<Rightarrow> Some (b, False)
     | Some g \<Rightarrow> do {
         let b = modify_page g (\<lambda>_. set_bucket_size 0 (set_page_depth 1 zero_page)) b;
         let b = fst (UnpinPage bucket_id True (MarkDirty g b));
         b \<leftarrow> change_page f (\<lambda>d. Option.bind (set_entry_depth i 1 d) (set_entry_bucket i bucket_id)) b;
         create_buckets f is b } }"

definition create_directory :: "hash_index \<Rightarrow> bpm \<Rightarrow> (hash_index \<times> bpm \<times> bool) option" where
  "create_directory ix b = do {
     (b, dir_id, dir_page) \<leftarrow> NewPage 0 b;
     case dir_page of
       None \<Rightarrow> Some (ix, b, False)
     | Some f \<Rightarrow> do {
         let b = modify_page f (\<lambda>_. set_page_depth 1 zero_page) b;
         (b, ok) \<leftarrow> create_buckets f [0, 1] b;
         if \<not> ok then Some (ix, fst (UnpinPage dir_id False b), False)
         else Some (ix\<lparr>directory_page_id := dir_id\<rparr>, fst (UnpinPage dir_id True (MarkDirty f b)), True) } }"

definition hash_Insert :: "i64 \<Rightarrow> RID \<Rightarrow> hash_index \<Rightarrow> bpm \<Rightarrow> (hash_index \<times> bpm \<times> bool) option" where
  "hash_Insert key rid ix b = do {
     (ix, b, ready) \<leftarrow>
       (if directory_page_id ix = INVALID_PAGE_ID then create_directory ix b else Some (ix, b, True));
     if \<not> ready then Some (ix, b, False)
     else do {
       (b, bucket_id) \<leftarrow> GetBucketPageId ix key b;
       if bucket_id = INVALID_PAGE_ID then Some (ix, b, False)
       else do {
         (b, ok) \<leftarrow> InsertIntoBucket bucket_id key rid b;
         if ok then Some (ix\<lparr>index_size := index_size ix + 1\<rparr>, b, True)
         else do {
           b \<leftarrow> SplitBucket ix bucket_id b;
           (b, bucket_id) \<leftarrow> GetBucketPageId ix key b;
           (b, ok) \<leftarrow> InsertIntoBucket bucket_id key rid b;
           if ok then Some (ix\<lparr>index_size := index_size ix + 1\<rparr>, b, True) else Some (ix, b, False) } } } }"

definition hash_GetValue :: "hash_index \<Rightarrow> i64 \<Rightarrow> bpm \<Rightarrow> (bpm \<times> RID) option" where
  "hash_GetValue ix key b = do {
     (b, bucket_id) \<leftarrow> GetBucketPageId ix key b;
     if bucket_id = INVALID_PAGE_ID then Some (b, default_rid)
     else
       (case FetchPage bucket_id b of
          (b, None) \<Rightarrow> Some (b, default_rid)
        | (b, Some f) \<Rightarrow> do {
            found \<leftarrow> find_key (page_at f b) key [0..<bucket_size (page_at f b)];
            result \<leftarrow> (case found of None \<Rightarrow> Some default_rid | Some i \<Rightarrow> kv_rid (page_at f b) i);
            Some (fst (UnpinPage bucket_id False b), result) }) }"

definition hash_Remove :: "i64 \<Rightarrow> hash_index \<Rightarrow> bpm \<Rightarrow> (hash_index \<times> bpm \<times> bool) option" where
  "hash_Remove key ix b = do {
     (b, bucket_id) \<leftarrow> GetBucketPageId ix key b;
     if bucket_id = INVALID_PAGE_ID then Some (ix, b, False)
     else do {
       (b, ok) \<leftarrow> RemoveFromBucket bucket_id key b;
       if ok then Some (ix\<lparr>index_size := (index_size ix + 2 ^ 64 - 1) mod 2 ^ 64\<rparr>, b, True)
       else Some (ix, b, False) } }"

text \<open>The pairs of one bucket whose keys lie in the range, compared as signed integers.\<close>

fun range_entries :: "page \<Rightarrow> i64 \<Rightarrow> i64 \<Rightarrow> nat list \<Rightarrow> (i64 \<times> RID) list option" where
  "range_entries p lo hi [] = Some []"
| "range_entries p lo hi (j # js) = do {
     k \<leftarrow> kv_key p j;
     if sint lo \<le> sint k \<and> sint k \<le> sint hi then do {
       r \<leftarrow> kv_rid p j;
       es \<leftarrow> range_entries p lo hi js;
       Some ((k, r) # es) }
     else range_entries p lo hi js }"

fun scan_buckets :: "nat \<Rightarrow> i64 \<Rightarrow> i64 \<Rightarrow> nat list \<Rightarrow> bpm \<Rightarrow> (bpm \<times> (i64 \<times> RID) list) option" where
  "scan_buckets f lo hi [] b = Some (b, [])"
| "scan_buckets f lo hi (i # is) b = do {
     bucket_id \<leftarrow> entry_bucket (page_at f b) i;
     case FetchPage bucket_id b of
       (b, None) \<Rightarrow> scan_buckets f lo hi is b
     | (b, Some g) \<Rightarrow> do {
         es \<leftarrow> range_entries (page_at g b) lo hi [0..<bucket_size (page_at g b)];
         (b, rest) \<leftarrow> scan_buckets f lo hi is (fst (UnpinPage bucket_id False b));
         Some (b, es @ rest) } }"

definition hash_RangeScan :: "hash_index \<Rightarrow> i64 \<Rightarrow> i64 \<Rightarrow> bpm \<Rightarrow> (bpm \<times> (i64 \<times> RID) list) option" where
  "hash_RangeScan ix lo hi b =
     (if directory_page_id ix = INVALID_PAGE_ID then Some (b, [])
      else
        case FetchPage (directory_page_id ix) b of
          (b, None) \<Rightarrow> Some (b, [])
        | (b, Some f) \<Rightarrow>
            if page_depth (page_at f b) \<ge> 32 then None
            else do {
              (b, results) \<leftarrow> scan_buckets f lo hi [0..<2 ^ page_depth (page_at f b)] b;
              Some (fst (UnpinPage (directory_page_id ix) False b), results) })"

end
