(* ===== verification/Hash_Props.thy ===== *)
theory Hash_Props
  imports Hash_Index Pool_Client
begin

unbundle bit_operations_syntax

text \<open>
  Correctness of the extendible hash index: buckets as lists of pairs, lookups through the
  directory, and the doubling of the directory with its bound.
\<close>

section \<open>Buckets\<close>

lemma kv_inside: "i < MAX_BUCKET_SIZE \<Longrightarrow> kv_offset i + 14 \<le> PAGE_SIZE"
  by (simp add: kv_offset_def bucket_defs)

lemma kv_apart: "i < j \<Longrightarrow> kv_offset i + 14 \<le> kv_offset j"
  by (simp add: kv_offset_def bucket_defs)

lemma kv_simps:
  assumes "i < MAX_BUCKET_SIZE"
  shows "kv_key p i = Some (dec_word (mem_read p (kv_offset i) 8))"
    "kv_rid p i = Some (RID (dec_word (mem_read p (kv_offset i + 8) 4)) (dec_word (mem_read p (kv_offset i + 12) 2)))"
  using kv_inside [OF assms] by (simp_all add: kv_key_def kv_rid_def)

lemma kv_offset_ge: "6 \<le> kv_offset i" by (simp add: kv_offset_def bucket_defs)

text \<open>The page after appending a pair.\<close>

definition kv_page :: "i64 \<Rightarrow> RID \<Rightarrow> page \<Rightarrow> page" where
  "kv_page key rid p =
     set_bucket_size (bucket_size p + 1)
       (mem_write (mem_write (mem_write p (kv_offset (bucket_size p)) (enc_word key))
          (kv_offset (bucket_size p) + 8) (enc_word (rid_page_id rid)))
          (kv_offset (bucket_size p) + 12) (enc_word (rid_slot_id rid)))"

lemma append_kv_run: "bucket_size p < MAX_BUCKET_SIZE \<Longrightarrow> append_kv key rid p = Some (kv_page key rid p)"
  using kv_inside [of "bucket_size p"] by (simp add: append_kv_def put_kv_def kv_page_def)

lemma kv_page_facts:
  assumes "bucket_size p < MAX_BUCKET_SIZE"
  shows "bucket_size (kv_page key rid p) = bucket_size p + 1" "page_depth (kv_page key rid p) = page_depth p"
    "kv_key (kv_page key rid p) (bucket_size p) = Some key" "kv_rid (kv_page key rid p) (bucket_size p) = Some rid"
    "i < bucket_size p \<Longrightarrow> kv_key (kv_page key rid p) i = kv_key p i"
    "i < bucket_size p \<Longrightarrow> kv_rid (kv_page key rid p) i = kv_rid p i"
proof -
  let ?n = "bucket_size p"
  note ge = kv_offset_ge [of ?n]
  have s: "?n + 1 < 65536" using assms by (simp add: bucket_defs)
  show "bucket_size (kv_page key rid p) = ?n + 1"
    using s by (simp add: kv_page_def bucket_size_def set_bucket_size_def)
  show "page_depth (kv_page key rid p) = page_depth p"
    using ge by (simp add: kv_page_def page_depth_def set_bucket_size_def mem_read_write_disjoint)
  show "kv_key (kv_page key rid p) ?n = Some key" "kv_rid (kv_page key rid p) ?n = Some rid"
    using ge assms by (simp_all add: kv_simps kv_page_def set_bucket_size_def mem_read_write_disjoint)
  assume i: "i < ?n"
  then have m: "i < MAX_BUCKET_SIZE" using assms by simp
  note ap = kv_apart [OF i] and gi = kv_offset_ge [of i]
  show "kv_key (kv_page key rid p) i = kv_key p i" "kv_rid (kv_page key rid p) i = kv_rid p i"
    using ap gi by (simp_all add: kv_simps [OF m] kv_page_def set_bucket_size_def mem_read_write_disjoint)
qed

lemma find_key_cong: "(\<And>i. i \<in> set is \<Longrightarrow> kv_key q i = kv_key p i) \<Longrightarrow> find_key q key is = find_key p key is"
  by (induction "is") (simp_all cong: Option.bind_cong if_cong)

lemma find_key_app:
  "find_key p key (xs @ ys) = Option.bind (find_key p key xs) (\<lambda>r. case r of Some i \<Rightarrow> Some (Some i) | None \<Rightarrow> find_key p key ys)"
  by (induction xs) (auto simp: Option.bind_assoc intro!: Option.bind_cong)

lemma find_key_in: "find_key p key is = Some (Some i) \<Longrightarrow> i \<in> set is \<and> kv_key p i = Some key"
  by (induction "is") (auto simp: bind_eq_Some_conv split: if_splits)

lemma find_key_total:
  "\<forall>i \<in> set is. i < MAX_BUCKET_SIZE \<Longrightarrow> \<exists>r. find_key p key is = Some r"
  by (induction "is") (auto simp: kv_simps)

text \<open>What a bucket stores under a key: the first pair with it.\<close>

definition bucket_lookup :: "page \<Rightarrow> i64 \<Rightarrow> RID option" where
  "bucket_lookup p key = (case find_key p key [0..<bucket_size p] of Some (Some i) \<Rightarrow> kv_rid p i | _ \<Rightarrow> None)"

lemma bucket_lookup_append:
  assumes "bucket_size p < MAX_BUCKET_SIZE"
  shows "bucket_lookup (kv_page key rid p) k =
    (if k = key \<and> bucket_lookup p key = None then Some rid else bucket_lookup p k)"
proof -
  let ?q = "kv_page key rid p" and ?n = "bucket_size p"
  note F = kv_page_facts [OF assms, where key = key and rid = rid]
  have same: "find_key ?q k [0..<?n] = find_key p k [0..<?n]" by (rule find_key_cong) (simp add: F)
  obtain r where r: "find_key p k [0..<?n] = Some r" using find_key_total [of "[0..<?n]" p k] assms by auto
  show ?thesis
  proof (cases r)
    case None
    then show ?thesis
      using r by (auto simp: bucket_lookup_def F(1,3,4) find_key_app same)
  next
    case (Some i)
    then have i: "i < ?n" using find_key_in [of p k "[0..<?n]" i] r by simp
    then have "\<exists>x. kv_rid p i = Some x" using assms kv_simps(2) [of i p] by simp
    then show ?thesis
      using r Some i F(6) [OF i] by (auto simp: bucket_lookup_def F(1) find_key_app same)
  qed
qed

section \<open>Lookups through the directory\<close>

definition hash_bucket :: "page \<Rightarrow> i64 \<Rightarrow> i32 option" where
  "hash_bucket d key = Option.bind (hash_slot key (page_depth d)) (entry_bucket d)"

text \<open>What the index stores under a key, on the pages as the clients of the pool see them.\<close>

definition hash_lookup :: "i32 \<Rightarrow> (i32 \<Rightarrow> page option) \<Rightarrow> i64 \<Rightarrow> RID option" where
  "hash_lookup pid v key = do {
     d \<leftarrow> v pid;
     e \<leftarrow> hash_bucket d key;
     p \<leftarrow> v e;
     bucket_lookup p key }"

lemma GetBucketPageId_law:
  assumes "pool_inv {} {} b" "directory_page_id ix \<noteq> INVALID_PAGE_ID" "view b (directory_page_id ix) = Some d"
    "hash_bucket d key = Some e"
  shows "\<exists>b'. GetBucketPageId ix key b =
      Some (b', if snd (FetchPage (directory_page_id ix) b) = None then INVALID_PAGE_ID else e) \<and>
    pool_inv {} {} b' \<and> view_le b b' \<and> pins b' = pins b"
proof -
  let ?p = "directory_page_id ix"
  obtain b1 fo where f: "FetchPage ?p b = (b1, fo)" by fastforce
  note F = FetchPage_law [OF assms(1) f]
  show ?thesis
  proof (cases fo)
    case None
    then show ?thesis using assms(2) f F by (simp add: GetBucketPageId_def)
  next
    case (Some g)
    have fg: "FetchPage ?p b = (b1, Some g)" using f Some by simp
    obtain b2 ok where u: "UnpinPage ?p False b1 = (b2, ok)" by fastforce
    note r = pool.fetch_release [OF assms(1) _ fg u]
    have "page_at g b1 = d" using r(5) r(3) [OF _ assms(3)] by simp
    then have "GetBucketPageId ix key b = Some (b2, e)"
      using assms(2,4) fg u by (auto simp: GetBucketPageId_def hash_bucket_def bind_eq_Some_conv)
    then show ?thesis using fg r by (simp add: view_le_def)
  qed
qed

section \<open>Doubling\<close>

lemma mem_read_eq: "(\<And>i. off \<le> i \<Longrightarrow> i < off + n \<Longrightarrow> p i = q i) \<Longrightarrow> mem_read p off n = mem_read q off n"
  by (rule nth_equalityI) simp_all

lemma copy_entries_law:
  assumes "n \<le> N" "4 + 16 * N \<le> PAGE_SIZE"
  shows "\<exists>d'. copy_entries N (rev [0..<n]) d = Some d' \<and>
    (\<forall>a. d' a = (if 4 + 8 * N \<le> a \<and> a < 4 + 8 * N + 8 * n then d (a - 8 * N) else d a))"
  using assms(1)
proof (induction n arbitrary: d)
  case 0
  then show ?case by auto
next
  case (Suc n)
  let ?e = "mem_read d (entry_offset n) 8"
  let ?d = "mem_write d (entry_offset (n + N)) ?e"
  have "entry_offset n + 8 \<le> PAGE_SIZE" "entry_offset (n + N) + length ?e \<le> PAGE_SIZE"
    using Suc.prems assms(2) by (simp_all add: entry_offset_def)
  then have step: "copy_entries N (rev [0..<Suc n]) d = copy_entries N (rev [0..<n]) ?d" by simp
  from Suc.IH [of ?d] Suc.prems obtain d' where d': "copy_entries N (rev [0..<n]) ?d = Some d'"
    "\<And>a. d' a = (if 4 + 8 * N \<le> a \<and> a < 4 + 8 * N + 8 * n then ?d (a - 8 * N) else ?d a)" by auto
  have w: "?d a = (if 4 + 8 * N + 8 * n \<le> a \<and> a < 4 + 8 * N + 8 * Suc n then d (a - 8 * N) else d a)" for a
    by (auto simp: mem_write_def entry_offset_def mult.commute)
  have "d' a = (if 4 + 8 * N \<le> a \<and> a < 4 + 8 * N + 8 * Suc n then d (a - 8 * N) else d a)" for a
    unfolding d'(2) w using Suc.prems by auto
  with step d'(1) show ?case by auto
qed

lemma copy_entries_out:
  assumes "PAGE_SIZE < 4 + 16 * N" "0 < N" shows "copy_entries N (rev [0..<N]) d = None"
proof -
  obtain m where m: "N = Suc m" using assms(2) by (cases N) auto
  have "PAGE_SIZE < entry_offset (m + N) + 8" using assms(1) m by (simp add: entry_offset_def)
  then have "pg_write e (entry_offset (m + N)) (mem_read c a 8) = None" for e c a
    by (simp add: pg_write_None)
  then show ?thesis unfolding m by (auto simp: pg_read_def split: bind_split)
qed

lemma doubled_entry:
  assumes "page_depth d \<le> 9"
  shows "\<exists>d'. doubled_page d = Some d' \<and> page_depth d' = page_depth d + 1 \<and>
    (\<forall>i < 2 ^ (page_depth d + 1). entry_bucket d' i = entry_bucket d (i mod 2 ^ page_depth d))"
proof -
  let ?D = "page_depth d"
  let ?N = "2 ^ ?D :: nat"
  have "(2::nat) ^ ?D \<le> 2 ^ 9" using assms by (rule power_increasing) simp
  then have N: "?N \<le> 512" by simp
  let ?s = "set_page_depth (?D + 1) d"
  obtain d' where d': "copy_entries ?N (rev [0..<?N]) ?s = Some d'"
    "\<And>a. d' a = (if 4 + 8 * ?N \<le> a \<and> a < 4 + 8 * ?N + 8 * ?N then ?s (a - 8 * ?N) else ?s a)"
    using copy_entries_law [of ?N ?N ?s] N by (auto simp: PAGE_SIZE_def)
  have run: "doubled_page d = Some d'" using assms d'(1) by (simp add: doubled_page_def Let_def)
  have low: "mem_read d' a n = mem_read ?s a n" if "a + n \<le> 4 + 8 * ?N" for a n
    using that by (intro mem_read_eq) (simp add: d'(2))
  have s: "mem_read ?s a n = mem_read d a n" if "4 \<le> a" for a n
    using that by (simp add: set_page_depth_def mem_read_write_disjoint)
  have "page_depth d' = ?D + 1"
    using low [of 0 4] assms by (simp add: page_depth_def set_page_depth_def)
  moreover have "entry_bucket d' i = entry_bucket d (i mod ?N)" if i: "i < 2 ^ (?D + 1)" for i
  proof -
    have "mem_read d' (entry_offset i + 4) 4 = mem_read d (entry_offset (i mod ?N) + 4) 4"
    proof (cases "i < ?N")
      case True
      then show ?thesis using low s by (simp add: entry_offset_def)
    next
      case False
      have m: "i mod ?N = i - ?N" using False i by (simp add: mod_if)
      have "mem_read d' (entry_offset i + 4) 4 = mem_read ?s (entry_offset (i - ?N) + 4) 4"
        using False i by (intro nth_equalityI) (simp_all add: d'(2) entry_offset_def algebra_simps)
      then show ?thesis using s by (simp add: m entry_offset_def)
    qed
    moreover have "entry_offset i + 8 \<le> PAGE_SIZE" using i N by (simp add: entry_offset_def PAGE_SIZE_def)
    moreover have "i mod ?N < 512" using N mod_less_divisor [of ?N i] by (meson less_le_trans zero_less_numeral zero_less_power)
    then have "entry_offset (i mod ?N) + 8 \<le> PAGE_SIZE" by (simp add: entry_offset_def PAGE_SIZE_def)
    ultimately show ?thesis by (simp add: entry_bucket_def)
  qed
  ultimately show ?thesis using run by blast
qed


section \<open>Insertion and lookup over the pool\<close>

text \<open>The directory is readable, and so is every bucket it names.\<close>

definition hash_ok :: "hash_index \<Rightarrow> page \<Rightarrow> bpm \<Rightarrow> bool" where
  "hash_ok ix d b \<longleftrightarrow> directory_page_id ix \<noteq> INVALID_PAGE_ID \<and> view b (directory_page_id ix) = Some d \<and>
     (\<forall>k. \<exists>e p. hash_bucket d k = Some e \<and> e \<noteq> INVALID_PAGE_ID \<and> e \<noteq> directory_page_id ix \<and> view b e = Some p \<and>
        bucket_size p \<le> MAX_BUCKET_SIZE)"

lemma hash_lookup_eq:
  "v pid = Some d \<Longrightarrow> hash_bucket d k = Some e \<Longrightarrow> v e = Some p \<Longrightarrow> hash_lookup pid v k = bucket_lookup p k"
  by (simp add: hash_lookup_def)

lemma hash_Insert_law:
  assumes "pool_inv {} {} b" "hash_ok ix d b" "hash_bucket d key = Some e" "view b e = Some p"
    "bucket_size p < MAX_BUCKET_SIZE" "GetBucketPageId ix key b = Some (b1, e)" "FetchPage e b1 = (b2, Some f)"
  shows "\<exists>b'. hash_Insert key rid ix b = Some (ix\<lparr>index_size := index_size ix + 1\<rparr>, b', True) \<and>
    pool_inv {} {} b' \<and> pins b' = pins b \<and> hash_ok ix d b' \<and>
    (\<forall>k. hash_lookup (directory_page_id ix) (view b') k =
       (if k = key \<and> hash_lookup (directory_page_id ix) (view b) key = None then Some rid
        else hash_lookup (directory_page_id ix) (view b) k))"
proof -
  let ?dir = "directory_page_id ix"
  note ok = assms(2) [unfolded hash_ok_def]
  have v: "?dir \<noteq> INVALID_PAGE_ID" "view b ?dir = Some d" "e \<noteq> INVALID_PAGE_ID" "e \<noteq> ?dir"
    using ok assms(3) by (blast, blast, metis option.inject, metis option.inject)
  from GetBucketPageId_law [OF assms(1) v(1,2) assms(3)] assms(6)
  have G: "pool_inv {} {} b1" "view_le b b1" "pins b1 = pins b" by auto
  have ve: "view b1 e = Some p" using G(2) assms(4) by (simp add: view_le_def)
  have at: "page_at f b2 = p" using FetchPage_law(2,5) [OF G(1) assms(7)] ve by (simp add: view_le_def)
  let ?q = "kv_page key rid p"
  obtain b3 u where un: "UnpinPage e True (MarkDirty f (modify_page f (\<lambda>_. ?q) b2)) = (b3, u)" by fastforce
  note A = alter [OF G(1) _ assms(7) ve un]
  have "InsertIntoBucket e key rid b1 = Some (b3, True)"
    using assms(5,7) at append_kv_run [OF assms(5)] un by (simp add: InsertIntoBucket_def change_page_def)
  then have run: "hash_Insert key rid ix b = Some (ix\<lparr>index_size := index_size ix + 1\<rparr>, b3, True)"
    using v assms(6) by (simp add: hash_Insert_def)
  have keep: "view b3 q = Some c" if "q \<noteq> e" "view b q = Some c" for q c
    using A(4) that G(2) by (simp add: view_le_def)
  have vd: "view b3 ?dir = Some d" using keep v by simp
  have look: "hash_lookup ?dir (view b3) k =
      (if k = key \<and> hash_lookup ?dir (view b) key = None then Some rid else hash_lookup ?dir (view b) k)" for k
  proof -
    from ok obtain e' p' where e': "hash_bucket d k = Some e'" "view b e' = Some p'" by blast
    show ?thesis
    proof (cases "e' = e")
      case True
      then have "p' = p" using e'(2) assms(4) by simp
      then show ?thesis
        using hash_lookup_eq [of "view b3", OF vd e'(1), of ?q] hash_lookup_eq [of "view b", OF v(2) e'] hash_lookup_eq [of "view b", OF v(2) assms(3,4)] A(3) True
          bucket_lookup_append [OF assms(5), of key rid k] by auto
    next
      case False
      then have "k \<noteq> key" using e'(1) assms(3) by auto
      with False show ?thesis
        using hash_lookup_eq [of "view b3", OF vd e'(1) keep [OF False e'(2)]] hash_lookup_eq [of "view b", OF v(2) e'] by simp
    qed
  qed
  have "hash_ok ix d b3"
    unfolding hash_ok_def
  proof (intro conjI allI)
    fix k
    from ok obtain e' p' where e': "hash_bucket d k = Some e'" "e' \<noteq> INVALID_PAGE_ID" "e' \<noteq> ?dir" "view b e' = Some p'"
      "bucket_size p' \<le> MAX_BUCKET_SIZE" by blast
    show "\<exists>e p. hash_bucket d k = Some e \<and> e \<noteq> INVALID_PAGE_ID \<and> e \<noteq> ?dir \<and> view b3 e = Some p \<and>
        bucket_size p \<le> MAX_BUCKET_SIZE"
    proof (cases "e' = e")
      case True
      then show ?thesis using e' A(3) assms(5) kv_page_facts(1) [OF assms(5), of key rid] by auto
    next
      case False
      then show ?thesis using e' keep by blast
    qed
  qed (use v vd in simp_all)
  with run A(1,2) G(3) look show ?thesis by auto
qed

lemma find_key_result:
  assumes "find_key p key is = Some r"
  shows "r = None \<and> (\<forall>i \<in> set is. kv_key p i \<noteq> Some key) \<or> (\<exists>i \<in> set is. r = Some i \<and> kv_key p i = Some key)"
  using assms by (induction "is") (auto simp: bind_eq_Some_conv split: if_splits)

lemma hash_GetValue_law:
  assumes "pool_inv {} {} b" "hash_ok ix d b"
  shows "\<exists>b' r. hash_GetValue ix key b = Some (b', r) \<and> pool_inv {} {} b' \<and> view_le b b' \<and> pins b' = pins b \<and>
    (r = default_rid \<or> hash_lookup (directory_page_id ix) (view b) key = Some r) \<and>
    (snd (FetchPage (directory_page_id ix) b) \<noteq> None \<longrightarrow>
       (\<forall>b1 e. GetBucketPageId ix key b = Some (b1, e) \<longrightarrow> snd (FetchPage e b1) \<noteq> None \<longrightarrow>
          r = (case hash_lookup (directory_page_id ix) (view b) key of None \<Rightarrow> default_rid | Some rid \<Rightarrow> rid)))"
proof -
  let ?dir = "directory_page_id ix"
  from assms(2) [unfolded hash_ok_def] obtain e p where v: "?dir \<noteq> INVALID_PAGE_ID" "view b ?dir = Some d"
    "hash_bucket d key = Some e" "e \<noteq> INVALID_PAGE_ID" "view b e = Some p" "bucket_size p \<le> MAX_BUCKET_SIZE" by blast
  from GetBucketPageId_law [OF assms(1) v(1-3)] obtain b1 where
    G: "GetBucketPageId ix key b = Some (b1, if snd (FetchPage ?dir b) = None then INVALID_PAGE_ID else e)"
      "pool_inv {} {} b1" "view_le b b1" "pins b1 = pins b" by blast
  have look: "hash_lookup ?dir (view b) key = bucket_lookup p key" by (rule hash_lookup_eq [of "view b", OF v(2,3,5)])
  show ?thesis
  proof (cases "snd (FetchPage ?dir b) = None")
    case True
    then show ?thesis using G by (auto simp: hash_GetValue_def)
  next
    case False
    obtain b2 fo where f: "FetchPage e b1 = (b2, fo)" by fastforce
    note F = FetchPage_law [OF G(2) f]
    have ve: "view b1 e = Some p" using G(3) v(5) by (simp add: view_le_def)
    show ?thesis
    proof (cases fo)
      case None
      then show ?thesis using G False F f v(4) by (auto simp: hash_GetValue_def dest: view_le_trans)
    next
      case (Some g)
      have fg: "FetchPage e b1 = (b2, Some g)" using f Some by simp
      obtain b3 u where un: "UnpinPage e False b2 = (b3, u)" by fastforce
      note V = visit [OF G(2) _ fg un ve]
      obtain r where r: "find_key p key [0..<bucket_size p] = Some r"
        using find_key_total [of "[0..<bucket_size p]" p key] v(6) by auto
      obtain x where x: "(case r of None \<Rightarrow> Some default_rid | Some i \<Rightarrow> kv_rid p i) = Some x"
        "x = (case bucket_lookup p key of None \<Rightarrow> default_rid | Some rid \<Rightarrow> rid)"
        using find_key_result [OF r] v(6) by (auto simp: bucket_lookup_def r kv_simps)
      have "hash_GetValue ix key b = Some (b3, x)"
        using G(1) False v(4) fg V(1) r x(1) un by (cases r) (simp_all add: hash_GetValue_def)
      then show ?thesis using V(2-4) G(3,4) x(2) look by (auto dest: view_le_trans split: option.splits)
    qed
  qed
qed


section \<open>A concrete index\<close>

text \<open>A directory of one entry in page 1 and its empty bucket in page 2 of a file.\<close>

definition demo_bucket_id :: i32 where "demo_bucket_id = MakePageId 0 2"

definition demo_dir :: page where "demo_dir = mem_write zero_page 8 (enc_word demo_bucket_id)"

definition hash_disk :: disk where
  "hash_disk = fst (WritePage demo_bucket_id zero_page (fst (WritePage demo_page_id demo_dir demo_disk2)))"

definition hash_pool :: bpm where "hash_pool = BufferPoolManager 2 hash_disk (LRUK (LRUKReplacer 2))"

definition demo_index :: hash_index where "demo_index = ExtendibleHashIndex demo_page_id"

lemma le_dec_zeros [simp]: "le_dec (replicate n 0) = 0"
  by (induction n) simp_all

lemma demo_dir_facts: "page_depth demo_dir = 0" "hash_bucket demo_dir k = Some demo_bucket_id"
proof -
  show d: "page_depth demo_dir = 0"
    by (simp add: page_depth_def demo_dir_def mem_read_write_disjoint)
  show "hash_bucket demo_dir k = Some demo_bucket_id"
    by (simp add: hash_bucket_def d hash_slot_def entry_bucket_def entry_offset_def PAGE_SIZE_def) (simp add: demo_dir_def)
qed

lemma demo_bucket_id_facts: "demo_bucket_id \<noteq> INVALID_PAGE_ID" "demo_bucket_id \<noteq> demo_page_id" "bucket_size zero_page = 0"
  by (simp_all add: demo_bucket_id_def demo_page_id_def MakePageId_INVALID bucket_size_def)

lemma hash_disk_facts: "disk_inv hash_disk" "ReadPage demo_page_id hash_disk = Some demo_dir"
  "ReadPage demo_bucket_id hash_disk = Some zero_page"
proof -
  obtain e where e: "GetFileEntry 0 demo_disk2 = Some e" "\<forall>n. \<not> broken demo_disk2 (inode e) n"
    using file_wfE [OF demo_disk2_facts(2)] by metis
  then have "writable demo_page_id demo_disk2" by (simp add: writable_def demo_page_id_def)
  then obtain d1 where d1: "WritePage demo_page_id demo_dir demo_disk2 = (d1, True)" using writable_WritePage by blast
  have "broken d1 = broken demo_disk2"
    using d1 e by (auto simp: WritePage_def stream_write_def demo_page_id_def split: option.splits if_splits)
  then have "writable demo_bucket_id d1"
    using e WritePage_entry [OF d1, of 0] by (simp add: writable_def demo_bucket_id_def)
  then obtain d2 where d2: "WritePage demo_bucket_id zero_page d1 = (d2, True)" using writable_WritePage by blast
  have h: "hash_disk = d2" by (simp add: hash_disk_def d1 d2)
  have i1: "disk_inv d1" by (rule WritePage_inv [OF demo_disk2_facts(1) d1])
  show "disk_inv hash_disk" unfolding h by (rule WritePage_inv [OF i1 d2])
  show "ReadPage demo_bucket_id hash_disk = Some zero_page" unfolding h using device.write_ok [OF i1 d2] by simp
  have "ReadPage demo_page_id d1 = Some demo_dir" using device.write_ok [OF demo_disk2_facts(1) d1] by simp
  then show "ReadPage demo_page_id hash_disk = Some demo_dir"
    unfolding h using device.write_other [OF i1 d2, of demo_page_id demo_dir] demo_bucket_id_facts(2) by simp
qed

lemma hash_pool_facts:
  "pool_inv {} {} hash_pool" "hash_ok demo_index demo_dir hash_pool" "view hash_pool demo_bucket_id = Some zero_page"
  "hash_lookup demo_page_id (view hash_pool) k = None"
proof -
  show "pool_inv {} {} hash_pool" unfolding hash_pool_def by (rule pool_inv_initial) (simp_all add: hash_disk_facts)
  have v: "view hash_pool = (\<lambda>q. ReadPage q hash_disk)"
    by (simp add: fun_eq_iff view_def hash_pool_def BufferPoolManager_def find_page_def)
  show b: "view hash_pool demo_bucket_id = Some zero_page" by (simp add: v hash_disk_facts)
  show "hash_ok demo_index demo_dir hash_pool"
    using demo_bucket_id_facts demo_page_id_valid
    by (simp add: hash_ok_def demo_index_def ExtendibleHashIndex_def v hash_disk_facts demo_dir_facts)
  show "hash_lookup demo_page_id (view hash_pool) k = None"
    by (simp add: hash_lookup_def v hash_disk_facts demo_dir_facts bucket_lookup_def demo_bucket_id_facts)
qed

lemma hash_pool_run:
  "\<exists>b1 b2 f. GetBucketPageId demo_index key hash_pool = Some (b1, demo_bucket_id) \<and>
     FetchPage demo_bucket_id b1 = (b2, Some f)"
proof -
  let ?b0 = "install 0 demo_page_id demo_dir (hash_pool\<lparr>access_count := access_count hash_pool + 1, free_list := [1]\<rparr>)"
  have f: "FetchPage demo_page_id hash_pool = (?b0, Some 0)"
    by (rule FetchPage_free)
      (simp_all add: hash_pool_def BufferPoolManager_def find_page_def demo_page_id_valid hash_disk_facts numeral_2_eq_2)
  let ?b1 = "fst (UnpinPage demo_page_id False ?b0)"
  have b1: "find_page demo_bucket_id ?b1 = None" "free_list ?b1 = [1]" "disk_manager ?b1 = hash_disk"
    using demo_bucket_id_facts(2)
    by (simp_all add: UnpinPage_fields) (simp_all add: hash_pool_def BufferPoolManager_def find_page_def)
  have "page_at 0 ?b0 = demo_dir"
    by (simp add: page_at_def install_def hash_pool_def BufferPoolManager_def set_frame_def)
  then have g: "GetBucketPageId demo_index key hash_pool = Some (?b1, demo_bucket_id)"
    using f demo_page_id_valid demo_dir_facts(2) [of key]
    by (auto simp: GetBucketPageId_def demo_index_def ExtendibleHashIndex_def hash_bucket_def bind_eq_Some_conv)
  from FetchPage_free [OF b1(1) demo_bucket_id_facts(1) b1(2), of zero_page] b1(3) hash_disk_facts(3) g
  show ?thesis by auto
qed

section \<open>Properties\<close>

text \<open>an insertion into a bucket that is not full returns true, counts the pair, and makes the key
  findable if it was not in the index; what the index stores under any other key, or under a key
  that was there before, stays as it was.\<close>

theorem hash_insert_lookup:
  assumes "pool_inv {} {} b" "hash_ok ix d b" "hash_bucket d key = Some e" "view b e = Some p"
    "bucket_size p < MAX_BUCKET_SIZE" "GetBucketPageId ix key b = Some (b1, e)" "FetchPage e b1 = (b2, Some f)"
  shows "\<exists>b'. hash_Insert key rid ix b = Some (ix\<lparr>index_size := index_size ix + 1\<rparr>, b', True) \<and>
    pool_inv {} {} b' \<and> pins b' = pins b \<and> hash_ok ix d b' \<and>
    (\<forall>k. hash_lookup (directory_page_id ix) (view b') k =
       (if k = key \<and> hash_lookup (directory_page_id ix) (view b) key = None then Some rid
        else hash_lookup (directory_page_id ix) (view b) k))"
  by (rule hash_Insert_law [OF assms])

theorem hash_insert_lookup_witness:
  "\<exists>b. hash_Insert 42 (RID 7 3) demo_index hash_pool = Some (demo_index\<lparr>index_size := 1\<rparr>, b, True) \<and>
    hash_lookup demo_page_id (view b) 42 = Some (RID 7 3) \<and> hash_lookup demo_page_id (view b) 43 = None"
proof -
  obtain b1 b2 f where r: "GetBucketPageId demo_index 42 hash_pool = Some (b1, demo_bucket_id)"
    "FetchPage demo_bucket_id b1 = (b2, Some f)" using hash_pool_run by blast
  have "bucket_size zero_page < MAX_BUCKET_SIZE" by (simp add: demo_bucket_id_facts bucket_defs)
  from hash_insert_lookup [OF hash_pool_facts(1,2) demo_dir_facts(2) hash_pool_facts(3) this r, of "RID 7 3"]
  show ?thesis by (auto simp: hash_pool_facts(4) demo_index_def ExtendibleHashIndex_def)
qed

text \<open>\<open>GetValue\<close> returns what the index stores under the key, the default row id when there is
  nothing or when a page cannot be fetched; it changes nothing.\<close>

theorem hash_get_value:
  assumes "pool_inv {} {} b" "hash_ok ix d b"
  shows "\<exists>b' r. hash_GetValue ix key b = Some (b', r) \<and> pool_inv {} {} b' \<and> view_le b b' \<and> pins b' = pins b \<and>
    (r = default_rid \<or> hash_lookup (directory_page_id ix) (view b) key = Some r) \<and>
    (snd (FetchPage (directory_page_id ix) b) \<noteq> None \<longrightarrow>
       (\<forall>b1 e. GetBucketPageId ix key b = Some (b1, e) \<longrightarrow> snd (FetchPage e b1) \<noteq> None \<longrightarrow>
          r = (case hash_lookup (directory_page_id ix) (view b) key of None \<Rightarrow> default_rid | Some rid \<Rightarrow> rid)))"
  by (rule hash_GetValue_law [OF assms])

theorem hash_get_value_witness:
  "\<exists>b. hash_GetValue demo_index 42 hash_pool = Some (b, default_rid)"
  using hash_get_value [OF hash_pool_facts(1,2), of 42] hash_pool_facts(4)
  by (auto simp: demo_index_def ExtendibleHashIndex_def)

text \<open>doubling a directory of depth at most 9 keeps the bucket of every key; at depth 10 the copy
  leaves the page, so the directory can never name more than 1024 buckets.\<close>

theorem double_directory:
  "if page_depth d \<le> 9
   then \<exists>d'. doubled_page d = Some d' \<and> page_depth d' = page_depth d + 1 \<and> (\<forall>key. hash_bucket d' key = hash_bucket d key)
   else doubled_page d = None"
proof (cases "page_depth d \<le> 9")
  case True
  then obtain d' where d': "doubled_page d = Some d'" "page_depth d' = page_depth d + 1"
    "\<forall>i < 2 ^ (page_depth d + 1). entry_bucket d' i = entry_bucket d (i mod 2 ^ page_depth d)"
    using doubled_entry by blast
  have "hash_bucket d' key = hash_bucket d key" for key
  proof -
    have "unat (HashKey key) mod 2 ^ (page_depth d + 1) mod 2 ^ page_depth d = unat (HashKey key) mod 2 ^ page_depth d"
      by (simp add: mod_mod_cancel)
    with True d' show ?thesis by (simp add: hash_bucket_def hash_slot_def)
  qed
  with d' True show ?thesis by auto
next
  case False
  have "(2::nat) ^ 10 \<le> 2 ^ page_depth d" using False by (intro power_increasing) simp_all
  then have "copy_entries (2 ^ page_depth d) (rev [0..<2 ^ page_depth d]) (set_page_depth (page_depth d + 1) d) = None"
    by (intro copy_entries_out) (simp_all add: PAGE_SIZE_def)
  with False show ?thesis by (simp add: doubled_page_def Let_def)
qed

end
