(* ===== verification/B_Plus_Tree.thy ===== *)
theory B_Plus_Tree
  imports Buffer_Pool
begin

text \<open>
  The B+ tree index: its pages (storage/page/b_plus_tree_page.h, b_plus_tree_leaf_page.h and
  b_plus_tree_internal_page.h) at the level of bytes, and the tree (storage/index/b_plus_tree.h and
  .cpp) over the buffer pool. \<open>None\<close> as the result of an operation means that the source does not get
  to a result: a \<open>memcpy\<close> outside a page, or a loop or recursion that does not end.

  Leaf and internal pages repeat the same code for two entry formats. The model writes the loops
  once, over the functions that read and write an entry, and uses them for both formats.
\<close>

section \<open>The header of a page\<close>

definition LEAF_PAGE :: byte where "LEAF_PAGE = 1"
definition INTERNAL_PAGE :: byte where "INTERNAL_PAGE = 2"

definition SetPageType :: "byte \<Rightarrow> page \<Rightarrow> page" where
  "SetPageType t p = mem_write p 0 [t]"

definition IsLeafPage :: "page \<Rightarrow> bool" where
  "IsLeafPage p \<longleftrightarrow> p 0 = LEAF_PAGE"

definition GetSize :: "page \<Rightarrow> int" where
  "GetSize p = sint (dec_word (mem_read p 1 2) :: i16)"

definition SetSize :: "int \<Rightarrow> page \<Rightarrow> page" where
  "SetSize n p = mem_write p 1 (enc_word (word_of_int n :: i16))"

definition GetMaxSize :: "page \<Rightarrow> int" where
  "GetMaxSize p = sint (dec_word (mem_read p 3 2) :: i16)"

definition SetMaxSize :: "int \<Rightarrow> page \<Rightarrow> page" where
  "SetMaxSize n p = mem_write p 3 (enc_word (word_of_int n :: i16))"

text \<open>Division by two of a C integer, towards zero.\<close>

definition half :: "int \<Rightarrow> int" where
  "half n = (if 0 \<le> n then n div 2 else - (- n div 2))"

definition GetMinSize :: "page \<Rightarrow> int" where
  "GetMinSize p = half (GetMaxSize p)"

definition GetParentPageId :: "page \<Rightarrow> i32" where
  "GetParentPageId p = dec_word (mem_read p 5 4)"

definition SetParentPageId :: "i32 \<Rightarrow> page \<Rightarrow> page" where
  "SetParentPageId pid p = mem_write p 5 (enc_word pid)"

definition GetPageId :: "page \<Rightarrow> i32" where
  "GetPageId p = dec_word (mem_read p 9 4)"

definition SetPageId :: "i32 \<Rightarrow> page \<Rightarrow> page" where
  "SetPageId pid p = mem_write p 9 (enc_word pid)"

definition init_page :: "byte \<Rightarrow> int \<Rightarrow> page \<Rightarrow> page" where
  "init_page t max_size p = SetParentPageId INVALID_PAGE_ID (SetMaxSize max_size (SetSize 0 (SetPageType t p)))"

text \<open>Conversion to \<open>int16_t\<close>.\<close>

definition to_i16 :: "int \<Rightarrow> int" where
  "to_i16 n = sint (word_of_int n :: i16)"

section \<open>Entries\<close>

text \<open>\<open>index * KV_SIZE\<close> is computed in \<open>uint32_t\<close>: a negative index lies far behind the page.\<close>

definition slot_offset :: "nat \<Rightarrow> nat \<Rightarrow> int \<Rightarrow> nat" where
  "slot_offset header stride i = header + nat (i * int stride mod 2 ^ 32)"

definition LEAF_HEADER_SIZE :: nat where "LEAF_HEADER_SIZE = 17"
definition LEAF_KV_SIZE :: nat where "LEAF_KV_SIZE = 14"
definition leaf_GetMaxKeys :: nat where "leaf_GetMaxKeys = (PAGE_SIZE - LEAF_HEADER_SIZE) div LEAF_KV_SIZE"

definition INTERNAL_HEADER_SIZE :: nat where "INTERNAL_HEADER_SIZE = 13"
definition INTERNAL_KV_SIZE :: nat where "INTERNAL_KV_SIZE = 12"
definition internal_GetMaxKeys :: nat where
  "internal_GetMaxKeys = (PAGE_SIZE - INTERNAL_HEADER_SIZE) div INTERNAL_KV_SIZE"

definition leaf_entry :: "page \<Rightarrow> int \<Rightarrow> (i64 \<times> RID) option" where
  "leaf_entry p i = do {
     let off = slot_offset LEAF_HEADER_SIZE LEAF_KV_SIZE i;
     key \<leftarrow> pg_read p off 8;
     pid \<leftarrow> pg_read p (off + 8) 4;
     slot \<leftarrow> pg_read p (off + 12) 2;
     Some (dec_word key, RID (dec_word pid) (dec_word slot)) }"

definition set_leaf_entry :: "int \<Rightarrow> i64 \<times> RID \<Rightarrow> page \<Rightarrow> page option" where
  "set_leaf_entry i e p = do {
     let off = slot_offset LEAF_HEADER_SIZE LEAF_KV_SIZE i;
     p \<leftarrow> pg_write p off (enc_word (fst e));
     p \<leftarrow> pg_write p (off + 8) (enc_word (rid_page_id (snd e)));
     pg_write p (off + 12) (enc_word (rid_slot_id (snd e))) }"

definition internal_entry :: "page \<Rightarrow> int \<Rightarrow> (i64 \<times> i32) option" where
  "internal_entry p i = do {
     let off = slot_offset INTERNAL_HEADER_SIZE INTERNAL_KV_SIZE i;
     key \<leftarrow> pg_read p off 8;
     child \<leftarrow> pg_read p (off + 8) 4;
     Some (dec_word key, dec_word child) }"

definition set_internal_entry :: "int \<Rightarrow> i64 \<times> i32 \<Rightarrow> page \<Rightarrow> page option" where
  "set_internal_entry i e p = do {
     let off = slot_offset INTERNAL_HEADER_SIZE INTERNAL_KV_SIZE i;
     p \<leftarrow> pg_write p off (enc_word (fst e));
     pg_write p (off + 8) (enc_word (snd e)) }"

definition set_internal_value :: "int \<Rightarrow> i32 \<Rightarrow> page \<Rightarrow> page option" where
  "set_internal_value i child p = pg_write p (slot_offset INTERNAL_HEADER_SIZE INTERNAL_KV_SIZE i + 8) (enc_word child)"

section \<open>Loops over entries\<close>

type_synonym 'v getter = "page \<Rightarrow> int \<Rightarrow> (i64 \<times> 'v) option"
type_synonym 'v setter = "int \<Rightarrow> i64 \<times> 'v \<Rightarrow> page \<Rightarrow> page option"

text \<open>The first of the positions whose key is above the given one.\<close>

fun first_above :: "'v getter \<Rightarrow> page \<Rightarrow> i64 \<Rightarrow> nat list \<Rightarrow> int \<Rightarrow> int option" where
  "first_above get p key [] n = Some n"
| "first_above get p key (i # is) n = do {
     e \<leftarrow> get p (int i);
     if sint key < sint (fst e) then Some (int i) else first_above get p key is n }"

fun shift_up :: "'v getter \<Rightarrow> 'v setter \<Rightarrow> nat list \<Rightarrow> page \<Rightarrow> page option" where
  "shift_up get put [] p = Some p"
| "shift_up get put (i # is) p = do {
     e \<leftarrow> get p (int i);
     p \<leftarrow> put (int i + 1) e p;
     shift_up get put is p }"

definition page_Insert :: "'v getter \<Rightarrow> 'v setter \<Rightarrow> i64 \<Rightarrow> 'v \<Rightarrow> page \<Rightarrow> (page \<times> bool) option" where
  "page_Insert get put key v p =
     (let size = GetSize p in
      if size \<ge> GetMaxSize p then Some (p, False)
      else do {
        insert_pos \<leftarrow> first_above get p key [0..<nat size] size;
        p \<leftarrow> shift_up get put (rev [nat insert_pos..<nat size]) p;
        p \<leftarrow> put insert_pos (key, v) p;
        Some (SetSize (size + 1) p, True) })"

fun close_gap :: "'v getter \<Rightarrow> 'v setter \<Rightarrow> nat list \<Rightarrow> page \<Rightarrow> page option" where
  "close_gap get put [] p = Some p"
| "close_gap get put (i # is) p = do {
     e \<leftarrow> get p (int i + 1);
     p \<leftarrow> put (int i) e p;
     close_gap get put is p }"

definition remove_at :: "'v getter \<Rightarrow> 'v setter \<Rightarrow> int \<Rightarrow> page \<Rightarrow> page option" where
  "remove_at get put pos p =
     map_option (SetSize (GetSize p - 1)) (close_gap get put [nat pos..<nat (GetSize p - 1)] p)"

fun copy_out :: "'v getter \<Rightarrow> 'v setter \<Rightarrow> page \<Rightarrow> int \<Rightarrow> nat list \<Rightarrow> page \<Rightarrow> page option" where
  "copy_out get put p shift [] recipient = Some recipient"
| "copy_out get put p shift (i # is) recipient = do {
     e \<leftarrow> get p (int i);
     recipient \<leftarrow> put (shift + int i) e recipient;
     copy_out get put p shift is recipient }"

text \<open>The two pages after half the entries have moved: the donor and the recipient.\<close>

definition move_half :: "'v getter \<Rightarrow> 'v setter \<Rightarrow> page \<Rightarrow> page \<Rightarrow> (page \<times> page) option" where
  "move_half get put p recipient =
     (let size = GetSize p; split_point = half size; recipient_start = GetSize recipient in do {
        r \<leftarrow> copy_out get put p (recipient_start - split_point) [nat split_point..<nat size] recipient;
        Some (SetSize split_point p, SetSize (recipient_start + (size - split_point)) r) })"

section \<open>Leaf pages\<close>

definition GetNextPageId :: "page \<Rightarrow> i32" where
  "GetNextPageId p = dec_word (mem_read p 13 4)"

definition SetNextPageId :: "i32 \<Rightarrow> page \<Rightarrow> page" where
  "SetNextPageId pid p = mem_write p 13 (enc_word pid)"

definition leaf_Init :: "int \<Rightarrow> page \<Rightarrow> page" where
  "leaf_Init max_size p = SetNextPageId INVALID_PAGE_ID (init_page LEAF_PAGE max_size p)"

function leaf_search :: "page \<Rightarrow> i64 \<Rightarrow> int \<Rightarrow> int \<Rightarrow> int option" where
  "leaf_search p key left right =
     (if left \<le> right then do {
        let mid = left + (right - left) div 2;
        e \<leftarrow> leaf_entry p mid;
        if fst e = key then Some mid
        else if sint key < sint (fst e) then leaf_search p key left (mid - 1)
        else leaf_search p key (mid + 1) right }
      else Some (- 1))"
  by pat_completeness auto
termination by (relation "measure (\<lambda>(p, key, left, right). nat (right - left + 1))") auto

definition leaf_Lookup :: "page \<Rightarrow> i64 \<Rightarrow> int option" where
  "leaf_Lookup p key = leaf_search p key 0 (to_i16 (GetSize p - 1))"

function lower_bound :: "page \<Rightarrow> i64 \<Rightarrow> int \<Rightarrow> int \<Rightarrow> int option" where
  "lower_bound p key left right =
     (if left < right then do {
        let mid = left + (right - left) div 2;
        e \<leftarrow> leaf_entry p mid;
        if sint (fst e) < sint key then lower_bound p key (mid + 1) right
        else lower_bound p key left mid }
      else Some left)"
  by pat_completeness auto
termination by (relation "measure (\<lambda>(p, key, left, right). nat (right - left))") auto

definition LowerBound :: "page \<Rightarrow> i64 \<Rightarrow> int option" where
  "LowerBound p key = lower_bound p key 0 (GetSize p)"

definition leaf_Insert :: "i64 \<Rightarrow> RID \<Rightarrow> page \<Rightarrow> (page \<times> bool) option" where
  "leaf_Insert = page_Insert leaf_entry set_leaf_entry"

definition leaf_Remove :: "i64 \<Rightarrow> page \<Rightarrow> (page \<times> bool) option" where
  "leaf_Remove key p = do {
     pos \<leftarrow> leaf_Lookup p key;
     if pos < 0 then Some (p, False)
     else map_option (\<lambda>p. (p, True)) (remove_at leaf_entry set_leaf_entry pos p) }"

definition leaf_MoveHalfTo :: "page \<Rightarrow> page \<Rightarrow> (page \<times> page) option" where
  "leaf_MoveHalfTo p recipient = do {
     (p, recipient) \<leftarrow> move_half leaf_entry set_leaf_entry p recipient;
     let recipient = SetNextPageId (GetNextPageId p) recipient;
     Some (SetNextPageId (GetPageId recipient) p, recipient) }"

definition GetFirstKey :: "page \<Rightarrow> i64 option" where
  "GetFirstKey p = (if GetSize p = 0 then Some 0 else map_option fst (leaf_entry p 0))"

section \<open>Internal pages\<close>

definition internal_Init :: "int \<Rightarrow> page \<Rightarrow> page" where
  "internal_Init max_size p = init_page INTERNAL_PAGE max_size p"

function internal_search :: "page \<Rightarrow> i64 \<Rightarrow> int \<Rightarrow> int \<Rightarrow> int option" where
  "internal_search p key left right =
     (if left \<le> right then do {
        let mid = left + (right - left) div 2;
        e \<leftarrow> internal_entry p mid;
        if sint key \<le> sint (fst e) then internal_search p key left (mid - 1)
        else internal_search p key (mid + 1) right }
      else Some left)"
  by pat_completeness auto
termination by (relation "measure (\<lambda>(p, key, left, right). nat (right - left + 1))") auto

definition internal_Lookup :: "page \<Rightarrow> i64 \<Rightarrow> i32 option" where
  "internal_Lookup p key =
     (let size = GetSize p in
      if size = 0 then Some INVALID_PAGE_ID
      else do {
        left \<leftarrow> internal_search p key 0 (to_i16 (size - 1));
        map_option snd (internal_entry p (if size \<le> left then size - 1 else left)) })"

definition internal_Insert :: "i64 \<Rightarrow> i32 \<Rightarrow> page \<Rightarrow> (page \<times> bool) option" where
  "internal_Insert = page_Insert internal_entry set_internal_entry"

fun find_separator :: "page \<Rightarrow> i64 \<Rightarrow> nat list \<Rightarrow> int option" where
  "find_separator p key [] = Some (- 1)"
| "find_separator p key (i # is) = do {
     e \<leftarrow> internal_entry p (int i);
     if fst e = key then Some (int i) else find_separator p key is }"

definition internal_Remove :: "i64 \<Rightarrow> page \<Rightarrow> (page \<times> bool) option" where
  "internal_Remove key p = do {
     pos \<leftarrow> find_separator p key [0..<nat (GetSize p)];
     if pos < 0 then Some (p, False)
     else map_option (\<lambda>p. (p, True)) (remove_at internal_entry set_internal_entry pos p) }"

definition internal_MoveHalfTo :: "page \<Rightarrow> page \<Rightarrow> (page \<times> page) option" where
  "internal_MoveHalfTo = move_half internal_entry set_internal_entry"

definition CopyLastTo :: "page \<Rightarrow> i32 \<Rightarrow> page \<Rightarrow> page option" where
  "CopyLastTo p child parent = do {
     e \<leftarrow> internal_entry p (GetSize p - 1);
     map_option fst (internal_Insert (fst e) child parent) }"

declare leaf_search.simps [simp del] lower_bound.simps [simp del] internal_search.simps [simp del]

section \<open>The tree\<close>

record b_plus_tree =
  root_page_id :: i32
  tree_size :: nat

definition BPlusTree :: "i32 \<Rightarrow> b_plus_tree" where
  "BPlusTree pid = \<lparr>root_page_id = pid, tree_size = 0\<rparr>"

text \<open>The loop of \<open>FindLeaf\<close>, standing at a page that is fetched into a frame.\<close>

partial_function (option) descend :: "i64 \<Rightarrow> i32 \<Rightarrow> nat \<Rightarrow> bpm \<Rightarrow> (bpm \<times> i32) option" where
  "descend key current f b =
     (if IsLeafPage (page_at f b) then Some (fst (UnpinPage current False b), current)
      else
        Option.bind (internal_Lookup (page_at f b) key) (\<lambda>child.
          let b = fst (UnpinPage current False b) in
          if child = INVALID_PAGE_ID then Some (b, INVALID_PAGE_ID)
          else
            case FetchPage child b of
              (b, None) \<Rightarrow> Some (b, INVALID_PAGE_ID)
            | (b, Some f) \<Rightarrow> descend key child f b))"

definition FindLeaf :: "b_plus_tree \<Rightarrow> i64 \<Rightarrow> bpm \<Rightarrow> (bpm \<times> i32) option" where
  "FindLeaf t key b =
     (if root_page_id t = INVALID_PAGE_ID then Some (b, INVALID_PAGE_ID)
      else
        case FetchPage (root_page_id t) b of
          (b, None) \<Rightarrow> Some (b, INVALID_PAGE_ID)
        | (b, Some f) \<Rightarrow> descend key (root_page_id t) f b)"

text \<open>A page is fetched, its parent pointer set, and it is released; nothing happens when it cannot be
  fetched.\<close>

definition set_parent :: "i32 \<Rightarrow> i32 \<Rightarrow> bpm \<Rightarrow> bpm" where
  "set_parent child parent b =
     (case FetchPage child b of
        (b, None) \<Rightarrow> b
      | (b, Some f) \<Rightarrow> fst (UnpinPage child True (MarkDirty f (modify_page f (SetParentPageId parent) b))))"

definition CreateNewRoot :: "i32 \<Rightarrow> i64 \<Rightarrow> i32 \<Rightarrow> b_plus_tree \<times> bpm \<Rightarrow> (b_plus_tree \<times> bpm) option" where
  "CreateNewRoot left_child key right_child tb = do {
     let (t, b) = tb;
     (b, new_root_id, new_root) \<leftarrow> NewPage 0 b;
     case new_root of
       None \<Rightarrow> Some (t, b)
     | Some f \<Rightarrow> do {
         b \<leftarrow> change_page f (\<lambda>p. do {
                (p, _) \<leftarrow> internal_Insert key right_child (SetPageId new_root_id (internal_Init (int internal_GetMaxKeys) p));
                set_internal_value 0 left_child p }) b;
         let b = MarkDirty f b;
         let b = set_parent right_child new_root_id (set_parent left_child new_root_id b);
         Some (t\<lparr>root_page_id := new_root_id\<rparr>, fst (UnpinPage new_root_id True b)) } }"

text \<open>\<open>SplitInternal\<close> up to its last call: the key and the id of the new page for the parent, unless a
  page is not available.\<close>

definition split_internal :: "i32 \<Rightarrow> bpm \<Rightarrow> (bpm \<times> (i64 \<times> i32) option) option" where
  "split_internal pid b =
     (case FetchPage pid b of
        (b, None) \<Rightarrow> Some (b, None)
      | (b, Some f) \<Rightarrow> do {
          (b, new_id, new_page) \<leftarrow> NewPage 0 b;
          case new_page of
            None \<Rightarrow> Some (fst (UnpinPage pid False b), None)
          | Some g \<Rightarrow> do {
              let fresh = SetPageId new_id (internal_Init (int internal_GetMaxKeys) (page_at g b));
              (p, r) \<leftarrow> internal_MoveHalfTo (page_at f b) fresh;
              let b = MarkDirty g (MarkDirty f (modify_page g (\<lambda>_. r) (modify_page f (\<lambda>_. p) b)));
              e \<leftarrow> internal_entry r 0;
              Some (fst (UnpinPage new_id True (fst (UnpinPage pid True b))), Some (fst e, new_id)) } })"

partial_function (option) InsertIntoParent ::
  "i32 \<Rightarrow> i64 \<Rightarrow> i32 \<Rightarrow> b_plus_tree \<times> bpm \<Rightarrow> (b_plus_tree \<times> bpm) option" where
  "InsertIntoParent left key right tb =
     (let (t, b) = tb in
      case FetchPage left b of
        (b, None) \<Rightarrow> Some (t, b)
      | (b, Some f) \<Rightarrow>
          let parent_id = GetParentPageId (page_at f b);
              b = fst (UnpinPage left False b) in
          if parent_id = INVALID_PAGE_ID then CreateNewRoot left key right (t, b)
          else
            case FetchPage parent_id b of
              (b, None) \<Rightarrow> Some (t, b)
            | (b, Some g) \<Rightarrow>
                if GetSize (page_at g b) < GetMaxSize (page_at g b) then
                  Option.bind (change_page g (\<lambda>p. map_option fst (internal_Insert key right p)) b) (\<lambda>b.
                    let b = MarkDirty g b;
                        b = set_parent right parent_id (set_parent left parent_id b) in
                    Some (t, fst (UnpinPage parent_id True b)))
                else
                  Option.bind (split_internal parent_id (fst (UnpinPage parent_id False b))) (\<lambda>(b, sep).
                    case sep of
                      None \<Rightarrow> InsertIntoParent left key right (t, b)
                    | Some (mid_key, new_id) \<Rightarrow>
                        Option.bind (InsertIntoParent parent_id mid_key new_id (t, b)) (InsertIntoParent left key right)))"

definition SplitInternal :: "i32 \<Rightarrow> b_plus_tree \<times> bpm \<Rightarrow> (b_plus_tree \<times> bpm) option" where
  "SplitInternal pid tb = do {
     let (t, b) = tb;
     (b, sep) \<leftarrow> split_internal pid b;
     case sep of
       None \<Rightarrow> Some (t, b)
     | Some (mid_key, new_id) \<Rightarrow> InsertIntoParent pid mid_key new_id (t, b) }"

definition SplitLeaf :: "i32 \<Rightarrow> b_plus_tree \<times> bpm \<Rightarrow> (b_plus_tree \<times> bpm) option" where
  "SplitLeaf pid tb =
     (let (t, b) = tb in
      case FetchPage pid b of
        (b, None) \<Rightarrow> Some (t, b)
      | (b, Some f) \<Rightarrow> do {
          (b, new_id, new_page) \<leftarrow> NewPage 0 b;
          case new_page of
            None \<Rightarrow> Some (t, fst (UnpinPage pid False b))
          | Some g \<Rightarrow> do {
              let fresh = SetPageId new_id (leaf_Init (int leaf_GetMaxKeys) (page_at g b));
              (p, r) \<leftarrow> leaf_MoveHalfTo (page_at f b) fresh;
              let b = MarkDirty g (MarkDirty f (modify_page g (\<lambda>_. r) (modify_page f (\<lambda>_. p) b)));
              new_first_key \<leftarrow> GetFirstKey r;
              let b = fst (UnpinPage new_id True (fst (UnpinPage pid True b)));
              InsertIntoParent pid new_first_key new_id (t, b) } })"

text \<open>\<open>size_\<close> is a \<open>size_t\<close>.\<close>

definition count_up :: "b_plus_tree \<Rightarrow> b_plus_tree" where
  "count_up t = t\<lparr>tree_size := (tree_size t + 1) mod 2 ^ 64\<rparr>"

definition count_down :: "b_plus_tree \<Rightarrow> b_plus_tree" where
  "count_down t = t\<lparr>tree_size := (tree_size t + 2 ^ 64 - 1) mod 2 ^ 64\<rparr>"

text \<open>A pair is put into a leaf that is fetched into a frame; the result of \<open>Insert\<close> is not used.\<close>

definition put_in_leaf :: "i32 \<Rightarrow> nat \<Rightarrow> i64 \<Rightarrow> RID \<Rightarrow> bpm \<Rightarrow> bpm option" where
  "put_in_leaf pid f key rid b = do {
     b \<leftarrow> change_page f (\<lambda>p. map_option fst (leaf_Insert key rid p)) b;
     Some (fst (UnpinPage pid True (MarkDirty f b))) }"

definition create_root :: "i64 \<Rightarrow> RID \<Rightarrow> b_plus_tree \<times> bpm \<Rightarrow> (b_plus_tree \<times> bpm \<times> bool) option" where
  "create_root key rid tb = do {
     let (t, b) = tb;
     (b, new_root_id, new_root) \<leftarrow> NewPage 0 b;
     case new_root of
       None \<Rightarrow> Some (t, b, False)
     | Some f \<Rightarrow> do {
         let b = modify_page f (\<lambda>p. SetPageId new_root_id (leaf_Init (int leaf_GetMaxKeys) p)) b;
         b \<leftarrow> put_in_leaf new_root_id f key rid b;
         Some (count_up (t\<lparr>root_page_id := new_root_id\<rparr>), b, True) } }"

definition tree_Insert :: "i64 \<Rightarrow> RID \<Rightarrow> b_plus_tree \<times> bpm \<Rightarrow> (b_plus_tree \<times> bpm \<times> bool) option" where
  "tree_Insert key rid tb =
     (let (t, b) = tb in
      if root_page_id t = INVALID_PAGE_ID then create_root key rid (t, b)
      else do {
        (b, leaf_id) \<leftarrow> FindLeaf t key b;
        if leaf_id = INVALID_PAGE_ID then Some (t, b, False)
        else
          case FetchPage leaf_id b of
            (b, None) \<Rightarrow> Some (t, b, False)
          | (b, Some f) \<Rightarrow> do {
              idx \<leftarrow> leaf_Lookup (page_at f b) key;
              if idx \<ge> 0 then Some (t, fst (UnpinPage leaf_id False b), False)
              else if GetSize (page_at f b) < GetMaxSize (page_at f b) then do {
                b \<leftarrow> put_in_leaf leaf_id f key rid b;
                Some (count_up t, b, True) }
              else do {
                (t, b) \<leftarrow> SplitLeaf leaf_id (t, fst (UnpinPage leaf_id False b));
                (b, leaf_id) \<leftarrow> FindLeaf t key b;
                case FetchPage leaf_id b of
                  (b, None) \<Rightarrow> Some (t, b, False)
                | (b, Some f) \<Rightarrow> do {
                    b \<leftarrow> put_in_leaf leaf_id f key rid b;
                    Some (count_up t, b, True) } } } })"

definition tree_GetValue :: "i64 \<Rightarrow> b_plus_tree \<Rightarrow> bpm \<Rightarrow> (bpm \<times> RID) option" where
  "tree_GetValue key t b = do {
     (b, leaf_id) \<leftarrow> FindLeaf t key b;
     if leaf_id = INVALID_PAGE_ID then Some (b, default_rid)
     else
       case FetchPage leaf_id b of
         (b, None) \<Rightarrow> Some (b, default_rid)
       | (b, Some f) \<Rightarrow> do {
           idx \<leftarrow> leaf_Lookup (page_at f b) key;
           result \<leftarrow> (if idx \<ge> 0 then map_option snd (leaf_entry (page_at f b) idx) else Some default_rid);
           Some (fst (UnpinPage leaf_id False b), result) } }"

definition AdjustRoot :: "b_plus_tree \<times> bpm \<Rightarrow> (b_plus_tree \<times> bpm) option" where
  "AdjustRoot tb =
     (let (t, b) = tb; root = root_page_id t in
      if root = INVALID_PAGE_ID then Some (t, b)
      else
        case FetchPage root b of
          (b, None) \<Rightarrow> Some (t, b)
        | (b, Some f) \<Rightarrow>
            if \<not> IsLeafPage (page_at f b) \<and> GetSize (page_at f b) = 0 then do {
              e \<leftarrow> internal_entry (page_at f b) 0;
              (b, _) \<leftarrow> DeletePage root (fst (UnpinPage root False b));
              Some (t\<lparr>root_page_id := snd e\<rparr>, set_parent (snd e) INVALID_PAGE_ID b) }
            else Some (t, fst (UnpinPage root False b)))"

definition HandleUnderflow :: "i32 \<Rightarrow> b_plus_tree \<times> bpm \<Rightarrow> (b_plus_tree \<times> bpm) option" where
  "HandleUnderflow pid tb = AdjustRoot tb"

text \<open>The size of the leaf is read once more through the frame after the page has been released.\<close>

definition tree_Remove :: "i64 \<Rightarrow> b_plus_tree \<times> bpm \<Rightarrow> (b_plus_tree \<times> bpm \<times> bool) option" where
  "tree_Remove key tb = do {
     let (t, b) = tb;
     (b, leaf_id) \<leftarrow> FindLeaf t key b;
     if leaf_id = INVALID_PAGE_ID then Some (t, b, False)
     else
       case FetchPage leaf_id b of
         (b, None) \<Rightarrow> Some (t, b, False)
       | (b, Some f) \<Rightarrow> do {
           idx \<leftarrow> leaf_Lookup (page_at f b) key;
           if idx < 0 then Some (t, fst (UnpinPage leaf_id False b), False)
           else do {
             b \<leftarrow> change_page f (\<lambda>p. map_option fst (leaf_Remove key p)) b;
             let underflow = GetSize (page_at f b) < GetMinSize (page_at f b);
             let b = fst (UnpinPage leaf_id True (MarkDirty f b));
             (t, b) \<leftarrow> (if underflow \<and> leaf_id \<noteq> root_page_id t then HandleUnderflow leaf_id (t, b) else Some (t, b));
             let t = (if leaf_id = root_page_id t \<and> GetSize (page_at f b) = 0 then t\<lparr>root_page_id := INVALID_PAGE_ID\<rparr> else t);
             Some (count_down t, b, True) } } }"

text \<open>The pairs of a leaf from a position on, up to the end key; the flag tells that a key above it was
  met.\<close>

fun leaf_pairs_upto :: "page \<Rightarrow> i64 \<Rightarrow> nat list \<Rightarrow> ((i64 \<times> RID) list \<times> bool) option" where
  "leaf_pairs_upto p end_key [] = Some ([], False)"
| "leaf_pairs_upto p end_key (i # is) = do {
     e \<leftarrow> leaf_entry p (int i);
     if sint (fst e) > sint end_key then Some ([], True)
     else map_option (\<lambda>(es, stop). (e # es, stop)) (leaf_pairs_upto p end_key is) }"

partial_function (option) scan_leaves ::
  "i64 \<Rightarrow> i64 \<Rightarrow> i32 \<Rightarrow> bpm \<Rightarrow> (i64 \<times> RID) list \<Rightarrow> (bpm \<times> (i64 \<times> RID) list) option" where
  "scan_leaves start_key end_key leaf_id b results =
     (if leaf_id = INVALID_PAGE_ID then Some (b, results)
      else
        case FetchPage leaf_id b of
          (b, None) \<Rightarrow> Some (b, results)
        | (b, Some f) \<Rightarrow>
            Option.bind (LowerBound (page_at f b) start_key) (\<lambda>start_idx.
            Option.bind (leaf_pairs_upto (page_at f b) end_key [nat start_idx..<nat (GetSize (page_at f b))]) (\<lambda>(es, stop).
              let next_id = GetNextPageId (page_at f b);
                  b = fst (UnpinPage leaf_id False b) in
              if stop then Some (b, results @ es)
              else scan_leaves start_key end_key next_id b (results @ es))))"

definition tree_RangeScan :: "i64 \<Rightarrow> i64 \<Rightarrow> b_plus_tree \<Rightarrow> bpm \<Rightarrow> (bpm \<times> (i64 \<times> RID) list) option" where
  "tree_RangeScan start_key end_key t b = do {
     (b, leaf_id) \<leftarrow> FindLeaf t start_key b;
     if leaf_id = INVALID_PAGE_ID then Some (b, []) else scan_leaves start_key end_key leaf_id b [] }"

end
