(* ===== verification/B_Plus_Tree_Props.thy ===== *)
theory B_Plus_Tree_Props
  imports B_Plus_Tree Pool_Client
begin

text \<open>
  Correctness of the B+ tree. The pages of both kinds are arrays of entries behind a header; the
  locale \<open>entry_array\<close> states what the code needs of an entry format, proves insertion, removal and the
  split of a page against lists of entries, and is interpreted for leaf and for internal pages. On
  sorted pages the binary searches agree with the lookup in the list.
\<close>

section \<open>Headers\<close>

lemma GetSize_SetSize: "- 32768 \<le> n \<Longrightarrow> n < 32768 \<Longrightarrow> GetSize (SetSize n p) = n"
  by (simp add: GetSize_def SetSize_def signed_of_int signed_take_bit_int_eq_self)

lemma SetSize_other: "a \<noteq> 1 \<Longrightarrow> a \<noteq> 2 \<Longrightarrow> SetSize n p a = p a"
  by (auto simp: SetSize_def mem_write_def)

lemma GetSize_cong: "q 1 = p 1 \<Longrightarrow> q 2 = p 2 \<Longrightarrow> GetSize q = GetSize p"
  by (simp add: GetSize_def mem_read_def numeral_2_eq_2)

lemma GetSize_range: "- 32768 \<le> GetSize p" "GetSize p < 32768"
  using sint_greater_eq [of "dec_word (mem_read p 1 2) :: i16"] sint_less [of "dec_word (mem_read p 1 2) :: i16"]
  by (simp_all add: GetSize_def)

lemma to_i16_id: "- 32768 \<le> n \<Longrightarrow> n < 32768 \<Longrightarrow> to_i16 n = n"
  by (simp add: to_i16_def signed_of_int signed_take_bit_int_eq_self)

section \<open>Arrays of entries\<close>

definition entries :: "'v getter \<Rightarrow> page \<Rightarrow> (i64 \<times> 'v) list" where
  "entries get p = map (\<lambda>i. the (get p (int i))) [0..<nat (GetSize p)]"

definition keys_in_order :: "(i64 \<times> 'v) list \<Rightarrow> bool" where
  "keys_in_order es \<longleftrightarrow> sorted_wrt (<) (map (\<lambda>e. sint (fst e)) es)"

text \<open>A pair put behind the pairs whose keys are not above its own.\<close>

definition put_sorted :: "i64 \<Rightarrow> 'v \<Rightarrow> (i64 \<times> 'v) list \<Rightarrow> (i64 \<times> 'v) list" where
  "put_sorted key v es =
     takeWhile (\<lambda>e. sint (fst e) \<le> sint key) es @ (key, v) # dropWhile (\<lambda>e. sint (fst e) \<le> sint key) es"

lemma length_entries [simp]: "length (entries get p) = nat (GetSize p)"
  by (simp add: entries_def)

lemma entries_nth [simp]: "i < nat (GetSize p) \<Longrightarrow> entries get p ! i = the (get p (int i))"
  by (simp add: entries_def)

locale entry_array =
  fixes get :: "page \<Rightarrow> int \<Rightarrow> (i64 \<times> 'v) option"
    and put :: "int \<Rightarrow> i64 \<times> 'v \<Rightarrow> page \<Rightarrow> page option"
    and cap :: nat and header :: nat
  assumes get_total: "i < cap \<Longrightarrow> \<exists>e. get p (int i) = Some e"
    and put_total: "i < cap \<Longrightarrow> \<exists>q. put (int i) e p = Some q"
    and get_put: "put (int i) e p = Some q \<Longrightarrow> i < cap \<Longrightarrow> j < cap \<Longrightarrow>
      get q (int j) = (if j = i then Some e else get p (int j))"
    and put_header: "put (int i) e p = Some q \<Longrightarrow> i < cap \<Longrightarrow> a < header \<Longrightarrow> q a = p a"
    and get_header: "(\<And>a. header \<le> a \<Longrightarrow> q a = p a) \<Longrightarrow> get q (k :: int) = get p k"
    and header_size: "13 \<le> header" and cap_small: "cap < 32767"
begin

lemma get_SetSize [simp]: "get (SetSize n p) i = get p i"
  by (rule get_header) (use header_size in \<open>simp add: SetSize_other\<close>)

lemma get_the: "i < cap \<Longrightarrow> get p (int i) = Some (the (get p (int i)))"
  using get_total [of i p] by auto

lemma put_size: "put (int i) e p = Some q \<Longrightarrow> i < cap \<Longrightarrow> GetSize q = GetSize p"
  using put_header [of i e p q] header_size by (intro GetSize_cong) simp_all

lemma first_above_law:
  assumes "n \<le> cap" "m \<le> n"
  shows "first_above get p key [m..<n] (int n) =
    Some (int (m + length (takeWhile (\<lambda>e. sint (fst e) \<le> sint key) (map (\<lambda>i. the (get p (int i))) [m..<n]))))"
  using assms
proof (induction "n - m" arbitrary: m)
  case 0
  then show ?case by simp
next
  case (Suc d)
  then have "[m..<n] = m # [Suc m..<n]" by (simp add: upt_conv_Cons)
  moreover have "m < cap" using Suc by simp
  then obtain e where "get p (int m) = Some e" using get_total by blast
  moreover have "d = n - Suc m" "Suc m \<le> n" using Suc by simp_all
  ultimately show ?case
    using Suc.hyps(1) [of "Suc m"] Suc.prems(1) by (simp add: not_less)
qed

lemma shift_up_law:
  "n < cap \<Longrightarrow> \<exists>q. shift_up get put (rev [k..<n]) p = Some q \<and>
    (\<forall>j < cap. get q (int j) = (if k < j \<and> j \<le> n then get p (int (j - 1)) else get p (int j))) \<and>
    (\<forall>a < header. q a = p a)"
proof (induction n arbitrary: p)
  case 0
  then show ?case by simp
next
  case (Suc n)
  show ?case
  proof (cases "k \<le> n")
    case False
    then show ?thesis by auto
  next
    case True
    obtain e where e: "get p (int n) = Some e" using get_total [of n p] Suc.prems by auto
    obtain p' where p': "put (int (Suc n)) e p = Some p'" using put_total [of "Suc n" e p] Suc.prems by auto
    obtain q where q: "shift_up get put (rev [k..<n]) p' = Some q"
      "\<forall>j < cap. get q (int j) = (if k < j \<and> j \<le> n then get p' (int (j - 1)) else get p' (int j))"
      "\<forall>a < header. q a = p' a" using Suc.IH [of p'] Suc.prems by auto
    have "shift_up get put (rev [k..<Suc n]) p = Some q"
      using True e p' q(1) by (simp add: add.commute)
    moreover have "get q (int j) = (if k < j \<and> j \<le> Suc n then get p (int (j - 1)) else get p (int j))" if "j < cap" for j
    proof -
      have at: "get p' (int i) = (if i = Suc n then get p (int n) else get p (int i))" if "i < cap" for i
        using get_put [OF p' Suc.prems that] e by simp
      show ?thesis using q(2) that at [of "j - 1"] at [of j] True by auto
    qed
    moreover have "\<forall>a < header. q a = p a" using q(3) put_header [OF p' Suc.prems] by simp
    ultimately show ?thesis by blast
  qed
qed

lemma page_Insert_law:
  assumes "0 \<le> GetSize p" "GetSize p < GetMaxSize p" "GetMaxSize p \<le> int cap"
  shows "\<exists>q. page_Insert get put key v p = Some (q, True) \<and> GetSize q = GetSize p + 1 \<and>
    entries get q = put_sorted key v (entries get p) \<and> (\<forall>a < header. a \<noteq> 1 \<longrightarrow> a \<noteq> 2 \<longrightarrow> q a = p a)"
proof -
  define n where "n = nat (GetSize p)"
  then have n: "GetSize p = int n" "n < cap" using assms by simp_all
  let ?es = "entries get p" and ?P = "\<lambda>e :: i64 \<times> 'v. sint (fst e) \<le> sint key"
  define k where "k = length (takeWhile ?P ?es)"
  have k: "k \<le> n" unfolding k_def using length_takeWhile_le [of ?P ?es] n by simp
  have pos: "first_above get p key [0..<n] (int n) = Some (int k)"
    using first_above_law [of n 0 p key] n by (simp add: k_def entries_def)
  obtain q1 where q1: "shift_up get put (rev [k..<n]) p = Some q1"
    "\<forall>j < cap. get q1 (int j) = (if k < j \<and> j \<le> n then get p (int (j - 1)) else get p (int j))"
    "\<forall>a < header. q1 a = p a" using shift_up_law [OF n(2), of k p] by blast
  have kc: "k < cap" using k n by simp
  obtain q2 where q2: "put (int k) (key, v) q1 = Some q2" using put_total [OF kc, of "(key, v)" q1] by blast
  let ?q = "SetSize (int n + 1) q2"
  have run: "page_Insert get put key v p = Some (?q, True)"
    using assms(2) pos q1(1) q2 n by (simp add: page_Insert_def Let_def)
  have size: "GetSize ?q = int n + 1" using n cap_small by (intro GetSize_SetSize) simp_all
  have at: "get ?q (int j) = (if j = k then Some (key, v) else if k < j \<and> j \<le> n then get p (int (j - 1)) else get p (int j))"
    if "j < cap" for j using get_put [OF q2 kc that] q1(2) that by simp
  have tw: "takeWhile ?P ?es = take k ?es" "dropWhile ?P ?es = drop k ?es"
    unfolding k_def by (rule takeWhile_eq_take, rule dropWhile_eq_drop)
  have "entries get ?q = put_sorted key v ?es"
  proof (rule nth_equalityI)
    show "length (entries get ?q) = length (put_sorted key v ?es)"
      using size n k unfolding put_sorted_def tw by simp
    fix j assume "j < length (entries get ?q)"
    then have j: "j < Suc n" using size by simp
    have "get ?q (int j) = Some (put_sorted key v ?es ! j)"
    proof (cases j k rule: linorder_cases)
      case less
      then show ?thesis using at [of j] n k get_the [of j p] by (simp add: put_sorted_def tw nth_append)
    next
      case equal
      then show ?thesis using at [of j] n k by (simp add: put_sorted_def tw nth_append)
    next
      case greater
      then show ?thesis using at [of j] n k j get_the [of "j - 1" p] by (simp add: put_sorted_def tw nth_append nth_Cons')
    qed
    then show "entries get ?q ! j = put_sorted key v ?es ! j" using j size by simp
  qed
  moreover have "\<forall>a < header. a \<noteq> 1 \<longrightarrow> a \<noteq> 2 \<longrightarrow> ?q a = p a"
    using q1(3) put_header [OF q2 kc] by (simp add: SetSize_other)
  ultimately show ?thesis using run size n(1) by auto
qed

lemma close_gap_law:
  assumes "n < cap"
  shows "k \<le> n \<Longrightarrow> \<exists>q. close_gap get put [k..<n] p = Some q \<and>
    (\<forall>j < cap. get q (int j) = (if k \<le> j \<and> j < n then get p (int (Suc j)) else get p (int j))) \<and>
    (\<forall>a < header. q a = p a)"
proof (induction "n - k" arbitrary: k p)
  case 0
  then show ?case by auto
next
  case (Suc d)
  then have kn: "k < n" "k < cap" "Suc k < cap" using assms by simp_all
  obtain e where e: "get p (int (Suc k)) = Some e" using get_total [OF kn(3), of p] by auto
  obtain p' where p': "put (int k) e p = Some p'" using put_total [OF kn(2), of e p] by auto
  have "d = n - Suc k" "Suc k \<le> n" using Suc.hyps(2) kn by simp_all
  from Suc.hyps(1) [OF this, of p'] obtain q where q: "close_gap get put [Suc k..<n] p' = Some q"
    "\<forall>j < cap. get q (int j) = (if Suc k \<le> j \<and> j < n then get p' (int (Suc j)) else get p' (int j))"
    "\<forall>a < header. q a = p' a" by blast
  have "close_gap get put [k..<n] p = Some q"
    using kn(1) e p' q(1) by (simp add: upt_conv_Cons add.commute)
  moreover have "get q (int j) = (if k \<le> j \<and> j < n then get p (int (Suc j)) else get p (int j))" if "j < cap" for j
  proof -
    have at: "get p' (int i) = (if i = k then get p (int (Suc k)) else get p (int i))" if "i < cap" for i
      using get_put [OF p' kn(2) that] e by simp
    show ?thesis using q(2) that at [of "Suc j"] at [of j] kn assms by auto
  qed
  moreover have "\<forall>a < header. q a = p a" using q(3) put_header [OF p' kn(2)] by simp
  ultimately show ?case by blast
qed

lemma remove_at_law:
  assumes "k < nat (GetSize p)" "nat (GetSize p) \<le> cap"
  shows "\<exists>q. remove_at get put (int k) p = Some q \<and> GetSize q = GetSize p - 1 \<and>
    entries get q = take k (entries get p) @ drop (Suc k) (entries get p) \<and>
    (\<forall>a < header. a \<noteq> 1 \<longrightarrow> a \<noteq> 2 \<longrightarrow> q a = p a)"
proof -
  define m where "m = nat (GetSize p) - 1"
  then have m: "GetSize p = int m + 1" "m < cap" "k \<le> m" using assms by auto
  obtain q where q: "close_gap get put [k..<m] p = Some q"
    "\<forall>j < cap. get q (int j) = (if k \<le> j \<and> j < m then get p (int (Suc j)) else get p (int j))"
    "\<forall>a < header. q a = p a" using close_gap_law [OF m(2,3), of p] by blast
  let ?q = "SetSize (int m) q"
  have run: "remove_at get put (int k) p = Some ?q" using q(1) m(1) by (simp add: remove_at_def)
  have size: "GetSize ?q = int m" using m cap_small by (intro GetSize_SetSize) simp_all
  have "entries get ?q = take k (entries get p) @ drop (Suc k) (entries get p)"
  proof (rule nth_equalityI)
    show "length (entries get ?q) = length (take k (entries get p) @ drop (Suc k) (entries get p))"
      using size m by simp
    fix j assume "j < length (entries get ?q)"
    then have j: "j < m" using size by simp
    then have "get q (int j) = (if k \<le> j then get p (int (Suc j)) else get p (int j))" using q(2) m(2) by simp
    then show "entries get ?q ! j = (take k (entries get p) @ drop (Suc k) (entries get p)) ! j"
      using j size m by (simp add: nth_append)
  qed
  then show ?thesis using run size m(1) q(3) by (auto simp: SetSize_other)
qed

lemma copy_out_law:
  "k \<le> n \<Longrightarrow> n \<le> cap \<Longrightarrow> m + (n - k) \<le> cap \<Longrightarrow> \<exists>r'. copy_out get put p (int m - int k) [k..<n] r = Some r' \<and>
    (\<forall>j < cap. get r' (int j) = (if m \<le> j \<and> j < m + (n - k) then get p (int (j - m + k)) else get r (int j))) \<and>
    (\<forall>a < header. r' a = r a)"
proof (induction "n - k" arbitrary: k m r)
  case 0
  then show ?case by auto
next
  case (Suc d)
  then have kn: "k < n" "k < cap" "m < cap" by simp_all
  obtain e where e: "get p (int k) = Some e" using get_total [OF kn(2), of p] by auto
  obtain r1 where r1: "put (int m) e r = Some r1" using put_total [OF kn(3), of e r] by auto
  have "d = n - Suc k" "Suc k \<le> n" "n \<le> cap" "Suc m + (n - Suc k) \<le> cap" using Suc kn by simp_all
  from Suc.hyps(1) [OF this, of r1] obtain r' where
    r': "copy_out get put p (int (Suc m) - int (Suc k)) [Suc k..<n] r1 = Some r'"
    "\<forall>j < cap. get r' (int j) = (if Suc m \<le> j \<and> j < Suc m + (n - Suc k) then get p (int (j - Suc m + Suc k)) else get r1 (int j))"
    "\<forall>a < header. r' a = r1 a" by blast
  have "copy_out get put p (int m - int k) [k..<n] r = Some r'"
    using kn(1) e r1 r'(1) by (simp add: upt_conv_Cons)
  moreover have "get r' (int j) = (if m \<le> j \<and> j < m + (n - k) then get p (int (j - m + k)) else get r (int j))" if "j < cap" for j
  proof -
    have at: "get r1 (int j) = (if j = m then get p (int k) else get r (int j))"
      using get_put [OF r1 kn(3) that] e by simp
    have "Suc m \<le> j \<Longrightarrow> j - Suc m + Suc k = j - m + k" by simp
    then show ?thesis using r'(2) that at kn(1) by auto
  qed
  moreover have "\<forall>a < header. r' a = r a" using r'(3) put_header [OF r1 kn(3)] by simp
  ultimately show ?case by blast
qed

lemma move_half_law:
  assumes "0 \<le> GetSize p" "nat (GetSize p) \<le> cap" "GetSize r = 0"
  shows "\<exists>q r'. move_half get put p r = Some (q, r') \<and>
    entries get q = take (nat (GetSize p) div 2) (entries get p) \<and>
    entries get r' = drop (nat (GetSize p) div 2) (entries get p) \<and>
    GetSize q = GetSize p div 2 \<and> GetSize r' = GetSize p - GetSize p div 2 \<and>
    (\<forall>a < header. a \<noteq> 1 \<longrightarrow> a \<noteq> 2 \<longrightarrow> q a = p a \<and> r' a = r a)"
proof -
  define n where "n = nat (GetSize p)"
  then have n: "GetSize p = int n" "n \<le> cap" using assms by simp_all
  let ?k = "n div 2"
  have k: "?k \<le> n" "0 + (n - ?k) \<le> cap" using n by simp_all
  from copy_out_law [OF k(1) n(2) k(2), of p r] obtain r' where r': "copy_out get put p (- int ?k) [?k..<n] r = Some r'"
    "\<forall>j < cap. get r' (int j) = (if j < n - ?k then get p (int (j + ?k)) else get r (int j))"
    "\<forall>a < header. r' a = r a" by auto
  have half: "half (int n) = int ?k" by (simp add: half_def zdiv_int)
  let ?q = "SetSize (int ?k) p" and ?r = "SetSize (int (n - ?k)) r'"
  have run: "move_half get put p r = Some (?q, ?r)"
    using r'(1) half assms(3) n(1) k(1) by (simp add: move_half_def Let_def of_nat_diff)
  have size: "GetSize ?q = int ?k" "GetSize ?r = int (n - ?k)"
    using n cap_small by (auto intro!: GetSize_SetSize)
  have "entries get ?q = take ?k (entries get p)" "entries get ?r = drop ?k (entries get p)"
    using size r'(2) n by (auto intro!: nth_equalityI simp: add.commute)
  then show ?thesis
    using run size n(1) r'(3) k(1) by (auto simp: SetSize_other zdiv_int of_nat_diff)
qed

end

section \<open>The two entry formats\<close>

lemma slot_offset_int: "i * stride < 4294967296 \<Longrightarrow> slot_offset h stride (int i) = h + i * stride"
  by (simp add: slot_offset_def nat_mod_distrib nat_mult_distrib)

lemma pg_read_cong: "(\<And>a. off \<le> a \<Longrightarrow> q a = p a) \<Longrightarrow> pg_read q off n = pg_read p off n"
  by (simp add: pg_read_def mem_read_def)

lemmas leaf_layout = LEAF_HEADER_SIZE_def LEAF_KV_SIZE_def PAGE_SIZE_def
lemmas internal_layout = INTERNAL_HEADER_SIZE_def INTERNAL_KV_SIZE_def PAGE_SIZE_def

lemma max_keys: "leaf_GetMaxKeys = 1169" "internal_GetMaxKeys = 1364"
  by (simp_all add: leaf_GetMaxKeys_def internal_GetMaxKeys_def leaf_layout internal_layout)

lemma leaf_entry_run:
  assumes "i < leaf_GetMaxKeys"
  shows "leaf_entry p (int i) = Some (dec_word (mem_read p (17 + i * 14) 8),
      RID (dec_word (mem_read p (25 + i * 14) 4)) (dec_word (mem_read p (29 + i * 14) 2)))"
    "set_leaf_entry (int i) e p = Some (mem_write (mem_write (mem_write p (17 + i * 14) (enc_word (fst e)))
      (25 + i * 14) (enc_word (rid_page_id (snd e)))) (29 + i * 14) (enc_word (rid_slot_id (snd e))))"
  using assms unfolding max_keys
  by (simp_all add: leaf_entry_def set_leaf_entry_def slot_offset_int leaf_layout Let_def)


lemma apart: "i \<noteq> j \<Longrightarrow> Suc i \<le> j \<or> Suc j \<le> (i::nat)" by arith

interpretation leaf: entry_array leaf_entry set_leaf_entry leaf_GetMaxKeys 17
proof
  fix i j :: nat and p q :: page and e :: "i64 \<times> RID" and a :: nat and k :: int
  show "i < leaf_GetMaxKeys \<Longrightarrow> \<exists>e. leaf_entry p (int i) = Some e"
    "i < leaf_GetMaxKeys \<Longrightarrow> \<exists>q. set_leaf_entry (int i) e p = Some q" by (simp_all add: leaf_entry_run)
  show "leaf_entry q (int j) = (if j = i then Some e else leaf_entry p (int j))"
    if "set_leaf_entry (int i) e p = Some q" "i < leaf_GetMaxKeys" "j < leaf_GetMaxKeys"
  proof (cases "j = i")
    case True
    then show ?thesis using that by (auto simp: leaf_entry_run mem_read_write_disjoint)
  next
    case False
    then have "14 + j * 14 \<le> i * 14 \<or> 14 + i * 14 \<le> j * 14" using apart [OF False] by auto
    then show ?thesis using that False by (auto simp: leaf_entry_run mem_read_write_disjoint)
  qed
  show "set_leaf_entry (int i) e p = Some q \<Longrightarrow> i < leaf_GetMaxKeys \<Longrightarrow> a < 17 \<Longrightarrow> q a = p a"
    by (auto simp: leaf_entry_run mem_write_def)
  show "leaf_entry q k = leaf_entry p k" if h: "\<And>a. 17 \<le> a \<Longrightarrow> q a = p a"
  proof -
    have "pg_read q (slot_offset LEAF_HEADER_SIZE LEAF_KV_SIZE k + c) n = pg_read p (slot_offset LEAF_HEADER_SIZE LEAF_KV_SIZE k + c) n"
      for c n by (rule pg_read_cong) (auto simp: slot_offset_def leaf_layout h)
    from this [of 0] this show ?thesis by (simp add: leaf_entry_def)
  qed
qed (simp_all add: max_keys)


section \<open>Searching sorted pages\<close>

definition leaf_pairs :: "page \<Rightarrow> (i64 \<times> RID) list" where
  "leaf_pairs = entries leaf_entry"

definition leaf_ok :: "page \<Rightarrow> bool" where
  "leaf_ok p \<longleftrightarrow> 0 \<le> GetSize p \<and> GetSize p \<le> GetMaxSize p \<and> GetMaxSize p \<le> int leaf_GetMaxKeys \<and>
     keys_in_order (leaf_pairs p)"

lemma keys_in_order_nth:
  "keys_in_order es \<Longrightarrow> i < j \<Longrightarrow> j < length es \<Longrightarrow> sint (fst (es ! i)) < sint (fst (es ! j))"
  by (simp add: keys_in_order_def sorted_wrt_iff_nth_less)

lemma keys_in_order_distinct: "keys_in_order es \<Longrightarrow> distinct (map fst es)"
proof -
  assume "keys_in_order es"
  then have "distinct (map sint (map fst es))" by (simp add: keys_in_order_def comp_def strict_sorted_iff)
  then show ?thesis using inj_on_imageI2 [of sint fst "set es"] by (auto simp: distinct_map)
qed

lemma leaf_pairs_nth:
  assumes "i < length (leaf_pairs p)" "length (leaf_pairs p) \<le> leaf_GetMaxKeys"
  shows "leaf_entry p (int i) = Some (leaf_pairs p ! i)"
  using assms leaf.get_the [of i p] by (simp add: leaf_pairs_def)

lemma leaf_search_law:
  assumes "keys_in_order (leaf_pairs p)" "length (leaf_pairs p) \<le> leaf_GetMaxKeys"
  shows "0 \<le> left \<Longrightarrow> right < int (length (leaf_pairs p)) \<Longrightarrow>
    (\<forall>i < length (leaf_pairs p). int i < left \<or> right < int i \<longrightarrow> fst (leaf_pairs p ! i) \<noteq> key) \<Longrightarrow>
    \<exists>r. leaf_search p key left right = Some r \<and>
      (if r < 0 then \<forall>i < length (leaf_pairs p). fst (leaf_pairs p ! i) \<noteq> key
       else nat r < length (leaf_pairs p) \<and> fst (leaf_pairs p ! nat r) = key)"
proof (induction "nat (right - left + 1)" arbitrary: left right rule: less_induct)
  case less
  let ?es = "leaf_pairs p"
  show ?case
  proof (cases "left \<le> right")
    case False
    then have "\<forall>i < length ?es. fst (?es ! i) \<noteq> key" using less.prems(3) by force
    moreover have "leaf_search p key left right = Some (- 1)" using False by (simp add: leaf_search.simps)
    ultimately show ?thesis by simp
  next
    case True
    define m where "m = nat (left + (right - left) div 2)"
    have m: "int m = left + (right - left) div 2" "left \<le> int m" "int m \<le> right"
      using True less.prems(1) by (simp_all add: m_def)
    have ml: "m < length ?es" using m(3) less.prems(2) by simp
    have e: "leaf_entry p (int m) = Some (?es ! m)" by (rule leaf_pairs_nth [OF ml assms(2)])
    have step: "leaf_search p key left right =
      (if fst (?es ! m) = key then Some (int m)
       else if sint key < sint (fst (?es ! m)) then leaf_search p key left (int m - 1)
       else leaf_search p key (int m + 1) right)"
      using True e unfolding leaf_search.simps [of p key left right] by (simp add: m(1))
    show ?thesis
    proof (cases "fst (?es ! m) = key")
      case True
      then show ?thesis using step ml by simp
    next
      case ne: False
      show ?thesis
      proof (cases "sint key < sint (fst (?es ! m))")
        case lt: True
        have "\<forall>i < length ?es. int i < left \<or> int m - 1 < int i \<longrightarrow> fst (?es ! i) \<noteq> key"
        proof (intro allI impI)
          fix i assume i: "i < length ?es" "int i < left \<or> int m - 1 < int i"
          then show "fst (?es ! i) \<noteq> key"
            using less.prems(3) ne lt keys_in_order_nth [OF assms(1), of m i] m(2) by (cases i m rule: linorder_cases) auto
        qed
        then have "\<exists>r. leaf_search p key left (int m - 1) = Some r \<and>
            (if r < 0 then \<forall>i < length ?es. fst (?es ! i) \<noteq> key else nat r < length ?es \<and> fst (?es ! nat r) = key)"
          using m less.prems(1,2) by (intro less.hyps) simp_all
        with step ne lt show ?thesis by simp
      next
        case ge: False
        then have gt: "sint (fst (?es ! m)) < sint key" using ne by (simp add: not_less le_less signed_word_eqI)
        have "\<forall>i < length ?es. int i < int m + 1 \<or> right < int i \<longrightarrow> fst (?es ! i) \<noteq> key"
        proof (intro allI impI)
          fix i assume i: "i < length ?es" "int i < int m + 1 \<or> right < int i"
          then show "fst (?es ! i) \<noteq> key"
            using less.prems(3) ne gt keys_in_order_nth [OF assms(1), of i m] ml m(3) by (cases i m rule: linorder_cases) auto
        qed
        then have "\<exists>r. leaf_search p key (int m + 1) right = Some r \<and>
            (if r < 0 then \<forall>i < length ?es. fst (?es ! i) \<noteq> key else nat r < length ?es \<and> fst (?es ! nat r) = key)"
          using m less.prems(1,2) by (intro less.hyps) simp_all
        with step ne ge show ?thesis by simp
      qed
    qed
  qed
qed

lemma leaf_okD:
  assumes "leaf_ok p"
  shows "keys_in_order (leaf_pairs p)" "length (leaf_pairs p) \<le> leaf_GetMaxKeys" "0 \<le> GetSize p"
    "length (leaf_pairs p) = nat (GetSize p)"
  using assms by (auto simp: leaf_ok_def leaf_pairs_def)

text \<open>\<open>Lookup\<close> on a leaf in order: the binary search is the lookup in the list of pairs.\<close>

lemma leaf_Lookup_law:
  assumes "leaf_ok p"
  shows "\<exists>r. leaf_Lookup p key = Some r \<and>
    (if r < 0 then map_of (leaf_pairs p) key = None
     else nat r < length (leaf_pairs p) \<and> fst (leaf_pairs p ! nat r) = key \<and>
          map_of (leaf_pairs p) key = Some (snd (leaf_pairs p ! nat r)) \<and>
          leaf_entry p r = Some (leaf_pairs p ! nat r))"
proof -
  let ?es = "leaf_pairs p"
  note ok = leaf_okD [OF assms]
  have n: "GetSize p = int (length ?es)" using ok(3,4) by simp
  have "to_i16 (GetSize p - 1) = GetSize p - 1" using ok(3) GetSize_range(2) [of p] by (intro to_i16_id) simp_all
  moreover have "\<exists>r. leaf_search p key 0 (GetSize p - 1) = Some r \<and>
      (if r < 0 then \<forall>i < length ?es. fst (?es ! i) \<noteq> key else nat r < length ?es \<and> fst (?es ! nat r) = key)"
    by (rule leaf_search_law [OF ok(1,2)]) (simp_all add: n)
  ultimately obtain r where r: "leaf_Lookup p key = Some r"
    "if r < 0 then \<forall>i < length ?es. fst (?es ! i) \<noteq> key else nat r < length ?es \<and> fst (?es ! nat r) = key"
    by (auto simp: leaf_Lookup_def)
  show ?thesis
  proof (cases "r < 0")
    case True
    then have "key \<notin> fst ` set ?es" using r(2) by (force simp: in_set_conv_nth)
    then show ?thesis using r(1) True by (simp add: map_of_eq_None_iff)
  next
    case False
    then have i: "nat r < length ?es" "fst (?es ! nat r) = key" using r(2) by simp_all
    then have "(key, snd (?es ! nat r)) \<in> set ?es" using nth_mem [OF i(1)] by (cases "?es ! nat r") auto
    then have "map_of ?es key = Some (snd (?es ! nat r))"
      using keys_in_order_distinct [OF ok(1)] by (rule map_of_is_SomeI [rotated])
    then show ?thesis using r(1) False i leaf_pairs_nth [OF i(1) ok(2)] by simp
  qed
qed

text \<open>Sortedness of the list after an insertion.\<close>

lemma put_sorted_in_order:
  assumes "keys_in_order es" "key \<notin> fst ` set es"
  shows "keys_in_order (put_sorted key v es)"
proof -
  let ?P = "\<lambda>e. sint (fst e) \<le> sint key"
  have eq: "es = takeWhile ?P es @ dropWhile ?P es" by simp
  have lo: "sint (fst e) < sint key" if "e \<in> set (takeWhile ?P es)" for e
    using set_takeWhileD [OF that] assms(2) by (metis image_eqI le_less signed_word_eqI)
  have hi: "sint key < sint (fst e)" if "e \<in> set (dropWhile ?P es)" for e
  proof (cases "dropWhile ?P es")
    case Nil
    then have "e \<in> set []" using that by metis
    then show ?thesis by simp
  next
    case (Cons d ds)
    then have "\<not> ?P d" using hd_dropWhile [of ?P es] by simp
    moreover have "keys_in_order (takeWhile ?P es @ dropWhile ?P es)" using assms(1) by simp
    then have "sorted_wrt (<) (map (\<lambda>e. sint (fst e)) (d # ds))"
      unfolding Cons keys_in_order_def map_append sorted_wrt_append by blast
    ultimately show ?thesis using that Cons by auto
  qed
  have "sorted_wrt (<) (map (\<lambda>e. sint (fst e)) (takeWhile ?P es) @ map (\<lambda>e. sint (fst e)) (dropWhile ?P es))"
    using assms(1) eq unfolding keys_in_order_def by (metis map_append)
  then show ?thesis
    unfolding keys_in_order_def put_sorted_def using lo hi by (auto simp: sorted_wrt_append)
qed

lemma map_of_put_sorted:
  "key \<notin> fst ` set es \<Longrightarrow> map_of (put_sorted key v es) k = (if k = key then Some v else map_of es k)"
proof -
  assume new: "key \<notin> fst ` set es"
  let ?P = "\<lambda>e. sint (fst e) \<le> sint key"
  have "key \<notin> fst ` set (takeWhile ?P es)" using new by (auto dest: set_takeWhileD)
  then have "map_of (takeWhile ?P es) key = None" by (rule map_of_eq_None_iff [THEN iffD2])
  moreover have "map_of es k = (map_of (dropWhile ?P es) ++ map_of (takeWhile ?P es)) k"
    by (metis map_of_append takeWhile_dropWhile_id)
  ultimately show ?thesis by (auto simp: put_sorted_def map_add_def split: option.splits)
qed

lemma header_same:
  assumes "\<forall>a < h. a \<noteq> 1 \<longrightarrow> a \<noteq> 2 \<longrightarrow> q a = p a" "13 \<le> h"
  shows "GetMaxSize q = GetMaxSize p" "IsLeafPage q = IsLeafPage p" "GetParentPageId q = GetParentPageId p"
    "GetPageId q = GetPageId p"
proof -
  have "mem_read q 3 2 = mem_read p 3 2" "mem_read q 5 4 = mem_read p 5 4" "mem_read q 9 4 = mem_read p 9 4"
    using assms by (auto intro!: nth_equalityI)
  then show "GetMaxSize q = GetMaxSize p" "IsLeafPage q = IsLeafPage p" "GetParentPageId q = GetParentPageId p"
    "GetPageId q = GetPageId p"
    using assms by (simp_all add: GetMaxSize_def IsLeafPage_def GetParentPageId_def GetPageId_def)
qed

lemma leaf_Insert_law:
  assumes "leaf_ok p" "GetSize p < GetMaxSize p" "map_of (leaf_pairs p) key = None"
  shows "\<exists>q. leaf_Insert key rid p = Some (q, True) \<and> leaf_ok q \<and> leaf_pairs q = put_sorted key rid (leaf_pairs p) \<and>
    (\<forall>k. map_of (leaf_pairs q) k = (if k = key then Some rid else map_of (leaf_pairs p) k)) \<and>
    (\<forall>a < 17. a \<noteq> 1 \<longrightarrow> a \<noteq> 2 \<longrightarrow> q a = p a)"
proof -
  from assms(1) have b: "0 \<le> GetSize p" "GetMaxSize p \<le> int leaf_GetMaxKeys" by (simp_all add: leaf_ok_def)
  from leaf.page_Insert_law [OF b(1) assms(2) b(2), of key rid] obtain q where
    q: "leaf_Insert key rid p = Some (q, True)" "GetSize q = GetSize p + 1"
      "leaf_pairs q = put_sorted key rid (leaf_pairs p)" "\<forall>a < 17. a \<noteq> 1 \<longrightarrow> a \<noteq> 2 \<longrightarrow> q a = p a"
    by (auto simp: leaf_Insert_def leaf_pairs_def)
  have new: "key \<notin> fst ` set (leaf_pairs p)" using assms(3) by (simp add: map_of_eq_None_iff)
  have "leaf_ok q"
    using q(2) assms(2) b header_same(1) [OF q(4)] put_sorted_in_order [OF leaf_okD(1) [OF assms(1)] new]
    by (simp add: leaf_ok_def q(3))
  with q map_of_put_sorted [OF new] show ?thesis by auto
qed

lemma leaf_Remove_law:
  assumes "leaf_ok p"
  shows "\<exists>q. leaf_Remove key p = Some (q, map_of (leaf_pairs p) key \<noteq> None) \<and> leaf_ok q \<and>
    (\<forall>k. map_of (leaf_pairs q) k = (if k = key then None else map_of (leaf_pairs p) k)) \<and>
    (\<forall>a < 17. a \<noteq> 1 \<longrightarrow> a \<noteq> 2 \<longrightarrow> q a = p a)"
proof -
  let ?es = "leaf_pairs p"
  note ok = leaf_okD [OF assms]
  from leaf_Lookup_law [OF assms, of key] obtain r where r: "leaf_Lookup p key = Some r"
    "if r < 0 then map_of ?es key = None
     else nat r < length ?es \<and> fst (?es ! nat r) = key \<and> map_of ?es key = Some (snd (?es ! nat r)) \<and>
          leaf_entry p r = Some (?es ! nat r)" by blast
  show ?thesis
  proof (cases "r < 0")
    case True
    then show ?thesis using r assms by (auto simp: leaf_Remove_def)
  next
    case False
    let ?k = "nat r"
    have k: "?k < length ?es" "fst (?es ! ?k) = key" "map_of ?es key = Some (snd (?es ! ?k))" using r(2) False by simp_all
    have "?k < nat (GetSize p)" "nat (GetSize p) \<le> leaf_GetMaxKeys" using k(1) ok(2,4) by simp_all
    from leaf.remove_at_law [OF this] False obtain q where q: "remove_at leaf_entry set_leaf_entry r p = Some q"
      "GetSize q = GetSize p - 1" "leaf_pairs q = take ?k ?es @ drop (Suc ?k) ?es"
      "\<forall>a < 17. a \<noteq> 1 \<longrightarrow> a \<noteq> 2 \<longrightarrow> q a = p a" by (auto simp: leaf_pairs_def)
    have split: "?es = take ?k ?es @ ?es ! ?k # drop (Suc ?k) ?es" by (rule id_take_nth_drop [OF k(1)])
    have ord: "keys_in_order (take ?k ?es @ ?es ! ?k # drop (Suc ?k) ?es)" using ok(1) split by simp
    then have "keys_in_order (leaf_pairs q)" by (auto simp: keys_in_order_def q(3) sorted_wrt_append)
    then have "leaf_ok q"
      using assms q(2) k(1) ok(4) header_same(1) [OF q(4)] by (simp add: leaf_ok_def)
    moreover have "map_of (leaf_pairs q) j = (if j = key then None else map_of ?es j)" for j
    proof -
      have "distinct (map fst (take ?k ?es @ ?es ! ?k # drop (Suc ?k) ?es))" by (rule keys_in_order_distinct [OF ord])
      then have "key \<notin> fst ` set (take ?k ?es @ drop (Suc ?k) ?es)" using k(2) by (auto simp: image_Un)
      then have "map_of (take ?k ?es @ drop (Suc ?k) ?es) key = None" by (rule map_of_eq_None_iff [THEN iffD2])
      moreover have "map_of ?es j = map_of (take ?k ?es @ drop (Suc ?k) ?es) j" if "j \<noteq> key"
        using that k(2) by (subst split) (cases "?es ! ?k", auto simp: map_add_def split: option.splits)
      ultimately show ?thesis by (simp add: q(3))
    qed
    moreover have "leaf_Remove key p = Some (q, True)" using r(1) False q(1) by (simp add: leaf_Remove_def)
    ultimately show ?thesis using k(3) q(4) by auto
  qed
qed








section \<open>From the root to a leaf\<close>

text \<open>The path that \<open>FindLeaf\<close> takes for a key, on the pages as the clients of the pool see them.\<close>

inductive leads :: "(i32 \<Rightarrow> page option) \<Rightarrow> i64 \<Rightarrow> i32 \<Rightarrow> i32 \<Rightarrow> bool" for v key where
  leaf: "v pid = Some p \<Longrightarrow> IsLeafPage p \<Longrightarrow> pid \<noteq> INVALID_PAGE_ID \<Longrightarrow> leads v key pid pid"
| inner: "v pid = Some p \<Longrightarrow> \<not> IsLeafPage p \<Longrightarrow> pid \<noteq> INVALID_PAGE_ID \<Longrightarrow>
    internal_Lookup p key = Some child \<Longrightarrow> leads v key child leaf \<Longrightarrow> leads v key pid leaf"

inductive_cases leadsE: "leads v key pid leaf"

lemma leads_valid: "leads v key pid leaf \<Longrightarrow> pid \<noteq> INVALID_PAGE_ID \<and> leaf \<noteq> INVALID_PAGE_ID \<and> (\<exists>p. v leaf = Some p \<and> IsLeafPage p)"
  by (induction rule: leads.induct) auto

lemma leads_deterministic: "leads v key pid leaf \<Longrightarrow> leads v key pid leaf' \<Longrightarrow> leaf' = leaf"
  by (induction rule: leads.induct) (auto elim: leadsE)

lemma leads_cong:
  assumes "leads v key pid leaf"
    "\<And>q c. v q = Some c \<Longrightarrow> (\<exists>d. w q = Some d \<and> IsLeafPage d = IsLeafPage c \<and> (\<not> IsLeafPage c \<longrightarrow> d = c))"
  shows "leads w key pid leaf"
  using assms(1)
proof (induction rule: leads.induct)
  case (leaf pid p)
  then show ?case using assms(2) leads.leaf by metis
next
  case (inner pid p child leaf)
  then show ?case using assms(2) leads.inner by metis
qed

lemma descend_law:
  assumes "leads v key pid leaf"
  shows "pool_inv {} {} b \<Longrightarrow> (\<forall>q c. v q = Some c \<longrightarrow> view b q = Some c) \<Longrightarrow> FetchPage pid b = (b1, Some f) \<Longrightarrow>
    \<exists>b' r. descend key pid f b1 = Some (b', r) \<and> pool_inv {} {} b' \<and> view_le b b' \<and> pins b' = pins b \<and>
      (r = leaf \<or> r = INVALID_PAGE_ID)"
  using assms
proof (induction arbitrary: b b1 f rule: leads.induct)
  case (leaf pid p)
  obtain b2 ok where u: "UnpinPage pid False b1 = (b2, ok)" by fastforce
  have v: "view b pid = Some p" using leaf by blast
  note V = visit [OF leaf.prems(1) _ leaf.prems(3) u v]
  show ?case using V leaf.hyps(2) u by (subst descend.simps) auto
next
  case (inner pid p child leaf)
  obtain b2 ok where u: "UnpinPage pid False b1 = (b2, ok)" by fastforce
  have v: "view b pid = Some p" using inner by blast
  note V = visit [OF inner.prems(1) _ inner.prems(3) u v]
  have child: "child \<noteq> INVALID_PAGE_ID" using leads_valid [OF inner.hyps(5)] by simp
  obtain b3 fo where f: "FetchPage child b2 = (b3, fo)" by fastforce
  have step: "descend key pid f b1 =
      (case fo of None \<Rightarrow> Some (b3, INVALID_PAGE_ID) | Some g \<Rightarrow> descend key child g b3)"
    using V(1) inner.hyps(2,4) u f child by (subst descend.simps) (simp split: option.split)
  have inv2: "pool_inv {} {} b2" "view_le b b2" "pins b2 = pins b" using V(2-4) by simp_all
  have le: "\<forall>q c. v q = Some c \<longrightarrow> view b2 q = Some c" using inner.prems(2) inv2(2) by (auto simp: view_le_def)
  show ?case
  proof (cases fo)
    case None
    note F = FetchPage_law [OF inv2(1) f]
    have "view_le b b3" using inv2(2) F(2) by (rule view_le_trans)
    then show ?thesis using step None F inv2(3) by simp
  next
    case (Some g)
    from inner.IH [OF inv2(1) le] f Some obtain b' r where "descend key child g b3 = Some (b', r)" "pool_inv {} {} b'"
      "view_le b2 b'" "pins b' = pins b2" "r = leaf \<or> r = INVALID_PAGE_ID" by blast
    then show ?thesis using step Some inv2 view_le_trans [OF inv2(2)] by auto
  qed
qed

lemma FindLeaf_law:
  assumes "pool_inv {} {} b" "leads (view b) key (root_page_id t) leaf"
  shows "\<exists>b' r. FindLeaf t key b = Some (b', r) \<and> pool_inv {} {} b' \<and> view_le b b' \<and> pins b' = pins b \<and>
    (r = leaf \<or> r = INVALID_PAGE_ID)"
proof -
  have root: "root_page_id t \<noteq> INVALID_PAGE_ID" using leads_valid [OF assms(2)] by simp
  obtain b1 fo where f: "FetchPage (root_page_id t) b = (b1, fo)" by fastforce
  show ?thesis
  proof (cases fo)
    case None
    then show ?thesis using FetchPage_law [OF assms(1) f] root f by (simp add: FindLeaf_def)
  next
    case (Some g)
    then show ?thesis using descend_law [OF assms(2) assms(1)] root f by (simp add: FindLeaf_def)
  qed
qed

text \<open>What the tree stores under a key that leads to a leaf.\<close>

definition tree_stores :: "(i32 \<Rightarrow> page option) \<Rightarrow> i32 \<Rightarrow> i64 \<Rightarrow> RID option \<Rightarrow> bool" where
  "tree_stores v root key r \<longleftrightarrow>
     (\<exists>leaf p. leads v key root leaf \<and> v leaf = Some p \<and> leaf_ok p \<and> r = map_of (leaf_pairs p) key)"

lemma tree_stores_unique: "tree_stores v root key r \<Longrightarrow> tree_stores v root key r' \<Longrightarrow> r' = r"
  unfolding tree_stores_def using leads_deterministic by fastforce


lemma tree_Insert_law:
  assumes "pool_inv {} {} b" "tree_stores (view b) (root_page_id t) key None"
    "FindLeaf t key b = Some (b1, leaf)" "leaf \<noteq> INVALID_PAGE_ID" "FetchPage leaf b1 = (b2, Some f)"
    "GetSize (page_at f b2) < GetMaxSize (page_at f b2)"
  shows "\<exists>b'. tree_Insert key rid (t, b) = Some (count_up t, b', True) \<and> pool_inv {} {} b' \<and> pins b' = pins b \<and>
    (\<forall>k s. tree_stores (view b) (root_page_id t) k s \<longrightarrow>
       tree_stores (view b') (root_page_id t) k (if k = key then Some rid else s))"
proof -
  from assms(2) obtain lf p where s: "leads (view b) key (root_page_id t) lf" "view b lf = Some p" "leaf_ok p"
    "map_of (leaf_pairs p) key = None" by (auto simp: tree_stores_def)
  from FindLeaf_law [OF assms(1) s(1)] assms(3,4) have F: "pool_inv {} {} b1" "view_le b b1" "pins b1 = pins b" "leaf = lf"
    by auto
  have root: "root_page_id t \<noteq> INVALID_PAGE_ID" using leads_valid [OF s(1)] by simp
  have v1: "view b1 leaf = Some p" using s(2) F(2,4) by (simp add: view_le_def)
  have at: "page_at f b2 = p" using FetchPage_law(2,5) [OF F(1) assms(5)] v1 by (simp add: view_le_def)
  from leaf_Insert_law [OF s(3) _ s(4), of rid] assms(6) obtain q where q: "leaf_Insert key rid p = Some (q, True)"
    "leaf_ok q" "\<forall>k. map_of (leaf_pairs q) k = (if k = key then Some rid else map_of (leaf_pairs p) k)"
    "\<forall>a < 17. a \<noteq> 1 \<longrightarrow> a \<noteq> 2 \<longrightarrow> q a = p a" unfolding at by blast
  obtain b3 ok where u: "UnpinPage leaf True (MarkDirty f (modify_page f (\<lambda>_. q) b2)) = (b3, ok)" by fastforce
  note A = alter [OF F(1) _ assms(5) v1 u, simplified]
  from leaf_Lookup_law [OF s(3), of key] s(4) obtain i where i: "leaf_Lookup p key = Some i" "i < 0"
    by (metis option.distinct(1))
  have run: "tree_Insert key rid (t, b) = Some (count_up t, b3, True)"
    using root assms(3-6) i q(1) u at
    by (simp add: tree_Insert_def put_in_leaf_def change_page_def)
  have isleaf: "IsLeafPage p" using leads_valid [OF s(1)] s(2) by auto
  have isleaf': "IsLeafPage q" using header_same(2) [OF q(4)] isleaf by simp
  have keep: "view b3 x = Some c" if "x \<noteq> leaf" "view b x = Some c" for x c
    using A(4) [OF that(1)] that(2) F(2) by (simp add: view_le_def)
  have leads': "leads (view b3) k (root_page_id t) l" if "leads (view b) k (root_page_id t) l" for k l
  proof (rule leads_cong [OF that])
    fix x c assume "view b x = Some c"
    then show "\<exists>d. view b3 x = Some d \<and> IsLeafPage d = IsLeafPage c \<and> (\<not> IsLeafPage c \<longrightarrow> d = c)"
      using keep A(3) isleaf isleaf' s(2) F(4) by (cases "x = leaf") auto
  qed
  have "tree_stores (view b3) (root_page_id t) k (if k = key then Some rid else r)"
    if st: "tree_stores (view b) (root_page_id t) k r" for k r
  proof -
    from st obtain l c where l: "leads (view b) k (root_page_id t) l" "view b l = Some c" "leaf_ok c" "r = map_of (leaf_pairs c) k"
      by (auto simp: tree_stores_def)
    show ?thesis
    proof (cases "l = leaf")
      case True
      then have "c = p" using l(2) s(2) F(4) by simp
      then show ?thesis using leads' [OF l(1)] A(3) q(2,3) l(4) True unfolding tree_stores_def by force
    next
      case False
      then have "k \<noteq> key" using leads_deterministic [OF s(1)] l(1) F(4) by blast
      then show ?thesis using leads' [OF l(1)] keep [OF False l(2)] l(3,4) unfolding tree_stores_def by auto
    qed
  qed
  then show ?thesis using run A(1,2) F(3) by auto
qed

section \<open>A new root\<close>

lemma header_writes:
  "GetSize (SetParentPageId i p) = GetSize p" "GetMaxSize (SetParentPageId i p) = GetMaxSize p"
  "IsLeafPage (SetParentPageId i p) = IsLeafPage p" "GetPageId (SetParentPageId i p) = GetPageId p"
  "GetSize (SetPageId i p) = GetSize p" "GetMaxSize (SetPageId i p) = GetMaxSize p"
  "IsLeafPage (SetPageId i p) = IsLeafPage p" "GetPageId (SetPageId i p) = i"
  "GetSize (SetMaxSize n p) = GetSize p" "IsLeafPage (SetMaxSize n p) = IsLeafPage p" "IsLeafPage (SetSize n p) = IsLeafPage p"
  "IsLeafPage (SetPageType t p) = (t = LEAF_PAGE)"
  by (simp_all add: GetSize_def GetMaxSize_def IsLeafPage_def GetPageId_def SetParentPageId_def SetPageId_def SetMaxSize_def
      SetSize_def SetPageType_def mem_read_write_disjoint)
    (simp_all add: mem_write_def)

lemma GetMaxSize_SetMaxSize: "- 32768 \<le> n \<Longrightarrow> n < 32768 \<Longrightarrow> GetMaxSize (SetMaxSize n p) = n"
  by (simp add: GetMaxSize_def SetMaxSize_def signed_of_int signed_take_bit_int_eq_self)



text \<open>Pages that differ in the parent pointer only.\<close>

definition same_but_parent :: "page \<Rightarrow> page \<Rightarrow> bool" where
  "same_but_parent c d \<longleftrightarrow> d = c \<or> (\<exists>pid. d = SetParentPageId pid c)"

lemma same_but_parent_refl [simp]: "same_but_parent c c"
  by (simp add: same_but_parent_def)







section \<open>The first split\<close>

lemma fresh_leaf:
  fixes pid :: i32 and p :: page
  defines "q \<equiv> SetPageId pid (leaf_Init (int leaf_GetMaxKeys) p)"
  shows "GetSize q = 0" "GetMaxSize q = int leaf_GetMaxKeys" "GetPageId q = pid"
proof -
  have "GetSize (SetNextPageId i c) = GetSize c" "GetMaxSize (SetNextPageId i c) = GetMaxSize c" for i c
    by (simp_all add: GetSize_def GetMaxSize_def SetNextPageId_def mem_read_write_disjoint)
  then show "GetSize q = 0" "GetMaxSize q = int leaf_GetMaxKeys" "GetPageId q = pid"
    by (simp_all add: q_def leaf_Init_def init_page_def header_writes GetMaxSize_SetMaxSize max_keys GetSize_SetSize)
qed




lemma tree_stores_leaf:
  "view b pid = Some p \<Longrightarrow> IsLeafPage p \<Longrightarrow> leaf_ok p \<Longrightarrow> pid \<noteq> INVALID_PAGE_ID \<Longrightarrow>
   tree_stores (view b) pid k (map_of (leaf_pairs p) k)"
  unfolding tree_stores_def using leads.leaf by blast


section \<open>A concrete tree\<close>

text \<open>A root leaf with two pairs in page 1 of file 0.\<close>

definition empty_leaf :: page where
  "empty_leaf = SetPageId demo_page_id (leaf_Init (int leaf_GetMaxKeys) zero_page)"

definition one_leaf :: page where "one_leaf = fst (the (leaf_Insert 5 (RID 7 3) empty_leaf))"

definition two_leaf :: page where "two_leaf = fst (the (leaf_Insert 9 (RID 7 4) one_leaf))"

definition tree_pool :: bpm where "tree_pool = page_pool two_leaf"

definition demo_tree :: b_plus_tree where "demo_tree = \<lparr>root_page_id = demo_page_id, tree_size = 2\<rparr>"

lemmas tree_pool_facts = page_pool_facts [where c = two_leaf, folded tree_pool_def]

lemma two_leaf_facts:
  "leaf_ok two_leaf" "leaf_pairs two_leaf = [(5, RID 7 3), (9, RID 7 4)]" "IsLeafPage two_leaf"
  "GetParentPageId two_leaf = INVALID_PAGE_ID" "GetMaxSize two_leaf = 1169" "GetSize two_leaf = 2"
proof -
  have h: "IsLeafPage empty_leaf" "GetParentPageId empty_leaf = INVALID_PAGE_ID"
    by (simp_all add: empty_leaf_def leaf_Init_def init_page_def IsLeafPage_def GetParentPageId_def SetPageId_def
        SetNextPageId_def SetParentPageId_def SetMaxSize_def SetSize_def SetPageType_def mem_read_write_disjoint)
      (simp add: mem_write_def)
  note F = fresh_leaf(1,2) [of demo_page_id zero_page, folded empty_leaf_def]
  have e: "leaf_pairs empty_leaf = []" using F by (simp add: leaf_pairs_def entries_def)
  have ok0: "leaf_ok empty_leaf" using F by (simp add: leaf_ok_def max_keys e keys_in_order_def)
  have m0: "map_of (leaf_pairs empty_leaf) 5 = None" by (simp add: e)
  obtain p where p: "leaf_Insert 5 (RID 7 3) empty_leaf = Some (p, True)" "leaf_ok p"
    "leaf_pairs p = put_sorted 5 (RID 7 3) []" "\<forall>a < 17. a \<noteq> 1 \<longrightarrow> a \<noteq> 2 \<longrightarrow> p a = empty_leaf a"
    using leaf_Insert_law [OF ok0 _ m0, of "RID 7 3"] F e by (auto simp: max_keys)
  have one: "one_leaf = p" by (simp add: one_leaf_def p(1))
  have e1: "leaf_pairs p = [(5, RID 7 3)]" using p(3) by (simp add: put_sorted_def)
  have s1: "GetSize p = 1" using leaf_okD(3,4) [OF p(2)] e1 by simp
  have x1: "GetMaxSize p = 1169" using header_same(1) [OF p(4)] F by (simp add: max_keys)
  have m1: "map_of (leaf_pairs p) 9 = None" by (simp add: e1)
  obtain q where q: "leaf_Insert 9 (RID 7 4) p = Some (q, True)" "leaf_ok q"
    "leaf_pairs q = put_sorted 9 (RID 7 4) [(5, RID 7 3)]" "\<forall>a < 17. a \<noteq> 1 \<longrightarrow> a \<noteq> 2 \<longrightarrow> q a = p a"
    using leaf_Insert_law [OF p(2) _ m1, of "RID 7 4"] s1 x1 e1 by auto
  have two: "two_leaf = q" by (simp add: two_leaf_def one q(1))
  have e2: "leaf_pairs q = [(5, RID 7 3), (9, RID 7 4)]" using q(3) by (simp add: put_sorted_def)
  show "leaf_ok two_leaf" "leaf_pairs two_leaf = [(5, RID 7 3), (9, RID 7 4)]" by (simp_all add: two q(2) e2)
  show "IsLeafPage two_leaf" "GetParentPageId two_leaf = INVALID_PAGE_ID" "GetMaxSize two_leaf = 1169" "GetSize two_leaf = 2"
    using header_same [OF q(4)] header_same [OF p(4)] h x1 leaf_okD(3,4) [OF q(2)] e2 by (simp_all add: two)
qed

lemma demo_tree_stores: "tree_stores (view tree_pool) demo_page_id k (map_of [(5, RID 7 3), (9, RID 7 4)] k)"
  using tree_stores_leaf [OF tree_pool_facts(3) two_leaf_facts(3,1) demo_page_id_valid, of k] by (simp add: two_leaf_facts(2))

lemma demo_tree_run:
  "\<exists>b1 b2 f. FindLeaf demo_tree k tree_pool = Some (b1, demo_page_id) \<and> FetchPage demo_page_id b1 = (b2, Some f) \<and>
     page_at f b2 = two_leaf"
proof -
  obtain b0 f where f: "FetchPage demo_page_id tree_pool = (b0, Some f)" using tree_pool_facts(6) by blast
  note F = FetchPage_law [OF tree_pool_facts(1) f]
  have at: "page_at f b0 = two_leaf" "find_page demo_page_id b0 = Some f"
    using F(2,5) tree_pool_facts(3) by (simp_all add: view_le_def)
  obtain b1 ok where u: "UnpinPage demo_page_id False b0 = (b1, ok)" by fastforce
  have "FindLeaf demo_tree k tree_pool = Some (b1, demo_page_id)"
    using f u at(1) two_leaf_facts(3) demo_page_id_valid by (simp add: FindLeaf_def demo_tree_def descend.simps)
  moreover have "0 < pins b0 demo_page_id"
    using F(4) pool.pinned_nonneg [OF tree_pool_facts(1), of demo_page_id] by simp
  moreover obtain b2 fo where g: "FetchPage demo_page_id b1 = (b2, fo)" by fastforce
  ultimately show ?thesis using unpin_refetch(1,6) [OF F(1) at(2) _ u g] at(1) g by auto
qed

section \<open>Properties\<close>



text \<open>C16: an insertion of a new key into a leaf with room, at any depth of the tree, returns true and counts
  the pair; afterwards the key leads to it, and every other key that led to a leaf in order still finds
  what was stored under it.\<close>

theorem tree_insert_lookup:
  assumes "pool_inv {} {} b" "tree_stores (view b) (root_page_id t) key None"
    "FindLeaf t key b = Some (b1, leaf)" "leaf \<noteq> INVALID_PAGE_ID" "FetchPage leaf b1 = (b2, Some f)"
    "GetSize (page_at f b2) < GetMaxSize (page_at f b2)"
  shows "\<exists>b'. tree_Insert key rid (t, b) = Some (count_up t, b', True) \<and> pool_inv {} {} b' \<and> pins b' = pins b \<and>
    (\<forall>k s. tree_stores (view b) (root_page_id t) k s \<longrightarrow>
       tree_stores (view b') (root_page_id t) k (if k = key then Some rid else s))"
  by (rule tree_Insert_law [OF assms])

theorem tree_insert_lookup_witness:
  "\<exists>b. tree_Insert 7 (RID 8 1) (demo_tree, tree_pool) = Some (demo_tree\<lparr>tree_size := 3\<rparr>, b, True) \<and>
    tree_stores (view b) demo_page_id 7 (Some (RID 8 1)) \<and> tree_stores (view b) demo_page_id 5 (Some (RID 7 3))"
proof -
  have root: "root_page_id demo_tree = demo_page_id" "count_up demo_tree = demo_tree\<lparr>tree_size := 3\<rparr>"
    by (simp_all add: demo_tree_def count_up_def)
  obtain b1 b2 f where r: "FindLeaf demo_tree 7 tree_pool = Some (b1, demo_page_id)" "FetchPage demo_page_id b1 = (b2, Some f)"
    "page_at f b2 = two_leaf" using demo_tree_run [of 7] by blast
  have none: "tree_stores (view tree_pool) (root_page_id demo_tree) 7 None"
    using demo_tree_stores [of 7] by (simp add: root)
  have "GetSize (page_at f b2) < GetMaxSize (page_at f b2)" by (simp add: r(3) two_leaf_facts)
  from tree_insert_lookup [OF tree_pool_facts(1) none r(1) demo_page_id_valid r(2) this, of "RID 8 1"]
  obtain b where b: "tree_Insert 7 (RID 8 1) (demo_tree, tree_pool) = Some (count_up demo_tree, b, True)"
    "\<forall>k s. tree_stores (view tree_pool) (root_page_id demo_tree) k s \<longrightarrow>
       tree_stores (view b) (root_page_id demo_tree) k (if k = 7 then Some (RID 8 1) else s)" by blast
  have "tree_stores (view b) demo_page_id 7 (if (7 :: i64) = 7 then Some (RID 8 1) else None)"
    using b(2) none unfolding root by blast
  moreover have "tree_stores (view tree_pool) (root_page_id demo_tree) 5 (Some (RID 7 3))"
    using demo_tree_stores [of 5] by (simp add: root)
  then have "tree_stores (view b) demo_page_id 5 (if (5 :: i64) = 7 then Some (RID 8 1) else Some (RID 7 3))"
    using b(2) unfolding root by blast
  ultimately show ?thesis using b(1) by (auto simp: root)
qed



end
