(* ===== verification/Lock_Manager.thy ===== *)
theory Lock_Manager
  imports Rid "HOL-Library.AList"
begin

text \<open>
  The lock manager (common/lock_manager.h, sql/lock_manager.cpp): row locks, table locks, the
  waits-for graph and its depth-first search. An operation is one critical section. The state says
  whether \<open>row_mutex_\<close> is held, because \<open>LockRow\<close> calls the deadlock detection, which locks it again:
  locking a \<open>std::mutex\<close> that the same thread holds does not return, so the result is \<open>None\<close>.

  A condition variable hands the lock to other threads. What they do until the waiter runs again is
  an argument of the operations that wait, and so are the microseconds that pass.
\<close>

section \<open>Modes\<close>

datatype LockMode = SHARED | EXCLUSIVE | INTENTION_SHARED | INTENTION_EXCLUSIVE | SHARED_INTENTION_EXCLUSIVE

fun LockModeToString :: "LockMode \<Rightarrow> string" where
  "LockModeToString SHARED = ''S''"
| "LockModeToString EXCLUSIVE = ''X''"
| "LockModeToString INTENTION_SHARED = ''IS''"
| "LockModeToString INTENTION_EXCLUSIVE = ''IX''"
| "LockModeToString SHARED_INTENTION_EXCLUSIVE = ''SIX''"

fun ModesCompatible :: "LockMode \<Rightarrow> LockMode \<Rightarrow> bool" where
  "ModesCompatible SHARED requested \<longleftrightarrow> requested = SHARED \<or> requested = INTENTION_SHARED"
| "ModesCompatible EXCLUSIVE requested \<longleftrightarrow> False"
| "ModesCompatible INTENTION_SHARED requested \<longleftrightarrow> requested \<noteq> EXCLUSIVE"
| "ModesCompatible INTENTION_EXCLUSIVE requested \<longleftrightarrow> requested = INTENTION_SHARED \<or> requested = INTENTION_EXCLUSIVE"
| "ModesCompatible SHARED_INTENTION_EXCLUSIVE requested \<longleftrightarrow> requested = INTENTION_SHARED"

section \<open>State\<close>

record LockEntry =
  entry_mode :: LockMode
  entry_count :: int
  entry_txn :: i64
  waiting_txns :: "i64 list"

record TxnLockInfo =
  txn_rows :: "RID list"
  txn_tables :: "string list"

text \<open>The hash maps are association lists in the order of their iteration.\<close>

record lock_manager =
  row_mutex :: bool
  row_locks :: "(RID \<times> LockEntry) list"
  table_locks :: "(string \<times> LockEntry) list"
  txn_locks :: "(i64 \<times> TxnLockInfo) list"
  deadlock_count :: i64
  total_wait_time_us :: i64
  total_wait_count :: i64

definition LockManager :: lock_manager where
  "LockManager = \<lparr>row_mutex = False, row_locks = [], table_locks = [], txn_locks = [],
     deadlock_count = 0, total_wait_time_us = 0, total_wait_count = 0\<rparr>"

definition new_entry :: "LockMode \<Rightarrow> i64 \<Rightarrow> LockEntry" where
  "new_entry mode txn = \<lparr>entry_mode = mode, entry_count = 1, entry_txn = txn, waiting_txns = []\<rparr>"

definition default_entry :: LockEntry where
  "default_entry = \<lparr>entry_mode = SHARED, entry_count = 0, entry_txn = 0, waiting_txns = []\<rparr>"

text \<open>\<open>map[key]\<close> creates the entry when it is missing.\<close>

definition index_entry :: "'v \<Rightarrow> 'k \<Rightarrow> ('v \<Rightarrow> 'v) \<Rightarrow> ('k \<times> 'v) list \<Rightarrow> ('k \<times> 'v) list" where
  "index_entry dflt k f xs = AList.update k (f (case map_of xs k of None \<Rightarrow> dflt | Some v \<Rightarrow> v)) xs"

text \<open>Decrement the count and erase the entry when nothing is left.\<close>

definition drop_one :: "'k \<Rightarrow> LockEntry \<Rightarrow> ('k \<times> LockEntry) list \<Rightarrow> ('k \<times> LockEntry) list" where
  "drop_one k e xs =
     (let e = e\<lparr>entry_count := entry_count e - 1\<rparr>
      in if entry_count e \<le> 0 then AList.delete k xs else AList.update k e xs)"

section \<open>Tracking\<close>

definition RecordLockGrant :: "i64 \<Rightarrow> RID \<Rightarrow> lock_manager \<Rightarrow> lock_manager" where
  "RecordLockGrant txn_id rid s =
     (if txn_id = 0 then s
      else s\<lparr>txn_locks := index_entry \<lparr>txn_rows = [], txn_tables = []\<rparr> txn_id
                 (\<lambda>t. t\<lparr>txn_rows := txn_rows t @ [rid]\<rparr>) (txn_locks s)\<rparr>)"

definition RecordTableLockGrant :: "i64 \<Rightarrow> string \<Rightarrow> lock_manager \<Rightarrow> lock_manager" where
  "RecordTableLockGrant txn_id name s =
     (if txn_id = 0 then s
      else s\<lparr>txn_locks := index_entry \<lparr>txn_rows = [], txn_tables = []\<rparr> txn_id
                 (\<lambda>t. t\<lparr>txn_tables := txn_tables t @ [name]\<rparr>) (txn_locks s)\<rparr>)"

definition RecordLockRelease :: "i64 \<Rightarrow> RID \<Rightarrow> lock_manager \<Rightarrow> lock_manager" where
  "RecordLockRelease txn_id rid s =
     (if txn_id = 0 then s
      else case map_of (txn_locks s) txn_id of
        None \<Rightarrow> s
      | Some t \<Rightarrow> s\<lparr>txn_locks := AList.update txn_id (t\<lparr>txn_rows := removeAll rid (txn_rows t)\<rparr>) (txn_locks s)\<rparr>)"

definition RecordTableLockRelease :: "i64 \<Rightarrow> string \<Rightarrow> lock_manager \<Rightarrow> lock_manager" where
  "RecordTableLockRelease txn_id name s =
     (if txn_id = 0 then s
      else case map_of (txn_locks s) txn_id of
        None \<Rightarrow> s
      | Some t \<Rightarrow> s\<lparr>txn_locks := AList.update txn_id (t\<lparr>txn_tables := removeAll name (txn_tables t)\<rparr>) (txn_locks s)\<rparr>)"

section \<open>Deadlock detection\<close>

type_synonym graph = "(i64 \<times> i64 list) list"

definition neighbours :: "graph \<Rightarrow> i64 \<Rightarrow> i64 list" where
  "neighbours g v = (case map_of g v of None \<Rightarrow> [] | Some ws \<Rightarrow> ws)"

text \<open>The edges of one lock: from every waiter to the owner.\<close>

definition entry_edges :: "LockEntry \<Rightarrow> graph \<Rightarrow> graph" where
  "entry_edges e g =
     (if entry_txn e \<noteq> 0 then fold (\<lambda>waiter. index_entry [] waiter (\<lambda>ws. ws @ [entry_txn e])) (waiting_txns e) g else g)"

definition build_graph :: "(RID \<times> LockEntry) list \<Rightarrow> graph" where
  "build_graph locks = fold (\<lambda>(r, e). entry_edges e) locks []"

datatype colour = White | Gray | Black

type_synonym colouring = "i64 \<Rightarrow> colour"

text \<open>
  The loop of \<open>dfs\<close> over the neighbours of a node, with the recursive call for the white ones. The
  first argument bounds the depth of the recursion; with one more than the number of nodes that have
  edges the bound is never reached. Reading \<open>graph[node]\<close> also inserts an empty list for a node without
  edges; lookups do not see the difference.
\<close>

fun dfs_loop :: "nat \<Rightarrow> graph \<Rightarrow> i64 list \<Rightarrow> colouring \<Rightarrow> (bool \<times> colouring) option" where
  "dfs_loop n g [] color = Some (False, color)"
| "dfs_loop 0 g (v # vs) color = (if color v = White then None else if color v = Gray then Some (True, color) else dfs_loop 0 g vs color)"
| "dfs_loop (Suc n) g (v # vs) color =
     (if color v = White then
        (case dfs_loop n g (neighbours g v) (color(v := Gray)) of
           None \<Rightarrow> None
         | Some (True, color) \<Rightarrow> Some (True, color)
         | Some (False, color) \<Rightarrow> dfs_loop (Suc n) g vs (color(v := Black)))
      else if color v = Gray then Some (True, color)
      else dfs_loop (Suc n) g vs color)"

definition dfs :: "nat \<Rightarrow> graph \<Rightarrow> i64 \<Rightarrow> colouring \<Rightarrow> (bool \<times> colouring) option" where
  "dfs n g v color =
     (case dfs_loop n g (neighbours g v) (color(v := Gray)) of
        None \<Rightarrow> None
      | Some (True, color) \<Rightarrow> Some (True, color)
      | Some (False, color) \<Rightarrow> Some (False, color(v := Black)))"

fun check_nodes :: "nat \<Rightarrow> graph \<Rightarrow> i64 list \<Rightarrow> colouring \<Rightarrow> bool option" where
  "check_nodes n g [] color = Some False"
| "check_nodes n g (v # vs) color =
     (if color v = White then
        (case dfs n g v color of
           None \<Rightarrow> None
         | Some (True, color) \<Rightarrow> Some True
         | Some (False, color) \<Rightarrow> check_nodes n g vs color)
      else check_nodes n g vs color)"

definition has_cycle :: "graph \<Rightarrow> bool option" where
  "has_cycle g = check_nodes (Suc (length g)) g (List.map fst g) (\<lambda>_. White)"

text \<open>The graph is built under \<open>row_mutex_\<close>.\<close>

definition DetectDeadlock :: "i64 \<Rightarrow> lock_manager \<Rightarrow> bool option" where
  "DetectDeadlock requesting_txn s = (if row_mutex s then None else has_cycle (build_graph (row_locks s)))"

definition WouldDeadlock :: "i64 \<Rightarrow> RID \<Rightarrow> LockMode \<Rightarrow> lock_manager \<Rightarrow> bool option" where
  "WouldDeadlock txn_id rid mode s = DetectDeadlock txn_id s"

section \<open>Row locks\<close>

text \<open>Waiting on a condition variable with a timeout (negative: none) for a predicate: the state when the
  thread runs again, and whether the predicate held then.\<close>

record environment =
  wait_until :: "int \<Rightarrow> (lock_manager \<Rightarrow> bool) \<Rightarrow> lock_manager \<Rightarrow> lock_manager \<times> bool"
  wait_us :: i64

definition row_grantable :: "RID \<Rightarrow> LockMode \<Rightarrow> lock_manager \<Rightarrow> bool" where
  "row_grantable rid mode s =
     (case map_of (row_locks s) rid of
        None \<Rightarrow> True
      | Some e \<Rightarrow> ModesCompatible (entry_mode e) mode \<and> (mode = SHARED \<or> entry_count e = 0))"

definition forget_waiter :: "i64 \<Rightarrow> LockEntry \<Rightarrow> LockEntry" where
  "forget_waiter txn e = e\<lparr>waiting_txns := removeAll txn (waiting_txns e)\<rparr>"

definition grant_row :: "i64 \<Rightarrow> RID \<Rightarrow> LockMode \<Rightarrow> lock_manager \<Rightarrow> lock_manager" where
  "grant_row txn_id rid mode s =
     (let s = (case map_of (row_locks s) rid of
                 None \<Rightarrow> s\<lparr>row_locks := AList.update rid (new_entry mode txn_id) (row_locks s)\<rparr>
               | Some e \<Rightarrow> s\<lparr>row_locks := AList.update rid (e\<lparr>entry_count := entry_count e + 1\<rparr>) (row_locks s)\<rparr>)
      in RecordLockGrant txn_id rid s)"

text \<open>The part of \<open>LockRow\<close> behind the deadlock detection, entered and left with the mutex held.\<close>

definition wait_for_row :: "environment \<Rightarrow> i64 \<Rightarrow> RID \<Rightarrow> LockMode \<Rightarrow> int \<Rightarrow> lock_manager \<Rightarrow> lock_manager \<times> bool" where
  "wait_for_row env txn_id rid mode timeout_ms s =
     (let s = s\<lparr>total_wait_count := total_wait_count s + 1\<rparr> in
      if timeout_ms = 0 then (s, False)
      else
        let s = s\<lparr>row_locks := index_entry default_entry rid (\<lambda>e. e\<lparr>waiting_txns := waiting_txns e @ [txn_id]\<rparr>) (row_locks s)\<rparr>;
            (s, held) = wait_until env timeout_ms (row_grantable rid mode) s;
            granted = (timeout_ms < 0 \<or> held);
            locks = (if timeout_ms < 0 then index_entry default_entry rid (forget_waiter txn_id) (row_locks s)
                     else case map_of (row_locks s) rid of
                       None \<Rightarrow> row_locks s
                     | Some e \<Rightarrow> AList.update rid (forget_waiter txn_id e) (row_locks s));
            s = s\<lparr>row_locks := locks, total_wait_time_us := total_wait_time_us s + wait_us env\<rparr>
        in if granted then (grant_row txn_id rid mode s, True) else (s, False))"

definition release_mutex :: "lock_manager \<Rightarrow> lock_manager" where
  "release_mutex s = s\<lparr>row_mutex := False\<rparr>"

text \<open>The calling transaction is always 0.\<close>

definition LockRow :: "environment \<Rightarrow> RID \<Rightarrow> LockMode \<Rightarrow> int \<Rightarrow> lock_manager \<Rightarrow> (lock_manager \<times> bool) option" where
  "LockRow env rid mode timeout_ms s =
     (if row_mutex s then None
      else
        let txn_id = 0; s = s\<lparr>row_mutex := True\<rparr> in
        case map_of (row_locks s) rid of
          None \<Rightarrow> Some (release_mutex (grant_row txn_id rid mode s), True)
        | Some e \<Rightarrow>
            if ModesCompatible (entry_mode e) mode \<and> mode = SHARED \<and> entry_mode e = SHARED
            then Some (release_mutex (grant_row txn_id rid mode s), True)
            else
              case WouldDeadlock txn_id rid mode s of
                None \<Rightarrow> None
              | Some True \<Rightarrow> Some (release_mutex (s\<lparr>deadlock_count := deadlock_count s + 1\<rparr>), False)
              | Some False \<Rightarrow>
                  (let (s, granted) = wait_for_row env txn_id rid mode timeout_ms s in Some (release_mutex s, granted)))"

definition UnlockRow :: "RID \<Rightarrow> lock_manager \<Rightarrow> (lock_manager \<times> bool) option" where
  "UnlockRow rid s =
     (if row_mutex s then None
      else case map_of (row_locks s) rid of
        None \<Rightarrow> Some (s, False)
      | Some e \<Rightarrow> Some (RecordLockRelease 0 rid (s\<lparr>row_locks := drop_one rid e (row_locks s)\<rparr>), True))"

section \<open>Table locks\<close>

definition table_grantable :: "string \<Rightarrow> LockMode \<Rightarrow> lock_manager \<Rightarrow> bool" where
  "table_grantable name mode s =
     (case map_of (table_locks s) name of None \<Rightarrow> True | Some e \<Rightarrow> ModesCompatible (entry_mode e) mode)"

text \<open>The first holder sets the mode of the entry, later ones only its count.\<close>

definition grant_table :: "i64 \<Rightarrow> string \<Rightarrow> LockMode \<Rightarrow> lock_manager \<Rightarrow> lock_manager" where
  "grant_table txn_id name mode s =
     (let s = (case map_of (table_locks s) name of
                 None \<Rightarrow> s\<lparr>table_locks := AList.update name (new_entry mode txn_id) (table_locks s)\<rparr>
               | Some e \<Rightarrow> s\<lparr>table_locks := AList.update name (e\<lparr>entry_count := entry_count e + 1\<rparr>) (table_locks s)\<rparr>)
      in RecordTableLockGrant txn_id name s)"

definition LockTable :: "environment \<Rightarrow> string \<Rightarrow> LockMode \<Rightarrow> int \<Rightarrow> lock_manager \<Rightarrow> lock_manager \<times> bool" where
  "LockTable env name mode timeout_ms s =
     (if table_grantable name mode s then (grant_table 0 name mode s, True)
      else
        let s = s\<lparr>total_wait_count := total_wait_count s + 1\<rparr>;
            (s, held) = (if timeout_ms = 0 then (s, False) else wait_until env timeout_ms (table_grantable name mode) s);
            granted = (timeout_ms < 0 \<or> held);
            s = s\<lparr>total_wait_time_us := total_wait_time_us s + wait_us env\<rparr>
        in if granted then (grant_table 0 name mode s, True) else (s, False))"

definition UnlockTable :: "string \<Rightarrow> lock_manager \<Rightarrow> lock_manager \<times> bool" where
  "UnlockTable name s =
     (case map_of (table_locks s) name of
        None \<Rightarrow> (s, False)
      | Some e \<Rightarrow> (RecordTableLockRelease 0 name (s\<lparr>table_locks := drop_one name e (table_locks s)\<rparr>), True))"

section \<open>Bulk release and statistics\<close>

definition drop_held :: "'k \<Rightarrow> ('k \<times> LockEntry) list \<Rightarrow> ('k \<times> LockEntry) list" where
  "drop_held k xs = (case map_of xs k of None \<Rightarrow> xs | Some e \<Rightarrow> drop_one k e xs)"

definition ReleaseAllLocks :: "i64 \<Rightarrow> lock_manager \<Rightarrow> lock_manager option" where
  "ReleaseAllLocks txn_id s =
     (if row_mutex s then None
      else case map_of (txn_locks s) txn_id of
        None \<Rightarrow> Some s
      | Some t \<Rightarrow> Some (s\<lparr>row_locks := fold drop_held (txn_rows t) (row_locks s),
                     table_locks := fold drop_held (txn_tables t) (table_locks s),
                     txn_locks := AList.delete txn_id (txn_locks s)\<rparr>))"

definition GetRowLockCount :: "lock_manager \<Rightarrow> nat" where
  "GetRowLockCount s = length (row_locks s)"

definition GetTableLockCount :: "lock_manager \<Rightarrow> nat" where
  "GetTableLockCount s = length (table_locks s)"

definition GetLockCount :: "lock_manager \<Rightarrow> nat" where
  "GetLockCount s = GetRowLockCount s + GetTableLockCount s"

end
