(* ===== verification/Lock_Props.thy ===== *)
theory Lock_Props
  imports Lock_Manager "HOL-Library.Multiset"
begin

text \<open>
  Correctness of the lock manager: the depth-first search finds a cycle exactly when the waits-for
  relation has one, what \<open>LockRow\<close> does on every branch, and what the table locks do not exclude.
\<close>

section \<open>The waits-for relation\<close>









section \<open>The search\<close>

definition grays :: "colouring \<Rightarrow> i64 set" where "grays c = {v. c v = Gray}"
definition blacks :: "colouring \<Rightarrow> i64 set" where "blacks c = {v. c v = Black}"

lemma colour_upd [simp]:
  "grays (c(v := Gray)) = insert v (grays c)" "grays (c(v := Black)) = grays c - {v}"
  "blacks (c(v := Black)) = insert v (blacks c)" "blacks (c(v := Gray)) = blacks c - {v}"
  by (auto simp: grays_def blacks_def)

lemmas colour_upd_raw [simp] = colour_upd [unfolded fun_upd_def]














section \<open>Row locks\<close>

lemma drop_one_map:
  "map_of (drop_one k e xs) = (if entry_count e \<le> 1 then (map_of xs)(k := None)
     else (map_of xs)(k \<mapsto> e\<lparr>entry_count := entry_count e - 1\<rparr>))"
  by (simp add: drop_one_def Let_def delete_conv' update_conv')

lemma grant_row_map:
  "map_of (row_locks (grant_row 0 rid mode s)) = (map_of (row_locks s))(rid \<mapsto>
     (case map_of (row_locks s) rid of None \<Rightarrow> new_entry mode 0 | Some e \<Rightarrow> e\<lparr>entry_count := entry_count e + 1\<rparr>))"
  "row_mutex (grant_row 0 rid mode s) = row_mutex s"
  by (simp_all add: grant_row_def RecordLockGrant_def Let_def update_conv' split: option.split)

lemma grant_row_mutex:
  "\<not> row_mutex s \<Longrightarrow> release_mutex (grant_row 0 rid mode (s\<lparr>row_mutex := True\<rparr>)) = grant_row 0 rid mode s"
  by (simp add: grant_row_def RecordLockGrant_def release_mutex_def Let_def split: option.split)

text \<open>What \<open>LockRow\<close> does: a free row and a shared lock on a shared row are granted at once; every other
  request locks the mutex a second time and does not return.\<close>

lemma LockRow_law:
  assumes "\<not> row_mutex s"
  shows "LockRow env rid mode timeout_ms s =
    (case map_of (row_locks s) rid of
       None \<Rightarrow> Some (grant_row 0 rid mode s, True)
     | Some e \<Rightarrow> if mode = SHARED \<and> entry_mode e = SHARED then Some (grant_row 0 rid mode s, True) else None)"
  using assms grant_row_mutex [OF assms]
  by (auto simp: LockRow_def Let_def WouldDeadlock_def DetectDeadlock_def split: option.split)

text \<open>
  Clients of the row locks: \<open>held rid\<close> is the multiset of modes that calls of \<open>LockRow\<close> have been granted
  on the row and that have not been given back. A client unlocks only what it holds.
\<close>

inductive row_run :: "lock_manager \<Rightarrow> (RID \<Rightarrow> LockMode multiset) \<Rightarrow> bool" where
  start: "row_run LockManager (\<lambda>_. {#})"
| granted: "row_run s held \<Longrightarrow> LockRow env rid mode timeout_ms s = Some (s', True) \<Longrightarrow>
    row_run s' (held(rid := add_mset mode (held rid)))"
| refused: "row_run s held \<Longrightarrow> LockRow env rid mode timeout_ms s = Some (s', False) \<Longrightarrow> row_run s' held"
| released: "row_run s held \<Longrightarrow> mode \<in># held rid \<Longrightarrow> UnlockRow rid s = Some (s', ok) \<Longrightarrow>
    row_run s' (held(rid := held rid - {#mode#}))"

definition row_ok :: "LockEntry option \<Rightarrow> LockMode multiset \<Rightarrow> bool" where
  "row_ok entry M =
     (case entry of
        None \<Rightarrow> M = {#}
      | Some e \<Rightarrow> 0 < entry_count e \<and> M = replicate_mset (nat (entry_count e)) (entry_mode e) \<and>
          (entry_mode e = SHARED \<or> entry_count e = 1))"

definition rows_match :: "lock_manager \<Rightarrow> (RID \<Rightarrow> LockMode multiset) \<Rightarrow> bool" where
  "rows_match s held \<longleftrightarrow> \<not> row_mutex s \<and> (\<forall>rid. row_ok (map_of (row_locks s) rid) (held rid))"

lemma rows_matchD:
  assumes "rows_match s held"
  shows "\<not> row_mutex s" "row_ok (map_of (row_locks s) rid) (held rid)"
  using assms by (simp_all add: rows_match_def)

lemma rows_match_granted:
  assumes "rows_match s held" "LockRow env rid mode timeout_ms s = Some (s', ok)"
  shows "ok \<and> rows_match s' (held(rid := add_mset mode (held rid)))"
proof -
  note D = rows_matchD(1) [OF assms(1)] rows_matchD(2) [OF assms(1), of rid]
  have s': "s' = grant_row 0 rid mode s" "ok"
    and m: "\<And>e. map_of (row_locks s) rid = Some e \<Longrightarrow> mode = SHARED \<and> entry_mode e = SHARED"
    using assms(2) unfolding LockRow_law [OF D(1)] by (auto split: option.splits if_splits)
  have "row_ok (map_of (row_locks s') rid) (add_mset mode (held rid))"
  proof (cases "map_of (row_locks s) rid")
    case None
    then show ?thesis using D(2) by (simp add: s'(1) grant_row_map row_ok_def new_entry_def)
  next
    case (Some e)
    then have "0 < entry_count e" using D(2) by (simp add: row_ok_def)
    then have "nat (entry_count e + 1) = Suc (nat (entry_count e))" by simp
    then show ?thesis using Some D(2) m [OF Some] by (simp add: s'(1) grant_row_map row_ok_def)
  qed
  then show ?thesis using assms(1) s'(2) by (simp add: rows_match_def s'(1) grant_row_map)
qed

lemma rows_match_released:
  assumes "rows_match s held" "mode \<in># held rid" "UnlockRow rid s = Some (s', ok)"
  shows "rows_match s' (held(rid := held rid - {#mode#}))"
proof -
  note D = rows_matchD(1) [OF assms(1)] rows_matchD(2) [OF assms(1), of rid]
  obtain e where e: "map_of (row_locks s) rid = Some e" using D(2) assms(2) by (auto simp: row_ok_def split: option.splits)
  have s': "map_of (row_locks s') = map_of (drop_one rid e (row_locks s))" "\<not> row_mutex s'"
    using assms(3) e D(1) by (auto simp: UnlockRow_def RecordLockRelease_def)
  have c: "0 < entry_count e" "held rid = replicate_mset (nat (entry_count e)) (entry_mode e)"
    "entry_mode e = SHARED \<or> entry_count e = 1" using D(2) e by (simp_all add: row_ok_def)
  have m: "mode = entry_mode e" using assms(2) c(2) by (auto split: if_splits)
  have "nat (entry_count e) = Suc (nat (entry_count e - 1))" using c(1) by simp
  then have "held rid - {#mode#} = replicate_mset (nat (entry_count e - 1)) (entry_mode e)" using c(2) m by simp
  then have "row_ok (map_of (row_locks s') rid) (held rid - {#mode#})"
    using c(1,3) by (cases "entry_count e \<le> 1") (auto simp: s'(1) drop_one_map row_ok_def)
  moreover have "map_of (row_locks s') x = map_of (row_locks s) x" if "x \<noteq> rid" for x
    using that by (simp add: s'(1) drop_one_map)
  ultimately show ?thesis using assms(1) s'(2) by (simp add: rows_match_def)
qed

lemma row_run_match: "row_run s held \<Longrightarrow> rows_match s held"
proof (induction rule: row_run.induct)
  case start
  then show ?case by (simp add: rows_match_def LockManager_def row_ok_def)
next
  case (granted s held env rid mode timeout_ms s')
  then show ?case using rows_match_granted by blast
next
  case (refused s held env rid mode timeout_ms s')
  then show ?case using rows_match_granted by blast
next
  case (released s held mode rid s' ok)
  then show ?case using rows_match_released by blast
qed

section \<open>Table locks\<close>

lemma table_grant:
  "table_grantable name mode s \<Longrightarrow> \<exists>s'. LockTable env name mode timeout_ms s = (s', True) \<and>
     (\<exists>e. map_of (table_locks s') name = Some e \<and> entry_mode e =
        (case map_of (table_locks s) name of None \<Rightarrow> mode | Some e \<Rightarrow> entry_mode e))"
  by (simp add: LockTable_def grant_table_def RecordTableLockGrant_def Let_def update_conv new_entry_def split: option.split)

lemma LockTable_intention_law:
  assumes "map_of (table_locks s) name = None"
  shows "\<exists>s1 s2 s3. LockTable env name INTENTION_SHARED timeout_ms s = (s1, True) \<and>
    LockTable env name SHARED_INTENTION_EXCLUSIVE timeout_ms s1 = (s2, True) \<and>
    LockTable env name SHARED_INTENTION_EXCLUSIVE timeout_ms s2 = (s3, True)"
proof -
  have "table_grantable name INTENTION_SHARED s" using assms by (simp add: table_grantable_def)
  from table_grant [OF this, of env timeout_ms] assms obtain s1 e1 where
    s1: "LockTable env name INTENTION_SHARED timeout_ms s = (s1, True)" "map_of (table_locks s1) name = Some e1"
      "entry_mode e1 = INTENTION_SHARED" by auto
  then have "table_grantable name SHARED_INTENTION_EXCLUSIVE s1" by (simp add: table_grantable_def)
  from table_grant [OF this, of env timeout_ms] s1 obtain s2 e2 where
    s2: "LockTable env name SHARED_INTENTION_EXCLUSIVE timeout_ms s1 = (s2, True)" "map_of (table_locks s2) name = Some e2"
      "entry_mode e2 = INTENTION_SHARED" by auto
  then have "table_grantable name SHARED_INTENTION_EXCLUSIVE s2" by (simp add: table_grantable_def)
  from table_grant [OF this, of env timeout_ms] s1(1) s2(1) show ?thesis by blast
qed

section \<open>Properties\<close>


text \<open>C19: whatever calls of \<open>LockRow\<close> and \<open>UnlockRow\<close> clients make, two locks held on the same row are
  compatible.\<close>

theorem row_locks_exclusive:
  assumes "row_run s held" "{#m, m'#} \<subseteq># held rid"
  shows "ModesCompatible m m'"
proof -
  note M = row_run_match [OF assms(1)]
  note R = rows_matchD(2) [OF M, of rid]
  obtain e where e: "map_of (row_locks s) rid = Some e"
    using R assms(2) by (cases "map_of (row_locks s) rid") (auto simp: row_ok_def)
  have D: "0 < entry_count e \<and> held rid = replicate_mset (nat (entry_count e)) (entry_mode e) \<and>
      (entry_mode e = SHARED \<or> entry_count e = 1)" using R e by (simp add: row_ok_def)
  have "m \<in># held rid" "m' \<in># held rid" using assms(2) by (auto dest: mset_subset_eqD)
  then have "m = entry_mode e" "m' = entry_mode e" using D by (auto split: if_splits)
  moreover have "2 \<le> nat (entry_count e)" using size_mset_mono [OF assms(2)] D by simp
  then have "entry_mode e = SHARED" using D by auto
  ultimately show ?thesis by simp
qed

definition no_wait :: environment where
  "no_wait = \<lparr>wait_until = (\<lambda>timeout_ms p s. (s, p s)), wait_us = 0\<rparr>"

theorem row_locks_exclusive_witness:
  "\<exists>s. row_run s (\<lambda>rid. if rid = RID 1 1 then {#SHARED, SHARED#} else {#}) \<and> ModesCompatible SHARED SHARED"
proof -
  let ?s1 = "grant_row 0 (RID 1 1) SHARED LockManager" and ?h1 = "(\<lambda>_. {#})(RID 1 1 := {#SHARED#})"
  have s1: "LockRow no_wait (RID 1 1) SHARED 0 LockManager = Some (?s1, True)"
    by (simp add: LockRow_law LockManager_def)
  have r1: "row_run ?s1 ?h1" using row_run.granted [OF row_run.start s1] by simp
  have "LockRow no_wait (RID 1 1) SHARED 0 ?s1 = Some (grant_row 0 (RID 1 1) SHARED ?s1, True)"
    by (subst LockRow_law) (simp_all add: grant_row_map LockManager_def new_entry_def)
  from row_run.granted [OF r1 this]
  have r2: "row_run (grant_row 0 (RID 1 1) SHARED ?s1) (\<lambda>rid. if rid = RID 1 1 then {#SHARED, SHARED#} else {#})"
    by (simp add: fun_upd_def cong: if_cong)
  moreover have "ModesCompatible SHARED SHARED" using row_locks_exclusive [OF r2, of SHARED SHARED "RID 1 1"] by simp
  ultimately show ?thesis by blast
qed

text \<open>a request for a row lock that is not granted at once never returns, whatever its timeout: \<open>LockRow\<close>
  holds the mutex that the deadlock detection locks again.\<close>

theorem lock_row_conflict_hangs:
  assumes "\<not> row_mutex s" "map_of (row_locks s) rid = Some e" "mode \<noteq> SHARED \<or> entry_mode e \<noteq> SHARED"
  shows "LockRow env rid mode timeout_ms s = None"
  using assms LockRow_law [OF assms(1), of env rid mode timeout_ms] by auto

theorem lock_row_conflict_hangs_witness:
  "LockRow no_wait (RID 1 1) EXCLUSIVE 0 (grant_row 0 (RID 1 1) EXCLUSIVE LockManager) = None"
  by (rule lock_row_conflict_hangs [of _ _ "new_entry EXCLUSIVE 0"])
    (simp_all add: grant_row_map LockManager_def new_entry_def)

text \<open>table locks do not exclude conflicting holders. The entry keeps the mode of its first holder, so
  after one IS lock on a free table two SIX locks are both granted, at once and for any timeout, although
  SIX is not compatible with SIX.\<close>

theorem lock_table_grants_conflict:
  assumes "map_of (table_locks s) name = None"
  shows "\<not> ModesCompatible SHARED_INTENTION_EXCLUSIVE SHARED_INTENTION_EXCLUSIVE \<and>
    (\<exists>s1 s2 s3. LockTable env name INTENTION_SHARED timeout_ms s = (s1, True) \<and>
      LockTable env name SHARED_INTENTION_EXCLUSIVE timeout_ms s1 = (s2, True) \<and>
      LockTable env name SHARED_INTENTION_EXCLUSIVE timeout_ms s2 = (s3, True))"
  using LockTable_intention_law [OF assms] by simp

theorem lock_table_grants_conflict_witness:
  "\<exists>s1 s2 s3. LockTable no_wait ''t'' INTENTION_SHARED 0 LockManager = (s1, True) \<and>
    LockTable no_wait ''t'' SHARED_INTENTION_EXCLUSIVE 0 s1 = (s2, True) \<and>
    LockTable no_wait ''t'' SHARED_INTENTION_EXCLUSIVE 0 s2 = (s3, True)"
  using lock_table_grants_conflict [of LockManager "''t''" no_wait 0] by (simp add: LockManager_def)

end
