(* ===== verification/Catalogs.thy ===== *)
theory Catalogs
  imports Schemas
begin

text \<open>
  The catalog (catalog/catalog.h and .cpp): databases, tables, indexes and foreign keys. A
  \<open>std::map\<close> is an association list in the order of its keys, which is the order of its iteration. The
  handles of heaps and index objects that other components put into the entries are not modelled, nor
  are the log messages; a pointer to an entry is the entry.
\<close>

section \<open>Ordered maps\<close>

type_synonym 'v dir_map = "(str \<times> 'v) list"

fun map_put :: "str \<Rightarrow> 'v \<Rightarrow> 'v dir_map \<Rightarrow> 'v dir_map" where
  "map_put k v [] = [(k, v)]"
| "map_put k v ((k', v') # xs) =
     (if k = k' then (k, v) # xs else if str_less k k' then (k, v) # (k', v') # xs else (k', v') # map_put k v xs)"

definition map_erase :: "str \<Rightarrow> 'v dir_map \<Rightarrow> 'v dir_map" where
  "map_erase k xs = filter (\<lambda>e. fst e \<noteq> k) xs"

section \<open>Entries\<close>

datatype FkAction = CASCADE | RESTRICT | SET_NULL

record ForeignKeyInfo =
  parent_table :: str
  parent_column :: str
  child_table :: str
  child_column :: str
  on_delete :: FkAction

datatype IndexType = BTREE | HASH

record IndexInfo =
  index_name :: str
  index_table :: str
  index_column :: str
  index_type :: IndexType
  root_or_directory_page_id :: i32

record TableInfo =
  table_name :: str
  table_schema :: schema
  file_path :: str
  table_root_page_id :: i32
  indexes :: "IndexInfo list"
  foreign_keys :: "ForeignKeyInfo list"

record DatabaseInfo =
  database_name :: str
  tables :: "TableInfo dir_map"

record catalog =
  default_db :: str
  databases :: "DatabaseInfo dir_map"

definition DEFAULT_DATABASE :: str where "DEFAULT_DATABASE = ascii ''goods_db''"

section \<open>Databases\<close>

definition NormalizeName :: "str \<Rightarrow> str" where
  "NormalizeName name = map (\<lambda>c. if 65 \<le> c \<and> c \<le> 90 then c + 32 else c) name"

abbreviation default_key :: "catalog \<Rightarrow> str" where
  "default_key c \<equiv> NormalizeName (default_db c)"

definition GetOrCreateDefaultDB :: "catalog \<Rightarrow> catalog" where
  "GetOrCreateDefaultDB c =
     (case map_of (databases c) (default_key c) of
        None \<Rightarrow> c\<lparr>databases := map_put (default_key c) \<lparr>database_name = default_db c, tables = []\<rparr> (databases c)\<rparr>
      | Some _ \<Rightarrow> c)"

definition Catalog :: catalog where
  "Catalog = GetOrCreateDefaultDB \<lparr>default_db = DEFAULT_DATABASE, databases = []\<rparr>"

definition CreateDatabase :: "str \<Rightarrow> bool \<Rightarrow> catalog \<Rightarrow> catalog \<times> bool" where
  "CreateDatabase name if_not_exists c =
     (let key = NormalizeName name in
      if map_of (databases c) key \<noteq> None then (c, if_not_exists)
      else (c\<lparr>databases := map_put key \<lparr>database_name = name, tables = []\<rparr> (databases c)\<rparr>, True))"

definition DropDatabase :: "str \<Rightarrow> bool \<Rightarrow> catalog \<Rightarrow> catalog \<times> bool" where
  "DropDatabase name if_exists c =
     (let key = NormalizeName name in
      if map_of (databases c) key = None then (c, if_exists)
      else if key = default_key c then (c, False)
      else (c\<lparr>databases := map_erase key (databases c)\<rparr>, True))"

definition DatabaseExists :: "str \<Rightarrow> catalog \<Rightarrow> bool" where
  "DatabaseExists name c \<longleftrightarrow> map_of (databases c) (NormalizeName name) \<noteq> None"

definition ListDatabases :: "catalog \<Rightarrow> str list" where
  "ListDatabases c = map (\<lambda>(key, info). database_name info) (databases c)"

section \<open>Tables\<close>

text \<open>The tables of the default database, and a change of them.\<close>

definition default_tables :: "catalog \<Rightarrow> TableInfo dir_map" where
  "default_tables c = (case map_of (databases c) (default_key c) of None \<Rightarrow> [] | Some db \<Rightarrow> tables db)"

text \<open>The entry of a database gets other tables.\<close>

definition with_tables :: "str \<Rightarrow> (TableInfo dir_map \<Rightarrow> TableInfo dir_map) \<Rightarrow> catalog \<Rightarrow> catalog" where
  "with_tables key f c =
     c\<lparr>databases := map (\<lambda>(k, db). (k, if k = key then db\<lparr>tables := f (tables db)\<rparr> else db)) (databases c)\<rparr>"

definition change_entry :: "str \<Rightarrow> (TableInfo \<Rightarrow> TableInfo) \<Rightarrow> TableInfo dir_map \<Rightarrow> TableInfo dir_map" where
  "change_entry name f = map (\<lambda>(n, t). (n, if n = name then f t else t))"

definition new_table :: "str \<Rightarrow> schema \<Rightarrow> str \<Rightarrow> i32 \<Rightarrow> TableInfo" where
  "new_table name s path root =
     \<lparr>table_name = name, table_schema = s, file_path = path, table_root_page_id = root, indexes = [], foreign_keys = []\<rparr>"

definition CreateTable :: "str \<Rightarrow> schema \<Rightarrow> str \<Rightarrow> i32 \<Rightarrow> catalog \<Rightarrow> catalog \<times> bool" where
  "CreateTable name s path root c =
     (let c = GetOrCreateDefaultDB c in
      if map_of (default_tables c) name \<noteq> None then (c, False)
      else (with_tables (default_key c) (map_put name (new_table name s path root)) c, True))"

text \<open>The loop over the databases for one that has the table: its key and the entry.\<close>

fun search_databases :: "str \<Rightarrow> DatabaseInfo dir_map \<Rightarrow> (str \<times> TableInfo) option" where
  "search_databases name [] = None"
| "search_databases name ((key, db) # dbs) =
     (case map_of (tables db) name of
        Some t \<Rightarrow> Some (key, t)
      | None \<Rightarrow> search_databases name dbs)"

definition GetTable :: "str \<Rightarrow> catalog \<Rightarrow> catalog \<times> TableInfo option" where
  "GetTable name c =
     (let c = GetOrCreateDefaultDB c in
      case map_of (default_tables c) name of
        Some t \<Rightarrow> (c, Some t)
      | None \<Rightarrow>
          (c, map_option snd (search_databases name (filter (\<lambda>(key, db). key \<noteq> default_key c) (databases c)))))"

definition TableExists :: "str \<Rightarrow> catalog \<Rightarrow> bool" where
  "TableExists name c \<longleftrightarrow> map_of (default_tables c) name \<noteq> None"

definition DropTable :: "str \<Rightarrow> catalog \<Rightarrow> catalog \<times> bool" where
  "DropTable name c =
     (let c = GetOrCreateDefaultDB c in
      case map_of (default_tables c) name of
        Some _ \<Rightarrow> (with_tables (default_key c) (map_erase name) c, True)
      | None \<Rightarrow>
          (case search_databases name (databases c) of
             None \<Rightarrow> (c, False)
           | Some (key, _) \<Rightarrow> (with_tables key (map_erase name) c, True)))"

definition ListTables :: "catalog \<Rightarrow> str list" where
  "ListTables c = map fst (default_tables c)"

definition GetAllTables :: "catalog \<Rightarrow> TableInfo list" where
  "GetAllTables c = concat (map (\<lambda>(key, db). map snd (tables db)) (databases c))"

section \<open>Indexes\<close>

definition CreateIndex :: "str \<Rightarrow> str \<Rightarrow> str \<Rightarrow> IndexType \<Rightarrow> i32 \<Rightarrow> catalog \<Rightarrow> catalog \<times> bool" where
  "CreateIndex name tbl col typ root c =
     (case search_databases tbl (databases c) of
        None \<Rightarrow> (c, False)
      | Some (key, t) \<Rightarrow>
          if \<exists>idx \<in> set (indexes t). index_name idx = name then (c, False)
          else
            let idx = \<lparr>index_name = name, index_table = tbl, index_column = col, index_type = typ,
                       root_or_directory_page_id = root\<rparr>
            in (with_tables key (change_entry tbl (\<lambda>t. t\<lparr>indexes := indexes t @ [idx]\<rparr>)) c, True))"

definition GetIndex :: "str \<Rightarrow> catalog \<Rightarrow> IndexInfo option" where
  "GetIndex name c = List.find (\<lambda>idx. index_name idx = name) (concat (map indexes (GetAllTables c)))"

definition GetTableIndexes :: "str \<Rightarrow> catalog \<Rightarrow> IndexInfo list" where
  "GetTableIndexes tbl c = (case search_databases tbl (databases c) of None \<Rightarrow> [] | Some (key, t) \<Rightarrow> indexes t)"

fun erase_index :: "str \<Rightarrow> IndexInfo list \<Rightarrow> IndexInfo list option" where
  "erase_index name [] = None"
| "erase_index name (idx # xs) =
     (if index_name idx = name then Some xs else map_option ((#) idx) (erase_index name xs))"

fun erase_index_tables :: "str \<Rightarrow> TableInfo dir_map \<Rightarrow> TableInfo dir_map option" where
  "erase_index_tables name [] = None"
| "erase_index_tables name ((n, t) # ts) =
     (case erase_index name (indexes t) of
        Some xs \<Rightarrow> Some ((n, t\<lparr>indexes := xs\<rparr>) # ts)
      | None \<Rightarrow> map_option ((#) (n, t)) (erase_index_tables name ts))"

fun erase_index_databases :: "str \<Rightarrow> DatabaseInfo dir_map \<Rightarrow> DatabaseInfo dir_map option" where
  "erase_index_databases name [] = None"
| "erase_index_databases name ((key, db) # dbs) =
     (case erase_index_tables name (tables db) of
        Some ts \<Rightarrow> Some ((key, db\<lparr>tables := ts\<rparr>) # dbs)
      | None \<Rightarrow> map_option ((#) (key, db)) (erase_index_databases name dbs))"

definition DropIndex :: "str \<Rightarrow> catalog \<Rightarrow> catalog \<times> bool" where
  "DropIndex name c =
     (case erase_index_databases name (databases c) of
        None \<Rightarrow> (c, False)
      | Some dbs \<Rightarrow> (c\<lparr>databases := dbs\<rparr>, True))"

section \<open>Foreign keys\<close>

definition RegisterForeignKey :: "ForeignKeyInfo \<Rightarrow> catalog \<Rightarrow> catalog \<times> bool" where
  "RegisterForeignKey fk c =
     (let c = GetOrCreateDefaultDB c; key = NormalizeName (parent_table fk) in
      if map_of (default_tables c) key = None then (c, False)
      else (with_tables (default_key c) (change_entry key (\<lambda>t. t\<lparr>foreign_keys := foreign_keys t @ [fk]\<rparr>)) c, True))"

definition GetChildRelations :: "str \<Rightarrow> catalog \<Rightarrow> ForeignKeyInfo list" where
  "GetChildRelations parent c =
     (case search_databases (NormalizeName parent) (databases c) of None \<Rightarrow> [] | Some (key, t) \<Rightarrow> foreign_keys t)"

definition GetAllForeignKeys :: "catalog \<Rightarrow> ForeignKeyInfo list" where
  "GetAllForeignKeys c = concat (map foreign_keys (GetAllTables c))"

text \<open>Persistence is announced and not there: both calls succeed and do nothing.\<close>

definition catalog_Load :: "catalog \<Rightarrow> catalog \<times> bool" where "catalog_Load c = (c, True)"

definition catalog_Save :: "catalog \<Rightarrow> catalog \<times> bool" where "catalog_Save c = (c, True)"

section \<open>Ordered maps: laws\<close>

lemma map_of_put: "map_of (map_put k v xs) = (map_of xs)(k \<mapsto> v)"
  by (induction k v xs rule: map_put.induct) (auto simp: fun_upd_twist)

lemma map_of_erase: "map_of (map_erase k xs) = (map_of xs)(k := None)"
  by (induction xs) (auto simp: map_erase_def fun_upd_twist)

lemma fst_put: "fst ` set (map_put k v xs) = insert k (fst ` set xs)"
  by (induction k v xs rule: map_put.induct) auto

definition ordered :: "'v dir_map \<Rightarrow> bool" where
  "ordered xs \<longleftrightarrow> sorted_wrt str_less (map fst xs)"

lemma ordered_Cons: "ordered (x # xs) \<longleftrightarrow> (\<forall>k \<in> fst ` set xs. str_less (fst x) k) \<and> ordered xs"
  by (auto simp: ordered_def)

lemma ordered_put: "ordered xs \<Longrightarrow> ordered (map_put k v xs)"
proof (induction k v xs rule: map_put.induct)
  case (1 k v)
  then show ?case by (simp add: ordered_def)
next
  case (2 k v k' v' xs)
  show ?case
  proof (cases "k = k'")
    case True
    then show ?thesis using 2 by (simp add: ordered_Cons)
  next
    case ne: False
    show ?thesis
    proof (cases "str_less k k'")
      case True
      then show ?thesis using 2 ne by (auto simp: ordered_Cons intro: str_less_trans)
    next
      case False
      then have "str_less k' k" using ne str_less_total by blast
      then show ?thesis using 2 ne False by (simp add: ordered_Cons fst_put)
    qed
  qed
qed

lemma ordered_erase: "ordered xs \<Longrightarrow> ordered (map_erase k xs)"
  by (induction xs) (auto simp: map_erase_def ordered_Cons)

end
