(* ===== verification/Catalog_Props.thy ===== *)
theory Catalog_Props
  imports Catalogs
begin

text \<open>
  What clients of the catalog rely on. The abstract catalog is one map from table names to entries and
  one from database keys to names; \<open>allowed\<close> says what every operation may answer and do to it. The
  invariant \<open>catalog_ok\<close> makes the concrete catalog an implementation: the default database is there and
  is the only one that ever holds a table, so the search through all databases finds what the default
  database has. Where two tables have an index of one name the abstract catalog leaves open which
  of them is meant.
\<close>

section \<open>Operations and answers\<close>

datatype catalog_op =
    Create_Database str bool
  | Drop_Database str bool
  | Database_Exists str
  | Create_Table str schema str i32
  | Get_Table str
  | Table_Exists str
  | Drop_Table str
  | Create_Index str str str IndexType i32
  | Get_Index str
  | Get_Table_Indexes str
  | Drop_Index str
  | Register_Foreign_Key ForeignKeyInfo
  | Get_Child_Relations str

datatype answer = Success bool | Table "TableInfo option" | Index "IndexInfo option" | Index_List "IndexInfo list"
  | Relations "ForeignKeyInfo list"

fun exec_op :: "catalog_op \<Rightarrow> catalog \<Rightarrow> catalog \<times> answer" where
  "exec_op (Create_Database n b) c = map_prod id Success (CreateDatabase n b c)"
| "exec_op (Drop_Database n b) c = map_prod id Success (DropDatabase n b c)"
| "exec_op (Database_Exists n) c = (c, Success (DatabaseExists n c))"
| "exec_op (Create_Table n s p r) c = map_prod id Success (CreateTable n s p r c)"
| "exec_op (Get_Table n) c = map_prod id Table (GetTable n c)"
| "exec_op (Table_Exists n) c = (c, Success (TableExists n c))"
| "exec_op (Drop_Table n) c = map_prod id Success (DropTable n c)"
| "exec_op (Create_Index n t col ty r) c = map_prod id Success (CreateIndex n t col ty r c)"
| "exec_op (Get_Index n) c = (c, Index (GetIndex n c))"
| "exec_op (Get_Table_Indexes t) c = (c, Index_List (GetTableIndexes t c))"
| "exec_op (Drop_Index n) c = map_prod id Success (DropIndex n c)"
| "exec_op (Register_Foreign_Key fk) c = map_prod id Success (RegisterForeignKey fk c)"
| "exec_op (Get_Child_Relations t) c = (c, Relations (GetChildRelations t c))"

fun exec_ops :: "catalog_op list \<Rightarrow> catalog \<Rightarrow> catalog \<times> answer list" where
  "exec_ops [] c = (c, [])"
| "exec_ops (x # xs) c = (let (c, a) = exec_op x c; (c, as) = exec_ops xs c in (c, a # as))"

section \<open>The abstract catalog\<close>

type_synonym abstract_catalog = "(str \<rightharpoonup> TableInfo) \<times> (str \<rightharpoonup> str)"

definition has_index :: "str \<Rightarrow> TableInfo \<Rightarrow> bool" where
  "has_index n t \<longleftrightarrow> n \<in> index_name ` set (indexes t)"

fun allowed :: "catalog_op \<Rightarrow> abstract_catalog \<Rightarrow> abstract_catalog \<Rightarrow> answer \<Rightarrow> bool" where
  "allowed (Create_Database n b) (A, D) S a \<longleftrightarrow>
     (if NormalizeName n \<in> dom D then S = (A, D) \<and> a = Success b else S = (A, D(NormalizeName n \<mapsto> n)) \<and> a = Success True)"
| "allowed (Drop_Database n b) (A, D) S a \<longleftrightarrow>
     (if NormalizeName n \<notin> dom D then S = (A, D) \<and> a = Success b
      else if NormalizeName n = DEFAULT_DATABASE then S = (A, D) \<and> a = Success False
      else S = (A, D(NormalizeName n := None)) \<and> a = Success True)"
| "allowed (Database_Exists n) (A, D) S a \<longleftrightarrow> S = (A, D) \<and> a = Success (NormalizeName n \<in> dom D)"
| "allowed (Create_Table n s p r) (A, D) S a \<longleftrightarrow>
     (if n \<in> dom A then S = (A, D) \<and> a = Success False else S = (A(n \<mapsto> new_table n s p r), D) \<and> a = Success True)"
| "allowed (Get_Table n) (A, D) S a \<longleftrightarrow> S = (A, D) \<and> a = Table (A n)"
| "allowed (Table_Exists n) (A, D) S a \<longleftrightarrow> S = (A, D) \<and> a = Success (n \<in> dom A)"
| "allowed (Drop_Table n) (A, D) S a \<longleftrightarrow> S = (A(n := None), D) \<and> a = Success (n \<in> dom A)"
| "allowed (Create_Index n t col ty r) (A, D) S a \<longleftrightarrow>
     (case A t of
        None \<Rightarrow> S = (A, D) \<and> a = Success False
      | Some info \<Rightarrow>
          if has_index n info then S = (A, D) \<and> a = Success False
          else S = (A(t \<mapsto> info\<lparr>indexes := indexes info @ [\<lparr>index_name = n, index_table = t, index_column = col,
                              index_type = ty, root_or_directory_page_id = r\<rparr>]\<rparr>), D) \<and> a = Success True)"
| "allowed (Get_Index n) (A, D) S a \<longleftrightarrow> S = (A, D) \<and>
     (case a of
        Index None \<Rightarrow> (\<forall>info \<in> ran A. \<not> has_index n info)
      | Index (Some i) \<Rightarrow> index_name i = n \<and> (\<exists>info \<in> ran A. i \<in> set (indexes info))
      | _ \<Rightarrow> False)"
| "allowed (Get_Table_Indexes t) (A, D) S a \<longleftrightarrow>
     S = (A, D) \<and> a = Index_List (case A t of None \<Rightarrow> [] | Some info \<Rightarrow> indexes info)"
| "allowed (Drop_Index n) (A, D) S a \<longleftrightarrow>
     S = (A, D) \<and> a = Success False \<and> (\<forall>info \<in> ran A. \<not> has_index n info) \<or>
     a = Success True \<and>
       (\<exists>t info xs i ys. A t = Some info \<and> indexes info = xs @ i # ys \<and> index_name i = n \<and> n \<notin> index_name ` set xs \<and>
          S = (A(t \<mapsto> info\<lparr>indexes := xs @ ys\<rparr>), D))"
| "allowed (Register_Foreign_Key fk) (A, D) S a \<longleftrightarrow>
     (case A (NormalizeName (parent_table fk)) of
        None \<Rightarrow> S = (A, D) \<and> a = Success False
      | Some info \<Rightarrow> S = (A(NormalizeName (parent_table fk) \<mapsto> info\<lparr>foreign_keys := foreign_keys info @ [fk]\<rparr>), D) \<and>
                     a = Success True)"
| "allowed (Get_Child_Relations t) (A, D) S a \<longleftrightarrow>
     S = (A, D) \<and> a = Relations (case A (NormalizeName t) of None \<Rightarrow> [] | Some info \<Rightarrow> foreign_keys info)"

fun allowed_run :: "catalog_op list \<Rightarrow> abstract_catalog \<Rightarrow> answer list \<Rightarrow> abstract_catalog \<Rightarrow> bool" where
  "allowed_run [] S [] S' \<longleftrightarrow> S' = S"
| "allowed_run (x # xs) S (a # as) S' \<longleftrightarrow> (\<exists>S1. allowed x S S1 a \<and> allowed_run xs S1 as S')"
| "allowed_run _ S _ S' \<longleftrightarrow> False"

definition abstract_of :: "catalog \<Rightarrow> abstract_catalog" where
  "abstract_of c = (map_of (default_tables c), map_option database_name \<circ> map_of (databases c))"

section \<open>The invariant\<close>

definition catalog_ok :: "catalog \<Rightarrow> bool" where
  "catalog_ok c \<longleftrightarrow> default_db c = DEFAULT_DATABASE \<and> DEFAULT_DATABASE \<in> dom (map_of (databases c)) \<and> ordered (databases c) \<and>
     (\<forall>(key, db) \<in> set (databases c). key \<noteq> DEFAULT_DATABASE \<longrightarrow> tables db = []) \<and> ordered (default_tables c)"

lemma default_key_lower [simp]: "NormalizeName DEFAULT_DATABASE = DEFAULT_DATABASE"
  by code_simp

lemma ordered_distinct: "ordered xs \<Longrightarrow> distinct (map fst xs)"
  by (induction xs) (auto simp: ordered_Cons)

lemma map_of_change: "map_of (map (\<lambda>(k, v). (k, if k = key then f v else v)) xs) = (map_of xs)(key := map_option f (map_of xs key))"
  by (induction xs) auto

lemma map_of_change_entry: "map_of (change_entry n f xs) = (map_of xs)(n := map_option f (map_of xs n))"
  by (simp add: change_entry_def map_of_change)

lemma ordered_change: "ordered (map (\<lambda>(k, v). (k, f k v)) xs) \<longleftrightarrow> ordered xs"
  by (simp add: ordered_def case_prod_unfold comp_def)

lemma ordered_change_entry: "ordered (change_entry n f xs) \<longleftrightarrow> ordered xs"
  unfolding change_entry_def by (rule ordered_change)

lemma catalog_ok_key: "catalog_ok c \<Longrightarrow> default_key c = DEFAULT_DATABASE"
  by (simp add: catalog_ok_def)

lemma catalog_ok_default:
  assumes "catalog_ok c"
  obtains db where "map_of (databases c) DEFAULT_DATABASE = Some db" "default_tables c = tables db"
  using assms by (auto simp: catalog_ok_def default_tables_def)

lemma ensure_default: "catalog_ok c \<Longrightarrow> GetOrCreateDefaultDB c = c"
  by (auto simp: GetOrCreateDefaultDB_def catalog_ok_def)

text \<open>Only the default database has tables, so a search through all of them is a search there.\<close>

lemma search_one_database:
  assumes "distinct (map fst dbs)" "\<forall>(key, db) \<in> set dbs. key \<noteq> d \<longrightarrow> tables db = []"
  shows "search_databases n dbs = (case map_of dbs d of None \<Rightarrow> None | Some db \<Rightarrow> map_option (Pair d) (map_of (tables db) n))"
  using assms
proof (induction n dbs rule: search_databases.induct)
  case (2 n key db dbs)
  then have "key = d \<Longrightarrow> map_of dbs d = None"
    by (force simp: map_of_eq_None_iff)
  then show ?case using 2 by (auto split: option.splits)
qed simp

lemma all_tables_one_database:
  assumes "distinct (map fst dbs)" "\<forall>(key, db) \<in> set dbs. key \<noteq> d \<longrightarrow> tables db = []"
  shows "concat (map (\<lambda>(key, db). map snd (tables db)) dbs) = (case map_of dbs d of None \<Rightarrow> [] | Some db \<Rightarrow> map snd (tables db))"
  using assms
proof (induction dbs)
  case (Cons x dbs)
  obtain key db where x: "x = (key, db)" by (cases x)
  from Cons.prems x have "key = d \<Longrightarrow> map_of dbs d = None"
    by (force simp: map_of_eq_None_iff)
  then show ?case using Cons x by (auto split: option.splits)
qed simp

lemma erase_one_database:
  assumes "distinct (map fst dbs)" "\<forall>(key, db) \<in> set dbs. key \<noteq> d \<longrightarrow> tables db = []"
  shows "erase_index_databases n dbs =
    (case map_of dbs d of None \<Rightarrow> None
     | Some db \<Rightarrow> map_option (\<lambda>ts. map (\<lambda>(k, db). (k, if k = d then db\<lparr>tables := ts\<rparr> else db)) dbs) (erase_index_tables n (tables db)))"
  using assms
proof (induction n dbs rule: erase_index_databases.induct)
  case (2 n key db dbs)
  from 2 have "key = d \<Longrightarrow> map_of dbs d = None"
    by (force simp: map_of_eq_None_iff)
  moreover have "map (\<lambda>(k, db). (k, if k = d then db\<lparr>tables := ts\<rparr> else db)) dbs = dbs" if "map_of dbs d = None" for ts
    using that by (intro map_idI) (auto simp: map_of_eq_None_iff rev_image_eqI)
  ultimately show ?case using 2 by (auto simp: option.map_comp comp_def split: option.splits)
qed simp

lemma search_ok:
  "catalog_ok c \<Longrightarrow> search_databases n (databases c) = map_option (Pair DEFAULT_DATABASE) (map_of (default_tables c) n)"
  using search_one_database [of "databases c" DEFAULT_DATABASE n]
  by (auto simp: catalog_ok_def ordered_distinct default_tables_def split: option.splits)

lemma all_tables_ok: "catalog_ok c \<Longrightarrow> GetAllTables c = map snd (default_tables c)"
  using all_tables_one_database [of "databases c" DEFAULT_DATABASE]
  by (auto simp: catalog_ok_def ordered_distinct default_tables_def GetAllTables_def)

lemma search_others:
  "\<forall>(key, db) \<in> set dbs. key \<noteq> d \<longrightarrow> tables db = [] \<Longrightarrow> search_databases n (filter (\<lambda>(key, db). key \<noteq> d) dbs) = None"
  by (induction dbs) auto

section \<open>Changes of the default database\<close>

lemma default_tables_with:
  assumes "catalog_ok c"
  shows "default_tables (with_tables DEFAULT_DATABASE f c) = f (default_tables c)"
  by (rule catalog_ok_default [OF assms])
    (use assms in \<open>auto simp: default_tables_def with_tables_def catalog_ok_def map_of_change\<close>)

lemma with_tables_ok:
  assumes "catalog_ok c" "ordered (f (default_tables c))"
  shows "catalog_ok (with_tables DEFAULT_DATABASE f c)"
proof -
  have "ordered (default_tables (with_tables DEFAULT_DATABASE f c))"
    using assms by (simp add: default_tables_with)
  then show ?thesis
    using assms(1) by (auto simp: catalog_ok_def with_tables_def map_of_change ordered_change)
qed

lemma abstract_with:
  assumes "catalog_ok c" "abstract_of c = (A, D)"
  shows "abstract_of (with_tables DEFAULT_DATABASE f c) = (map_of (f (default_tables c)), D)"
proof -
  have "database_name (db\<lparr>tables := ts\<rparr>) = database_name db" for db ts by simp
  then have "map_option database_name \<circ> map_of (databases (with_tables DEFAULT_DATABASE f c)) =
        map_option database_name \<circ> map_of (databases c)"
    by (auto simp: with_tables_def map_of_change fun_eq_iff option.map_comp comp_def)
  then show ?thesis
    using assms by (auto simp: abstract_of_def default_tables_with)
qed

lemmas default_change = with_tables_ok abstract_with ordered_put ordered_erase ordered_change_entry
  map_of_put map_of_erase map_of_change_entry

lemma put_database_ok:
  fixes c :: catalog
  assumes "catalog_ok c" "map_of (databases c) key = None"
  shows "catalog_ok (c\<lparr>databases := map_put key \<lparr>database_name = n, tables = []\<rparr> (databases c)\<rparr>)"
    and "abstract_of (c\<lparr>databases := map_put key \<lparr>database_name = n, tables = []\<rparr> (databases c)\<rparr>) = (map_of (default_tables c), (map_option database_name \<circ> map_of (databases c))(key \<mapsto> n))"
proof -
  let ?c = "c\<lparr>databases := map_put key \<lparr>database_name = n, tables = []\<rparr> (databases c)\<rparr>"
  have ne: "key \<noteq> DEFAULT_DATABASE" using assms by (auto simp: catalog_ok_def)
  have same: "default_tables ?c = default_tables c"
    using assms ne by (auto simp: default_tables_def catalog_ok_def map_of_put)
  have "set (map_put k v xs) \<subseteq> insert (k, v) (set xs)" for k v and xs :: "DatabaseInfo dir_map"
    by (induction k v xs rule: map_put.induct) auto
  then have "\<forall>(key, db) \<in> set (databases ?c). key \<noteq> DEFAULT_DATABASE \<longrightarrow> tables db = []"
    using assms(1) by (fastforce simp: catalog_ok_def)
  then show "catalog_ok ?c" using assms same by (simp add: catalog_ok_def map_of_put ordered_put)
  show "abstract_of (c\<lparr>databases := map_put key \<lparr>database_name = n, tables = []\<rparr> (databases c)\<rparr>) = (map_of (default_tables c), (map_option database_name \<circ> map_of (databases c))(key \<mapsto> n))"
    unfolding abstract_of_def same by (simp add: map_of_put fun_eq_iff)
qed

lemma erase_database_ok:
  fixes c :: catalog
  assumes "catalog_ok c" "key \<noteq> DEFAULT_DATABASE"
  shows "catalog_ok (c\<lparr>databases := map_erase key (databases c)\<rparr>)"
    and "abstract_of (c\<lparr>databases := map_erase key (databases c)\<rparr>) = (map_of (default_tables c), (map_option database_name \<circ> map_of (databases c))(key := None))"
proof -
  let ?c = "c\<lparr>databases := map_erase key (databases c)\<rparr>"
  have same: "default_tables ?c = default_tables c"
    using assms by (auto simp: default_tables_def catalog_ok_def map_of_erase)
  then show "catalog_ok ?c" using assms by (auto simp: catalog_ok_def map_of_erase ordered_erase) (auto simp: map_erase_def)
  show "abstract_of (c\<lparr>databases := map_erase key (databases c)\<rparr>) = (map_of (default_tables c), (map_option database_name \<circ> map_of (databases c))(key := None))"
    unfolding abstract_of_def same by (simp add: map_of_erase fun_eq_iff)
qed

lemma DropTable_ok: "catalog_ok c \<Longrightarrow> DropTable n c =
   (if map_of (default_tables c) n = None then (c, False) else (with_tables DEFAULT_DATABASE (map_erase n) c, True))"
  by (auto simp: DropTable_def ensure_default search_ok catalog_ok_key split: option.splits)

lemma GetTable_ok: "catalog_ok c \<Longrightarrow> GetTable n c = (c, map_of (default_tables c) n)"
  using search_others [of "databases c" DEFAULT_DATABASE n]
  by (auto simp: GetTable_def ensure_default catalog_ok_key split: option.splits) (auto simp: catalog_ok_def)

section \<open>Removing an index\<close>

lemma erase_index_None: "erase_index n xs = None \<longleftrightarrow> n \<notin> index_name ` set xs"
  by (induction xs) auto

lemma has_index_iff: "has_index n t \<longleftrightarrow> erase_index n (indexes t) \<noteq> None"
  unfolding erase_index_None by (simp add: has_index_def)

lemma erase_index_Some:
  "erase_index n xs = Some zs \<Longrightarrow>
     \<exists>as i bs. xs = as @ i # bs \<and> index_name i = n \<and> n \<notin> index_name ` set as \<and> zs = as @ bs"
proof (induction n xs arbitrary: zs rule: erase_index.induct)
  case (2 n idx xs)
  show ?case
  proof (cases "index_name idx = n")
    case True
    then show ?thesis using 2(2) by (intro exI [of _ "[]"]) auto
  next
    case False
    then obtain ys where ys: "erase_index n xs = Some ys" "zs = idx # ys" using 2(2) by auto
    from 2(1) [OF False ys(1)] obtain as i bs where
      "xs = as @ i # bs" "index_name i = n" "n \<notin> index_name ` set as" "ys = as @ bs" by blast
    then show ?thesis using False ys(2) by (intro exI [of _ "idx # as"] exI [of _ i] exI [of _ bs]) auto
  qed
qed simp

lemma erase_index_tables_None: "erase_index_tables n ts = None \<longleftrightarrow> (\<forall>info \<in> snd ` set ts. \<not> has_index n info)"
  by (induction n ts rule: erase_index_tables.induct) (auto simp: has_index_iff split: option.splits)

lemma erase_index_tables_Some:
  assumes "distinct (map fst ts)" "erase_index_tables n ts = Some ts'"
  shows "\<exists>t info xs. map_of ts t = Some info \<and> erase_index n (indexes info) = Some xs \<and>
    ts' = change_entry t (\<lambda>info. info\<lparr>indexes := xs\<rparr>) ts"
  using assms
proof (induction n ts arbitrary: ts' rule: erase_index_tables.induct)
  case (2 n k t ts)
  show ?case
  proof (cases "erase_index n (indexes t)")
    case None
    then obtain us where us: "erase_index_tables n ts = Some us" "ts' = (k, t) # us" using 2(3) by auto
    from 2(1) [OF None _ us(1)] 2(2) obtain t' info xs where
      "map_of ts t' = Some info" "erase_index n (indexes info) = Some xs" "us = change_entry t' (\<lambda>info. info\<lparr>indexes := xs\<rparr>) ts"
      by auto
    moreover from this 2(2) have "t' \<noteq> k" by (auto dest: map_of_SomeD simp: rev_image_eqI)
    ultimately show ?thesis using us(2) by (intro exI [of _ t']) (auto simp: change_entry_def)
  next
    case (Some xs)
    have "change_entry k f ts = ts" for f
      using 2(2) unfolding change_entry_def by (intro map_idI) (auto simp: rev_image_eqI)
    then show ?thesis using Some 2(3) by (intro exI [of _ k] exI [of _ t] exI [of _ xs]) (auto simp: change_entry_def)
  qed
qed simp

lemma DropIndex_ok: "catalog_ok c \<Longrightarrow> DropIndex n c =
   (case erase_index_tables n (default_tables c) of
      None \<Rightarrow> (c, False)
    | Some ts \<Rightarrow> (with_tables DEFAULT_DATABASE (\<lambda>_. ts) c, True))"
  using erase_one_database [of "databases c" DEFAULT_DATABASE n]
  by (auto simp: DropIndex_def catalog_ok_def ordered_distinct default_tables_def with_tables_def split: option.splits)

section \<open>The refinement\<close>

lemma Catalog_ok: "catalog_ok Catalog" "abstract_of Catalog = (Map.empty, [DEFAULT_DATABASE \<mapsto> DEFAULT_DATABASE])"
  by (auto simp: Catalog_def GetOrCreateDefaultDB_def catalog_ok_def default_tables_def ordered_def abstract_of_def fun_eq_iff)

definition op_ok :: "catalog_op \<Rightarrow> catalog \<Rightarrow> bool" where
  "op_ok x c \<longleftrightarrow> (case exec_op x c of (c', a) \<Rightarrow> catalog_ok c' \<and> allowed x (abstract_of c) (abstract_of c') a)"

lemma exec_database_op:
  assumes "catalog_ok c"
  shows "op_ok (Create_Database n b) c"
    and "op_ok (Drop_Database n b) c"
    and "op_ok (Database_Exists n) c"
proof -
  have dom: "k \<in> dom (map_option database_name \<circ> map_of (databases c)) \<longleftrightarrow> map_of (databases c) k \<noteq> None" for k
    by auto
  show "op_ok (Create_Database n b) c"
    using assms put_database_ok [OF assms, of "NormalizeName n"] unfolding abstract_of_def [of c]
    by (cases "map_of (databases c) (NormalizeName n)") (auto simp: op_ok_def CreateDatabase_def dom abstract_of_def [of c])
  show "op_ok (Drop_Database n b) c"
    using assms erase_database_ok [OF assms, of "NormalizeName n"] unfolding abstract_of_def [of c]
    by (cases "map_of (databases c) (NormalizeName n)")
      (auto simp: op_ok_def DropDatabase_def dom catalog_ok_key abstract_of_def [of c] split: if_splits)
  show "op_ok (Database_Exists n) c"
    using assms by (auto simp: op_ok_def DatabaseExists_def abstract_of_def)
qed

lemma exec_table_op:
  assumes "catalog_ok c"
  shows "op_ok (Create_Table n s p r) c"
    and "op_ok (Get_Table n) c"
    and "op_ok (Table_Exists n) c"
    and "op_ok (Drop_Table n) c"
proof -
  obtain A D where S: "abstract_of c = (A, D)" by (cases "abstract_of c")
  then have A: "A = map_of (default_tables c)" by (simp add: abstract_of_def)
  have tabs: "ordered (default_tables c)" using assms by (simp add: catalog_ok_def)
  note facts = S A assms tabs default_change ensure_default [OF assms] catalog_ok_key [OF assms]
  show "op_ok (Create_Table n s p r) c"
    by (cases "map_of (default_tables c) n") (auto simp: op_ok_def facts CreateTable_def abstract_with [OF assms S] domIff)
  show "op_ok (Get_Table n) c"
    by (auto simp: op_ok_def GetTable_ok assms S A)
  show "op_ok (Table_Exists n) c"
    by (auto simp: op_ok_def TableExists_def assms S A)
  show "op_ok (Drop_Table n) c"
    by (auto simp: op_ok_def DropTable_ok facts abstract_with [OF assms S] domIff split: if_splits)
qed

lemma exec_index_op:
  assumes "catalog_ok c"
  shows "op_ok (Create_Index n t col ty r) c"
    and "op_ok (Get_Index n) c"
    and "op_ok (Get_Table_Indexes t) c"
proof -
  obtain A D where S: "abstract_of c = (A, D)" by (cases "abstract_of c")
  then have A: "A = map_of (default_tables c)" by (simp add: abstract_of_def)
  have tabs: "ordered (default_tables c)" using assms by (simp add: catalog_ok_def)
  then have ran: "ran A = snd ` set (default_tables c)"
    unfolding A by (simp add: ran_distinct ordered_distinct)
  show "op_ok (Create_Index n t col ty r) c"
    using search_ok [OF assms, of t]
    by (cases "map_of (default_tables c) t")
      (auto simp: op_ok_def CreateIndex_def has_index_def image_iff Bex_def S A assms tabs default_change abstract_with [OF assms S] split: if_splits)
  have idx: "GetIndex n c = List.find (\<lambda>idx. index_name idx = n) (concat (map (indexes \<circ> snd) (default_tables c)))"
    by (simp add: GetIndex_def all_tables_ok [OF assms])
  have "\<forall>info \<in> ran A. \<not> has_index n info" if "GetIndex n c = None"
    using that unfolding idx find_None_iff ran by (auto simp: has_index_def)
  moreover have "index_name i = n \<and> (\<exists>info \<in> ran A. i \<in> set (indexes info))" if "GetIndex n c = Some i" for i
    using that unfolding idx find_Some_iff ran by (auto dest!: nth_mem)
  ultimately show "op_ok (Get_Index n) c"
    using assms by (cases "GetIndex n c") (simp_all add: op_ok_def S)
  show "op_ok (Get_Table_Indexes t) c"
    by (auto simp: op_ok_def GetTableIndexes_def search_ok assms S A split: option.splits)
qed

lemma exec_drop_index:
  assumes "catalog_ok c"
  shows "op_ok (Drop_Index n) c"
proof -
  obtain A D where S: "abstract_of c = (A, D)" by (cases "abstract_of c")
  then have A: "A = map_of (default_tables c)" by (simp add: abstract_of_def)
  have tabs: "ordered (default_tables c)" using assms by (simp add: catalog_ok_def)
  then have ran: "ran A = snd ` set (default_tables c)"
    unfolding A by (simp add: ran_distinct ordered_distinct)
  show ?thesis
  proof (cases "erase_index_tables n (default_tables c)")
    case None
    then have "\<forall>info \<in> ran A. \<not> has_index n info" by (simp only: ran erase_index_tables_None)
    then show ?thesis using assms None by (simp add: op_ok_def DropIndex_ok S)
  next
    case (Some ts)
    from erase_index_tables_Some [OF ordered_distinct [OF tabs] Some] obtain t info zs where
      t: "A t = Some info" "erase_index n (indexes info) = Some zs"
        and ts: "ts = change_entry t (\<lambda>info. info\<lparr>indexes := zs\<rparr>) (default_tables c)"
      unfolding A by blast
    from erase_index_Some [OF t(2)] obtain xs i ys where
      split: "indexes info = xs @ i # ys" "index_name i = n" "n \<notin> index_name ` set xs" "zs = xs @ ys" by blast
    have "map_of ts = A(t \<mapsto> info\<lparr>indexes := xs @ ys\<rparr>)"
      using t(1) by (simp add: ts map_of_change_entry A split(4))
    moreover have "ordered ts" using tabs by (simp add: ts ordered_change_entry)
    ultimately show ?thesis
      using assms Some
      by (simp add: op_ok_def DropIndex_ok with_tables_ok abstract_with [OF assms S] S) (use t(1) split in blast)
  qed
qed

lemma exec_fk_op:
  assumes "catalog_ok c"
  shows "op_ok (Register_Foreign_Key fk) c" and "op_ok (Get_Child_Relations t) c"
proof -
  obtain A D where S: "abstract_of c = (A, D)" by (cases "abstract_of c")
  then have A: "A = map_of (default_tables c)" by (simp add: abstract_of_def)
  have tabs: "ordered (default_tables c)" using assms by (simp add: catalog_ok_def)
  show "op_ok (Register_Foreign_Key fk) c"
    by (cases "map_of (default_tables c) (NormalizeName (parent_table fk))")
      (simp_all add: op_ok_def RegisterForeignKey_def ensure_default catalog_ok_key S A assms tabs default_change
        abstract_with [OF assms S])
  show "op_ok (Get_Child_Relations t) c"
    by (auto simp: op_ok_def GetChildRelations_def search_ok assms S A split: option.splits)
qed

lemmas exec_ok = exec_database_op exec_table_op exec_index_op exec_drop_index exec_fk_op

lemma exec_op_ok: "catalog_ok c \<Longrightarrow> op_ok x c"
  by (cases x) (simp_all only: exec_ok)

lemma exec_ops_allowed:
  "catalog_ok c \<Longrightarrow> case exec_ops xs c of (c', as) \<Rightarrow> catalog_ok c' \<and> allowed_run xs (abstract_of c) as (abstract_of c')"
proof (induction xs arbitrary: c)
  case (Cons x xs)
  obtain c1 a where x: "exec_op x c = (c1, a)" by (cases "exec_op x c")
  with exec_op_ok [OF Cons.prems, of x] have "catalog_ok c1" "allowed x (abstract_of c) (abstract_of c1) a"
    by (simp_all add: op_ok_def)
  then show ?case using Cons.IH [of c1] by (auto simp: x simp del: split_paired_Ex split: prod.splits)
qed simp

text \<open>The parent of a foreign key is looked up in lower case, a table is stored as its name is written: a
  table with a capital letter cannot be a parent.\<close>

lemma capital_parent_refused:
  "let c = fst (CreateTable (ascii ''Warehouses'') [] (ascii ''w.db'') 3 Catalog);
       fk = \<lparr>parent_table = ascii ''Warehouses'', parent_column = ascii ''id'', child_table = ascii ''inventory'',
             child_column = ascii ''warehouse_id'', on_delete = CASCADE\<rparr>
   in TableExists (ascii ''Warehouses'') c \<and> snd (RegisterForeignKey fk c) = False"
  by code_simp

text \<open>C20: every sequence of calls on a new catalog is answered as the abstract catalog allows: tables are one
  map from names to entries, \<open>GetTable\<close> returns what \<open>CreateTable\<close> stored and the indexes and foreign keys
  added since, databases are found by their lower-case name and the default database is never dropped. The
  default database stays the only one with tables.\<close>

theorem catalog_refines_map:
  "case exec_ops ops Catalog of (c, answers) \<Rightarrow>
     allowed_run ops (Map.empty, [DEFAULT_DATABASE \<mapsto> DEFAULT_DATABASE]) answers (abstract_of c) \<and>
     GetAllTables c = map snd (default_tables c) \<and> ordered (default_tables c)"
  using exec_ops_allowed [OF Catalog_ok(1), of ops]
  by (auto simp: Catalog_ok(2) all_tables_ok catalog_ok_def split: prod.splits)

end
