(* ===== verification/Float_Arith.thy ===== *)
theory Float_Arith
  imports Float64
begin

text \<open>
  Arithmetic on \<open>double\<close>: the exact result, rounded to the nearest value. The language leaves the
  sign and the payload of a NaN open; the model has one pattern for it.
\<close>

definition f64_default_nan :: f64 where "f64_default_nan = 0x7FF8000000000000"

definition f64_infinity :: "bool \<Rightarrow> f64" where
  "f64_infinity neg = (if neg then 0xFFF0000000000000 else 0x7FF0000000000000)"

definition f64_zero :: "bool \<Rightarrow> f64" where
  "f64_zero neg = (if neg then 0x8000000000000000 else 0)"

definition f64_is_zero :: "f64 \<Rightarrow> bool" where
  "f64_is_zero x \<longleftrightarrow> f64_eq x 0"

definition f64_neg :: "f64 \<Rightarrow> f64" where
  "f64_neg x = xor x 0x8000000000000000"

definition f64_add :: "f64 \<Rightarrow> f64 \<Rightarrow> f64" where
  "f64_add x y =
     (if f64_nan x \<or> f64_nan y then f64_default_nan
      else if \<not> f64_finite x then (if \<not> f64_finite y \<and> f64_sign x \<noteq> f64_sign y then f64_default_nan else x)
      else if \<not> f64_finite y then y
      else let s = f64_scaled x + f64_scaled y in
        if s = 0 then f64_zero (f64_sign x \<and> f64_sign y)
        else f64_of_ratio (s < 0) (nat \<bar>s\<bar>) (2 ^ 1074))"

definition f64_sub :: "f64 \<Rightarrow> f64 \<Rightarrow> f64" where
  "f64_sub x y = f64_add x (if f64_nan y then y else f64_neg y)"

definition f64_mul :: "f64 \<Rightarrow> f64 \<Rightarrow> f64" where
  "f64_mul x y =
     (let neg = (f64_sign x \<noteq> f64_sign y) in
      if f64_nan x \<or> f64_nan y then f64_default_nan
      else if \<not> f64_finite x \<or> \<not> f64_finite y
        then (if f64_is_zero x \<or> f64_is_zero y then f64_default_nan else f64_infinity neg)
      else f64_of_ratio neg (f64_magnitude x * f64_magnitude y) (2 ^ 2148))"

definition f64_div :: "f64 \<Rightarrow> f64 \<Rightarrow> f64" where
  "f64_div x y =
     (let neg = (f64_sign x \<noteq> f64_sign y) in
      if f64_nan x \<or> f64_nan y then f64_default_nan
      else if \<not> f64_finite x then (if f64_finite y then f64_infinity neg else f64_default_nan)
      else if \<not> f64_finite y then f64_zero neg
      else if f64_is_zero y then (if f64_is_zero x then f64_default_nan else f64_infinity neg)
      else f64_of_ratio neg (f64_magnitude x) (f64_magnitude y))"

text \<open>\<open>%\<close> on \<open>int64_t\<close> truncates towards zero; division by zero and the quotient \<open>2 ^ 63\<close> are undefined.\<close>

definition int64_mod :: "i64 \<Rightarrow> i64 \<Rightarrow> i64 option" where
  "int64_mod a b =
     (if b = 0 \<or> (sint a = - (2 ^ 63) \<and> b = - 1) then None
      else let r = \<bar>sint a\<bar> mod \<bar>sint b\<bar> in Some (word_of_int (if sint a < 0 then - r else r)))"

section \<open>Facts\<close>

lemma f64_0: "f64_scaled 0 = 0" "\<not> f64_nan 0" "f64_finite 0" "\<not> f64_sign 0"
  by (simp_all add: f64_scaled_def f64_magnitude_def f64_exponent_def f64_fraction_def f64_nan_def f64_finite_def f64_sign_def)

lemma f64_is_zero_of_int:
  assumes "\<bar>n\<bar> < 2 ^ 53" shows "f64_is_zero (f64_of_int n) \<longleftrightarrow> n = 0"
proof -
  have "n * k = 0 \<longleftrightarrow> n = 0" if "k \<noteq> 0" for k :: int using that by simp
  moreover have "(2 :: int) ^ 1074 \<noteq> 0" by (rule power_not_zero) simp
  ultimately have "f64_scaled (f64_of_int n) = 0 \<longleftrightarrow> n = 0"
    unfolding f64_scaled_of_int(1) [OF assms] by metis
  then show ?thesis using f64_scaled_of_int(2) [OF assms] unfolding f64_is_zero_def f64_eq_def f64_0(1)
    by (simp add: f64_0(2))
qed

lemma round_div_cancel:
  assumes "0 < k" shows "round_div (k * n) (k * d) = round_div n d"
proof -
  have "k * n div (k * d) = n div d" using assms by (intro div_mult_mult1) simp
  moreover have "k * n mod (k * d) = k * (n mod d)" by (rule mult_mod_right [symmetric])
  moreover have "2 * (k * r) = k * (2 * r)" for r by (rule mult.left_commute)
  moreover have "k * a > k * b \<longleftrightarrow> a > b" "k * a = k * b \<longleftrightarrow> a = b" for a b
    using assms by (simp_all only: nat_mult_less_cancel1 nat_mult_eq_cancel1)
  ultimately show ?thesis unfolding round_div_def Let_def by (simp only:)
qed

lemma f64_of_ratio_cancel:
  assumes "0 < k" shows "f64_of_ratio neg (num * k) (den * k) = f64_of_ratio neg num den"
proof -
  have r: "round_div (num * k * u) (den * k * 2 ^ s) = round_div (num * u) (den * 2 ^ s)" for s u
    using round_div_cancel [OF assms, of "num * u" "den * 2 ^ s"] by (simp only: ac_simps)
  have d: "num * k * u div (den * k) = num * u div den" for u
  proof -
    have "num * k * u div (den * k) = k * (num * u) div (k * den)" by (simp only: ac_simps)
    also have "\<dots> = num * u div den" using assms by (simp only: div_mult_mult1 neq0_conv)
    finally show ?thesis .
  qed
  show ?thesis unfolding f64_of_ratio_def Let_def d r by (rule refl)
qed

text \<open>Integers of less than 54 bits are computed exactly.\<close>

lemma f64_magnitude_of_int:
  assumes "\<bar>n\<bar> < 2 ^ 53"
  shows "f64_magnitude (f64_of_int n) = nat \<bar>n\<bar> * 2 ^ 1074"
proof -
  have "int (f64_magnitude (f64_of_int n)) = \<bar>f64_scaled (f64_of_int n)\<bar>"
    by (simp add: f64_scaled_def)
  also have "\<dots> = int (nat \<bar>n\<bar> * 2 ^ 1074)"
    unfolding f64_scaled_of_int(1) [OF assms] abs_mult by (simp only: of_nat_mult of_nat_power int_nat_eq) simp
  finally show ?thesis by (simp only: of_nat_eq_iff)
qed

lemma f64_finite_of_int:
  assumes "\<bar>n\<bar> < 2 ^ 53" shows "f64_finite (f64_of_int n)"
proof (rule ccontr)
  assume "\<not> ?thesis"
  then have e: "f64_exponent (f64_of_int n) = 2047" by (simp add: f64_finite_def)
  have "(2::nat) ^ 2046 \<le> f64_magnitude (f64_of_int n)"
  proof -
    have "f64_magnitude (f64_of_int n) = (2 ^ 52 + f64_fraction (f64_of_int n)) * 2 ^ 2046"
      unfolding f64_magnitude_def e by simp
    moreover have "1 * (2::nat) ^ 2046 \<le> (2 ^ 52 + f64_fraction (f64_of_int n)) * 2 ^ 2046"
      by (rule mult_le_mono1) simp
    ultimately show ?thesis by (simp only: mult_1)
  qed
  also have "f64_magnitude (f64_of_int n) < 2 ^ 53 * 2 ^ 1074"
    unfolding f64_magnitude_of_int [OF assms] by (rule mult_less_mono1) (use assms in simp, simp)
  also have "(2::nat) ^ 53 * 2 ^ 1074 = 2 ^ 1127" by (simp only: flip: power_add) simp
  finally have "(2::nat) ^ 2046 < 2 ^ 1127" .
  then have "(2046::nat) < 1127" by (rule power_less_imp_less_exp [rotated]) simp
  then show False by simp
qed

lemma f64_to_int64_scaled:
  assumes "f64_finite x" "f64_scaled x = n * 2 ^ 1074" "\<bar>n\<bar> < 2 ^ 63"
  shows "f64_to_int64 x = Some (word_of_int n)"
proof -
  have "int (f64_magnitude x) = \<bar>n\<bar> * 2 ^ 1074"
    using assms(2) by (simp add: f64_scaled_def abs_mult split: if_splits)
  then have "f64_magnitude x = nat \<bar>n\<bar> * 2 ^ 1074"
    by (simp only: flip: of_nat_eq_iff [where ?'a = int]) (simp only: of_nat_mult of_nat_power int_nat_eq abs_ge_zero if_True of_nat_numeral)
  then have m: "f64_magnitude x div 2 ^ 1074 = nat \<bar>n\<bar>"
    by (simp only: nonzero_mult_div_cancel_right power_not_zero zero_neq_numeral [symmetric] not_False_eq_True)
  have p: "(0::int) < 2 ^ 1074" by (rule zero_less_power) simp
  have "f64_sign x \<Longrightarrow> n \<le> 0" "\<not> f64_sign x \<Longrightarrow> 0 \<le> n"
    using assms(2) p by (auto simp: f64_scaled_def mult_le_0_iff zero_le_mult_iff
        simp del: zero_less_power split: if_splits
        dest: sym [of "- int (f64_magnitude x)"] sym [of "int (f64_magnitude x)"])
  then show ?thesis using assms(1,3) unfolding f64_to_int64_def Let_def m by (cases "f64_sign x") auto
qed

lemma f64_to_int64_of_int: "\<bar>n\<bar> < 2 ^ 53 \<Longrightarrow> f64_to_int64 (f64_of_int n) = Some (word_of_int n)"
  by (rule f64_to_int64_scaled) (simp_all only: f64_finite_of_int f64_scaled_of_int, simp)

text \<open>The sign of an exact integer.\<close>

lemma bitlen_0: "bitlen 0 = 0"
  by (simp add: bitlen.simps)

lemma f64_of_int_0: "f64_of_int 0 = 0"
  by (simp add: f64_of_int_def f64_of_ratio_def round_div_def f64_pack_def bitlen_0)

lemma scale_sign: "0 < p \<Longrightarrow> n * p < 0 \<longleftrightarrow> n < 0" "0 < p \<Longrightarrow> n * p = 0 \<longleftrightarrow> n = 0" for n p :: int
  by (auto simp: mult_less_0_iff)

lemma f64_sign_of_int:
  assumes "\<bar>n\<bar> < 2 ^ 53" shows "f64_sign (f64_of_int n) \<longleftrightarrow> n < 0"
proof (cases "n = 0")
  case True
  then show ?thesis by (simp add: f64_of_int_0 f64_0)
next
  case False
  have p: "(0::int) < 2 ^ 1074" by (rule zero_less_power) simp
  have "f64_scaled (f64_of_int n) < 0 \<longleftrightarrow> n < 0" "f64_scaled (f64_of_int n) \<noteq> 0"
    unfolding f64_scaled_of_int(1) [OF assms] scale_sign [OF p] using False by blast+
  then show ?thesis by (auto simp: f64_scaled_def split: if_splits)
qed

lemma f64_of_ratio_int: "f64_of_ratio (n < 0) (nat \<bar>n\<bar> * 2 ^ k) (2 ^ k) = f64_of_int n"
  using f64_of_ratio_cancel [of "2 ^ k" "n < 0" "nat \<bar>n\<bar>" 1] by (simp add: f64_of_int_def)

lemma f64_add_int:
  assumes "\<bar>a\<bar> < 2 ^ 53" "\<bar>b\<bar> < 2 ^ 53"
  shows "f64_add (f64_of_int a) (f64_of_int b) = f64_of_int (a + b)"
proof -
  note f = assms [THEN f64_finite_of_int] assms [THEN f64_scaled_of_int(1)] assms [THEN f64_sign_of_int] f64_of_int_not_nan
  have sum: "a * 2 ^ 1074 + b * 2 ^ 1074 = (a + b) * 2 ^ 1074" by (simp only: distrib_right)
  have p: "(0::int) < 2 ^ 1074" by (rule zero_less_power) simp
  show ?thesis
  proof (cases "a + b = 0")
    case True
    then have "\<not> (a < 0 \<and> b < 0)" by linarith
    then show ?thesis using assms [THEN f64_finite_of_int] unfolding f64_add_def Let_def f sum True by (simp add: f64_zero_def f64_of_int_0)
  next
    case False
    have "nat \<bar>(a + b) * 2 ^ 1074\<bar> = nat \<bar>a + b\<bar> * 2 ^ 1074"
      unfolding abs_mult nat_mult_distrib [OF abs_ge_zero] by (simp only: abs_of_pos [OF p]) (simp only: nat_power_eq nat_numeral zero_le_numeral)
    then show ?thesis
      using False assms [THEN f64_finite_of_int] unfolding f64_add_def Let_def f sum scale_sign [OF p]
      by (simp only: f64_of_int_not_nan not_True_eq_False not_False_eq_True simp_thms if_True if_False f64_of_ratio_int)
  qed
qed

lemma f64_zero_to_int64: "f64_to_int64 (f64_zero neg) = Some 0"
  by (cases neg)
    (simp_all add: f64_to_int64_def f64_magnitude_def f64_exponent_def f64_fraction_def f64_finite_def f64_zero_def)

lemma f64_mul_int:
  assumes "\<bar>a\<bar> < 2 ^ 53" "\<bar>b\<bar> < 2 ^ 53" "\<bar>a * b\<bar> < 2 ^ 53"
  shows "f64_to_int64 (f64_mul (f64_of_int a) (f64_of_int b)) = Some (word_of_int (a * b))"
proof -
  note f = assms(1,2) [THEN f64_finite_of_int] assms(1,2) [THEN f64_magnitude_of_int] assms(1,2) [THEN f64_sign_of_int]
  have "(2::nat) ^ 1074 * 2 ^ 1074 = 2 ^ 2148" by (simp only: flip: power_add) simp
  then have prod: "nat \<bar>a\<bar> * 2 ^ 1074 * (nat \<bar>b\<bar> * 2 ^ 1074) = nat \<bar>a * b\<bar> * 2 ^ 2148"
    unfolding abs_mult nat_mult_distrib [OF abs_ge_zero] by (simp only: ac_simps)
  have e: "f64_mul (f64_of_int a) (f64_of_int b) =
      f64_of_ratio ((a < 0) \<noteq> (b < 0)) (nat \<bar>a * b\<bar> * 2 ^ 2148) (2 ^ 2148)"
    using f(1,2) unfolding f64_mul_def Let_def f(3-6) prod by (simp only: f64_of_int_not_nan simp_thms if_False)
  show ?thesis
  proof (cases "a * b = 0")
    case True
    have "f64_of_ratio neg (nat \<bar>0\<bar> * 2 ^ 2148) (2 ^ 2148) = f64_zero neg" for neg
      by (simp add: f64_of_ratio_def round_div_def f64_pack_def bitlen_0 f64_zero_def)
    then show ?thesis unfolding e True by (simp only: f64_zero_to_int64 of_int_0)
  next
    case False
    then have "((a < 0) \<noteq> (b < 0)) = (a * b < 0)" by (auto simp: mult_less_0_iff)
    then show ?thesis unfolding e by (simp only: f64_of_ratio_int f64_to_int64_of_int [OF assms(3)])
  qed
qed

end
