(* ===== verification/Expressions.thy ===== *)
theory Expressions
  imports Float_Arith Tuples
begin

text \<open>
  Bound expressions (sql/binder/bound_statement.h) and their evaluation (the first part of
  sql/binder/binder.cpp). A null pointer to an expression is the constructor \<open>Null_Expression\<close>, which the
  binder leaves behind where a name cannot be resolved. Only the alias of a select-list entry is ever read,
  so it stands beside the expression there. \<open>None\<close> is a failed assertion, which aborts the server, or
  undefined behaviour (a null dereference, a cast of a \<open>double\<close> that does not fit, \<open>%\<close> by zero).
\<close>

datatype BoundExpression =
    Null_Expression
  | BoundColumnRef int TypeId
  | BoundConstant Value
  | BoundBinaryOp str BoundExpression BoundExpression TypeId
  | BoundComparison str BoundExpression BoundExpression
  | BoundUnaryOp str BoundExpression TypeId
  | BoundFunctionCall str "BoundExpression list" bool bool
  | BoundStar

section \<open>Operators\<close>

definition is_integer :: "TypeId \<Rightarrow> bool" where
  "is_integer t \<longleftrightarrow> t = TINYINT \<or> t = SMALLINT \<or> t = INTEGER \<or> t = BIGINT"

text \<open>An operand of an arithmetic operation as a \<open>double\<close>, and whether it is an integer.\<close>

definition arith_operand :: "Value \<Rightarrow> (f64 \<times> bool) option" where
  "arith_operand v =
     (if IsNumericType (GetTypeId v) then Some (ToDouble v, is_integer (GetTypeId v)) else None)"

text \<open>The result of an arithmetic operator; the inner \<open>None\<close> is the NULL the code returns.\<close>

definition arith_op :: "str \<Rightarrow> f64 \<Rightarrow> f64 \<Rightarrow> f64 option option" where
  "arith_op op ld rd =
     (if op = ascii ''+'' then Some (Some (f64_add ld rd))
      else if op = ascii ''-'' then Some (Some (f64_sub ld rd))
      else if op = ascii ''*'' then Some (Some (f64_mul ld rd))
      else if op = ascii ''/'' then (if f64_is_zero rd then Some None else Some (Some (f64_div ld rd)))
      else if op = ascii ''%'' then
        (if f64_is_zero rd then Some None
         else do {
           a \<leftarrow> f64_to_int64 ld;
           b \<leftarrow> f64_to_int64 rd;
           r \<leftarrow> int64_mod a b;
           Some (Some (f64_of_int (sint r))) })
      else Some None)"

definition eval_arith :: "str \<Rightarrow> Value \<Rightarrow> Value \<Rightarrow> Value option" where
  "eval_arith op lv rv =
     (case (arith_operand lv, arith_operand rv) of
        (Some (ld, left_int), Some (rd, right_int)) \<Rightarrow> do {
          result \<leftarrow> arith_op op ld rd;
          case result of
            None \<Rightarrow> Some VInvalid
          | Some x \<Rightarrow>
              if left_int \<and> right_int \<and> op \<noteq> ascii ''/'' then map_option VBigInt (f64_to_int64 x)
              else Some (VDecimal x) }
      | _ \<Rightarrow> Some VInvalid)"

definition eval_binary :: "str \<Rightarrow> Value \<Rightarrow> Value \<Rightarrow> Value option" where
  "eval_binary op lv rv =
     (if lv = VInvalid \<or> rv = VInvalid then Some VInvalid
      else if op = ascii ''AND'' then do { a \<leftarrow> GetAsBoolean lv; b \<leftarrow> (if a then GetAsBoolean rv else Some False); Some (VBoolean b) }
      else if op = ascii ''OR'' then do { a \<leftarrow> GetAsBoolean lv; b \<leftarrow> (if a then Some True else GetAsBoolean rv); Some (VBoolean b) }
      else if op = ascii ''||'' then do { a \<leftarrow> value_to_string lv; b \<leftarrow> value_to_string rv; Some (VVarchar (a @ b)) }
      else eval_arith op lv rv)"

text \<open>An integer value as \<open>int64_t\<close>.\<close>

definition int_of_value :: "Value \<Rightarrow> i64" where
  "int_of_value v =
     (case v of VTinyInt n \<Rightarrow> scast n | VSmallInt n \<Rightarrow> scast n | VInteger n \<Rightarrow> scast n | VBigInt n \<Rightarrow> n | _ \<Rightarrow> 0)"

definition CoerceToCommonType :: "Value \<Rightarrow> Value \<Rightarrow> (Value \<times> Value) option" where
  "CoerceToCommonType lv rv =
     (let lt = GetTypeId lv; rt = GetTypeId rv in
      if lt = rt then Some (lv, rv)
      else if IsNumericType lt \<and> IsNumericType rt then
        (if lt = DECIMAL \<or> rt = DECIMAL then Some (VDecimal (ToDouble lv), VDecimal (ToDouble rv))
         else Some (VBigInt (int_of_value lv), VBigInt (int_of_value rv)))
      else case (lv, rv) of
        (VTimestamp _, VVarchar s) \<Rightarrow> map_option (\<lambda>t. (lv, VTimestamp t)) (ParseTimestamp s)
      | (VVarchar s, VTimestamp _) \<Rightarrow> map_option (\<lambda>t. (VTimestamp t, rv)) (ParseTimestamp s)
      | _ \<Rightarrow>
          if lt = TIMESTAMP \<and> is_integer rt then Some (lv, VTimestamp (int_of_value rv))
          else if is_integer lt \<and> rt = TIMESTAMP then Some (VTimestamp (int_of_value lv), rv)
          else Some (lv, rv))"

section \<open>LIKE\<close>

definition valueToRawString :: "Value \<Rightarrow> str option" where
  "valueToRawString v =
     (case v of
        VVarchar s \<Rightarrow> Some s
      | VTimestamp t \<Rightarrow> FormatTimestamp t
      | _ \<Rightarrow> value_to_string v)"

text \<open>\<open>find\<close> of \<open>std::string\<close>, as a test.\<close>

fun str_contains :: "str \<Rightarrow> str \<Rightarrow> bool" where
  "str_contains p [] \<longleftrightarrow> p = []"
| "str_contains p (x # xs) \<longleftrightarrow> take (length p) (x # xs) = p \<or> str_contains p xs"

definition like_match :: "str \<Rightarrow> str \<Rightarrow> bool" where
  "like_match lstr rstr =
     (let prefix = (rstr \<noteq> [] \<and> hd rstr = 37);
          pattern = (if prefix then tl rstr else rstr);
          suffix = (pattern \<noteq> [] \<and> last pattern = 37);
          pattern = (if suffix then butlast pattern else pattern)
      in if prefix \<and> suffix then str_contains pattern lstr
         else if prefix then length lstr \<ge> length pattern \<and> drop (length lstr - length pattern) lstr = pattern
         else if suffix then take (length pattern) lstr = pattern
         else lstr = pattern)"

definition eval_comparison :: "str \<Rightarrow> Value \<Rightarrow> Value \<Rightarrow> Value option" where
  "eval_comparison op lv rv =
     (if lv = VInvalid \<or> rv = VInvalid then Some (VBoolean False)
      else do {
        (lv, rv) \<leftarrow> CoerceToCommonType lv rv;
        if op = ascii ''='' then Some (VBoolean (value_eq lv rv))
        else if op = ascii ''<>'' \<or> op = ascii ''!='' then Some (VBoolean (\<not> value_eq lv rv))
        else if op = ascii ''<'' then map_option VBoolean (value_less lv rv)
        else if op = ascii ''>'' then map_option VBoolean (value_less rv lv)
        else if op = ascii ''<='' then map_option (\<lambda>b. VBoolean (\<not> b)) (value_less rv lv)
        else if op = ascii ''>='' then map_option (\<lambda>b. VBoolean (\<not> b)) (value_less lv rv)
        else if op = ascii ''~~'' \<or> op = ascii ''LIKE'' \<or> op = ascii ''like'' then do {
          lstr \<leftarrow> valueToRawString lv;
          rstr \<leftarrow> valueToRawString rv;
          Some (VBoolean (like_match lstr rstr)) }
        else Some (VBoolean False) })"

text \<open>Negation; \<open>-\<close> on an \<open>int32_t\<close> or \<open>int64_t\<close> may overflow, the narrower types are negated as \<open>int\<close> and
  cut back.\<close>

definition negate_value :: "Value \<Rightarrow> Value option" where
  "negate_value v =
     (case v of
        VTinyInt n \<Rightarrow> Some (VTinyInt (- n))
      | VSmallInt n \<Rightarrow> Some (VSmallInt (- n))
      | VInteger n \<Rightarrow> if sint n = - (2 ^ 31) then None else Some (VInteger (- n))
      | VBigInt n \<Rightarrow> if sint n = - (2 ^ 63) then None else Some (VBigInt (- n))
      | VDecimal x \<Rightarrow> Some (VDecimal (f64_neg x))
      | _ \<Rightarrow> Some VInvalid)"

definition eval_unary :: "str \<Rightarrow> Value \<Rightarrow> Value option" where
  "eval_unary op v =
     (if op = ascii ''IS_NULL'' then Some (VBoolean (v = VInvalid))
      else if op = ascii ''IS_NOT_NULL'' then Some (VBoolean (v \<noteq> VInvalid))
      else if v = VInvalid then Some VInvalid
      else if op = ascii ''NOT'' then map_option (\<lambda>b. VBoolean (\<not> b)) (GetAsBoolean v)
      else if op = ascii ''-'' then negate_value v
      else Some VInvalid)"

section \<open>Evaluation\<close>

text \<open>The tuple and the schema are pointers that may be null.\<close>

fun Evaluate :: "BoundExpression \<Rightarrow> byte list option \<Rightarrow> schema option \<Rightarrow> Value option" where
  "Evaluate Null_Expression t s = None"
| "Evaluate (BoundColumnRef col_idx _) t s =
     (if col_idx < 0 then Some VInvalid
      else case s of
        None \<Rightarrow> None
      | Some sch \<Rightarrow>
          if col_idx \<ge> int (length sch) then Some VInvalid
          else (case t of None \<Rightarrow> None | Some d \<Rightarrow> GetValue d (Some sch) (nat col_idx)))"
| "Evaluate (BoundConstant v) t s = Some v"
| "Evaluate (BoundBinaryOp op l r _) t s = do {
     lv \<leftarrow> Evaluate l t s;
     rv \<leftarrow> Evaluate r t s;
     eval_binary op lv rv }"
| "Evaluate (BoundComparison op l r) t s = do {
     lv \<leftarrow> Evaluate l t s;
     rv \<leftarrow> Evaluate r t s;
     eval_comparison op lv rv }"
| "Evaluate (BoundUnaryOp op e _) t s = do {
     v \<leftarrow> Evaluate e t s;
     eval_unary op v }"
| "Evaluate (BoundFunctionCall _ _ _ _) t s = Some VInvalid"
| "Evaluate BoundStar t s = Some VInvalid"

section \<open>Types and printing\<close>

definition function_return_type :: "str \<Rightarrow> TypeId" where
  "function_return_type name =
     (if name = ascii ''COUNT'' then BIGINT
      else if name = ascii ''SUM'' \<or> name = ascii ''AVG'' then DECIMAL
      else INVALID)"

definition GetReturnType :: "BoundExpression \<Rightarrow> TypeId option" where
  "GetReturnType e =
     (case e of
        Null_Expression \<Rightarrow> None
      | BoundColumnRef _ t \<Rightarrow> Some t
      | BoundConstant v \<Rightarrow> Some (GetTypeId v)
      | BoundBinaryOp _ _ _ t \<Rightarrow> Some t
      | BoundComparison _ _ _ \<Rightarrow> Some BOOLEAN
      | BoundUnaryOp _ _ t \<Rightarrow> Some t
      | BoundFunctionCall name _ _ _ \<Rightarrow> Some (function_return_type name)
      | BoundStar \<Rightarrow> Some INVALID)"

text \<open>\<open>ToString\<close>.\<close>

fun expr_to_string :: "BoundExpression \<Rightarrow> str option"
  and args_to_string :: "bool \<Rightarrow> BoundExpression list \<Rightarrow> str option" where
  "expr_to_string Null_Expression = None"
| "expr_to_string (BoundColumnRef i _) = Some (ascii ''#'' @ show_int i)"
| "expr_to_string (BoundConstant v) = value_to_string v"
| "expr_to_string (BoundBinaryOp op l r _) = do {
     a \<leftarrow> expr_to_string l;
     b \<leftarrow> expr_to_string r;
     Some (ascii ''('' @ a @ ascii '' '' @ op @ ascii '' '' @ b @ ascii '')'') }"
| "expr_to_string (BoundComparison op l r) = do {
     a \<leftarrow> expr_to_string l;
     b \<leftarrow> expr_to_string r;
     Some (a @ ascii '' '' @ op @ ascii '' '' @ b) }"
| "expr_to_string (BoundUnaryOp op e _) = do {
     a \<leftarrow> expr_to_string e;
     Some (op @ ascii ''('' @ a @ ascii '')'') }"
| "expr_to_string (BoundFunctionCall name args is_distinct is_star) =
     (if is_star then Some (name @ ascii ''(*)'')
      else do {
        a \<leftarrow> args_to_string True args;
        Some (name @ ascii ''('' @ (if is_distinct then ascii ''DISTINCT '' else []) @ a @ ascii '')'') })"
| "expr_to_string BoundStar = Some (ascii ''*'')"
| "args_to_string first [] = Some []"
| "args_to_string first (e # es) = do {
     a \<leftarrow> expr_to_string e;
     b \<leftarrow> args_to_string False es;
     Some ((if first then [] else ascii '', '') @ a @ b) }"

end
