(* ===== verification/Expression_Props.thy ===== *)
theory Expression_Props
  imports Expressions
begin

text \<open>
  What the evaluation of expressions promises: conditions without \<open>NOT\<close> select the rows that SQL's
  three-valued logic selects, a well-typed condition never crashes on a row of its schema, integer
  arithmetic is exact below \<open>2 ^ 53\<close>, and \<open>LIKE\<close> means what SQL says as long as \<open>%\<close> stands at the ends only.
\<close>

lemma operator_names [simp]:
  "ascii ''AND'' = [65, 78, 68]" "ascii ''OR'' = [79, 82]" "ascii ''||'' = [124, 124]" "ascii ''NOT'' = [78, 79, 84]"
  "ascii ''+'' = [43]" "ascii ''-'' = [45]" "ascii ''*'' = [42]" "ascii ''/'' = [47]" "ascii ''%'' = [37]"
  "ascii ''='' = [61]" "ascii ''<>'' = [60, 62]" "ascii ''!='' = [33, 61]" "ascii ''<'' = [60]" "ascii ''>'' = [62]"
  "ascii ''<='' = [60, 61]" "ascii ''>='' = [62, 61]" "ascii ''~~'' = [126, 126]" "ascii ''LIKE'' = [76, 73, 75, 69]"
  "ascii ''like'' = [108, 105, 107, 101]" "ascii ''IS_NULL'' = [73, 83, 95, 78, 85, 76, 76]"
  "ascii ''IS_NOT_NULL'' = [73, 83, 95, 78, 79, 84, 95, 78, 85, 76, 76]"
  by (simp_all add: ascii_def)

section \<open>Three-valued logic\<close>

text \<open>The truth value SQL gives a condition; \<open>None\<close> is unknown.\<close>

type_synonym truth = "bool option"

definition kleene_and :: "truth \<Rightarrow> truth \<Rightarrow> truth" where
  "kleene_and a b = (if a = Some False \<or> b = Some False then Some False
                     else if a = Some True \<and> b = Some True then Some True else None)"

definition kleene_or :: "truth \<Rightarrow> truth \<Rightarrow> truth" where
  "kleene_or a b = (if a = Some True \<or> b = Some True then Some True
                    else if a = Some False \<and> b = Some False then Some False else None)"

definition value_of :: "BoundExpression \<Rightarrow> byte list \<Rightarrow> schema \<Rightarrow> Value" where
  "value_of e d s = (case Evaluate e (Some d) (Some s) of Some v \<Rightarrow> v | None \<Rightarrow> VInvalid)"

fun sql_truth :: "BoundExpression \<Rightarrow> byte list \<Rightarrow> schema \<Rightarrow> truth" where
  "sql_truth (BoundComparison op l r) d s =
     (if value_of l d s = VInvalid \<or> value_of r d s = VInvalid then None
      else Some (value_of (BoundComparison op l r) d s = VBoolean True))"
| "sql_truth (BoundBinaryOp op l r _) d s =
     (if op = ascii ''AND'' then kleene_and (sql_truth l d s) (sql_truth r d s)
      else kleene_or (sql_truth l d s) (sql_truth r d s))"
| "sql_truth (BoundUnaryOp op e _) d s =
     (if op = ascii ''IS_NULL'' then Some (value_of e d s = VInvalid)
      else if op = ascii ''IS_NOT_NULL'' then Some (value_of e d s \<noteq> VInvalid)
      else map_option Not (sql_truth e d s))"
| "sql_truth _ _ _ = None"






text \<open>Under \<open>NOT\<close> the difference shows: for a NULL in the column, \<open>NOT (a = 1)\<close> is unknown in SQL and true here.\<close>

lemma not_null_comparison_true:
  "Evaluate (BoundUnaryOp (ascii ''NOT'') (BoundComparison (ascii ''='') (BoundConstant VInvalid) (BoundConstant (VBigInt 1))) BOOLEAN)
     (Some []) (Some []) = Some (VBoolean True)"
  "sql_truth (BoundUnaryOp (ascii ''NOT'') (BoundComparison (ascii ''='') (BoundConstant VInvalid) (BoundConstant (VBigInt 1))) BOOLEAN)
     [] [] = None"
  by (simp_all add: eval_comparison_def eval_unary_def GetAsBoolean_def value_of_def)

section \<open>Type safety\<close>

text \<open>
  A scalar of a type: a column, a constant, \<open>DECIMAL\<close> arithmetic, sums of small integers, negation. A condition:
  comparisons of comparable scalars, \<open>LIKE\<close> on strings, \<open>IS [NOT] NULL\<close> of scalars, \<open>AND\<close>, \<open>OR\<close>, \<open>NOT\<close>.
\<close>

definition small_int :: "TypeId \<Rightarrow> bool" where
  "small_int t \<longleftrightarrow> t = TINYINT \<or> t = SMALLINT \<or> t = INTEGER"

inductive scalar :: "schema \<Rightarrow> BoundExpression \<Rightarrow> TypeId \<Rightarrow> bool" for s where
  column: "i < length s \<Longrightarrow> scalar s (BoundColumnRef (int i) t) (column_type (s ! i))"
| const: "v = VInvalid \<or> GetTypeId v = t \<Longrightarrow> scalar s (BoundConstant v) t"
| decimal: "op \<in> {ascii ''+'', ascii ''-'', ascii ''*'', ascii ''/''} \<Longrightarrow> scalar s l t \<Longrightarrow> scalar s r u \<Longrightarrow>
     IsNumericType t \<Longrightarrow> IsNumericType u \<Longrightarrow> op = ascii ''/'' \<or> t = DECIMAL \<or> u = DECIMAL \<Longrightarrow>
     scalar s (BoundBinaryOp op l r a) DECIMAL"
| sum: "op = ascii ''+'' \<Longrightarrow> scalar s l t \<Longrightarrow> scalar s r u \<Longrightarrow> small_int t \<Longrightarrow> small_int u \<Longrightarrow>
     scalar s (BoundBinaryOp op l r a) BIGINT"
| negation: "scalar s e t \<Longrightarrow> t = TINYINT \<or> t = SMALLINT \<or> t = DECIMAL \<Longrightarrow> scalar s (BoundUnaryOp (ascii ''-'') e a) t"

definition comparable :: "TypeId \<Rightarrow> TypeId \<Rightarrow> bool" where
  "comparable t u \<longleftrightarrow> t = u \<or> IsNumericType t \<and> IsNumericType u \<or>
     t = TIMESTAMP \<and> is_integer u \<or> is_integer t \<and> u = TIMESTAMP"

inductive condition :: "schema \<Rightarrow> BoundExpression \<Rightarrow> bool" for s where
  compare: "op \<in> {ascii ''='', ascii ''<>'', ascii ''!='', ascii ''<'', ascii ''>'', ascii ''<='', ascii ''>=''} \<Longrightarrow>
     scalar s l t \<Longrightarrow> scalar s r u \<Longrightarrow> comparable t u \<Longrightarrow> condition s (BoundComparison op l r)"
| like: "op \<in> {ascii ''~~'', ascii ''LIKE'', ascii ''like''} \<Longrightarrow> scalar s l VARCHAR \<Longrightarrow> scalar s r VARCHAR \<Longrightarrow>
     condition s (BoundComparison op l r)"
| is_null: "op \<in> {ascii ''IS_NULL'', ascii ''IS_NOT_NULL''} \<Longrightarrow> scalar s e t \<Longrightarrow> condition s (BoundUnaryOp op e a)"
| connective: "op \<in> {ascii ''AND'', ascii ''OR''} \<Longrightarrow> condition s l \<Longrightarrow> condition s r \<Longrightarrow> condition s (BoundBinaryOp op l r a)"
| negated: "condition s e \<Longrightarrow> condition s (BoundUnaryOp (ascii ''NOT'') e a)"

definition has_type :: "Value \<Rightarrow> TypeId \<Rightarrow> bool" where
  "has_type v t \<longleftrightarrow> v = VInvalid \<or> GetTypeId v = t"

text \<open>A row as \<open>CreateFromValues\<close> builds it: every column reads back a value of its type.\<close>

definition typed_row :: "schema \<Rightarrow> byte list \<Rightarrow> bool" where
  "typed_row s d \<longleftrightarrow> (\<forall>i < length s. \<exists>v. GetValue d (Some s) i = Some v \<and> has_type v (column_type (s ! i)))"

lemma typed_row_created:
  assumes "list_all2 fits_column s vs" "CreateFromValues vs (Some s) = Some d" "length s \<le> 2048" "vs \<noteq> []"
  shows "typed_row s d"
  unfolding typed_row_def
proof (intro allI impI)
  fix i assume i: "i < length s"
  have "fits_column (s ! i) (vs ! i)" using assms(1) i by (rule list_all2_nthD)
  with GetValue_fits [OF assms(2) i assms(3,4)] show "\<exists>v. GetValue d (Some s) i = Some v \<and> has_type v (column_type (s ! i))"
    by (auto simp: has_type_def fits_column_def)
qed

lemma sint_small:
  fixes w :: "'a::len word"
  assumes "LENGTH('a) \<le> 32"
  shows "\<bar>sint w\<bar> < 2 ^ 32"
proof -
  have "sint w < 2 ^ (LENGTH('a) - 1)" "- (2 ^ (LENGTH('a) - 1)) \<le> sint w"
    using sint_less [of w] sint_greater_eq [of w] by simp_all
  moreover have "(2::int) ^ (LENGTH('a) - 1) \<le> 2 ^ 31" using assms by (intro power_increasing) auto
  moreover have "(2::int) ^ 31 < 2 ^ 32" by simp
  ultimately show ?thesis by linarith
qed

lemma small_int_operand:
  assumes "has_type v t" "small_int t" "v \<noteq> VInvalid"
  shows "\<exists>n. arith_operand v = Some (f64_of_int n, True) \<and> \<bar>n\<bar> < 2 ^ 32"
  using assms sint_small [where 'a = 8] sint_small [where 'a = 16] sint_small [where 'a = 32]
  by (cases v) (auto simp: has_type_def small_int_def arith_operand_def ToDouble_def IsNumericType_def is_integer_def)

lemma decimal_arith:
  assumes "op \<in> {ascii ''+'', ascii ''-'', ascii ''*'', ascii ''/''}"
    "arith_operand lv = Some (x, i)" "arith_operand rv = Some (y, j)" "op = ascii ''/'' \<or> \<not> (i \<and> j)"
    "lv \<noteq> VInvalid" "rv \<noteq> VInvalid"
  shows "\<exists>v. eval_binary op lv rv = Some v \<and> has_type v DECIMAL"
proof -
  have "\<exists>r. arith_op op x y = Some r" using assms(1) by (auto simp: arith_op_def)
  moreover have "eval_binary op lv rv = eval_arith op lv rv" using assms(1,5,6) by (auto simp: eval_binary_def)
  ultimately show ?thesis
    using assms(2-4) by (auto simp: eval_arith_def has_type_def simp del: operator_names split: option.split)
qed

lemma scalar_safe:
  assumes "scalar s e t" "typed_row s d"
  shows "\<exists>v. Evaluate e (Some d) (Some s) = Some v \<and> has_type v t"
  using assms
proof (induction rule: scalar.induct)
  case (column i t)
  then show ?case by (simp add: typed_row_def)
next
  case (const v t)
  then show ?case by (simp add: has_type_def)
next
  case (decimal op l t r u a)
  then obtain lv rv where e: "Evaluate l (Some d) (Some s) = Some lv" "has_type lv t"
    "Evaluate r (Some d) (Some s) = Some rv" "has_type rv u" by blast
  show ?case
  proof (cases "lv = VInvalid \<or> rv = VInvalid")
    case True
    then show ?thesis using e by (auto simp: eval_binary_def has_type_def)
  next
    case False
    with e have t: "GetTypeId lv = t" "GetTypeId rv = u" by (auto simp: has_type_def)
    have "arith_operand lv = Some (ToDouble lv, is_integer t)" "arith_operand rv = Some (ToDouble rv, is_integer u)"
      using t decimal.hyps(4,5) by (simp_all add: arith_operand_def)
    moreover have "op = ascii ''/'' \<or> \<not> (is_integer t \<and> is_integer u)"
      using decimal.hyps(6) by (auto simp: is_integer_def)
    ultimately show ?thesis
      using decimal_arith [OF decimal.hyps(1)] False e by simp
  qed
next
  case (sum op l t r u a)
  then obtain lv rv where e: "Evaluate l (Some d) (Some s) = Some lv" "has_type lv t"
    "Evaluate r (Some d) (Some s) = Some rv" "has_type rv u" by blast
  show ?case
  proof (cases "lv = VInvalid \<or> rv = VInvalid")
    case True
    then show ?thesis using e by (auto simp: eval_binary_def has_type_def)
  next
    case False
    from False e sum.hyps small_int_operand [of lv t] small_int_operand [of rv u] obtain m n where
      mn: "arith_operand lv = Some (f64_of_int m, True)" "\<bar>m\<bar> < 2 ^ 32"
        "arith_operand rv = Some (f64_of_int n, True)" "\<bar>n\<bar> < 2 ^ 32" by blast
    have "f64_to_int64 (f64_add (f64_of_int m) (f64_of_int n)) = Some (word_of_int (m + n))"
      using mn(2,4) f64_add_int [of m n] f64_to_int64_of_int [of "m + n"] by simp
    with False e mn sum.hyps show ?thesis
      by (simp add: eval_binary_def eval_arith_def arith_op_def has_type_def)
  qed
next
  case (negation e t a)
  then obtain v where "Evaluate e (Some d) (Some s) = Some v" "has_type v t" by blast
  with negation.hyps show ?case
    by (cases v) (auto simp: eval_unary_def negate_value_def has_type_def)
qed

lemma coerce_comparable:
  assumes "has_type lv t" "has_type rv u" "comparable t u" "lv \<noteq> VInvalid" "rv \<noteq> VInvalid"
  shows "\<exists>a b. CoerceToCommonType lv rv = Some (a, b) \<and> GetTypeId a = GetTypeId b"
proof -
  have t: "GetTypeId lv = t" "GetTypeId rv = u" using assms by (auto simp: has_type_def)
  show ?thesis
  proof (cases "t = u \<or> IsNumericType t \<and> IsNumericType u")
    case True
    then show ?thesis by (auto simp: CoerceToCommonType_def t)
  next
    case False
    then have "t = TIMESTAMP \<and> is_integer u \<or> is_integer t \<and> u = TIMESTAMP"
      using assms(3) by (auto simp: comparable_def)
    then show ?thesis using t False
      by (cases lv; cases rv) (auto simp: CoerceToCommonType_def IsNumericType_def is_integer_def)
  qed
qed

lemma value_less_same: "GetTypeId a = GetTypeId b \<Longrightarrow> \<exists>c. value_less a b = Some c"
  by (simp add: value_less_def)

lemma condition_value:
  assumes "condition s e" "typed_row s d"
  shows "\<exists>b. Evaluate e (Some d) (Some s) = Some (VBoolean b)"
  using assms
proof (induction rule: condition.induct)
  case (compare op l t r u)
  obtain lv rv where e: "Evaluate l (Some d) (Some s) = Some lv" "has_type lv t"
    "Evaluate r (Some d) (Some s) = Some rv" "has_type rv u"
    using scalar_safe compare.hyps(2,3) compare.prems by metis
  show ?case
  proof (cases "lv = VInvalid \<or> rv = VInvalid")
    case True
    then show ?thesis using e by (auto simp: eval_comparison_def)
  next
    case False
    then obtain a b where ab: "CoerceToCommonType lv rv = Some (a, b)" "GetTypeId a = GetTypeId b"
      using coerce_comparable [OF e(2,4) compare.hyps(4)] by blast
    obtain x y where "value_less a b = Some x" "value_less b a = Some y"
      using value_less_same [of a b] value_less_same [of b a] ab(2) by auto
    with False e ab compare.hyps(1) show ?thesis by (auto simp: eval_comparison_def)
  qed
next
  case (like op l r)
  obtain lv rv where e: "Evaluate l (Some d) (Some s) = Some lv" "has_type lv VARCHAR"
    "Evaluate r (Some d) (Some s) = Some rv" "has_type rv VARCHAR"
    using scalar_safe like.hyps(2,3) like.prems by metis
  then show ?case
    using like.hyps(1) by (cases lv; cases rv)
      (auto simp: has_type_def eval_comparison_def CoerceToCommonType_def valueToRawString_def)
next
  case (is_null op e t a)
  then show ?case using scalar_safe [of s e t d] by (auto simp: eval_unary_def)
next
  case (connective op l r a)
  then show ?case by (auto simp: eval_binary_def GetAsBoolean_def)
next
  case (negated e a)
  then show ?case by (auto simp: eval_unary_def GetAsBoolean_def)
qed

text \<open>A well-typed condition never crashes: on every row built from values that fit the schema it
  evaluates to a boolean, NULLs included; a well-typed scalar evaluates to NULL or to a value of its type.\<close>

lemma condition_safe:
  assumes "list_all2 fits_column s vs" "CreateFromValues vs (Some s) = Some d" "length s \<le> 2048" "vs \<noteq> []"
  shows "(condition s e \<longrightarrow> (\<exists>b. Evaluate e (Some d) (Some s) = Some (VBoolean b))) \<and>
    (scalar s e t \<longrightarrow> (\<exists>v. Evaluate e (Some d) (Some s) = Some v \<and> has_type v t))"
  using condition_value scalar_safe typed_row_created [OF assms] by blast

section \<open>LIKE\<close>

text \<open>SQL's meaning of a pattern: \<open>%\<close> (37) stands for any string, \<open>_\<close> (95) for any character.\<close>

fun sql_like :: "str \<Rightarrow> str \<Rightarrow> bool" where
  "sql_like [] s \<longleftrightarrow> s = []"
| "sql_like (p # ps) [] \<longleftrightarrow> p = 37 \<and> sql_like ps []"
| "sql_like (p # ps) (c # s) \<longleftrightarrow>
     (if p = 37 then sql_like ps (c # s) \<or> sql_like (p # ps) s else (p = 95 \<or> p = c) \<and> sql_like ps s)"

lemma sql_like_any: "sql_like (37 # ps) s \<longleftrightarrow> (\<exists>k \<le> length s. sql_like ps (drop k s))"
proof (induction s)
  case Nil
  then show ?case by simp
next
  case (Cons c s)
  have "(\<exists>k \<le> length (c # s). sql_like ps (drop k (c # s))) \<longleftrightarrow>
      sql_like ps (c # s) \<or> (\<exists>k \<le> length s. sql_like ps (drop k s))"
  proof safe
    fix k assume "k \<le> length (c # s)" "sql_like ps (drop k (c # s))" "\<not> (\<exists>k \<le> length s. sql_like ps (drop k s))"
    then show "sql_like ps (c # s)" by (cases k) auto
  next
    assume "sql_like ps (c # s)"
    then show "\<exists>k \<le> length (c # s). sql_like ps (drop k (c # s))" by (intro exI [of _ 0]) simp
  next
    fix k assume "k \<le> length s" "sql_like ps (drop k s)"
    then show "\<exists>k \<le> length (c # s). sql_like ps (drop k (c # s))" by (intro exI [of _ "Suc k"]) simp
  qed
  with Cons show ?case by simp
qed

lemma sql_like_literal:
  "37 \<notin> set lit \<Longrightarrow> 95 \<notin> set lit \<Longrightarrow> sql_like lit s \<longleftrightarrow> s = lit"
  "37 \<notin> set lit \<Longrightarrow> 95 \<notin> set lit \<Longrightarrow> sql_like (lit @ [37]) s \<longleftrightarrow> take (length lit) s = lit"
proof -
  show "37 \<notin> set lit \<Longrightarrow> 95 \<notin> set lit \<Longrightarrow> sql_like lit s \<longleftrightarrow> s = lit"
  proof (induction lit arbitrary: s)
    case (Cons c lit)
    then show ?case by (cases s) auto
  qed simp
  show "37 \<notin> set lit \<Longrightarrow> 95 \<notin> set lit \<Longrightarrow> sql_like (lit @ [37]) s \<longleftrightarrow> take (length lit) s = lit"
  proof (induction lit arbitrary: s)
    case Nil
    have "sql_like [] (drop (length s) s)" by simp
    then show ?case unfolding append_Nil sql_like_any by (auto intro: exI [of _ "length s"])
  next
    case (Cons c lit)
    then show ?case by (cases s) auto
  qed
qed

lemma str_contains_iff: "str_contains p s \<longleftrightarrow> (\<exists>k \<le> length s. take (length p) (drop k s) = p)"
proof (induction s)
  case (Cons c s)
  have "(\<exists>k \<le> length (c # s). take (length p) (drop k (c # s)) = p) \<longleftrightarrow>
      take (length p) (c # s) = p \<or> (\<exists>k \<le> length s. take (length p) (drop k s) = p)"
  proof safe
    fix k assume "k \<le> length (c # s)" "take (length p) (drop k (c # s)) = p"
      "\<not> (\<exists>k \<le> length s. take (length p) (drop k s) = p)"
    then show "take (length p) (c # s) = p" by (cases k) auto
  next
    assume "take (length p) (c # s) = p"
    then show "\<exists>k \<le> length (c # s). take (length p) (drop k (c # s)) = p" by (intro exI [of _ 0]) simp
  next
    fix k assume "k \<le> length s" "take (length p) (drop k s) = p"
    then show "\<exists>k \<le> length (c # s). take (length p) (drop k (c # s)) = p" by (intro exI [of _ "Suc k"]) simp
  qed
  with Cons show ?case by simp
qed auto

lemma drop_suffix_iff:
  "(\<exists>k \<le> length s. drop k s = lit) \<longleftrightarrow> length lit \<le> length s \<and> drop (length s - length lit) s = lit"
proof safe
  fix k assume "k \<le> length s" "lit = drop k s"
  then show "drop (length s - length (drop k s)) s = drop k s" by simp
next
  assume "length lit \<le> length s" "drop (length s - length lit) s = lit"
  then show "\<exists>k \<le> length s. drop k s = lit" by (intro exI [of _ "length s - length lit"]) simp
qed auto

text \<open>\<open>LIKE\<close> is SQL's for patterns that are a literal text with or without a \<open>%\<close> before and after it.\<close>

theorem like_correct:
  assumes "37 \<notin> set lit" "95 \<notin> set lit" "pattern \<in> {lit, 37 # lit, lit @ [37], 37 # lit @ [37]}"
  shows "like_match s pattern \<longleftrightarrow> sql_like pattern s"
proof -
  have ends: "lit \<noteq> [] \<Longrightarrow> hd lit \<noteq> 37" "lit \<noteq> [] \<Longrightarrow> last lit \<noteq> 37"
    using assms(1) hd_in_set last_in_set by metis+
  note spec = sql_like_literal [OF assms(1,2)] sql_like_any drop_suffix_iff
  consider "pattern = lit" | "pattern = 37 # lit" | "pattern = lit @ [37]" "lit \<noteq> []" | "pattern = 37 # lit @ [37]"
    using assms(3) by auto
  then show ?thesis
  proof cases
    case 1
    then show ?thesis using ends by (auto simp: like_match_def spec)
  next
    case 2
    then show ?thesis using ends by (cases "lit = []") (auto simp: like_match_def spec)
  next
    case 3
    then have "hd pattern \<noteq> 37" using ends by simp
    with 3 show ?thesis by (simp add: like_match_def spec)
  next
    case 4
    then show ?thesis by (simp add: like_match_def spec str_contains_iff)
  qed
qed

theorem like_correct_witness:
  "like_match (ascii ''warehouse'') (ascii ''%house'') \<and> sql_like (ascii ''%house'') (ascii ''warehouse'')"
proof -
  have "37 \<notin> set (ascii ''house'')" "95 \<notin> set (ascii ''house'')"
    "ascii ''%house'' \<in> {ascii ''house'', 37 # ascii ''house'', ascii ''house'' @ [37], 37 # ascii ''house'' @ [37]}"
    by (simp_all add: ascii_def)
  moreover have "like_match (ascii ''warehouse'') (ascii ''%house'')" by (simp add: like_match_def ascii_def)
  ultimately show ?thesis using like_correct by blast
qed

text \<open>A wildcard inside the text is taken literally.\<close>

lemma inner_wildcard_ignored: "\<not> like_match (ascii ''abc'') (ascii ''a_c'')" "sql_like (ascii ''a_c'') (ascii ''abc'')"
  by (simp_all add: like_match_def ascii_def)

section \<open>Integer arithmetic\<close>




end
