(* ===== verification/Ast.thy ===== *)
theory Ast
  imports Values
begin

text \<open>
  The abstract syntax of statements (sql/parser/ast.h) and its printing (the first part of
  sql/parser/parser.cpp). A null pointer to an expression is \<open>Null_AST\<close>. The alias of an expression is used
  for entries of the select list only and stands beside them. The translation from the parse tree of
  libpg_query is in Parser. A subquery keeps no trace of its statement: nothing reads it.
\<close>

datatype DataTypeKind = K_INVALID | K_BOOLEAN | K_TINYINT | K_SMALLINT | K_INTEGER | K_BIGINT | K_DECIMAL | K_REAL
  | K_VARCHAR | K_TEXT | K_TIMESTAMP | K_DATE

record DataType =
  kind :: DataTypeKind
  type_length :: i32

definition ToTypeId :: "DataType \<Rightarrow> TypeId" where
  "ToTypeId t = (case kind t of K_BOOLEAN \<Rightarrow> BOOLEAN | K_TINYINT \<Rightarrow> TINYINT | K_SMALLINT \<Rightarrow> SMALLINT
     | K_INTEGER \<Rightarrow> INTEGER | K_BIGINT \<Rightarrow> BIGINT | K_DECIMAL \<Rightarrow> DECIMAL | K_REAL \<Rightarrow> DECIMAL | K_VARCHAR \<Rightarrow> VARCHAR
     | K_TEXT \<Rightarrow> VARCHAR | K_TIMESTAMP \<Rightarrow> TIMESTAMP | K_DATE \<Rightarrow> TIMESTAMP | K_INVALID \<Rightarrow> INVALID)"

definition data_type_to_string :: "DataType \<Rightarrow> str" where
  "data_type_to_string t =
     (case kind t of K_BOOLEAN \<Rightarrow> ascii ''BOOLEAN'' | K_TINYINT \<Rightarrow> ascii ''TINYINT'' | K_SMALLINT \<Rightarrow> ascii ''SMALLINT''
      | K_INTEGER \<Rightarrow> ascii ''INTEGER'' | K_BIGINT \<Rightarrow> ascii ''BIGINT'' | K_DECIMAL \<Rightarrow> ascii ''DECIMAL'' | K_REAL \<Rightarrow> ascii ''REAL''
      | K_VARCHAR \<Rightarrow> (if 0 < type_length t
                     then ascii ''VARCHAR('' @ show_nat (unat (type_length t)) @ ascii '')'' else ascii ''VARCHAR'')
      | K_TEXT \<Rightarrow> ascii ''TEXT'' | K_TIMESTAMP \<Rightarrow> ascii ''TIMESTAMP'' | K_DATE \<Rightarrow> ascii ''DATE'' | K_INVALID \<Rightarrow> ascii ''INVALID'')"

definition FromString :: "str \<Rightarrow> i32 \<Rightarrow> DataType" where
  "FromString name len =
     (let among = (\<lambda>names. name \<in> set (map ascii names)); plain = (\<lambda>k. \<lparr>kind = k, type_length = 0\<rparr>) in
      if among [''BOOLEAN'', ''BOOL''] then plain K_BOOLEAN
      else if among [''TINYINT'', ''INT1''] then plain K_TINYINT
      else if among [''SMALLINT'', ''INT2''] then plain K_SMALLINT
      else if among [''INTEGER'', ''INT'', ''INT4''] then plain K_INTEGER
      else if among [''BIGINT'', ''INT8''] then plain K_BIGINT
      else if among [''DECIMAL'', ''NUMERIC'', ''DEC''] then plain K_DECIMAL
      else if among [''REAL'', ''FLOAT'', ''FLOAT4'', ''DOUBLE'', ''FLOAT8'', ''DOUBLE PRECISION''] then plain K_REAL
      else if among [''VARCHAR'', ''CHARACTER VARYING'', ''NVARCHAR''] then \<lparr>kind = K_VARCHAR, type_length = len\<rparr>
      else if among [''CHAR'', ''CHARACTER'', ''BPCHAR'']
        then \<lparr>kind = K_VARCHAR, type_length = (if 0 < len then len else 1)\<rparr>
      else if among [''TEXT'', ''CLOB''] then plain K_TEXT
      else if among [''TIMESTAMP'', ''TIMESTAMP WITHOUT TIME ZONE''] then plain K_TIMESTAMP
      else if among [''DATE''] then plain K_DATE
      else plain K_INVALID)"

section \<open>Nodes\<close>

datatype ASTExpression =
    Null_AST
  | ColumnRefExpression (ref_table: str) (ref_column: str) (ref_is_star: bool)
  | ConstantExpression Value
  | BinaryOpExpression str ASTExpression ASTExpression
  | UnaryOpExpression str ASTExpression
  | FunctionCallExpression str "ASTExpression list" bool bool
  | ComparisonExpression str ASTExpression ASTExpression
  | StarExpression
  | TypeCastExpression ASTExpression DataType
  | SubqueryExpression
  | CaseExpression ASTExpression "WhenClause list" ASTExpression
  | InListExpression ASTExpression "ASTExpression list" bool
  | IsNullExpression ASTExpression bool
and WhenClause = WhenClause ASTExpression ASTExpression

record ColumnDefinition =
  def_name :: str
  def_type :: DataType
  def_nullable :: bool
  def_primary_key :: bool
  def_unique :: bool
  default_value :: str

datatype OrderType = ASC | DESC | DEFAULT

datatype JoinType = INNER_JOIN | LEFT_JOIN | RIGHT_JOIN | FULL_JOIN | CROSS_JOIN | NATURAL_JOIN

record JoinClause =
  join_type :: JoinType
  join_table :: str
  join_alias :: str
  join_condition :: ASTExpression
  using_columns :: "str list"

record SelectStatement =
  select_list :: "(ASTExpression \<times> str) list"
  is_distinct :: bool
  select_table :: str
  table_alias :: str
  joins :: "JoinClause list"
  where_clause :: ASTExpression
  group_by :: "ASTExpression list"
  having_clause :: ASTExpression
  order_by :: "(ASTExpression \<times> OrderType) list"
  limit_count :: ASTExpression
  limit_offset :: ASTExpression
  is_subquery :: bool

record InsertStatement =
  insert_table :: str
  column_names :: "str list"
  value_rows :: "ASTExpression list list"
  select_source :: "SelectStatement option"

record UpdateStatement =
  update_table :: str
  set_clauses :: "(str \<times> ASTExpression) list"
  update_where :: ASTExpression

record DeleteStatement =
  delete_table_name :: str
  delete_where :: ASTExpression

record CreateStatement =
  create_name :: str
  columns :: "ColumnDefinition list"
  create_if_not_exists :: bool

record DropStatement =
  drop_name :: str
  drop_if_exists :: bool

record CreateIndexStatement =
  ci_name :: str
  ci_table :: str
  ci_column :: str
  ci_type :: str
  ci_unique :: bool
  ci_if_not_exists :: bool

datatype ASTStatement =
    Select_Stmt SelectStatement
  | Insert_Stmt InsertStatement
  | Update_Stmt UpdateStatement
  | Delete_Stmt DeleteStatement
  | Create_Stmt CreateStatement
  | Drop_Stmt DropStatement
  | Create_Index_Stmt CreateIndexStatement

section \<open>Printing\<close>

text \<open>\<open>ToString\<close> of an expression pointer, with \<open>?\<close> for a null one; a value that cannot be printed stops it.\<close>

fun ast_to_string :: "ASTExpression \<Rightarrow> str option"
  and ast_list_to_string :: "bool \<Rightarrow> ASTExpression list \<Rightarrow> str option"
  and when_to_string :: "WhenClause list \<Rightarrow> str option" where
  "ast_to_string Null_AST = Some (ascii ''?'')"
| "ast_to_string (ColumnRefExpression t c star) =
     Some (if star then (if t = [] then ascii ''*'' else t @ ascii ''.*'') else if t = [] then c else t @ ascii ''.'' @ c)"
| "ast_to_string (ConstantExpression v) = value_to_string v"
| "ast_to_string (BinaryOpExpression op l r) = do {
     a \<leftarrow> ast_to_string l;
     b \<leftarrow> ast_to_string r;
     Some (ascii ''('' @ a @ ascii '' '' @ op @ ascii '' '' @ b @ ascii '')'') }"
| "ast_to_string (UnaryOpExpression op e) = do {
     a \<leftarrow> ast_to_string e;
     Some (op @ ascii ''('' @ a @ ascii '')'') }"
| "ast_to_string (FunctionCallExpression name args distct star) =
     (if star then Some (name @ ascii ''(*)'')
      else do {
        a \<leftarrow> ast_list_to_string True args;
        Some (name @ ascii ''('' @ (if distct then ascii ''DISTINCT '' else []) @ a @ ascii '')'') })"
| "ast_to_string (ComparisonExpression op l r) = do {
     a \<leftarrow> ast_to_string l;
     b \<leftarrow> ast_to_string r;
     Some (a @ ascii '' '' @ op @ ascii '' '' @ b) }"
| "ast_to_string StarExpression = Some (ascii ''*'')"
| "ast_to_string (TypeCastExpression e t) = do {
     a \<leftarrow> ast_to_string e;
     Some (ascii ''CAST('' @ a @ ascii '' AS '' @ data_type_to_string t @ ascii '')'') }"
| "ast_to_string SubqueryExpression = Some (ascii ''(subquery)'')"
| "ast_to_string (CaseExpression operand whens els) = do {
     a \<leftarrow> (if operand = Null_AST then Some [] else map_option (\<lambda>s. ascii '' '' @ s) (ast_to_string operand));
     b \<leftarrow> when_to_string whens;
     c \<leftarrow> (if els = Null_AST then Some [] else map_option (\<lambda>s. ascii '' ELSE '' @ s) (ast_to_string els));
     Some (ascii ''CASE'' @ a @ b @ c @ ascii '' END'') }"
| "ast_to_string (InListExpression l xs is_not) = do {
     a \<leftarrow> ast_to_string l;
     b \<leftarrow> ast_list_to_string True xs;
     Some (a @ (if is_not then ascii '' NOT IN ('' else ascii '' IN ('') @ b @ ascii '')'') }"
| "ast_to_string (IsNullExpression e is_not) = do {
     a \<leftarrow> ast_to_string e;
     Some (a @ (if is_not then ascii '' IS NOT NULL'' else ascii '' IS NULL'')) }"
| "ast_list_to_string first [] = Some []"
| "ast_list_to_string first (e # es) = do {
     a \<leftarrow> ast_to_string e;
     b \<leftarrow> ast_list_to_string False es;
     Some ((if first then [] else ascii '', '') @ a @ b) }"
| "when_to_string [] = Some []"
| "when_to_string (WhenClause cond res # ws) = do {
     a \<leftarrow> ast_to_string cond;
     b \<leftarrow> ast_to_string res;
     c \<leftarrow> when_to_string ws;
     Some (ascii '' WHEN '' @ a @ ascii '' THEN '' @ b @ c) }"

definition column_definition_to_string :: "ColumnDefinition \<Rightarrow> str" where
  "column_definition_to_string c =
     def_name c @ ascii '' '' @ data_type_to_string (def_type c) @
     (if \<not> def_nullable c then ascii '' NOT NULL'' else []) @
     (if def_primary_key c then ascii '' PRIMARY KEY'' else []) @
     (if def_unique c then ascii '' UNIQUE'' else []) @
     (if default_value c \<noteq> [] then ascii '' DEFAULT '' @ default_value c else [])"

text \<open>Statements. A list is printed with commas between its items.\<close>

fun comma_list :: "str list \<Rightarrow> str" where
  "comma_list [] = []"
| "comma_list [x] = x"
| "comma_list (x # y # ys) = x @ ascii '', '' @ comma_list (y # ys)"

abbreviation print_all :: "('a \<Rightarrow> str option) \<Rightarrow> 'a list \<Rightarrow> str option" where
  "print_all f xs \<equiv> map_option comma_list (those (map f xs))"

text \<open>An optional part: nothing for a null pointer, otherwise a keyword and the expression.\<close>

definition clause_to_string :: "str \<Rightarrow> ASTExpression \<Rightarrow> str option" where
  "clause_to_string keyword e = (if e = Null_AST then Some [] else map_option (\<lambda>s. keyword @ s) (ast_to_string e))"

definition order_by_to_string :: "ASTExpression \<times> OrderType \<Rightarrow> str option" where
  "order_by_to_string ob =
     map_option (\<lambda>s. s @ (case snd ob of ASC \<Rightarrow> ascii '' ASC'' | DESC \<Rightarrow> ascii '' DESC'' | DEFAULT \<Rightarrow> []))
       (ast_to_string (fst ob))"

definition join_to_string :: "JoinClause \<Rightarrow> str option" where
  "join_to_string j = do {
     cond \<leftarrow> clause_to_string (ascii '' ON '') (join_condition j);
     Some ((case join_type j of
        INNER_JOIN \<Rightarrow> ascii ''INNER JOIN'' | LEFT_JOIN \<Rightarrow> ascii ''LEFT JOIN'' | RIGHT_JOIN \<Rightarrow> ascii ''RIGHT JOIN''
      | FULL_JOIN \<Rightarrow> ascii ''FULL JOIN'' | CROSS_JOIN \<Rightarrow> ascii ''CROSS JOIN'' | NATURAL_JOIN \<Rightarrow> ascii ''NATURAL JOIN'') @
      ascii '' '' @ join_table j @ (if join_alias j \<noteq> [] then ascii '' AS '' @ join_alias j else []) @ cond) }"

definition select_to_string :: "SelectStatement \<Rightarrow> str option" where
  "select_to_string stmt = do {
     list \<leftarrow> print_all (ast_to_string \<circ> fst) (select_list stmt);
     joined \<leftarrow> those (map join_to_string (joins stmt));
     whr \<leftarrow> clause_to_string (ascii '' WHERE '') (where_clause stmt);
     groups \<leftarrow> print_all ast_to_string (group_by stmt);
     having \<leftarrow> clause_to_string (ascii '' HAVING '') (having_clause stmt);
     order \<leftarrow> print_all order_by_to_string (order_by stmt);
     limit \<leftarrow> clause_to_string (ascii '' LIMIT '') (limit_count stmt);
     offset \<leftarrow> clause_to_string (ascii '' OFFSET '') (limit_offset stmt);
     Some (ascii ''SELECT '' @ (if is_distinct stmt then ascii ''DISTINCT '' else []) @ list @
       (if select_table stmt = [] then []
        else ascii '' FROM '' @ select_table stmt @
          (if table_alias stmt \<noteq> [] then ascii '' AS '' @ table_alias stmt else []) @
          concat (map (\<lambda>j. ascii '' '' @ j) joined)) @
       whr @ (if group_by stmt = [] then [] else ascii '' GROUP BY '' @ groups) @ having @
       (if order_by stmt = [] then [] else ascii '' ORDER BY '' @ order) @ limit @ offset) }"

definition insert_to_string :: "InsertStatement \<Rightarrow> str option" where
  "insert_to_string stmt = do {
     source \<leftarrow> (case select_source stmt of
         Some q \<Rightarrow> map_option (\<lambda>s. ascii '' '' @ s) (select_to_string q)
       | None \<Rightarrow> map_option (\<lambda>s. ascii '' VALUES '' @ s)
           (print_all (\<lambda>row. map_option (\<lambda>s. ascii ''('' @ s @ ascii '')'') (print_all ast_to_string row)) (value_rows stmt)));
     Some (ascii ''INSERT INTO '' @ insert_table stmt @
       (if column_names stmt \<noteq> [] then ascii ''('' @ comma_list (column_names stmt) @ ascii '')'' else []) @ source) }"

definition update_to_string :: "UpdateStatement \<Rightarrow> str option" where
  "update_to_string stmt = do {
     sets \<leftarrow> print_all (\<lambda>(c, e). map_option (\<lambda>s. c @ ascii '' = '' @ s) (ast_to_string e)) (set_clauses stmt);
     whr \<leftarrow> clause_to_string (ascii '' WHERE '') (update_where stmt);
     Some (ascii ''UPDATE '' @ update_table stmt @ ascii '' SET '' @ sets @ whr) }"

definition delete_to_string :: "DeleteStatement \<Rightarrow> str option" where
  "delete_to_string stmt = do {
     whr \<leftarrow> clause_to_string (ascii '' WHERE '') (delete_where stmt);
     Some (ascii ''DELETE FROM '' @ delete_table_name stmt @ whr) }"

definition create_to_string :: "CreateStatement \<Rightarrow> str" where
  "create_to_string stmt =
     ascii ''CREATE TABLE '' @ (if create_if_not_exists stmt then ascii ''IF NOT EXISTS '' else []) @ create_name stmt @
     ascii '' ('' @ comma_list (map column_definition_to_string (columns stmt)) @ ascii '')''"

definition drop_to_string :: "DropStatement \<Rightarrow> str" where
  "drop_to_string stmt =
     ascii ''DROP TABLE '' @ (if drop_if_exists stmt then ascii ''IF EXISTS '' else []) @ drop_name stmt"

definition create_index_to_string :: "CreateIndexStatement \<Rightarrow> str" where
  "create_index_to_string stmt =
     (if ci_unique stmt then ascii ''UNIQUE '' else []) @ ascii ''INDEX '' @
     (if ci_if_not_exists stmt then ascii ''IF NOT EXISTS '' else []) @ ci_name stmt @ ascii '' ON '' @ ci_table stmt @
     ascii '' ('' @ ci_column stmt @ ascii '')'' @ (if ci_type stmt \<noteq> [] then ascii '' USING '' @ ci_type stmt else [])"

end
