(* ===== verification/Binder.thy ===== *)
theory Binder
  imports Ast Expressions Catalogs
begin

text \<open>
  The binder (the second part of sql/binder/binder.cpp): names are resolved against the catalog and the
  schema of the table, which gives bound statements. \<open>error_message_\<close> is threaded through. A
  \<open>const Schema*\<close> into the catalog is the schema. \<open>None\<close> is undefined behaviour: a column looked up without a
  schema, or an assertion on the value of a LIMIT.
\<close>

section \<open>Bound statements\<close>

record BoundSelectStmt =
  bs_select_list :: "(BoundExpression \<times> str) list"
  bs_is_distinct :: bool
  bs_table_name :: str
  bs_table_schema :: "schema option"
  bs_where_clause :: BoundExpression
  bs_group_by :: "BoundExpression list"
  bs_having_clause :: BoundExpression
  bs_order_by :: "(BoundExpression \<times> bool) list"
  bs_limit :: i64
  bs_offset :: i64

record BoundInsertStmt =
  bi_table_name :: str
  bi_table_schema :: "schema option"
  bi_column_indices :: "int list"
  bi_value_rows :: "BoundExpression list list"

record BoundUpdateStmt =
  bu_table_name :: str
  bu_table_schema :: "schema option"
  bu_set_clauses :: "(int \<times> BoundExpression) list"
  bu_where_clause :: BoundExpression

record BoundDeleteStmt =
  bd_table_name :: str
  bd_table_schema :: "schema option"
  bd_where_clause :: BoundExpression

record BoundCreateStmt =
  bc_table_name :: str
  bc_schema :: schema
  bc_if_not_exists :: bool

record BoundDropStmt =
  bp_table_name :: str
  bp_if_exists :: bool

record BoundCreateIndexStmt =
  bx_index_name :: str
  bx_table_name :: str
  bx_table_schema :: "schema option"
  bx_col_idx :: int
  bx_index_type :: str
  bx_is_unique :: bool

datatype BoundStatement =
    Bound_Select BoundSelectStmt
  | Bound_Insert BoundInsertStmt
  | Bound_Update BoundUpdateStmt
  | Bound_Delete BoundDeleteStmt
  | Bound_Create BoundCreateStmt
  | Bound_Drop BoundDropStmt
  | Bound_Create_Index BoundCreateIndexStmt

text \<open>\<open>ToString\<close>.\<close>

definition bound_to_string :: "BoundStatement \<Rightarrow> str option" where
  "bound_to_string stmt =
     (case stmt of
        Bound_Select s \<Rightarrow> do {
          list \<leftarrow> print_all (expr_to_string \<circ> fst) (bs_select_list s);
          whr \<leftarrow> (if bs_where_clause s = Null_Expression then Some []
                 else map_option (\<lambda>w. ascii '' WHERE '' @ w) (expr_to_string (bs_where_clause s)));
          Some (ascii ''BOUND_SELECT ['' @ list @ ascii ''] FROM '' @ bs_table_name s @ whr) }
      | Bound_Insert s \<Rightarrow>
          Some (ascii ''BOUND_INSERT INTO '' @ bi_table_name s @ ascii '' ('' @ show_nat (length (bi_value_rows s)) @ ascii '' rows)'')
      | Bound_Update s \<Rightarrow> Some (ascii ''BOUND_UPDATE '' @ bu_table_name s)
      | Bound_Delete s \<Rightarrow> Some (ascii ''BOUND_DELETE FROM '' @ bd_table_name s)
      | Bound_Create s \<Rightarrow> Some (ascii ''BOUND_CREATE TABLE '' @ bc_table_name s)
      | Bound_Drop s \<Rightarrow> Some (ascii ''BOUND_DROP TABLE '' @ bp_table_name s)
      | Bound_Create_Index s \<Rightarrow> Some (ascii ''BOUND_CREATE INDEX '' @ bx_index_name s @ ascii '' ON '' @ bx_table_name s))"

section \<open>Names and types\<close>

text \<open>Everything after the first dot.\<close>

definition ResolveTableName :: "str \<Rightarrow> str" where
  "ResolveTableName n = (if 46 \<in> set n then tl (dropWhile (\<lambda>c. c \<noteq> 46) n) else n)"

definition ResolveColumn :: "str \<Rightarrow> schema option \<Rightarrow> int option" where
  "ResolveColumn name s = map_option (GetColIdx name) s"

definition ResolveColumnRef :: "str \<Rightarrow> str \<Rightarrow> schema option \<Rightarrow> int option" where
  "ResolveColumnRef col tbl s = map_option (GetColIdx col) s"

definition DeriveBinaryOpType :: "str \<Rightarrow> TypeId \<Rightarrow> TypeId \<Rightarrow> TypeId" where
  "DeriveBinaryOpType op lt rt =
     (if op = ascii ''AND'' \<or> op = ascii ''OR'' then BOOLEAN
      else if lt = DECIMAL \<or> rt = DECIMAL then DECIMAL
      else if lt = BIGINT \<or> rt = BIGINT then BIGINT
      else if lt = INTEGER \<or> rt = INTEGER then INTEGER
      else lt)"

definition DeriveUnaryOpType :: "str \<Rightarrow> TypeId \<Rightarrow> TypeId" where
  "DeriveUnaryOpType op t =
     (if op = ascii ''NOT'' \<or> op = ascii ''IS_NULL'' \<or> op = ascii ''IS_NOT_NULL'' then BOOLEAN else t)"

definition IsAggregate :: "str \<Rightarrow> bool" where
  "IsAggregate name \<longleftrightarrow> name \<in> set (map ascii [''COUNT'', ''SUM'', ''AVG'', ''MAX'', ''MIN'', ''COUNT_DISTINCT''])"

section \<open>Expressions\<close>

text \<open>The chain of comparisons an IN list becomes; the items are bound already.\<close>

fun in_chain :: "bool \<Rightarrow> BoundExpression \<Rightarrow> BoundExpression \<Rightarrow> BoundExpression list \<Rightarrow> BoundExpression" where
  "in_chain is_not left acc [] = acc"
| "in_chain is_not left acc (e # es) =
     (let cmp = BoundComparison (if is_not then ascii ''<>'' else ascii ''='') left e in
      in_chain is_not left
        (if acc = Null_Expression then cmp
         else BoundBinaryOp (if is_not then ascii ''AND'' else ascii ''OR'') acc cmp BOOLEAN) es)"

definition type_of :: "BoundExpression \<Rightarrow> TypeId" where
  "type_of e = (case GetReturnType e of None \<Rightarrow> INVALID | Some t \<Rightarrow> t)"

text \<open>\<open>BindExpression\<close>: the expression, null when it cannot be bound, and the error message after it.\<close>

fun BindExpression :: "schema option \<Rightarrow> ASTExpression \<Rightarrow> str \<Rightarrow> (BoundExpression \<times> str) option"
  and bind_list :: "schema option \<Rightarrow> ASTExpression list \<Rightarrow> str \<Rightarrow> (BoundExpression list \<times> str) option" where
  "BindExpression s Null_AST err = Some (Null_Expression, err)"
| "BindExpression s (ColumnRefExpression tbl col star) err =
     (if star then Some (BoundStar, err)
      else do {
        idx \<leftarrow> ResolveColumnRef col tbl s;
        if idx < 0 then Some (Null_Expression, ascii ''Column not found: '' @ col)
        else map_option (\<lambda>sch. (BoundColumnRef idx (column_type (sch ! nat idx)), err)) s })"
| "BindExpression s (ConstantExpression v) err = Some (BoundConstant v, err)"
| "BindExpression s (BinaryOpExpression op l r) err = do {
     (bl, err) \<leftarrow> BindExpression s l err;
     (br, err) \<leftarrow> BindExpression s r err;
     Some (BoundBinaryOp op bl br
       (if bl \<noteq> Null_Expression \<and> br \<noteq> Null_Expression then DeriveBinaryOpType op (type_of bl) (type_of br) else INVALID), err) }"
| "BindExpression s (UnaryOpExpression op e) err = do {
     (be, err) \<leftarrow> BindExpression s e err;
     Some (BoundUnaryOp op be (if be \<noteq> Null_Expression then DeriveUnaryOpType op (type_of be) else INVALID), err) }"
| "BindExpression s (ComparisonExpression op l r) err = do {
     (bl, err) \<leftarrow> BindExpression s l err;
     (br, err) \<leftarrow> BindExpression s r err;
     Some (BoundComparison op bl br, err) }"
| "BindExpression s (FunctionCallExpression name args distct star) err = do {
     (bargs, err) \<leftarrow> bind_list s args err;
     Some (BoundFunctionCall name (filter (\<lambda>e. e \<noteq> Null_Expression) bargs) distct star, err) }"
| "BindExpression s StarExpression err = Some (BoundStar, err)"
| "BindExpression s (IsNullExpression e is_not) err = do {
     (be, err) \<leftarrow> BindExpression s e err;
     Some (BoundUnaryOp (if is_not then ascii ''IS_NOT_NULL'' else ascii ''IS_NULL'') be
       (if be \<noteq> Null_Expression then BOOLEAN else INVALID), err) }"
| "BindExpression s (InListExpression l items is_not) err = do {
     (left, err) \<leftarrow> BindExpression s l err;
     if left = Null_Expression \<or> items = [] then Some (Null_Expression, err)
     else do {
       (bitems, err) \<leftarrow> bind_list s items err;
       Some (in_chain is_not left Null_Expression bitems, err) } }"
| "BindExpression s (TypeCastExpression e t) err = Some (Null_Expression, err)"
| "BindExpression s SubqueryExpression err = Some (Null_Expression, err)"
| "BindExpression s (CaseExpression e ws els) err = Some (Null_Expression, err)"
| "bind_list s [] err = Some ([], err)"
| "bind_list s (e # es) err = do {
     (be, err) \<leftarrow> BindExpression s e err;
     (bes, err) \<leftarrow> bind_list s es err;
     Some (be # bes, err) }"

text \<open>Lists from which the entries that cannot be bound are dropped.\<close>

definition bind_bound :: "schema option \<Rightarrow> ASTExpression list \<Rightarrow> str \<Rightarrow> (BoundExpression list \<times> str) option" where
  "bind_bound s es err = map_option (\<lambda>(bes, err). (filter (\<lambda>e. e \<noteq> Null_Expression) bes, err)) (bind_list s es err)"

definition bind_select_list ::
  "schema option \<Rightarrow> (ASTExpression \<times> str) list \<Rightarrow> str \<Rightarrow> ((BoundExpression \<times> str) list \<times> str) option" where
  "bind_select_list s es err =
     map_option (\<lambda>(bes, err). (filter (\<lambda>(e, _). e \<noteq> Null_Expression) (zip bes (map snd es)), err))
       (bind_list s (map fst es) err)"

definition bind_order_by ::
  "schema option \<Rightarrow> (ASTExpression \<times> OrderType) list \<Rightarrow> str \<Rightarrow> ((BoundExpression \<times> bool) list \<times> str) option" where
  "bind_order_by s es err =
     map_option (\<lambda>(bes, err). (filter (\<lambda>(e, _). e \<noteq> Null_Expression) (zip bes (map (\<lambda>(_, t). t \<noteq> DESC) es)), err))
       (bind_list s (map fst es) err)"

text \<open>A LIMIT or OFFSET: bound, evaluated without a row, and read as a BIGINT.\<close>

definition bind_count :: "schema option \<Rightarrow> ASTExpression \<Rightarrow> i64 \<Rightarrow> str \<Rightarrow> (i64 \<times> str) option" where
  "bind_count s e dflt err =
     (if e = Null_AST then Some (dflt, err)
      else do {
        (val, err) \<leftarrow> BindExpression s e err;
        if val = Null_Expression then Some (dflt, err)
        else do {
          v \<leftarrow> Evaluate val None None;
          n \<leftarrow> GetAsBigInt v;
          Some (n, err) } })"

section \<open>Statements\<close>

text \<open>The table a statement names, or the error.\<close>

definition find_table :: "str \<Rightarrow> catalog \<Rightarrow> catalog \<times> (str + str \<times> schema)" where
  "find_table name c =
     (let actual_table = ResolveTableName name in
      case GetTable actual_table c of
        (c, None) \<Rightarrow> (c, Inl (ascii ''Table not found: '' @ actual_table))
      | (c, Some info) \<Rightarrow> (c, Inr (actual_table, table_schema info)))"

text \<open>The result of binding: the catalog, the error message and the statement, if there is one.\<close>

type_synonym 'a bound = "(catalog \<times> str \<times> 'a option) option"

definition BindSelect :: "SelectStatement \<Rightarrow> catalog \<Rightarrow> BoundSelectStmt bound" where
  "BindSelect stmt c =
     (case (if select_table stmt = [] then (c, Inr ([], None))
            else case find_table (select_table stmt) c of
              (c, Inl err) \<Rightarrow> (c, Inl err)
            | (c, Inr (t, s)) \<Rightarrow> (c, Inr (t, Some s))) of
        (c, Inl err) \<Rightarrow> Some (c, err, None)
      | (c, Inr (tbl, s)) \<Rightarrow> do {
          (list, err) \<leftarrow> bind_select_list s (select_list stmt) [];
          (whr, err) \<leftarrow> BindExpression s (where_clause stmt) err;
          (groups, err) \<leftarrow> bind_bound s (group_by stmt) err;
          (having, err) \<leftarrow> BindExpression s (having_clause stmt) err;
          (order, err) \<leftarrow> bind_order_by s (order_by stmt) err;
          (limit, err) \<leftarrow> bind_count s (limit_count stmt) (- 1) err;
          (offset, err) \<leftarrow> bind_count s (limit_offset stmt) 0 err;
          Some (c, err, Some \<lparr>bs_select_list = list, bs_is_distinct = is_distinct stmt, bs_table_name = tbl,
                  bs_table_schema = s, bs_where_clause = whr, bs_group_by = groups, bs_having_clause = having,
                  bs_order_by = order, bs_limit = limit, bs_offset = offset\<rparr>) })"

fun resolve_columns :: "str list \<Rightarrow> schema \<Rightarrow> str + int list" where
  "resolve_columns [] s = Inr []"
| "resolve_columns (n # ns) s =
     (if GetColIdx n s < 0 then Inl (ascii ''Column not found: '' @ n)
      else case resolve_columns ns s of Inl err \<Rightarrow> Inl err | Inr is \<Rightarrow> Inr (GetColIdx n s # is))"

fun bind_rows :: "schema option \<Rightarrow> ASTExpression list list \<Rightarrow> str \<Rightarrow> (BoundExpression list list \<times> str) option" where
  "bind_rows s [] err = Some ([], err)"
| "bind_rows s (row # rows) err = do {
     (brow, err) \<leftarrow> bind_bound s row err;
     (brows, err) \<leftarrow> bind_rows s rows err;
     Some (brow # brows, err) }"

definition BindInsert :: "InsertStatement \<Rightarrow> catalog \<Rightarrow> BoundInsertStmt bound" where
  "BindInsert stmt c =
     (case find_table (insert_table stmt) c of
        (c, Inl err) \<Rightarrow> Some (c, err, None)
      | (c, Inr (tbl, s)) \<Rightarrow>
          (case (if column_names stmt \<noteq> [] then resolve_columns (column_names stmt) s
                 else Inr (map int [0..<length s])) of
             Inl err \<Rightarrow> Some (c, err, None)
           | Inr indices \<Rightarrow> do {
               (rows, err) \<leftarrow> bind_rows (Some s) (value_rows stmt) [];
               Some (c, err, Some \<lparr>bi_table_name = tbl, bi_table_schema = Some s, bi_column_indices = indices,
                       bi_value_rows = rows\<rparr>) }))"

text \<open>The SET clauses: an unknown column ends the binding, a value that cannot be bound stays null.\<close>

fun bind_set_clauses ::
  "schema \<Rightarrow> (str \<times> ASTExpression) list \<Rightarrow> str \<Rightarrow> (str + (int \<times> BoundExpression) list \<times> str) option" where
  "bind_set_clauses s [] err = Some (Inr ([], err))"
| "bind_set_clauses s ((n, e) # cs) err =
     (if GetColIdx n s < 0 then Some (Inl (ascii ''Column not found: '' @ n))
      else do {
        (be, err) \<leftarrow> BindExpression (Some s) e err;
        rest \<leftarrow> bind_set_clauses s cs err;
        Some (case rest of Inl err \<Rightarrow> Inl err | Inr (bcs, err) \<Rightarrow> Inr ((GetColIdx n s, be) # bcs, err)) })"

definition BindUpdate :: "UpdateStatement \<Rightarrow> catalog \<Rightarrow> BoundUpdateStmt bound" where
  "BindUpdate stmt c =
     (case find_table (update_table stmt) c of
        (c, Inl err) \<Rightarrow> Some (c, err, None)
      | (c, Inr (tbl, s)) \<Rightarrow> do {
          sets \<leftarrow> bind_set_clauses s (set_clauses stmt) [];
          case sets of
            Inl err \<Rightarrow> Some (c, err, None)
          | Inr (sets, err) \<Rightarrow> do {
              (whr, err) \<leftarrow> BindExpression (Some s) (update_where stmt) err;
              Some (c, err, Some \<lparr>bu_table_name = tbl, bu_table_schema = Some s, bu_set_clauses = sets,
                      bu_where_clause = whr\<rparr>) } })"

definition BindDelete :: "DeleteStatement \<Rightarrow> catalog \<Rightarrow> BoundDeleteStmt bound" where
  "BindDelete stmt c =
     (case find_table (delete_table_name stmt) c of
        (c, Inl err) \<Rightarrow> Some (c, err, None)
      | (c, Inr (tbl, s)) \<Rightarrow> do {
          (whr, err) \<leftarrow> BindExpression (Some s) (delete_where stmt) [];
          Some (c, err, Some \<lparr>bd_table_name = tbl, bd_table_schema = Some s, bd_where_clause = whr\<rparr>) })"

definition column_of_def :: "ColumnDefinition \<Rightarrow> column" where
  "column_of_def d = \<lparr>column_name = def_name d, column_type = ToTypeId (def_type d), max_length = type_length (def_type d),
     is_nullable = def_nullable d, is_primary_key = def_primary_key d\<rparr>"

definition BindCreate :: "CreateStatement \<Rightarrow> BoundCreateStmt" where
  "BindCreate stmt = \<lparr>bc_table_name = create_name stmt, bc_schema = map column_of_def (columns stmt),
     bc_if_not_exists = create_if_not_exists stmt\<rparr>"

definition BindDrop :: "DropStatement \<Rightarrow> BoundDropStmt" where
  "BindDrop stmt = \<lparr>bp_table_name = drop_name stmt, bp_if_exists = drop_if_exists stmt\<rparr>"

definition BindCreateIndex :: "CreateIndexStatement \<Rightarrow> catalog \<Rightarrow> BoundCreateIndexStmt bound" where
  "BindCreateIndex stmt c =
     (case find_table (ci_table stmt) c of
        (c, Inl err) \<Rightarrow> Some (c, err, None)
      | (c, Inr (tbl, s)) \<Rightarrow>
          if GetColIdx (ci_column stmt) s < 0 then Some (c, ascii ''Column not found: '' @ ci_column stmt, None)
          else Some (c, [], Some \<lparr>bx_index_name = ci_name stmt, bx_table_name = tbl, bx_table_schema = Some s,
                  bx_col_idx = GetColIdx (ci_column stmt) s,
                  bx_index_type = (if ci_type stmt = [] then ascii ''btree'' else ci_type stmt), bx_is_unique = ci_unique stmt\<rparr>))"

definition map_bound :: "('a \<Rightarrow> 'b) \<Rightarrow> 'a bound \<Rightarrow> 'b bound" where
  "map_bound f = map_option (\<lambda>(c, err, x). (c, err, map_option f x))"

definition Bind :: "ASTStatement \<Rightarrow> catalog \<Rightarrow> BoundStatement bound" where
  "Bind stmt c =
     (case stmt of
        Select_Stmt s \<Rightarrow> map_bound Bound_Select (BindSelect s c)
      | Insert_Stmt s \<Rightarrow> map_bound Bound_Insert (BindInsert s c)
      | Update_Stmt s \<Rightarrow> map_bound Bound_Update (BindUpdate s c)
      | Delete_Stmt s \<Rightarrow> map_bound Bound_Delete (BindDelete s c)
      | Create_Stmt s \<Rightarrow> Some (c, [], Some (Bound_Create (BindCreate s)))
      | Drop_Stmt s \<Rightarrow> Some (c, [], Some (Bound_Drop (BindDrop s)))
      | Create_Index_Stmt s \<Rightarrow> map_bound Bound_Create_Index (BindCreateIndex s c))"

end
