(* ===== verification/Binder_Props.thy ===== *)
theory Binder_Props
  imports Binder Expression_Props
begin

text \<open>
  What the binder promises: a well-typed condition over the columns of the table binds, without an error,
  to a condition that is safe to evaluate; an IN list becomes comparisons that mean membership; and what happens
  to a condition that cannot be bound.
\<close>

section \<open>Typed syntax\<close>

inductive ast_scalar :: "schema \<Rightarrow> ASTExpression \<Rightarrow> TypeId \<Rightarrow> bool" for s where
  column: "GetColIdx n s = int i \<Longrightarrow> i < length s \<Longrightarrow> ast_scalar s (ColumnRefExpression t n False) (column_type (s ! i))"
| const: "v = VInvalid \<or> GetTypeId v = t \<Longrightarrow> ast_scalar s (ConstantExpression v) t"
| decimal: "op \<in> {ascii ''+'', ascii ''-'', ascii ''*'', ascii ''/''} \<Longrightarrow> ast_scalar s l t \<Longrightarrow> ast_scalar s r u \<Longrightarrow>
     IsNumericType t \<Longrightarrow> IsNumericType u \<Longrightarrow> op = ascii ''/'' \<or> t = DECIMAL \<or> u = DECIMAL \<Longrightarrow>
     ast_scalar s (BinaryOpExpression op l r) DECIMAL"
| sum: "op = ascii ''+'' \<Longrightarrow> ast_scalar s l t \<Longrightarrow> ast_scalar s r u \<Longrightarrow> small_int t \<Longrightarrow> small_int u \<Longrightarrow>
     ast_scalar s (BinaryOpExpression op l r) BIGINT"
| negation: "ast_scalar s e t \<Longrightarrow> t = TINYINT \<or> t = SMALLINT \<or> t = DECIMAL \<Longrightarrow>
     ast_scalar s (UnaryOpExpression (ascii ''-'') e) t"

inductive ast_condition :: "schema \<Rightarrow> ASTExpression \<Rightarrow> bool" for s where
  compare: "op \<in> {ascii ''='', ascii ''<>'', ascii ''!='', ascii ''<'', ascii ''>'', ascii ''<='', ascii ''>=''} \<Longrightarrow>
     ast_scalar s l t \<Longrightarrow> ast_scalar s r u \<Longrightarrow> comparable t u \<Longrightarrow> ast_condition s (ComparisonExpression op l r)"
| like: "op \<in> {ascii ''~~'', ascii ''LIKE'', ascii ''like''} \<Longrightarrow> ast_scalar s l VARCHAR \<Longrightarrow> ast_scalar s r VARCHAR \<Longrightarrow>
     ast_condition s (ComparisonExpression op l r)"
| is_null: "ast_scalar s e t \<Longrightarrow> ast_condition s (IsNullExpression e is_not)"
| in_list: "ast_scalar s l t \<Longrightarrow> items \<noteq> [] \<Longrightarrow>
     \<forall>e \<in> set items. \<exists>u. ast_scalar s e u \<and> comparable t u \<Longrightarrow> ast_condition s (InListExpression l items is_not)"
| connective: "op \<in> {ascii ''AND'', ascii ''OR''} \<Longrightarrow> ast_condition s l \<Longrightarrow> ast_condition s r \<Longrightarrow>
     ast_condition s (BinaryOpExpression op l r)"
| negated: "ast_condition s e \<Longrightarrow> ast_condition s (UnaryOpExpression (ascii ''NOT'') e)"

lemma bind_scalar:
  "ast_scalar s a t \<Longrightarrow> \<exists>e. BindExpression (Some s) a err = Some (e, err) \<and> scalar s e t \<and> e \<noteq> Null_Expression"
proof (induction arbitrary: err rule: ast_scalar.induct)
  case (column n i t)
  have "scalar s (BoundColumnRef (int i) (column_type (s ! i))) (column_type (s ! i))" by (rule scalar.column) fact
  then show ?case using column by (simp add: ResolveColumnRef_def)
next
  case (const v t)
  then show ?case by (auto intro: scalar.const)
next
  case (decimal op l t r u)
  from decimal.IH(1) [of err] decimal.IH(2) [of err] decimal.hyps show ?case
    by (fastforce intro: scalar.decimal simp del: operator_names)
next
  case (sum op l t r u)
  from sum.IH(1) [of err] sum.IH(2) [of err] sum.hyps show ?case
    by (fastforce intro: scalar.sum simp del: operator_names)
next
  case (negation e t)
  from negation.IH [of err] negation.hyps show ?case by (auto intro: scalar.negation simp del: operator_names)
qed

lemma bind_items:
  assumes "\<forall>a \<in> set items. \<exists>u. ast_scalar s a u \<and> comparable t u"
  shows "\<exists>es. bind_list (Some s) items err = Some (es, err) \<and> length es = length items \<and>
    (\<forall>e \<in> set es. \<exists>u. scalar s e u \<and> comparable t u)"
  using assms
proof (induction items)
  case (Cons a items)
  then obtain u where "ast_scalar s a u" "comparable t u" by auto
  with bind_scalar [OF this(1), of err] Cons show ?case by fastforce
qed simp

lemma in_chain_condition:
  assumes "scalar s left t" "\<forall>e \<in> set es. \<exists>u. scalar s e u \<and> comparable t u" "condition s acc \<or> acc = Null_Expression \<and> es \<noteq> []"
  shows "condition s (in_chain is_not left acc es)"
  using assms(2,3)
proof (induction es arbitrary: acc)
  case (Cons e es)
  then obtain u where u: "scalar s e u" "comparable t u" by auto
  let ?cmp = "BoundComparison (if is_not then ascii ''<>'' else ascii ''='') left e"
  have cmp: "condition s ?cmp" by (rule condition.compare [OF _ assms(1) u]) simp
  have "condition s acc \<Longrightarrow> acc \<noteq> Null_Expression" by (auto elim: condition.cases)
  then have "condition s (if acc = Null_Expression then ?cmp
      else BoundBinaryOp (if is_not then ascii ''AND'' else ascii ''OR'') acc ?cmp BOOLEAN)"
    using Cons.prems(2) cmp by (auto intro!: condition.connective simp del: operator_names split: if_splits)
  with Cons.IH Cons.prems(1) show ?case by (simp add: Let_def)
qed auto

lemma bind_condition_law:
  "ast_condition s a \<Longrightarrow> \<exists>e. BindExpression (Some s) a err = Some (e, err) \<and> condition s e"
proof (induction arbitrary: err rule: ast_condition.induct)
  case (compare op l t r u)
  from bind_scalar [OF compare.hyps(2), of err] bind_scalar [OF compare.hyps(3), of err] compare.hyps(1,4)
  show ?case by (fastforce intro: condition.compare simp del: operator_names)
next
  case (like op l r)
  from bind_scalar [OF like.hyps(2), of err] bind_scalar [OF like.hyps(3), of err] like.hyps(1)
  show ?case by (fastforce intro: condition.like simp del: operator_names)
next
  case (is_null e t is_not)
  from bind_scalar [OF is_null.hyps(1), of err] show ?case
    by (cases is_not) (auto intro: condition.is_null simp del: operator_names)
next
  case (in_list l t items is_not)
  obtain left where l: "BindExpression (Some s) l err = Some (left, err)" "scalar s left t" "left \<noteq> Null_Expression"
    using bind_scalar [OF in_list.hyps(1), of err] by blast
  obtain es where es: "bind_list (Some s) items err = Some (es, err)" "length es = length items"
    "\<forall>e \<in> set es. \<exists>u. scalar s e u \<and> comparable t u"
    using bind_items [OF in_list.hyps(3), of err] by blast
  moreover have "es \<noteq> []" using es(2) in_list.hyps(2) by auto
  ultimately show ?case using in_chain_condition [OF l(2) es(3), of Null_Expression is_not] l in_list.hyps(2) by auto
next
  case (connective op l r)
  from connective.IH(1) [of err] connective.IH(2) [of err] connective.hyps(1) show ?case
    by (fastforce intro: condition.connective simp del: operator_names)
next
  case (negated e)
  from negated.IH [of err] show ?case by (auto intro: condition.negated simp del: operator_names)
qed

text \<open>C23: a well-typed condition over the columns of a table binds without an error message, and its bound form
  evaluates to a boolean on every row built from values that fit the schema: neither the binder nor the
  evaluation can crash on it.\<close>

theorem bind_condition_safe:
  assumes "ast_condition s a" "list_all2 fits_column s vs" "CreateFromValues vs (Some s) = Some d" "length s \<le> 2048" "vs \<noteq> []"
  shows "\<exists>e b. BindExpression (Some s) a err = Some (e, err) \<and> Evaluate e (Some d) (Some s) = Some (VBoolean b)"
  using bind_condition_law [OF assms(1)] condition_safe [OF assms(2-5)] by blast

lemma demo_row_created: "\<exists>d. CreateFromValues demo_row (Some demo_row_schema) = Some d"
  using create_defined [of demo_row_schema demo_row]
  by (auto simp: demo_row_schema_def demo_row_def fits_column_def var_data_start_def var_size_def
      null_bitmap_size_def GetFixedSize_def TypeIdSize_def)

lemma demo_row_fits: "list_all2 fits_column demo_row_schema demo_row" "length demo_row_schema \<le> 2048" "demo_row \<noteq> []"
  by (simp_all add: demo_row_schema_def demo_row_def fits_column_def)

lemma demo_column: "ast_scalar demo_row_schema (ColumnRefExpression [] [97] False) INTEGER"
  using ast_scalar.column [of "[97]" demo_row_schema 0 "[]"] by (simp add: demo_row_schema_def GetColIdx_def)

theorem bind_condition_safe_witness:
  "\<exists>d e b. CreateFromValues demo_row (Some demo_row_schema) = Some d \<and>
     BindExpression (Some demo_row_schema)
       (ComparisonExpression (ascii ''>='') (ColumnRefExpression [] [97] False) (ConstantExpression (VBigInt 3))) [] = Some (e, []) \<and>
     Evaluate e (Some d) (Some demo_row_schema) = Some (VBoolean b)"
proof -
  have "ast_condition demo_row_schema
      (ComparisonExpression (ascii ''>='') (ColumnRefExpression [] [97] False) (ConstantExpression (VBigInt 3)))"
    by (rule ast_condition.compare [OF _ demo_column, where u = BIGINT])
      (auto intro: ast_scalar.const simp: comparable_def IsNumericType_def)
  from bind_condition_safe [OF this demo_row_fits(1) _ demo_row_fits(2,3), where err = "[]"] demo_row_created
  show ?thesis by blast
qed

section \<open>IN lists\<close>

inductive_cases ast_in_listE: "ast_condition s (InListExpression l items is_not)"

lemma in_chain_value:
  assumes "Evaluate left (Some d) (Some s) = Some lv"
    "\<forall>e \<in> set es. \<exists>v b. Evaluate e (Some d) (Some s) = Some v \<and>
       eval_comparison (if is_not then ascii ''<>'' else ascii ''='') lv v = Some (VBoolean b)"
    "Evaluate acc (Some d) (Some s) = Some (VBoolean a)"
  shows "Evaluate (in_chain is_not left acc es) (Some d) (Some s) = Some (VBoolean
    (if is_not then a \<and> (\<forall>e \<in> set es. eval_comparison (ascii ''<>'') lv (value_of e d s) = Some (VBoolean True))
     else a \<or> (\<exists>e \<in> set es. eval_comparison (ascii ''='') lv (value_of e d s) = Some (VBoolean True))))"
  using assms(2,3)
proof (induction es arbitrary: acc a)
  case (Cons e es)
  let ?op = "if is_not then ascii ''<>'' else ascii ''=''"
  from Cons.prems(1) obtain v b where e: "Evaluate e (Some d) (Some s) = Some v" "eval_comparison ?op lv v = Some (VBoolean b)"
    by auto
  have "acc \<noteq> Null_Expression" using Cons.prems(2) by auto
  moreover have step: "Evaluate (BoundBinaryOp (if is_not then ascii ''AND'' else ascii ''OR'') acc (BoundComparison ?op left e) BOOLEAN)
      (Some d) (Some s) = Some (VBoolean (if is_not then a \<and> b else a \<or> b))"
    using Cons.prems(2) assms(1) e by (auto simp: eval_binary_def GetAsBoolean_def)
  ultimately show ?case
    using Cons.IH [OF _ step] Cons.prems(1) e by (auto simp: Let_def value_of_def)
qed simp

text \<open>\<open>l IN (items)\<close> is true on a row exactly when \<open>l\<close> equals one of the items there, and \<open>l NOT IN (items)\<close>
  exactly when it differs from all of them; a NULL equals and differs from nothing.\<close>

theorem in_list_membership:
  assumes "ast_condition s (InListExpression l items is_not)" "list_all2 fits_column s vs"
    "CreateFromValues vs (Some s) = Some d" "length s \<le> 2048" "vs \<noteq> []"
  shows "\<exists>e left es. BindExpression (Some s) (InListExpression l items is_not) err = Some (e, err) \<and>
    BindExpression (Some s) l err = Some (left, err) \<and> bind_list (Some s) items err = Some (es, err) \<and>
    Evaluate e (Some d) (Some s) = Some (VBoolean
      (if is_not then \<forall>x \<in> set es. eval_comparison (ascii ''<>'') (value_of left d s) (value_of x d s) = Some (VBoolean True)
       else \<exists>x \<in> set es. eval_comparison (ascii ''='') (value_of left d s) (value_of x d s) = Some (VBoolean True)))"
proof -
  from assms(1) obtain t where t: "ast_scalar s l t" "items \<noteq> []" "\<forall>e \<in> set items. \<exists>u. ast_scalar s e u \<and> comparable t u"
    by (rule ast_in_listE) blast
  have row: "typed_row s d" by (rule typed_row_created [OF assms(2-5)])
  obtain left where l: "BindExpression (Some s) l err = Some (left, err)" "scalar s left t" "left \<noteq> Null_Expression"
    using bind_scalar [OF t(1), of err] by blast
  obtain es where es: "bind_list (Some s) items err = Some (es, err)" "length es = length items"
    "\<forall>e \<in> set es. \<exists>u. scalar s e u \<and> comparable t u"
    using bind_items [OF t(3), of err] by blast
  obtain lv where lv: "Evaluate left (Some d) (Some s) = Some lv" using scalar_safe [OF l(2) row] by blast
  let ?op = "if is_not then ascii ''<>'' else ascii ''=''"
  have items: "\<exists>v b. Evaluate e (Some d) (Some s) = Some v \<and> eval_comparison ?op lv v = Some (VBoolean b)" if "e \<in> set es" for e
  proof -
    from es(3) that obtain u where u: "scalar s e u" "comparable t u" by blast
    have "condition s (BoundComparison ?op left e)" by (rule condition.compare [OF _ l(2) u]) simp
    from condition_value [OF this row] lv show ?thesis by (auto simp: bind_eq_Some_conv)
  qed
  obtain e1 rest where split: "es = e1 # rest" using es(2) t(2) by (cases es) auto
  obtain v1 b1 where e1: "Evaluate e1 (Some d) (Some s) = Some v1" "eval_comparison ?op lv v1 = Some (VBoolean b1)"
    using items [of e1] unfolding split by (auto simp del: split_paired_Ex)
  have "Evaluate (BoundComparison ?op left e1) (Some d) (Some s) = Some (VBoolean b1)" using lv e1 by simp
  from in_chain_value [OF lv _ this, of rest] items split e1 lv
  have "Evaluate (in_chain is_not left Null_Expression es) (Some d) (Some s) = Some (VBoolean
      (if is_not then \<forall>x \<in> set es. eval_comparison (ascii ''<>'') (value_of left d s) (value_of x d s) = Some (VBoolean True)
       else \<exists>x \<in> set es. eval_comparison (ascii ''='') (value_of left d s) (value_of x d s) = Some (VBoolean True)))"
    by (auto simp: Let_def value_of_def split: if_splits)
  with l es t(2) show ?thesis by auto
qed

theorem in_list_membership_witness:
  "\<exists>d e left es. CreateFromValues demo_row (Some demo_row_schema) = Some d \<and>
    BindExpression (Some demo_row_schema) (InListExpression (ColumnRefExpression [] [97] False) [ConstantExpression (VBigInt 7)] False) [] = Some (e, []) \<and>
    BindExpression (Some demo_row_schema) (ColumnRefExpression [] [97] False) [] = Some (left, []) \<and>
    bind_list (Some demo_row_schema) [ConstantExpression (VBigInt 7)] [] = Some (es, []) \<and>
    Evaluate e (Some d) (Some demo_row_schema) = Some (VBoolean
      (\<exists>x \<in> set es. eval_comparison (ascii ''='') (value_of left d demo_row_schema) (value_of x d demo_row_schema) = Some (VBoolean True)))"
proof -
  have "ast_condition demo_row_schema (InListExpression (ColumnRefExpression [] [97] False) [ConstantExpression (VBigInt 7)] False)"
    by (rule ast_condition.in_list [OF demo_column])
      (auto intro!: exI [of _ BIGINT] ast_scalar.const simp: comparable_def IsNumericType_def)
  from in_list_membership [OF this demo_row_fits(1) _ demo_row_fits(2,3), where err = "[]"] demo_row_created
  show ?thesis unfolding if_False by blast
qed

end
