(* ===== verification/Plans.thy ===== *)
theory Plans
  imports Binder
begin

text \<open>
  Plan trees (sql/planner/plan_nodes.h), the planner (sql/planner/planner.cpp) and the optimizer with
  EXPLAIN (sql/optimizer/optimizer.h and .cpp). A node is its own part, its output schema and its
  children. \<open>None\<close> is a null dereference while an expression with a null part is printed for the name of an
  output column.
\<close>

section \<open>Plan nodes\<close>

datatype JoinKind = INNER | LEFT | RIGHT

datatype PlanKind =
    SeqScanPlanNode str "schema option" BoundExpression
  | IndexScanPlanNode str "schema option" str int BoundExpression BoundExpression
  | FilterPlanNode BoundExpression
  | ProjectionPlanNode "(BoundExpression \<times> str) list"
  | InsertPlanNode str "schema option" "int list" "BoundExpression list list"
  | UpdatePlanNode str "schema option" "(int \<times> BoundExpression) list"
  | DeletePlanNode str "schema option"
  | LimitPlanNode i64 i64
  | ValuesPlanNode "BoundExpression list list"
  | AggregationPlanNode "BoundExpression list" "BoundExpression list"
  | SortPlanNode "(BoundExpression \<times> bool) list"
  | HashJoinPlanNode BoundExpression JoinKind
  | NestedLoopJoinPlanNode BoundExpression JoinKind
  | CreatePlanNode str schema bool
  | DropPlanNode str bool
  | CreateIndexPlanNode str str "schema option" int str bool
  | TopNPlanNode "(BoundExpression \<times> bool) list" i64

datatype PlanNode = PlanNode (node_kind: PlanKind) (output_schema: schema) (node_children: "PlanNode list")

text \<open>\<open>ToString\<close>: the expression of a node is printed unless its pointer is null.\<close>

definition print_or :: "str \<Rightarrow> BoundExpression \<Rightarrow> str option" where
  "print_or alt e = (if e = Null_Expression then Some alt else expr_to_string e)"

definition in_brackets :: "str \<Rightarrow> str \<Rightarrow> str" where
  "in_brackets name s = name @ ascii ''('' @ s @ ascii '')''"

definition plan_to_string :: "PlanKind \<Rightarrow> str option" where
  "plan_to_string k =
     (case k of
        SeqScanPlanNode t _ _ \<Rightarrow> Some (in_brackets (ascii ''SeqScan'') t)
      | IndexScanPlanNode t _ i _ _ _ \<Rightarrow> Some (in_brackets (ascii ''IndexScan'') (t @ ascii '' via '' @ i))
      | FilterPlanNode p \<Rightarrow> map_option (in_brackets (ascii ''Filter'')) (print_or (ascii ''?'') p)
      | ProjectionPlanNode es \<Rightarrow> Some (in_brackets (ascii ''Projection'') (show_nat (length es) @ ascii '' cols''))
      | InsertPlanNode t _ _ rows \<Rightarrow> Some (in_brackets (ascii ''Insert'') (t @ ascii '', '' @ show_nat (length rows) @ ascii '' rows''))
      | UpdatePlanNode t _ _ \<Rightarrow> Some (in_brackets (ascii ''Update'') t)
      | DeletePlanNode t _ \<Rightarrow> Some (in_brackets (ascii ''Delete'') t)
      | LimitPlanNode l off \<Rightarrow> Some (in_brackets (ascii ''Limit'') (show_int (sint l) @ ascii '', offset='' @ show_int (sint off)))
      | ValuesPlanNode rows \<Rightarrow> Some (in_brackets (ascii ''Values'') (show_nat (length rows) @ ascii '' rows''))
      | AggregationPlanNode gs _ \<Rightarrow> Some (in_brackets (ascii ''Aggregation'') (show_nat (length gs) @ ascii '' groups''))
      | SortPlanNode obs \<Rightarrow> Some (in_brackets (ascii ''Sort'') (show_nat (length obs) @ ascii '' keys''))
      | HashJoinPlanNode c _ \<Rightarrow> map_option (in_brackets (ascii ''HashJoin'')) (print_or (ascii ''cross'') c)
      | NestedLoopJoinPlanNode c _ \<Rightarrow> map_option (in_brackets (ascii ''NLJ'')) (print_or (ascii ''cross'') c)
      | CreatePlanNode t _ _ \<Rightarrow> Some (in_brackets (ascii ''CreateTable'') t)
      | DropPlanNode t _ \<Rightarrow> Some (in_brackets (ascii ''DropTable'') t)
      | CreateIndexPlanNode i t _ _ _ _ \<Rightarrow> Some (in_brackets (ascii ''CreateIndex'') (i @ ascii '' ON '' @ t))
      | TopNPlanNode _ l \<Rightarrow> Some (in_brackets (ascii ''TopN'') (show_int (sint l))))"

section \<open>The planner\<close>

definition MakeSeqScan :: "str \<Rightarrow> schema option \<Rightarrow> PlanNode" where
  "MakeSeqScan t s = PlanNode (SeqScanPlanNode t s Null_Expression) (case s of None \<Rightarrow> [] | Some sch \<Rightarrow> sch) []"

text \<open>The filter over a plan, when there is a WHERE expression.\<close>

definition with_filter :: "BoundExpression \<Rightarrow> schema option \<Rightarrow> PlanNode list \<Rightarrow> PlanNode list" where
  "with_filter whr s root =
     (if whr = Null_Expression then root
      else [PlanNode (FilterPlanNode whr) (case s of None \<Rightarrow> [] | Some sch \<Rightarrow> sch) root])"

text \<open>One column of the schema a projection produces.\<close>

definition output_column :: "BoundExpression \<times> str \<Rightarrow> column option" where
  "output_column e = do {
     name \<leftarrow> (if snd e = [] then expr_to_string (fst e) else Some (snd e));
     t \<leftarrow> GetReturnType (fst e);
     let t = (if t = INVALID then VARCHAR else t);
     Some \<lparr>column_name = name, column_type = t, max_length = (if t = VARCHAR then 256 else 0),
           is_nullable = True, is_primary_key = False\<rparr> }"

definition projection_schema :: "(BoundExpression \<times> str) list \<Rightarrow> schema option" where
  "projection_schema es = those (map output_column es)"

text \<open>\<open>SELECT *\<close> alone becomes a reference to every column.\<close>

definition projection_list :: "(BoundExpression \<times> str) list \<Rightarrow> schema option \<Rightarrow> (BoundExpression \<times> str) list" where
  "projection_list list s =
     (let has_star = (\<exists>e \<in> set list. fst e = BoundStar) in
      case s of
        Some sch \<Rightarrow>
          if has_star \<and> length list = 1
          then map (\<lambda>i. (BoundColumnRef (int i) (column_type (sch ! i)), column_name (sch ! i))) [0..<length sch]
          else list
      | None \<Rightarrow> list)"

definition PlanSelect :: "BoundSelectStmt \<Rightarrow> PlanNode option" where
  "PlanSelect stmt =
     (let scan = (if bs_table_name stmt \<noteq> [] \<and> bs_table_schema stmt \<noteq> None
                  then [MakeSeqScan (bs_table_name stmt) (bs_table_schema stmt)] else []);
          root = with_filter (bs_where_clause stmt) (bs_table_schema stmt) scan;
          exprs = projection_list (bs_select_list stmt) (bs_table_schema stmt)
      in do {
        s \<leftarrow> projection_schema exprs;
        let proj = PlanNode (ProjectionPlanNode exprs) s root;
        Some (if 0 \<le> sint (bs_limit stmt) \<or> 0 < sint (bs_offset stmt)
              then PlanNode (LimitPlanNode (bs_limit stmt) (bs_offset stmt)) s [proj] else proj) })"

definition PlanInsert :: "BoundInsertStmt \<Rightarrow> PlanNode" where
  "PlanInsert stmt =
     PlanNode (InsertPlanNode (bi_table_name stmt) (bi_table_schema stmt) (bi_column_indices stmt) (bi_value_rows stmt)) [] []"

definition PlanUpdate :: "BoundUpdateStmt \<Rightarrow> PlanNode" where
  "PlanUpdate stmt =
     PlanNode (UpdatePlanNode (bu_table_name stmt) (bu_table_schema stmt) (bu_set_clauses stmt)) []
       (with_filter (bu_where_clause stmt) (bu_table_schema stmt)
          [MakeSeqScan (bu_table_name stmt) (bu_table_schema stmt)])"

definition PlanDelete :: "BoundDeleteStmt \<Rightarrow> PlanNode" where
  "PlanDelete stmt =
     PlanNode (DeletePlanNode (bd_table_name stmt) (bd_table_schema stmt)) []
       (with_filter (bd_where_clause stmt) (bd_table_schema stmt)
          [MakeSeqScan (bd_table_name stmt) (bd_table_schema stmt)])"

definition PlanCreate :: "BoundCreateStmt \<Rightarrow> PlanNode" where
  "PlanCreate stmt = PlanNode (CreatePlanNode (bc_table_name stmt) (bc_schema stmt) (bc_if_not_exists stmt)) [] []"

definition PlanDrop :: "BoundDropStmt \<Rightarrow> PlanNode" where
  "PlanDrop stmt = PlanNode (DropPlanNode (bp_table_name stmt) (bp_if_exists stmt)) [] []"

definition PlanCreateIndex :: "BoundCreateIndexStmt \<Rightarrow> PlanNode" where
  "PlanCreateIndex stmt =
     PlanNode (CreateIndexPlanNode (bx_index_name stmt) (bx_table_name stmt) (bx_table_schema stmt) (bx_col_idx stmt)
       (bx_index_type stmt) (bx_is_unique stmt)) [] []"

definition Plan :: "BoundStatement \<Rightarrow> PlanNode option" where
  "Plan stmt =
     (case stmt of
        Bound_Select s \<Rightarrow> PlanSelect s
      | Bound_Insert s \<Rightarrow> Some (PlanInsert s)
      | Bound_Update s \<Rightarrow> Some (PlanUpdate s)
      | Bound_Delete s \<Rightarrow> Some (PlanDelete s)
      | Bound_Create s \<Rightarrow> Some (PlanCreate s)
      | Bound_Drop s \<Rightarrow> Some (PlanDrop s)
      | Bound_Create_Index s \<Rightarrow> Some (PlanCreateIndex s))"

section \<open>The optimizer\<close>

text \<open>Every rule works on the children first. Four of the six rules stop there.\<close>

fun Rule_PredicatePushdown :: "PlanNode \<Rightarrow> PlanNode" where
  "Rule_PredicatePushdown (PlanNode k s cs) = PlanNode k s (map Rule_PredicatePushdown cs)"

fun Rule_ColumnPruning :: "PlanNode \<Rightarrow> PlanNode" where
  "Rule_ColumnPruning (PlanNode k s cs) = PlanNode k s (map Rule_ColumnPruning cs)"

fun Rule_SeqScanToIndexScan :: "PlanNode \<Rightarrow> PlanNode" where
  "Rule_SeqScanToIndexScan (PlanNode k s cs) = PlanNode k s (map Rule_SeqScanToIndexScan cs)"

fun Rule_NLJToIndexJoin :: "PlanNode \<Rightarrow> PlanNode" where
  "Rule_NLJToIndexJoin (PlanNode k s cs) = PlanNode k s (map Rule_NLJToIndexJoin cs)"

text \<open>The hash join that replaces a nested-loop join gets no output schema.\<close>

fun Rule_NLJToHashJoin :: "PlanNode \<Rightarrow> PlanNode" where
  "Rule_NLJToHashJoin (PlanNode k s cs) =
     (let cs' = map Rule_NLJToHashJoin cs in
      case k of
        NestedLoopJoinPlanNode cond join_kind \<Rightarrow> PlanNode (HashJoinPlanNode cond join_kind) [] cs'
      | _ \<Rightarrow> PlanNode k s cs')"

definition limit_over_sort :: "PlanKind \<Rightarrow> schema \<Rightarrow> PlanNode list \<Rightarrow> PlanNode" where
  "limit_over_sort k s cs =
     (case (k, cs) of
        (LimitPlanNode limit offset, [PlanNode (SortPlanNode obs) _ scs]) \<Rightarrow> PlanNode (TopNPlanNode obs limit) s scs
      | _ \<Rightarrow> PlanNode k s cs)"

fun Rule_SortLimitToTopN :: "PlanNode \<Rightarrow> PlanNode" where
  "Rule_SortLimitToTopN (PlanNode k s cs) = limit_over_sort k s (map Rule_SortLimitToTopN cs)"

definition Optimize :: "PlanNode \<Rightarrow> PlanNode" where
  "Optimize p =
     Rule_SortLimitToTopN (Rule_NLJToIndexJoin (Rule_NLJToHashJoin
       (Rule_SeqScanToIndexScan (Rule_ColumnPruning (Rule_PredicatePushdown p)))))"

section \<open>EXPLAIN\<close>

fun FormatNode :: "nat \<Rightarrow> PlanNode \<Rightarrow> str option" where
  "FormatNode indent (PlanNode k s cs) = do {
     line \<leftarrow> plan_to_string k;
     rest \<leftarrow> those (map (FormatNode (indent + 1)) cs);
     Some (replicate (indent * 2) 32 @ line @ [10] @ concat rest) }"

definition ExplainPlan :: "PlanNode \<Rightarrow> str option" where
  "ExplainPlan p = FormatNode 0 p"

definition ExplainAnalyze :: "PlanNode \<Rightarrow> str option" where
  "ExplainAnalyze p =
     map_option (\<lambda>s. ascii ''=== EXPLAIN ANALYZE ==='' @ [10] @ s @ ascii ''=== END ==='' @ [10]) (ExplainPlan p)"

section \<open>What the optimizer does to the planner's plans\<close>

text \<open>The four rules that only walk the tree return it.\<close>

lemma walking_rules [simp]:
  "Rule_PredicatePushdown p = p" "Rule_ColumnPruning p = p" "Rule_SeqScanToIndexScan p = p" "Rule_NLJToIndexJoin p = p"
  by (induction p) (simp_all add: map_idI)

text \<open>A tree without joins, and without a sort below a limit.\<close>

fun settled :: "PlanNode \<Rightarrow> bool" where
  "settled (PlanNode k s cs) \<longleftrightarrow> limit_over_sort k s cs = PlanNode k s cs \<and>
     (\<forall>c j. k \<noteq> NestedLoopJoinPlanNode c j) \<and> (\<forall>c \<in> set cs. settled c)"

lemma settled_rules: "settled p \<Longrightarrow> Rule_NLJToHashJoin p = p" "settled p \<Longrightarrow> Rule_SortLimitToTopN p = p"
proof (induction p)
  case (PlanNode k s cs)
  {
    case 1
    with PlanNode.IH(1) have "map Rule_NLJToHashJoin cs = cs" by (auto intro: map_idI)
    with 1 show ?case by (simp split: PlanKind.splits)
  next
    case 2
    with PlanNode.IH(2) have "map Rule_SortLimitToTopN cs = cs" by (auto intro: map_idI)
    with 2 show ?case by simp
  }
qed

lemma settled_scan [simp]: "settled (MakeSeqScan t s)"
  by (simp add: MakeSeqScan_def limit_over_sort_def)

lemma settled_filter [simp]:
  "(\<forall>c \<in> set (with_filter w s root). settled c) \<longleftrightarrow> (\<forall>c \<in> set root. settled c)"
  by (simp add: with_filter_def limit_over_sort_def)

lemma planned_settled: "Plan stmt = Some p \<Longrightarrow> settled p"
  by (cases stmt) (simp_all add: Plan_def PlanSelect_def PlanInsert_def PlanUpdate_def PlanDelete_def PlanCreate_def
      PlanDrop_def PlanCreateIndex_def Let_def limit_over_sort_def bind_eq_Some_conv split: if_splits, auto simp: limit_over_sort_def)

lemma Optimize_planned: "Plan stmt = Some p \<Longrightarrow> Optimize p = p"
  using settled_rules [OF planned_settled] by (simp add: Optimize_def)

text \<open>the optimizer returns every plan of the planner as it is: the planner makes neither joins nor sorts, and no
  other rule is active.\<close>

theorem optimize_planned:
  assumes "Plan stmt = Some p"
  shows "Optimize p = p"
  using assms by (rule Optimize_planned)

theorem optimize_planned_witness:
  "\<exists>p. Plan (Bound_Delete \<lparr>bd_table_name = [116], bd_table_schema = Some [], bd_where_clause = BoundConstant (VBoolean True)\<rparr>) = Some p \<and>
    Optimize p = p"
  using optimize_planned [of "Bound_Delete _"] by (simp add: Plan_def)

end
