(* ===== verification/Executors.thy ===== *)
theory Executors
  imports Plans Rid
begin

text \<open>
  The query executors (sql/executor/abstract_executor.h, executor_factory.cpp and advanced_executors.cpp),
  one by one. \<open>AbstractExecutor::Next\<close> is a virtual function, so an operator is given the \<open>Next\<close> of its child
  as an argument: a function on the state of the child (and of everything below it) that returns the new
  state and the row, if there is one. A row is the bytes of the tuple and what has been stored through the
  \<open>rid\<close> pointer, if anything has. \<open>None\<close> is undefined behaviour or a failed assertion in an expression, in
  building a tuple or in a comparison, or a child that never ends.
\<close>

type_synonym row = "byte list \<times> RID option"
type_synonym 's pull = "'s \<Rightarrow> ('s \<times> row option) option"

text \<open>Pulling rows until there are no more, as \<open>while (child->Next(...))\<close> does.\<close>

partial_function (option) drain :: "('s \<Rightarrow> ('s \<times> row option) option) \<Rightarrow> 's \<Rightarrow> ('s \<times> row list) option" where
  "drain nx s =
     Option.bind (nx s) (\<lambda>(s, r).
       case r of
         None \<Rightarrow> Some (s, [])
       | Some row \<Rightarrow> Option.bind (drain nx s) (\<lambda>(s, rows). Some (s, row # rows)))"

section \<open>Filter\<close>

definition is_true :: "Value \<Rightarrow> bool" where
  "is_true v \<longleftrightarrow> v = VBoolean True"

partial_function (option) filter_next ::
  "('s \<Rightarrow> ('s \<times> row option) option) \<Rightarrow> BoundExpression \<Rightarrow> schema option \<Rightarrow> 's \<Rightarrow> ('s \<times> row option) option" where
  "filter_next nx predicate s st =
     Option.bind (nx st) (\<lambda>(st, r).
       case r of
         None \<Rightarrow> Some (st, None)
       | Some row \<Rightarrow>
           Option.bind (Evaluate predicate (Some (fst row)) s) (\<lambda>result.
             if is_true result then Some (st, Some row) else filter_next nx predicate s st))"

section \<open>Projection\<close>

text \<open>The output row for one input row.\<close>

definition project_row :: "(BoundExpression \<times> str) list \<Rightarrow> schema option \<Rightarrow> schema \<Rightarrow> byte list \<Rightarrow> byte list option" where
  "project_row es s out t = do {
     values \<leftarrow> those (map (\<lambda>e. Evaluate (fst e) (Some t) s) es);
     CreateFromValues values (Some out) }"

definition projection_next :: "'s pull \<Rightarrow> (BoundExpression \<times> str) list \<Rightarrow> schema option \<Rightarrow> schema \<Rightarrow> 's pull" where
  "projection_next nx es s out st = do {
     (st, r) \<leftarrow> nx st;
     case r of
       None \<Rightarrow> Some (st, None)
     | Some row \<Rightarrow> do {
         t \<leftarrow> project_row es s out (fst row);
         Some (st, Some (t, None)) } }"

text \<open>Without a child there is one row of constants; \<open>produced_\<close> is the state.\<close>

definition constants_next :: "(BoundExpression \<times> str) list \<Rightarrow> schema \<Rightarrow> bool pull" where
  "constants_next es out produced =
     (if produced then Some (True, None)
      else do {
        t \<leftarrow> project_row es None out [];
        Some (True, Some (t, None)) })"

section \<open>Limit\<close>

record limit_state =
  returned :: i64
  skipped :: i64

definition limit_start :: limit_state where
  "limit_start = \<lparr>returned = 0, skipped = 0\<rparr>"

text \<open>Skipping the rows of the offset; the result tells whether there were enough of them.\<close>

partial_function (option) skip_rows ::
  "('s \<Rightarrow> ('s \<times> row option) option) \<Rightarrow> i64 \<Rightarrow> limit_state \<times> 's \<Rightarrow> ((limit_state \<times> 's) \<times> bool) option" where
  "skip_rows nx offset ls =
     (if sint (skipped (fst ls)) < sint offset then
        Option.bind (nx (snd ls)) (\<lambda>(s, r).
          case r of
            None \<Rightarrow> Some ((fst ls, s), False)
          | Some _ \<Rightarrow> skip_rows nx offset ((fst ls)\<lparr>skipped := skipped (fst ls) + 1\<rparr>, s))
      else Some (ls, True))"

definition limit_next :: "'s pull \<Rightarrow> i64 \<Rightarrow> i64 \<Rightarrow> (limit_state \<times> 's) pull" where
  "limit_next nx limit offset ls = do {
     ((l, s), enough) \<leftarrow> skip_rows nx offset ls;
     if \<not> enough then Some ((l, s), None)
     else if 0 \<le> sint limit \<and> sint limit \<le> sint (returned l) then Some ((l, s), None)
     else do {
       (s, r) \<leftarrow> nx s;
       case r of
         None \<Rightarrow> Some ((l, s), None)
       | Some row \<Rightarrow> Some ((l\<lparr>returned := returned l + 1\<rparr>, s), Some row) } }"

section \<open>Sort and top-N\<close>

text \<open>The keys of a row under an ORDER BY list, and their comparison; \<open>operator<\<close> of two values of
  different types that are not both numbers is a failed assertion.\<close>

definition sort_keys :: "(BoundExpression \<times> bool) list \<Rightarrow> schema option \<Rightarrow> byte list \<Rightarrow> Value list option" where
  "sort_keys obs s t = those (map (\<lambda>ob. Evaluate (fst ob) (Some t) s) obs)"

fun key_less :: "bool list \<Rightarrow> Value list \<Rightarrow> Value list \<Rightarrow> bool option" where
  "key_less (asc # ascs) (a # as) (b # bs) = do {
     less \<leftarrow> value_less a b;
     if less then Some asc
     else do {
       greater \<leftarrow> value_less b a;
       if greater then Some (\<not> asc) else key_less ascs as bs } }"
| "key_less _ _ _ = Some False"

type_synonym entry = "Value list \<times> byte list"

text \<open>\<open>std::sort\<close> leaves entries neither of which is less in an unspecified order; insertion from the front keeps
  the order they come in.\<close>

fun insert_entry :: "(entry \<Rightarrow> entry \<Rightarrow> bool option) \<Rightarrow> entry \<Rightarrow> entry list \<Rightarrow> entry list option" where
  "insert_entry lt x [] = Some [x]"
| "insert_entry lt x (y # ys) = do {
     less \<leftarrow> lt y x;
     if less then map_option ((#) y) (insert_entry lt x ys) else Some (x # y # ys) }"

fun std_sort :: "(entry \<Rightarrow> entry \<Rightarrow> bool option) \<Rightarrow> entry list \<Rightarrow> entry list option" where
  "std_sort lt [] = Some []"
| "std_sort lt (x # xs) = Option.bind (std_sort lt xs) (insert_entry lt x)"

definition sort_entries :: "(BoundExpression \<times> bool) list \<Rightarrow> schema option \<Rightarrow> row list \<Rightarrow> entry list option" where
  "sort_entries obs s rows = do {
     keys \<leftarrow> those (map (\<lambda>row. sort_keys obs s (fst row)) rows);
     std_sort (\<lambda>a b. key_less (map snd obs) (fst a) (fst b)) (zip keys (map fst rows)) }"

text \<open>\<open>TopNExecutor\<close>: a limit of 0, like a negative one, cuts nothing.\<close>

definition cut_entries :: "i64 \<Rightarrow> entry list \<Rightarrow> entry list" where
  "cut_entries limit es = (if 0 < sint limit \<and> nat (sint limit) < length es then take (nat (sint limit)) es else es)"

text \<open>The state of both: the entries once they have been collected, and the position.\<close>

record sort_state =
  entries :: "entry list option"
  sort_pos :: nat

definition sort_start :: sort_state where
  "sort_start = \<lparr>entries = None, sort_pos = 0\<rparr>"

definition emit_entry :: "sort_state \<Rightarrow> entry list \<Rightarrow> sort_state \<times> row option" where
  "emit_entry ss es =
     (if length es \<le> sort_pos ss then (ss\<lparr>entries := Some es\<rparr>, None)
      else (\<lparr>entries = Some es, sort_pos = sort_pos ss + 1\<rparr>, Some (snd (es ! sort_pos ss), None)))"

definition collected_next ::
  "(row list \<Rightarrow> entry list option) \<Rightarrow> 's pull \<Rightarrow> (sort_state \<times> 's) pull" where
  "collected_next prepare nx ss =
     (case entries (fst ss) of
        Some es \<Rightarrow> let (st, r) = emit_entry (fst ss) es in Some ((st, snd ss), r)
      | None \<Rightarrow> do {
          (s, rows) \<leftarrow> drain nx (snd ss);
          es \<leftarrow> prepare rows;
          let (st, r) = emit_entry (fst ss) es;
          Some ((st, s), r) })"

definition sort_next :: "'s pull \<Rightarrow> (BoundExpression \<times> bool) list \<Rightarrow> schema option \<Rightarrow> (sort_state \<times> 's) pull" where
  "sort_next nx obs s = collected_next (sort_entries obs s) nx"

definition topn_next :: "'s pull \<Rightarrow> (BoundExpression \<times> bool) list \<Rightarrow> i64 \<Rightarrow> schema option \<Rightarrow> (sort_state \<times> 's) pull" where
  "topn_next nx obs limit s = collected_next (\<lambda>rows. map_option (cut_entries limit) (sort_entries obs s rows)) nx"

end
