(* ===== verification/Advanced_Executors.thy ===== *)
theory Advanced_Executors
  imports Executors
begin

text \<open>
  The operators of sql/executor/advanced_executors.cpp that no plan of the planner contains: aggregation,
  the two joins and the window operator. As in the theory of the other operators the children are given as
  their \<open>Next\<close> functions; a join works on a state both children share.
\<close>

section \<open>Aggregation\<close>

text \<open>One state for each group, shared by all aggregates of the plan.\<close>

record AggregateState =
  agg_count :: i64
  agg_sum :: f64
  agg_min :: f64
  agg_max :: f64

definition f64_max_finite :: f64 where "f64_max_finite = 0x7FEFFFFFFFFFFFFF"

definition fresh_group :: AggregateState where
  "fresh_group = \<lparr>agg_count = 0, agg_sum = f64_zero False, agg_min = f64_max_finite, agg_max = f64_neg f64_max_finite\<rparr>"

text \<open>\<open>MakeGroupKey\<close>: the printed values, each followed by a bar.\<close>

fun MakeGroupKey :: "BoundExpression list \<Rightarrow> byte list \<Rightarrow> schema option \<Rightarrow> str option" where
  "MakeGroupKey [] t s = Some []"
| "MakeGroupKey (e # es) t s = do {
     v \<leftarrow> Evaluate e (Some t) s;
     printed \<leftarrow> value_to_string v;
     rest \<leftarrow> MakeGroupKey es t s;
     Some (printed @ ascii ''|'' @ rest) }"

text \<open>\<open>std::min\<close> and \<open>std::max\<close> return the first argument unless the second one is strictly smaller (larger).\<close>

definition fold_value :: "str \<Rightarrow> f64 \<Rightarrow> AggregateState \<Rightarrow> AggregateState" where
  "fold_value name d g =
     (if name = ascii ''SUM'' \<or> name = ascii ''AVG'' then g\<lparr>agg_sum := f64_add (agg_sum g) d\<rparr>
      else if name = ascii ''MIN'' then g\<lparr>agg_min := (if f64_less d (agg_min g) then d else agg_min g)\<rparr>
      else if name = ascii ''MAX'' then g\<lparr>agg_max := (if f64_less (agg_max g) d then d else agg_max g)\<rparr>
      else g)"

definition fold_aggregate :: "schema option \<Rightarrow> byte list \<Rightarrow> BoundExpression \<Rightarrow> AggregateState \<Rightarrow> AggregateState option" where
  "fold_aggregate s t agg g =
     (case agg of
        BoundFunctionCall name args is_star _ \<Rightarrow>
          if is_star \<or> args = [] then Some g
          else do {
            v \<leftarrow> Evaluate (hd args) (Some t) s;
            Some (if name \<noteq> ascii ''COUNT'' \<and> IsNumericType (GetTypeId v) then fold_value name (ToDouble v) g else g) }
      | _ \<Rightarrow> Some g)"

fun fold_aggregates :: "schema option \<Rightarrow> byte list \<Rightarrow> BoundExpression list \<Rightarrow> AggregateState \<Rightarrow> AggregateState option" where
  "fold_aggregates s t [] g = Some g"
| "fold_aggregates s t (a # as) g = Option.bind (fold_aggregate s t a g) (fold_aggregates s t as)"

text \<open>The groups are an \<open>unordered_map\<close>, whose order of iteration is not specified; here it is that of the first
  rows of the groups. The state of a key that is not there is created.\<close>

type_synonym groups = "(str \<times> AggregateState) list"

fun change_group :: "str \<Rightarrow> (AggregateState \<Rightarrow> AggregateState option) \<Rightarrow> groups \<Rightarrow> groups option" where
  "change_group key f [] = map_option (\<lambda>g. [(key, g)]) (f fresh_group)"
| "change_group key f ((k, g) # gs) =
     (if k = key then map_option (\<lambda>g. (k, g) # gs) (f g) else map_option ((#) (k, g)) (change_group key f gs))"

definition group_row :: "BoundExpression list \<Rightarrow> BoundExpression list \<Rightarrow> schema option \<Rightarrow> byte list \<Rightarrow> groups \<Rightarrow> groups option" where
  "group_row gbs aggs s t gs = do {
     key \<leftarrow> MakeGroupKey gbs t s;
     change_group key (\<lambda>g. fold_aggregates s t aggs (g\<lparr>agg_count := agg_count g + 1\<rparr>)) gs }"

fun group_rows :: "BoundExpression list \<Rightarrow> BoundExpression list \<Rightarrow> schema option \<Rightarrow> byte list list \<Rightarrow> groups \<Rightarrow> groups option" where
  "group_rows gbs aggs s [] gs = Some gs"
| "group_rows gbs aggs s (t # ts) gs =
     Option.bind (group_row gbs aggs s t gs) (group_rows gbs aggs s ts)"

text \<open>The output row of a group: the key for each grouping column, then the aggregates.\<close>

definition aggregate_value :: "AggregateState \<Rightarrow> BoundExpression \<Rightarrow> Value" where
  "aggregate_value g agg =
     (case agg of
        BoundFunctionCall name _ _ _ \<Rightarrow>
          if name = ascii ''COUNT'' then VBigInt (agg_count g)
          else if name = ascii ''SUM'' then VDecimal (agg_sum g)
          else if name = ascii ''AVG'' then
            VDecimal (if 0 < sint (agg_count g) then f64_div (agg_sum g) (f64_of_int (sint (agg_count g))) else f64_zero False)
          else if name = ascii ''MIN'' then VDecimal (agg_min g)
          else if name = ascii ''MAX'' then VDecimal (agg_max g)
          else VInvalid
      | _ \<Rightarrow> VInvalid)"

definition group_values :: "BoundExpression list \<Rightarrow> BoundExpression list \<Rightarrow> str \<times> AggregateState \<Rightarrow> Value list" where
  "group_values gbs aggs kg =
     (let vs = map (\<lambda>_. VVarchar (fst kg)) gbs @ map (aggregate_value (snd kg)) aggs
      in if vs = [] then [VBigInt (agg_count (snd kg))] else vs)"

text \<open>The columns of the output.\<close>

definition group_column :: "BoundExpression \<Rightarrow> column option" where
  "group_column e = do {
     name \<leftarrow> expr_to_string e;
     t \<leftarrow> GetReturnType e;
     let t = (if t = INVALID then VARCHAR else t);
     Some \<lparr>column_name = name, column_type = t, max_length = (if t = VARCHAR then 256 else 0), is_nullable = True, is_primary_key = False\<rparr> }"

definition aggregate_column :: "BoundExpression \<Rightarrow> column option" where
  "aggregate_column e = do {
     name \<leftarrow> expr_to_string e;
     t \<leftarrow> GetReturnType e;
     Some \<lparr>column_name = name, column_type = (if t = INVALID then DECIMAL else t), max_length = 0, is_nullable = True,
           is_primary_key = False\<rparr> }"

definition aggregation_schema :: "BoundExpression list \<Rightarrow> BoundExpression list \<Rightarrow> schema option" where
  "aggregation_schema gbs aggs = do {
     gs \<leftarrow> those (map group_column gbs);
     as \<leftarrow> those (map aggregate_column aggs);
     Some (if gs @ as = []
           then [\<lparr>column_name = ascii ''count'', column_type = BIGINT, max_length = 0, is_nullable = True, is_primary_key = False\<rparr>]
           else gs @ as) }"

record aggregation_state =
  agg_results :: "groups option"
  result_pos :: nat

definition aggregation_start :: aggregation_state where
  "aggregation_start = \<lparr>agg_results = None, result_pos = 0\<rparr>"

definition emit_group ::
  "BoundExpression list \<Rightarrow> BoundExpression list \<Rightarrow> schema \<Rightarrow> nat \<Rightarrow> groups \<Rightarrow> (aggregation_state \<times> row option) option" where
  "emit_group gbs aggs out pos gs =
     (if length gs \<le> pos then Some (\<lparr>agg_results = Some gs, result_pos = pos\<rparr>, None)
      else do {
        t \<leftarrow> CreateFromValues (group_values gbs aggs (gs ! pos)) (Some out);
        Some (\<lparr>agg_results = Some gs, result_pos = pos + 1\<rparr>, Some (t, None)) })"

definition aggregation_next ::
  "'s pull \<Rightarrow> BoundExpression list \<Rightarrow> BoundExpression list \<Rightarrow> schema option \<Rightarrow> schema \<Rightarrow> (aggregation_state \<times> 's) pull" where
  "aggregation_next nx gbs aggs s out as =
     (case agg_results (fst as) of
        Some gs \<Rightarrow> map_option (\<lambda>(st, r). ((st, snd as), r)) (emit_group gbs aggs out (result_pos (fst as)) gs)
      | None \<Rightarrow> do {
          (st, rows) \<leftarrow> drain nx (snd as);
          gs \<leftarrow> group_rows gbs aggs s (map fst rows) [];
          map_option (\<lambda>(a, r). ((a, st), r)) (emit_group gbs aggs out (result_pos (fst as)) gs) })"

section \<open>Joins\<close>

text \<open>All values of a tuple; the schema pointer is dereferenced.\<close>

definition all_values :: "byte list \<Rightarrow> schema option \<Rightarrow> Value list option" where
  "all_values t s = Option.bind s (\<lambda>sch. those (map (GetValue t (Some sch)) [0..<length sch]))"

definition joined_values :: "schema option \<Rightarrow> schema option \<Rightarrow> byte list \<Rightarrow> byte list \<Rightarrow> Value list option" where
  "joined_values ls rs l r = do {
     lv \<leftarrow> all_values l ls;
     rv \<leftarrow> all_values r rs;
     Some (lv @ rv) }"

definition join_schema :: "schema option \<Rightarrow> schema option \<Rightarrow> schema" where
  "join_schema ls rs = (case ls of None \<Rightarrow> [] | Some l \<Rightarrow> l) @ (case rs of None \<Rightarrow> [] | Some r \<Rightarrow> r)"

subsection \<open>Nested loops\<close>

text \<open>The combined tuple of a pair, if the condition is true on it.\<close>

definition join_pair :: "BoundExpression \<Rightarrow> schema option \<Rightarrow> schema option \<Rightarrow> byte list \<Rightarrow> byte list \<Rightarrow> byte list option option" where
  "join_pair cond ls rs l r = do {
     vs \<leftarrow> joined_values ls rs l r;
     t \<leftarrow> CreateFromValues vs (Some (join_schema ls rs));
     matches \<leftarrow> (if cond = Null_Expression then Some True
        else map_option is_true (Evaluate cond (Some t) (Some (join_schema ls rs))));
     Some (if matches then Some t else None) }"

record nlj_state =
  left_tuples :: "byte list list"
  left_pos :: nat
  current_right :: "byte list"
  right_valid :: bool
  nlj_inited :: bool

definition nlj_start :: nlj_state where
  "nlj_start = \<lparr>left_tuples = [], left_pos = 0, current_right = [], right_valid = False, nlj_inited = True\<rparr>"

text \<open>\<open>right_valid_ = right_child_->Next(&current_right_, nullptr)\<close>.\<close>

definition fetch_right :: "'s pull \<Rightarrow> nlj_state \<times> 's \<Rightarrow> (nlj_state \<times> 's) option" where
  "fetch_right nxr js =
     map_option (\<lambda>(s, r).
       (case r of None \<Rightarrow> (fst js)\<lparr>right_valid := False\<rparr> | Some row \<Rightarrow> (fst js)\<lparr>current_right := fst row, right_valid := True\<rparr>, s))
       (nxr (snd js))"

text \<open>\<open>init\<close> is the \<open>Init\<close> of the right child.\<close>

partial_function (option) nlj_loop ::
  "('s \<Rightarrow> ('s \<times> row option) option) \<Rightarrow> ('s \<Rightarrow> 's option) \<Rightarrow> (byte list \<Rightarrow> byte list \<Rightarrow> byte list option option) \<Rightarrow>
   nlj_state \<times> 's \<Rightarrow> ((nlj_state \<times> 's) \<times> row option) option" where
  "nlj_loop nxr init pair js =
     (if length (left_tuples (fst js)) \<le> left_pos (fst js) then Some (js, None)
      else Option.bind (if right_valid (fst js) then Some js else fetch_right nxr js) (\<lambda>js.
        if \<not> right_valid (fst js) then
          Option.bind (init (snd js)) (\<lambda>s.
            Option.bind (fetch_right nxr ((fst js)\<lparr>left_pos := left_pos (fst js) + 1\<rparr>, s)) (nlj_loop nxr init pair))
        else
          Option.bind (pair (left_tuples (fst js) ! left_pos (fst js)) (current_right (fst js))) (\<lambda>m.
            case m of
              Some t \<Rightarrow> Some (((fst js)\<lparr>right_valid := False\<rparr>, snd js), Some (t, None))
            | None \<Rightarrow> nlj_loop nxr init pair ((fst js)\<lparr>right_valid := False\<rparr>, snd js))))"

definition nlj_next ::
  "'s pull \<Rightarrow> 's pull \<Rightarrow> ('s \<Rightarrow> 's option) \<Rightarrow> BoundExpression \<Rightarrow> schema option \<Rightarrow> schema option \<Rightarrow> (nlj_state \<times> 's) pull" where
  "nlj_next nxl nxr init cond ls rs js = do {
     js \<leftarrow> (if nlj_inited (fst js) \<and> left_tuples (fst js) = [] then do {
              (s, rows) \<leftarrow> drain nxl (snd js);
              s \<leftarrow> init s;
              Some ((fst js)\<lparr>left_tuples := map fst rows, nlj_inited := False\<rparr>, s) }
            else Some js);
     nlj_loop nxr init (join_pair cond ls rs) js }"

subsection \<open>Hash join\<close>

text \<open>The build phase computes a key for every left tuple, if there is a condition; its table is not looked at unless
  the right child gives a row. The right child is then called with a null tuple: it writes a row through that
  pointer, if it has one, so the probe phase is never reached.\<close>

definition build_key :: "BoundExpression \<Rightarrow> schema option \<Rightarrow> byte list \<Rightarrow> str option" where
  "build_key cond ls t =
     (if cond = Null_Expression then Some [] else Option.bind (GetValue t ls 0) value_to_string)"

record hash_join_state =
  hash_table :: "(str \<times> byte list) list"
  built :: bool

definition hash_join_start :: hash_join_state where
  "hash_join_start = \<lparr>hash_table = [], built = False\<rparr>"

definition hash_join_next ::
  "'s pull \<Rightarrow> 's pull \<Rightarrow> BoundExpression \<Rightarrow> schema option \<Rightarrow> (hash_join_state \<times> 's) pull" where
  "hash_join_next nxl nxr cond ls hs = do {
     (h, s) \<leftarrow> (if built (fst hs) then Some hs
       else do {
         (s, rows) \<leftarrow> drain nxl (snd hs);
         keys \<leftarrow> those (map (\<lambda>row. build_key cond ls (fst row)) rows);
         Some (\<lparr>hash_table = zip keys (map fst rows), built = True\<rparr>, s) });
     (s, r) \<leftarrow> nxr s;
     case r of
       None \<Rightarrow> Some ((h, s), None)
     | Some _ \<Rightarrow> None }"

section \<open>Window functions\<close>

text \<open>\<open>WindowFunctionExecutor\<close> collects the rows of its child, on every call as long as there are none, and returns
  them one by one. No plan node makes it.\<close>

definition window_next :: "'s pull \<Rightarrow> ((byte list list \<times> nat) \<times> 's) pull" where
  "window_next nx ws = do {
     (ts, s) \<leftarrow> (if fst (fst ws) = [] then map_option (\<lambda>(s, rows). (map fst rows, s)) (drain nx (snd ws))
       else Some (fst (fst ws), snd ws));
     let pos = snd (fst ws);
     Some (if length ts \<le> pos then (((ts, pos), s), None) else (((ts, pos + 1), s), Some (ts ! pos, None))) }"

end
