(* ===== verification/Goods_Handler.thy ===== *)
theory Goods_Handler
  imports Table_Heap Catalogs
begin

text \<open>
  The storage engine's handler (sql/handler.h, sql/goods_handler.h and .cpp): one open table, its scan, and
  the operations on rows, on top of the catalog, the heaps and the buffer pool, which all handlers share.
  \<open>TableInfo::table_heap\<close> is a map from the names of the tables. \<open>IndexInfo::index_instance\<close> is null in every
  entry the catalog makes and nothing in the program sets it, so the loops over the indexes of a table do
  nothing and an index scan finds no index object. A result of 0 or -1 is a \<open>bool\<close>. \<open>None\<close> is an operation
  that does not come to a result.
\<close>

record engine =
  eng_catalog :: catalog
  eng_heaps :: "str \<Rightarrow> table_heap option"
  eng_pool :: bpm
  eng_data_dir :: str

record handler =
  h_table_name :: str
  h_schema :: "schema option"
  h_info :: "TableInfo option"
  h_heap :: "table_heap option"
  h_iterator :: "titer option"
  h_scan_active :: bool
  h_index_scan_active :: bool

definition goods_handler :: handler where
  "goods_handler = \<lparr>h_table_name = [], h_schema = None, h_info = None, h_heap = None, h_iterator = None,
     h_scan_active = False, h_index_scan_active = False\<rparr>"

text \<open>What a handler works on: itself and the shared engine.\<close>

type_synonym store = "handler \<times> engine"

section \<open>Scans\<close>

text \<open>The iterator's destructor releases the page it stands on.\<close>

definition rnd_end :: "store \<Rightarrow> store" where
  "rnd_end s =
     (let (h, e) = s;
          pool = (case h_iterator h of None \<Rightarrow> eng_pool e | Some it \<Rightarrow> snd (release_current it (eng_pool e)))
      in (h\<lparr>h_iterator := None, h_scan_active := False\<rparr>, e\<lparr>eng_pool := pool\<rparr>))"

definition rnd_init :: "store \<Rightarrow> (store \<times> bool) option" where
  "rnd_init s =
     (case h_heap (fst s) of
        None \<Rightarrow> Some (s, False)
      | Some heap \<Rightarrow> do {
          let (h, e) = (if h_scan_active (fst s) then rnd_end s else s);
          (it, pool) \<leftarrow> MakeIterator heap (eng_pool e);
          Some ((h\<lparr>h_iterator := Some it, h_scan_active := True\<rparr>, e\<lparr>eng_pool := pool\<rparr>), True) })"

definition rnd_next :: "store \<Rightarrow> (store \<times> (byte list \<times> RID) option) option" where
  "rnd_next s =
     (let (h, e) = s in
      if \<not> h_scan_active h then Some (s, None)
      else
        case h_iterator h of
          None \<Rightarrow> Some (s, None)
        | Some it \<Rightarrow>
            if \<not> HasNext it then Some (s, None)
            else do {
              ((rid, tuple), it, pool) \<leftarrow> Next it (eng_pool e);
              Some ((h\<lparr>h_iterator := Some it\<rparr>, e\<lparr>eng_pool := pool\<rparr>), Some (tuple, rid)) })"

definition rnd_pos :: "RID \<Rightarrow> store \<Rightarrow> (store \<times> byte list option) option" where
  "rnd_pos rid s =
     (let (h, e) = s in
      case h_heap h of
        None \<Rightarrow> Some (s, None)
      | Some heap \<Rightarrow>
          if h_schema h = None then Some (s, None)
          else do {
            (pool, t) \<leftarrow> heap_GetTuple rid (eng_pool e);
            Some ((h, e\<lparr>eng_pool := pool\<rparr>), t) })"

section \<open>Opening and closing\<close>

definition index_init :: "nat \<Rightarrow> store \<Rightarrow> store \<times> bool" where
  "index_init idx_id s =
     (let (h, e) = s in
      case h_info h of
        None \<Rightarrow> (s, False)
      | Some info \<Rightarrow>
          if length (indexes info) \<le> idx_id then (s, False) else ((h\<lparr>h_index_scan_active := True\<rparr>, e), True))"

definition index_end :: "store \<Rightarrow> store" where
  "index_end s = ((fst s)\<lparr>h_index_scan_active := False\<rparr>, snd s)"

definition close_table :: "store \<Rightarrow> store" where
  "close_table s =
     (let s = (if h_scan_active (fst s) then rnd_end s else s);
          (h, e) = (if h_index_scan_active (fst s) then index_end s else s)
      in (h\<lparr>h_table_name := [], h_schema := None, h_info := None, h_heap := None\<rparr>, e))"

definition open_table :: "str \<Rightarrow> store \<Rightarrow> store \<times> bool" where
  "open_table name s =
     (let (h, e) = s;
          (c, info) = GetTable name (eng_catalog e);
          e = e\<lparr>eng_catalog := c\<rparr>;
          h = h\<lparr>h_table_name := name, h_info := info\<rparr>
      in case info of
           None \<Rightarrow> ((h, e), False)
         | Some t \<Rightarrow>
             let heap = eng_heaps e name in ((h\<lparr>h_schema := Some (table_schema t), h_heap := heap\<rparr>, e), heap \<noteq> None))"

section \<open>Rows\<close>

definition write_row :: "byte list \<Rightarrow> store \<Rightarrow> (store \<times> bool) option" where
  "write_row tuple s =
     (let (h, e) = s in
      case h_heap h of
        None \<Rightarrow> Some (s, False)
      | Some heap \<Rightarrow>
          if h_schema h = None then Some (s, False)
          else do {
            (pool, rid) \<leftarrow> heap_InsertTuple heap tuple (eng_pool e);
            Some ((h, e\<lparr>eng_pool := pool\<rparr>), rid \<noteq> None) })"

definition update_row :: "RID \<Rightarrow> byte list \<Rightarrow> store \<Rightarrow> (store \<times> bool) option" where
  "update_row rid new_tuple s =
     (let (h, e) = s in
      case h_heap h of
        None \<Rightarrow> Some (s, False)
      | Some heap \<Rightarrow>
          if h_schema h = None then Some (s, False)
          else do {
            (pool, new_rid) \<leftarrow> heap_UpdateTuple heap rid new_tuple (eng_pool e);
            Some ((h, e\<lparr>eng_pool := pool\<rparr>), new_rid \<noteq> None) })"

definition delete_row :: "RID \<Rightarrow> store \<Rightarrow> (store \<times> bool) option" where
  "delete_row rid s =
     (let (h, e) = s in
      case h_heap h of
        None \<Rightarrow> Some (s, False)
      | Some _ \<Rightarrow> do {
          (pool, ok) \<leftarrow> heap_MarkDelete rid (eng_pool e);
          Some ((h, e\<lparr>eng_pool := pool\<rparr>), ok) })"

text \<open>The iterator of \<open>records\<close> is destroyed when the count is known.\<close>

definition records :: "store \<Rightarrow> (store \<times> nat) option" where
  "records s =
     (let (h, e) = s in
      case h_heap h of
        None \<Rightarrow> Some (s, 0)
      | Some heap \<Rightarrow> do {
          (it, pool) \<leftarrow> MakeIterator heap (eng_pool e);
          (count, it, pool) \<leftarrow> Count it pool;
          Some ((h, e\<lparr>eng_pool := snd (release_current it pool)\<rparr>), count) })"

section \<open>Tables\<close>

text \<open>A name as the disk manager takes it.\<close>

definition file_name :: "str \<Rightarrow> string" where
  "file_name s = map (\<lambda>c. char_of (unat c)) s"

definition table_path :: "str \<Rightarrow> engine \<Rightarrow> str" where
  "table_path name e = eng_data_dir e @ ascii ''/'' @ name @ ascii ''.db''"

text \<open>The first page of a new table, and the registration of the table.\<close>

definition init_root_page :: "i32 \<Rightarrow> bpm \<Rightarrow> bpm option" where
  "init_root_page root b =
     (case FetchPage root b of
        (b, None) \<Rightarrow> None
      | (b, Some f) \<Rightarrow> Some (fst (UnpinPage root True (MarkDirty f (modify_page f (\<lambda>_. Init root) b)))))"

definition register_table :: "str \<Rightarrow> schema \<Rightarrow> i32 \<Rightarrow> engine \<Rightarrow> engine \<times> bool" where
  "register_table name sch root e =
     (let (c, ok) = CreateTable name sch (table_path name e) root (eng_catalog e);
          e = e\<lparr>eng_catalog := c\<rparr>
      in if ok then (e\<lparr>eng_heaps := (eng_heaps e)(name := Some (TableHeap root))\<rparr>, True) else (e, False))"

definition create :: "str \<Rightarrow> schema \<Rightarrow> store \<Rightarrow> (store \<times> bool) option" where
  "create name sch s = do {
     let (h, e) = s;
     let pool = eng_pool e;
     (d, file_id) \<leftarrow> CreateFile (file_name name) (file_name (table_path name e)) (disk_manager pool);
     let pool = pool\<lparr>disk_manager := d\<rparr>;
     if file_id = - 1 then Some ((h, e\<lparr>eng_pool := pool\<rparr>), False)
     else do {
       (d, root_page_id) \<leftarrow> AllocatePage file_id d;
       let pool = pool\<lparr>disk_manager := d\<rparr>;
       if root_page_id = INVALID_PAGE_ID then Some ((h, e\<lparr>eng_pool := pool\<rparr>), False)
       else
         (case init_root_page root_page_id pool of
            None \<Rightarrow> Some ((h, e\<lparr>eng_pool := fst (FetchPage root_page_id pool)\<rparr>), False)
          | Some pool \<Rightarrow>
              let (e, ok) = register_table name sch root_page_id (e\<lparr>eng_pool := pool\<rparr>) in Some ((h, e), ok)) } }"

definition delete_table :: "str \<Rightarrow> store \<Rightarrow> store" where
  "delete_table name s =
     (let (h, e) = (if h_table_name (fst s) = name then close_table s else s);
          (c, info) = GetTable name (eng_catalog e);
          pool = (case info of
             None \<Rightarrow> eng_pool e
           | Some t \<Rightarrow>
               let fid = GetFileId (table_root_page_id t);
                   b = FlushFilePages fid (eng_pool e)
               in b\<lparr>disk_manager := DeleteFile fid (file_name (file_path t)) (disk_manager b)\<rparr>)
      in (h, e\<lparr>eng_catalog := fst (DropTable name c), eng_heaps := (eng_heaps e)(name := None), eng_pool := pool\<rparr>))"

end
