(* ===== verification/Execution.thy ===== *)
theory Execution
  imports Advanced_Executors Goods_Handler Hash_Index B_Plus_Tree
begin

text \<open>
  The executor trees: how the factory builds one from a plan, their \<open>Init\<close>, their \<open>Next\<close> and the output
  schemas, over a handler and the engine behind it (sql/executor/executor_factory.cpp), and the driver
  \<open>ExecutionEngine::ExecutePlan\<close> (sql/executor/execution_engine.cpp). The tree itself does not change while a
  query runs; what its nodes keep is a tree of states beside it. A null child is \<open>Null_Executor\<close>.
\<close>

section \<open>The context\<close>

record ExecutorContext =
  ctx_store :: store
  ctx_affected :: int

abbreviation on_store :: "(store \<Rightarrow> (store \<times> 'a) option) \<Rightarrow> ExecutorContext \<Rightarrow> (ExecutorContext \<times> 'a) option" where
  "on_store op ctx \<equiv> map_option (\<lambda>(s, r). (ctx\<lparr>ctx_store := s\<rparr>, r)) (op (ctx_store ctx))"

definition ctx_catalog :: "ExecutorContext \<Rightarrow> catalog" where
  "ctx_catalog ctx = eng_catalog (snd (ctx_store ctx))"

text \<open>\<open>close\<close> and \<open>open\<close>, as the executors call them one after the other.\<close>

definition reopen :: "str \<Rightarrow> ExecutorContext \<Rightarrow> ExecutorContext" where
  "reopen t ctx = ctx\<lparr>ctx_store := fst (open_table t (close_table (ctx_store ctx)))\<rparr>"

section \<open>Executors\<close>

datatype executor =
    Null_Executor
  | SeqScanExecutor str "schema option"
  | FilterExecutor BoundExpression executor
  | ProjectionExecutor "(BoundExpression \<times> str) list" schema executor
  | LimitExecutor i64 i64 executor
  | SortExecutor "(BoundExpression \<times> bool) list" executor
  | TopNExecutor "(BoundExpression \<times> bool) list" i64 executor
  | AggregationExecutor "BoundExpression list" "BoundExpression list" executor
  | IndexScanExecutor "schema option"
  | HashJoinExecutor BoundExpression executor executor
  | NestedLoopJoinExecutor BoundExpression executor executor
  | InsertExecutor str "schema option" "int list" "BoundExpression list list"
  | UpdateExecutor str "schema option" "(int \<times> BoundExpression) list" executor
  | DeleteExecutor str "schema option" executor
  | CreateTableExecutor str schema
  | DropTableExecutor str
  | CreateIndexExecutor str str "schema option" int str

datatype exec_state =
    No_State
  | Flag bool
  | Below exec_state
  | Flag_Below bool exec_state
  | Limit_State limit_state exec_state
  | Sort_State sort_state exec_state
  | Aggregation_State aggregation_state exec_state
  | Hash_Join_State hash_join_state exec_state exec_state
  | Nlj_State nlj_state exec_state exec_state

text \<open>\<open>ExecutorFactory::Create\<close>, with \<open>CreateAdvancedExecutor\<close>: a node without a child where one belongs gets a null
  child. \<open>None\<close> is the null pointer the factory returns for a VALUES node.\<close>

fun Create :: "PlanNode \<Rightarrow> executor option" where
  "Create (PlanNode k s cs) =
     (let child = (case cs of [] \<Rightarrow> Some Null_Executor | c # _ \<Rightarrow> Create c);
          second = (case cs of _ # c # _ \<Rightarrow> Create c | _ \<Rightarrow> Some Null_Executor) in
      case k of
        SeqScanPlanNode t sch _ \<Rightarrow> Some (SeqScanExecutor t sch)
      | FilterPlanNode p \<Rightarrow> map_option (FilterExecutor p) child
      | ProjectionPlanNode es \<Rightarrow> map_option (ProjectionExecutor es s) child
      | LimitPlanNode l off \<Rightarrow> map_option (LimitExecutor l off) child
      | SortPlanNode obs \<Rightarrow> map_option (SortExecutor obs) child
      | TopNPlanNode obs l \<Rightarrow> map_option (TopNExecutor obs l) child
      | AggregationPlanNode gs aggs \<Rightarrow> map_option (AggregationExecutor gs aggs) child
      | IndexScanPlanNode _ sch _ _ _ _ \<Rightarrow> Some (IndexScanExecutor sch)
      | HashJoinPlanNode cond _ \<Rightarrow> do { l \<leftarrow> child; r \<leftarrow> second; Some (HashJoinExecutor cond l r) }
      | NestedLoopJoinPlanNode cond _ \<Rightarrow> do { l \<leftarrow> child; r \<leftarrow> second; Some (NestedLoopJoinExecutor cond l r) }
      | InsertPlanNode t sch is rows \<Rightarrow> Some (InsertExecutor t sch is rows)
      | UpdatePlanNode t sch sets \<Rightarrow> map_option (UpdateExecutor t sch sets) child
      | DeletePlanNode t sch \<Rightarrow> map_option (DeleteExecutor t sch) child
      | CreatePlanNode t sch _ \<Rightarrow> Some (CreateTableExecutor t sch)
      | DropPlanNode t _ \<Rightarrow> Some (DropTableExecutor t)
      | CreateIndexPlanNode i t sch col typ _ \<Rightarrow> Some (CreateIndexExecutor i t sch col typ)
      | _ \<Rightarrow> None)"

text \<open>\<open>GetOutputSchema\<close>, a pointer that may be null; the outer \<open>None\<close> is a call through a null child.\<close>

fun GetOutputSchema :: "executor \<Rightarrow> schema option option" where
  "GetOutputSchema Null_Executor = None"
| "GetOutputSchema (SeqScanExecutor _ s) = Some s"
| "GetOutputSchema (FilterExecutor _ c) = GetOutputSchema c"
| "GetOutputSchema (ProjectionExecutor _ s _) = Some (Some s)"
| "GetOutputSchema (LimitExecutor _ _ c) = GetOutputSchema c"
| "GetOutputSchema (SortExecutor _ c) = GetOutputSchema c"
| "GetOutputSchema (TopNExecutor _ _ c) = GetOutputSchema c"
| "GetOutputSchema (AggregationExecutor gs aggs _) = map_option Some (aggregation_schema gs aggs)"
| "GetOutputSchema (IndexScanExecutor s) = Some s"
| "GetOutputSchema (HashJoinExecutor _ l r) = do {
     ls \<leftarrow> GetOutputSchema l;
     rs \<leftarrow> GetOutputSchema r;
     Some (Some (join_schema ls rs)) }"
| "GetOutputSchema (NestedLoopJoinExecutor _ l r) = do {
     ls \<leftarrow> GetOutputSchema l;
     rs \<leftarrow> GetOutputSchema r;
     Some (Some (join_schema ls rs)) }"
| "GetOutputSchema _ = Some None"

section \<open>Init\<close>

text \<open>An index scan asks the catalog for an index object, which no entry has, and stays without results. The joins and
  the aggregation build their output schema here.\<close>

fun Init :: "executor \<Rightarrow> ExecutorContext \<Rightarrow> (exec_state \<times> ExecutorContext) option" where
  "Init Null_Executor ctx = Some (No_State, ctx)"
| "Init (SeqScanExecutor t _) ctx =
     map_option (\<lambda>(ctx, _). (Flag True, ctx)) (on_store rnd_init (reopen t ctx))"
| "Init (FilterExecutor _ c) ctx = map_option (\<lambda>(s, ctx). (Below s, ctx)) (Init c ctx)"
| "Init (ProjectionExecutor _ _ c) ctx = map_option (\<lambda>(s, ctx). (Flag_Below False s, ctx)) (Init c ctx)"
| "Init (LimitExecutor _ _ c) ctx = map_option (\<lambda>(s, ctx). (Limit_State limit_start s, ctx)) (Init c ctx)"
| "Init (SortExecutor _ c) ctx = map_option (\<lambda>(s, ctx). (Sort_State sort_start s, ctx)) (Init c ctx)"
| "Init (TopNExecutor _ _ c) ctx = map_option (\<lambda>(s, ctx). (Sort_State sort_start s, ctx)) (Init c ctx)"
| "Init (AggregationExecutor gs aggs c) ctx = do {
     (s, ctx) \<leftarrow> Init c ctx;
     _ \<leftarrow> aggregation_schema gs aggs;
     Some (Aggregation_State aggregation_start s, ctx) }"
| "Init (IndexScanExecutor _) ctx = Some (No_State, ctx)"
| "Init (HashJoinExecutor _ l r) ctx = do {
     (sl, ctx) \<leftarrow> Init l ctx;
     (sr, ctx) \<leftarrow> Init r ctx;
     _ \<leftarrow> GetOutputSchema l;
     _ \<leftarrow> GetOutputSchema r;
     Some (Hash_Join_State hash_join_start sl sr, ctx) }"
| "Init (NestedLoopJoinExecutor _ l r) ctx = do {
     (sl, ctx) \<leftarrow> Init l ctx;
     (sr, ctx) \<leftarrow> Init r ctx;
     _ \<leftarrow> GetOutputSchema l;
     _ \<leftarrow> GetOutputSchema r;
     Some (Nlj_State nlj_start sl sr, ctx) }"
| "Init (InsertExecutor t _ _ _) ctx = Some (Flag False, if t = [] then ctx else reopen t ctx)"
| "Init (UpdateExecutor t _ _ c) ctx =
     map_option (\<lambda>(s, ctx). (Flag_Below False s, ctx)) (Init c (if t = [] then ctx else reopen t ctx))"
| "Init (DeleteExecutor _ _ c) ctx = map_option (\<lambda>(s, ctx). (Flag_Below False s, ctx)) (Init c ctx)"
| "Init (CreateTableExecutor _ _) ctx = Some (Flag False, ctx)"
| "Init (DropTableExecutor _) ctx = Some (Flag False, ctx)"
| "Init (CreateIndexExecutor _ _ _ _ _) ctx = Some (Flag False, ctx)"

section \<open>The scan\<close>

definition scan_next :: "ExecutorContext \<Rightarrow> (ExecutorContext \<times> row option) option" where
  "scan_next ctx = map_option (\<lambda>(ctx, r). (ctx, map_option (\<lambda>(t, rid). (t, Some rid)) r)) (on_store rnd_next ctx)"

section \<open>INSERT\<close>

text \<open>The largest integer in a column of the open table, for the next automatic key; adding 1 to the largest
  \<open>int64_t\<close> is undefined.\<close>

definition key_of_value :: "Value \<Rightarrow> int" where
  "key_of_value v =
     (case v of VTinyInt n \<Rightarrow> sint n | VSmallInt n \<Rightarrow> sint n | VInteger n \<Rightarrow> sint n | VBigInt n \<Rightarrow> sint n | _ \<Rightarrow> 0)"

partial_function (option) max_key_loop :: "schema \<Rightarrow> nat \<Rightarrow> int \<Rightarrow> store \<Rightarrow> (store \<times> int) option" where
  "max_key_loop s i max_id st =
     Option.bind (rnd_next st) (\<lambda>(st, r).
       case r of
         None \<Rightarrow> Some (st, max_id)
       | Some (t, _) \<Rightarrow>
           Option.bind (GetValue t (Some s) i) (\<lambda>v. max_key_loop s i (max max_id (key_of_value v)) st))"

definition get_next_id :: "schema \<Rightarrow> nat \<Rightarrow> store \<Rightarrow> (store \<times> int) option" where
  "get_next_id s i st = do {
     (st, ok) \<leftarrow> rnd_init st;
     if \<not> ok then Some (st, 1)
     else do {
       (st, max_id) \<leftarrow> max_key_loop s i 0 st;
       if max_id + 1 < 2 ^ 63 then Some (rnd_end st, max_id + 1) else None } }"

text \<open>The cast to the type of the column.\<close>

definition key_value :: "TypeId \<Rightarrow> int \<Rightarrow> Value" where
  "key_value t n =
     (case t of TINYINT \<Rightarrow> VTinyInt (word_of_int n) | SMALLINT \<Rightarrow> VSmallInt (word_of_int n)
      | INTEGER \<Rightarrow> VInteger (word_of_int n) | BIGINT \<Rightarrow> VBigInt (word_of_int n) | _ \<Rightarrow> VInvalid)"

definition wants_key :: "column \<Rightarrow> bool" where
  "wants_key c \<longleftrightarrow> is_primary_key c \<and> is_integer (column_type c)"

text \<open>The columns from \<open>i\<close> on that still have no value.\<close>

fun fill_keys :: "schema \<Rightarrow> nat list \<Rightarrow> Value list \<Rightarrow> store \<Rightarrow> (store \<times> Value list) option" where
  "fill_keys s [] values st = Some (st, values)"
| "fill_keys s (i # is) values st =
     (if GetTypeId (values ! i) = INVALID \<and> wants_key (s ! i) then do {
        (st, next_id) \<leftarrow> get_next_id s i st;
        fill_keys s is (values[i := key_value (column_type (s ! i)) next_id]) st }
      else fill_keys s is values st)"

text \<open>The values of a row go to the columns named; what is not named stays NULL.\<close>

fun map_values :: "int list \<Rightarrow> BoundExpression list \<Rightarrow> Value list \<Rightarrow> Value list option" where
  "map_values (i # is) (e # es) values =
     (if 0 \<le> i \<and> i < int (length values) then do {
        v \<leftarrow> Evaluate e None None;
        map_values is es (values[nat i := v]) }
      else map_values is es values)"
| "map_values _ _ values = Some values"

definition insert_row :: "schema \<Rightarrow> int list \<Rightarrow> BoundExpression list \<Rightarrow> ExecutorContext \<Rightarrow> ExecutorContext option" where
  "insert_row s indices row ctx = do {
     values \<leftarrow> map_values indices row (replicate (length s) VInvalid);
     (st, values) \<leftarrow> fill_keys s [0..<length s] values (ctx_store ctx);
     tuple \<leftarrow> CreateFromValues values (Some s);
     (st, ok) \<leftarrow> write_row tuple st;
     Some (ctx\<lparr>ctx_store := st, ctx_affected := (if ok then ctx_affected ctx + 1 else ctx_affected ctx)\<rparr>) }"

text \<open>A loop over a list whose body may not come to a result.\<close>

fun each :: "('a \<Rightarrow> 's \<Rightarrow> 's option) \<Rightarrow> 'a list \<Rightarrow> 's \<Rightarrow> 's option" where
  "each f [] s = Some s"
| "each f (x # xs) s = Option.bind (f x s) (each f xs)"

definition insert_rows :: "schema option \<Rightarrow> int list \<Rightarrow> BoundExpression list list \<Rightarrow> ExecutorContext \<Rightarrow> ExecutorContext option" where
  "insert_rows s indices rows ctx =
     (case s of None \<Rightarrow> Some ctx | Some sch \<Rightarrow> each (insert_row sch indices) rows ctx)"

section \<open>UPDATE\<close>

fun row_values :: "byte list \<Rightarrow> schema \<Rightarrow> nat list \<Rightarrow> Value list option" where
  "row_values t s [] = Some []"
| "row_values t s (i # is) = do {
     v \<leftarrow> GetValue t (Some s) i;
     vs \<leftarrow> row_values t s is;
     Some (v # vs) }"

text \<open>The SET clauses in order; all of them are evaluated on the old row.\<close>

fun apply_sets :: "byte list \<Rightarrow> schema \<Rightarrow> (int \<times> BoundExpression) list \<Rightarrow> Value list \<Rightarrow> Value list option" where
  "apply_sets t s [] values = Some values"
| "apply_sets t s ((i, e) # sets) values =
     (if 0 \<le> i \<and> i < int (length values) then do {
        v \<leftarrow> Evaluate e (Some t) (Some s);
        apply_sets t s sets (values[nat i := v]) }
      else apply_sets t s sets values)"

definition new_values :: "schema \<Rightarrow> (int \<times> BoundExpression) list \<Rightarrow> byte list \<Rightarrow> Value list option" where
  "new_values s sets t = Option.bind (row_values t s [0..<length s]) (apply_sets t s sets)"

text \<open>The row id of each row: what the child stored, or what was there before.\<close>

fun with_rids :: "RID \<Rightarrow> row list \<Rightarrow> (byte list \<times> RID) list" where
  "with_rids rid [] = []"
| "with_rids rid ((t, r) # rows) =
     (let rid = (case r of None \<Rightarrow> rid | Some r \<Rightarrow> r) in (t, rid) # with_rids rid rows)"

text \<open>The second phase: the affected rows are counted whether the update succeeds or not.\<close>

definition apply_change :: "schema \<Rightarrow> RID \<times> Value list \<Rightarrow> ExecutorContext \<Rightarrow> ExecutorContext option" where
  "apply_change s ch ctx = do {
     new_tuple \<leftarrow> CreateFromValues (snd ch) (Some s);
     (st, _) \<leftarrow> update_row (fst ch) new_tuple (ctx_store ctx);
     Some (ctx\<lparr>ctx_store := st, ctx_affected := ctx_affected ctx + 1\<rparr>) }"

definition update_rows :: "schema \<Rightarrow> (int \<times> BoundExpression) list \<Rightarrow> row list \<Rightarrow> ExecutorContext \<Rightarrow> ExecutorContext option" where
  "update_rows s sets rows ctx = do {
     changes \<leftarrow> those (map (\<lambda>(t, rid). map_option (\<lambda>vs. (rid, vs)) (new_values s sets t)) (with_rids default_rid rows));
     each (apply_change s) changes ctx }"

section \<open>DELETE\<close>

type_synonym named_values = "(str \<times> Value) list"

text \<open>The values of the primary-key columns of a row, with their names.\<close>

definition key_values :: "schema \<Rightarrow> byte list \<Rightarrow> named_values option" where
  "key_values s t =
     those (map (\<lambda>i. map_option (\<lambda>v. (column_name (s ! i), v)) (GetValue t (Some s) i))
       (filter (\<lambda>i. is_primary_key (s ! i)) [0..<length s]))"

definition remove_row :: "RID \<Rightarrow> ExecutorContext \<Rightarrow> ExecutorContext option" where
  "remove_row rid ctx =
     map_option (\<lambda>(st, _). ctx\<lparr>ctx_store := st, ctx_affected := ctx_affected ctx + 1\<rparr>) (delete_row rid (ctx_store ctx))"

text \<open>The scan of a child table: the rows whose foreign key matches a deleted key.\<close>

partial_function (option) match_loop ::
  "schema \<Rightarrow> nat \<Rightarrow> str \<Rightarrow> named_values \<Rightarrow> store \<Rightarrow> (store \<times> (RID \<times> named_values) list) option" where
  "match_loop s fk_col parent_col pks st =
     Option.bind (rnd_next st) (\<lambda>(st, r).
       case r of
         None \<Rightarrow> Some (st, [])
       | Some (t, rid) \<Rightarrow>
           Option.bind (GetValue t (Some s) fk_col) (\<lambda>v.
             if \<exists>pk \<in> set pks. fst pk = parent_col \<and> value_eq v (snd pk) then
               Option.bind (key_values s t) (\<lambda>kv.
                 Option.bind (match_loop s fk_col parent_col pks st) (\<lambda>(st, xs). Some (st, (rid, kv) # xs)))
             else match_loop s fk_col parent_col pks st))"

text \<open>The keys of the deleted child rows, each once; two are the same when they print the same.\<close>

fun distinct_keys :: "str list \<Rightarrow> named_values \<Rightarrow> named_values option" where
  "distinct_keys seen [] = Some []"
| "distinct_keys seen ((n, v) # kvs) = do {
     printed \<leftarrow> value_to_string v;
     let key = n @ ascii ''='' @ printed;
     if key \<in> set seen then distinct_keys seen kvs
     else map_option ((#) (n, v)) (distinct_keys (key # seen) kvs) }"

text \<open>One foreign key: the rows of the child table that are deleted, and the context after it. The helper's
  own handler works on the same engine.\<close>

definition cascade_table ::
  "ForeignKeyInfo \<Rightarrow> named_values \<Rightarrow> handler \<times> ExecutorContext \<Rightarrow>
   ((handler \<times> ExecutorContext) \<times> (schema \<times> (RID \<times> named_values) list)) option" where
  "cascade_table fk pks hc =
     (let (ch, ctx) = hc;
          (main, e) = ctx_store ctx;
          (st, ok) = open_table (child_table fk) (ch, e);
          back = (\<lambda>st. (fst st, ctx\<lparr>ctx_store := (main, snd st)\<rparr>))
      in if \<not> ok then Some (back st, [], [])
         else case h_schema (fst st) of
           None \<Rightarrow> Some (back (close_table st), [], [])
         | Some s \<Rightarrow>
             let fk_col = GetColIdx (child_column fk) s in
             if fk_col < 0 then Some (back (close_table st), s, [])
             else do {
               (st, _) \<leftarrow> rnd_init st;
               (st, found) \<leftarrow> match_loop s (nat fk_col) (parent_column fk) pks st;
               let st = rnd_end st;
               st \<leftarrow> each (\<lambda>(rid, _) st. map_option fst (delete_row rid st)) found st;
               let (ch, ctx) = back (close_table st);
               Some ((ch, ctx\<lparr>ctx_affected := ctx_affected ctx + int (length found)\<rparr>), s, found) })"

text \<open>\<open>CascadeDelete\<close>; the first argument is what is left of the ten levels it goes down.\<close>

definition cascade_step ::
  "(str \<Rightarrow> named_values \<Rightarrow> ExecutorContext \<Rightarrow> ExecutorContext option) \<Rightarrow> named_values \<Rightarrow> ForeignKeyInfo \<Rightarrow>
   handler \<times> ExecutorContext \<Rightarrow> (handler \<times> ExecutorContext) option" where
  "cascade_step deeper pks fk hc =
     (if on_delete fk \<noteq> CASCADE then Some hc
      else do {
        ((ch, ctx), s, found) \<leftarrow> cascade_table fk pks hc;
        if found = [] then Some (ch, ctx)
        else do {
          keys \<leftarrow> distinct_keys [] (concat (map snd found));
          ctx \<leftarrow> deeper (child_table fk) keys ctx;
          Some (ch, ctx) } })"

primrec CascadeDelete :: "nat \<Rightarrow> str \<Rightarrow> named_values \<Rightarrow> ExecutorContext \<Rightarrow> ExecutorContext option" where
  "CascadeDelete 0 = (\<lambda>t pks ctx. Some ctx)"
| "CascadeDelete (Suc n) = (\<lambda>t pks ctx.
     map_option snd (each (cascade_step (CascadeDelete n) pks) (GetChildRelations t (ctx_catalog ctx)) (goods_handler, ctx)))"

definition delete_rows :: "str \<Rightarrow> schema \<Rightarrow> row list \<Rightarrow> ExecutorContext \<Rightarrow> ExecutorContext option" where
  "delete_rows t s rows ctx = do {
     infos \<leftarrow> those (map (\<lambda>(d, rid). map_option (\<lambda>kv. (rid, kv)) (key_values s d)) (with_rids default_rid rows));
     ctx \<leftarrow> each (\<lambda>info. remove_row (fst info)) infos ctx;
     each (\<lambda>info. CascadeDelete 10 t (snd info)) infos ctx }"

section \<open>CREATE INDEX\<close>

text \<open>The rows go into a new index object; its root is registered in the catalog and the object is dropped.
  \<open>GetAsBigInt\<close> asserts a BIGINT.\<close>

partial_function (option) index_loop ::
  "(i64 \<Rightarrow> RID \<Rightarrow> 'x \<times> bpm \<Rightarrow> ('x \<times> bpm) option) \<Rightarrow> schema \<Rightarrow> nat \<Rightarrow> 'x \<Rightarrow> store \<Rightarrow> (store \<times> 'x) option" where
  "index_loop ins s col x st =
     Option.bind (rnd_next st) (\<lambda>(st, r).
       case r of
         None \<Rightarrow> Some (st, x)
       | Some (t, rid) \<Rightarrow>
           Option.bind (GetValue t (Some s) col) (\<lambda>v.
             Option.bind (GetAsBigInt v) (\<lambda>key.
               Option.bind (ins key rid (x, eng_pool (snd st))) (\<lambda>(x, pool).
                 index_loop ins s col x (fst st, (snd st)\<lparr>eng_pool := pool\<rparr>)))))"

definition build_index :: "str \<Rightarrow> schema \<Rightarrow> nat \<Rightarrow> store \<Rightarrow> (store \<times> i32) option" where
  "build_index typ s col st = do {
     (st, _) \<leftarrow> rnd_init st;
     if typ = ascii ''hash'' then do {
       (st, x) \<leftarrow> index_loop (\<lambda>key rid (x, b). map_option (\<lambda>(x, b, _). (x, b)) (hash_Insert key rid x b)) s col
         (ExtendibleHashIndex INVALID_PAGE_ID) st;
       Some (rnd_end st, directory_page_id x) }
     else do {
       (st, x) \<leftarrow> index_loop (\<lambda>key rid xb. map_option (\<lambda>(x, b, _). (x, b)) (tree_Insert key rid xb)) s col
         (BPlusTree INVALID_PAGE_ID) st;
       Some (rnd_end st, root_page_id x) } }"

definition create_index :: "str \<Rightarrow> str \<Rightarrow> schema \<Rightarrow> int \<Rightarrow> str \<Rightarrow> ExecutorContext \<Rightarrow> ExecutorContext option" where
  "create_index i t s col typ ctx =
     (if col < 0 \<or> int (length s) \<le> col then None
      else do {
        (st, root) \<leftarrow> build_index typ s (nat col) (ctx_store ctx);
        let (h, e) = st;
        Some (ctx\<lparr>ctx_store := (h, e\<lparr>eng_catalog := fst (CreateIndex i t (column_name (s ! nat col))
          (if typ = ascii ''hash'' then HASH else BTREE) root (eng_catalog e))\<rparr>)\<rparr>) })"

section \<open>Next\<close>

type_synonym machine = "exec_state \<times> ExecutorContext"

text \<open>An executor that does all its work in the first call and returns no row.\<close>

definition once :: "(ExecutorContext \<Rightarrow> ExecutorContext option) \<Rightarrow> machine pull" where
  "once work m =
     (if fst m = Flag True then Some (m, None)
      else map_option (\<lambda>ctx. ((Flag True, ctx), None)) (work (snd m)))"

text \<open>The same with a child, whose rows are collected first; the schema is the child's, or else the table's.\<close>

definition once_below ::
  "machine pull \<Rightarrow> executor \<Rightarrow> schema option \<Rightarrow> (schema \<Rightarrow> row list \<Rightarrow> ExecutorContext \<Rightarrow> ExecutorContext option) \<Rightarrow> machine pull" where
  "once_below nx child ts work m =
     (case fst m of
        Flag_Below executed cs \<Rightarrow>
          if executed \<or> child = Null_Executor then Some (m, None)
          else do {
            s \<leftarrow> GetOutputSchema child;
            case (case s of None \<Rightarrow> ts | Some _ \<Rightarrow> s) of
              None \<Rightarrow> Some ((Flag_Below True cs, snd m), None)
            | Some s \<Rightarrow> do {
                ((cs, ctx), rows) \<leftarrow> drain nx (cs, snd m);
                ctx \<leftarrow> work s rows ctx;
                Some ((Flag_Below True cs, ctx), None) } }
      | _ \<Rightarrow> None)"

text \<open>The state of an operator with its own part and that of its child.\<close>

abbreviation regroup :: "('l \<Rightarrow> exec_state \<Rightarrow> exec_state) \<Rightarrow> (('l \<times> machine) \<times> row option) option \<Rightarrow> (machine \<times> row option) option" where
  "regroup node r \<equiv> map_option (\<lambda>((l, (cs, ctx)), row). ((node l cs, ctx), row)) r"

text \<open>The children of a join, on a state that holds both of theirs.\<close>

type_synonym both = "(exec_state \<times> exec_state) \<times> ExecutorContext"

definition on_left :: "machine pull \<Rightarrow> both pull" where
  "on_left nx b = map_option (\<lambda>((sl, ctx), r). (((sl, snd (fst b)), ctx), r)) (nx (fst (fst b), snd b))"

definition on_right :: "machine pull \<Rightarrow> both pull" where
  "on_right nx b = map_option (\<lambda>((sr, ctx), r). (((fst (fst b), sr), ctx), r)) (nx (snd (fst b), snd b))"

definition init_right :: "executor \<Rightarrow> both \<Rightarrow> both option" where
  "init_right r b = map_option (\<lambda>(sr, ctx). ((fst (fst b), sr), ctx)) (Init r (snd b))"

primrec Next :: "executor \<Rightarrow> machine pull" where
  "Next Null_Executor = (\<lambda>m. None)"
| "Next (SeqScanExecutor t s) = (\<lambda>(st, ctx).
     if st = Flag True then map_option (\<lambda>(ctx, r). ((st, ctx), r)) (scan_next ctx) else Some ((st, ctx), None))"
| "Next (FilterExecutor p c) = (\<lambda>(st, ctx).
     if c = Null_Executor \<or> p = Null_Expression then Some ((st, ctx), None)
     else case st of
       Below cs \<Rightarrow> do {
         s \<leftarrow> GetOutputSchema c;
         map_option (\<lambda>((cs, ctx), r). ((Below cs, ctx), r)) (filter_next (Next c) p s (cs, ctx)) }
     | _ \<Rightarrow> None)"
| "Next (ProjectionExecutor es out c) = (\<lambda>(st, ctx).
     case st of
       Flag_Below produced cs \<Rightarrow>
         if c = Null_Executor
         then map_option (\<lambda>(produced, r). ((Flag_Below produced cs, ctx), r)) (constants_next es out produced)
         else do {
           s \<leftarrow> GetOutputSchema c;
           map_option (\<lambda>((cs, ctx), r). ((Flag_Below produced cs, ctx), r)) (projection_next (Next c) es s out (cs, ctx)) }
     | _ \<Rightarrow> None)"
| "Next (LimitExecutor limit offset c) = (\<lambda>(st, ctx).
     if c = Null_Executor then Some ((st, ctx), None)
     else case st of
       Limit_State l cs \<Rightarrow> regroup Limit_State (limit_next (Next c) limit offset (l, (cs, ctx)))
     | _ \<Rightarrow> None)"
| "Next (SortExecutor obs c) = (\<lambda>(st, ctx).
     if c = Null_Executor then Some ((st, ctx), None)
     else case st of
       Sort_State l cs \<Rightarrow> do {
         s \<leftarrow> GetOutputSchema c;
         regroup Sort_State (sort_next (Next c) obs s (l, (cs, ctx))) }
     | _ \<Rightarrow> None)"
| "Next (TopNExecutor obs limit c) = (\<lambda>(st, ctx).
     if c = Null_Executor then Some ((st, ctx), None)
     else case st of
       Sort_State l cs \<Rightarrow> do {
         s \<leftarrow> GetOutputSchema c;
         regroup Sort_State (topn_next (Next c) obs limit s (l, (cs, ctx))) }
     | _ \<Rightarrow> None)"
| "Next (AggregationExecutor gs aggs c) = (\<lambda>(st, ctx).
     if c = Null_Executor then Some ((st, ctx), None)
     else case st of
       Aggregation_State a cs \<Rightarrow> do {
         s \<leftarrow> GetOutputSchema c;
         out \<leftarrow> aggregation_schema gs aggs;
         regroup Aggregation_State (aggregation_next (Next c) gs aggs s out (a, (cs, ctx))) }
     | _ \<Rightarrow> None)"
| "Next (IndexScanExecutor s) = (\<lambda>m. Some (m, None))"
| "Next (HashJoinExecutor cond l r) = (\<lambda>(st, ctx).
     if l = Null_Executor \<or> r = Null_Executor then Some ((st, ctx), None)
     else case st of
       Hash_Join_State h sl sr \<Rightarrow> do {
         ls \<leftarrow> GetOutputSchema l;
         map_option (\<lambda>((h, ((sl, sr), ctx)), row). ((Hash_Join_State h sl sr, ctx), row))
           (hash_join_next (on_left (Next l)) (on_right (Next r)) cond ls (h, ((sl, sr), ctx))) }
     | _ \<Rightarrow> None)"
| "Next (NestedLoopJoinExecutor cond l r) = (\<lambda>(st, ctx).
     if l = Null_Executor \<or> r = Null_Executor then Some ((st, ctx), None)
     else case st of
       Nlj_State j sl sr \<Rightarrow> do {
         ls \<leftarrow> GetOutputSchema l;
         rs \<leftarrow> GetOutputSchema r;
         map_option (\<lambda>((j, ((sl, sr), ctx)), row). ((Nlj_State j sl sr, ctx), row))
           (nlj_next (on_left (Next l)) (on_right (Next r)) (init_right r) cond ls rs (j, ((sl, sr), ctx))) }
     | _ \<Rightarrow> None)"
| "Next (InsertExecutor t s indices rows) = once (insert_rows s indices rows)"
| "Next (UpdateExecutor t s sets c) = once_below (Next c) c s (\<lambda>s. update_rows s sets)"
| "Next (DeleteExecutor t s c) = once_below (Next c) c s (delete_rows t)"
| "Next (CreateTableExecutor t s) = once (\<lambda>ctx. map_option fst (on_store (create t s) ctx))"
| "Next (DropTableExecutor t) = once (\<lambda>ctx. Some (ctx\<lparr>ctx_store := delete_table t (ctx_store ctx)\<rparr>))"
| "Next (CreateIndexExecutor i t s col typ) =
     (case s of None \<Rightarrow> (\<lambda>m. Some (m, None)) | Some s \<Rightarrow> once (create_index i t s col typ))"

section \<open>Running a plan\<close>

record outcome =
  out_engine :: engine
  out_schema :: "schema option"
  out_rows :: "byte list list"
  out_affected :: int

text \<open>\<open>ExecutePlan\<close>: the rows are collected when the caller wants results, otherwise \<open>Next\<close> is called once. The
  handler is closed by its destructor.\<close>

definition run_executor :: "executor \<Rightarrow> bool \<Rightarrow> machine \<Rightarrow> (ExecutorContext \<times> byte list list) option" where
  "run_executor x results m =
     (if results then map_option (\<lambda>(m, rows). (snd m, map fst rows)) (drain (Next x) m)
      else map_option (\<lambda>(m, _). (snd m, [])) (Next x m))"

definition ExecutePlan :: "PlanNode \<Rightarrow> bool \<Rightarrow> engine \<Rightarrow> outcome option" where
  "ExecutePlan plan results e = do {
     x \<leftarrow> Create plan;
     (st, ctx) \<leftarrow> Init x \<lparr>ctx_store = (goods_handler, e), ctx_affected = 0\<rparr>;
     s \<leftarrow> GetOutputSchema x;
     (ctx, rows) \<leftarrow> run_executor x results (st, ctx);
     Some \<lparr>out_engine = snd (close_table (ctx_store ctx)), out_schema = s, out_rows = rows, out_affected = ctx_affected ctx\<rparr> }"

end
