(* ===== verification/Executor_Props.thy ===== *)
theory Executor_Props
  imports Executors
begin

text \<open>
  What the operators do to the rows of their child: a relation between a \<open>Next\<close> function, a state, and the
  rows it yields until it ends, and for every operator the rows it yields from those of its child.
\<close>

section \<open>The rows a state yields\<close>

inductive yields :: "'s pull \<Rightarrow> 's \<Rightarrow> row list \<Rightarrow> 's \<Rightarrow> bool" for nx where
  stop: "nx s = Some (s', None) \<Longrightarrow> yields nx s [] s'"
| row: "nx s = Some (s1, Some r) \<Longrightarrow> yields nx s1 rs s' \<Longrightarrow> yields nx s (r # rs) s'"

inductive_cases yields_NilE [elim]: "yields nx s [] s'"
inductive_cases yields_ConsE [elim]: "yields nx s (r # rs) s'"

lemma drain_yields: "yields nx s rs s' \<Longrightarrow> drain nx s = Some (s', rs)"
  by (induction rule: yields.induct) (subst drain.simps, simp)+

text \<open>Whatever \<open>Next\<close> answers at once is the first row, or the end.\<close>

lemma yields_unique: "yields nx s rs s1 \<Longrightarrow> yields nx s rs' s2 \<Longrightarrow> rs = rs' \<and> s1 = s2"
  by (auto dest!: drain_yields)

lemma yields_same_next: "nx s = nx s1 \<Longrightarrow> yields nx s1 rs s' \<Longrightarrow> yields nx s rs s'"
  by (erule yields.cases) (auto intro: yields.intros)

section \<open>Filter\<close>

lemma filter_next_skip:
  assumes "nx st = Some (st', Some row)" "Evaluate p (Some (fst row)) s = Some v" "\<not> is_true v"
  shows "filter_next nx p s st = filter_next nx p s st'"
  using assms by (subst filter_next.simps) simp

lemma filter_next_hit:
  assumes "nx st = Some (st', Some row)" "Evaluate p (Some (fst row)) s = Some v" "is_true v"
  shows "filter_next nx p s st = Some (st', Some row)"
  using assms by (subst filter_next.simps) simp

lemma filter_next_end: "nx st = Some (st', None) \<Longrightarrow> filter_next nx p s st = Some (st', None)"
  by (subst filter_next.simps) simp

definition satisfies :: "BoundExpression \<Rightarrow> schema option \<Rightarrow> row \<Rightarrow> bool" where
  "satisfies p s row \<longleftrightarrow> Evaluate p (Some (fst row)) s = Some (VBoolean True)"

lemma yields_filter:
  assumes "yields nx st rows st'" "\<forall>row \<in> set rows. Evaluate p (Some (fst row)) s \<noteq> None"
  shows "yields (filter_next nx p s) st (filter (satisfies p s) rows) st'"
  using assms
proof (induction rule: yields.induct)
  case (stop st st')
  then show ?case by (auto intro: yields.stop filter_next_end)
next
  case (row st st1 r rs st')
  then obtain v where v: "Evaluate p (Some (fst r)) s = Some v" by auto
  show ?case
  proof (cases "is_true v")
    case True
    then have "satisfies p s r" using v by (simp add: satisfies_def is_true_def)
    then show ?thesis using row filter_next_hit [of nx st st1 r p s v] v True by (auto intro: yields.row)
  next
    case False
    then have n: "\<not> satisfies p s r" using v by (simp add: satisfies_def is_true_def)
    have e: "filter_next nx p s st = filter_next nx p s st1" by (rule filter_next_skip [where nx = nx, OF row.hyps(1) v False])
    have "yields (filter_next nx p s) st1 (filter (satisfies p s) rs) st'" using row by simp
    with e have "yields (filter_next nx p s) st (filter (satisfies p s) rs) st'" by (rule yields_same_next)
    then show ?thesis using n by simp
  qed
qed

section \<open>Projection\<close>

definition projected :: "(BoundExpression \<times> str) list \<Rightarrow> schema option \<Rightarrow> schema \<Rightarrow> row \<Rightarrow> row" where
  "projected es s out row = (the (project_row es s out (fst row)), None)"

lemma yields_projection:
  assumes "yields nx st rows st'" "\<forall>row \<in> set rows. project_row es s out (fst row) \<noteq> None"
  shows "yields (projection_next nx es s out) st (map (projected es s out) rows) st'"
  using assms
proof (induction rule: yields.induct)
  case (stop st st')
  then show ?case by (auto intro: yields.stop simp: projection_next_def)
next
  case (row st st1 r rs st')
  then have "projection_next nx es s out st = Some (st1, Some (projected es s out r))"
    by (auto simp: projection_next_def projected_def)
  with row show ?case by (auto intro: yields.row)
qed

section \<open>Limit\<close>

text \<open>The rows that LIMIT and OFFSET leave.\<close>

definition limited :: "i64 \<Rightarrow> i64 \<Rightarrow> 'a list \<Rightarrow> 'a list" where
  "limited limit offset rows =
     (let rest = drop (nat (sint offset)) rows in if 0 \<le> sint limit then take (nat (sint limit)) rest else rest)"

lemma sint_increment:
  fixes w x :: i64
  assumes "sint w < sint x"
  shows "sint (w + 1) = sint w + 1"
proof -
  have "sint x < 2 ^ 63" "- (2 ^ 63) \<le> sint w" using sint_less [of x] sint_greater_eq [of w] by simp_all
  then show ?thesis using assms by (simp add: sint_word_ariths signed_take_bit_int_eq_self_iff)
qed

text \<open>States reached by calls of \<open>Next\<close>.\<close>

inductive reaches :: "'s pull \<Rightarrow> 's \<Rightarrow> 's \<Rightarrow> bool" for nx s where
  start [intro!]: "reaches nx s s"
| more: "reaches nx s t \<Longrightarrow> nx t = Some (t', r) \<Longrightarrow> reaches nx s t'"

lemma reaches_trans:
  assumes "reaches nx t u" "reaches nx s t"
  shows "reaches nx s u"
  using assms by (induction rule: reaches.induct) (auto intro: reaches.more)

lemma reaches_first: "nx s = Some (s1, r) \<Longrightarrow> reaches nx s1 t \<Longrightarrow> reaches nx s t"
  by (erule reaches_trans, rule reaches.more [OF reaches.start])

lemma reaches_one: "nx s = Some (s1, r) \<Longrightarrow> reaches nx s s1"
  by (rule reaches.more [OF reaches.start])

lemma yields_reaches: "yields nx s rows s' \<Longrightarrow> reaches nx s s'"
  by (induction rule: yields.induct) (blast intro: reaches_first reaches.start)+

lemma skip_rows_law:
  assumes "yields nx s rows s'"
  shows "if sint offset - sint (skipped l) \<le> int (length rows)
    then \<exists>s1 l1. skip_rows nx offset (l, s) = Some ((l1, s1), True) \<and> returned l1 = returned l \<and>
      sint offset \<le> sint (skipped l1) \<and> yields nx s1 (drop (nat (sint offset - sint (skipped l))) rows) s' \<and> reaches nx s s1
    else \<exists>l1. skip_rows nx offset (l, s) = Some ((l1, s'), False)"
  using assms
proof (induction arbitrary: l rule: yields.induct)
  case (stop s s')
  then have y: "yields nx s [] s'" by (rule yields.stop)
  show ?case
  proof (cases "sint (skipped l) < sint offset")
    case True
    then have "skip_rows nx offset (l, s) = Some ((l, s'), False)" using stop by (subst skip_rows.simps) simp
    then show ?thesis using True by simp
  next
    case False
    then have "skip_rows nx offset (l, s) = Some ((l, s), True)" by (subst skip_rows.simps) simp
    then show ?thesis using False y reaches.start [of nx s] by auto
  qed
next
  case (row s s1 r rs s')
  show ?case
  proof (cases "sint (skipped l) < sint offset")
    case False
    then have "skip_rows nx offset (l, s) = Some ((l, s), True)" by (subst skip_rows.simps) simp
    then show ?thesis using False yields.row [where nx = nx, OF row.hyps] reaches.start [of nx s] by auto
  next
    case True
    let ?l = "l\<lparr>skipped := skipped l + 1\<rparr>"
    have e: "skip_rows nx offset (l, s) = skip_rows nx offset (?l, s1)"
      using row.hyps(1) True by (subst skip_rows.simps) simp
    have n: "sint (skipped l + 1) = sint (skipped l) + 1" by (rule sint_increment [OF True])
    have d: "nat (sint offset - sint (skipped l)) = Suc (nat (sint offset - (sint (skipped l) + 1)))"
      using True by simp
    show ?thesis using row.IH [of ?l] reaches_first [where nx = nx, OF row.hyps(1)]
      by (auto simp: e n d split: if_splits)
  qed
qed

lemma yields_returning:
  assumes "yields nx s rows s'" "sint offset \<le> sint (skipped l)"
  shows "\<exists>t. yields (limit_next nx limit offset) (l, s)
      (if 0 \<le> sint limit then take (nat (sint limit - sint (returned l))) rows else rows) t \<and> reaches nx s (snd t)"
  using assms
proof (induction arbitrary: l rule: yields.induct)
  case (stop s s')
  have "skip_rows nx offset (l, s) = Some ((l, s), True)" using stop.prems by (subst skip_rows.simps) simp
  then show ?case using stop reaches.more [where nx = nx, OF reaches.start stop.hyps(1)]
    by (cases "0 \<le> sint limit \<and> sint limit \<le> sint (returned l)") (force simp: limit_next_def intro: yields.stop)+
next
  case (row s s1 r rs s')
  have skip: "skip_rows nx offset (l, s) = Some ((l, s), True)" using row.prems by (subst skip_rows.simps) simp
  show ?case
  proof (cases "0 \<le> sint limit \<and> sint limit \<le> sint (returned l)")
    case True
    then show ?thesis using skip by (force simp: limit_next_def intro: yields.stop)
  next
    case False
    let ?l = "l\<lparr>returned := returned l + 1\<rparr>"
    have step: "limit_next nx limit offset (l, s) = Some ((?l, s1), Some r)"
      using skip row.hyps(1) False by (auto simp: limit_next_def)
    note step = yields.row [where nx = "limit_next nx limit offset", OF step]
      and reach = reaches_first [where nx = nx, OF row.hyps(1)]
    show ?thesis
    proof (cases "0 \<le> sint limit")
      case True
      then have lt: "sint (returned l) < sint limit" using False by simp
      have n: "sint (returned l + 1) = sint (returned l) + 1" by (rule sint_increment [OF lt])
      have d: "nat (sint limit - sint (returned l)) = Suc (nat (sint limit - (sint (returned l) + 1)))" using lt by simp
      from row.IH [of ?l] row.prems n True obtain t where
        "yields (limit_next nx limit offset) (?l, s1) (take (nat (sint limit - (sint (returned l) + 1))) rs) t" "reaches nx s1 (snd t)"
        by (auto simp del: split_paired_Ex)
      from step [OF this(1)] reach [OF this(2)] True d show ?thesis by (auto simp del: split_paired_Ex)
    next
      case False
      from row.IH [of ?l] row.prems obtain t where "yields (limit_next nx limit offset) (?l, s1) rs t" "reaches nx s1 (snd t)"
        using False by (auto simp del: split_paired_Ex)
      from step [OF this(1)] reach [OF this(2)] False show ?thesis by (auto simp del: split_paired_Ex)
    qed
  qed
qed

text \<open>From the start: the rows after the offset, cut at the limit.\<close>

lemma yields_limit:
  assumes "yields nx s rows s'"
  shows "\<exists>t. yields (limit_next nx limit offset) (limit_start, s) (limited limit offset rows) t \<and> reaches nx s (snd t)"
proof (cases "sint offset \<le> int (length rows)")
  case True
  then obtain s1 l1 where skip: "skip_rows nx offset (limit_start, s) = Some ((l1, s1), True)" "returned l1 = 0"
    "sint offset \<le> sint (skipped l1)" "yields nx s1 (drop (nat (sint offset)) rows) s'" "reaches nx s s1"
    using skip_rows_law [OF assms, of offset limit_start] by (auto simp: limit_start_def)
  from yields_returning [OF skip(4,3), of limit] skip(2) obtain t where
    t: "yields (limit_next nx limit offset) (l1, s1) (limited limit offset rows) t" "reaches nx s1 (snd t)"
    by (auto simp: limited_def simp del: split_paired_Ex split: if_splits)
  have "skip_rows nx offset (l1, s1) = Some ((l1, s1), True)" using skip(3) by (subst skip_rows.simps) simp
  then have "limit_next nx limit offset (limit_start, s) = limit_next nx limit offset (l1, s1)"
    using skip(1) by (simp add: limit_next_def)
  then have "yields (limit_next nx limit offset) (limit_start, s) (limited limit offset rows) t"
    by (rule yields_same_next [OF _ t(1)])
  then show ?thesis using t(2) reaches_trans [OF t(2) skip(5)] by blast
next
  case False
  then obtain l1 where "skip_rows nx offset (limit_start, s) = Some ((l1, s'), False)"
    using skip_rows_law [OF assms, of offset limit_start] by (auto simp: limit_start_def)
  then have "limit_next nx limit offset (limit_start, s) = Some ((l1, s'), None)" by (simp add: limit_next_def)
  moreover have "limited limit offset rows = []" using False by (simp add: limited_def)
  ultimately show ?thesis using yields_reaches [OF assms] by (auto intro: yields.stop)
qed

section \<open>What the calls keep\<close>

text \<open>What every call of \<open>Next\<close> keeps, the whole query keeps.\<close>

definition keeps :: "('s \<Rightarrow> bool) \<Rightarrow> 's pull \<Rightarrow> bool" where
  "keeps P nx \<longleftrightarrow> (\<forall>s s' r. P s \<longrightarrow> nx s = Some (s', r) \<longrightarrow> P s')"

lemma keepsD: "keeps P nx \<Longrightarrow> nx s = Some (s', r) \<Longrightarrow> P s \<Longrightarrow> P s'"
  by (simp add: keeps_def)

lemma keeps_reaches: "keeps P nx \<Longrightarrow> reaches nx s s' \<Longrightarrow> P s \<Longrightarrow> P s'"
  by (rotate_tac 1, induction rule: reaches.induct) (auto dest: keepsD)

end
