(* ===== verification/Pool_Ready.thy ===== *)
theory Pool_Ready
  imports Pool_Client
begin

text \<open>
  When the pool cannot refuse a page: it runs under LRU-K, the devices take every write, and one frame is not
  pinned. Fetches and clean releases keep the pool ready, so a scan that holds at most one pin is never cut short.
\<close>

section \<open>States that are reached by reading\<close>

inductive reads :: "bpm \<Rightarrow> bpm \<Rightarrow> bool" where
  reads_refl: "reads b b"
| reads_fetch: "reads b b1 \<Longrightarrow> FetchPage p b1 = (b2, r) \<Longrightarrow> reads b b2"
| reads_release: "reads b b1 \<Longrightarrow> 0 < pins b1 p \<Longrightarrow> UnpinPage p False b1 = (b2, ok) \<Longrightarrow> reads b b2"

lemma reads_trans: "reads b1 b2 \<Longrightarrow> reads b b1 \<Longrightarrow> reads b b2"
  by (induction rule: reads.induct) (auto intro: reads.intros)

section \<open>A pool that is ready\<close>

definition ready :: "bpm \<Rightarrow> bool" where
  "ready b \<longleftrightarrow> (\<exists>s. replacer b = LRUK s) \<and> (\<forall>ino n. \<not> broken (disk_manager b) ino n) \<and>
     (\<forall>q f. find_page q b = Some f \<longrightarrow> GetFileEntry (GetFileId q) (disk_manager b) \<noteq> None \<and>
        (fr_pin_count (pages b ! f) = 0 \<longrightarrow> f \<in> evictable_frames (replacer b)))"

lemma ready_writable: "ready b \<Longrightarrow> find_page q b = Some f \<Longrightarrow> writable q (disk_manager b)"
  by (auto simp: ready_def writable_def)

lemma WritePage_broken: "WritePage p x d = (d', ok) \<Longrightarrow> broken d' = broken d"
  by (auto simp: WritePage_def stream_write_def split: option.splits if_splits)

lemma policy_kind:
  "replacer b = LRUK s \<Longrightarrow> \<exists>s'. Pin f (replacer b) = LRUK s'" "replacer b = LRUK s \<Longrightarrow> \<exists>s'. Unpin f (replacer b) = LRUK s'"
  "replacer b = LRUK s \<Longrightarrow> \<exists>s'. fst (Victim (replacer b)) = LRUK s'"
  by (auto split: prod.splits)

lemma ready_access [simp]: "ready (b\<lparr>access_count := n\<rparr>) = ready b"
  by (simp add: ready_def)

lemma ready_free_list [simp]: "ready (b\<lparr>free_list := fs\<rparr>) = ready b"
  by (simp add: ready_def)

lemma ready_free_frame:
  assumes "pool_inv {} U b" "ready b" "GetFreeFrame b = (b', fo)"
  shows "ready b'" "pool_size b' = pool_size b"
proof -
  note I = pool_invD [OF assms(1)]
  show "pool_size b' = pool_size b" using GetFreeFrame_law [OF assms(1,3)] by simp
  show "ready b'"
  proof (cases "free_list b")
    case Cons
    then show ?thesis using assms(2,3) by (auto simp: GetFreeFrame_def)
  next
    case Nil
    then have e: "EvictPage b = (b', fo)" using assms(3) by (simp add: GetFreeFrame_def)
    obtain s where s: "replacer b = LRUK s" using assms(2) by (auto simp: ready_def)
    show ?thesis
    proof (cases fo)
      case None
      from EvictPage_None [of b b'] e None obtain r where r: "b' = b\<lparr>replacer := r\<rparr>"
        "Victim (replacer b) = (r, None) \<or> (\<exists>f d. Victim (replacer b) = (r, Some f) \<and> fr_dirty (pages b ! f) \<and>
           WritePage (fr_page_id (pages b ! f)) (fr_data (pages b ! f)) (disk_manager b) = (d, False))" by auto
      have "Victim (replacer b) = (r, None)"
      proof (rule ccontr)
        assume "Victim (replacer b) \<noteq> (r, None)"
        then obtain f d where v: "Victim (replacer b) = (r, Some f)"
          "WritePage (fr_page_id (pages b ! f)) (fr_data (pages b ! f)) (disk_manager b) = (d, False)" using r(2) by auto
        have "f \<in> evictable_frames (replacer b)" using replacer_victim(2) [OF I(2) v(1)] by simp
        then have "writable (fr_page_id (pages b ! f)) (disk_manager b)"
          using evictable_mapped [OF I(1,2)] ready_writable [OF assms(2)] by blast
        from writable_WritePage [OF this] v(2) show False by (metis prod.inject)
      qed
      moreover from this have "evictable_frames r = evictable_frames (replacer b)" "\<exists>s'. r = LRUK s'"
        using replacer_victim(3) [OF I(2)] policy_kind(3) [OF s] by auto
      ultimately show ?thesis using assms(2) by (auto simp: r(1) ready_def)
    next
      case (Some f)
      with EvictPage_Some [of b b' f] e obtain r d where v: "Victim (replacer b) = (r, Some f)"
        and b': "b' = clear_frame f (b\<lparr>replacer := r, disk_manager := d\<rparr>)" and
        d: "if fr_dirty (pages b ! f) then WritePage (fr_page_id (pages b ! f)) (fr_data (pages b ! f)) (disk_manager b) = (d, True)
            else d = disk_manager b" by blast
      have d': "broken d = broken (disk_manager b)" "GetFileEntry g d = GetFileEntry g (disk_manager b)" for g
        using d WritePage_broken [of _ _ "disk_manager b" d] WritePage_entry [of _ _ "disk_manager b" d True]
        by (cases "fr_dirty (pages b ! f)", auto)+
      have f: "f \<in> evictable_frames (replacer b)" using replacer_victim(2) [OF I(2) v] by simp
      then have m: "find_page (fr_page_id (pages b ! f)) b = Some f" using evictable_mapped [OF I(1,2)] by blast
      have fl: "f < length (pages b)" using frames_okD(1,2) [OF I(1)] m by metis
      have ev: "evictable_frames r = evictable_frames (replacer b) - {f}" using replacer_victim(3) [OF I(2) v] by simp
      have "\<exists>s'. r = LRUK s'" using policy_kind(3) [OF s] v by simp
      moreover have "g \<noteq> f" if "find_page q b = Some g" "q \<noteq> fr_page_id (pages b ! f)" for q g
        using find_page_inj [OF I(1) m] that by auto
      ultimately show ?thesis
        using assms(2) fl unfolding b' ready_def by (auto simp: clear_frame_nth d' ev split: if_splits)
    qed
  qed
qed

lemma ready_fetch:
  assumes "pool_inv {} U b" "ready b" "FetchPage p b = (b', r)"
  shows "ready b'" "pool_size b' = pool_size b"
proof -
  note I = pool_invD [OF assms(1)]
  have "ready b' \<and> pool_size b' = pool_size b"
  proof (cases "p = INVALID_PAGE_ID")
    case True
    then show ?thesis using assms(2,3) by (simp add: FetchPage_def)
  next
    case False
    show ?thesis
    proof (cases "find_page p b")
      case (Some f)
      let ?fr = "(pages b ! f)\<lparr>fr_pin_count := fr_pin_count (pages b ! f) + 1\<rparr>"
      have b': "b' = (set_frame f ?fr (b\<lparr>access_count := access_count b + 1\<rparr>))
          \<lparr>replacer := Pin f (replacer b), hit_count := hit_count b + 1\<rparr>"
        using assms(3) Some False by (simp add: FetchPage_def Let_def)
      have f: "f < length (pages b)" "0 \<le> fr_pin_count (pages b ! f)"
        using frames_okD(1,2,6) [OF I(1)] Some by metis+
      have "evictable_frames (Pin f (replacer b)) = evictable_frames (replacer b) - {f}"
        using I(2) policy.pin_law by (simp add: replacer_ok_def)
      moreover have "\<exists>s. Pin f (replacer b) = LRUK s" using assms(2) policy_kind(1) by (auto simp: ready_def)
      moreover have "g \<noteq> f" if "find_page q b = Some g" "q \<noteq> p" for q g using find_page_inj [OF I(1) Some] that by auto
      ultimately show ?thesis
        using assms(2) f unfolding b' ready_def by (auto simp: nth_list_update set_frame_def)
    next
      case None
      obtain b1 fo where g: "GetFreeFrame (b\<lparr>access_count := access_count b + 1\<rparr>) = (b1, fo)" by fastforce
      have a: "pool_inv {} U (b\<lparr>access_count := access_count b + 1\<rparr>)" by (rule pool_inv_access [OF assms(1)])
      have r1: "ready b1" "pool_size b1 = pool_size b" using ready_free_frame [OF a _ g] assms(2) by simp_all
      note L = GetFreeFrame_law [OF a g]
      note run = assms(3) [unfolded FetchPage_miss [OF None False] g prod.case]
      show ?thesis
      proof (cases fo)
        case None
        then show ?thesis using run r1 by simp
      next
        case (Some f)
        show ?thesis
        proof (cases "ReadPage p (disk_manager b1)")
          case None
          then show ?thesis using run r1 Some by auto
        next
          case (Some c)
          have b': "b' = install f p c b1" using run \<open>fo = Some f\<close> Some by simp
          note J = pool_invD [OF L(1), unfolded \<open>fo = Some f\<close>, simplified]
          have f: "f < length (pages b1)" "fr_page_id (pages b1 ! f) = INVALID_PAGE_ID" "fr_pin_count (pages b1 ! f) = 0"
            using frames_okD(1) [OF J(1)] frames_okD(4) [OF J(1), of f] by auto
          have "evictable_frames (Pin f (replacer b1)) = evictable_frames (replacer b1) - {f}"
            using J(2) policy.pin_law by (simp add: replacer_ok_def)
          moreover have "\<exists>s. Pin f (replacer b1) = LRUK s" using r1(1) policy_kind(1) by (auto simp: ready_def)
          moreover have "g \<noteq> f" if "find_page q b1 = Some g" for q g using frames_okD(2) [OF J(1) that] f(2) by auto
          moreover have "GetFileEntry (GetFileId p) (disk_manager b1) \<noteq> None"
            using Some by (auto simp: ReadPage_def split: option.splits)
          moreover have "pages (install f p c b1) ! g = (if g = f then (pages b1 ! f)\<lparr>fr_data := c, fr_page_id := p,
              fr_pin_count := 1, fr_dirty := False\<rparr> else pages b1 ! g)" for g
            using f by (simp add: install_def)
          ultimately show ?thesis using r1 unfolding b' ready_def by auto
        qed
      qed
    qed
  qed
  then show "ready b'" "pool_size b' = pool_size b" by simp_all
qed

lemma ready_release:
  assumes "pool_inv {} U b" "ready b" "UnpinPage p False b = (b', ok)"
  shows "ready b'" "pool_size b' = pool_size b"
proof -
  note I = pool_invD [OF assms(1)]
  have "ready b' \<and> pool_size b' = pool_size b"
  proof (cases "p = INVALID_PAGE_ID \<or> find_page p b = None \<or> fr_pin_count (pages b ! the (find_page p b)) \<le> 0")
    case True
    then have "b' = b" using assms(3) by (auto simp: UnpinPage_def Let_def split: option.splits if_splits)
    then show ?thesis using assms(2) by simp
  next
    case False
    then obtain f where Some: "find_page p b = Some f" and pos: "0 < fr_pin_count (pages b ! f)" by auto
    let ?fr = "(pages b ! f)\<lparr>fr_pin_count := fr_pin_count (pages b ! f) - 1\<rparr>"
    have b': "b' = (if fr_pin_count (pages b ! f) = 1 then (set_frame f ?fr b)\<lparr>replacer := Unpin f (replacer b)\<rparr>
        else set_frame f ?fr b)"
      using assms(3) False Some pos by (auto simp: UnpinPage_def Let_def split: if_splits)
    have f: "f < length (pages b)" "f < pool_size b" using frames_okD(1,2) [OF I(1)] Some by metis+
    have "evictable_frames (Unpin f (replacer b)) = insert f (evictable_frames (replacer b))"
      using I(2) policy.unpin_law f(2) by (simp add: replacer_ok_def)
    moreover have "\<exists>s. Unpin f (replacer b) = LRUK s" using assms(2) policy_kind(2) by (auto simp: ready_def)
    ultimately show ?thesis
      using assms(2) f unfolding b' ready_def by (auto simp: nth_list_update set_frame_def)
  qed
  then show "ready b'" "pool_size b' = pool_size b" by simp_all
qed

lemma ready_reads:
  assumes "reads b b'" "pool_inv {} {} b" "ready b"
  shows "pool_inv {} {} b' \<and> ready b' \<and> pool_size b' = pool_size b"
  using assms
proof (induction rule: reads.induct)
  case (reads_fetch b b1 p b2 r)
  then have b1: "pool_inv {} {} b1" "ready b1" "pool_size b1 = pool_size b" by blast+
  show ?case using FetchPage_law(1) [OF b1(1) reads_fetch.hyps(2)] ready_fetch [OF b1(1,2) reads_fetch.hyps(2)] b1(3) by simp
next
  case (reads_release b b1 p b2 ok)
  then have b1: "pool_inv {} {} b1" "ready b1" "pool_size b1 = pool_size b" by blast+
  show ?case
    using UnpinPage_law(2) [OF b1(1) reads_release.hyps(2) _ reads_release.hyps(3)]
      ready_release [OF b1(1,2) reads_release.hyps(3)] b1(3) by simp
qed simp

section \<open>A frame that is not pinned\<close>

lemma unpinned_frame:
  assumes "pool_inv {} {} b0" "pool_inv {} {} b" "pins b = pins b0" "pool_size b = pool_size b0"
    "f0 < pool_size b0" "fr_pin_count (pages b0 ! f0) = 0"
  shows "\<exists>f < pool_size b. fr_pin_count (pages b ! f) = 0"
proof (rule ccontr)
  assume "\<not> (\<exists>f < pool_size b. fr_pin_count (pages b ! f) = 0)"
  then have pos: "0 < fr_pin_count (pages b ! f)" if "f < pool_size b" for f
    using frames_okD(6) [OF pool_invD(1) [OF assms(2)] that] that by force
  note D = frames_okD [OF pool_invD(1) [OF assms(2)]] and D0 = frames_okD [OF pool_invD(1) [OF assms(1)]]
  let ?g = "\<lambda>f. the (find_page (fr_page_id (pages b ! f)) b0)"
  have g: "find_page (fr_page_id (pages b ! f)) b0 = Some (?g f) \<and> find_page (fr_page_id (pages b ! f)) b = Some f \<and>
      0 < fr_pin_count (pages b0 ! ?g f)" if "f < pool_size b" for f
  proof -
    have "fr_page_id (pages b ! f) \<noteq> INVALID_PAGE_ID" using D(4) [of f] D(5) [of f] pos [OF that] that by auto
    then have m: "find_page (fr_page_id (pages b ! f)) b = Some f" using D(3) that by simp
    then have "0 < pins b (fr_page_id (pages b ! f))" using pos [OF that] by (simp add: pins_def)
    then have "0 < pins b0 (fr_page_id (pages b ! f))" by (simp add: assms(3))
    then show ?thesis using m by (auto simp: pins_def split: option.splits)
  qed
  have "inj_on ?g {..<pool_size b}"
  proof (rule inj_onI)
    fix f f' assume a: "f \<in> {..<pool_size b}" "f' \<in> {..<pool_size b}" "?g f = ?g f'"
    have "fr_page_id (pages b ! f) = fr_page_id (pages b ! f')"
      using find_page_inj [OF pool_invD(1) [OF assms(1)], of "fr_page_id (pages b ! f)" "?g f" "fr_page_id (pages b ! f')"]
        conjunct1 [OF g [of f]] conjunct1 [OF g [of f']] a unfolding lessThan_iff by metis
    moreover have "find_page (fr_page_id (pages b ! f)) b = Some f" "find_page (fr_page_id (pages b ! f')) b = Some f'"
      using g [of f] g [of f'] a(1,2) by blast+
    ultimately show "f = f'" by (metis option.inject)
  qed
  then have "card (?g ` {..<pool_size b}) = pool_size b" by (simp add: card_image)
  moreover have "?g ` {..<pool_size b} \<subseteq> {..<pool_size b0} - {f0}"
  proof (rule image_subsetI)
    fix f assume "f \<in> {..<pool_size b}"
    then have f: "f < pool_size b" by simp
    have "?g f < pool_size b0" using D0(2) [OF conjunct1 [OF g [OF f]]] by blast
    moreover have "?g f \<noteq> f0" using conjunct2 [OF conjunct2 [OF g [OF f]]] assms(6) by (metis less_irrefl)
    ultimately show "?g f \<in> {..<pool_size b0} - {f0}" by simp
  qed
  then have "card (?g ` {..<pool_size b}) \<le> card ({..<pool_size b0} - {f0})" by (intro card_mono) auto
  ultimately show False using assms(4,5) by simp
qed

lemma ready_serves:
  assumes "reads b0 b" "pool_inv {} {} b0" "ready b0" "pins b = pins b0" "f0 < pool_size b0"
    "fr_pin_count (pages b0 ! f0) = 0" "p \<noteq> INVALID_PAGE_ID" "view b p \<noteq> None"
  shows "snd (FetchPage p b) \<noteq> None"
proof -
  from ready_reads [OF assms(1-3)] have b: "pool_inv {} {} b" "ready b" "pool_size b = pool_size b0" by blast+
  from unpinned_frame [OF assms(2) b(1) assms(4) b(3) assms(5,6)] obtain f where
    f: "f < pool_size b" "fr_pin_count (pages b ! f) = 0" by blast
  note D = frames_okD [OF pool_invD(1) [OF b(1)]]
  have "free_list b \<noteq> [] \<or> evictable_frames (replacer b) \<noteq> {}"
  proof (cases "fr_page_id (pages b ! f) = INVALID_PAGE_ID")
    case True
    then show ?thesis using D(5) [OF f(1)] by auto
  next
    case False
    then have "f \<in> evictable_frames (replacer b)" using D(3) [OF False f(1)] f(2) b(2) by (auto simp: ready_def)
    then show ?thesis by blast
  qed
  moreover obtain s where "replacer b = LRUK s" using b(2) by (auto simp: ready_def)
  ultimately have "\<exists>b' f. FetchPage p b = (b', Some f)"
    using FetchPage_total [OF b(1)] ready_writable [OF b(2)] assms(7,8) by blast
  then show ?thesis by auto
qed

text \<open>The pool of the examples is ready.\<close>

lemma AllocatePage_broken: "AllocatePage fid d = Some (d', pid) \<Longrightarrow> broken d' = broken d"
  by (auto simp: AllocatePage_def Let_def stream_write_def bind_eq_Some_conv dest!: WritePage_broken
      split: option.splits if_splits prod.splits)

lemma page_pool_ready: "ready (page_pool c)"
proof -
  have "broken (page_disk c) = (\<lambda>_ _. False)"
    using WritePage_broken [OF page_disk_write] AllocatePage_broken [OF demo_disk2_alloc] demo_disk_eq(4) by simp
  then show ?thesis by (simp add: ready_def page_pool_def BufferPoolManager_def find_page_def)
qed

end
