(* ===== verification/Heap_Scan.thy ===== *)
theory Heap_Scan
  imports Table_Heap_Props Pool_Ready
begin

text \<open>
  The iterator of the table heap: what it returns on a heap whose chain of pages is in order. The rows
  come in the order of the chain and of the slots. Between two rows the iterator holds one pin, on the page
  it stands on. When the pool refuses a page the iterator ends there without an error, so the rows are those
  of the heap up to that page.
\<close>

section \<open>The rows of a heap\<close>

definition live_slots :: "page \<Rightarrow> nat list" where
  "live_slots c = filter (live c) [0..<GetSlotCount c]"

definition stored_row :: "i32 \<Rightarrow> page \<Rightarrow> nat \<Rightarrow> RID \<times> byte list" where
  "stored_row p c i = (RID p (word_of_nat i), the (Deserialize (tuple_at c i)))"

definition page_rows :: "i32 \<Rightarrow> page \<Rightarrow> (RID \<times> byte list) list" where
  "page_rows p c = map (stored_row p c) (live_slots c)"

definition heap_rows :: "(i32 \<Rightarrow> page option) \<Rightarrow> i32 list \<Rightarrow> (RID \<times> byte list) list" where
  "heap_rows v ps = concat (map (\<lambda>p. case v p of None \<Rightarrow> [] | Some c \<Rightarrow> page_rows p c) ps)"

text \<open>Every stored tuple is as long as its own header says.\<close>

definition readable_page :: "page \<Rightarrow> bool" where
  "readable_page c \<longleftrightarrow> (\<forall>i < GetSlotCount c. live c i \<longrightarrow> Deserialize (tuple_at c i) \<noteq> None)"

definition readable :: "(i32 \<Rightarrow> page option) \<Rightarrow> i32 list \<Rightarrow> bool" where
  "readable v ps \<longleftrightarrow> (\<forall>p \<in> set ps. \<forall>c. v p = Some c \<longrightarrow> readable_page c)"

lemma heap_rows_simps [simp]:
  "heap_rows v [] = []"
  "v p = Some c \<Longrightarrow> heap_rows v (p # ps) = page_rows p c @ heap_rows v ps"
  by (simp_all add: heap_rows_def)

text \<open>A row is listed exactly when the heap stores it.\<close>

lemma heap_rows_iff:
  assumes "page_chain v ps cur" "readable v ps"
  shows "(rid, t) \<in> set (heap_rows v ps) \<longleftrightarrow>
    rid_page_id rid \<in> set ps \<and> (\<exists>data. heap_row v rid = Some data \<and> Deserialize data = Some t)"
  using assms
proof (induction ps arbitrary: cur)
  case Nil
  then show ?case by simp
next
  case (Cons p ps)
  obtain c where c: "v p = Some c" "tp_wf c" "page_chain v ps (GetNextPageId c)"
    using Cons.prems(1) by (auto split: option.splits)
  have r: "readable v ps" "readable_page c" using Cons.prems(2) c(1) by (auto simp: readable_def)
  have "(rid, t) \<in> set (page_rows p c) \<longleftrightarrow>
      rid_page_id rid = p \<and> (\<exists>data. heap_row v rid = Some data \<and> Deserialize data = Some t)"
  proof
    assume "(rid, t) \<in> set (page_rows p c)"
    then obtain i where i: "i < GetSlotCount c" "live c i" "rid = RID p (word_of_nat i)" "t = the (Deserialize (tuple_at c i))"
      by (auto simp: page_rows_def live_slots_def stored_row_def)
    then have "sint (word_of_nat i :: i16) = int i" using sint_slot [of i] slot_count_small [OF c(2)] by simp
    with i c r(2) show "rid_page_id rid = p \<and> (\<exists>data. heap_row v rid = Some data \<and> Deserialize data = Some t)"
      by (auto simp: heap_row_def GetTuple_wf nth_tp_abs tp_slot_def readable_page_def)
  next
    assume a: "rid_page_id rid = p \<and> (\<exists>data. heap_row v rid = Some data \<and> Deserialize data = Some t)"
    then obtain data where d: "GetTuple c (sint (rid_slot_id rid)) = Some (Some data)" "Deserialize data = Some t"
      using c(1) by (auto simp: heap_row_def bind_eq_Some_conv)
    from in_range(1,2) [OF c(2) d(1)] obtain i where i: "sint (rid_slot_id rid) = int i" "i < GetSlotCount c"
      using zero_le_imp_eq_int by force
    have "live c i \<and> data = tuple_at c i"
      using d(1) i c(2) by (auto simp: GetTuple_wf nth_tp_abs tp_slot_def split: if_splits)
    moreover have "rid = RID p (word_of_nat i)"
    proof -
      have "rid_slot_id rid = of_int (sint (rid_slot_id rid))" by simp
      then have "rid_slot_id rid = word_of_nat i" unfolding i(1) by simp
      then show ?thesis using a by (cases rid) simp
    qed
    ultimately show "(rid, t) \<in> set (page_rows p c)"
      using i d(2) by (auto simp: page_rows_def live_slots_def stored_row_def)
  qed
  with Cons.IH [OF c(3) r(1)] c(1) show ?case by auto
qed

section \<open>One step of the iterator\<close>

lemma next_live_law:
  "\<forall>i \<in> set js. i < 4090 \<Longrightarrow> next_live p js = Some (case filter (live p) js of [] \<Rightarrow> None | i # _ \<Rightarrow> Some i)"
  by (induction js) auto

lemma filter_first:
  "filter P [k..<n] = i # js \<Longrightarrow> i < n \<and> P i \<and> filter P [i..<n] = i # js \<and> filter P [Suc i..<n] = js"
proof (induction "n - k" arbitrary: k)
  case (Suc d)
  then have e: "[k..<n] = k # [Suc k..<n]" by (intro upt_conv_Cons) simp
  show ?case
  proof (cases "P k")
    case True
    moreover have "k < n" using Suc.hyps(2) by simp
    ultimately show ?thesis using Suc.prems e by auto
  next
    case False
    then show ?thesis using Suc.hyps(1) [of "Suc k"] Suc.hyps(2) Suc.prems e by simp
  qed
qed simp

lemma slot_limit_count: "tp_wf c \<Longrightarrow> slot_limit c = GetSlotCount c"
  using sint_slot [of "GetSlotCount c"] slot_count_small [of c] by (simp add: slot_limit_def)

lemma slots_valid: "tp_wf c \<Longrightarrow> \<forall>i \<in> set [k..<GetSlotCount c]. i < 4090"
  using slot_count_small [of c] by auto

text \<open>
  Reading from the first state on, with its pins and no others, the pool comes to refuse a page it could show. A
  pool that is ready and has one unpinned frame never does (\<open>not_refused\<close> below).
\<close>

definition refused :: "bpm \<Rightarrow> bool" where
  "refused b0 \<longleftrightarrow> (\<exists>b p. view b0 p \<noteq> None \<and> p \<noteq> INVALID_PAGE_ID \<and> pool_inv {} {} b \<and> view_le b0 b \<and> reads b0 b \<and>
     pins b = pins b0 \<and> snd (FetchPage p b) = None)"

lemma not_refused:
  assumes "pool_inv {} {} b0" "ready b0" "f0 < pool_size b0" "fr_pin_count (pages b0 ! f0) = 0"
  shows "\<not> refused b0"
proof
  assume "refused b0"
  then obtain b p where b: "view b0 p \<noteq> None" "p \<noteq> INVALID_PAGE_ID" "view_le b0 b" "reads b0 b" "pins b = pins b0"
    "snd (FetchPage p b) = None" unfolding refused_def by blast
  have "view b p \<noteq> None" using b(1,3) by (auto simp: view_le_def)
  with ready_serves [OF b(4) assms(1,2) b(5) assms(3,4) b(2)] b(6) show False by simp
qed

text \<open>Where the iterator stands, and the rows it has still to return.\<close>

definition on_row :: "bpm \<Rightarrow> titer \<Rightarrow> bpm \<Rightarrow> (RID \<times> byte list) list \<Rightarrow> i32 list \<Rightarrow> bool" where
  "on_row b0 it b rows ps \<longleftrightarrow> (\<exists>f c i.
     it_page it = Some f \<and> find_page (it_page_id it) b = Some f \<and> it_page_id it \<noteq> INVALID_PAGE_ID \<and>
     pins b = (pins b0)(it_page_id it := pins b0 (it_page_id it) + 1) \<and> view b0 (it_page_id it) = Some c \<and> tp_wf c \<and>
     readable_page c \<and> it_slot_id it = word_of_nat i \<and> i < GetSlotCount c \<and> live c i \<and>
     page_chain (view b0) ps (GetNextPageId c) \<and> readable (view b0) ps \<and>
     rows = map (stored_row (it_page_id it) c) (filter (live c) [i..<GetSlotCount c]) @ heap_rows (view b0) ps)"

definition at_end :: "bpm \<Rightarrow> titer \<Rightarrow> bpm \<Rightarrow> bool" where
  "at_end b0 it b \<longleftrightarrow> it_page_id it = INVALID_PAGE_ID \<and> it_page it = None \<and> pins b = pins b0"

definition positioned :: "bpm \<Rightarrow> titer \<Rightarrow> bpm \<Rightarrow> (RID \<times> byte list) list \<Rightarrow> bool" where
  "positioned b0 it b rows \<longleftrightarrow> pool_inv {} {} b \<and> view_le b0 b \<and> reads b0 b \<and>
     (at_end b0 it b \<and> rows = [] \<or> (\<exists>ps. on_row b0 it b rows ps))"

text \<open>All rows that were due, or none after a refusal.\<close>

definition due :: "bpm \<Rightarrow> 'a list \<Rightarrow> 'a list \<Rightarrow> bool" where
  "due b0 rows rest \<longleftrightarrow> rest = rows \<or> rest = [] \<and> refused b0"

lemma seek_page_law:
  assumes "pool_inv {} {} b" "view_le b0 b" "pins b = pins b0" "page_chain (view b0) ps (it_page_id it)"
    "readable (view b0) ps" "it_page it = None" "reads b0 b"
  shows "\<exists>it' b' rest. seek_page it b = Some (it', b') \<and> positioned b0 it' b' rest \<and> due b0 (heap_rows (view b0) ps) rest"
  using assms
proof (induction ps arbitrary: it b)
  case Nil
  then have "seek_page it b = Some (it, b)" by (subst seek_page.simps) (simp add: release_current_def)
  then show ?case using Nil by (auto simp: positioned_def at_end_def due_def)
next
  case (Cons p ps)
  obtain c where c: "view b0 p = Some c" "tp_wf c" "page_chain (view b0) ps (GetNextPageId c)" "it_page_id it = p"
    "p \<noteq> INVALID_PAGE_ID"
    using Cons.prems(4) by (auto split: option.splits)
  have r: "readable (view b0) ps" "readable_page c" using Cons.prems(5) c(1) by (auto simp: readable_def)
  obtain b1 fo where f: "FetchPage p b = (b1, fo)" by fastforce
  note F = FetchPage_law [OF Cons.prems(1) f]
  have le: "view_le b0 b1" by (rule view_le_trans [OF Cons.prems(2) F(2)])
  have rd: "reads b0 b1" by (rule reads_fetch [OF Cons.prems(7) f])
  show ?case
  proof (cases fo)
    case None
    then have "seek_page it b = Some (it\<lparr>it_page_id := INVALID_PAGE_ID, it_page := None\<rparr>, b1)"
      using f c by (subst seek_page.simps) simp
    moreover have "refused b0" unfolding refused_def using f None c Cons.prems(1-3,7) by force
    ultimately show ?thesis using F(1,4) None le rd Cons.prems(3) by (auto simp: positioned_def at_end_def due_def)
  next
    case (Some g)
    have g: "find_page p b1 = Some g" "view b1 p = Some (page_at g b1)" using F(5) Some by auto
    have at: "page_at g b1 = c" using le c(1) g(2) by (simp add: view_le_def)
    have pin: "pins b1 = (pins b0)(p := pins b0 p + 1)" using F(4) Some Cons.prems(3) by simp
    have next_live: "next_live (page_at g b1) [0..<slot_limit (page_at g b1)] =
        Some (case live_slots c of [] \<Rightarrow> None | i # _ \<Rightarrow> Some i)"
      using next_live_law [OF slots_valid [OF c(2)]] by (simp add: at slot_limit_count [OF c(2)] live_slots_def)
    show ?thesis
    proof (cases "live_slots c")
      case (Cons i js)
      let ?it = "it\<lparr>it_slot_id := word_of_nat i, it_page := Some g\<rparr>"
      have "seek_page it b = Some (?it, b1)"
        using f Some c next_live Cons by (subst seek_page.simps) simp
      moreover have i: "i < GetSlotCount c" "live c i" "filter (live c) [i..<GetSlotCount c] = live_slots c"
        using filter_first [of "live c" 0 "GetSlotCount c" i js] Cons by (simp_all add: live_slots_def)
      moreover have "on_row b0 ?it b1 (page_rows p c @ heap_rows (view b0) ps) ps"
        unfolding on_row_def using c r g(1) pin i
        by (intro exI [of _ g] exI [of _ c] exI [of _ i]) (simp add: page_rows_def)
      ultimately show ?thesis using F(1) le rd c(1) by (auto simp: positioned_def due_def)
    next
      case Nil
      let ?it = "it\<lparr>it_page_id := GetNextPageId c, it_page := None\<rparr>"
      obtain b2 ok where u: "UnpinPage p False b1 = (b2, ok)" by fastforce
      have pos: "0 < pins b1 p" using pin pool.pinned_nonneg [OF Cons.prems(1), of p] Cons.prems(3) by simp
      note U = UnpinPage_law [OF F(1) pos _ u]
      have rd2: "reads b0 b2" by (rule reads_release [OF rd pos u])
      have "fr_page_id (pages b1 ! g) = p" using frames_okD(2) [OF pool_invD(1) [OF F(1)] g(1)] by simp
      then have "seek_page it b = seek_page ?it b2"
        using f Some c next_live Nil u at by (subst seek_page.simps) simp
      moreover have "view_le b0 b2" "pins b2 = pins b0" using le U(3,4) pin by (simp_all add: view_le_def fun_upd_idem)
      ultimately show ?thesis
        using Cons.IH [of b2 ?it] U(2) c(1,3) r(1) rd2 Nil by (simp add: page_rows_def)
    qed
  qed
qed

text \<open>Releasing the page the iterator stands on.\<close>

lemma release_law:
  assumes "pool_inv {} {} b" "view_le b0 b" "it_page it = Some f" "find_page p b = Some f"
    "pins b = (pins b0)(p := pins b0 p + 1)" "0 \<le> pins b0 p" "reads b0 b"
  shows "\<exists>b'. release_current it b = (it\<lparr>it_page := None\<rparr>, b') \<and> pool_inv {} {} b' \<and> view_le b0 b' \<and> pins b' = pins b0 \<and>
    reads b0 b'"
proof -
  obtain b' ok where u: "UnpinPage p False b = (b', ok)" by fastforce
  have pos: "0 < pins b p" using assms(5,6) by simp
  note U = UnpinPage_law [OF assms(1) pos _ u]
  have "reads b0 b'" by (rule reads_release [OF assms(7) pos u])
  have "fr_page_id (pages b ! f) = p" using frames_okD(2) [OF pool_invD(1) [OF assms(1)] assms(4)] by simp
  then have "release_current it b = (it\<lparr>it_page := None\<rparr>, b')" using assms(3) u by (simp add: release_current_def)
  moreover have "view_le b0 b'" "pins b' = pins b0" using assms(2,5) U(3,4) by (simp_all add: view_le_def fun_upd_idem)
  moreover note \<open>reads b0 b'\<close>
  ultimately show ?thesis using U(2) by simp
qed

lemma on_rowE:
  assumes "on_row b0 it b rows ps"
  obtains f c i where "it_page it = Some f" "find_page (it_page_id it) b = Some f" "it_page_id it \<noteq> INVALID_PAGE_ID"
    "pins b = (pins b0)(it_page_id it := pins b0 (it_page_id it) + 1)" "view b0 (it_page_id it) = Some c" "tp_wf c"
    "readable_page c" "it_slot_id it = word_of_nat i" "i < GetSlotCount c" "live c i"
    "page_chain (view b0) ps (GetNextPageId c)" "readable (view b0) ps"
    "rows = map (stored_row (it_page_id it) c) (filter (live c) [i..<GetSlotCount c]) @ heap_rows (view b0) ps"
  using assms unfolding on_row_def by blast

lemma Advance_law:
  assumes "pool_inv {} {} b" "view_le b0 b" "pool_inv {} {} b0" "on_row b0 it b (r # rows) ps" "reads b0 b"
  shows "\<exists>it' b' rest. AdvanceToNextValid it b = Some (it', b') \<and> positioned b0 it' b' rest \<and> due b0 rows rest"
  using assms(4)
proof (rule on_rowE)
  fix f c i
  assume f: "it_page it = Some f" "find_page (it_page_id it) b = Some f" "it_page_id it \<noteq> INVALID_PAGE_ID"
    and pin: "pins b = (pins b0)(it_page_id it := pins b0 (it_page_id it) + 1)"
    and c: "view b0 (it_page_id it) = Some c" "tp_wf c" "readable_page c"
    and i: "it_slot_id it = word_of_nat i" "i < GetSlotCount c" "live c i"
    and ps: "page_chain (view b0) ps (GetNextPageId c)" "readable (view b0) ps"
    and rows: "r # rows = map (stored_row (it_page_id it) c) (filter (live c) [i..<GetSlotCount c]) @ heap_rows (view b0) ps"
  have at: "page_at f b = c" using assms(2) c(1) view_find [OF f(2)] by (simp add: view_le_def)
  have si: "sint (it_slot_id it) = int i" using sint_slot [of i] slot_count_small [OF c(2)] i by simp
  have rest: "rows = map (stored_row (it_page_id it) c) (filter (live c) [Suc i..<GetSlotCount c]) @ heap_rows (view b0) ps"
    using rows i(2,3) by (simp add: upt_conv_Cons)
  have next_live: "next_live (page_at f b) [nat (sint (it_slot_id it) + 1)..<slot_limit (page_at f b)] =
      Some (case filter (live c) [Suc i..<GetSlotCount c] of [] \<Rightarrow> None | j # _ \<Rightarrow> Some j)"
    using next_live_law [OF slots_valid [OF c(2), of "Suc i"], of c] by (simp add: at slot_limit_count [OF c(2)] si nat_add_distrib)
  show ?thesis
  proof (cases "filter (live c) [Suc i..<GetSlotCount c]")
    case (Cons j js)
    have "AdvanceToNextValid it b = Some (it\<lparr>it_slot_id := word_of_nat j\<rparr>, b)"
      using f next_live Cons by (simp add: AdvanceToNextValid_def)
    moreover have "on_row b0 (it\<lparr>it_slot_id := word_of_nat j\<rparr>) b rows ps"
      unfolding on_row_def using f pin c ps filter_first [OF Cons] rest Cons
      by (intro exI [of _ f] exI [of _ c] exI [of _ j]) simp
    ultimately show ?thesis using assms(1,2,5) by (auto simp: positioned_def due_def)
  next
    case Nil
    have "0 \<le> pins b0 (it_page_id it)" by (rule pool.pinned_nonneg [OF assms(3)])
    from release_law [OF assms(1,2) f(1,2) pin this assms(5)] obtain b1 where
      b1: "release_current it b = (it\<lparr>it_page := None\<rparr>, b1)" "pool_inv {} {} b1" "view_le b0 b1" "pins b1 = pins b0"
      "reads b0 b1" by blast
    have "AdvanceToNextValid it b = seek_page (it\<lparr>it_page := None, it_page_id := GetNextPageId c\<rparr>) b1"
      using f next_live Nil b1(1) at by (simp add: AdvanceToNextValid_def)
    then show ?thesis
      using b1(5) seek_page_law [OF b1(2-4), of ps "it\<lparr>it_page := None, it_page_id := GetNextPageId c\<rparr>"] ps rest Nil by simp
  qed
qed

lemma Next_law:
  assumes "positioned b0 it b (r # rows)" "pool_inv {} {} b0"
  shows "\<exists>it' b' rest. Next it b = Some (r, it', b') \<and> HasNext it \<and> positioned b0 it' b' rest \<and> due b0 rows rest"
proof -
  obtain ps where p: "pool_inv {} {} b" "view_le b0 b" "on_row b0 it b (r # rows) ps" "reads b0 b"
    using assms(1) by (auto simp: positioned_def)
  from p(3) show ?thesis
  proof (rule on_rowE)
    fix f c i
    assume f: "it_page it = Some f" "find_page (it_page_id it) b = Some f" "it_page_id it \<noteq> INVALID_PAGE_ID"
      and c: "view b0 (it_page_id it) = Some c" "tp_wf c" "readable_page c"
      and i: "it_slot_id it = word_of_nat i" "i < GetSlotCount c" "live c i"
      and rows: "r # rows = map (stored_row (it_page_id it) c) (filter (live c) [i..<GetSlotCount c]) @ heap_rows (view b0) ps"
    have at: "page_at f b = c" using p(2) c(1) view_find [OF f(2)] by (simp add: view_le_def)
    have si: "sint (it_slot_id it) = int i" using sint_slot [of i] slot_count_small [OF c(2)] i by simp
    have get: "GetTuple c (sint (it_slot_id it)) = Some (Some (tuple_at c i))"
      unfolding si using i(2,3) c(2) by (simp add: GetTuple_wf nth_tp_abs tp_slot_def)
    have d: "Deserialize (tuple_at c i) \<noteq> None" using c(3) i by (simp add: readable_page_def)
    have r: "r = (RID (it_page_id it) (it_slot_id it), the (Deserialize (tuple_at c i)))"
      using rows i by (simp add: upt_conv_Cons stored_row_def)
    from Advance_law [OF p(1,2) assms(2) p(3,4)] obtain it' b' rest where
      "AdvanceToNextValid it b = Some (it', b')" "positioned b0 it' b' rest" "due b0 rows rest" by blast
    moreover from this(1) have "Next it b = Some (r, it', b')"
      using f(1) at get d in_range(4) [OF c(2) get] r by (auto simp: Next_def)
    ultimately show ?thesis using f(3) by (auto simp: HasNext_def)
  qed
qed

lemma positioned_end:
  assumes "positioned b0 it b []"
  shows "at_end b0 it b" "\<not> HasNext it"
proof -
  have "\<not> on_row b0 it b [] ps" for ps by (auto simp: on_row_def upt_conv_Cons)
  then show "at_end b0 it b" using assms by (auto simp: positioned_def)
  then show "\<not> HasNext it" by (simp add: at_end_def HasNext_def)
qed

text \<open>The end of a pass: the page the iterator stands on is given back.\<close>

lemma release_positioned:
  assumes "positioned b0 it b rows" "pool_inv {} {} b0"
  shows "\<exists>b'. snd (release_current it b) = b' \<and> pool_inv {} {} b' \<and> view_le b0 b' \<and> reads b0 b' \<and> pins b' = pins b0"
proof (cases "at_end b0 it b \<and> rows = []")
  case True
  then show ?thesis using assms(1) by (simp add: at_end_def release_current_def positioned_def)
next
  case False
  then obtain ps where p: "pool_inv {} {} b" "view_le b0 b" "on_row b0 it b rows ps" "reads b0 b"
    using assms(1) by (auto simp: positioned_def)
  from p(3) show ?thesis
  proof (rule on_rowE)
    fix f
    assume f: "it_page it = Some f" "find_page (it_page_id it) b = Some f"
      "pins b = (pins b0)(it_page_id it := pins b0 (it_page_id it) + 1)"
    from release_law [OF p(1,2) f pool.pinned_nonneg [OF assms(2)] p(4)] show ?thesis by auto
  qed
qed

lemma MakeIterator_law:
  assumes "pool_inv {} {} b" "page_chain (view b) ps (first_page_id h)" "readable (view b) ps"
  shows "\<exists>it b' rest. MakeIterator h b = Some (it, b') \<and> positioned b it b' rest \<and> due b (heap_rows (view b) ps) rest"
proof -
  let ?it = "\<lparr>it_first_page_id = first_page_id h, it_page_id = first_page_id h, it_slot_id = - 1, it_page = None\<rparr>"
  have "MakeIterator h b = seek_page ?it b"
    by (simp add: MakeIterator_def TableIterator_def Reset_def release_current_def AdvanceToNextValid_def)
  then show ?thesis using seek_page_law [of b b ps ?it] assms reads_refl by simp
qed

text \<open>What is left is always a suffix of the heap's rows, or nothing after a refusal.\<close>

lemma due_Nil: "due b0 rows [] \<Longrightarrow> rows \<noteq> [] \<Longrightarrow> refused b0"
  by (auto simp: due_def)

end
