(* ===== verification/Execution_Props.thy ===== *)
theory Execution_Props
  imports Execution Executor_Props Heap_Scan
begin

text \<open>
  What a query returns: the rows of the heap, filtered, projected and cut, through every layer from the
  plan to the pages.
\<close>

section \<open>Operators in a tree\<close>

text \<open>An operator on its own state and the child's, put into the tree of states.\<close>

lemma yields_embed:
  assumes "yields nx s rows s'" "\<And>s. nx' (emb s) = map_option (\<lambda>(s, r). (emb s, r)) (nx s)"
  shows "yields nx' (emb s) rows (emb s')"
  using assms(1) by (induction rule: yields.induct) (auto simp: assms(2) intro: yields.intros)

lemma filter_reaches: "filter_next nx p s st = Some y \<Longrightarrow> reaches nx st (fst y)"
proof (induction rule: filter_next.raw_induct [where P = "\<lambda>nx p s st y. reaches nx st (fst y)", rotated, consumes 1])
  case (1 self nx p s st y)
  from 1(2) obtain st1 r where nx: "nx st = Some (st1, r)" by (auto simp: bind_eq_Some_conv)
  have step: "reaches nx st st1" using nx by (rule reaches_one)
  from 1(2) nx 1(1) [of nx p s st1 y] show ?case
    by (auto simp: bind_eq_Some_conv split: option.splits if_splits intro: step reaches_trans [OF _ step])
qed

lemma keeps_filter: "keeps P nx \<Longrightarrow> keeps P (filter_next nx p s)"
  unfolding keeps_def [of P "filter_next nx p s"] using keeps_reaches filter_reaches by fastforce

lemma keeps_projection: "keeps P nx \<Longrightarrow> keeps P (projection_next nx es s out)"
  unfolding keeps_def projection_next_def by (fastforce simp: bind_eq_Some_conv split: option.splits)

section \<open>The scan of a heap\<close>

text \<open>The handler while it scans: its iterator stands on a row of the heap of \<open>b0\<close>, or at the end.\<close>

definition scanning :: "bpm \<Rightarrow> handler \<Rightarrow> engine \<Rightarrow> int \<Rightarrow> (RID \<times> byte list) list \<Rightarrow> ExecutorContext \<Rightarrow> bool" where
  "scanning b0 h e n rows ctx \<longleftrightarrow> (\<exists>it b. ctx_store ctx = (h\<lparr>h_iterator := Some it, h_scan_active := True\<rparr>, e\<lparr>eng_pool := b\<rparr>) \<and>
     ctx_affected ctx = n \<and> positioned b0 it b rows)"

abbreviation in_scan :: "bpm \<Rightarrow> handler \<Rightarrow> engine \<Rightarrow> int \<Rightarrow> ExecutorContext \<Rightarrow> bool" where
  "in_scan b0 h e n ctx \<equiv> \<exists>rows. scanning b0 h e n rows ctx"

definition as_row :: "RID \<times> byte list \<Rightarrow> row" where
  "as_row r = (snd r, Some (fst r))"

lemma scan_next_end:
  "scanning b0 h e n [] ctx \<Longrightarrow> scan_next ctx = Some (ctx, None)"
  using positioned_end(2) by (fastforce simp: scanning_def scan_next_def rnd_next_def)

lemma scan_next_row:
  assumes "scanning b0 h e n (r # rows) ctx" "pool_inv {} {} b0"
  shows "\<exists>ctx' rest. scan_next ctx = Some (ctx', Some (as_row r)) \<and> scanning b0 h e n rest ctx' \<and> due b0 rows rest"
proof -
  from assms(1) obtain it b where s: "ctx_store ctx = (h\<lparr>h_iterator := Some it, h_scan_active := True\<rparr>, e\<lparr>eng_pool := b\<rparr>)"
    "ctx_affected ctx = n" "positioned b0 it b (r # rows)" by (auto simp: scanning_def)
  from Next_law [OF s(3) assms(2)] obtain it' b' rest where
    n: "Table_Heap.Next it b = Some (r, it', b')" "HasNext it" "positioned b0 it' b' rest" "due b0 rows rest" by blast
  let ?ctx = "ctx\<lparr>ctx_store := (h\<lparr>h_iterator := Some it', h_scan_active := True\<rparr>, e\<lparr>eng_pool := b'\<rparr>)\<rparr>"
  have "scan_next ctx = Some (?ctx, Some (as_row r))"
    using s(1) n(1,2) by (cases r) (simp add: scan_next_def rnd_next_def as_row_def)
  moreover have "scanning b0 h e n rest ?ctx" using s(2) n(3) by (auto simp: scanning_def)
  ultimately show ?thesis using n(4) by blast
qed

lemma keeps_scan: "pool_inv {} {} b0 \<Longrightarrow> keeps (in_scan b0 h e n) scan_next"
  unfolding keeps_def
proof (intro allI impI)
  fix ctx ctx' r
  assume b0: "pool_inv {} {} b0" and "in_scan b0 h e n ctx" and step: "scan_next ctx = Some (ctx', r)"
  then obtain rows where rows: "scanning b0 h e n rows ctx" by blast
  show "in_scan b0 h e n ctx'"
  proof (cases rows)
    case Nil
    then show ?thesis using rows step scan_next_end by fastforce
  next
    case (Cons x xs)
    then show ?thesis using scan_next_row [of b0 h e n x xs ctx] rows b0 step by auto
  qed
qed

lemma scan_yields:
  assumes "scanning b0 h e n rows ctx" "pool_inv {} {} b0"
  shows "\<exists>k ctx'. yields scan_next ctx (map as_row (take k rows)) ctx' \<and> (k < length rows \<longrightarrow> refused b0)"
  using assms(1)
proof (induction rows arbitrary: ctx)
  case Nil
  then have "yields scan_next ctx [] ctx" by (intro yields.stop scan_next_end)
  then show ?case by auto
next
  case (Cons r rows)
  from scan_next_row [OF this(2) assms(2)] obtain ctx1 rest where
    r: "scan_next ctx = Some (ctx1, Some (as_row r))" "scanning b0 h e n rest ctx1" "due b0 rows rest" by blast
  show ?case
  proof (cases "rest = rows")
    case True
    from Cons.IH [OF r(2) [unfolded True]] obtain k ctx' where
      k: "yields scan_next ctx1 (map as_row (take k rows)) ctx'" "k < length rows \<longrightarrow> refused b0" by blast
    have "yields scan_next ctx (map as_row (take (Suc k) (r # rows))) ctx'"
      using yields.row [where nx = scan_next, OF r(1) k(1)] by simp
    then show ?thesis using k(2) by (intro exI [of _ "Suc k"] exI [of _ ctx']) simp
  next
    case False
    then have e: "rest = []" "refused b0" using r(3) by (auto simp: due_def)
    have "yields scan_next ctx1 [] ctx1" using scan_next_end r(2) e(1) by (intro yields.stop) simp
    then have "yields scan_next ctx (map as_row (take 1 (r # rows))) ctx1"
      using yields.row [where nx = scan_next, OF r(1)] by simp
    then show ?thesis using e(2) by blast
  qed
qed

text \<open>Opening a table and beginning the scan.\<close>

definition table_open :: "engine \<Rightarrow> str \<Rightarrow> schema \<Rightarrow> table_heap \<Rightarrow> bool" where
  "table_open e t s heap \<longleftrightarrow> (\<exists>info. snd (GetTable t (eng_catalog e)) = Some info \<and> table_schema info = s) \<and>
     eng_heaps e t = Some heap"

definition heap_ready :: "bpm \<Rightarrow> table_heap \<Rightarrow> i32 list \<Rightarrow> bool" where
  "heap_ready b heap ps \<longleftrightarrow> pool_inv {} {} b \<and> page_chain (view b) ps (first_page_id heap) \<and> readable (view b) ps"

abbreviation start :: "engine \<Rightarrow> ExecutorContext" where
  "start e \<equiv> \<lparr>ctx_store = (goods_handler, e), ctx_affected = 0\<rparr>"

lemma init_scan:
  assumes "table_open e t s heap" "heap_ready (eng_pool e) heap ps"
  shows "\<exists>h e1 ctx rest. Init (SeqScanExecutor t (Some s)) (start e) = Some (Flag True, ctx) \<and>
    scanning (eng_pool e) h e1 0 rest ctx \<and> due (eng_pool e) (heap_rows (view (eng_pool e)) ps) rest"
proof -
  obtain c info where t: "GetTable t (eng_catalog e) = (c, Some info)" "eng_heaps e t = Some heap"
    using assms(1) by (cases "GetTable t (eng_catalog e)") (auto simp: table_open_def)
  from MakeIterator_law assms(2) obtain it b' rest where
    m: "MakeIterator heap (eng_pool e) = Some (it, b')" "positioned (eng_pool e) it b' rest"
      "due (eng_pool e) (heap_rows (view (eng_pool e)) ps) rest" unfolding heap_ready_def by blast
  let ?e = "e\<lparr>eng_catalog := c\<rparr>"
  let ?h = "goods_handler\<lparr>h_table_name := t, h_info := Some info, h_schema := Some (table_schema info), h_heap := Some heap\<rparr>"
  have closed: "close_table (goods_handler, e) = (goods_handler, e)" by (simp add: close_table_def goods_handler_def)
  have opened: "open_table t (goods_handler, e) = ((?h, ?e), True)"
    using t by (simp add: open_table_def Let_def goods_handler_def)
  have "Init (SeqScanExecutor t (Some s)) (start e) =
      Some (Flag True, \<lparr>ctx_store = (?h\<lparr>h_iterator := Some it, h_scan_active := True\<rparr>, ?e\<lparr>eng_pool := b'\<rparr>), ctx_affected = 0\<rparr>)"
    using m(1) by (simp add: reopen_def closed opened rnd_init_def) (simp add: goods_handler_def, blast)
  moreover have "scanning (eng_pool e) ?h ?e 0 rest
      \<lparr>ctx_store = (?h\<lparr>h_iterator := Some it, h_scan_active := True\<rparr>, ?e\<lparr>eng_pool := b'\<rparr>), ctx_affected = 0\<rparr>"
    using m(2) unfolding scanning_def by (intro exI [of _ it] exI [of _ b']) simp
  ultimately show ?thesis using m(3) by blast
qed

text \<open>The destructor of the handler gives the page back.\<close>

lemma close_scan:
  assumes "in_scan b0 h e n ctx" "pool_inv {} {} b0"
  shows "pool_inv {} {} (eng_pool (snd (close_table (ctx_store ctx))))" "view_le b0 (eng_pool (snd (close_table (ctx_store ctx))))"
    "pins (eng_pool (snd (close_table (ctx_store ctx)))) = pins b0" "ctx_affected ctx = n"
proof -
  from assms(1) obtain it b rows where s:
    "ctx_store ctx = (h\<lparr>h_iterator := Some it, h_scan_active := True\<rparr>, e\<lparr>eng_pool := b\<rparr>)" "ctx_affected ctx = n"
    "positioned b0 it b rows" by (auto simp: scanning_def)
  have "\<exists>b'. snd (release_current it b) = b' \<and> pool_inv {} {} b' \<and> view_le b0 b' \<and> pins b' = pins b0"
    using release_positioned [OF s(3) assms(2)] by blast
  then show "pool_inv {} {} (eng_pool (snd (close_table (ctx_store ctx))))" "view_le b0 (eng_pool (snd (close_table (ctx_store ctx))))"
    "pins (eng_pool (snd (close_table (ctx_store ctx)))) = pins b0" "ctx_affected ctx = n"
    using s(1,2) by (auto simp: close_table_def rnd_end_def index_end_def Let_def split: prod.splits)
qed

section \<open>Scan and filter\<close>

definition source :: "BoundExpression \<Rightarrow> str \<Rightarrow> schema \<Rightarrow> executor" where
  "source w t s = (if w = Null_Expression then SeqScanExecutor t (Some s) else FilterExecutor w (SeqScanExecutor t (Some s)))"

definition selected :: "BoundExpression \<Rightarrow> schema \<Rightarrow> RID \<times> byte list \<Rightarrow> bool" where
  "selected w s r \<longleftrightarrow> w = Null_Expression \<or> Evaluate w (Some (snd r)) (Some s) = Some (VBoolean True)"

text \<open>The WHERE expression has a value on every row of the heap.\<close>

definition evaluable :: "BoundExpression \<Rightarrow> schema \<Rightarrow> (RID \<times> byte list) list \<Rightarrow> bool" where
  "evaluable w s rows \<longleftrightarrow> w = Null_Expression \<or> (\<forall>r \<in> set rows. Evaluate w (Some (snd r)) (Some s) \<noteq> None)"

lemma source_schema [simp]: "GetOutputSchema (source w t s) = Some (Some s)"
  by (simp add: source_def)

lemma filter_as_row: "w \<noteq> Null_Expression \<Longrightarrow> filter (satisfies w (Some s)) (map as_row rows) = map as_row (filter (selected w s) rows)"
  by (induction rows) (auto simp: satisfies_def selected_def as_row_def)

lemma scan_tree:
  "yields scan_next ctx rows ctx' \<Longrightarrow> yields (Next (SeqScanExecutor t sch)) (Flag True, ctx) rows (Flag True, ctx')"
  by (erule yields_embed [where emb = "\<lambda>ctx. (Flag True, ctx)"]) simp

lemma filter_tree:
  assumes "yields (filter_next (Next c) w s) (cs, ctx) rows (cs', ctx')" "w \<noteq> Null_Expression" "c \<noteq> Null_Executor"
    "GetOutputSchema c = Some s"
  shows "yields (Next (FilterExecutor w c)) (Below cs, ctx) rows (Below cs', ctx')"
  using yields_embed [OF assms(1), where emb = "\<lambda>m. (Below (fst m), snd m)" and nx' = "Next (FilterExecutor w c)"] assms(2-4)
  by (simp add: case_prod_unfold)

lemma keeps_source:
  assumes "keeps Q scan_next"
  shows "keeps (\<lambda>m. Q (snd m)) (Next (source w t s))"
proof -
  have scan: "keeps (\<lambda>m. Q (snd m)) (Next (SeqScanExecutor t (Some s)))"
    using assms unfolding keeps_def by (fastforce split: if_splits)
  have "keeps (\<lambda>m. Q (snd m)) (filter_next (Next (SeqScanExecutor t (Some s))) w (Some s))" by (rule keeps_filter [OF scan])
  then have "keeps (\<lambda>m. Q (snd m)) (Next (FilterExecutor w (SeqScanExecutor t (Some s))))"
    unfolding keeps_def by (fastforce split: exec_state.splits if_splits)
  moreover have "source w t s = (if w = Null_Expression then SeqScanExecutor t (Some s) else FilterExecutor w (SeqScanExecutor t (Some s)))"
    by (simp add: source_def)
  ultimately show ?thesis using scan by presburger
qed

lemma source_law:
  assumes "table_open e t s heap" "heap_ready (eng_pool e) heap ps" "rows = heap_rows (view (eng_pool e)) ps" "evaluable w s rows"
  shows "\<exists>m m' k h e1. Init (source w t s) (start e) = Some m \<and>
    yields (Next (source w t s)) m (map as_row (filter (selected w s) (take k rows))) m' \<and>
    (k < length rows \<longrightarrow> refused (eng_pool e)) \<and> in_scan (eng_pool e) h e1 0 (snd m)"
proof -
  have b0: "pool_inv {} {} (eng_pool e)" using assms(2) by (simp add: heap_ready_def)
  from init_scan [OF assms(1,2)] obtain h e1 ctx rest where
    i: "Init (SeqScanExecutor t (Some s)) (start e) = Some (Flag True, ctx)" "scanning (eng_pool e) h e1 0 rest ctx"
      "due (eng_pool e) rows rest" unfolding assms(3) by blast
  from scan_yields [OF i(2) b0] obtain j ctx' where
    j: "yields scan_next ctx (map as_row (take j rest)) ctx'" "j < length rest \<longrightarrow> refused (eng_pool e)" by blast
  obtain k where k: "take j rest = take k rows" "k < length rows \<longrightarrow> refused (eng_pool e)"
    using i(3) j(2) unfolding due_def by (metis take_0 take_Nil)
  note scan = scan_tree [OF j(1) [unfolded k(1)], of t "Some s"]
  show ?thesis
  proof (cases "w = Null_Expression")
    case True
    then have "filter (selected w s) (take k rows) = take k rows" by (simp add: selected_def)
    then have "yields (Next (source w t s)) (Flag True, ctx) (map as_row (filter (selected w s) (take k rows))) (Flag True, ctx')"
      using scan True by (simp add: source_def)
    moreover have "Init (source w t s) (start e) = Some (Flag True, ctx)" using True i(1) by (simp add: source_def)
    moreover have "in_scan (eng_pool e) h e1 0 (snd (Flag True, ctx))" using i(2) by auto
    ultimately show ?thesis using k(2) by blast
  next
    case False
    have "\<forall>row \<in> set (map as_row (take k rows)). Evaluate w (Some (fst row)) (Some s) \<noteq> None"
      using assms(4) False by (auto simp: evaluable_def as_row_def dest: in_set_takeD)
    from yields_filter [OF scan this] have "yields (filter_next (Next (SeqScanExecutor t (Some s))) w (Some s)) (Flag True, ctx)
        (map as_row (filter (selected w s) (take k rows))) (Flag True, ctx')" by (simp only: filter_as_row [OF False])
    from filter_tree [OF this False] have "yields (Next (source w t s)) (Below (Flag True), ctx)
        (map as_row (filter (selected w s) (take k rows))) (Below (Flag True), ctx')" using False by (simp add: source_def)
    moreover have "Init (source w t s) (start e) = Some (Below (Flag True), ctx)" using False i(1) by (simp add: source_def)
    moreover have "in_scan (eng_pool e) h e1 0 (snd (Below (Flag True), ctx))" using i(2) by auto
    ultimately show ?thesis using k(2) by blast
  qed
qed

section \<open>SELECT\<close>

text \<open>The answer to a query over the rows of a table.\<close>

definition answer_row :: "(BoundExpression \<times> str) list \<Rightarrow> schema \<Rightarrow> schema \<Rightarrow> RID \<times> byte list \<Rightarrow> byte list" where
  "answer_row es s out r = the (project_row es (Some s) out (snd r))"

definition answer ::
  "BoundSelectStmt \<Rightarrow> (BoundExpression \<times> str) list \<Rightarrow> schema \<Rightarrow> schema \<Rightarrow> (RID \<times> byte list) list \<Rightarrow> byte list list" where
  "answer q es s out rows =
     limited (bs_limit q) (bs_offset q) (map (answer_row es s out) (filter (selected (bs_where_clause q) s) rows))"

definition projectable :: "(BoundExpression \<times> str) list \<Rightarrow> schema \<Rightarrow> schema \<Rightarrow> (RID \<times> byte list) list \<Rightarrow> bool" where
  "projectable es s out rows \<longleftrightarrow> (\<forall>r \<in> set rows. project_row es (Some s) out (snd r) \<noteq> None)"

lemma projection_tree:
  assumes "yields (projection_next (Next c) es s out) (cs, ctx) rows (cs', ctx')" "c \<noteq> Null_Executor"
    "GetOutputSchema c = Some s"
  shows "yields (Next (ProjectionExecutor es out c)) (Flag_Below b cs, ctx) rows (Flag_Below b cs', ctx')"
  using yields_embed [OF assms(1), where emb = "\<lambda>m. (Flag_Below b (fst m), snd m)" and nx' = "Next (ProjectionExecutor es out c)"]
    assms(2,3)
  by (simp add: case_prod_unfold)

lemma limit_tree:
  assumes "yields (limit_next (Next c) l off) (ls, (cs, ctx)) rows (ls', (cs', ctx'))" "c \<noteq> Null_Executor"
  shows "yields (Next (LimitExecutor l off c)) (Limit_State ls cs, ctx) rows (Limit_State ls' cs', ctx')"
  using yields_embed [OF assms(1), where emb = "\<lambda>m. (Limit_State (fst m) (fst (snd m)), snd (snd m))" and
      nx' = "Next (LimitExecutor l off c)"] assms(2)
  by (simp add: case_prod_unfold)

lemma source_not_null [simp]: "source w t s \<noteq> Null_Executor"
  by (simp add: source_def)

lemma Create_source:
  "with_filter w (Some s) [MakeSeqScan t (Some s)] = [p] \<Longrightarrow> Create p = Some (source w t s)"
  by (auto simp: with_filter_def source_def MakeSeqScan_def split: if_splits)

lemma with_filter_one: "\<exists>p. with_filter w s [scan] = [p]"
  by (simp add: with_filter_def)

text \<open>The executor of a planned query.\<close>

definition query_executor :: "BoundSelectStmt \<Rightarrow> (BoundExpression \<times> str) list \<Rightarrow> schema \<Rightarrow> schema \<Rightarrow> executor" where
  "query_executor q es s out =
     (let proj = ProjectionExecutor es out (source (bs_where_clause q) (bs_table_name q) s)
      in if 0 \<le> sint (bs_limit q) \<or> 0 < sint (bs_offset q) then LimitExecutor (bs_limit q) (bs_offset q) proj else proj)"

lemma Create_query:
  assumes "PlanSelect q = Some p" "bs_table_name q \<noteq> []" "bs_table_schema q = Some s"
    "es = projection_list (bs_select_list q) (Some s)"
  shows "\<exists>out. projection_schema es = Some out \<and> Create p = Some (query_executor q es s out)"
proof -
  obtain f where f: "with_filter (bs_where_clause q) (Some s) [MakeSeqScan (bs_table_name q) (Some s)] = [f]"
    using with_filter_one by blast
  from assms show ?thesis
    by (auto simp: PlanSelect_def query_executor_def f Create_source [OF f] bind_eq_Some_conv Let_def)
qed

lemma limited_all: "\<not> (0 \<le> sint limit \<or> 0 < sint offset) \<Longrightarrow> limited limit offset xs = xs"
  by (simp add: limited_def)

lemma limited_map: "limited limit offset (map f xs) = map f (limited limit offset xs)"
  by (simp add: limited_def drop_map take_map Let_def)

lemma projection_rows:
  assumes "yields (Next (source w t s)) m (map as_row rows) m'" "projectable es s out rows"
  shows "\<exists>m1. yields (Next (ProjectionExecutor es out (source w t s))) (Flag_Below False (fst m), snd m)
    (map (\<lambda>r. (answer_row es s out r, None)) rows) m1 \<and> snd m1 = snd m'"
proof -
  have "\<forall>row \<in> set (map as_row rows). project_row es (Some s) out (fst row) \<noteq> None"
    using assms(2) by (auto simp: projectable_def as_row_def)
  from yields_projection [OF assms(1) this]
  have "yields (projection_next (Next (source w t s)) es (Some s) out) (fst m, snd m)
      (map (\<lambda>r. (answer_row es s out r, None)) rows) (fst m', snd m')"
    by (simp add: comp_def projected_def as_row_def answer_row_def)
  from projection_tree [OF this, of False] show ?thesis by auto
qed

lemma query_rows:
  assumes "yields (Next (source (bs_where_clause q) (bs_table_name q) s)) m (map as_row rows) m'" "projectable es s out rows"
    "Init (source (bs_where_clause q) (bs_table_name q) s) c = Some m"
    "keeps (\<lambda>m. Q (snd m)) (Next (source (bs_where_clause q) (bs_table_name q) s))" "Q (snd m)"
  shows "\<exists>m1 m2. Init (query_executor q es s out) c = Some m1 \<and> Q (snd m2) \<and>
    yields (Next (query_executor q es s out)) m1
      (map (\<lambda>r. (r, None)) (limited (bs_limit q) (bs_offset q) (map (answer_row es s out) rows))) m2"
proof -
  let ?src = "source (bs_where_clause q) (bs_table_name q) s"
  let ?proj = "ProjectionExecutor es out ?src"
  from projection_rows [OF assms(1,2)] obtain n where
    n: "yields (Next ?proj) (Flag_Below False (fst m), snd m) (map (\<lambda>r. (answer_row es s out r, None)) rows) n" "snd n = snd m'"
    by blast
  have init: "Init ?proj c = Some (Flag_Below False (fst m), snd m)" using assms(3) by (cases m) simp
  have keep: "keeps (\<lambda>m. Q (snd m)) (Next ?proj)"
    using keeps_projection [OF assms(4), of es "Some s" out] unfolding keeps_def
    by (fastforce split: exec_state.splits if_splits)
  show ?thesis
  proof (cases "0 \<le> sint (bs_limit q) \<or> 0 < sint (bs_offset q)")
    case False
    then have x: "query_executor q es s out = ?proj" by (simp add: query_executor_def)
    have "Q (snd n)" using keeps_reaches [OF assms(4) yields_reaches [OF assms(1)]] assms(5) n(2) by simp
    moreover have "Init (query_executor q es s out) c = Some (Flag_Below False (fst m), snd m)" using x init by (simp only:)
    moreover have "yields (Next (query_executor q es s out)) (Flag_Below False (fst m), snd m)
        (map (\<lambda>r. (r, None)) (limited (bs_limit q) (bs_offset q) (map (answer_row es s out) rows))) n"
      using n(1) by (simp only: x limited_all [OF False] map_map comp_def)
    ultimately show ?thesis by blast
  next
    case True
    then have x: "query_executor q es s out = LimitExecutor (bs_limit q) (bs_offset q) ?proj" by (simp add: query_executor_def)
    from yields_limit [OF n(1), of "bs_limit q" "bs_offset q"] obtain t where
      t: "yields (limit_next (Next ?proj) (bs_limit q) (bs_offset q)) (limit_start, (Flag_Below False (fst m), snd m))
          (limited (bs_limit q) (bs_offset q) (map (\<lambda>r. (answer_row es s out r, None)) rows)) t"
        "reaches (Next ?proj) (Flag_Below False (fst m), snd m) (snd t)" by blast
    obtain ls cs ctx where e: "t = (ls, (cs, ctx))" by (cases t)
    have "Q ctx" using keeps_reaches [OF keep t(2)] assms(5) e by simp
    moreover have "Init (query_executor q es s out) c = Some (Limit_State limit_start (Flag_Below False (fst m)), snd m)"
      using x assms(3) by (simp add: case_prod_unfold)
    moreover have "yields (Next (query_executor q es s out)) (Limit_State limit_start (Flag_Below False (fst m)), snd m)
      (map (\<lambda>r. (r, None)) (limited (bs_limit q) (bs_offset q) (map (answer_row es s out) rows))) (Limit_State ls cs, ctx)"
      using limit_tree [OF t(1) [unfolded e]] by (simp add: x limited_map comp_def)
    ultimately show ?thesis by fastforce
  qed
qed

lemma query_schema: "GetOutputSchema (query_executor q es s out) = Some (Some out)"
  by (simp add: query_executor_def Let_def)

lemma query_answer:
  assumes "table_open e (bs_table_name q) s heap" "heap_ready (eng_pool e) heap ps" "rows = heap_rows (view (eng_pool e)) ps"
    "evaluable (bs_where_clause q) s rows" "projectable es s out rows"
  shows "\<exists>m1 m2 k h e1. Init (query_executor q es s out) (start e) = Some m1 \<and>
    drain (Next (query_executor q es s out)) m1 = Some (m2, map (\<lambda>r. (r, None)) (answer q es s out (take k rows))) \<and>
    (k < length rows \<longrightarrow> refused (eng_pool e)) \<and> in_scan (eng_pool e) h e1 0 (snd m2)"
proof -
  let ?w = "bs_where_clause q" and ?t = "bs_table_name q"
  from source_law [OF assms(1-4)] obtain m m' k h e1 where
    src: "Init (source ?w ?t s) (start e) = Some m"
      "yields (Next (source ?w ?t s)) m (map as_row (filter (selected ?w s) (take k rows))) m'"
      "k < length rows \<longrightarrow> refused (eng_pool e)" "in_scan (eng_pool e) h e1 0 (snd m)" by blast
  have b0: "pool_inv {} {} (eng_pool e)" using assms(2) by (simp add: heap_ready_def)
  have p: "projectable es s out (filter (selected ?w s) (take k rows))"
    using assms(5) set_take_subset [of k rows] by (fastforce simp: projectable_def)
  from query_rows [OF src(2) p src(1) keeps_source [OF keeps_scan [OF b0]], of h e1 0] src(4) obtain m1 m2 where
    q: "Init (query_executor q es s out) (start e) = Some m1" "in_scan (eng_pool e) h e1 0 (snd m2)"
      "yields (Next (query_executor q es s out)) m1 (map (\<lambda>r. (r, None))
        (limited (bs_limit q) (bs_offset q) (map (answer_row es s out) (filter (selected ?w s) (take k rows))))) m2" by blast
  show ?thesis using q(1,2) drain_yields [OF q(3)] src(3) unfolding answer_def by blast
qed

section \<open>A concrete table\<close>

text \<open>A table \<open>t\<close> with a column \<open>a\<close> and one row, the value 5, and the query for the rows where \<open>a\<close> is 5.\<close>

definition scan_row :: "byte list" where "scan_row = [1, 0, 6, 0, 0, 5]"

definition scan_page :: page where "scan_page = inserted_page scan_row (Table_Page.Init demo_page_id)"

definition scan_schema :: schema where
  "scan_schema = [\<lparr>column_name = [97], column_type = TINYINT, max_length = 0, is_nullable = True, is_primary_key = False\<rparr>]"

definition scan_engine :: engine where
  "scan_engine = \<lparr>eng_catalog = fst (CreateTable [116] scan_schema [] demo_page_id Catalog), eng_heaps = (\<lambda>_. Some demo_heap), eng_pool = page_pool scan_page, eng_data_dir = []\<rparr>"

definition scan_query :: BoundSelectStmt where
  "scan_query = \<lparr>bs_select_list = [(BoundStar, [])], bs_is_distinct = False, bs_table_name = [116], bs_table_schema = Some scan_schema,
     bs_where_clause = BoundComparison (ascii ''='') (BoundColumnRef 0 TINYINT) (BoundConstant (VTinyInt 5)),
     bs_group_by = [], bs_having_clause = Null_Expression, bs_order_by = [], bs_limit = - 1, bs_offset = 0\<rparr>"

definition scan_list :: "(BoundExpression \<times> str) list" where
  "scan_list = [(BoundColumnRef 0 TINYINT, [97])]"

abbreviation scan_rows :: "(RID \<times> byte list) list" where
  "scan_rows \<equiv> [(RID demo_page_id 0, scan_row)]"

lemma scan_page_facts:
  "tp_wf scan_page" "GetSlotCount scan_page = 1" "tp_abs scan_page = [Some scan_row]" "Table_Page.GetNextPageId scan_page = INVALID_PAGE_ID"
  "live scan_page 0" "tuple_at scan_page 0 = scan_row"
proof -
  have f: "fits scan_row (Table_Page.Init demo_page_id)" by (rule fits_Init) (simp_all add: scan_row_def MAX_TUPLE_SIZE_def)
  show a: "tp_wf scan_page" "GetSlotCount scan_page = 1" "tp_abs scan_page = [Some scan_row]" "Table_Page.GetNextPageId scan_page = INVALID_PAGE_ID"
    "live scan_page 0"
    using f by (simp_all add: scan_page_def inserted_facts)
  have "tp_abs scan_page ! 0 = Some (tuple_at scan_page 0)" using a(1,2,5) by (simp add: nth_tp_abs tp_slot_def)
  then show "tuple_at scan_page 0 = scan_row" using a(3) by simp
qed

lemma scan_data:
  "GetValue scan_row (Some scan_schema) 0 = Some (VTinyInt 5)" "Deserialize scan_row = Some scan_row"
  "CreateFromValues [VTinyInt 5] (Some scan_schema) = Some scan_row"
  "projection_list (bs_select_list scan_query) (Some scan_schema) = scan_list"
proof -
  show "GetValue scan_row (Some scan_schema) 0 = Some (VTinyInt 5)"
    by (simp add: GetValue_def scan_row_def scan_schema_def null_bitmap_size_def data_read_def DeserializeValue_def)
  show "Deserialize scan_row = Some scan_row" by (simp add: Deserialize_def scan_row_def)
  have n: "null_bitmap [VTinyInt 5] = [0]" by code_simp
  have e: "le_enc 2 (Suc 0) = [1, 0]" "le_enc 2 6 = [6, 0]" "TypeIdSize TINYINT = 1" by code_simp+
  show "CreateFromValues [VTinyInt 5] (Some scan_schema) = Some scan_row"
    by (simp add: CreateFromValues_def scan_row_def scan_schema_def var_data_start_def null_bitmap_size_def
        n e fixed_bytes_def GetFixedSize_def Let_def SerializeTo_def)
  show "projection_list (bs_select_list scan_query) (Some scan_schema) = scan_list"
    by (simp add: projection_list_def scan_query_def scan_list_def scan_schema_def)
qed

lemma scan_out: "projection_schema scan_list = Some scan_schema"
  by (simp add: projection_schema_def scan_list_def output_column_def GetReturnType_def scan_schema_def)

lemma scan_heap:
  "heap_ready (eng_pool scan_engine) demo_heap [demo_page_id]"
  "heap_rows (view (eng_pool scan_engine)) [demo_page_id] = scan_rows"
  "table_open scan_engine [116] scan_schema demo_heap"
proof -
  have v: "view (eng_pool scan_engine) demo_page_id = Some scan_page" "pool_inv {} {} (eng_pool scan_engine)"
    by (simp_all add: scan_engine_def page_pool_facts)
  have r: "readable_page scan_page" using scan_page_facts(2,6) scan_data(2) by (simp add: readable_page_def)
  show "heap_ready (eng_pool scan_engine) demo_heap [demo_page_id]"
    using v r by (simp add: heap_ready_def readable_def demo_heap_def TableHeap_def scan_page_facts demo_page_id_valid)
  have "live_slots scan_page = [0]" using scan_page_facts(2,5) by (simp add: live_slots_def)
  then show "heap_rows (view (eng_pool scan_engine)) [demo_page_id] = scan_rows"
    using v(1) by (simp add: page_rows_def stored_row_def scan_page_facts(6) scan_data(2))
  show "table_open scan_engine [116] scan_schema demo_heap" 
    by (simp add: table_open_def scan_engine_def GetTable_def CreateTable_def Let_def Catalog_def GetOrCreateDefaultDB_def
        default_tables_def with_tables_def new_table_def NormalizeName_def DEFAULT_DATABASE_def)
qed

lemma scan_answer:
  "Evaluate (bs_where_clause scan_query) (Some scan_row) (Some scan_schema) = Some (VBoolean True)"
  "project_row scan_list (Some scan_schema) scan_schema scan_row = Some scan_row"
   by (simp_all add: scan_query_def scan_list_def project_row_def scan_data eval_comparison_def CoerceToCommonType_def
      numeric_less proper_def IsNumericType_def) (simp_all add: scan_schema_def)

text \<open>The pool of the example never refuses a page.\<close>

lemma scan_complete: "\<not> refused (eng_pool scan_engine)"
proof (rule not_refused)
  show "pool_inv {} {} (eng_pool scan_engine)" by (simp add: scan_engine_def page_pool_facts)
  show "ready (eng_pool scan_engine)"
    by (simp add: scan_engine_def page_pool_ready)
  show "0 < pool_size (eng_pool scan_engine)" "fr_pin_count (pages (eng_pool scan_engine) ! 0) = 0"
    by (simp_all add: scan_engine_def page_pool_def BufferPoolManager_def empty_frame_def numeral_2_eq_2)
qed

text \<open>C24: a query on an open table whose heap is in order returns, through the optimizer, the executor tree, the handler,
  the iterator and the pool, exactly the rows of the heap that its WHERE clause makes TRUE, projected by its select list
  and cut by LIMIT and OFFSET; when the pool refuses a page the scan ends there, without an error, and the answer is that
  for the rows before it. Afterwards the pool shows every page it showed before and holds the same pins.\<close>

theorem select_answers:
  assumes "Plan (Bound_Select q) = Some p" "bs_table_name q \<noteq> []" "bs_table_schema q = Some s"
    "table_open e (bs_table_name q) s heap" "heap_ready (eng_pool e) heap ps" "rows = heap_rows (view (eng_pool e)) ps"
    "es = projection_list (bs_select_list q) (Some s)" "projection_schema es = Some out"
    "evaluable (bs_where_clause q) s rows" "projectable es s out rows"
  shows "\<exists>r k. ExecutePlan (Optimize p) True e = Some r \<and> out_rows r = answer q es s out (take k rows) \<and>
    (k < length rows \<longrightarrow> refused (eng_pool e)) \<and> out_schema r = Some out \<and> out_affected r = 0 \<and>
    pool_inv {} {} (eng_pool (out_engine r)) \<and> view_le (eng_pool e) (eng_pool (out_engine r)) \<and>
    pins (eng_pool (out_engine r)) = pins (eng_pool e)"
proof -
  have plan: "PlanSelect q = Some p" using assms(1) by (simp add: Plan_def)
  from Create_query [OF plan assms(2,3,7)] assms(8) have x: "Create (Optimize p) = Some (query_executor q es s out)"
    using Optimize_planned [OF assms(1)] by simp
  from query_answer [OF assms(4-6,9,10)] obtain m1 m2 k h e1 where
    m: "Init (query_executor q es s out) (start e) = Some m1"
      "drain (Next (query_executor q es s out)) m1 = Some (m2, map (\<lambda>r. (r, None)) (answer q es s out (take k rows)))"
      "k < length rows \<longrightarrow> refused (eng_pool e)" "in_scan (eng_pool e) h e1 0 (snd m2)" by blast
  have b0: "pool_inv {} {} (eng_pool e)" using assms(5) by (simp add: heap_ready_def)
  have run: "run_executor (query_executor q es s out) True m1 = Some (snd m2, answer q es s out (take k rows))"
    by (simp add: run_executor_def m(2) comp_def del: Next.simps)
  have "ExecutePlan (Optimize p) True e = Some \<lparr>out_engine = snd (close_table (ctx_store (snd m2))), out_schema = Some out,
      out_rows = answer q es s out (take k rows), out_affected = ctx_affected (snd m2)\<rparr>"
    unfolding ExecutePlan_def x bind.simps m(1) query_schema using run by (cases m1) (simp only: prod.case bind.simps)
  then show ?thesis using m(3) close_scan [OF m(4) b0] by (intro exI [of _ k] exI conjI) (assumption | simp)+
qed

theorem select_answers_witness:
  "\<exists>p r. Plan (Bound_Select scan_query) = Some p \<and> ExecutePlan (Optimize p) True scan_engine = Some r \<and>
    out_rows r = [scan_row]"
proof -
  obtain p where p: "Plan (Bound_Select scan_query) = Some p"
    using scan_data(4) scan_out by (auto simp: Plan_def PlanSelect_def Let_def scan_query_def)
  have q: "bs_table_name scan_query = [116]" "bs_table_schema scan_query = Some scan_schema"
    by (simp_all add: scan_query_def)
  have e: "evaluable (bs_where_clause scan_query) scan_schema scan_rows" "projectable scan_list scan_schema scan_schema scan_rows"
    by (simp_all add: evaluable_def projectable_def scan_answer)
  have "answer scan_query scan_list scan_schema scan_schema scan_rows = [scan_row]"
    by (simp add: answer_def answer_row_def selected_def scan_answer) (simp add: limited_def scan_query_def)
  then show ?thesis
    using p scan_complete select_answers [OF p _ q(2) scan_heap(3) [folded q(1)] scan_heap(1) scan_heap(2) [symmetric] scan_data(4) [symmetric] scan_out e]
      q(1) by fastforce
qed

end
