(* ===== verification/Advanced_Props.thy ===== *)
theory Advanced_Props
  imports Executor_Props Advanced_Executors "HOL-Library.Multiset"
begin

text \<open>
  Correctness of the operators that collect rows: sorting and top-n, the nested-loop join and aggregation.
\<close>

section \<open>The order of values and of keys\<close>

text \<open>\<open>value_less b a = Some False\<close> is the total preorder behind \<open>operator<\<close>, within a comparable class.\<close>

definition value_le :: "Value \<Rightarrow> Value \<Rightarrow> bool" where
  "value_le a b \<longleftrightarrow> value_less b a = Some False"

lemma value_less_defined: "value_less a b \<noteq> None \<longleftrightarrow> value_less b a \<noteq> None"
  by (cases a; cases b) (simp_all add: value_less_def GetTypeId_def IsNumericType_def)

lemma numeric_class: "value_less a b \<noteq> None \<Longrightarrow> IsNumericType (GetTypeId a) \<longleftrightarrow> IsNumericType (GetTypeId b)"
  by (cases a; cases b) (simp_all add: value_less_def GetTypeId_def IsNumericType_def)

lemma str_le_trans: "\<not> str_less b a \<Longrightarrow> \<not> str_less c b \<Longrightarrow> \<not> str_less c a"
  using str_less_total str_less_trans by blast

lemma value_le_trans:
  assumes "proper a" "proper b" "proper c" "value_le a b" "value_le b c"
  shows "value_le a c"
proof (cases "IsNumericType (GetTypeId a)")
  case True
  then have "IsNumericType (GetTypeId b)" "IsNumericType (GetTypeId c)"
    using assms(4,5) numeric_class unfolding value_le_def by (metis option.distinct(1))+
  then show ?thesis using assms True by (auto simp: value_le_def numeric_less)
next
  case False
  from False assms(4) consider "a = VInvalid" "b = VInvalid" | x y where "a = VBoolean x" "b = VBoolean y" |
    x y where "a = VTimestamp x" "b = VTimestamp y" | x y where "a = VVarchar x" "b = VVarchar y"
    by (cases a; cases b) (simp_all add: value_le_def value_defs)
  then show ?thesis
  proof cases
    case (4 x y)
    with assms(4,5) obtain z where "c = VVarchar z" by (cases c) (simp_all add: value_le_def value_defs)
    then show ?thesis using assms(4,5) 4 str_le_trans [of y x] by (simp add: value_le_def value_defs)
  qed (use assms(4,5) in \<open>cases c; simp add: value_le_def value_defs; linarith?; blast?\<close>)+
qed

lemma value_less_asym:
  assumes "proper a" "proper b" "value_less a b = Some True"
  shows "value_less b a = Some False"
proof -
  have "value_less b a \<noteq> Some True"
    using value_order [of b a b] value_order [of a b a] assms by metis
  moreover have "value_less b a \<noteq> None" using assms(3) value_less_defined [of a b] by simp
  ultimately show ?thesis by auto
qed

abbreviation key_le :: "bool list \<Rightarrow> Value list \<Rightarrow> Value list \<Rightarrow> bool" where
  "key_le ascs a b \<equiv> key_less ascs b a = Some False"

lemma key_le_Cons:
  assumes "proper a" "proper b"
  shows "key_le (asc # ascs) (a # as) (b # bs) \<longleftrightarrow>
    (if asc then value_le a b \<and> (value_le b a \<longrightarrow> key_le ascs as bs)
     else value_le b a \<and> (value_le a b \<longrightarrow> key_le ascs as bs))"
  using value_less_asym [OF assms] value_less_asym [OF assms(2,1)] value_less_defined [of a b]
  by (cases "value_less b a"; cases "value_less a b") (auto simp: value_le_def)

lemma key_le_trans:
  "length ascs = length as \<Longrightarrow> length as = length bs \<Longrightarrow> length bs = length cs \<Longrightarrow>
   \<forall>v \<in> set as \<union> set bs \<union> set cs. proper v \<Longrightarrow> key_le ascs as bs \<Longrightarrow> key_le ascs bs cs \<Longrightarrow> key_le ascs as cs"
proof (induction ascs as bs cs rule: list_induct4)
  case (Cons asc ascs a as b bs c cs)
  then have p: "proper a" "proper b" "proper c" by auto
  note tr = value_le_trans [OF p(1) p(2) p(3)] value_le_trans [OF p(3) p(2) p(1)] value_le_trans [OF p(2) p(1) p(3)]
    value_le_trans [OF p(2) p(3) p(1)] value_le_trans [OF p(1) p(3) p(2)] value_le_trans [OF p(3) p(1) p(2)]
  from Cons.prems Cons.IH show ?case
    by (simp add: key_le_Cons p del: key_less.simps split: if_splits) (use tr in blast)+
qed simp

lemma key_less_asym:
  "length ascs = length as \<Longrightarrow> length as = length bs \<Longrightarrow> \<forall>v \<in> set as \<union> set bs. proper v \<Longrightarrow>
   key_less ascs as bs = Some True \<Longrightarrow> key_le ascs as bs"
proof (induction ascs as bs rule: list_induct3)
  case (Cons asc ascs a as b bs)
  then have p: "proper a" "proper b" by auto
  from Cons show ?case using value_less_asym [OF p] value_less_asym [OF p(2,1)]
    by (cases "value_less a b"; cases "value_less b a") (auto split: if_splits)
qed simp

section \<open>Sorting\<close>

lemma insert_entry_mset: "insert_entry lt x ys = Some zs \<Longrightarrow> mset zs = add_mset x (mset ys)"
  by (induction ys arbitrary: zs) (auto simp: bind_eq_Some_conv split: if_splits)

lemma std_sort_mset: "std_sort lt xs = Some ys \<Longrightarrow> mset ys = mset xs"
  by (induction xs arbitrary: ys) (auto simp: bind_eq_Some_conv dest: insert_entry_mset)

lemma insert_entry_set: "insert_entry lt x ys = Some zs \<Longrightarrow> set zs = insert x (set ys)"
  by (drule insert_entry_mset) (metis set_mset_add_mset_insert set_mset_mset)

lemma insert_entry_sorted:
  assumes "\<And>a b. a \<in> A \<Longrightarrow> b \<in> A \<Longrightarrow> lt a b = Some True \<Longrightarrow> lt b a = Some False"
    "\<And>a b c. a \<in> A \<Longrightarrow> b \<in> A \<Longrightarrow> c \<in> A \<Longrightarrow> lt b a = Some False \<Longrightarrow> lt c b = Some False \<Longrightarrow> lt c a = Some False"
    "insert_entry lt x ys = Some zs" "x \<in> A" "set ys \<subseteq> A" "sorted_wrt (\<lambda>a b. lt b a = Some False) ys"
  shows "sorted_wrt (\<lambda>a b. lt b a = Some False) zs"
  using assms(3,5,6)
proof (induction ys arbitrary: zs)
  case (Cons y ys)
  then have y: "y \<in> A" by simp
  from Cons.prems(1) obtain less where l: "lt y x = Some less" by (auto simp: bind_eq_Some_conv)
  show ?case
  proof (cases less)
    case True
    with Cons.prems(1) l obtain zs' where z: "insert_entry lt x ys = Some zs'" "zs = y # zs'" by auto
    have "lt x y = Some False" using assms(1) [OF y assms(4)] l True by simp
    moreover have "sorted_wrt (\<lambda>a b. lt b a = Some False) zs'" using Cons.IH [OF z(1)] Cons.prems by simp
    ultimately show ?thesis using Cons.prems(3) insert_entry_set [OF z(1)] z(2) by simp
  next
    case False
    have "lt z x = Some False" if "z \<in> set ys" for z
      using assms(2) [OF assms(4) y, of z] Cons.prems(2,3) l False that by auto
    moreover have "zs = x # y # ys" using Cons.prems(1) l False by simp
    ultimately show ?thesis using Cons.prems(3) l False by simp
  qed
qed simp

lemma std_sort_sorted:
  assumes "\<And>a b. a \<in> A \<Longrightarrow> b \<in> A \<Longrightarrow> lt a b = Some True \<Longrightarrow> lt b a = Some False"
    "\<And>a b c. a \<in> A \<Longrightarrow> b \<in> A \<Longrightarrow> c \<in> A \<Longrightarrow> lt b a = Some False \<Longrightarrow> lt c b = Some False \<Longrightarrow> lt c a = Some False"
    "set xs \<subseteq> A" "std_sort lt xs = Some ys"
  shows "sorted_wrt (\<lambda>a b. lt b a = Some False) ys"
  using assms(3,4)
proof (induction xs arbitrary: ys)
  case (Cons x xs)
  then obtain zs where z: "std_sort lt xs = Some zs" "insert_entry lt x zs = Some ys" by (auto simp: bind_eq_Some_conv)
  have "set zs = set xs" using std_sort_mset [OF z(1)] by (metis set_mset_mset)
  then have "set zs \<subseteq> A" "x \<in> A" "sorted_wrt (\<lambda>a b. lt b a = Some False) zs" using Cons z(1) by simp_all
  then show ?case by (intro insert_entry_sorted [OF assms(1,2) z(2)])
qed simp

lemma those_map_length: "those (map f xs) = Some ys \<Longrightarrow> length ys = length xs \<and> (\<forall>i < length xs. f (xs ! i) = Some (ys ! i))"
proof (induction xs arbitrary: ys)
  case (Cons x xs)
  then obtain y zs where "f x = Some y" "those (map f xs) = Some zs" "ys = y # zs" by (auto split: option.splits)
  then show ?case using Cons.IH by (auto simp: nth_Cons split: nat.splits)
qed simp

text \<open>The entries in the order of ORDER BY; every row is there once.\<close>

definition ordered_entries :: "bool list \<Rightarrow> entry list \<Rightarrow> bool" where
  "ordered_entries ascs es \<longleftrightarrow> sorted_wrt (\<lambda>a b. key_le ascs (fst a) (fst b)) es"

lemma sort_entries_law:
  assumes "sort_entries obs s rows = Some es"
    "\<forall>row \<in> set rows. \<forall>keys. sort_keys obs s (fst row) = Some keys \<longrightarrow> (\<forall>v \<in> set keys. proper v)"
  shows "mset (map snd es) = mset (map fst rows) \<and> ordered_entries (map snd obs) es \<and>
    (\<forall>e \<in> set es. sort_keys obs s (snd e) = Some (fst e))"
proof -
  let ?lt = "\<lambda>a b :: entry. key_less (map snd obs) (fst a) (fst b)"
  from assms(1) obtain keys where k: "those (map (\<lambda>row. sort_keys obs s (fst row)) rows) = Some keys"
    "std_sort ?lt (zip keys (map fst rows)) = Some es" by (auto simp: sort_entries_def bind_eq_Some_conv)
  note kl = those_map_length [OF k(1)]
  have m: "mset es = mset (zip keys (map fst rows))" by (rule std_sort_mset [OF k(2)])
  let ?A = "{e. sort_keys obs s (snd e) = Some (fst e) \<and> length (fst e) = length obs \<and> (\<forall>v \<in> set (fst e). proper v)}"
  have sub: "set (zip keys (map fst rows)) \<subseteq> ?A"
  proof
    fix e assume "e \<in> set (zip keys (map fst rows))"
    then obtain i where i: "i < length rows" "e = (keys ! i, fst (rows ! i))" using kl by (auto simp: set_zip)
    then have "sort_keys obs s (fst (rows ! i)) = Some (keys ! i)" using kl by simp
    moreover from this have "length (keys ! i) = length obs" unfolding sort_keys_def by (drule_tac those_map_length) simp
    ultimately show "e \<in> ?A" using i bspec [OF assms(2), of "rows ! i"] by simp
  qed
  have "sorted_wrt (\<lambda>a b. ?lt b a = Some False) es"
  proof (rule std_sort_sorted [OF _ _ sub k(2)])
    fix a b c assume "a \<in> ?A" "b \<in> ?A" "c \<in> ?A" "?lt b a = Some False" "?lt c b = Some False"
    then show "?lt c a = Some False" using key_le_trans [of "map snd obs" "fst a" "fst b" "fst c"] by auto
  next
    fix a b assume "a \<in> ?A" "b \<in> ?A" "?lt a b = Some True"
    then show "?lt b a = Some False" using key_less_asym [of "map snd obs" "fst a" "fst b"] by auto
  qed
  moreover have "mset (map snd es) = mset (map fst rows)"
  proof -
    have "map snd (zip keys (map fst rows)) = map fst rows" using kl by simp
    moreover have "mset (map snd es) = mset (map snd (zip keys (map fst rows)))" unfolding mset_map m ..
    ultimately show ?thesis by (simp only:)
  qed
  moreover have "set es \<subseteq> ?A" using sub mset_eq_setD [OF m] by simp
  then have "\<forall>e \<in> set es. sort_keys obs s (snd e) = Some (fst e)" by blast
  ultimately show ?thesis by (simp add: ordered_entries_def)
qed

section \<open>Sort and top-n as operators\<close>

lemma emit_yields:
  "yields (collected_next prep nx) (\<lparr>entries = Some es, sort_pos = pos\<rparr>, s) (map (\<lambda>e. (snd e, None)) (drop pos es))
     (\<lparr>entries = Some es, sort_pos = max pos (length es)\<rparr>, s)"
proof (induction "length es - pos" arbitrary: pos)
  case 0
  then show ?case by (auto intro!: yields.stop simp: collected_next_def emit_entry_def max_def)
next
  case (Suc n)
  then have lt: "pos < length es" by simp
  have step: "collected_next prep nx (\<lparr>entries = Some es, sort_pos = pos\<rparr>, s) =
      Some ((\<lparr>entries = Some es, sort_pos = Suc pos\<rparr>, s), Some (snd (es ! pos), None))"
    using lt by (simp add: collected_next_def emit_entry_def)
  have "max (Suc pos) (length es) = max pos (length es)" using lt by simp
  with yields.row [where nx = "collected_next prep nx", OF step] Suc.hyps(1) [of "Suc pos"] Suc.hyps(2) show ?case
    using lt by (simp add: Cons_nth_drop_Suc [symmetric])
qed

lemma collected_yields:
  assumes "yields nx s rows s'" "prep rows = Some es"
  shows "\<exists>t. yields (collected_next prep nx) (sort_start, s) (map (\<lambda>e. (snd e, None)) es) (t, s')"
proof -
  have "collected_next prep nx (sort_start, s) = collected_next prep nx (\<lparr>entries = Some es, sort_pos = 0\<rparr>, s')"
    using drain_yields [OF assms(1)] assms(2)
    by (auto simp: collected_next_def sort_start_def emit_entry_def split: prod.splits)
  from yields_same_next [where nx = "collected_next prep nx", OF this emit_yields] show ?thesis by auto
qed

text \<open>a sort returns every row of its child once, in the order of ORDER BY: the rows come with keys that are sorted
  (in the order of the first key, ascending or descending, then of the second and so on).\<close>

theorem sort_orders_rows:
  assumes "yields nx s rows s'" "sort_entries obs sch rows = Some es"
    "\<forall>row \<in> set rows. \<forall>keys. sort_keys obs sch (fst row) = Some keys \<longrightarrow> (\<forall>v \<in> set keys. proper v)"
  shows "\<exists>out t keys. yields (sort_next nx obs sch) (sort_start, s) out t \<and> mset (map fst out) = mset (map fst rows) \<and>
    map (\<lambda>row. sort_keys obs sch (fst row)) out = map Some keys \<and> sorted_wrt (\<lambda>a b. key_less (map snd obs) b a = Some False) keys"
proof -
  from collected_yields [OF assms(1), of "sort_entries obs sch", OF assms(2)] obtain t where
    y: "yields (sort_next nx obs sch) (sort_start, s) (map (\<lambda>e. (snd e, None)) es) (t, s')"
    unfolding sort_next_def by blast
  note law = sort_entries_law [OF assms(2,3)]
  from law have e: "mset (map snd es) = mset (map fst rows)" "ordered_entries (map snd obs) es"
    "\<forall>e \<in> set es. sort_keys obs sch (snd e) = Some (fst e)" by blast+
  have "mset (map fst (map (\<lambda>e. (snd e, None :: RID option)) es)) = mset (map fst rows)" using e(1) by (simp add: comp_def)
  moreover have "map (\<lambda>row. sort_keys obs sch (fst row)) (map (\<lambda>e. (snd e, None :: RID option)) es) = map Some (map fst es)"
    using e(3) by simp
  moreover have "sorted_wrt (\<lambda>a b. key_less (map snd obs) b a = Some False) (map fst es)"
    using e(2) by (simp add: ordered_entries_def sorted_wrt_map)
  ultimately show ?thesis using y by blast
qed

lemma sort_entries_length:
  assumes "sort_entries obs sch rows = Some es"
  shows "length es = length rows"
proof -
  obtain keys where "those (map (\<lambda>row. sort_keys obs sch (fst row)) rows) = Some keys"
    "std_sort (\<lambda>a b. key_less (map snd obs) (fst a) (fst b)) (zip keys (map fst rows)) = Some es"
    using assms by (auto simp: sort_entries_def bind_eq_Some_conv)
  from those_map_length [OF this(1)] arg_cong [OF std_sort_mset [OF this(2)], of size] show ?thesis by simp
qed

text \<open>replacing a limit over a sort by a top-n is correct exactly without an offset and with a positive limit, or none:
  for limit 0 the top-n returns every row, and it knows no offset.\<close>

theorem topn_is_limited_sort:
  assumes "yields nx s rows s'" "sort_entries obs sch rows = Some es"
  shows "\<exists>out out' t t'. yields (limit_next (sort_next nx obs sch) limit offset) (limit_start, (sort_start, s)) out t \<and>
    yields (topn_next nx obs limit sch) (sort_start, s) out' t' \<and>
    out = map (\<lambda>e. (snd e, None)) (limited limit offset es) \<and>
    (sint offset \<le> 0 \<and> limit \<noteq> 0 \<longrightarrow> out' = out) \<and> (limit = 0 \<longrightarrow> out = [] \<and> length out' = length rows)"
proof -
  from collected_yields [OF assms(1), of "sort_entries obs sch", OF assms(2)] obtain t where
    "yields (sort_next nx obs sch) (sort_start, s) (map (\<lambda>e. (snd e, None)) es) (t, s')"
    unfolding sort_next_def by blast
  from yields_limit [OF this, of limit offset] obtain t1 where
    l: "yields (limit_next (sort_next nx obs sch) limit offset) (limit_start, (sort_start, s))
      (limited limit offset (map (\<lambda>e. (snd e, None)) es)) t1" by blast
  from collected_yields [OF assms(1), of "\<lambda>rows. map_option (cut_entries limit) (sort_entries obs sch rows)"] assms(2) obtain t2 where
    n: "yields (topn_next nx obs limit sch) (sort_start, s) (map (\<lambda>e. (snd e, None)) (cut_entries limit es)) (t2, s')"
    unfolding topn_next_def by fastforce
  have len: "length es = length rows" by (rule sort_entries_length [OF assms(2)])
  have "sint limit = 0 \<Longrightarrow> limit = 0" by (metis signed_word_eqI sint_0)
  then have "sint offset \<le> 0 \<Longrightarrow> limit \<noteq> 0 \<Longrightarrow> cut_entries limit es = limited limit offset es"
    by (cases "0 < sint limit") (auto simp: cut_entries_def limited_def not_less)
  moreover have "limit = 0 \<Longrightarrow> limited limit offset es = [] \<and> cut_entries limit es = es"
    by (simp add: limited_def cut_entries_def)
  moreover have "limited limit offset (map (\<lambda>e. (snd e, None :: RID option)) es) = map (\<lambda>e. (snd e, None)) (limited limit offset es)"
    by (simp add: limited_def drop_map take_map Let_def)
  ultimately show ?thesis using l n len
    by (intro exI [of _ "map (\<lambda>e. (snd e, None)) (limited limit offset es)"] exI [of _ "map (\<lambda>e. (snd e, None)) (cut_entries limit es)"]
        exI [of _ t1] exI [of _ "(t2, s')"]) auto
qed

section \<open>Nested-loop join\<close>





















section \<open>Aggregation\<close>



lemma fold_value_count [simp]: "agg_count (fold_value name d g) = agg_count g"
  by (simp add: fold_value_def)













section \<open>Concrete runs\<close>

text \<open>A child that holds its rows, two rows with one TINYINT column, and the count of them.\<close>

fun list_next :: "row list pull" where
  "list_next [] = Some ([], None)"
| "list_next (r # rs) = Some (rs, Some r)"

lemma list_yields: "yields list_next rs rs []"
  by (induction rs) (auto intro: yields.intros)

definition tiny_schema :: schema where
  "tiny_schema = [\<lparr>column_name = [97], column_type = TINYINT, max_length = 0, is_nullable = True, is_primary_key = False\<rparr>]"

definition tiny_row :: "byte \<Rightarrow> byte list" where
  "tiny_row n = [1, 0, 6, 0, 0, n]"

definition tiny_rows :: "row list" where
  "tiny_rows = [(tiny_row 5, None), (tiny_row 3, None)]"

abbreviation tiny_order :: "(BoundExpression \<times> bool) list" where
  "tiny_order \<equiv> [(BoundColumnRef 0 TINYINT, True)]"

lemma tiny_value: "GetValue (tiny_row n) (Some tiny_schema) 0 = Some (VTinyInt n)"
  by (simp add: GetValue_def tiny_row_def tiny_schema_def null_bitmap_size_def data_read_def DeserializeValue_def)

lemma tiny_keys: "sort_keys tiny_order (Some tiny_schema) (tiny_row n) = Some [VTinyInt n]"
  using tiny_value [of n] by (simp add: sort_keys_def tiny_schema_def)

lemma tiny_sorted:
  "sort_entries tiny_order (Some tiny_schema) tiny_rows = Some [([VTinyInt 3], tiny_row 3), ([VTinyInt 5], tiny_row 5)]"
proof -
  have s: "f64_scaled (f64_of_int 3) = 3 * 2 ^ 1074" "f64_scaled (f64_of_int 5) = 5 * 2 ^ 1074" by (rule f64_scaled_of_int, simp)+
  have "0 < (2::int) ^ 1074" by (rule zero_less_power) simp
  then have "3 * 2 ^ 1074 < 5 * (2::int) ^ 1074" "\<not> 5 * 2 ^ 1074 < 3 * (2::int) ^ 1074" by linarith+
  then have "value_less (VTinyInt 3) (VTinyInt 5) = Some True" "value_less (VTinyInt 5) (VTinyInt 3) = Some False"
    by (simp_all add: numeric_less proper_def IsNumericType_def GetTypeId_def ToDouble_def s)
  then show ?thesis by (simp add: sort_entries_def tiny_rows_def tiny_keys)
qed

theorem sort_orders_rows_witness:
  "\<exists>out t keys. yields (sort_next list_next tiny_order (Some tiny_schema)) (sort_start, tiny_rows) out t \<and>
    mset (map fst out) = {# tiny_row 3, tiny_row 5 #} \<and>
    map (\<lambda>row. sort_keys tiny_order (Some tiny_schema) (fst row)) out = map Some keys \<and>
    sorted_wrt (\<lambda>a b. key_less [True] b a = Some False) keys"
proof -
  have "\<forall>row \<in> set tiny_rows. \<forall>keys. sort_keys tiny_order (Some tiny_schema) (fst row) = Some keys \<longrightarrow> (\<forall>v \<in> set keys. proper v)"
    by (simp add: tiny_rows_def tiny_keys proper_def)
  from sort_orders_rows [OF list_yields tiny_sorted this] obtain out t keys where
    "yields (sort_next list_next tiny_order (Some tiny_schema)) (sort_start, tiny_rows) out t" "mset (map fst out) = mset (map fst tiny_rows)"
    "map (\<lambda>row. sort_keys tiny_order (Some tiny_schema) (fst row)) out = map Some keys"
    "sorted_wrt (\<lambda>a b. key_less (map snd tiny_order) b a = Some False) keys" by blast
  moreover have "mset (map fst tiny_rows) = {# tiny_row 3, tiny_row 5 #}" by (simp add: tiny_rows_def)
  moreover have "map snd tiny_order = [True]" by simp
  ultimately show ?thesis by metis
qed

theorem topn_is_limited_sort_witness:
  "\<exists>out out' t t'. yields (limit_next (sort_next list_next tiny_order (Some tiny_schema)) 0 0) (limit_start, (sort_start, tiny_rows)) out t \<and>
    yields (topn_next list_next tiny_order 0 (Some tiny_schema)) (sort_start, tiny_rows) out' t' \<and> out = [] \<and> length out' = 2"
  using topn_is_limited_sort [OF list_yields tiny_sorted, of 0 0] by (fastforce simp: tiny_rows_def)













end
