(* ===== verification/Protocols.thy ===== *)
theory Protocols
  imports Tuples
begin

text \<open>
  The wire protocols (sql/protocol/): packet headers, the text protocol and the binary protocol behind the
  interface \<open>Protocol\<close>. A protocol object collects bytes in a buffer and writes them to a socket when it is
  flushed. What the socket does with a \<open>write\<close> is a script, one answer for each call; a script that has run
  out answers with an error.
\<close>

section \<open>Packet headers\<close>

definition kMaxPayloadLength :: nat where "kMaxPayloadLength = 16 * 1024 * 1024"

definition kOkPacketMarker :: byte where "kOkPacketMarker = 0x00"

definition kErrPacketMarker :: byte where "kErrPacketMarker = 0xFF"

definition kEofPacketMarker :: byte where "kEofPacketMarker = 0xFE"

definition ReadPacketLength :: "byte list \<Rightarrow> nat" where
  "ReadPacketLength header = le_dec (take 3 header)"

text \<open>The first three bytes of the header; the length is a \<open>uint32_t\<close>, of which the upper byte is dropped.\<close>

definition WritePacketLength :: "nat \<Rightarrow> byte list" where
  "WritePacketLength len = le_enc 3 (len mod 2 ^ 32)"

definition packet_header :: "nat \<Rightarrow> byte \<Rightarrow> byte list" where
  "packet_header len sequence_id = WritePacketLength len @ [sequence_id]"

section \<open>Writing to a socket\<close>

text \<open>\<open>Accepted n\<close>: the call takes \<open>n\<close> bytes, or all that are left; \<open>Interrupted\<close>: \<open>EINTR\<close> or \<open>EAGAIN\<close>.\<close>

datatype write_result = Accepted nat | Interrupted | Failed

text \<open>The loop of \<open>ProtocolText::Flush\<close> gives up at the first call that takes nothing.\<close>

fun send_loop :: "write_result list \<Rightarrow> byte list \<Rightarrow> byte list" where
  "send_loop script [] = []"
| "send_loop [] bytes = []"
| "send_loop (w # script) bytes =
     (case w of
        Accepted n \<Rightarrow> if n = 0 then [] else take n bytes @ send_loop script (drop n bytes)
      | _ \<Rightarrow> [])"

section \<open>Values on the wire\<close>

text \<open>What \<open>StoreNull\<close>, \<open>StoreInteger\<close>, \<open>StoreFloat\<close> and \<open>StoreString\<close> are given.\<close>

datatype field = Null_Field | Integer_Field i64 | Float_Field f64 | String_Field str

section \<open>Text protocol\<close>

record protocol_text =
  tx_fd :: int
  tx_buffer :: str
  tx_sequence_id :: byte
  tx_num_columns :: i32
  tx_column_count :: i32
  tx_in_row :: bool
  tx_first_in_row :: bool

definition ProtocolText :: protocol_text where
  "ProtocolText = \<lparr>tx_fd = - 1, tx_buffer = [], tx_sequence_id = 0, tx_num_columns = 0, tx_column_count = 0,
     tx_in_row = False, tx_first_in_row = True\<rparr>"

definition tx_append :: "str \<Rightarrow> protocol_text \<Rightarrow> protocol_text" where
  "tx_append s p = p\<lparr>tx_buffer := tx_buffer p @ s\<rparr>"

definition tx_SetWriteFd :: "int \<Rightarrow> protocol_text \<Rightarrow> protocol_text" where
  "tx_SetWriteFd fd p = p\<lparr>tx_fd := fd, tx_sequence_id := 0\<rparr>"

definition tx_StartResultMetadata :: "i32 \<Rightarrow> protocol_text \<Rightarrow> protocol_text" where
  "tx_StartResultMetadata n p =
     p\<lparr>tx_num_columns := n, tx_column_count := 0, tx_sequence_id := 0,
       tx_buffer := ascii ''Columns: '' @ show_nat (unat n) @ [10]\<rparr>"

definition tx_SendColumnDefinition :: "str \<Rightarrow> str \<Rightarrow> i32 \<Rightarrow> protocol_text \<Rightarrow> protocol_text" where
  "tx_SendColumnDefinition name type_name col_length p =
     (tx_append (ascii ''ColDef: '' @ name @ ascii '' '' @ type_name @ ascii '' '' @ show_nat (unat col_length) @ [10]) p)
       \<lparr>tx_column_count := tx_column_count p + 1\<rparr>"

definition tx_EndResultMetadata :: "protocol_text \<Rightarrow> protocol_text" where
  "tx_EndResultMetadata = tx_append (ascii ''#ROWS'' @ [10])"

definition tx_StartRow :: "protocol_text \<Rightarrow> protocol_text" where
  "tx_StartRow p = (tx_append (ascii ''Row: '') p)\<lparr>tx_in_row := True, tx_first_in_row := True\<rparr>"

text \<open>The characters of a string: tab, newline and backslash are escaped.\<close>

fun escape :: "str \<Rightarrow> str" where
  "escape [] = []"
| "escape (c # s) =
     (if c = 9 then [92, 116] else if c = 10 then [92, 110] else if c = 92 then [92, 92] else [c]) @ escape s"

definition field_text :: "field \<Rightarrow> str" where
  "field_text v =
     (case v of
        Null_Field \<Rightarrow> [92, 78]
      | Integer_Field n \<Rightarrow> show_int (sint n)
      | Float_Field x \<Rightarrow> show_f64 x
      | String_Field s \<Rightarrow> escape s)"

definition tx_Store :: "field \<Rightarrow> protocol_text \<Rightarrow> protocol_text" where
  "tx_Store v p = (tx_append ((if tx_first_in_row p then [] else [9]) @ field_text v) p)\<lparr>tx_first_in_row := False\<rparr>"

definition tx_EndRow :: "protocol_text \<Rightarrow> protocol_text" where
  "tx_EndRow p = (tx_append [10] p)\<lparr>tx_in_row := False\<rparr>"

definition tx_SendOk :: "i64 \<Rightarrow> i64 \<Rightarrow> str \<Rightarrow> protocol_text \<Rightarrow> protocol_text" where
  "tx_SendOk affected_rows last_insert_id info p =
     p\<lparr>tx_sequence_id := 0,
       tx_buffer := ascii ''OK '' @ show_nat (unat affected_rows) @ ascii '' '' @ show_nat (unat last_insert_id) @
         (if info = [] then [] else ascii '' '' @ info) @ [10]\<rparr>"

definition tx_SendError :: "i16 \<Rightarrow> str \<Rightarrow> str \<Rightarrow> protocol_text \<Rightarrow> protocol_text" where
  "tx_SendError error_code sql_state message p =
     p\<lparr>tx_sequence_id := 0,
       tx_buffer := ascii ''ERR '' @ show_nat (unat error_code) @ ascii '' '' @ sql_state @ ascii '' '' @ message @ [10]\<rparr>"

definition tx_SendEOF :: "protocol_text \<Rightarrow> protocol_text" where
  "tx_SendEOF = tx_append (ascii ''EOF'' @ [10])"

text \<open>\<open>Flush\<close>: the bytes that reach the socket.\<close>

definition tx_Flush :: "write_result list \<Rightarrow> protocol_text \<Rightarrow> protocol_text \<times> byte list" where
  "tx_Flush script p =
     (if tx_fd p < 0 \<or> tx_buffer p = [] then (p, [])
      else (p\<lparr>tx_buffer := [], tx_sequence_id := tx_sequence_id p + 1\<rparr>,
            send_loop script (packet_header (length (tx_buffer p)) (tx_sequence_id p) @ tx_buffer p)))"

section \<open>Binary protocol\<close>

record protocol_binary =
  bp_fd :: int
  bp_buffer :: "byte list"
  bp_sequence_id :: byte
  bp_num_columns :: i32
  bp_column_count :: i32
  bp_in_row :: bool
  bp_row_value_count :: i32

definition ProtocolBinary :: protocol_binary where
  "ProtocolBinary = \<lparr>bp_fd = - 1, bp_buffer = [], bp_sequence_id = 0, bp_num_columns = 0, bp_column_count = 0,
     bp_in_row = False, bp_row_value_count = 0\<rparr>"

definition bp_append :: "byte list \<Rightarrow> protocol_binary \<Rightarrow> protocol_binary" where
  "bp_append bs p = p\<lparr>bp_buffer := bp_buffer p @ bs\<rparr>"

definition bp_string :: "str \<Rightarrow> byte list" where
  "bp_string s = le_enc 2 (length s mod 65536) @ s"

text \<open>\<open>WriteLenEncoded\<close>, which nothing calls, and the shorter form in \<open>SendOk\<close>.\<close>

definition len_encoded :: "i64 \<Rightarrow> byte list" where
  "len_encoded val =
     (let n = unat val in
      if n < 251 then [word_of_nat n]
      else if n < 65536 then 0xFC # le_enc 2 n
      else if n < 16777216 then 0xFD # le_enc 3 n
      else 0xFE # le_enc 8 n)"

definition write_lenenc :: "i64 \<Rightarrow> byte list" where
  "write_lenenc val =
     (let n = unat val in
      if n < 251 then [word_of_nat n]
      else if n < 65536 then 0xFC # le_enc 2 n
      else 0xFE # le_enc 8 n)"

definition bp_WritePacket :: "byte list \<Rightarrow> protocol_binary \<Rightarrow> protocol_binary" where
  "bp_WritePacket data p =
     (bp_append (packet_header (length data) (bp_sequence_id p) @ data) p)\<lparr>bp_sequence_id := bp_sequence_id p + 1\<rparr>"

definition bp_SetWriteFd :: "int \<Rightarrow> protocol_binary \<Rightarrow> protocol_binary" where
  "bp_SetWriteFd fd p = p\<lparr>bp_fd := fd, bp_sequence_id := 0\<rparr>"

definition bp_StartResultMetadata :: "i32 \<Rightarrow> protocol_binary \<Rightarrow> protocol_binary" where
  "bp_StartResultMetadata n p =
     p\<lparr>bp_num_columns := n, bp_column_count := 0, bp_sequence_id := 0, bp_buffer := enc_word n\<rparr>"

definition bp_SendColumnDefinition :: "str \<Rightarrow> str \<Rightarrow> protocol_binary \<Rightarrow> protocol_binary" where
  "bp_SendColumnDefinition name type_name p =
     (bp_append (bp_string name @ bp_string type_name) p)\<lparr>bp_column_count := bp_column_count p + 1\<rparr>"

definition bp_StartRow :: "protocol_binary \<Rightarrow> protocol_binary" where
  "bp_StartRow p = p\<lparr>bp_in_row := True, bp_row_value_count := 0\<rparr>"

definition field_bytes :: "field \<Rightarrow> byte list" where
  "field_bytes v =
     (case v of
        Null_Field \<Rightarrow> [0]
      | Integer_Field n \<Rightarrow> 1 # enc_word n
      | Float_Field x \<Rightarrow> 2 # enc_word x
      | String_Field s \<Rightarrow> 3 # bp_string s)"

definition bp_Store :: "field \<Rightarrow> protocol_binary \<Rightarrow> protocol_binary" where
  "bp_Store v p = (bp_append (field_bytes v) p)\<lparr>bp_row_value_count := bp_row_value_count p + 1\<rparr>"

definition bp_EndRow :: "protocol_binary \<Rightarrow> protocol_binary" where
  "bp_EndRow p = p\<lparr>bp_in_row := False\<rparr>"

definition bp_SendOk :: "i64 \<Rightarrow> i64 \<Rightarrow> str \<Rightarrow> protocol_binary \<Rightarrow> protocol_binary" where
  "bp_SendOk affected_rows last_insert_id info p =
     bp_WritePacket (kOkPacketMarker # write_lenenc affected_rows @ write_lenenc last_insert_id @ [0, 0, 0, 0] @ info)
       (p\<lparr>bp_sequence_id := 0\<rparr>)"

text \<open>The error code is written to the buffer before the packet, not into it.\<close>

definition bp_SendError :: "i16 \<Rightarrow> str \<Rightarrow> str \<Rightarrow> protocol_binary \<Rightarrow> protocol_binary" where
  "bp_SendError error_code sql_state message p =
     (let head = kErrPacketMarker # 35 # take 5 sql_state;
          payload = head @ replicate (9 - length head) 32 @ message
      in bp_WritePacket payload (bp_append (enc_word error_code) (p\<lparr>bp_sequence_id := 0\<rparr>)))"

definition bp_SendEOF :: "protocol_binary \<Rightarrow> protocol_binary" where
  "bp_SendEOF p = bp_WritePacket [kEofPacketMarker] (p\<lparr>bp_sequence_id := 0\<rparr>)"

text \<open>One call of \<open>write\<close>; what it does not take is lost.\<close>

definition bp_Flush :: "write_result \<Rightarrow> protocol_binary \<Rightarrow> protocol_binary \<times> byte list" where
  "bp_Flush w p =
     (if bp_fd p < 0 \<or> bp_buffer p = [] then (p, [])
      else (p\<lparr>bp_buffer := []\<rparr>, case w of Accepted n \<Rightarrow> take n (bp_buffer p) | _ \<Rightarrow> []))"

end
