(* ===== verification/Connections.thy ===== *)
theory Connections
  imports Protocols
begin

text \<open>
  A client connection (sql/network/connection.h and .cpp): the packets on its socket, its state and its
  statistics; and what the connection handler (sql/server/connection_handler.cpp) reads from and writes to
  it. What the socket has to read is a script: chunks of bytes as \<open>read\<close> can return them, interruptions and
  errors; at its end the peer has closed.
\<close>

datatype read_event = Chunk "byte list" | Read_Interrupted | Read_Failed

datatype conn_state = INIT | AUTH | READY | QUERYING | SENDING | CLOSING

record net_statistics =
  total_bytes_sent :: i64
  total_bytes_received :: i64
  total_connections :: i64
  active_connections :: i64

record connection =
  cn_fd :: int
  cn_remote_addr :: str
  cn_remote_port :: i16
  cn_state :: conn_state
  cn_authenticated :: bool
  cn_user :: str
  cn_db :: str
  cn_bytes_sent :: i64
  cn_bytes_received :: i64

definition Connection :: "int \<Rightarrow> str \<Rightarrow> i16 \<Rightarrow> net_statistics \<Rightarrow> connection \<times> net_statistics" where
  "Connection fd addr port g =
     (\<lparr>cn_fd = fd, cn_remote_addr = addr, cn_remote_port = port, cn_state = INIT, cn_authenticated = False, cn_user = [],
       cn_db = [], cn_bytes_sent = 0, cn_bytes_received = 0\<rparr>,
      g\<lparr>total_connections := total_connections g + 1, active_connections := active_connections g + 1\<rparr>)"

definition cn_Close :: "connection \<times> net_statistics \<Rightarrow> connection \<times> net_statistics" where
  "cn_Close cg =
     (let (c, g) = cg in
      if 0 \<le> cn_fd c then (c\<lparr>cn_fd := - 1, cn_state := CLOSING\<rparr>, g\<lparr>active_connections := active_connections g - 1\<rparr>)
      else (c\<lparr>cn_state := CLOSING\<rparr>, g))"

section \<open>Reading packets\<close>

text \<open>The loop that reads \<open>n\<close> bytes: the bytes, if they came, and what is left of the script.\<close>

fun read_loop :: "nat \<Rightarrow> read_event list \<Rightarrow> byte list option \<times> read_event list" where
  "read_loop 0 es = (Some [], es)"
| "read_loop (Suc n) [] = (None, [])"
| "read_loop (Suc n) (Read_Interrupted # es) = read_loop (Suc n) es"
| "read_loop (Suc n) (Read_Failed # es) = (None, es)"
| "read_loop (Suc n) (Chunk bs # es) =
     (if bs = [] then (None, es)
      else if Suc n < length bs then (Some (take (Suc n) bs), Chunk (drop (Suc n) bs) # es)
      else let (r, es) = read_loop (Suc n - length bs) es in (map_option ((@) bs) r, es))"

definition count_received :: "nat \<Rightarrow> connection \<times> net_statistics \<Rightarrow> connection \<times> net_statistics" where
  "count_received n cg =
     (let (c, g) = cg in
      (c\<lparr>cn_bytes_received := cn_bytes_received c + of_nat n\<rparr>, g\<lparr>total_bytes_received := total_bytes_received g + of_nat n\<rparr>))"

definition cn_ReadPacket ::
  "read_event list \<Rightarrow> connection \<times> net_statistics \<Rightarrow> byte list option \<times> read_event list \<times> (connection \<times> net_statistics)" where
  "cn_ReadPacket es cg =
     (if cn_fd (fst cg) < 0 then (None, es, cg)
      else
        case read_loop 4 es of
          (None, es) \<Rightarrow> (None, es, cg)
        | (Some header, es) \<Rightarrow>
            let cg = count_received 4 cg; payload_len = ReadPacketLength header in
            if kMaxPayloadLength < payload_len then (None, es, cg)
            else
              case read_loop payload_len es of
                (None, es) \<Rightarrow> (None, es, cg)
              | (Some payload, es) \<Rightarrow> (Some payload, es, count_received payload_len cg))"

section \<open>Writing packets\<close>

text \<open>The loop that writes all bytes, trying again when it is interrupted: the bytes taken, whether these are all, and
  what is left of the script.\<close>

fun write_loop :: "write_result list \<Rightarrow> byte list \<Rightarrow> byte list \<times> bool \<times> write_result list" where
  "write_loop script [] = ([], True, script)"
| "write_loop [] bytes = ([], False, [])"
| "write_loop (w # script) bytes =
     (case w of
        Accepted n \<Rightarrow>
          if n = 0 then ([], False, script)
          else let (sent, ok, script) = write_loop script (drop n bytes) in (take n bytes @ sent, ok, script)
      | Interrupted \<Rightarrow> write_loop script bytes
      | Failed \<Rightarrow> ([], False, script))"

definition count_sent :: "nat \<Rightarrow> connection \<times> net_statistics \<Rightarrow> connection \<times> net_statistics" where
  "count_sent n cg =
     (let (c, g) = cg in
      (c\<lparr>cn_bytes_sent := cn_bytes_sent c + of_nat n\<rparr>, g\<lparr>total_bytes_sent := total_bytes_sent g + of_nat n\<rparr>))"

definition cn_WritePacket ::
  "write_result list \<Rightarrow> byte list \<Rightarrow> connection \<times> net_statistics \<Rightarrow> (byte list \<times> bool) \<times> write_result list \<times> (connection \<times> net_statistics)" where
  "cn_WritePacket script data cg =
     (if cn_fd (fst cg) < 0 then (([], False), script, cg)
      else
        case write_loop script (packet_header (length data) 0) of
          (sent, False, script) \<Rightarrow> ((sent, False), script, cg)
        | (sent, True, script) \<Rightarrow>
            let cg = count_sent 4 cg in
            case write_loop script data of
              (sent', False, script) \<Rightarrow> ((sent @ sent', False), script, cg)
            | (sent', True, script) \<Rightarrow> ((sent @ sent', True), script, count_sent (length data) cg))"

definition SetAuthenticated :: "bool \<Rightarrow> str \<Rightarrow> str \<Rightarrow> connection \<Rightarrow> connection" where
  "SetAuthenticated auth user db c =
     (if auth then c\<lparr>cn_authenticated := True, cn_user := user, cn_db := db\<rparr> else c\<lparr>cn_authenticated := False\<rparr>)"

section \<open>The connection handler\<close>

text \<open>\<open>find\<close> of a NUL character from a position; the result is the text before it and the text after it.\<close>

fun split_nul :: "str \<Rightarrow> (str \<times> str) option" where
  "split_nul [] = None"
| "split_nul (c # s) = (if c = 0 then Some ([], s) else map_option (\<lambda>(a, b). (c # a, b)) (split_nul s))"

text \<open>The user and the password of an authentication packet; a part that is not ended by a NUL stays empty.\<close>

definition parse_auth :: "str \<Rightarrow> (str \<times> str) option" where
  "parse_auth payload =
     (case split_nul payload of
        None \<Rightarrow> None
      | Some (first, rest) \<Rightarrow>
          if take 4 payload = ascii ''AUTH'' then
            (case split_nul rest of
               None \<Rightarrow> Some ([], [])
             | Some (user, rest) \<Rightarrow> Some (user, case split_nul rest of None \<Rightarrow> [] | Some (password, _) \<Rightarrow> password))
          else Some (first, case split_nul rest of None \<Rightarrow> [] | Some (password, _) \<Rightarrow> password))"

datatype command = Ping | Quit | Query str | Nothing

definition command_of :: "str \<Rightarrow> command" where
  "command_of cmd =
     (if cmd = [] then Nothing
      else if cmd = ascii ''PING'' \<or> cmd = [0x0E] then Ping
      else if cmd = ascii ''QUIT'' \<or> cmd = [0x01] then Quit
      else if take 5 cmd = ascii ''QUERY'' then
        (case split_nul cmd of
           Some (before, sql) \<Rightarrow> if sql \<noteq> [] then Query sql else if 6 < length cmd then Query (drop 6 cmd) else Nothing
         | None \<Rightarrow> if 6 < length cmd then Query (drop 6 cmd) else Nothing)
      else Query cmd)"

text \<open>A value as the handler sends it.\<close>

definition field_of_value :: "Value \<Rightarrow> field option" where
  "field_of_value v =
     (case v of
        VInvalid \<Rightarrow> Some Null_Field
      | VBoolean b \<Rightarrow> Some (Integer_Field (if b then 1 else 0))
      | VTinyInt n \<Rightarrow> Some (Integer_Field (scast n))
      | VSmallInt n \<Rightarrow> Some (Integer_Field (scast n))
      | VInteger n \<Rightarrow> Some (Integer_Field (scast n))
      | VBigInt n \<Rightarrow> Some (Integer_Field n)
      | VDecimal x \<Rightarrow> Some (Float_Field x)
      | VTimestamp t \<Rightarrow> map_option String_Field (FormatTimestamp t)
      | VVarchar s \<Rightarrow> Some (String_Field s))"

definition row_fields :: "schema \<Rightarrow> byte list \<Rightarrow> field list option" where
  "row_fields s t = those (map (\<lambda>i. Option.bind (GetValue t (Some s) i) field_of_value) [0..<length s])"

definition send_row :: "field list \<Rightarrow> protocol_text \<Rightarrow> protocol_text" where
  "send_row vs p = tx_EndRow (fold tx_Store vs (tx_StartRow p))"

definition send_columns :: "schema \<Rightarrow> protocol_text \<Rightarrow> protocol_text" where
  "send_columns s p =
     tx_EndResultMetadata (fold (\<lambda>c. tx_SendColumnDefinition (column_name c) (TypeIdToString (column_type c)) (max_length c)) s
       (tx_StartResultMetadata (of_nat (length s)) p))"

text \<open>The answer to a statement that has been executed: rows when there is a schema with columns, otherwise a count.\<close>

definition send_result :: "schema option \<Rightarrow> byte list list \<Rightarrow> int \<Rightarrow> protocol_text \<Rightarrow> protocol_text option" where
  "send_result output_schema results affected p =
     (case output_schema of
        Some (c # cs) \<Rightarrow> do {
          rows \<leftarrow> those (map (row_fields (c # cs)) results);
          Some (tx_SendEOF (fold send_row rows (send_columns (c # cs) p))) }
      | _ \<Rightarrow> Some (tx_SendOk (if 0 < affected then of_int affected else of_nat (length results)) 0 [] p))"

section \<open>Splitting statements\<close>

definition is_blank :: "byte \<Rightarrow> bool" where
  "is_blank c \<longleftrightarrow> c = 32 \<or> c = 9 \<or> c = 10 \<or> c = 13"

definition trim :: "str \<Rightarrow> str" where
  "trim s = rev (dropWhile is_blank (rev (dropWhile is_blank s)))"

definition push_statement :: "str \<Rightarrow> str list \<Rightarrow> str list" where
  "push_statement current statements = (if trim current = [] then statements else statements @ [trim current])"

text \<open>The quote character, if the scan is inside a string, and the character before.\<close>

fun split_loop :: "byte option \<Rightarrow> byte option \<Rightarrow> str \<Rightarrow> str list \<Rightarrow> str \<Rightarrow> str list" where
  "split_loop quote prev current statements [] = push_statement current statements"
| "split_loop (Some q) prev current statements (c # s) =
     split_loop (if c = q \<and> prev \<noteq> Some 92 then None else Some q) (Some c) (current @ [c]) statements s"
| "split_loop None prev current statements (c # s) =
     (if c = 39 \<or> c = 34 then split_loop (Some c) (Some c) (current @ [c]) statements s
      else if c = 59 then split_loop None (Some c) [] (push_statement current statements) s
      else split_loop None (Some c) (current @ [c]) statements s)"

definition SplitSql :: "str \<Rightarrow> str list" where
  "SplitSql sql = split_loop None None [] [] sql"

end
