(* ===== verification/Protocol_Props.thy ===== *)
theory Protocol_Props
  imports Connections
begin

text \<open>
  Correctness of the wire formats: a stream of packets is read as it was written, however the socket cuts
  it; the rows of a result can be recovered from the text and from the binary protocol.
\<close>

section \<open>Packets\<close>

text \<open>The bytes of a script of reads, and a script without errors.\<close>

fun bytes_of :: "read_event list \<Rightarrow> byte list" where
  "bytes_of [] = []"
| "bytes_of (Chunk bs # es) = bs @ bytes_of es"
| "bytes_of (_ # es) = bytes_of es"

definition clean :: "read_event list \<Rightarrow> bool" where
  "clean es \<longleftrightarrow> Read_Failed \<notin> set es \<and> Chunk [] \<notin> set es"

lemma read_loop_law:
  assumes "clean es"
  shows "n \<le> length (bytes_of es) \<Longrightarrow>
      \<exists>es'. read_loop n es = (Some (take n (bytes_of es)), es') \<and> bytes_of es' = drop n (bytes_of es) \<and> clean es'"
    and "length (bytes_of es) < n \<Longrightarrow> fst (read_loop n es) = None"
  using assms
proof (induction n es rule: read_loop.induct)
  case (5 n bs es)
  {
    case 1
    then have ne: "bs \<noteq> []" by (auto simp: clean_def)
    show ?case
    proof (cases "Suc n < length bs")
      case True
      then show ?thesis using 1 ne by (auto simp: clean_def)
    next
      case False
      have "Suc n - length bs \<le> length (bytes_of es)" "clean es" using 1 False by (auto simp: clean_def)
      with "5.IH"(1) [OF ne False] obtain es' where "read_loop (Suc n - length bs) es = (Some (take (Suc n - length bs) (bytes_of es)), es')"
        "bytes_of es' = drop (Suc n - length bs) (bytes_of es)" "clean es'" by blast
      then show ?thesis using False ne by auto
    qed
  next
    case 2
    then have ne: "bs \<noteq> []" by (auto simp: clean_def)
    then have "fst (read_loop (Suc n - length bs) es) = None" using "5.IH"(2) [OF ne] 2 by (auto simp: clean_def)
    then show ?case using ne 2 by (auto split: prod.splits)
  }
qed (auto simp: clean_def)

lemma write_loop_all: "write_loop script bs = (sent, True, script') \<Longrightarrow> sent = bs"
proof (induction script bs arbitrary: sent rule: write_loop.induct)
  case (3 w script b bs)
  then show ?case by (cases w) (auto split: prod.splits if_splits simp del: take_Cons' drop_Cons' dest!: "3.IH"(1))
qed auto

definition packet :: "byte list \<Rightarrow> byte list" where
  "packet data = packet_header (length data) 0 @ data"

lemma write_packet_bytes: "cn_WritePacket script data cg = ((sent, True), r) \<Longrightarrow> sent = packet data"
  by (auto simp: cn_WritePacket_def packet_def Let_def split: if_splits prod.splits bool.splits dest!: write_loop_all)

lemma header_facts [simp]:
  "length (packet_header n s) = 4"
  "ReadPacketLength (packet_header n s) = n mod 2 ^ 24"
  by (simp_all add: packet_header_def WritePacketLength_def ReadPacketLength_def le_dec_enc_mod mod_mod_cancel)

text \<open>What a reader gets of a packet: as many bytes as the header says.\<close>

lemma read_packet_law:
  assumes "clean es" "bytes_of es = packet data @ rest" "0 \<le> cn_fd (fst cg)"
  shows "\<exists>es' cg'. cn_ReadPacket es cg = (Some (take (length data mod 2 ^ 24) data), es', cg') \<and> clean es' \<and>
    bytes_of es' = drop (length data mod 2 ^ 24) data @ rest \<and> cn_fd (fst cg') = cn_fd (fst cg)"
proof -
  have "4 \<le> length (bytes_of es)" using assms(2) by (simp add: packet_def)
  from read_loop_law(1) [OF assms(1) this] obtain es1 where
    e1: "read_loop 4 es = (Some (packet_header (length data) 0), es1)" "bytes_of es1 = data @ rest" "clean es1"
    using assms(2) by (auto simp: packet_def)
  have small: "length data mod 2 ^ 24 \<le> length data" by (rule mod_less_eq_dividend)
  then have "length data mod 2 ^ 24 \<le> length (bytes_of es1)" using e1(2) by simp
  from read_loop_law(1) [OF e1(3) this] obtain es2 where
    e2: "read_loop (length data mod 2 ^ 24) es1 = (Some (take (length data mod 2 ^ 24) data), es2)"
      "bytes_of es2 = drop (length data mod 2 ^ 24) data @ rest" "clean es2"
    using e1(2) small by auto
  have "length data mod 2 ^ 24 < 2 ^ 24" by simp
  then have "\<not> kMaxPayloadLength < length data mod 2 ^ 24" by (simp add: kMaxPayloadLength_def)
  then show ?thesis using e1(1) e2 assms(3) by (cases cg) (simp add: cn_ReadPacket_def count_received_def Let_def)
qed

lemma read_packet_end:
  assumes "clean es" "bytes_of es = []"
  shows "fst (cn_ReadPacket es cg) = None"
  using read_loop_law(2) [OF assms(1), of 4] assms(2) by (auto simp: cn_ReadPacket_def split: prod.splits option.splits)

text \<open>Packets one after the other.\<close>

fun write_packets ::
  "write_result list \<Rightarrow> byte list list \<Rightarrow> connection \<times> net_statistics \<Rightarrow> byte list \<times> bool" where
  "write_packets script [] cg = ([], True)"
| "write_packets script (d # ds) cg =
     (case cn_WritePacket script d cg of
        ((sent, False), _) \<Rightarrow> (sent, False)
      | ((sent, True), script, cg) \<Rightarrow> let (sent', ok) = write_packets script ds cg in (sent @ sent', ok))"

fun read_packets :: "nat \<Rightarrow> read_event list \<Rightarrow> connection \<times> net_statistics \<Rightarrow> byte list option list" where
  "read_packets 0 es cg = []"
| "read_packets (Suc n) es cg =
     (case cn_ReadPacket es cg of (r, es, cg) \<Rightarrow> r # (if r = None then [] else read_packets n es cg))"

lemma write_packets_bytes: "write_packets script ds cg = (sent, True) \<Longrightarrow> sent = concat (map packet ds)"
  by (induction script ds cg arbitrary: sent rule: write_packets.induct)
    (auto split: prod.splits bool.splits dest!: write_packet_bytes)

lemma read_packets_law:
  "clean es \<Longrightarrow> bytes_of es = concat (map packet ds) \<Longrightarrow> \<forall>d \<in> set ds. length d < 2 ^ 24 \<Longrightarrow> 0 \<le> cn_fd (fst cg) \<Longrightarrow>
   read_packets (Suc (length ds)) es cg = map Some ds @ [None]"
proof (induction ds arbitrary: es cg)
  case Nil
  then show ?case using read_packet_end [of es cg] by (auto split: prod.splits)
next
  case (Cons d ds)
  from read_packet_law [of es d "concat (map packet ds)" cg] Cons.prems obtain es' cg' where
    "cn_ReadPacket es cg = (Some d, es', cg')" "clean es'" "bytes_of es' = concat (map packet ds)" "cn_fd (fst cg') = cn_fd (fst cg)"
    by auto
  then show ?case using Cons.IH [of es' cg'] Cons.prems by simp
qed

text \<open>C27: packets of less than 16 MB that one connection wrote without an error are read by the other as they were, in
  their order and then the end of the stream, wherever \<open>write\<close> and \<open>read\<close> cut the bytes and however often they are
  interrupted.\<close>

theorem packet_stream_roundtrip:
  assumes "write_packets script ds cg = (sent, True)" "clean es" "bytes_of es = sent" "\<forall>d \<in> set ds. length d < 2 ^ 24"
    "0 \<le> cn_fd (fst cg')"
  shows "read_packets (Suc (length ds)) es cg' = map Some ds @ [None]"
  using read_packets_law [OF assms(2)] write_packets_bytes [OF assms(1)] assms(3-5) by simp

definition demo_stats :: net_statistics where
  "demo_stats = \<lparr>total_bytes_sent = 0, total_bytes_received = 0, total_connections = 0, active_connections = 0\<rparr>"

theorem packet_stream_roundtrip_witness:
  "read_packets 3 [Chunk [2, 0], Read_Interrupted, Chunk [0, 0, 80], Chunk [81, 0, 0, 0, 0]] (Connection 4 [] 0 demo_stats) =
    [Some [80, 81], Some [], None]"
proof -
  have w: "write_packets [Accepted 3, Interrupted, Accepted 9, Accepted 1, Accepted 1, Accepted 4] [[80, 81], []] (Connection 3 [] 0 demo_stats)
      = ([2, 0, 0, 0, 80, 81, 0, 0, 0, 0], True)"
    by (simp add: cn_WritePacket_def Connection_def packet_header_def WritePacketLength_def count_sent_def numeral_3_eq_3)
  show ?thesis
    using packet_stream_roundtrip [OF w, of "[Chunk [2, 0], Read_Interrupted, Chunk [0, 0, 80], Chunk [81, 0, 0, 0, 0]]"
        "Connection 4 [] 0 demo_stats"]
    by (simp add: clean_def Connection_def numeral_3_eq_3)
qed

text \<open>a payload of 16 MB or more is cut: its length does not fit the three bytes of the header, the reader returns only
  the first \<open>length mod 2 ^ 24\<close> bytes and takes the rest of the payload for the next packets, although the writer
  reports success; the reader's own test for oversized packets never applies.\<close>

theorem long_packet_desynchronises:
  assumes "cn_WritePacket script data cg = ((sent, True), r)" "2 ^ 24 \<le> length data" "clean es" "bytes_of es = sent @ rest"
    "0 \<le> cn_fd (fst cg')"
  shows "\<exists>es' cg''. cn_ReadPacket es cg' = (Some (take (length data mod 2 ^ 24) data), es', cg'') \<and>
    bytes_of es' = drop (length data mod 2 ^ 24) data @ rest \<and> drop (length data mod 2 ^ 24) data \<noteq> []"
proof -
  have "length data mod 2 ^ 24 < 2 ^ 24" by simp
  then have "length data mod 2 ^ 24 < length data" using assms(2) by linarith
  then show ?thesis using read_packet_law [OF assms(3) _ assms(5)] write_packet_bytes [OF assms(1)] assms(4) by fastforce
qed

lemma write_loop_once: "bs \<noteq> [] \<Longrightarrow> length bs \<le> n \<Longrightarrow> write_loop (Accepted n # script) bs = (bs, True, script)"
  by (cases bs) auto

theorem long_packet_desynchronises_witness:
  "\<exists>es' cg''. cn_ReadPacket [Chunk (packet (replicate (2 ^ 24 + 1) 7))] (Connection 4 [] 0 demo_stats) = (Some [7], es', cg'') \<and>
    bytes_of es' = replicate (2 ^ 24) 7"
proof -
  let ?n = "2 ^ 24 + 1 :: nat"
  define data :: "byte list" where "data = replicate ?n 7"
  have len: "length data = ?n" by (simp add: data_def)
  then have ne: "data \<noteq> []" "packet_header ?n 0 \<noteq> []" by (auto simp: packet_header_def)
  have w: "cn_WritePacket [Accepted 4, Accepted ?n] data (Connection 3 [] 0 demo_stats) =
      ((packet data, True), [], snd (snd (cn_WritePacket [Accepted 4, Accepted ?n] data (Connection 3 [] 0 demo_stats))))"
    using write_loop_once [OF ne(2), of 4 "[Accepted ?n]"] write_loop_once [OF ne(1), of ?n "[]"] len
    by (simp add: cn_WritePacket_def Connection_def packet_def Let_def)
  have c: "clean [Chunk (packet data)]" using ne by (simp add: clean_def packet_def)
  have m: "length data mod 2 ^ 24 = 1" by (simp add: len mod_add_left_eq)
  have b: "bytes_of [Chunk (packet data)] = packet data @ []" by simp
  have l: "2 ^ 24 \<le> length data" by (simp add: len)
  have f: "0 \<le> cn_fd (fst (Connection 4 [] 0 demo_stats))" by (simp add: Connection_def)
  have "data = 7 # replicate (2 ^ 24) 7" by (simp only: data_def add.commute [of _ 1] plus_1_eq_Suc replicate_Suc)
  then have t: "take 1 data = [7]" "drop 1 data = replicate (2 ^ 24) 7" by simp_all
  from long_packet_desynchronises [OF w l c b f] show ?thesis unfolding m t data_def [symmetric] by auto
qed

section \<open>Rows on the wire\<close>

text \<open>A format for rows: how a row is written, the rows it can carry, what is recovered of a field, and a reader that is
  told the number of columns. The law: a row that fits is read back, and nothing of what follows it.\<close>

locale row_format =
  fixes put :: "field list \<Rightarrow> byte list"
    and fits :: "field list \<Rightarrow> bool"
    and seen :: "field \<Rightarrow> 'v"
    and get :: "nat \<Rightarrow> byte list \<Rightarrow> ('v list \<times> byte list) option"
  assumes get_put: "fits vs \<Longrightarrow> get (length vs) (put vs @ rest) = Some (map seen vs, rest)"

fun get_rows :: "(nat \<Rightarrow> byte list \<Rightarrow> ('v list \<times> byte list) option) \<Rightarrow> nat \<Rightarrow> nat \<Rightarrow> byte list \<Rightarrow> ('v list list \<times> byte list) option" where
  "get_rows get k 0 bs = Some ([], bs)"
| "get_rows get k (Suc n) bs = do {
     (vs, bs) \<leftarrow> get k bs;
     (rows, bs) \<leftarrow> get_rows get k n bs;
     Some (vs # rows, bs) }"

context row_format
begin

lemma rows_read:
  "\<forall>vs \<in> set rows. fits vs \<and> length vs = k \<Longrightarrow>
   get_rows get k (length rows) (concat (map put rows) @ rest) = Some (map (map seen) rows, rest)"
proof (induction rows)
  case (Cons vs rows)
  then have "get k (put vs @ concat (map put rows) @ rest) = Some (map seen vs, concat (map put rows) @ rest)"
    using get_put [of vs] by auto
  with Cons show ?case by simp
qed simp

end

subsection \<open>The text protocol\<close>

definition tabbed :: "str list \<Rightarrow> str" where
  "tabbed ss = (case ss of [] \<Rightarrow> [] | s # ss \<Rightarrow> s @ concat (map (\<lambda>s. 9 # s) ss))"

definition text_row :: "field list \<Rightarrow> str" where
  "text_row vs = ascii ''Row: '' @ tabbed (map field_text vs) @ [10]"

lemma store_fields:
  "tx_buffer (fold tx_Store vs p) =
   tx_buffer p @ (if tx_first_in_row p then tabbed (map field_text vs) else concat (map (\<lambda>v. 9 # field_text v) vs))"
proof (induction vs arbitrary: p)
  case (Cons v vs)
  then show ?case by (simp add: tx_Store_def tx_append_def tabbed_def comp_def)
qed (simp add: tabbed_def)

lemma send_row_buffer: "tx_buffer (send_row vs p) = tx_buffer p @ text_row vs"
  by (simp add: send_row_def tx_EndRow_def tx_StartRow_def tx_append_def store_fields text_row_def)

text \<open>The reader the format asks for: a line, its fields between the tabs, and their escapes undone; \<open>\N\<close> is NULL.\<close>

fun unescape :: "str \<Rightarrow> str" where
  "unescape (c # d # s) =
     (if c = 92 then (if d = 116 then 9 else if d = 110 then 10 else d) # unescape s else c # unescape (d # s))"
| "unescape s = s"

fun split_at :: "byte \<Rightarrow> str \<Rightarrow> str list" where
  "split_at x [] = [[]]"
| "split_at x (c # s) = (if c = x then [] # split_at x s else case split_at x s of t # ts \<Rightarrow> (c # t) # ts | [] \<Rightarrow> [[c]])"

definition text_seen :: "field \<Rightarrow> str option" where
  "text_seen v =
     (case v of Null_Field \<Rightarrow> None | Integer_Field n \<Rightarrow> Some (show_int (sint n)) | Float_Field x \<Rightarrow> Some (show_f64 x) | String_Field s \<Rightarrow> Some s)"

definition get_text :: "nat \<Rightarrow> byte list \<Rightarrow> (str option list \<times> byte list) option" where
  "get_text k bs =
     (if take 5 bs = ascii ''Row: '' then
        let line = takeWhile (\<lambda>c. c \<noteq> 10) (drop 5 bs); toks = split_at 9 line
        in if length toks = k then Some (map (\<lambda>t. if t = [92, 78] then None else Some (unescape t)) toks, drop (6 + length line) bs)
           else None
      else None)"

lemma unescape_cons: "c \<noteq> 92 \<Longrightarrow> unescape (c # s) = c # unescape s"
  by (cases s) auto

lemma unescape_escape: "unescape (escape s) = s"
  by (induction s) (auto simp: unescape_cons)

lemma escape_plain: "9 \<notin> set (escape s) \<and> 10 \<notin> set (escape s) \<and> escape s \<noteq> [92, 78]"
proof -
  have "9 \<notin> set (escape s) \<and> 10 \<notin> set (escape s)" by (induction s) auto
  moreover have "escape s \<noteq> [92, 78]" by (cases s) auto
  ultimately show ?thesis by blast
qed

text \<open>Printed numbers have none of the special characters.\<close>

definition plain :: "str \<Rightarrow> bool" where
  "plain s \<longleftrightarrow> 9 \<notin> set s \<and> 10 \<notin> set s \<and> 92 \<notin> set s"

lemma plain_append [simp]: "plain (s @ t) \<longleftrightarrow> plain s \<and> plain t"
  by (auto simp: plain_def)

lemma plain_Cons [simp]: "plain (c # s) \<longleftrightarrow> c \<noteq> 9 \<and> c \<noteq> 10 \<and> c \<noteq> 92 \<and> plain s"
  by (auto simp: plain_def)

lemma plain_Nil [simp]: "plain []"
  by (simp add: plain_def)

lemma digits_plain: "list_all is_digit s \<Longrightarrow> plain s"
  by (induction s) (auto simp: is_digit_def)

lemma show_nat_plain [simp]: "plain (show_nat n)"
  using show_nat_digits [of n] digits_plain by blast

lemma show_int_plain: "plain (show_int n)"
  by (simp add: show_int_def)

lemma show_padded_plain [simp]: "plain (show_padded w n)"
proof -
  have "plain (replicate k 48)" for k by (induction k) auto
  then show ?thesis by (simp add: show_padded_def Let_def)
qed

lemma show_f64_plain: "plain (show_f64 x)"
proof -
  have "plain (ascii ''nan'')" "plain (ascii ''inf'')" by (simp_all add: ascii_def)
  then show ?thesis by (simp add: show_f64_def Let_def)
qed

lemma unescape_plain: "92 \<notin> set s \<Longrightarrow> unescape s = s"
  by (induction s rule: unescape.induct) auto

lemma field_text_facts:
  "9 \<notin> set (field_text v) \<and> 10 \<notin> set (field_text v) \<and>
   (if field_text v = [92, 78] then None else Some (unescape (field_text v))) = text_seen v"
proof (cases v)
  case (Integer_Field n)
  then show ?thesis using show_int_plain [of "sint n"] by (auto simp: field_text_def text_seen_def plain_def unescape_plain)
next
  case (Float_Field x)
  then show ?thesis using show_f64_plain [of x] by (auto simp: field_text_def text_seen_def plain_def unescape_plain)
next
  case (String_Field s)
  then show ?thesis using escape_plain [of s] by (simp add: field_text_def text_seen_def unescape_escape)
qed (simp add: field_text_def text_seen_def)

lemma split_at_append: "x \<notin> set s \<Longrightarrow> split_at x (s @ x # t) = s # split_at x t"
  by (induction s) auto

lemma split_at_none: "x \<notin> set s \<Longrightarrow> split_at x s = [s]"
  by (induction s) auto

lemma split_tabbed: "ss \<noteq> [] \<Longrightarrow> \<forall>s \<in> set ss. 9 \<notin> set s \<Longrightarrow> split_at 9 (tabbed ss) = ss"
proof (induction ss)
  case (Cons s ss)
  then show ?case
    by (cases ss) (simp_all add: tabbed_def split_at_none split_at_append)
qed simp

lemma text_get_put: "vs \<noteq> [] \<Longrightarrow> get_text (length vs) (text_row vs @ rest) = Some (map text_seen vs, rest)"
proof -
  assume ne: "vs \<noteq> []"
  let ?line = "tabbed (map field_text vs)"
  have "10 \<notin> set ?line" using field_text_facts ne by (cases vs) (auto simp: tabbed_def)
  then have "\<forall>c \<in> set ?line. c \<noteq> 10" by blast
  then have line: "takeWhile (\<lambda>c. c \<noteq> 10) (?line @ 10 # rest) = ?line" by (simp add: takeWhile_append2)
  have toks: "split_at 9 ?line = map field_text vs" using ne field_text_facts by (intro split_tabbed) auto
  have start: "length (ascii ''Row: '') = 5" by (simp add: ascii_def)
  have "drop 5 (text_row vs @ rest) = ?line @ 10 # rest" "take 5 (text_row vs @ rest) = ascii ''Row: ''"
    using start by (simp_all add: text_row_def)
  moreover from this(1) have "drop (6 + length ?line) (text_row vs @ rest) = rest"
  proof -
    have "drop (6 + length ?line) xs = drop (1 + length ?line) (drop 5 xs)" for xs :: "byte list" by (simp add: add.commute)
    also have "drop 5 (text_row vs @ rest) = ?line @ 10 # rest" by fact
    also have "drop (1 + length ?line) (?line @ 10 # rest) = rest" by simp
    finally show ?thesis .
  qed
  ultimately show ?thesis using line toks field_text_facts by (simp add: get_text_def)
qed

interpretation text_format: row_format text_row "\<lambda>vs. vs \<noteq> []" text_seen get_text
  by unfold_locales (rule text_get_put)

text \<open>a client can recover every row of a result from the text protocol: the fields between the tabs, their escapes
  undone, are the strings that were sent (numbers as they print), NULL is told apart from every string, and
  what follows the rows is left as it is.\<close>

theorem text_rows_roundtrip:
  assumes "\<forall>vs \<in> set rows. length vs = k" "k \<noteq> 0"
  shows "\<exists>bs. tx_buffer (fold send_row rows p) = tx_buffer p @ bs \<and>
    get_rows get_text k (length rows) (bs @ rest) = Some (map (map text_seen) rows, rest)"
proof -
  have "tx_buffer (fold send_row rows p) = tx_buffer p @ concat (map text_row rows)"
    by (induction rows arbitrary: p) (simp_all add: send_row_buffer)
  moreover have "get_rows get_text k (length rows) (concat (map text_row rows) @ rest) = Some (map (map text_seen) rows, rest)"
    using assms by (intro text_format.rows_read) auto
  ultimately show ?thesis by blast
qed

theorem text_rows_roundtrip_witness:
  "\<exists>bs. tx_buffer (fold send_row [[Null_Field, String_Field [9, 92, 78]], [Integer_Field 7, String_Field []]] ProtocolText) = bs \<and>
    get_rows get_text 2 2 (bs @ ascii ''EOF'') = Some ([[None, Some [9, 92, 78]], [Some [55], Some []]], ascii ''EOF'')"
proof -
  have "show_int 7 = [55]" by (simp add: show_int_def show_nat.simps digit_def)
  then show ?thesis
    using text_rows_roundtrip [of "[[Null_Field, String_Field [9, 92, 78]], [Integer_Field 7, String_Field []]]" 2 ProtocolText "ascii ''EOF''"]
    by (simp add: text_seen_def ProtocolText_def numeral_2_eq_2)
qed

subsection \<open>The binary protocol\<close>

definition binary_row :: "field list \<Rightarrow> byte list" where
  "binary_row vs = concat (map field_bytes vs)"

definition bp_send_row :: "field list \<Rightarrow> protocol_binary \<Rightarrow> protocol_binary" where
  "bp_send_row vs p = bp_EndRow (fold bp_Store vs (bp_StartRow p))"

lemma bp_store_fields: "bp_buffer (fold bp_Store vs p) = bp_buffer p @ binary_row vs"
  by (induction vs arbitrary: p) (simp_all add: bp_Store_def bp_append_def binary_row_def)

lemma bp_send_row_buffer: "bp_buffer (bp_send_row vs p) = bp_buffer p @ binary_row vs"
  by (simp add: bp_send_row_def bp_EndRow_def bp_StartRow_def bp_store_fields)

text \<open>The reader the format asks for: a tag, then eight bytes, or a length and that many bytes.\<close>

definition get_bytes :: "nat \<Rightarrow> byte list \<Rightarrow> (byte list \<times> byte list) option" where
  "get_bytes n bs = (if n \<le> length bs then Some (take n bs, drop n bs) else None)"

definition get_field :: "byte list \<Rightarrow> (field \<times> byte list) option" where
  "get_field bs =
     (case bs of
        [] \<Rightarrow> None
      | t # bs \<Rightarrow>
          if t = 0 then Some (Null_Field, bs)
          else if t = 1 then map_option (\<lambda>(b, bs). (Integer_Field (dec_word b), bs)) (get_bytes 8 bs)
          else if t = 2 then map_option (\<lambda>(b, bs). (Float_Field (dec_word b), bs)) (get_bytes 8 bs)
          else if t = 3 then do {
            (l, bs) \<leftarrow> get_bytes 2 bs;
            (s, bs) \<leftarrow> get_bytes (le_dec l) bs;
            Some (String_Field s, bs) }
          else None)"

fun get_binary :: "nat \<Rightarrow> byte list \<Rightarrow> (field list \<times> byte list) option" where
  "get_binary 0 bs = Some ([], bs)"
| "get_binary (Suc k) bs = do {
     (v, bs) \<leftarrow> get_field bs;
     (vs, bs) \<leftarrow> get_binary k bs;
     Some (v # vs, bs) }"

definition short_strings :: "field list \<Rightarrow> bool" where
  "short_strings vs \<longleftrightarrow> (\<forall>s. String_Field s \<in> set vs \<longrightarrow> length s < 65536)"

lemma get_field_put: "short_strings [v] \<Longrightarrow> get_field (field_bytes v @ rest) = Some (v, rest)"
  by (cases v) (simp_all add: field_bytes_def get_field_def get_bytes_def bp_string_def short_strings_def)

lemma binary_get_put: "short_strings vs \<Longrightarrow> get_binary (length vs) (binary_row vs @ rest) = Some (map (\<lambda>v. v) vs, rest)"
proof (induction vs)
  case (Cons v vs)
  then have "short_strings [v]" "short_strings vs" by (auto simp: short_strings_def)
  then show ?case using Cons.IH get_field_put [of v "binary_row vs @ rest"] by (simp add: binary_row_def)
qed (simp add: binary_row_def)

interpretation binary_format: row_format binary_row short_strings "\<lambda>v. v" get_binary
  by unfold_locales (rule binary_get_put)

text \<open>The binary protocol loses nothing: every row whose strings are shorter than 64 KB is read back field by field,
  with the type of each.\<close>

theorem binary_rows_roundtrip:
  assumes "\<forall>vs \<in> set rows. short_strings vs \<and> length vs = k"
  shows "\<exists>bs. bp_buffer (fold bp_send_row rows p) = bp_buffer p @ bs \<and>
    get_rows get_binary k (length rows) (bs @ rest) = Some (rows, rest)"
proof -
  have "bp_buffer (fold bp_send_row rows p) = bp_buffer p @ concat (map binary_row rows)"
    by (induction rows arbitrary: p) (simp_all add: bp_send_row_buffer)
  moreover have "get_rows get_binary k (length rows) (concat (map binary_row rows) @ rest) = Some (rows, rest)"
    using binary_format.rows_read [OF assms] by simp
  ultimately show ?thesis by blast
qed

theorem binary_rows_roundtrip_witness:
  "\<exists>bs. bp_buffer (bp_send_row [Null_Field, String_Field [9]] ProtocolBinary) = bs \<and>
    get_rows get_binary 2 1 (bs @ [5]) = Some ([[Null_Field, String_Field [9]]], [5])"
  using binary_rows_roundtrip [of "[[Null_Field, String_Field [9]]]" 2 ProtocolBinary "[5]"]
  by (simp add: short_strings_def ProtocolBinary_def)

end
