(* ===== verification/Sha256.thy ===== *)
theory Sha256
  imports Strings
begin

text \<open>
  The password hash of the account manager (auth_manager.cpp): \<open>Sha256Transform\<close>, the padding and the
  hexadecimal output of \<open>Sha256\<close>, and the padding that the standard (FIPS 180-4) prescribes.
\<close>

unbundle bit_operations_syntax

section \<open>The transform\<close>

type_synonym u32 = "32 word"

definition kSha256K :: "u32 list" where
  "kSha256K =
  [0x428A2F98, 0x71374491, 0xB5C0FBCF, 0xE9B5DBA5, 0x3956C25B, 0x59F111F1, 0x923F82A4, 0xAB1C5ED5,
   0xD807AA98, 0x12835B01, 0x243185BE, 0x550C7DC3, 0x72BE5D74, 0x80DEB1FE, 0x9BDC06A7, 0xC19BF174,
   0xE49B69C1, 0xEFBE4786, 0x0FC19DC6, 0x240CA1CC, 0x2DE92C6F, 0x4A7484AA, 0x5CB0A9DC, 0x76F988DA,
   0x983E5152, 0xA831C66D, 0xB00327C8, 0xBF597FC7, 0xC6E00BF3, 0xD5A79147, 0x06CA6351, 0x14292967,
   0x27B70A85, 0x2E1B2138, 0x4D2C6DFC, 0x53380D13, 0x650A7354, 0x766A0ABB, 0x81C2C92E, 0x92722C85,
   0xA2BFE8A1, 0xA81A664B, 0xC24B8B70, 0xC76C51A3, 0xD192E819, 0xD6990624, 0xF40E3585, 0x106AA070,
   0x19A4C116, 0x1E376C08, 0x2748774C, 0x34B0BCB5, 0x391C0CB3, 0x4ED8AA4A, 0x5B9CCA4F, 0x682E6FF3,
   0x748F82EE, 0x78A5636F, 0x84C87814, 0x8CC70208, 0x90BEFFFA, 0xA4506CEB, 0xBEF9A3F7, 0xC67178F2]"

definition RotR :: "u32 \<Rightarrow> nat \<Rightarrow> u32" where
  "RotR x n = (drop_bit n x) OR (push_bit (32 - n) x)"

text \<open>The first loop reads a block of 64 bytes as 16 big-endian words, the second extends them to 64.\<close>

definition block_word :: "byte list \<Rightarrow> nat \<Rightarrow> u32" where
  "block_word block i =
     push_bit 24 (ucast (block ! (i * 4))) OR push_bit 16 (ucast (block ! (i * 4 + 1))) OR
     push_bit 8 (ucast (block ! (i * 4 + 2))) OR ucast (block ! (i * 4 + 3))"

definition next_word :: "u32 list \<Rightarrow> u32" where
  "next_word w =
     (let i = length w;
          s0 = RotR (w ! (i - 15)) 7 XOR RotR (w ! (i - 15)) 18 XOR drop_bit 3 (w ! (i - 15));
          s1 = RotR (w ! (i - 2)) 17 XOR RotR (w ! (i - 2)) 19 XOR drop_bit 10 (w ! (i - 2))
      in w ! (i - 16) + s0 + w ! (i - 7) + s1)"

primrec extend_words :: "nat \<Rightarrow> u32 list \<Rightarrow> u32 list" where
  "extend_words 0 w = w"
| "extend_words (Suc n) w = extend_words n (w @ [next_word w])"

definition schedule :: "byte list \<Rightarrow> u32 list" where
  "schedule block = extend_words 48 (map (block_word block) [0..<16])"

text \<open>The working variables \<open>a\<close> to \<open>h\<close>, and one round for a pair of a constant and a word.\<close>

datatype regs = Regs u32 u32 u32 u32 u32 u32 u32 u32

fun sha_round :: "u32 \<times> u32 \<Rightarrow> regs \<Rightarrow> regs" where
  "sha_round (k, wi) (Regs a b c d e f g h) =
     (let S1 = RotR e 6 XOR RotR e 11 XOR RotR e 25;
          ch = (e AND f) XOR (NOT e AND g);
          temp1 = h + S1 + ch + k + wi;
          S0 = RotR a 2 XOR RotR a 13 XOR RotR a 22;
          maj = (a AND b) XOR (a AND c) XOR (b AND c);
          temp2 = S0 + maj
      in Regs (temp1 + temp2) a b c (d + temp1) e f g)"

fun add_regs :: "regs \<Rightarrow> regs \<Rightarrow> regs" where
  "add_regs (Regs a b c d e f g h) (Regs a' b' c' d' e' f' g' h') =
     Regs (a + a') (b + b') (c + c') (d + d') (e + e') (f + f') (g + g') (h + h')"

definition Sha256Transform :: "regs \<Rightarrow> byte list \<Rightarrow> regs" where
  "Sha256Transform state block = add_regs state (fold sha_round (zip kSha256K (schedule block)) state)"

section \<open>The hash of a string\<close>

text \<open>\<open>bit_len\<close> is a \<open>size_t\<close>; its eight bytes are written backwards from the end of the buffer.\<close>

definition padded_len :: "nat \<Rightarrow> nat" where
  "padded_len n = (n + 8 + 63) div 64 * 64"

definition bit_len :: "nat \<Rightarrow> i64" where
  "bit_len n = word_of_nat (n * 8)"

definition length_byte :: "nat \<Rightarrow> nat \<Rightarrow> byte" where
  "length_byte n i = ucast (drop_bit (i * 8) (bit_len n) AND 0xFF)"

definition padded :: "str \<Rightarrow> byte list" where
  "padded data =
     (let n = padded_len (length data);
          p = data @ replicate (n - length data) 0;
          p = p[length data := 0x80]
      in fold (\<lambda>i p. p[n - 1 - i := length_byte (length data) i]) [0..<8] p)"

definition initial_state :: regs where
  "initial_state = Regs 0x6A09E667 0xBB67AE85 0x3C6EF372 0xA54FF53A 0x510E527F 0x9B05688C 0x1F83D9AB 0x5BE0CD19"

text \<open>The loop over the blocks of a padded message; its length is a multiple of 64.\<close>

fun process_blocks :: "regs \<Rightarrow> byte list \<Rightarrow> regs" where
  "process_blocks state p = (if p = [] then state else process_blocks (Sha256Transform state (take 64 p)) (drop 64 p))"

declare process_blocks.simps [simp del]

text \<open>\<open>std::hex\<close> with \<open>setw(8)\<close> and \<open>setfill('0')\<close>.\<close>

definition hex_digit :: "nat \<Rightarrow> byte" where
  "hex_digit n = word_of_nat (if n < 10 then 48 + n else 87 + n)"

definition hex32 :: "u32 \<Rightarrow> str" where
  "hex32 w = map (\<lambda>i. hex_digit (unat (drop_bit (4 * i) w) mod 16)) [7, 6, 5, 4, 3, 2, 1, 0]"

fun hex_state :: "regs \<Rightarrow> str" where
  "hex_state (Regs a b c d e f g h) = concat (map hex32 [a, b, c, d, e, f, g, h])"

definition digest :: "byte list \<Rightarrow> str" where
  "digest p = hex_state (process_blocks initial_state p)"

definition Sha256 :: "str \<Rightarrow> str" where
  "Sha256 data = digest (padded data)"

section \<open>The padding of the standard\<close>

text \<open>A 1 bit, zeros up to eight bytes before the end of a block, and the length in bits.\<close>

definition length_field :: "nat \<Rightarrow> byte list" where
  "length_field n = map (length_byte n) [7, 6, 5, 4, 3, 2, 1, 0]"

definition fips_pad :: "str \<Rightarrow> byte list" where
  "fips_pad m = m @ [0x80] @ replicate ((119 - length m mod 64) mod 64) 0 @ length_field (length m)"

section \<open>What the hash is computed over\<close>

lemma fold_length_bytes:
  assumes "length q = 8"
  shows "fold (\<lambda>i p. p[length (r @ q) - 1 - i := f i]) [0..<8] (r @ q) = r @ map f [7, 6, 5, 4, 3, 2, 1, 0]"
proof -
  obtain q0 q1 q2 q3 q4 q5 q6 q7 where q: "q = [q0, q1, q2, q3, q4, q5, q6, q7]"
    using assms by (auto simp: numeral_eq_Suc length_Suc_conv)
  have "[0..<8] = [0, 1, 2, 3, 4, 5, 6, 7 :: nat]" by (simp add: upt_rec)
  then show ?thesis by (simp add: q list_update_append)
qed

lemma padded_len_cases:
  "padded_len n = (if n mod 64 = 56 then n + 8 else n + 9 + (119 - n mod 64) mod 64)"
proof -
  obtain a r where n: "n = 64 * a + r" "r < 64" using mod_less_divisor [of 64 n] by (metis mult_div_mod_eq zero_less_numeral)
  have "(r + 71 + 64 * a) div 64 = a + (r + 71) div 64" by (rule div_mult_self2) simp
  then have "padded_len n = 64 * a + (r + 71) div 64 * 64" using n by (simp add: padded_len_def algebra_simps)
  moreover have "(r + 71) div 64 = (if r \<le> 56 then 1 else 2)" using n(2) by (auto simp: div_eq_dividend_iff intro: div_nat_eqI)
  moreover have "(119 - r) mod 64 = (if r \<le> 55 then 55 - r else 119 - r)"
    using n(2) by (auto simp: mod_if)
  ultimately show ?thesis using n by (auto simp: algebra_simps)
qed

lemma padded_cases:
  "padded m = (if length m mod 64 = 56 then m @ length_field (length m) else fips_pad m)"
proof (cases "length m mod 64 = 56")
  case True
  let ?q = "(replicate 8 (0 :: byte))[0 := 0x80]"
  have "(m @ replicate 8 0)[length m := 0x80] = m @ ?q" by (simp add: list_update_append)
  with fold_length_bytes [of ?q m "length_byte (length m)"] True show ?thesis
    by (simp add: padded_def padded_len_cases length_field_def)
next
  case False
  let ?k = "(119 - length m mod 64) mod 64"
  have e: "replicate (9 + ?k) (0 :: byte) = 0 # replicate ?k 0 @ replicate 8 0"
    by (simp only: replicate_add [symmetric] replicate_Suc [symmetric]) simp
  have "(m @ replicate (9 + ?k) 0)[length m := 0x80] = (m @ 0x80 # replicate ?k 0) @ replicate 8 0"
    using e by (simp add: list_update_append)
  with fold_length_bytes [of "replicate 8 0" "m @ 0x80 # replicate ?k 0" "length_byte (length m)"] False show ?thesis
    by (simp add: padded_def padded_len_cases length_field_def fips_pad_def Let_def del: upt_rec_numeral)
qed

text \<open>The length field determines the length, so no two messages are padded alike.\<close>

lemma length_field_inj:
  assumes "length_field n = length_field n'" "n < 2 ^ 61" "n' < 2 ^ 61"
  shows "n = n'"
proof -
  have b: "length_byte n i = length_byte n' i" if "i < 8" for i
    using that assms(1) by (auto simp: length_field_def less_Suc_eq numeral_eq_Suc)
  have bits: "bit (bit_len k) j \<longleftrightarrow> bit (length_byte k (j div 8)) (j mod 8)" if "j < 64" for k j
  proof -
    have m: "j mod 8 < 8" by simp
    then have "bit (0xFF :: i64) (j mod 8)" using bit_mask_iff [of "8" "j mod 8", where 'a = i64] by (simp add: mask_eq_exp_minus_1)
    with m that show ?thesis
      by (simp add: length_byte_def bit_ucast_iff bit_and_iff bit_drop_bit_eq)
  qed
  have e: "bit_len n = bit_len n'"
  proof (rule bit_word_eqI)
    fix j
    assume j: "j < LENGTH(64)"
    then have "j div 8 < 8" by (simp add: less_mult_imp_div_less)
    then show "bit (bit_len n) j = bit (bit_len n') j" using bits [of j] b [of "j div 8"] j by simp
  qed
  have u: "unat (bit_len k) = k * 8" if "k < 2 ^ 61" for k
    unfolding bit_len_def unat_of_nat using that by (simp add: take_bit_eq_mod)
  have "n * 8 = n' * 8" unfolding u [OF assms(2), symmetric] u [OF assms(3), symmetric] by (simp add: e)
  then show ?thesis by simp
qed

lemma length_padded: "length (padded m) = padded_len (length m)"
  by (simp add: padded_cases padded_len_cases fips_pad_def length_field_def)

lemma padded_ends: "\<exists>r. padded m = m @ r @ length_field (length m)"
  by (auto simp: padded_cases fips_pad_def)

lemma padded_inj:
  assumes "padded m = padded m'" "length m < 2 ^ 61" "length m' < 2 ^ 61"
  shows "m = m'"
proof -
  obtain r r' where r: "padded m = m @ r @ length_field (length m)" "padded m' = m' @ r' @ length_field (length m')"
    using padded_ends by blast
  have "length (length_field k) = 8" for k by (simp add: length_field_def)
  then have l: "length (length_field (length m)) = length (length_field (length m'))" by simp
  have "(m @ r) @ length_field (length m) = (m' @ r') @ length_field (length m')"
    using r assms(1) by (metis append_assoc)
  then have "length_field (length m) = length_field (length m')" using l append_eq_append_conv by blast
  then have "length m = length m'" by (rule length_field_inj) (fact assms(2,3))+
  moreover have "m @ r @ length_field (length m) = m' @ r' @ length_field (length m')" using r assms(1) by metis
  ultimately show ?thesis using append_eq_append_conv by blast
qed

end
