(* ===== verification/Auth_Manager.thy ===== *)
theory Auth_Manager
  imports Sha256 Goods_Handler Tuples
begin

text \<open>
  The account manager (sql/security/auth_manager.h and .cpp): users, privileges and blocked hosts, kept in
  caches and in three heap tables. The caches are lists in the order of the vectors. The salt that
  \<open>GenerateSalt\<close> draws and the time the steady clock shows (in nanoseconds) are arguments. The buffer pool is
  threaded through; \<open>dm_\<close> is its disk manager. Unlike the theories of the storage engine, this one keeps
  account of the page latch of the iterator: \<open>MarkDelete\<close> asks for the write latch of its page, and a thread that
  holds the read latch of the same page through an iterator waits for itself. \<open>None\<close> is a call that does not
  return or whose assertion fails.
\<close>

section \<open>Privileges\<close>

datatype Privilege = PRIV_NONE | PRIV_SELECT | PRIV_INSERT | PRIV_UPDATE | PRIV_DELETE | PRIV_CREATE | PRIV_DROP
  | PRIV_INDEX | PRIV_ALTER | PRIV_GRANT | PRIV_ALL

primrec priv_bits :: "Privilege \<Rightarrow> u32" where
  "priv_bits PRIV_NONE = 0"
| "priv_bits PRIV_SELECT = push_bit 0 1"
| "priv_bits PRIV_INSERT = push_bit 1 1"
| "priv_bits PRIV_UPDATE = push_bit 2 1"
| "priv_bits PRIV_DELETE = push_bit 3 1"
| "priv_bits PRIV_CREATE = push_bit 4 1"
| "priv_bits PRIV_DROP = push_bit 5 1"
| "priv_bits PRIV_INDEX = push_bit 6 1"
| "priv_bits PRIV_ALTER = push_bit 7 1"
| "priv_bits PRIV_GRANT = push_bit 8 1"
| "priv_bits PRIV_ALL = 0xFFFFFFFF"

definition HasPrivilege :: "u32 \<Rightarrow> Privilege \<Rightarrow> bool" where
  "HasPrivilege ps required \<longleftrightarrow> ps AND priv_bits required \<noteq> 0"

definition PrivilegeToString :: "Privilege \<Rightarrow> str" where
  "PrivilegeToString p = ascii (case p of
     PRIV_SELECT \<Rightarrow> ''SELECT'' | PRIV_INSERT \<Rightarrow> ''INSERT'' | PRIV_UPDATE \<Rightarrow> ''UPDATE'' | PRIV_DELETE \<Rightarrow> ''DELETE''
   | PRIV_CREATE \<Rightarrow> ''CREATE'' | PRIV_DROP \<Rightarrow> ''DROP'' | PRIV_INDEX \<Rightarrow> ''INDEX'' | PRIV_ALTER \<Rightarrow> ''ALTER''
   | PRIV_GRANT \<Rightarrow> ''GRANT'' | PRIV_ALL \<Rightarrow> ''ALL'' | _ \<Rightarrow> ''NONE'')"

section \<open>The state\<close>

record UserRecord =
  ur_host :: str
  ur_user :: str
  password_hash :: str
  salt :: str

record PrivRecord =
  pr_host :: str
  pr_user :: str
  pr_db :: str
  pr_table :: str
  pr_privileges :: u32

record BlockEntry =
  be_host :: str
  failure_count :: int
  last_failure :: int

text \<open>A system table is \<open>None\<close> until it has been opened or created.\<close>

record auth_manager =
  auth_data_dir :: str
  initialized :: bool
  user_table :: "table_heap option"
  db_table :: "table_heap option"
  tables_priv_table :: "table_heap option"
  user_file_id :: i16
  db_file_id :: i16
  tables_priv_file_id :: i16
  user_cache :: "UserRecord list"
  priv_cache :: "PrivRecord list"
  block_list :: "BlockEntry list"

definition AuthManager :: auth_manager where
  "AuthManager = \<lparr>auth_data_dir = [], initialized = False, user_table = None, db_table = None, tables_priv_table = None,
     user_file_id = 0, db_file_id = 0, tables_priv_file_id = 0, user_cache = [], priv_cache = [], block_list = []\<rparr>"

definition kMaxAuthFailures :: int where "kMaxAuthFailures = 10"

definition kBlockDurationSeconds :: int where "kBlockDurationSeconds = 300"

section \<open>The system tables\<close>

definition plain_column :: "string \<Rightarrow> TypeId \<Rightarrow> i32 \<Rightarrow> column" where
  "plain_column name t len = \<lparr>column_name = ascii name, column_type = t, max_length = len, is_nullable = False,
     is_primary_key = False\<rparr>"

definition user_schema :: schema where
  "user_schema = [plain_column ''host'' VARCHAR 60, plain_column ''user'' VARCHAR 32,
     plain_column ''password_hash'' VARCHAR 64, plain_column ''salt'' VARCHAR 16]"

definition db_schema :: schema where
  "db_schema = [plain_column ''host'' VARCHAR 60, plain_column ''user'' VARCHAR 32,
     plain_column ''db_name'' VARCHAR 64, plain_column ''privileges'' INTEGER 0]"

definition tables_priv_schema :: schema where
  "tables_priv_schema = [plain_column ''host'' VARCHAR 60, plain_column ''user'' VARCHAR 32,
     plain_column ''db_name'' VARCHAR 64, plain_column ''table_name'' VARCHAR 64, plain_column ''privileges'' INTEGER 0]"

definition system_path :: "string \<Rightarrow> auth_manager \<Rightarrow> str" where
  "system_path name a = auth_data_dir a @ ascii ''/'' @ ascii name @ ascii ''.db''"

text \<open>The file id \<open>static_cast<uint16_t>(-1)\<close> stands for a failure; the root page is valid only when the file is.\<close>

definition InitTableFile :: "string \<Rightarrow> str \<Rightarrow> bpm \<Rightarrow> (bpm \<times> i16 \<times> i32) option" where
  "InitTableFile name path b = do {
     (d, file_id) \<leftarrow> CreateFile name (file_name path) (disk_manager b);
     let b = b\<lparr>disk_manager := d\<rparr>;
     if file_id = - 1 then Some (b, - 1, INVALID_PAGE_ID)
     else do {
       (d, root_page_id) \<leftarrow> AllocatePage file_id d;
       let b = b\<lparr>disk_manager := d\<rparr>;
       if root_page_id = INVALID_PAGE_ID then Some (b, file_id, INVALID_PAGE_ID)
       else
         (case init_root_page root_page_id b of
            None \<Rightarrow> Some (fst (FetchPage root_page_id b), file_id, INVALID_PAGE_ID)
          | Some b \<Rightarrow> Some (b, file_id, root_page_id)) } }"

text \<open>Files that were opened before one is missing stay open.\<close>

definition OpenSystemTables :: "auth_manager \<times> bpm \<Rightarrow> (auth_manager \<times> bpm) \<times> bool" where
  "OpenSystemTables s =
     (let (a, b) = s;
          (d, user_fid) = OpenFile ''__sys_user'' (file_name (system_path ''__sys_user'' a)) (disk_manager b);
          b = b\<lparr>disk_manager := d\<rparr>
      in if user_fid = - 1 then ((a, b), False)
      else let (d, db_fid) = OpenFile ''__sys_db'' (file_name (system_path ''__sys_db'' a)) d;
               b = b\<lparr>disk_manager := d\<rparr>
      in if db_fid = - 1 then ((a, b), False)
      else let (d, tp_fid) = OpenFile ''__sys_tables_priv'' (file_name (system_path ''__sys_tables_priv'' a)) d;
               b = b\<lparr>disk_manager := d\<rparr>
      in if tp_fid = - 1 then ((a, b), False)
      else ((a\<lparr>user_file_id := user_fid, user_table := Some (TableHeap (MakePageId user_fid 1)),
               db_file_id := db_fid, db_table := Some (TableHeap (MakePageId db_fid 1)),
               tables_priv_file_id := tp_fid, tables_priv_table := Some (TableHeap (MakePageId tp_fid 1))\<rparr>, b), True))"

definition CreateSystemTables :: "auth_manager \<times> bpm \<Rightarrow> (auth_manager \<times> bpm) option" where
  "CreateSystemTables s = do {
     let (a, b) = s;
     (b, user_fid, user_root) \<leftarrow> InitTableFile ''__sys_user'' (system_path ''__sys_user'' a) b;
     if user_fid = - 1 \<or> user_root = INVALID_PAGE_ID then Some (a, b)
     else do {
       let a = a\<lparr>user_file_id := user_fid, user_table := Some (TableHeap user_root)\<rparr>;
       (b, db_fid, db_root) \<leftarrow> InitTableFile ''__sys_db'' (system_path ''__sys_db'' a) b;
       if db_fid = - 1 \<or> db_root = INVALID_PAGE_ID then Some (a, b)
       else do {
         let a = a\<lparr>db_file_id := db_fid, db_table := Some (TableHeap db_root)\<rparr>;
         (b, tp_fid, tp_root) \<leftarrow> InitTableFile ''__sys_tables_priv'' (system_path ''__sys_tables_priv'' a) b;
         if tp_fid = - 1 \<or> tp_root = INVALID_PAGE_ID then Some (a, b)
         else Some (a\<lparr>tables_priv_file_id := tp_fid, tables_priv_table := Some (TableHeap tp_root)\<rparr>, b) } } }"

section \<open>Rows of the system tables\<close>

definition text_field :: "byte list \<Rightarrow> schema \<Rightarrow> nat \<Rightarrow> str option" where
  "text_field d s i = Option.bind (GetValue d (Some s) i) GetAsVarchar"

definition int_field :: "byte list \<Rightarrow> schema \<Rightarrow> nat \<Rightarrow> i32 option" where
  "int_field d s i = Option.bind (GetValue d (Some s) i) GetAsInteger"

definition read_user :: "byte list \<Rightarrow> UserRecord option" where
  "read_user d = do {
     host \<leftarrow> text_field d user_schema 0;
     user \<leftarrow> text_field d user_schema 1;
     hash \<leftarrow> text_field d user_schema 2;
     s \<leftarrow> text_field d user_schema 3;
     Some \<lparr>ur_host = host, ur_user = user, password_hash = hash, salt = s\<rparr> }"

definition read_db_priv :: "byte list \<Rightarrow> PrivRecord option" where
  "read_db_priv d = do {
     host \<leftarrow> text_field d db_schema 0;
     user \<leftarrow> text_field d db_schema 1;
     db \<leftarrow> text_field d db_schema 2;
     p \<leftarrow> int_field d db_schema 3;
     Some \<lparr>pr_host = host, pr_user = user, pr_db = db, pr_table = ascii ''*'', pr_privileges = p\<rparr> }"

definition read_table_priv :: "byte list \<Rightarrow> PrivRecord option" where
  "read_table_priv d = do {
     host \<leftarrow> text_field d tables_priv_schema 0;
     user \<leftarrow> text_field d tables_priv_schema 1;
     db \<leftarrow> text_field d tables_priv_schema 2;
     t \<leftarrow> text_field d tables_priv_schema 3;
     p \<leftarrow> int_field d tables_priv_schema 4;
     Some \<lparr>pr_host = host, pr_user = user, pr_db = db, pr_table = t, pr_privileges = p\<rparr> }"

text \<open>A pass over a table that appends a record for every row; the iterator's destructor ends it.\<close>

partial_function (option) load_rows :: "(byte list \<Rightarrow> 'a option) \<Rightarrow> 'a list \<Rightarrow> titer \<Rightarrow> bpm \<Rightarrow> ('a list \<times> bpm) option" where
  "load_rows read acc it b =
     (if \<not> HasNext it then Some (acc, snd (release_current it b))
      else Option.bind (Next it b) (\<lambda>((rid, tuple), it, b).
        Option.bind (read tuple) (\<lambda>r. load_rows read (acc @ [r]) it b)))"

definition load_table :: "(byte list \<Rightarrow> 'a option) \<Rightarrow> table_heap option \<Rightarrow> 'a list \<Rightarrow> bpm \<Rightarrow> ('a list \<times> bpm) option" where
  "load_table read t acc b =
     (case t of
        None \<Rightarrow> Some (acc, b)
      | Some h \<Rightarrow> do {
          (it, b) \<leftarrow> MakeIterator h b;
          load_rows read acc it b })"

definition LoadUserCache :: "auth_manager \<times> bpm \<Rightarrow> (auth_manager \<times> bpm) option" where
  "LoadUserCache s = do {
     (users, b) \<leftarrow> load_table read_user (user_table (fst s)) (user_cache (fst s)) (snd s);
     Some ((fst s)\<lparr>user_cache := users\<rparr>, b) }"

definition LoadPrivCache :: "auth_manager \<times> bpm \<Rightarrow> (auth_manager \<times> bpm) option" where
  "LoadPrivCache s = do {
     (privs, b) \<leftarrow> load_table read_db_priv (db_table (fst s)) (priv_cache (fst s)) (snd s);
     (privs, b) \<leftarrow> load_table read_table_priv (tables_priv_table (fst s)) privs b;
     Some ((fst s)\<lparr>priv_cache := privs\<rparr>, b) }"

definition user_values :: "UserRecord \<Rightarrow> Value list" where
  "user_values rec = [VVarchar (ur_host rec), VVarchar (ur_user rec), VVarchar (password_hash rec), VVarchar (salt rec)]"

definition db_priv_values :: "PrivRecord \<Rightarrow> Value list" where
  "db_priv_values rec = [VVarchar (pr_host rec), VVarchar (pr_user rec), VVarchar (pr_db rec), VInteger (pr_privileges rec)]"

definition table_priv_values :: "PrivRecord \<Rightarrow> Value list" where
  "table_priv_values rec = [VVarchar (pr_host rec), VVarchar (pr_user rec), VVarchar (pr_db rec), VVarchar (pr_table rec),
     VInteger (pr_privileges rec)]"

text \<open>Whether the insertion succeeds is not looked at.\<close>

definition persist_row :: "table_heap option \<Rightarrow> schema \<Rightarrow> Value list \<Rightarrow> bpm \<Rightarrow> bpm option" where
  "persist_row t s vs b =
     (case t of
        None \<Rightarrow> Some b
      | Some h \<Rightarrow> do {
          tuple \<leftarrow> CreateFromValues vs (Some s);
          map_option fst (heap_InsertTuple h tuple b) })"

definition PersistUser :: "UserRecord \<Rightarrow> auth_manager \<Rightarrow> bpm \<Rightarrow> bpm option" where
  "PersistUser rec a b = persist_row (user_table a) user_schema (user_values rec) b"

definition is_wild :: "str \<Rightarrow> bool" where
  "is_wild s \<longleftrightarrow> s = ascii ''*'' \<or> s = ascii ''%''"

definition PersistPriv :: "PrivRecord \<Rightarrow> auth_manager \<Rightarrow> bpm \<Rightarrow> bpm option" where
  "PersistPriv rec a b =
     (if is_wild (pr_table rec) then persist_row (db_table a) db_schema (db_priv_values rec) b
      else persist_row (tables_priv_table a) tables_priv_schema (table_priv_values rec) b)"

text \<open>
  The loops that delete while they iterate. \<open>Next\<close> has already moved the iterator on; when it still stands on
  the page of the row, it holds the read latch of that page and \<open>MarkDelete\<close> waits for the write latch for ever.
\<close>

definition mark_under :: "titer \<Rightarrow> RID \<Rightarrow> bpm \<Rightarrow> bpm option" where
  "mark_under it rid b =
     (if it_page it \<noteq> None \<and> it_page_id it = rid_page_id rid then None
      else map_option fst (heap_MarkDelete rid b))"

partial_function (option) remove_rows :: "(byte list \<Rightarrow> bool option) \<Rightarrow> titer \<Rightarrow> bpm \<Rightarrow> bpm option" where
  "remove_rows matches it b =
     (if \<not> HasNext it then Some (snd (release_current it b))
      else Option.bind (Next it b) (\<lambda>((rid, tuple), it, b).
        Option.bind (matches tuple) (\<lambda>m.
          Option.bind (if m then mark_under it rid b else Some b) (remove_rows matches it))))"

definition remove_from :: "(byte list \<Rightarrow> bool option) \<Rightarrow> table_heap option \<Rightarrow> bpm \<Rightarrow> bpm option" where
  "remove_from matches t b =
     (case t of
        None \<Rightarrow> Some b
      | Some h \<Rightarrow> do {
          (it, b) \<leftarrow> MakeIterator h b;
          remove_rows matches it b })"

definition user_matches :: "str \<Rightarrow> str \<Rightarrow> byte list \<Rightarrow> bool option" where
  "user_matches user host d = do {
     h \<leftarrow> text_field d user_schema 0;
     u \<leftarrow> text_field d user_schema 1;
     Some (h = host \<and> u = user) }"

definition RemoveUserFromTable :: "str \<Rightarrow> str \<Rightarrow> auth_manager \<Rightarrow> bpm \<Rightarrow> bpm option" where
  "RemoveUserFromTable user host a b = remove_from (user_matches user host) (user_table a) b"

definition db_priv_matches :: "str \<Rightarrow> str \<Rightarrow> str \<Rightarrow> byte list \<Rightarrow> bool option" where
  "db_priv_matches user host db d = do {
     h \<leftarrow> text_field d db_schema 0;
     u \<leftarrow> text_field d db_schema 1;
     n \<leftarrow> text_field d db_schema 2;
     Some (h = host \<and> u = user \<and> n = db) }"

definition table_priv_matches :: "str \<Rightarrow> str \<Rightarrow> str \<Rightarrow> str \<Rightarrow> byte list \<Rightarrow> bool option" where
  "table_priv_matches user host db table d = do {
     h \<leftarrow> text_field d tables_priv_schema 0;
     u \<leftarrow> text_field d tables_priv_schema 1;
     n \<leftarrow> text_field d tables_priv_schema 2;
     t \<leftarrow> text_field d tables_priv_schema 3;
     Some (h = host \<and> u = user \<and> n = db \<and> t = table) }"

definition RemovePrivFromTable :: "str \<Rightarrow> str \<Rightarrow> str \<Rightarrow> str \<Rightarrow> auth_manager \<Rightarrow> bpm \<Rightarrow> bpm option" where
  "RemovePrivFromTable user host db table a b = do {
     b \<leftarrow> remove_from (db_priv_matches user host db) (db_table a) b;
     remove_from (table_priv_matches user host db table) (tables_priv_table a) b }"

section \<open>Lookups\<close>

definition is_loopback :: "str \<Rightarrow> bool" where
  "is_loopback host \<longleftrightarrow> host = ascii ''127.0.0.1'' \<or> host = ascii ''::1''"

definition FindUser :: "str \<Rightarrow> str \<Rightarrow> auth_manager \<Rightarrow> UserRecord option" where
  "FindUser user host a =
     (let lookup = (\<lambda>h. find (\<lambda>r. ur_user r = user \<and> ur_host r = h) (user_cache a)) in
      case lookup host of
        Some r \<Rightarrow> Some r
      | None \<Rightarrow>
          (case (if is_loopback host then lookup (ascii ''localhost'') else None) of
             Some r \<Rightarrow> Some r
           | None \<Rightarrow> lookup (ascii ''%'')))"

text \<open>The score of a record, \<open>None\<close> where the loop goes on with the next one.\<close>

definition host_score :: "str \<Rightarrow> PrivRecord \<Rightarrow> int option" where
  "host_score host r =
     (if pr_host r = host then Some 4
      else if is_loopback host \<and> pr_host r = ascii ''localhost'' then Some 3
      else if pr_host r = ascii ''%'' then Some 2 else None)"

definition match_score :: "str \<Rightarrow> str \<Rightarrow> str \<Rightarrow> str \<Rightarrow> PrivRecord \<Rightarrow> int option" where
  "match_score user host db table r =
     (if pr_user r \<noteq> user then None
      else do {
        h \<leftarrow> host_score host r;
        d \<leftarrow> (if pr_db r = db then Some 3 else if is_wild (pr_db r) then Some 1 else None);
        t \<leftarrow> (if pr_table r = table then Some 2 else if is_wild (pr_table r) then Some 0 else None);
        Some (h + d + t) })"

fun best_match_loop :: "(PrivRecord \<Rightarrow> int option) \<Rightarrow> PrivRecord option \<Rightarrow> int \<Rightarrow> PrivRecord list \<Rightarrow> PrivRecord option" where
  "best_match_loop score best best_score [] = best"
| "best_match_loop score best best_score (r # rs) =
     (case score r of
        None \<Rightarrow> best_match_loop score best best_score rs
      | Some n \<Rightarrow>
          if n > best_score then best_match_loop score (Some r) n rs
          else best_match_loop score best best_score rs)"

definition FindBestMatch :: "str \<Rightarrow> str \<Rightarrow> str \<Rightarrow> str \<Rightarrow> auth_manager \<Rightarrow> PrivRecord option" where
  "FindBestMatch user host db table a = best_match_loop (match_score user host db table) None (- 1) (priv_cache a)"

definition HashPassword :: "str \<Rightarrow> str \<Rightarrow> str" where
  "HashPassword password s = Sha256 (password @ s)"

section \<open>Blocked hosts\<close>

text \<open>\<open>duration_cast<seconds>\<close> of the time since the last failure; the steady clock does not go back.\<close>

definition elapsed_seconds :: "int \<Rightarrow> BlockEntry \<Rightarrow> int" where
  "elapsed_seconds now e = (now - last_failure e) div 1000000000"

fun record_failure :: "str \<Rightarrow> int \<Rightarrow> BlockEntry list \<Rightarrow> BlockEntry list" where
  "record_failure host now [] = [\<lparr>be_host = host, failure_count = 1, last_failure = now\<rparr>]"
| "record_failure host now (e # es) =
     (if be_host e = host then
        (let n = (if elapsed_seconds now e > kBlockDurationSeconds then 0 else failure_count e)
         in e\<lparr>failure_count := n + 1, last_failure := now\<rparr> # es)
      else e # record_failure host now es)"

definition RecordAuthFailure :: "str \<Rightarrow> int \<Rightarrow> auth_manager \<Rightarrow> auth_manager" where
  "RecordAuthFailure host now a = a\<lparr>block_list := record_failure host now (block_list a)\<rparr>"

definition IsHostBlocked :: "str \<Rightarrow> int \<Rightarrow> auth_manager \<Rightarrow> bool" where
  "IsHostBlocked host now a =
     (case find (\<lambda>e. be_host e = host) (block_list a) of
        None \<Rightarrow> False
      | Some e \<Rightarrow> if elapsed_seconds now e > kBlockDurationSeconds then False else failure_count e \<ge> kMaxAuthFailures)"

definition ClearBlockList :: "auth_manager \<Rightarrow> auth_manager" where
  "ClearBlockList a = a\<lparr>block_list := []\<rparr>"

section \<open>The operations\<close>

definition CheckConnection :: "str \<Rightarrow> str \<Rightarrow> str \<Rightarrow> int \<Rightarrow> auth_manager \<Rightarrow> bool" where
  "CheckConnection host user password now a =
     (if IsHostBlocked host now a then False
      else case FindUser user host a of
        None \<Rightarrow> False
      | Some r \<Rightarrow> HashPassword password (salt r) = password_hash r)"

definition CheckAccess :: "str \<Rightarrow> str \<Rightarrow> str \<Rightarrow> str \<Rightarrow> Privilege \<Rightarrow> auth_manager \<Rightarrow> bool" where
  "CheckAccess user host db table required_priv a =
     (case FindBestMatch user host db table a of
        None \<Rightarrow> False
      | Some r \<Rightarrow> HasPrivilege (pr_privileges r) required_priv)"

definition new_user :: "str \<Rightarrow> str \<Rightarrow> str \<Rightarrow> str \<Rightarrow> UserRecord" where
  "new_user user host password s = \<lparr>ur_host = host, ur_user = user, password_hash = HashPassword password s, salt = s\<rparr>"

definition add_user :: "UserRecord \<Rightarrow> auth_manager \<times> bpm \<Rightarrow> (auth_manager \<times> bpm) option" where
  "add_user rec s =
     (let a = (fst s)\<lparr>user_cache := user_cache (fst s) @ [rec]\<rparr> in map_option (Pair a) (PersistUser rec a (snd s)))"

definition CreateUser :: "str \<Rightarrow> str \<Rightarrow> str \<Rightarrow> str \<Rightarrow> auth_manager \<times> bpm \<Rightarrow> ((auth_manager \<times> bpm) \<times> bool) option" where
  "CreateUser user host password new_salt s =
     (if FindUser user host (fst s) \<noteq> None then Some (s, False)
      else map_option (\<lambda>s. (s, True)) (add_user (new_user user host password new_salt) s))"

text \<open>\<open>find_if\<close> and \<open>erase\<close>: the first element that satisfies the test is removed.\<close>

fun erase_first :: "('a \<Rightarrow> bool) \<Rightarrow> 'a list \<Rightarrow> 'a list" where
  "erase_first P [] = []"
| "erase_first P (x # xs) = (if P x then xs else x # erase_first P xs)"

definition DropUser :: "str \<Rightarrow> str \<Rightarrow> auth_manager \<times> bpm \<Rightarrow> ((auth_manager \<times> bpm) \<times> bool) option" where
  "DropUser user host s =
     (let (a, b) = s;
          is_user = (\<lambda>r. ur_user r = user \<and> ur_host r = host)
      in if \<not> list_ex is_user (user_cache a) then Some (s, False)
      else do {
        let a = a\<lparr>user_cache := erase_first is_user (user_cache a),
                  priv_cache := filter (\<lambda>p. \<not> (pr_user p = user \<and> pr_host p = host)) (priv_cache a)\<rparr>;
        b \<leftarrow> RemoveUserFromTable user host a b;
        b \<leftarrow> RemovePrivFromTable user host (ascii ''*'') (ascii ''*'') a b;
        Some ((a, b), True) })"

text \<open>The loops over a cache that change the first record with the given key.\<close>

fun update_first :: "('a \<Rightarrow> bool) \<Rightarrow> ('a \<Rightarrow> 'a) \<Rightarrow> 'a list \<Rightarrow> 'a list" where
  "update_first P f [] = []"
| "update_first P f (x # xs) = (if P x then f x # xs else x # update_first P f xs)"

definition SetPassword :: "str \<Rightarrow> str \<Rightarrow> str \<Rightarrow> str \<Rightarrow> auth_manager \<times> bpm \<Rightarrow> ((auth_manager \<times> bpm) \<times> bool) option" where
  "SetPassword user host new_password new_salt s =
     (let (a, b) = s;
          is_user = (\<lambda>r. ur_user r = user \<and> ur_host r = host);
          change = (\<lambda>r. r\<lparr>salt := new_salt, password_hash := HashPassword new_password new_salt\<rparr>)
      in case find is_user (user_cache a) of
        None \<Rightarrow> Some (s, False)
      | Some r \<Rightarrow> do {
          let a = a\<lparr>user_cache := update_first is_user change (user_cache a)\<rparr>;
          b \<leftarrow> RemoveUserFromTable user host a b;
          b \<leftarrow> PersistUser (change r) a b;
          Some ((a, b), True) })"

definition AlterUserPassword :: "str \<Rightarrow> str \<Rightarrow> str \<Rightarrow> str \<Rightarrow> auth_manager \<times> bpm \<Rightarrow> ((auth_manager \<times> bpm) \<times> bool) option" where
  "AlterUserPassword user host new_password new_salt s = SetPassword user host new_password new_salt s"

definition priv_key :: "str \<Rightarrow> str \<Rightarrow> str \<Rightarrow> str \<Rightarrow> PrivRecord \<Rightarrow> bool" where
  "priv_key user host db table r \<longleftrightarrow> pr_user r = user \<and> pr_host r = host \<and> pr_db r = db \<and> pr_table r = table"

definition GrantPrivilege :: "str \<Rightarrow> str \<Rightarrow> str \<Rightarrow> str \<Rightarrow> u32 \<Rightarrow> auth_manager \<times> bpm \<Rightarrow> ((auth_manager \<times> bpm) \<times> bool) option" where
  "GrantPrivilege user host db table ps s =
     (let (a, b) = s;
          is_priv = priv_key user host db table;
          change = (\<lambda>r. r\<lparr>pr_privileges := pr_privileges r OR ps\<rparr>)
      in case find is_priv (priv_cache a) of
        Some r \<Rightarrow> do {
          b \<leftarrow> RemovePrivFromTable user host db table a b;
          let a = a\<lparr>priv_cache := update_first is_priv change (priv_cache a)\<rparr>;
          b \<leftarrow> PersistPriv (change r) a b;
          Some ((a, b), True) }
      | None \<Rightarrow> do {
          let r = \<lparr>pr_host = host, pr_user = user, pr_db = db, pr_table = table, pr_privileges = ps\<rparr>;
          let a = a\<lparr>priv_cache := priv_cache a @ [r]\<rparr>;
          b \<leftarrow> PersistPriv r a b;
          Some ((a, b), True) })"

definition RevokePrivilege :: "str \<Rightarrow> str \<Rightarrow> str \<Rightarrow> str \<Rightarrow> u32 \<Rightarrow> auth_manager \<times> bpm \<Rightarrow> ((auth_manager \<times> bpm) \<times> bool) option" where
  "RevokePrivilege user host db table ps s =
     (let (a, b) = s;
          is_priv = priv_key user host db table;
          change = (\<lambda>r. r\<lparr>pr_privileges := pr_privileges r AND NOT ps\<rparr>)
      in case find is_priv (priv_cache a) of
        None \<Rightarrow> Some (s, False)
      | Some r \<Rightarrow> do {
          b \<leftarrow> RemovePrivFromTable user host db table a b;
          let a = a\<lparr>priv_cache := update_first is_priv change (priv_cache a)\<rparr>;
          b \<leftarrow> (if pr_privileges (change r) \<noteq> 0 then PersistPriv (change r) a b else Some b);
          Some ((a, b), True) })"

definition FlushPrivileges :: "auth_manager \<times> bpm \<Rightarrow> (auth_manager \<times> bpm) option" where
  "FlushPrivileges s = do {
     s \<leftarrow> LoadUserCache ((fst s)\<lparr>user_cache := [], priv_cache := []\<rparr>, snd s);
     LoadPrivCache s }"

definition GetUsers :: "auth_manager \<Rightarrow> UserRecord list" where "GetUsers a = user_cache a"

definition GetPrivileges :: "auth_manager \<Rightarrow> PrivRecord list" where "GetPrivileges a = priv_cache a"

text \<open>The four accounts of a new database, with the four salts that are drawn for them.\<close>

definition CreateDefaultUsers :: "str \<Rightarrow> str \<Rightarrow> str \<Rightarrow> str \<Rightarrow> auth_manager \<times> bpm \<Rightarrow> (auth_manager \<times> bpm) option" where
  "CreateDefaultUsers salt1 salt2 salt3 salt4 s = do {
     s \<leftarrow> add_user (new_user (ascii ''root'') (ascii ''localhost'') [] salt1) s;
     s \<leftarrow> add_user (new_user (ascii ''root'') (ascii ''%'') [] salt2) s;
     s \<leftarrow> add_user (new_user (ascii ''admin'') (ascii ''localhost'') (ascii ''12345'') salt3) s;
     s \<leftarrow> add_user (new_user (ascii ''guest'') (ascii ''localhost'') [] salt4) s;
     (s, _) \<leftarrow> GrantPrivilege (ascii ''root'') (ascii ''%'') (ascii ''*'') (ascii ''*'') (priv_bits PRIV_ALL) s;
     (s, _) \<leftarrow> GrantPrivilege (ascii ''admin'') (ascii ''localhost'') (ascii ''*'') (ascii ''*'') (priv_bits PRIV_ALL) s;
     (s, _) \<leftarrow> GrantPrivilege (ascii ''guest'') (ascii ''localhost'') (ascii ''*'') (ascii ''*'') (priv_bits PRIV_SELECT) s;
     Some s }"

definition auth_Initialize :: "str \<Rightarrow> str \<Rightarrow> str \<Rightarrow> str \<Rightarrow> str \<Rightarrow> auth_manager \<times> bpm \<Rightarrow> (auth_manager \<times> bpm) option" where
  "auth_Initialize data_dir salt1 salt2 salt3 salt4 s =
     (let (s, opened) = OpenSystemTables ((fst s)\<lparr>auth_data_dir := data_dir, initialized := True\<rparr>, snd s) in
      if opened then do {
        s \<leftarrow> LoadUserCache s;
        LoadPrivCache s }
      else do {
        s \<leftarrow> CreateSystemTables s;
        CreateDefaultUsers salt1 salt2 salt3 salt4 s })"

end
