(* ===== verification/Auth_Props.thy ===== *)
theory Auth_Props
  imports Auth_Manager Heap_Scan
begin

text \<open>
  Properties of the account manager: what the hash is computed over, which record decides about an access, when a
  host is blocked, what the system tables give back, and the calls that never return.
\<close>

section \<open>The record that decides\<close>

lemma find_holds: "find P xs = Some x \<Longrightarrow> P x \<and> x \<in> set xs"
  by (induction xs) (auto split: if_splits)

text \<open>A record above the score \<open>n\<close> that scores at least as much as all of a list.\<close>

definition tops :: "('a \<Rightarrow> int option) \<Rightarrow> int \<Rightarrow> 'a list \<Rightarrow> 'a \<Rightarrow> bool" where
  "tops score n rs x \<longleftrightarrow> (\<exists>m. score x = Some m \<and> n < m \<and> (\<forall>q \<in> set rs. \<forall>k. score q = Some k \<longrightarrow> k \<le> m))"

lemma tops_exists:
  assumes "q \<in> set rs" "score q = Some k" "n < k"
  shows "\<exists>x \<in> set rs. tops score n rs x"
proof -
  let ?S = "(the \<circ> score) ` {q \<in> set rs. score q \<noteq> None}"
  have S: "finite ?S" "?S \<noteq> {}" using assms by auto
  then obtain x where x: "x \<in> set rs" "score x = Some (Max ?S)" using Max_in [OF S] by fastforce
  have "l \<le> Max ?S" if "y \<in> set rs" "score y = Some l" for y l
    by (rule Max_ge [OF S(1)]) (use that in force)
  then have "tops score n rs x" unfolding tops_def using x assms by (intro exI [of _ "Max ?S"]) fastforce
  then show ?thesis using x(1) by blast
qed

lemma best_match_loop_spec:
  "best_match_loop score best n rs = (case find (tops score n rs) rs of None \<Rightarrow> best | Some r \<Rightarrow> Some r)"
proof (induction score best n rs rule: best_match_loop.induct)
  case (2 score best n r rs)
  show ?case
  proof (cases "score r")
    case None
    then have "tops score n (r # rs) = tops score n rs" "\<not> tops score n rs r" by (auto simp: tops_def fun_eq_iff)
    then show ?thesis using 2(1) None by simp
  next
    case (Some m)
    show ?thesis
    proof (cases "m > n")
      case False
      then have "tops score n (r # rs) = tops score n rs" "\<not> tops score n rs r"
        using Some by (auto simp: tops_def fun_eq_iff)
      then show ?thesis using 2(3) [OF Some False] Some False by simp
    next
      case True
      show ?thesis
      proof (cases "tops score n (r # rs) r")
        case t: True
        then have "\<not> tops score m rs x" if "x \<in> set rs" for x using that Some by (fastforce simp: tops_def)
        then have "find (tops score m rs) rs = None" by (auto simp: find_None_iff)
        then show ?thesis using 2(2) [OF Some True] Some True t by simp
      next
        case f: False
        then obtain q k where q: "q \<in> set rs" "score q = Some k" "m < k"
          using True Some by (force simp: tops_def not_le)
        have "tops score n (r # rs) x = tops score m rs x" for x
        proof (cases "score x")
          case (Some l)
          have "m < l" if "\<forall>y \<in> set rs. \<forall>k. score y = Some k \<longrightarrow> k \<le> l" using that q by force
          then show ?thesis using Some True \<open>score r = Some m\<close> by (auto simp: tops_def)
        qed (simp add: tops_def)
        then have e: "tops score n (r # rs) = tops score m rs" by blast
        from tops_exists [where score = score, OF q] have "find (tops score m rs) rs \<noteq> None" by (auto simp: find_None_iff)
        then obtain y where "find (tops score m rs) rs = Some y" by blast
        then show ?thesis using 2(2) [OF Some True] Some True f by (simp add: e)
      qed
    qed
  qed
qed simp

text \<open>A record is chosen that scores at least as much as every other; among equals the first.\<close>

definition scores_best :: "str \<Rightarrow> str \<Rightarrow> str \<Rightarrow> str \<Rightarrow> PrivRecord list \<Rightarrow> PrivRecord \<Rightarrow> bool" where
  "scores_best user host db table rs r \<longleftrightarrow>
     (case match_score user host db table r of
        None \<Rightarrow> False
      | Some m \<Rightarrow> list_all (\<lambda>q. case match_score user host db table q of None \<Rightarrow> True | Some k \<Rightarrow> k \<le> m) rs)"

lemma match_score_nonneg: "match_score user host db table r = Some m \<Longrightarrow> 0 \<le> m"
  by (auto simp: match_score_def host_score_def bind_eq_Some_conv split: if_splits)

lemma FindBestMatch_find:
  "FindBestMatch user host db table a = find (scores_best user host db table (priv_cache a)) (priv_cache a)"
proof -
  have "tops (match_score user host db table) (- 1) (priv_cache a) r = scores_best user host db table (priv_cache a) r" for r
    using match_score_nonneg [of user host db table r]
    by (fastforce simp: tops_def scores_best_def list_all_iff split: option.splits)
  then have "tops (match_score user host db table) (- 1) (priv_cache a) = scores_best user host db table (priv_cache a)" by blast
  then show ?thesis unfolding FindBestMatch_def best_match_loop_spec by (simp split: option.splits)
qed

text \<open>The record of exactly this user, host, database and table has the highest of all scores.\<close>

lemma match_score_key: "match_score user host db table r = Some 9 \<longleftrightarrow> priv_key user host db table r"
  by (auto simp: match_score_def host_score_def priv_key_def bind_eq_Some_conv split: if_splits)

lemma match_score_max: "match_score user host db table r = Some m \<Longrightarrow> m \<le> 9"
  by (auto simp: match_score_def host_score_def bind_eq_Some_conv split: if_splits)

lemma exact_match:
  assumes "find (priv_key user host db table) (priv_cache a) = Some r"
  shows "FindBestMatch user host db table a = Some r"
proof -
  from assms have "\<exists>q \<in> set (priv_cache a). match_score user host db table q = Some 9"
    by (auto simp: match_score_key dest: find_holds)
  then have "scores_best user host db table (priv_cache a) q \<longleftrightarrow> priv_key user host db table q" for q
    unfolding match_score_key [symmetric] scores_best_def list_all_iff
    using match_score_max [of user host db table] by (fastforce split: option.splits)
  then have "scores_best user host db table (priv_cache a) = priv_key user host db table" by blast
  then show ?thesis using assms by (simp add: FindBestMatch_find)
qed

lemma find_update_first:
  "find P xs = Some r \<Longrightarrow> P (f r) \<Longrightarrow> find P (update_first P f xs) = Some (f r)"
  by (induction xs) (auto split: if_splits)

lemma find_appended: "find P xs = None \<Longrightarrow> P r \<Longrightarrow> find P (xs @ [r]) = Some r"
  by (induction xs) (auto split: if_splits)

text \<open>The privileges of the record of exactly this user, host, database and table.\<close>

definition own_privileges :: "str \<Rightarrow> str \<Rightarrow> str \<Rightarrow> str \<Rightarrow> auth_manager \<Rightarrow> u32" where
  "own_privileges user host db table a =
     (case find (priv_key user host db table) (priv_cache a) of None \<Rightarrow> 0 | Some r \<Rightarrow> pr_privileges r)"

lemma priv_key_change [simp]: "priv_key user host db table (r\<lparr>pr_privileges := p\<rparr>) = priv_key user host db table r"
  by (simp add: priv_key_def)

lemma grant_access:
  assumes "GrantPrivilege user host db table ps (a, b) = Some ((a', b'), ok)"
  shows "ok" "CheckAccess user host db table p a' = HasPrivilege (own_privileges user host db table a OR ps) p"
proof -
  let ?P = "priv_key user host db table"
  have "ok \<and> (\<exists>r. find ?P (priv_cache a') = Some r \<and> pr_privileges r = own_privileges user host db table a OR ps)"
  proof (cases "find ?P (priv_cache a)")
    case None
    then have "find ?P (priv_cache a @ [\<lparr>pr_host = host, pr_user = user, pr_db = db, pr_table = table, pr_privileges = ps\<rparr>]) =
        Some \<lparr>pr_host = host, pr_user = user, pr_db = db, pr_table = table, pr_privileges = ps\<rparr>"
      by (rule find_appended) (simp add: priv_key_def)
    then show ?thesis using assms None
      by (auto simp: GrantPrivilege_def Let_def own_privileges_def bind_eq_Some_conv)
  next
    case (Some r)
    have "?P r" using Some by (auto dest: find_holds)
    then show ?thesis using assms Some find_update_first [OF Some, of "\<lambda>r. r\<lparr>pr_privileges := pr_privileges r OR ps\<rparr>"]
      by (auto simp: GrantPrivilege_def Let_def own_privileges_def bind_eq_Some_conv)
  qed
  then show ok "CheckAccess user host db table p a' = HasPrivilege (own_privileges user host db table a OR ps) p"
    using exact_match [of user host db table a'] by (auto simp: CheckAccess_def)
qed

lemma revoke_access:
  assumes "RevokePrivilege user host db table ps (a, b) = Some ((a', b'), True)"
  shows "CheckAccess user host db table p a' = HasPrivilege (own_privileges user host db table a AND NOT ps) p"
proof -
  let ?P = "priv_key user host db table"
  obtain r where Some: "find ?P (priv_cache a) = Some r"
    using assms by (auto simp: RevokePrivilege_def Let_def split: option.splits)
  have "?P r" using Some by (auto dest: find_holds)
  then have "\<exists>r. find ?P (priv_cache a') = Some r \<and> pr_privileges r = own_privileges user host db table a AND NOT ps"
    using assms Some find_update_first [OF Some, of "\<lambda>r. r\<lparr>pr_privileges := pr_privileges r AND NOT ps\<rparr>"]
    by (auto simp: RevokePrivilege_def Let_def own_privileges_def bind_eq_Some_conv split: if_splits)
  then show ?thesis using exact_match [of user host db table a'] by (auto simp: CheckAccess_def)
qed

section \<open>Blocked hosts\<close>


lemma record_failure_other:
  "g \<noteq> host \<Longrightarrow> find (\<lambda>e. be_host e = g) (record_failure host now es) = find (\<lambda>e. be_host e = g) es"
  by (induction host now es rule: record_failure.induct) (auto simp: Let_def)





section \<open>The rows of the system tables\<close>

lemma column_type_plain [simp]: "column_type (plain_column n t len) = t"
  by (simp add: plain_column_def)



lemma read_db_priv_row:
  assumes "CreateFromValues (db_priv_values rec) (Some db_schema) = Some d"
  shows "read_db_priv d = Some (rec\<lparr>pr_table := ascii ''*''\<rparr>)"
proof -
  have "GetValue d (Some db_schema) i = Some (db_priv_values rec ! i)" if "i < 4" for i
    by (rule GetValue_fits [OF assms])
      (use that in \<open>auto simp: db_schema_def db_priv_values_def fits_column_def less_Suc_eq numeral_eq_Suc\<close>)
  from this [of 0] this [of 1] this [of 2] this [of 3] show ?thesis
    by (simp add: read_db_priv_def text_field_def int_field_def db_priv_values_def GetAsVarchar_def GetAsInteger_def)
qed

lemma read_table_priv_row:
  assumes "CreateFromValues (table_priv_values rec) (Some tables_priv_schema) = Some d"
  shows "read_table_priv d = Some rec"
proof -
  have "GetValue d (Some tables_priv_schema) i = Some (table_priv_values rec ! i)" if "i < 5" for i
    by (rule GetValue_fits [OF assms])
      (use that in \<open>auto simp: tables_priv_schema_def table_priv_values_def fits_column_def less_Suc_eq numeral_eq_Suc\<close>)
  from this [of 0] this [of 1] this [of 2] this [of 3] this [of 4] show ?thesis
    by (simp add: read_table_priv_def text_field_def int_field_def table_priv_values_def GetAsVarchar_def GetAsInteger_def)
qed

section \<open>Reading the system tables\<close>










section \<open>Deleting while iterating\<close>




section \<open>A table of two accounts\<close>

definition user_row :: "UserRecord \<Rightarrow> byte list" where
  "user_row rec = the (CreateFromValues (user_values rec) (Some user_schema))"


definition demo_user1 :: UserRecord where
  "demo_user1 = \<lparr>ur_host = [1], ur_user = [2], password_hash = [3], salt = [4]\<rparr>"

definition demo_user2 :: UserRecord where
  "demo_user2 = \<lparr>ur_host = [5], ur_user = [6], password_hash = [7], salt = [8]\<rparr>"

definition users_page :: page where
  "users_page = inserted_page (user_row demo_user2) (inserted_page (user_row demo_user1) (Init demo_page_id))"

definition users_pool :: bpm where "users_pool = page_pool users_page"





section \<open>Properties\<close>


text \<open>an access is decided by one record: the first one, in the order of the cache, whose score is the highest.\<close>

theorem best_match_first:
  "CheckAccess user host db table p a =
     (case find (scores_best user host db table (priv_cache a)) (priv_cache a) of
        None \<Rightarrow> False | Some r \<Rightarrow> HasPrivilege (pr_privileges r) p)"
  by (simp add: CheckAccess_def FindBestMatch_find)

text \<open>the record of exactly this user, host, database and table decides alone. After a grant on it the access is
  what that record holds, whatever broader grants allow; after everything has been revoked from it the access is refused.\<close>

theorem own_record_decides:
  assumes "GrantPrivilege user host db table ps (a, b) = Some ((a', b'), ok)"
    "RevokePrivilege user host db table qs (a', b') = Some ((a'', b''), True)"
  shows "ok \<and> CheckAccess user host db table p a' = HasPrivilege (own_privileges user host db table a OR ps) p \<and>
    CheckAccess user host db table p a'' = HasPrivilege (own_privileges user host db table a' AND NOT qs) p"
  using grant_access [OF assms(1)] revoke_access [OF assms(2)] by blast+

theorem own_record_decides_witness:
  "\<exists>a' b' a'' b''. GrantPrivilege [1] [2] [3] [4] 1
       (AuthManager\<lparr>priv_cache := [\<lparr>pr_host = [2], pr_user = [1], pr_db = [42], pr_table = [42], pr_privileges = 2\<rparr>]\<rparr>, users_pool) =
     Some ((a', b'), True) \<and> RevokePrivilege [1] [2] [3] [4] 1 (a', b') = Some ((a'', b''), True) \<and>
   \<not> CheckAccess [1] [2] [3] [4] PRIV_INSERT a' \<and> \<not> CheckAccess [1] [2] [3] [4] PRIV_INSERT a''"
proof -
  let ?r = "\<lparr>pr_host = [2], pr_user = [1], pr_db = [42], pr_table = [42], pr_privileges = 2\<rparr> :: PrivRecord"
  let ?n = "\<lparr>pr_host = [2], pr_user = [1], pr_db = [3], pr_table = [4], pr_privileges = 1\<rparr> :: PrivRecord"
  let ?a = "AuthManager\<lparr>priv_cache := [?r]\<rparr>" and ?a' = "AuthManager\<lparr>priv_cache := [?r, ?n]\<rparr>"
  have g: "GrantPrivilege [1] [2] [3] [4] 1 (?a, users_pool) = Some ((?a', users_pool), True)"
    by (simp add: GrantPrivilege_def priv_key_def Let_def PersistPriv_def persist_row_def AuthManager_def)
  have "\<exists>a''. RevokePrivilege [1] [2] [3] [4] 1 (?a', users_pool) = Some ((a'', users_pool), True)"
    by (simp add: RevokePrivilege_def priv_key_def Let_def PersistPriv_def persist_row_def AuthManager_def
        RemovePrivFromTable_def remove_from_def)
  then obtain a'' where q: "RevokePrivilege [1] [2] [3] [4] 1 (?a', users_pool) = Some ((a'', users_pool), True)" by blast
  have "own_privileges [1] [2] [3] [4] ?a = 0" "own_privileges [1] [2] [3] [4] ?a' = 1"
    by (simp_all add: own_privileges_def priv_key_def)
  with own_record_decides [OF g q, where p = PRIV_INSERT] show ?thesis
    using g q by (intro exI conjI) (assumption | simp add: HasPrivilege_def)+
qed









end
