(* ===== verification/Transactions.thy ===== *)
theory Transactions
  imports Strings
begin

text \<open>
  The transaction manager (common/transaction_manager.h and sql/transaction_manager.cpp). A pointer is a natural
  number, \<open>txn_heap\<close> holds the transactions that are allocated, and each thread has its own current transaction.
  The address \<open>new\<close> returns, the time of the steady clock and the thread are arguments; \<open>xid_disk\<close> is the content of
  the files and \<open>xid_writable\<close> the paths that can be opened for writing. An operation is one step: its critical
  section together with the atomic counters around it. \<open>None\<close> is a use of freed memory.
\<close>

type_synonym u64 = "64 word"

record Savepoint =
  sp_name :: str
  sp_txn_id :: u64
  created_at :: i64

datatype TxnState = ACTIVE | COMMITTED | ABORTED

datatype IsolationLevel = READ_UNCOMMITTED | READ_COMMITTED | REPEATABLE_READ | SERIALIZABLE

record Transaction =
  txn_id :: u64
  txn_state :: TxnState
  start_ts :: i64
  isolation_level :: IsolationLevel
  savepoints :: "Savepoint list"

definition new_Transaction :: "u64 \<Rightarrow> Transaction" where
  "new_Transaction i = \<lparr>txn_id = i, txn_state = ACTIVE, start_ts = 0, isolation_level = READ_COMMITTED, savepoints = []\<rparr>"

primrec IsolationLevelToString :: "IsolationLevel \<Rightarrow> str" where
  "IsolationLevelToString READ_UNCOMMITTED = ascii ''READ UNCOMMITTED''"
| "IsolationLevelToString READ_COMMITTED = ascii ''READ COMMITTED''"
| "IsolationLevelToString REPEATABLE_READ = ascii ''REPEATABLE READ''"
| "IsolationLevelToString SERIALIZABLE = ascii ''SERIALIZABLE''"

definition IsolationLevelFromString :: "str \<Rightarrow> IsolationLevel" where
  "IsolationLevelFromString s =
     (if s = ascii ''READ UNCOMMITTED'' \<or> s = ascii ''READ-UNCOMMITTED'' then READ_UNCOMMITTED
      else if s = ascii ''READ COMMITTED'' \<or> s = ascii ''READ-COMMITTED'' then READ_COMMITTED
      else if s = ascii ''REPEATABLE READ'' \<or> s = ascii ''REPEATABLE-READ'' then REPEATABLE_READ
      else if s = ascii ''SERIALIZABLE'' then SERIALIZABLE
      else READ_COMMITTED)"

record txn_manager =
  txn_heap :: "nat \<rightharpoonup> Transaction"
  active_txns :: "nat list"
  current_txn :: "nat \<Rightarrow> nat option"
  last_xid :: u64
  xid_file :: str
  default_isolation_level :: IsolationLevel
  total_started :: u64
  total_committed :: u64
  total_rolled_back :: u64
  xid_disk :: "str \<rightharpoonup> str"
  xid_writable :: "str \<Rightarrow> bool"

text \<open>The manager of a process that has just started, on the files that it finds.\<close>

definition TransactionManager :: "(str \<rightharpoonup> str) \<Rightarrow> (str \<Rightarrow> bool) \<Rightarrow> txn_manager" where
  "TransactionManager disk writable =
     \<lparr>txn_heap = Map.empty, active_txns = [], current_txn = (\<lambda>_. None), last_xid = 0, xid_file = [],
      default_isolation_level = READ_COMMITTED, total_started = 0, total_committed = 0, total_rolled_back = 0,
      xid_disk = disk, xid_writable = writable\<rparr>"

section \<open>Transaction identifiers\<close>

text \<open>\<open>file >> xid\<close> into an unsigned 64-bit number: zero when there is no number, the largest one on overflow.\<close>

definition read_u64 :: "str \<Rightarrow> u64" where
  "read_u64 s =
     (case scan_int s of
        None \<Rightarrow> 0
      | Some (n, _) \<Rightarrow> if \<bar>n\<bar> < 2 ^ 64 then word_of_int n else - 1)"

definition WriteXidFile :: "u64 \<Rightarrow> txn_manager \<Rightarrow> txn_manager \<times> bool" where
  "WriteXidFile xid m =
     (if \<not> xid_writable m (xid_file m) then (m, False)
      else (m\<lparr>xid_disk := (xid_disk m)(xid_file m \<mapsto> show_nat (unat xid))\<rparr>, True))"

definition PersistXid :: "txn_manager \<Rightarrow> txn_manager \<times> bool" where
  "PersistXid m = (if xid_file m = [] then (m, True) else WriteXidFile (last_xid m) m)"

definition LoadXid :: "str \<Rightarrow> txn_manager \<Rightarrow> txn_manager \<times> bool" where
  "LoadXid file m =
     (case xid_disk m file of
        None \<Rightarrow> (m\<lparr>last_xid := 1\<rparr>, True)
      | Some s \<Rightarrow> let xid = read_u64 s in if xid > 0 then (m\<lparr>last_xid := xid\<rparr>, True) else (m\<lparr>last_xid := 1\<rparr>, True))"

definition AllocateXid :: "txn_manager \<Rightarrow> txn_manager \<times> u64" where
  "AllocateXid m =
     (let xid = last_xid m + 1;
          m = m\<lparr>last_xid := xid\<rparr>
      in (if xid mod 1000 = 0 \<and> xid_file m \<noteq> [] then fst (WriteXidFile xid m) else m, xid))"

definition Initialize :: "str \<Rightarrow> txn_manager \<Rightarrow> txn_manager" where
  "Initialize file m =
     (let m = (if file \<noteq> [] then fst (LoadXid file (m\<lparr>xid_file := file\<rparr>)) else m)
      in if last_xid m = 0 then m\<lparr>last_xid := 1\<rparr> else m)"

text \<open>The destructor: what remains of the process is its files.\<close>

definition destroy :: "txn_manager \<Rightarrow> txn_manager" where
  "destroy m =
     (let m = fst (PersistXid m)
      in m\<lparr>txn_heap := (\<lambda>p. if p \<in> set (active_txns m) then None else txn_heap m p), active_txns := []\<rparr>)"

section \<open>Transactions\<close>

definition GetCurrentTransaction :: "nat \<Rightarrow> txn_manager \<Rightarrow> nat option" where
  "GetCurrentTransaction th m = current_txn m th"

definition SetCurrentTransaction :: "nat \<Rightarrow> nat option \<Rightarrow> txn_manager \<Rightarrow> txn_manager" where
  "SetCurrentTransaction th txn m = m\<lparr>current_txn := (current_txn m)(th := txn)\<rparr>"

definition GetActiveTransactionCount :: "txn_manager \<Rightarrow> nat" where
  "GetActiveTransactionCount m = length (active_txns m)"

definition SetDefaultIsolationLevel :: "IsolationLevel \<Rightarrow> txn_manager \<Rightarrow> txn_manager" where
  "SetDefaultIsolationLevel level m = m\<lparr>default_isolation_level := level\<rparr>"

definition Begin_level :: "nat \<Rightarrow> i64 \<Rightarrow> nat \<Rightarrow> IsolationLevel \<Rightarrow> txn_manager \<Rightarrow> txn_manager \<times> nat" where
  "Begin_level addr now th level m =
     (let (m, xid) = AllocateXid m;
          txn = (new_Transaction xid)\<lparr>txn_state := ACTIVE, isolation_level := level, start_ts := now\<rparr>;
          m = m\<lparr>txn_heap := (txn_heap m)(addr \<mapsto> txn), active_txns := active_txns m @ [addr]\<rparr>;
          m = SetCurrentTransaction th (Some addr) m
      in (m\<lparr>total_started := total_started m + 1\<rparr>, addr))"

definition Begin :: "nat \<Rightarrow> i64 \<Rightarrow> nat \<Rightarrow> txn_manager \<Rightarrow> txn_manager \<times> nat" where
  "Begin addr now th m = Begin_level addr now th (default_isolation_level m) m"

definition forget :: "nat \<Rightarrow> nat \<Rightarrow> txn_manager \<Rightarrow> txn_manager" where
  "forget th p m =
     (let m = (if current_txn m th = Some p then m\<lparr>current_txn := (current_txn m)(th := None)\<rparr> else m)
      in m\<lparr>txn_heap := (txn_heap m)(p := None)\<rparr>)"

definition Commit :: "nat \<Rightarrow> nat option \<Rightarrow> txn_manager \<Rightarrow> (txn_manager \<times> bool) option" where
  "Commit th txn m =
     (case txn of
        None \<Rightarrow> Some (m, False)
      | Some p \<Rightarrow>
          (case txn_heap m p of
             None \<Rightarrow> None
           | Some t \<Rightarrow>
               if txn_state t \<noteq> ACTIVE then Some (m, False)
               else
                 let m = m\<lparr>txn_heap := (txn_heap m)(p \<mapsto> t\<lparr>txn_state := COMMITTED\<rparr>)\<rparr>;
                     m = m\<lparr>active_txns := remove1 p (active_txns m)\<rparr>;
                     m = fst (PersistXid m);
                     m = m\<lparr>total_committed := total_committed m + 1\<rparr>
                 in Some (forget th p m, True)))"

definition Rollback :: "nat \<Rightarrow> nat option \<Rightarrow> txn_manager \<Rightarrow> (txn_manager \<times> bool) option" where
  "Rollback th txn m =
     (case txn of
        None \<Rightarrow> Some (m, False)
      | Some p \<Rightarrow>
          (case txn_heap m p of
             None \<Rightarrow> None
           | Some t \<Rightarrow>
               if txn_state t \<noteq> ACTIVE then Some (m, False)
               else
                 let m = m\<lparr>txn_heap := (txn_heap m)(p \<mapsto> t\<lparr>txn_state := ABORTED\<rparr>)\<rparr>;
                     m = m\<lparr>active_txns := remove1 p (active_txns m)\<rparr>;
                     m = m\<lparr>total_rolled_back := total_rolled_back m + 1\<rparr>
                 in Some (forget th p m, True)))"

section \<open>Savepoints\<close>

text \<open>An operation on the savepoints of the current transaction.\<close>

definition on_savepoints ::
    "nat \<Rightarrow> (Transaction \<Rightarrow> Savepoint list option) \<Rightarrow> txn_manager \<Rightarrow> (txn_manager \<times> bool) option" where
  "on_savepoints th f m =
     (case GetCurrentTransaction th m of
        None \<Rightarrow> Some (m, False)
      | Some p \<Rightarrow>
          (case txn_heap m p of
             None \<Rightarrow> None
           | Some t \<Rightarrow>
               (case f t of
                  None \<Rightarrow> Some (m, False)
                | Some sps \<Rightarrow> Some (m\<lparr>txn_heap := (txn_heap m)(p \<mapsto> t\<lparr>savepoints := sps\<rparr>)\<rparr>, True))))"

definition new_savepoint :: "str \<Rightarrow> Transaction \<Rightarrow> Savepoint" where
  "new_savepoint name t =
     \<lparr>sp_name = name, sp_txn_id = txn_id t, created_at = word_of_nat (length (savepoints t))\<rparr>"

definition CreateSavepoint :: "nat \<Rightarrow> str \<Rightarrow> txn_manager \<Rightarrow> (txn_manager \<times> bool) option" where
  "CreateSavepoint th name = on_savepoints th (\<lambda>t. Some (savepoints t @ [new_savepoint name t]))"

fun release_first :: "str \<Rightarrow> Savepoint list \<Rightarrow> Savepoint list option" where
  "release_first name [] = None"
| "release_first name (sp # sps) =
     (if sp_name sp = name then Some sps else map_option ((#) sp) (release_first name sps))"

definition ReleaseSavepoint :: "nat \<Rightarrow> str \<Rightarrow> txn_manager \<Rightarrow> (txn_manager \<times> bool) option" where
  "ReleaseSavepoint th name = on_savepoints th (\<lambda>t. release_first name (savepoints t))"

fun keep_to_first :: "str \<Rightarrow> Savepoint list \<Rightarrow> Savepoint list option" where
  "keep_to_first name [] = None"
| "keep_to_first name (sp # sps) =
     (if sp_name sp = name then Some [sp] else map_option ((#) sp) (keep_to_first name sps))"

definition RollbackToSavepoint :: "nat \<Rightarrow> str \<Rightarrow> txn_manager \<Rightarrow> (txn_manager \<times> bool) option" where
  "RollbackToSavepoint th name = on_savepoints th (\<lambda>t. keep_to_first name (savepoints t))"

section \<open>Runs\<close>

text \<open>
  What the server does: every thread works on its own current transaction. A run keeps the ids of the
  transactions committed so far beside the state. The counter of ids is assumed not to be exhausted, and the
  addresses \<open>new\<close> returns not to be in use.
\<close>

inductive txn_step :: "txn_manager \<times> u64 list \<Rightarrow> txn_manager \<times> u64 list \<Rightarrow> bool" where
  begins: "last_xid m \<noteq> - 1 \<Longrightarrow> txn_heap m addr = None \<Longrightarrow>
    txn_step (m, h) (fst (Begin_level addr now th level m), h)"
| commits: "Commit th (Some p) m = Some (m', True) \<Longrightarrow> current_txn m th = Some p \<Longrightarrow> txn_heap m p = Some t \<Longrightarrow>
    txn_step (m, h) (m', txn_id t # h)"
| rolls_back: "current_txn m th = Some p \<Longrightarrow> Rollback th (Some p) m = Some (m', ok) \<Longrightarrow> txn_step (m, h) (m', h)"
| saves: "CreateSavepoint th name m = Some (m', ok) \<Longrightarrow> txn_step (m, h) (m', h)"
| releases: "ReleaseSavepoint th name m = Some (m', ok) \<Longrightarrow> txn_step (m, h) (m', h)"
| rolls_back_to: "RollbackToSavepoint th name m = Some (m', ok) \<Longrightarrow> txn_step (m, h) (m', h)"
| sets_level: "txn_step (m, h) (SetDefaultIsolationLevel level m, h)"

inductive txn_run :: "txn_manager \<Rightarrow> txn_manager \<times> u64 list \<Rightarrow> bool" for m where
  start: "txn_run m (m, [])"
| next_step: "txn_run m s \<Longrightarrow> txn_step s s' \<Longrightarrow> txn_run m s'"

end
