(* ===== verification/Transaction_Props.thy ===== *)
theory Transaction_Props
  imports Transactions
begin

text \<open>
  What the transaction manager guarantees: the invariant of its state over all runs, the identifiers it gives out
  across a restart, and what the operations on savepoints do to the list of savepoints.
\<close>

section \<open>The invariant\<close>

definition txn_ok :: "txn_manager \<Rightarrow> Transaction \<Rightarrow> bool" where
  "txn_ok m t \<longleftrightarrow> txn_state t = ACTIVE \<and> txn_id t \<le> last_xid m \<and> (\<forall>sp\<in>set (savepoints t). sp_txn_id sp = txn_id t)"

definition heap_ok :: "txn_manager \<Rightarrow> bool" where
  "heap_ok m \<longleftrightarrow> distinct (active_txns m) \<and> set (active_txns m) = dom (txn_heap m) \<and>
     (\<forall>p t. txn_heap m p = Some t \<longrightarrow> txn_ok m t) \<and>
     (\<forall>p q t u. txn_heap m p = Some t \<longrightarrow> txn_heap m q = Some u \<longrightarrow> txn_id t = txn_id u \<longrightarrow> p = q)"

definition threads_ok :: "txn_manager \<Rightarrow> bool" where
  "threads_ok m \<longleftrightarrow> (\<forall>th p. current_txn m th = Some p \<longrightarrow> p \<in> set (active_txns m)) \<and>
     (\<forall>th th' p. current_txn m th = Some p \<longrightarrow> current_txn m th' = Some p \<longrightarrow> th = th')"

definition counters_ok :: "txn_manager \<Rightarrow> bool" where
  "counters_ok m \<longleftrightarrow>
     total_started m = total_committed m + total_rolled_back m + word_of_nat (length (active_txns m))"

definition history_ok :: "txn_manager \<Rightarrow> u64 list \<Rightarrow> bool" where
  "history_ok m h \<longleftrightarrow> distinct h \<and> (\<forall>x\<in>set h. x \<le> last_xid m) \<and>
     (\<forall>p t. txn_heap m p = Some t \<longrightarrow> txn_id t \<notin> set h) \<and> total_committed m = word_of_nat (length h)"

definition disk_ok :: "txn_manager \<Rightarrow> u64 list \<Rightarrow> bool" where
  "disk_ok m h \<longleftrightarrow> (xid_file m \<noteq> [] \<and> xid_writable m (xid_file m) \<longrightarrow>
     (\<forall>x\<in>set h. \<exists>s. xid_disk m (xid_file m) = Some s \<and> x \<le> read_u64 s))"

definition txn_inv :: "txn_manager \<times> u64 list \<Rightarrow> bool" where
  "txn_inv s \<longleftrightarrow> (case s of (m, h) \<Rightarrow>
     heap_ok m \<and> threads_ok m \<and> counters_ok m \<and> history_ok m h \<and> disk_ok m h)"

text \<open>What is written is what is read.\<close>

lemma read_u64_show [simp]: "read_u64 (show_nat (unat x)) = x"
proof -
  have "scan_int (show_nat (unat x)) = Some (int (unat x), [])"
    using scan_int_padded [of "[]" 0 "unat x"] by (simp add: show_padded_def)
  moreover have "uint x < 2 ^ 64" using uint_bounded [of x] by simp
  ultimately show ?thesis by (simp add: read_u64_def)
qed

lemma WriteXidFile_frame [simp]:
  "txn_heap (fst (WriteXidFile x m)) = txn_heap m" "active_txns (fst (WriteXidFile x m)) = active_txns m"
  "current_txn (fst (WriteXidFile x m)) = current_txn m" "last_xid (fst (WriteXidFile x m)) = last_xid m"
  "xid_file (fst (WriteXidFile x m)) = xid_file m" "xid_writable (fst (WriteXidFile x m)) = xid_writable m"
  "total_started (fst (WriteXidFile x m)) = total_started m"
  "total_committed (fst (WriteXidFile x m)) = total_committed m"
  "total_rolled_back (fst (WriteXidFile x m)) = total_rolled_back m"
  by (simp_all add: WriteXidFile_def)

lemma WriteXidFile_disk:
  "xid_writable m (xid_file m) \<Longrightarrow> xid_disk (fst (WriteXidFile x m)) (xid_file m) = Some (show_nat (unat x))"
  by (simp add: WriteXidFile_def)

lemma PersistXid_frame [simp]:
  "txn_heap (fst (PersistXid m)) = txn_heap m" "active_txns (fst (PersistXid m)) = active_txns m"
  "current_txn (fst (PersistXid m)) = current_txn m" "last_xid (fst (PersistXid m)) = last_xid m"
  "xid_file (fst (PersistXid m)) = xid_file m" "xid_writable (fst (PersistXid m)) = xid_writable m"
  "total_started (fst (PersistXid m)) = total_started m" "total_committed (fst (PersistXid m)) = total_committed m"
  "total_rolled_back (fst (PersistXid m)) = total_rolled_back m"
  by (simp_all add: PersistXid_def)

lemma PersistXid_disk:
  "xid_file m \<noteq> [] \<Longrightarrow> xid_writable m (xid_file m) \<Longrightarrow>
     xid_disk (fst (PersistXid m)) (xid_file m) = Some (show_nat (unat (last_xid m)))"
  by (simp add: PersistXid_def WriteXidFile_disk)

section \<open>Begin\<close>

lemma next_xid:
  fixes x :: u64
  assumes "x \<noteq> - 1"
  shows "x < x + 1" and "y \<le> x \<Longrightarrow> y < x + 1"
proof -
  have "1 + x \<noteq> 0" using assms by (metis add.commute add_eq_0_iff)
  then have "unat (x + 1) = Suc (unat x)" using unatSuc [of x] by (simp add: add.commute)
  then show less: "x < x + 1" by (simp add: word_less_nat_alt)
  show "y < x + 1" if "y \<le> x" using that less by (rule le_less_trans)
qed

lemma Begin_state:
  assumes "Begin_level addr now th level m = (m', p)"
  shows "p = addr" and "last_xid m' = last_xid m + 1" and "active_txns m' = active_txns m @ [addr]"
    and "txn_heap m' = (txn_heap m)(addr \<mapsto> \<lparr>txn_id = last_xid m + 1, txn_state = ACTIVE, start_ts = now,
           isolation_level = level, savepoints = []\<rparr>)"
    and "current_txn m' = (current_txn m)(th \<mapsto> addr)" and "xid_file m' = xid_file m"
    and "xid_writable m' = xid_writable m" and "total_started m' = total_started m + 1"
    and "total_committed m' = total_committed m" and "total_rolled_back m' = total_rolled_back m"
  using assms
  by (auto simp: Begin_level_def AllocateXid_def new_Transaction_def SetCurrentTransaction_def Let_def split: prod.splits
      if_splits)

lemma Begin_disk:
  assumes "Begin_level addr now th level m = (m', p)"
  shows "xid_disk m' = xid_disk m \<or>
    (xid_writable m (xid_file m) \<and> xid_disk m' = (xid_disk m)(xid_file m \<mapsto> show_nat (unat (last_xid m + 1))))"
  using assms
  by (auto simp: Begin_level_def AllocateXid_def SetCurrentTransaction_def WriteXidFile_def Let_def split: prod.splits
      if_splits)

lemma begin_inv:
  assumes inv: "txn_inv (m, h)" and b: "Begin_level addr now th level m = (m', p)"
    and n: "last_xid m \<noteq> - 1" and free: "txn_heap m addr = None"
  shows "txn_inv (m', h)"
proof -
  note s = Begin_state [OF b] and i = inv [unfolded txn_inv_def, simplified]
  have up: "y \<le> last_xid m \<Longrightarrow> y \<le> last_xid m + 1 \<and> y \<noteq> last_xid m + 1" for y
    using next_xid(2) [OF n, of y] by auto
  have ids: "txn_heap m q = Some t \<Longrightarrow> txn_id t \<noteq> last_xid m + 1" for q t
    using i up [of "txn_id t"] by (auto simp: heap_ok_def txn_ok_def)
  have notin: "addr \<notin> set (active_txns m)" using i free by (auto simp: heap_ok_def)
  have "heap_ok m'"
    unfolding heap_ok_def
  proof (intro conjI allI impI)
    show "distinct (active_txns m')" "set (active_txns m') = dom (txn_heap m')"
      using i notin by (auto simp: heap_ok_def s)
  next
    fix q t assume "txn_heap m' q = Some t"
    then show "txn_ok m' t" using i up [of "txn_id t"] by (auto simp: heap_ok_def txn_ok_def s split: if_splits)
  next
    fix q r t u assume "txn_heap m' q = Some t" "txn_heap m' r = Some u" "txn_id t = txn_id u"
    then show "q = r" using i ids [of q t] ids [of r u] by (auto simp: heap_ok_def s split: if_splits)
  qed
  moreover have "threads_ok m'" using i notin by (auto simp: threads_ok_def s split: if_splits)
  moreover have "counters_ok m'" using i by (simp add: counters_ok_def s)
  moreover have "history_ok m' h" using i up by (auto simp: history_ok_def s split: if_splits)
  moreover have "disk_ok m' h"
    using i Begin_disk [OF b] up by (auto simp: disk_ok_def history_ok_def s)
  ultimately show ?thesis by (simp add: txn_inv_def)
qed

section \<open>Commit and rollback\<close>

lemma forget_frame [simp]:
  "txn_heap (forget th p m) = (txn_heap m)(p := None)" "active_txns (forget th p m) = active_txns m"
  "last_xid (forget th p m) = last_xid m" "xid_file (forget th p m) = xid_file m"
  "xid_writable (forget th p m) = xid_writable m" "xid_disk (forget th p m) = xid_disk m"
  "total_started (forget th p m) = total_started m" "total_committed (forget th p m) = total_committed m"
  "total_rolled_back (forget th p m) = total_rolled_back m"
  by (simp_all add: forget_def Let_def)

lemma forget_current: "current_txn (forget th p m) t = (if current_txn m th = Some p \<and> t = th then None else current_txn m t)"
  by (simp add: forget_def Let_def)

text \<open>The end of a transaction, whichever it is.\<close>

lemma ended_ok:
  assumes h: "heap_ok m" and t: "threads_ok m" and cur: "current_txn m th = Some p"
    and heap: "txn_heap m' = (txn_heap m)(p := None)" and act: "active_txns m' = remove1 p (active_txns m)"
    and last: "last_xid m' = last_xid m" and curs: "current_txn m' = (current_txn m)(th := None)"
  shows "heap_ok m' \<and> threads_ok m' \<and>
    word_of_nat (length (active_txns m)) = (word_of_nat (length (active_txns m')) + 1 :: u64)"
proof -
  have p: "p \<in> set (active_txns m)" using t cur by (auto simp: threads_ok_def)
  have "heap_ok m'" using h by (auto simp: heap_ok_def txn_ok_def heap act last split: if_splits)
  moreover have "threads_ok m'"
    using t cur h by (auto simp: threads_ok_def heap_ok_def act curs split: if_splits)
  moreover have "length (active_txns m) = Suc (length (active_txns m'))"
    using p length_pos_if_in_set [OF p] by (simp add: act length_remove1)
  ultimately show ?thesis by simp
qed

lemma Commit_state:
  assumes "Commit th (Some p) m = Some (m', ok)" "txn_heap m p = Some t" "txn_state t = ACTIVE"
    "current_txn m th = Some p"
  shows "ok" and "txn_heap m' = (txn_heap m)(p := None)" and "active_txns m' = remove1 p (active_txns m)"
    and "last_xid m' = last_xid m" and "current_txn m' = (current_txn m)(th := None)" and "xid_file m' = xid_file m"
    and "xid_writable m' = xid_writable m" and "total_started m' = total_started m"
    and "total_committed m' = total_committed m + 1" and "total_rolled_back m' = total_rolled_back m"
  using assms by (auto simp: Commit_def Let_def forget_current fun_eq_iff)

lemma Commit_disk:
  assumes "Commit th (Some p) m = Some (m', True)" "xid_file m \<noteq> []" "xid_writable m (xid_file m)"
    "txn_heap m p = Some t" "txn_state t = ACTIVE"
  shows "xid_disk m' (xid_file m) = Some (show_nat (unat (last_xid m)))"
  using assms
    PersistXid_disk [of "m\<lparr>txn_heap := (txn_heap m)(p \<mapsto> t\<lparr>txn_state := COMMITTED\<rparr>), active_txns := remove1 p (active_txns m)\<rparr>"]
  by (auto simp: Commit_def Let_def)

lemma Rollback_state:
  assumes "Rollback th (Some p) m = Some (m', ok)" "txn_heap m p = Some t" "txn_state t = ACTIVE"
    "current_txn m th = Some p"
  shows "ok" and "txn_heap m' = (txn_heap m)(p := None)" and "active_txns m' = remove1 p (active_txns m)"
    and "last_xid m' = last_xid m" and "current_txn m' = (current_txn m)(th := None)" and "xid_file m' = xid_file m"
    and "xid_writable m' = xid_writable m" and "total_started m' = total_started m"
    and "total_committed m' = total_committed m" and "total_rolled_back m' = total_rolled_back m + 1"
    and "xid_disk m' = xid_disk m"
  using assms by (auto simp: Rollback_def Let_def forget_current fun_eq_iff)


lemma commit_inv:
  assumes inv: "txn_inv (m, h)" and c: "Commit th (Some p) m = Some (m', True)" and cur: "current_txn m th = Some p"
    and t: "txn_heap m p = Some t"
  shows "txn_inv (m', txn_id t # h)"
proof -
  note i = inv [unfolded txn_inv_def, simplified]
  have act: "txn_state t = ACTIVE" and le: "txn_id t \<le> last_xid m" using i t by (auto simp: heap_ok_def txn_ok_def)
  note s = Commit_state [OF c t act cur]
  have e: "heap_ok m' \<and> threads_ok m' \<and>
      word_of_nat (length (active_txns m)) = (word_of_nat (length (active_txns m')) + 1 :: u64)"
    using i by (intro ended_ok [where th = th and p = p]) (simp_all add: cur s)
  have "counters_ok m'" using i e by (simp add: counters_ok_def s add_ac)
  moreover have "history_ok m' (txn_id t # h)"
    using i t le by (auto simp: history_ok_def heap_ok_def s split: if_splits)
  moreover have "disk_ok m' (txn_id t # h)"
    using i le Commit_disk [OF c _ _ t act] by (auto simp: disk_ok_def history_ok_def s)
  ultimately show ?thesis using e by (simp add: txn_inv_def)
qed

lemma rollback_inv:
  assumes inv: "txn_inv (m, h)" and c: "Rollback th (Some p) m = Some (m', ok)" and cur: "current_txn m th = Some p"
  shows "txn_inv (m', h)"
proof -
  note i = inv [unfolded txn_inv_def, simplified]
  obtain t where t: "txn_heap m p = Some t" using c by (auto simp: Rollback_def split: option.splits)
  have act: "txn_state t = ACTIVE" using i t by (auto simp: heap_ok_def txn_ok_def)
  note s = Rollback_state [OF c t act cur]
  have e: "heap_ok m' \<and> threads_ok m' \<and>
      word_of_nat (length (active_txns m)) = (word_of_nat (length (active_txns m')) + 1 :: u64)"
    using i by (intro ended_ok [where th = th and p = p]) (simp_all add: cur s)
  have "counters_ok m'" using i e by (simp add: counters_ok_def s add_ac)
  moreover have "history_ok m' h" using i by (auto simp: history_ok_def s split: if_splits)
  moreover have "disk_ok m' h" using i by (simp add: disk_ok_def s)
  ultimately show ?thesis using e by (simp add: txn_inv_def)
qed

section \<open>Savepoints\<close>

lemma on_savepoints_state:
  assumes "on_savepoints th f m = Some (m', ok)"
  shows "m' = m \<or> (\<exists>p t sps. current_txn m th = Some p \<and> txn_heap m p = Some t \<and> f t = Some sps \<and>
    m' = m\<lparr>txn_heap := (txn_heap m)(p \<mapsto> t\<lparr>savepoints := sps\<rparr>)\<rparr>)"
  using assms by (auto simp: on_savepoints_def GetCurrentTransaction_def split: option.splits)

lemma savepoints_inv:
  assumes inv: "txn_inv (m, h)" and s: "on_savepoints th f m = Some (m', ok)"
    and f: "\<And>t sps. f t = Some sps \<Longrightarrow> \<forall>sp\<in>set (savepoints t). sp_txn_id sp = txn_id t \<Longrightarrow>
              \<forall>sp\<in>set sps. sp_txn_id sp = txn_id t"
  shows "txn_inv (m', h)"
  using on_savepoints_state [OF s]
proof (elim disjE exE conjE)
  fix p t sps
  assume p: "txn_heap m p = Some t" "f t = Some sps"
    and m': "m' = m\<lparr>txn_heap := (txn_heap m)(p \<mapsto> t\<lparr>savepoints := sps\<rparr>)\<rparr>"
  note i = inv [unfolded txn_inv_def, simplified]
  have "txn_ok m t" using i p by (auto simp: heap_ok_def)
  then have t: "txn_ok m (t\<lparr>savepoints := sps\<rparr>)" using f [OF p(2)] by (simp add: txn_ok_def)
  have "heap_ok m'"
    using i p(1) t by (auto simp: heap_ok_def txn_ok_def m' split: if_splits)
  then show ?thesis
    using i p(1) by (auto simp: txn_inv_def threads_ok_def counters_ok_def history_ok_def disk_ok_def m' split: if_splits)
qed (use inv in simp)

lemma release_first_set: "release_first name sps = Some sps' \<Longrightarrow> set sps' \<subseteq> set sps"
  by (induction sps arbitrary: sps') (auto split: if_splits)

lemma keep_to_first_set: "keep_to_first name sps = Some sps' \<Longrightarrow> set sps' \<subseteq> set sps"
  by (induction sps arbitrary: sps') (auto split: if_splits)

text \<open>The savepoint a rollback goes back to is the oldest of its name.\<close>

lemma keep_to_first_eq:
  "sp_name sp = name \<Longrightarrow> name \<notin> sp_name ` set sps \<Longrightarrow> keep_to_first name (sps @ sp # later) = Some (sps @ [sp])"
  by (induction sps) auto

lemma release_first_eq:
  "sp_name sp = name \<Longrightarrow> name \<notin> sp_name ` set sps \<Longrightarrow> release_first name (sps @ sp # later) = Some (sps @ later)"
  by (induction sps) auto

lemma step_inv: "txn_step s s' \<Longrightarrow> txn_inv s \<Longrightarrow> txn_inv s'"
proof (induction rule: txn_step.induct)
  case (begins m addr h now th level)
  then show ?case by (cases "Begin_level addr now th level m") (auto intro: begin_inv)
next
  case (commits th p m m' t h)
  then show ?case by (blast intro: commit_inv)
next
  case (rolls_back m th p m' ok h)
  then show ?case by (blast intro: rollback_inv)
next
  case (saves th name m m' ok h)
  show ?case by (rule savepoints_inv [OF saves(2) saves(1) [unfolded CreateSavepoint_def]])
      (auto simp: new_savepoint_def)
next
  case (releases th name m m' ok h)
  show ?case by (rule savepoints_inv [OF releases(2) releases(1) [unfolded ReleaseSavepoint_def]])
      (use release_first_set in blast)
next
  case (rolls_back_to th name m m' ok h)
  show ?case by (rule savepoints_inv [OF rolls_back_to(2) rolls_back_to(1) [unfolded RollbackToSavepoint_def]])
      (use keep_to_first_set in blast)
qed (auto simp: txn_inv_def heap_ok_def txn_ok_def threads_ok_def counters_ok_def history_ok_def disk_ok_def
       SetDefaultIsolationLevel_def)

lemma Initialize_state:
  "txn_heap (Initialize f (TransactionManager d w)) = Map.empty" "active_txns (Initialize f (TransactionManager d w)) = []"
  "current_txn (Initialize f (TransactionManager d w)) th = None" "xid_file (Initialize f (TransactionManager d w)) = f"
  "xid_writable (Initialize f (TransactionManager d w)) = w" "xid_disk (Initialize f (TransactionManager d w)) = d"
  "total_started (Initialize f (TransactionManager d w)) = 0"
  "total_committed (Initialize f (TransactionManager d w)) = 0"
  "total_rolled_back (Initialize f (TransactionManager d w)) = 0"
  by (auto simp: Initialize_def TransactionManager_def LoadXid_def Let_def split: option.splits)

lemma initial_inv: "txn_inv (Initialize f (TransactionManager d w), [])"
  by (simp add: txn_inv_def heap_ok_def threads_ok_def counters_ok_def history_ok_def disk_ok_def Initialize_state)

lemma run_txn_inv: "txn_run m s \<Longrightarrow> txn_inv (m, []) \<Longrightarrow> txn_inv s"
  by (induction rule: txn_run.induct) (auto intro: step_inv)

section \<open>Identifiers across a restart\<close>

text \<open>Every id a run gives out is above the counter it started from.\<close>

definition above :: "u64 \<Rightarrow> txn_manager \<times> u64 list \<Rightarrow> bool" where
  "above b s \<longleftrightarrow> b \<le> last_xid (fst s) \<and> (\<forall>x\<in>set (snd s). b < x) \<and>
     (\<forall>p t. txn_heap (fst s) p = Some t \<longrightarrow> b < txn_id t)"

lemma above_step: "txn_step s s' \<Longrightarrow> txn_inv s \<Longrightarrow> above b s \<Longrightarrow> above b s'"
proof (induction rule: txn_step.induct)
  case (begins m addr h now th level)
  obtain m' p where b: "Begin_level addr now th level m = (m', p)" by fastforce
  note s = Begin_state [OF b]
  have "b < last_xid m + 1" using next_xid(2) [OF begins(1), of b] begins(4) by (simp add: above_def)
  then show ?case using begins(2,4) by (auto simp: above_def b s split: if_splits)
next
  case (commits th p m m' t h)
  have act: "txn_state t = ACTIVE" using commits(3,4) by (auto simp: txn_inv_def heap_ok_def txn_ok_def)
  note s = Commit_state [OF commits(1,3) act commits(2)]
  show ?case using commits(3,5) by (auto simp: above_def s split: if_splits)
next
  case (rolls_back m th p m' ok h)
  obtain t where t: "txn_heap m p = Some t" using rolls_back(2) by (auto simp: Rollback_def split: option.splits)
  have act: "txn_state t = ACTIVE" using rolls_back(3) t by (auto simp: txn_inv_def heap_ok_def txn_ok_def)
  note s = Rollback_state [OF rolls_back(2) t act rolls_back(1)]
  show ?case using rolls_back(4) by (auto simp: above_def s split: if_splits)
next
  case (saves th name m m' ok h)
  show ?case using on_savepoints_state [OF saves(1) [unfolded CreateSavepoint_def]] saves(3)
    by (auto simp: above_def split: if_splits)
next
  case (releases th name m m' ok h)
  show ?case using on_savepoints_state [OF releases(1) [unfolded ReleaseSavepoint_def]] releases(3)
    by (auto simp: above_def split: if_splits)
next
  case (rolls_back_to th name m m' ok h)
  show ?case using on_savepoints_state [OF rolls_back_to(1) [unfolded RollbackToSavepoint_def]] rolls_back_to(3)
    by (auto simp: above_def split: if_splits)
qed (simp add: above_def SetDefaultIsolationLevel_def)

lemma run_above: "txn_run m s \<Longrightarrow> txn_inv (m, []) \<Longrightarrow> txn_heap m = Map.empty \<Longrightarrow> above (last_xid m) s"
proof (induction rule: txn_run.induct)
  case (next_step s s')
  then show ?case by (blast intro: above_step run_txn_inv)
qed (simp add: above_def)

lemma run_files: "txn_run m s \<Longrightarrow> xid_file (fst s) = xid_file m \<and> xid_writable (fst s) = xid_writable m"
proof (induction rule: txn_run.induct)
  case (next_step s s')
  from next_step(2) have "xid_file (fst s') = xid_file (fst s) \<and> xid_writable (fst s') = xid_writable (fst s)"
  proof (induction rule: txn_step.induct)
    case (begins m addr h now th level)
    then show ?case using Begin_state(6,7) [of addr now th level m] by (cases "Begin_level addr now th level m") auto
  next
    case (commits th p m m' t h)
    then show ?case by (auto simp: Commit_def Let_def split: if_splits)
  next
    case (rolls_back m th p m' ok h)
    then show ?case by (auto simp: Rollback_def Let_def split: if_splits option.splits)
  next
    case (saves th name m m' ok h)
    then show ?case using on_savepoints_state [OF saves [unfolded CreateSavepoint_def]] by auto
  next
    case (releases th name m m' ok h)
    then show ?case using on_savepoints_state [OF releases [unfolded ReleaseSavepoint_def]] by auto
  next
    case (rolls_back_to th name m m' ok h)
    then show ?case using on_savepoints_state [OF rolls_back_to [unfolded RollbackToSavepoint_def]] by auto
  qed (simp add: SetDefaultIsolationLevel_def)
  then show ?case using next_step.IH by simp
qed simp

lemma Initialize_loads:
  assumes "f \<noteq> []" "d f = Some s" "read_u64 s > 0"
  shows "last_xid (Initialize f (TransactionManager d w)) = read_u64 s"
  using assms by (simp add: Initialize_def LoadXid_def TransactionManager_def Let_def)

section \<open>What the manager guarantees\<close>

text \<open>C32: Along every run of the server, whatever its threads begin, commit, roll back or save: the active
  transactions are distinct, live and have distinct ids, a thread's current transaction is active and no other
  thread's, every transaction ever started is committed, rolled back or still active, and the id of every committed
  transaction is covered by the file of ids when that file can be written.\<close>

theorem transactions_accounted:
  assumes "txn_run (Initialize file (TransactionManager disk writable)) (m, h)"
  shows "txn_inv (m, h)"
  using assms initial_inv by (rule run_txn_inv)

text \<open>C33: The id of a committed transaction is never given out again, even when the process is killed at any moment
  and a new one starts from the file it left behind.\<close>

theorem committed_xid_not_reused:
  assumes run: "txn_run (Initialize file (TransactionManager disk writable)) (m, h)" and x: "x \<in> set h"
    and named: "file \<noteq> []" "writable file"
    and again: "txn_run (Initialize file (TransactionManager (xid_disk m) writable')) (m', h')"
  shows "x \<notin> set h' \<union> txn_id ` ran (txn_heap m')"
proof -
  have inv: "txn_inv (m, h)" using run initial_inv by (rule run_txn_inv)
  have "xid_file m = file \<and> xid_writable m = writable" using run_files [OF run] by (simp add: Initialize_state)
  then obtain s where s: "xid_disk m file = Some s" "x \<le> read_u64 s"
    using inv x named by (auto simp: txn_inv_def disk_ok_def)
  have "above (last_xid (Initialize file (TransactionManager disk writable))) (m, h)"
    using run initial_inv by (rule run_above) (simp add: Initialize_state)
  then have "0 < x" using x by (auto simp: above_def dest: le_less_trans [OF word_zero_le])
  then have l: "last_xid (Initialize file (TransactionManager (xid_disk m) writable')) = read_u64 s"
    using s(2) by (intro Initialize_loads [where d = "xid_disk m", OF named(1) s(1)]) (rule less_le_trans)
  have "above (read_u64 s) (m', h')"
    using run_above [OF again initial_inv] l by (simp add: Initialize_state)
  then show ?thesis using s(2) by (fastforce simp: above_def ran_def)
qed

text \<open>Thread 1 begins, sets a savepoint and commits; the process is killed; thread 1 of the next one begins.\<close>

definition run_begun :: txn_manager where
  "run_begun = fst (Begin_level 5 0 1 SERIALIZABLE (Initialize [120] (TransactionManager Map.empty (\<lambda>_. True))))"

definition run_saved :: txn_manager where
  "run_saved = fst (the (CreateSavepoint 1 [97] run_begun))"

definition run_committed :: txn_manager where
  "run_committed = fst (the (Commit 1 (Some 5) run_saved))"

definition run_restarted :: txn_manager where
  "run_restarted = fst (Begin_level 5 0 1 SERIALIZABLE (Initialize [120] (TransactionManager (xid_disk run_committed) (\<lambda>_. True))))"

lemmas run_defs = run_begun_def run_saved_def run_committed_def Begin_level_def AllocateXid_def Initialize_def LoadXid_def
  TransactionManager_def WriteXidFile_def PersistXid_def SetCurrentTransaction_def CreateSavepoint_def on_savepoints_def
  GetCurrentTransaction_def new_savepoint_def new_Transaction_def Commit_def forget_def

lemma sample_run: "txn_run (Initialize [120] (TransactionManager Map.empty (\<lambda>_. True))) (run_committed, [2])"
proof -
  have b: "txn_step (Initialize [120] (TransactionManager Map.empty (\<lambda>_. True)), []) (run_begun, [])"
    unfolding run_begun_def by (rule begins) (simp_all add: run_defs)
  have "CreateSavepoint 1 [97] run_begun = Some (run_saved, True)" by (simp add: run_defs)
  then have s: "txn_step (run_begun, []) (run_saved, [])" by (rule saves)
  have "Commit 1 (Some 5) run_saved = Some (run_committed, True)" by (simp add: run_defs)
  moreover have "current_txn run_saved 1 = Some 5" by (simp add: run_defs)
  moreover obtain t where t: "txn_heap run_saved 5 = Some t" "txn_id t = 2" by (simp add: run_defs)
  ultimately have "txn_step (run_saved, []) (run_committed, [txn_id t])" by (blast intro: commits)
  then have c: "txn_step (run_saved, []) (run_committed, [2])" by (simp add: t)
  show ?thesis by (rule next_step [OF next_step [OF next_step [OF start b] s] c])
qed

lemma sample_restart:
  "txn_run (Initialize [120] (TransactionManager (xid_disk run_committed) (\<lambda>_. True))) (run_restarted, [])"
proof (rule next_step [OF start])
  have r: "read_u64 (show_nat 2) = 2" using read_u64_show [of 2] by simp
  have "xid_disk run_committed [120] = Some (show_nat 2)" by (simp add: run_defs)
  then have "last_xid (Initialize [120] (TransactionManager (xid_disk run_committed) (\<lambda>_. True))) = 2"
    by (subst Initialize_loads [where d = "xid_disk run_committed" and s = "show_nat 2"]) (simp_all add: r)
  then show "txn_step (Initialize [120] (TransactionManager (xid_disk run_committed) (\<lambda>_. True)), []) (run_restarted, [])"
    unfolding run_restarted_def by (intro begins) (simp_all add: Initialize_state)
qed

theorem transactions_accounted_witness: "txn_inv (run_committed, [2])"
  using sample_run by (rule transactions_accounted)

theorem committed_xid_not_reused_witness: "2 \<notin> set [] \<union> txn_id ` ran (txn_heap run_restarted)"
  by (rule committed_xid_not_reused [OF sample_run _ _ _ sample_restart]) simp_all

end
