(* ===== verification/Logs.thy ===== *)
theory Logs
  imports Transactions
begin

text \<open>
  The logs of the server (sql/log): the binary log with its events, checksums and files, the reader of events, the
  error log and the query log with their ring buffers, and the manager that owns the three. The directory maps
  paths to inodes; a file that is removed while it is open lives on without a name. What a stream writes is in the
  file at once: its buffer is not modelled. The seconds of the system clock, the formatted time, the thread and
  the formatted message are arguments; standard error is left out.
\<close>

unbundle bit_operations_syntax

section \<open>Files\<close>

record log_fs =
  lf_dir :: "str \<rightharpoonup> nat"
  lf_data :: "nat \<Rightarrow> byte list"
  lf_next :: nat
  lf_can_open :: "str \<Rightarrow> bool"

text \<open>Opening for output, at the end of the file or after emptying it; \<open>None\<close> is a stream that is not open.\<close>

definition open_output :: "bool \<Rightarrow> str \<Rightarrow> log_fs \<Rightarrow> nat option \<times> log_fs" where
  "open_output emptied path fs =
     (if \<not> lf_can_open fs path then (None, fs)
      else case lf_dir fs path of
        Some i \<Rightarrow> (Some i, if emptied then fs\<lparr>lf_data := (lf_data fs)(i := [])\<rparr> else fs)
      | None \<Rightarrow>
          let i = lf_next fs
          in (Some i, fs\<lparr>lf_dir := (lf_dir fs)(path \<mapsto> i), lf_data := (lf_data fs)(i := []), lf_next := i + 1\<rparr>))"

definition write_output :: "nat \<Rightarrow> byte list \<Rightarrow> log_fs \<Rightarrow> log_fs" where
  "write_output i bs fs = fs\<lparr>lf_data := (lf_data fs)(i := lf_data fs i @ bs)\<rparr>"

definition remove_file :: "str \<Rightarrow> log_fs \<Rightarrow> log_fs" where
  "remove_file path fs = fs\<lparr>lf_dir := (lf_dir fs)(path := None)\<rparr>"

definition rename_file :: "str \<Rightarrow> str \<Rightarrow> log_fs \<Rightarrow> log_fs" where
  "rename_file old new fs =
     (case lf_dir fs old of
        None \<Rightarrow> fs
      | Some i \<Rightarrow> fs\<lparr>lf_dir := (lf_dir fs)(old := None, new \<mapsto> i)\<rparr>)"

text \<open>An input stream: what is left to read, the position, and its state bits.\<close>

record in_stream =
  is_opened :: bool
  is_rest :: "byte list"
  is_pos :: nat
  is_eof :: bool
  is_fail :: bool

definition open_input :: "str \<Rightarrow> log_fs \<Rightarrow> in_stream" where
  "open_input path fs =
     (case lf_dir fs path of
        None \<Rightarrow> \<lparr>is_opened = False, is_rest = [], is_pos = 0, is_eof = False, is_fail = True\<rparr>
      | Some i \<Rightarrow> \<lparr>is_opened = True, is_rest = lf_data fs i, is_pos = 0, is_eof = False, is_fail = False\<rparr>)"

definition is_good :: "in_stream \<Rightarrow> bool" where
  "is_good s \<longleftrightarrow> \<not> is_eof s \<and> \<not> is_fail s"

definition get_char :: "in_stream \<Rightarrow> byte option \<times> in_stream" where
  "get_char s =
     (if \<not> is_good s then (None, s\<lparr>is_fail := True\<rparr>)
      else case is_rest s of
        [] \<Rightarrow> (None, s\<lparr>is_eof := True, is_fail := True\<rparr>)
      | c # cs \<Rightarrow> (Some c, s\<lparr>is_rest := cs, is_pos := is_pos s + 1\<rparr>))"

text \<open>\<open>read\<close> into a buffer of zeros.\<close>

definition read_block :: "nat \<Rightarrow> in_stream \<Rightarrow> byte list \<times> in_stream" where
  "read_block n s =
     (if \<not> is_good s then (replicate n 0, s\<lparr>is_fail := True\<rparr>)
      else let got = take n (is_rest s);
               s = s\<lparr>is_rest := drop n (is_rest s), is_pos := is_pos s + length got\<rparr>
      in if length got < n then (got @ replicate (n - length got) 0, s\<lparr>is_eof := True, is_fail := True\<rparr>)
      else (got, s))"

text \<open>\<open>seekg\<close>, which only clears the end-of-file bit, from the start of a file that has just been opened.\<close>

definition seek_to :: "nat \<Rightarrow> in_stream \<Rightarrow> in_stream" where
  "seek_to p s = (if is_fail s then s else s\<lparr>is_rest := drop p (is_rest s), is_pos := p\<rparr>)"

section \<open>Events\<close>

datatype BinlogEventType = UNKNOWN | QUERY | ROW_INSERT | ROW_UPDATE | ROW_DELETE | XID | Other_Event byte

definition event_code :: "BinlogEventType \<Rightarrow> byte" where
  "event_code t = (case t of UNKNOWN \<Rightarrow> 0x00 | QUERY \<Rightarrow> 0x01 | ROW_INSERT \<Rightarrow> 0x10 | ROW_UPDATE \<Rightarrow> 0x11
     | ROW_DELETE \<Rightarrow> 0x12 | XID \<Rightarrow> 0x20 | Other_Event b \<Rightarrow> b)"

text \<open>The cast of a byte to the enumeration; a byte that names no event stays a value of its own.\<close>

definition event_of_code :: "byte \<Rightarrow> BinlogEventType" where
  "event_of_code b = (if b = 0x00 then UNKNOWN else if b = 0x01 then QUERY else if b = 0x10 then ROW_INSERT
     else if b = 0x11 then ROW_UPDATE else if b = 0x12 then ROW_DELETE else if b = 0x20 then XID else Other_Event b)"

definition BinlogEventTypeToString :: "BinlogEventType \<Rightarrow> str" where
  "BinlogEventTypeToString t = ascii (case t of QUERY \<Rightarrow> ''Query'' | ROW_INSERT \<Rightarrow> ''RowInsert'' | ROW_UPDATE \<Rightarrow> ''RowUpdate''
     | ROW_DELETE \<Rightarrow> ''RowDelete'' | XID \<Rightarrow> ''Xid'' | _ \<Rightarrow> ''Unknown'')"

record BinlogEvent =
  ev_timestamp :: u64
  ev_server_id :: i32
  ev_type :: BinlogEventType
  ev_txn_id :: u64
  ev_payload :: "byte list"
  ev_checksum :: i32

section \<open>The checksum\<close>

definition crc_table :: "i32 list" where
  "crc_table =
    [0x00000000, 0x77073096, 0xEE0E612C, 0x990951BA, 0x076DC419, 0x706AF48F, 0xE963A535, 0x9E6495A3,
     0x0EDB8832, 0x79DCB8A4, 0xE0D5E91E, 0x97D2D988, 0x09B64C2B, 0x7EB17CBD, 0xE7B82D07, 0x90BF1D91,
     0x1DB71064, 0x6AB020F2, 0xF3B97148, 0x84BE41DE, 0x1ADAD47D, 0x6DDDE4EB, 0xF4D4B551, 0x83D385C7,
     0x136C9856, 0x646BA8C0, 0xFD62F97A, 0x8A65C9EC, 0x14015C4F, 0x63066CD9, 0xFA0F3D63, 0x8D080DF5,
     0x3B6E20C8, 0x4C69105E, 0xD56041E4, 0xA2677172, 0x3C03E4D1, 0x4B04D447, 0xD20D85FD, 0xA50AB56B,
     0x35B5A8FA, 0x42B2986C, 0xDBBBC9D6, 0xACBCF940, 0x32D86CE3, 0x45DF5C75, 0xDCD60DCF, 0xABD13D59,
     0x26D930AC, 0x51DE003A, 0xC8D75180, 0xBFD06116, 0x21B4F4B5, 0x56B3C423, 0xCFBA9599, 0xB8BDA50F,
     0x2802B89E, 0x5F058808, 0xC60CD9B2, 0xB10BE924, 0x2F6F7C87, 0x58684C11, 0xC1611DAB, 0xB6662D3D,
     0x76DC4190, 0x01DB7106, 0x98D220BC, 0xEFD5102A, 0x71B18589, 0x06B6B51F, 0x9FBFE4A5, 0xE8B8D433,
     0x7807C9A2, 0x0F00F934, 0x9609A88E, 0xE10E9818, 0x7F6A0DBB, 0x086D3D2D, 0x91646C97, 0xE6635C01,
     0x6B6B51F4, 0x1C6C6162, 0x856530D8, 0xF262004E, 0x6C0695ED, 0x1B01A57B, 0x8208F4C1, 0xF50FC457,
     0x65B0D9C6, 0x12B7E950, 0x8BBEB8EA, 0xFCB9887C, 0x62DD1DDF, 0x15DA2D49, 0x8CD37CF3, 0xFBD44C65,
     0x4DB26158, 0x3AB551CE, 0xA3BC0074, 0xD4BB30E2, 0x4ADFA541, 0x3DD895D7, 0xA4D1C46D, 0xD3D6F4FB,
     0x4369E96A, 0x346ED9FC, 0xAD678846, 0xDA60B8D0, 0x44042D73, 0x33031DE5, 0xAA0A4C5F, 0xDD0D7CC9,
     0x5005713C, 0x270241AA, 0xBE0B1010, 0xC90C2086, 0x5768B525, 0x206F85B3, 0xB966D409, 0xCE61E49F,
     0x5EDEF90E, 0x29D9C998, 0xB0D09822, 0xC7D7A8B4, 0x59B33D17, 0x2EB40D81, 0xB7BD5C3B, 0xC0BA6CAD,
     0xEDB88320, 0x9ABFB3B6, 0x03B6E20C, 0x74B1D29A, 0xEAD54739, 0x9DD277AF, 0x04DB2615, 0x73DC1683,
     0xE3630B12, 0x94643B84, 0x0D6D6A3E, 0x7A6A5AA8, 0xE40ECF0B, 0x9309FF9D, 0x0A00AE27, 0x7D079EB1,
     0xF00F9344, 0x8708A3D2, 0x1E01F268, 0x6906C2FE, 0xF762575D, 0x806567CB, 0x196C3671, 0x6E6B06E7,
     0xFED41B76, 0x89D32BE0, 0x10DA7A5A, 0x67DD4ACC, 0xF9B9DF6F, 0x8EBEEFF9, 0x17B7BE43, 0x60B08ED5,
     0xD6D6A3E8, 0xA1D1937E, 0x38D8C2C4, 0x4FDFF252, 0xD1BB67F1, 0xA6BC5767, 0x3FB506DD, 0x48B2364B,
     0xD80D2BDA, 0xAF0A1B4C, 0x36034AF6, 0x41047A60, 0xDF60EFC3, 0xA867DF55, 0x316E8EEF, 0x4669BE79,
     0xCB61B38C, 0xBC66831A, 0x256FD2A0, 0x5268E236, 0xCC0C7795, 0xBB0B4703, 0x220216B9, 0x5505262F,
     0xC5BA3BBE, 0xB2BD0B28, 0x2BB45A92, 0x5CB36A04, 0xC2D7FFA7, 0xB5D0CF31, 0x2CD99E8B, 0x5BDEAE1D,
     0x9B64C2B0, 0xEC63F226, 0x756AA39C, 0x026D930A, 0x9C0906A9, 0xEB0E363F, 0x72576785, 0x05505713,
     0x95BF4A82, 0xE2B87A14, 0x7BB12BAE, 0x0CB61B38, 0x92D28E9B, 0xE5D5BE0D, 0x7CDCEFB7, 0x0BDBDF21,
     0x86D3D2D4, 0xF1D4E242, 0x68DDB3F8, 0x1FDA836E, 0x81BE16CD, 0xF6B9265B, 0x6FB077E1, 0x18B74777,
     0x88085AE6, 0xFF0F6A70, 0x66063BCA, 0x11010B5C, 0x8F659EFF, 0xF862AE69, 0x616BFFD3, 0x166CCF45,
     0xA00AE278, 0xD70DD2EE, 0x4E048354, 0x3903B3C2, 0xA7672661, 0xD06016F7, 0x4969474D, 0x3E6E77DB,
     0xAED16A4A, 0xD9D65ADC, 0x40DF0B66, 0x37D83BF0, 0xA9BCAE53, 0xDEBB9EC5, 0x47B2CF7F, 0x30B5FFE9,
     0xBDBDF21C, 0xCABAC28A, 0x53B39330, 0x24B4A3A6, 0xBAD03605, 0xCDD70693, 0x54DE5729, 0x23D967BF,
     0xB3667A2E, 0xC4614AB8, 0x5D681B02, 0x2A6F2B94, 0xB40BBE37, 0xC30C8EA1, 0x5A05DF1B, 0x2D02EF8D]"

definition crc_step :: "i32 \<Rightarrow> byte \<Rightarrow> i32" where
  "crc_step crc b = drop_bit 8 crc XOR crc_table ! unat ((crc XOR ucast b) AND 0xFF)"

definition CalculateCRC32 :: "byte list \<Rightarrow> i32" where
  "CalculateCRC32 bytes = foldl crc_step 0xFFFFFFFF bytes XOR 0xFFFFFFFF"

section \<open>The writer\<close>

record BinlogWriter =
  bl_file :: "nat option"
  bl_prefix :: str
  bl_max_size :: nat
  bl_size :: nat
  bl_index :: nat
  bl_pos :: u64
  bl_initialized :: bool

definition BinlogWriter :: BinlogWriter where
  "BinlogWriter = \<lparr>bl_file = None, bl_prefix = [], bl_max_size = 1024 * 1024 * 1024, bl_size = 0, bl_index = 1, bl_pos = 0,
     bl_initialized = False\<rparr>"

definition GetFilePath :: "nat \<Rightarrow> BinlogWriter \<Rightarrow> str" where
  "GetFilePath index w = bl_prefix w @ ascii ''.'' @ show_padded 6 index"

definition GetIndexFilePath :: "BinlogWriter \<Rightarrow> str" where
  "GetIndexFilePath w = bl_prefix w @ ascii ''.index''"

definition UpdateIndexFile :: "BinlogWriter \<Rightarrow> log_fs \<Rightarrow> log_fs" where
  "UpdateIndexFile w fs =
     (case open_output False (GetIndexFilePath w) fs of
        (None, fs) \<Rightarrow> fs
      | (Some i, fs) \<Rightarrow> write_output i (GetFilePath (bl_index w) w @ [10]) fs)"

type_synonym binlog = "BinlogWriter \<times> log_fs"

definition binlog_Initialize :: "str \<Rightarrow> nat \<Rightarrow> binlog \<Rightarrow> binlog" where
  "binlog_Initialize file_prefix max_size_mb s =
     (let w = (fst s)\<lparr>bl_prefix := file_prefix, bl_max_size := max_size_mb * 1024 * 1024\<rparr>
      in case open_output False (GetFilePath (bl_index w) w) (snd s) of
        (None, fs) \<Rightarrow> (w\<lparr>bl_file := None\<rparr>, fs)
      | (Some i, fs) \<Rightarrow>
          let w = w\<lparr>bl_file := Some i, bl_size := length (lf_data fs i)\<rparr>
          in (w\<lparr>bl_initialized := True\<rparr>, UpdateIndexFile w fs))"

definition binlog_Shutdown :: "binlog \<Rightarrow> binlog" where
  "binlog_Shutdown s =
     (let w = fst s in
      ((if bl_initialized w \<and> bl_file w \<noteq> None then w\<lparr>bl_file := None\<rparr> else w)\<lparr>bl_initialized := False\<rparr>, snd s))"

text \<open>The next file, as \<open>Rotate\<close> and \<open>WriteEvent\<close> open it.\<close>

definition binlog_Rotate :: "binlog \<Rightarrow> binlog" where
  "binlog_Rotate s =
     (let w = (fst s)\<lparr>bl_file := None, bl_index := bl_index (fst s) + 1\<rparr>;
          (f, fs) = open_output True (GetFilePath (bl_index w) w) (snd s);
          w = w\<lparr>bl_file := f, bl_size := 0\<rparr>
      in (w, UpdateIndexFile w fs))"

definition event_bytes :: "BinlogEvent \<Rightarrow> byte list" where
  "event_bytes e =
     enc_word (ev_timestamp e) @ enc_word (ev_server_id e) @ [event_code (ev_type e)] @ enc_word (ev_txn_id e) @
     enc_word (word_of_nat (length (ev_payload e)) :: i32) @ ev_payload e @ enc_word (ev_checksum e)"

definition new_event :: "u64 \<Rightarrow> BinlogEventType \<Rightarrow> u64 \<Rightarrow> byte list \<Rightarrow> BinlogEvent" where
  "new_event now type txn payload =
     \<lparr>ev_timestamp = now, ev_server_id = 1, ev_type = type, ev_txn_id = txn, ev_payload = payload,
      ev_checksum = CalculateCRC32 payload\<rparr>"

definition WriteEvent :: "u64 \<Rightarrow> BinlogEventType \<Rightarrow> u64 \<Rightarrow> byte list \<Rightarrow> binlog \<Rightarrow> binlog" where
  "WriteEvent now type txn payload s =
     (let (w, fs) = (if bl_size (fst s) \<ge> bl_max_size (fst s) then binlog_Rotate s else s) in
      case bl_file w of
        None \<Rightarrow> (w, fs)
      | Some i \<Rightarrow> (w\<lparr>bl_size := bl_size w + (8 + 4 + 1 + 8 + 4 + length payload + 4)\<rparr>,
                   write_output i (event_bytes (new_event now type txn payload)) fs))"

definition WriteQueryEvent :: "u64 \<Rightarrow> u64 \<Rightarrow> str \<Rightarrow> binlog \<Rightarrow> binlog" where
  "WriteQueryEvent now txn sql = WriteEvent now QUERY txn sql"

definition row_payload :: "str \<Rightarrow> str list \<Rightarrow> str list \<Rightarrow> byte list" where
  "row_payload table_name cols vals =
     table_name @ [0] @ concat (map (\<lambda>c. c @ [0]) cols) @ [0] @ concat (map (\<lambda>v. v @ [0]) vals)"

definition WriteRowEvent ::
    "u64 \<Rightarrow> BinlogEventType \<Rightarrow> u64 \<Rightarrow> str \<Rightarrow> str list \<Rightarrow> str list \<Rightarrow> binlog \<Rightarrow> binlog" where
  "WriteRowEvent now type txn table_name cols vals = WriteEvent now type txn (row_payload table_name cols vals)"

definition GetPosition :: "BinlogWriter \<Rightarrow> nat \<times> nat" where
  "GetPosition w = (bl_index w, bl_size w)"

definition GetCurrentFileName :: "BinlogWriter \<Rightarrow> str" where
  "GetCurrentFileName w = GetFilePath (bl_index w) w"

definition GetCurrentPosition :: "BinlogWriter \<Rightarrow> u64" where
  "GetCurrentPosition w = bl_pos w"

definition ListBinlogFiles :: "BinlogWriter \<Rightarrow> str list" where
  "ListBinlogFiles w = map (\<lambda>i. GetFilePath i w) [1..<bl_index w + 1]"

text \<open>The number after the last dot; \<open>None\<close> when \<open>std::stoi\<close> throws.\<close>

definition purge_index :: "str \<Rightarrow> int option" where
  "purge_index log_name =
     (if 46 \<notin> set log_name then Some (- 1)
      else case scan_int (rev (takeWhile (\<lambda>c. c \<noteq> 46) (rev log_name))) of
        None \<Rightarrow> None
      | Some (n, _) \<Rightarrow> if - (2 ^ 31) \<le> n \<and> n < 2 ^ 31 then Some n else None)"

definition PurgeTo :: "str \<Rightarrow> binlog \<Rightarrow> binlog" where
  "PurgeTo log_name s =
     (case purge_index log_name of
        None \<Rightarrow> s
      | Some target \<Rightarrow>
          if target \<le> 0 then s
          else (fst s, UpdateIndexFile (fst s)
                  (fold (\<lambda>i. remove_file (GetFilePath i (fst s))) [1..<nat target] (snd s))))"

definition binlog_Reset :: "binlog \<Rightarrow> binlog" where
  "binlog_Reset s =
     (let w = (fst s)\<lparr>bl_file := None\<rparr>;
          fs = fold (\<lambda>i. remove_file (GetFilePath i w)) [1..<bl_index w + 1] (snd s);
          fs = remove_file (GetIndexFilePath w) fs;
          w = w\<lparr>bl_index := 1, bl_size := 0, bl_pos := 0\<rparr>;
          (f, fs) = open_output True (GetFilePath 1 w) fs;
          w = w\<lparr>bl_file := f\<rparr>
      in (w, UpdateIndexFile w fs))"

section \<open>The readers\<close>

text \<open>The loops of \<open>read_u64\<close> and \<open>read_u32\<close>: at the end of the file they return what they have.\<close>

fun read_word :: "nat \<Rightarrow> nat \<Rightarrow> 'a::len word \<Rightarrow> in_stream \<Rightarrow> 'a word \<times> in_stream" where
  "read_word 0 i val s = (val, s)"
| "read_word (Suc n) i val s =
     (case get_char s of
        (None, s) \<Rightarrow> (val, s)
      | (Some c, s) \<Rightarrow> read_word n (Suc i) (val OR push_bit (8 * i) (ucast c)) s)"

text \<open>The cast of what \<open>get\<close> returns, which is -1 at the end of the file.\<close>

definition get_event_type :: "in_stream \<Rightarrow> BinlogEventType \<times> in_stream" where
  "get_event_type s = (case get_char s of (c, s) \<Rightarrow> (event_of_code (case c of None \<Rightarrow> 0xFF | Some b \<Rightarrow> b), s))"

text \<open>\<open>BinlogReader::ReadNextEvent\<close>: the event, if there is one.\<close>

definition ReadNextEvent :: "in_stream \<Rightarrow> BinlogEvent option \<times> in_stream" where
  "ReadNextEvent s =
     (if \<not> is_opened s \<or> is_eof s then (None, s)
      else let (timestamp, s) = read_word 8 0 0 s in
      if is_eof s then (None, s)
      else let (server_id, s) = read_word 4 0 0 s;
               (event_type, s) = get_event_type s;
               (txn, s) = read_word 8 0 0 s;
               (payload_len, s) = read_word 4 0 (0 :: i32) s;
               (payload, s) = (if payload_len > 0 then read_block (unat payload_len) s else ([], s));
               (checksum, s) = read_word 4 0 0 s
      in (if is_fail s then None
          else Some \<lparr>ev_timestamp = timestamp, ev_server_id = server_id, ev_type = event_type, ev_txn_id = txn,
                     ev_payload = payload, ev_checksum = checksum\<rparr>, s))"

record BinlogEventInfo =
  bi_log_name :: str
  bi_position :: nat
  bi_event_type :: str
  bi_server_id :: i32
  bi_end_log_pos :: nat
  bi_info :: str

definition event_info :: "BinlogEventType \<Rightarrow> byte list \<Rightarrow> str" where
  "event_info type payload =
     (if type = QUERY then payload
      else if type = XID then ascii ''COMMIT /* XID */''
      else if 0 \<in> set payload then ascii ''table: '' @ takeWhile (\<lambda>c. c \<noteq> 0) payload
      else [])"

text \<open>One turn of the loop of \<open>ReadEvents\<close>; a payload of 16 MB or more is neither read nor skipped.\<close>

definition read_info :: "str \<Rightarrow> in_stream \<Rightarrow> BinlogEventInfo option \<times> in_stream" where
  "read_info file s =
     (let pos_before = is_pos s;
          (timestamp, s) = read_word 8 0 (0 :: u64) s
      in if is_eof s \<or> is_fail s then (None, s)
      else let (server_id, s) = read_word 4 0 0 s;
               (event_type, s) = get_event_type s;
               (txn, s) = read_word 8 0 (0 :: u64) s;
               (payload_len, s) = read_word 4 0 (0 :: i32) s;
               (payload, s) = (if payload_len > 0 \<and> payload_len < 16 * 1024 * 1024
                               then read_block (unat payload_len) s else ([], s));
               (checksum, s) = read_word 4 0 (0 :: i32) s
      in (if is_fail s then None
          else Some \<lparr>bi_log_name = file, bi_position = pos_before, bi_event_type = BinlogEventTypeToString event_type,
                     bi_server_id = server_id, bi_end_log_pos = is_pos s, bi_info = event_info event_type payload\<rparr>, s))"

text \<open>The loop; every turn that goes on has read at least one byte, so the fuel is the length of the file.\<close>

fun read_infos :: "nat \<Rightarrow> str \<Rightarrow> int \<Rightarrow> int \<Rightarrow> in_stream \<Rightarrow> BinlogEventInfo list" where
  "read_infos 0 file limit count s = []"
| "read_infos (Suc fuel) file limit count s =
     (if \<not> is_good s \<or> (limit \<ge> 0 \<and> count \<ge> limit) then []
      else case read_info file s of
        (None, s) \<Rightarrow> []
      | (Some e, s) \<Rightarrow> e # read_infos fuel file limit (count + 1) s)"

definition ReadEvents :: "str \<Rightarrow> nat \<Rightarrow> int \<Rightarrow> binlog \<Rightarrow> BinlogEventInfo list" where
  "ReadEvents log_name from_pos limit s =
     (let file = (if log_name \<noteq> [] then log_name else GetFilePath (bl_index (fst s)) (fst s));
          input = open_input file (snd s)
      in if \<not> is_opened input then []
      else read_infos (length (is_rest input) + 1) file limit 0 (if from_pos > 0 then seek_to from_pos input else input))"

section \<open>Ring buffers\<close>

definition kRingBufferSize :: nat where "kRingBufferSize = 2000"

record 'e ring =
  ring_buffer :: "'e list"
  ring_pos :: nat

definition ring_append :: "'e \<Rightarrow> 'e ring \<Rightarrow> 'e ring" where
  "ring_append e r =
     (if length (ring_buffer r) < kRingBufferSize then r\<lparr>ring_buffer := ring_buffer r @ [e]\<rparr>
      else r\<lparr>ring_buffer := (ring_buffer r)[ring_pos r := e], ring_pos := (ring_pos r + 1) mod kRingBufferSize\<rparr>)"

definition GetRecentEntries :: "nat \<Rightarrow> 'e ring \<Rightarrow> 'e list" where
  "GetRecentEntries max_count r =
     (let total = length (ring_buffer r); count = min max_count total in
      if total \<le> kRingBufferSize then map ((!) (ring_buffer r)) [(if total > count then total - count else 0)..<total]
      else map (\<lambda>i. ring_buffer r ! ((ring_pos r + i) mod kRingBufferSize)) [0..<count])"

section \<open>The error log\<close>

datatype Level = LEVEL_DEBUG | LEVEL_INFO | LEVEL_WARN | LEVEL_ERROR | LEVEL_FATAL

primrec level_code :: "Level \<Rightarrow> nat" where
  "level_code LEVEL_DEBUG = 0" | "level_code LEVEL_INFO = 1" | "level_code LEVEL_WARN = 2" | "level_code LEVEL_ERROR = 3"
| "level_code LEVEL_FATAL = 4"

primrec LevelToString :: "Level \<Rightarrow> str" where
  "LevelToString LEVEL_DEBUG = ascii ''DEBUG''"
| "LevelToString LEVEL_INFO = ascii ''INFO''"
| "LevelToString LEVEL_WARN = ascii ''WARN''"
| "LevelToString LEVEL_ERROR = ascii ''ERROR''"
| "LevelToString LEVEL_FATAL = ascii ''FATAL''"

record RingEntry =
  re_timestamp :: str
  re_level :: str
  re_code :: i32
  re_message :: str
  re_source :: str

record ErrorLog =
  el_file :: "nat option"
  el_min_level :: Level
  el_initialized :: bool
  el_ring :: "RingEntry ring"

definition ErrorLog :: ErrorLog where
  "ErrorLog = \<lparr>el_file = None, el_min_level = LEVEL_INFO, el_initialized = False,
     el_ring = \<lparr>ring_buffer = [], ring_pos = 0\<rparr>\<rparr>"

definition bracket :: "str \<Rightarrow> str" where
  "bracket s = ascii ''['' @ s @ ascii ''] ''"

text \<open>\<open>Log\<close>; \<open>None\<close> is the call of \<open>abort\<close>. The message has room for 4095 characters.\<close>

definition Log :: "Level \<Rightarrow> str \<Rightarrow> str \<Rightarrow> str \<Rightarrow> str \<Rightarrow> ErrorLog \<times> log_fs \<Rightarrow> (ErrorLog \<times> log_fs) option" where
  "Log level src time thread msg s =
     (let (l, fs) = s in
      if level_code level < level_code (el_min_level l) then Some s
      else
        let msg = take 4095 msg;
            line = bracket time @ bracket (LevelToString level) @ bracket thread @ bracket src @ msg @ [10];
            fs = (case el_file l of None \<Rightarrow> fs | Some i \<Rightarrow> write_output i line fs);
            e = \<lparr>re_timestamp = time, re_level = LevelToString level, re_code = 0, re_message = msg, re_source = src\<rparr>;
            l = l\<lparr>el_ring := ring_append e (el_ring l)\<rparr>
        in if level = LEVEL_FATAL then None else Some (l, fs))"

definition error_Initialize ::
    "str \<Rightarrow> Level \<Rightarrow> str \<Rightarrow> str \<Rightarrow> str \<Rightarrow> ErrorLog \<times> log_fs \<Rightarrow> (ErrorLog \<times> log_fs) option" where
  "error_Initialize path min_level src time thread s =
     (let l = (fst s)\<lparr>el_min_level := min_level\<rparr> in
      case open_output False path (snd s) of
        (None, fs) \<Rightarrow> Some (l\<lparr>el_file := None\<rparr>, fs)
      | (Some i, fs) \<Rightarrow>
          Log LEVEL_INFO src time thread (ascii ''ErrorLog initialized, file='' @ path)
            (l\<lparr>el_file := Some i, el_initialized := True\<rparr>, fs))"

definition error_Shutdown :: "str \<Rightarrow> str \<Rightarrow> str \<Rightarrow> ErrorLog \<times> log_fs \<Rightarrow> (ErrorLog \<times> log_fs) option" where
  "error_Shutdown src time thread s =
     (if \<not> el_initialized (fst s) then Some s
      else do {
        (l, fs) \<leftarrow> Log LEVEL_INFO src time thread (ascii ''ErrorLog shutting down'') ((fst s)\<lparr>el_initialized := False\<rparr>, snd s);
        Some (l\<lparr>el_file := None\<rparr>, fs) })"

section \<open>The query log\<close>

record QueryEntry =
  qe_timestamp :: str
  qe_user :: str
  qe_host :: str
  qe_database :: str
  qe_exec_time_ms :: u64
  qe_rows_affected :: u64
  qe_sql :: str

record QueryLog =
  ql_file :: "nat option"
  ql_path :: str
  ql_max_size :: nat
  ql_size :: nat
  ql_rotation :: nat
  ql_initialized :: bool
  ql_ring :: "QueryEntry ring"

definition QueryLog :: QueryLog where
  "QueryLog = \<lparr>ql_file = None, ql_path = [], ql_max_size = 100 * 1024 * 1024, ql_size = 0, ql_rotation = 0,
     ql_initialized = False, ql_ring = \<lparr>ring_buffer = [], ring_pos = 0\<rparr>\<rparr>"

definition query_Initialize :: "str \<Rightarrow> nat \<Rightarrow> QueryLog \<times> log_fs \<Rightarrow> QueryLog \<times> log_fs" where
  "query_Initialize path max_size_mb s =
     (let l = (fst s)\<lparr>ql_path := path, ql_max_size := max_size_mb * 1024 * 1024\<rparr> in
      case open_output False path (snd s) of
        (None, fs) \<Rightarrow> (l\<lparr>ql_file := None\<rparr>, fs)
      | (Some i, fs) \<Rightarrow> (l\<lparr>ql_file := Some i, ql_size := length (lf_data fs i), ql_initialized := True\<rparr>, fs))"

definition query_Shutdown :: "QueryLog \<times> log_fs \<Rightarrow> QueryLog \<times> log_fs" where
  "query_Shutdown s =
     (let l = fst s in ((if ql_initialized l then l\<lparr>ql_file := None\<rparr> else l)\<lparr>ql_initialized := False\<rparr>, snd s))"

definition GetRotationPath :: "nat \<Rightarrow> QueryLog \<Rightarrow> str" where
  "GetRotationPath index l = ql_path l @ ascii ''.'' @ show_nat index"

definition query_Rotate :: "QueryLog \<times> log_fs \<Rightarrow> QueryLog \<times> log_fs" where
  "query_Rotate s =
     (let l = (fst s)\<lparr>ql_file := None, ql_rotation := ql_rotation (fst s) + 1\<rparr>;
          fs = rename_file (ql_path l) (GetRotationPath (ql_rotation l) l) (snd s);
          (f, fs) = open_output True (ql_path l) fs
      in (l\<lparr>ql_file := f, ql_size := 0\<rparr>, fs))"

definition CheckRotation :: "QueryLog \<times> log_fs \<Rightarrow> QueryLog \<times> log_fs" where
  "CheckRotation s = (if ql_size (fst s) \<ge> ql_max_size (fst s) then query_Rotate s else s)"

definition query_line :: "str \<Rightarrow> str \<Rightarrow> str \<Rightarrow> str \<Rightarrow> str \<Rightarrow> u64 \<Rightarrow> u64 \<Rightarrow> str" where
  "query_line time user host db sql ms n =
     bracket time @ bracket (user @ ascii ''@'' @ host) @ bracket (if db = [] then ascii ''(none)'' else db) @
     bracket (show_nat (unat ms) @ ascii ''ms'') @ bracket (show_nat (unat n) @ ascii '' rows'') @ sql @ [10]"

definition LogQuery ::
    "str \<Rightarrow> str \<Rightarrow> str \<Rightarrow> str \<Rightarrow> str \<Rightarrow> u64 \<Rightarrow> u64 \<Rightarrow> QueryLog \<times> log_fs \<Rightarrow> QueryLog \<times> log_fs" where
  "LogQuery time user host db sql ms n s =
     (let (l, fs) = CheckRotation s;
          line = query_line time user host db sql ms n;
          e = \<lparr>qe_timestamp = time, qe_user = user, qe_host = host, qe_database = (if db = [] then ascii ''(none)'' else db),
               qe_exec_time_ms = ms, qe_rows_affected = n, qe_sql = sql\<rparr>;
          l = l\<lparr>ql_ring := ring_append e (ql_ring l)\<rparr>
      in case ql_file l of
        None \<Rightarrow> (l, fs)
      | Some i \<Rightarrow> (l\<lparr>ql_size := ql_size l + length line\<rparr>, write_output i line fs))"

section \<open>The manager\<close>

record LogManager =
  error_log :: ErrorLog
  query_log :: QueryLog
  binlog_writer :: BinlogWriter
  logs_initialized :: bool

definition LogManager :: LogManager where
  "LogManager = \<lparr>error_log = ErrorLog, query_log = QueryLog, binlog_writer = BinlogWriter, logs_initialized = False\<rparr>"

definition logs_Initialize :: "str \<Rightarrow> str \<Rightarrow> str \<Rightarrow> str \<Rightarrow> LogManager \<times> log_fs \<Rightarrow> (LogManager \<times> log_fs) option" where
  "logs_Initialize base_dir src time thread s =
     (let (m, fs) = s in
      if logs_initialized m then Some s
      else do {
        (e, fs) \<leftarrow> error_Initialize (base_dir @ ascii ''/goods_db_error.log'') LEVEL_INFO src time thread (error_log m, fs);
        let (q, fs) = query_Initialize (base_dir @ ascii ''/goods_db_query.log'') 100 (query_log m, fs);
        let (b, fs) = binlog_Initialize (base_dir @ ascii ''/goods_db_binlog'') 1024 (binlog_writer m, fs);
        Some (m\<lparr>error_log := e, query_log := q, binlog_writer := b, logs_initialized := True\<rparr>, fs) })"

definition logs_Shutdown :: "str \<Rightarrow> str \<Rightarrow> str \<Rightarrow> LogManager \<times> log_fs \<Rightarrow> (LogManager \<times> log_fs) option" where
  "logs_Shutdown src time thread s =
     (let (m, fs) = s in
      if \<not> logs_initialized m then Some s
      else do {
        let (b, fs) = binlog_Shutdown (binlog_writer m, fs);
        let (q, fs) = query_Shutdown (query_log m, fs);
        (e, fs) \<leftarrow> error_Shutdown src time thread (error_log m, fs);
        Some (m\<lparr>error_log := e, query_log := q, binlog_writer := b, logs_initialized := False\<rparr>, fs) })"

end
