(* ===== verification/Log_Props.thy ===== *)
theory Log_Props
  imports Logs
begin

text \<open>
  What the logs guarantee: the checksum of an event against CRC-32 as it is defined bit by bit, the round trip of
  events through the binary log, and which entries the ring buffers return once they have wrapped.
\<close>

unbundle bit_operations_syntax

section \<open>The checksum\<close>

definition crc_shift :: "i32 \<Rightarrow> i32" where
  "crc_shift c = (if bit c 0 then drop_bit 1 c XOR 0xEDB88320 else drop_bit 1 c)"

definition crc32_step :: "i32 \<Rightarrow> byte \<Rightarrow> i32" where
  "crc32_step c b = (crc_shift ^^ 8) (c XOR ucast b)"

definition crc32 :: "byte list \<Rightarrow> i32" where
  "crc32 bytes = foldl crc32_step 0xFFFFFFFF bytes XOR 0xFFFFFFFF"

text \<open>The entries of the table CRC-32 looks at.\<close>

definition crc_index :: "i32 \<Rightarrow> byte \<Rightarrow> nat" where
  "crc_index c b = unat ((c XOR ucast b) AND 0xFF)"

fun crc_indices :: "i32 \<Rightarrow> byte list \<Rightarrow> nat list" where
  "crc_indices c [] = []"
| "crc_indices c (b # bs) = crc_index c b # crc_indices (crc32_step c b) bs"

definition int_shift :: "int \<Rightarrow> int" where
  "int_shift k = (if odd k then (k div 2) XOR 0xEDB88320 else k div 2)"

definition int_shift8 :: "int \<Rightarrow> int" where
  "int_shift8 k = int_shift (int_shift (int_shift (int_shift (int_shift (int_shift (int_shift (int_shift k)))))))"

text \<open>The table CRC-32 is usually computed with, in three parts.\<close>

definition low_entries :: "int list" where
  "low_entries =
    [0x00000000, 0x77073096, 0xEE0E612C, 0x990951BA, 0x076DC419, 0x706AF48F, 0xE963A535, 0x9E6495A3,
     0x0EDB8832, 0x79DCB8A4, 0xE0D5E91E, 0x97D2D988, 0x09B64C2B, 0x7EB17CBD, 0xE7B82D07, 0x90BF1D91,
     0x1DB71064, 0x6AB020F2, 0xF3B97148, 0x84BE41DE, 0x1ADAD47D, 0x6DDDE4EB, 0xF4D4B551, 0x83D385C7,
     0x136C9856, 0x646BA8C0, 0xFD62F97A, 0x8A65C9EC, 0x14015C4F, 0x63066CD9, 0xFA0F3D63, 0x8D080DF5,
     0x3B6E20C8, 0x4C69105E, 0xD56041E4, 0xA2677172, 0x3C03E4D1, 0x4B04D447, 0xD20D85FD, 0xA50AB56B,
     0x35B5A8FA, 0x42B2986C, 0xDBBBC9D6, 0xACBCF940, 0x32D86CE3, 0x45DF5C75, 0xDCD60DCF, 0xABD13D59,
     0x26D930AC, 0x51DE003A, 0xC8D75180, 0xBFD06116, 0x21B4F4B5, 0x56B3C423, 0xCFBA9599, 0xB8BDA50F,
     0x2802B89E, 0x5F058808, 0xC60CD9B2, 0xB10BE924, 0x2F6F7C87, 0x58684C11, 0xC1611DAB, 0xB6662D3D,
     0x76DC4190, 0x01DB7106, 0x98D220BC, 0xEFD5102A, 0x71B18589, 0x06B6B51F, 0x9FBFE4A5, 0xE8B8D433,
     0x7807C9A2, 0x0F00F934, 0x9609A88E, 0xE10E9818, 0x7F6A0DBB, 0x086D3D2D, 0x91646C97, 0xE6635C01,
     0x6B6B51F4, 0x1C6C6162, 0x856530D8, 0xF262004E, 0x6C0695ED, 0x1B01A57B, 0x8208F4C1, 0xF50FC457,
     0x65B0D9C6, 0x12B7E950, 0x8BBEB8EA, 0xFCB9887C, 0x62DD1DDF, 0x15DA2D49, 0x8CD37CF3, 0xFBD44C65,
     0x4DB26158, 0x3AB551CE, 0xA3BC0074, 0xD4BB30E2, 0x4ADFA541, 0x3DD895D7, 0xA4D1C46D, 0xD3D6F4FB,
     0x4369E96A, 0x346ED9FC, 0xAD678846, 0xDA60B8D0, 0x44042D73, 0x33031DE5, 0xAA0A4C5F, 0xDD0D7CC9,
     0x5005713C, 0x270241AA, 0xBE0B1010, 0xC90C2086, 0x5768B525, 0x206F85B3, 0xB966D409, 0xCE61E49F,
     0x5EDEF90E, 0x29D9C998, 0xB0D09822, 0xC7D7A8B4, 0x59B33D17, 0x2EB40D81, 0xB7BD5C3B, 0xC0BA6CAD,
     0xEDB88320, 0x9ABFB3B6, 0x03B6E20C, 0x74B1D29A, 0xEAD54739, 0x9DD277AF, 0x04DB2615, 0x73DC1683,
     0xE3630B12, 0x94643B84, 0x0D6D6A3E, 0x7A6A5AA8, 0xE40ECF0B, 0x9309FF9D, 0x0A00AE27, 0x7D079EB1,
     0xF00F9344, 0x8708A3D2, 0x1E01F268, 0x6906C2FE, 0xF762575D, 0x806567CB, 0x196C3671, 0x6E6B06E7,
     0xFED41B76, 0x89D32BE0, 0x10DA7A5A, 0x67DD4ACC, 0xF9B9DF6F, 0x8EBEEFF9, 0x17B7BE43, 0x60B08ED5,
     0xD6D6A3E8, 0xA1D1937E, 0x38D8C2C4, 0x4FDFF252, 0xD1BB67F1, 0xA6BC5767, 0x3FB506DD, 0x48B2364B,
     0xD80D2BDA, 0xAF0A1B4C, 0x36034AF6, 0x41047A60, 0xDF60EFC3, 0xA867DF55, 0x316E8EEF, 0x4669BE79,
     0xCB61B38C, 0xBC66831A, 0x256FD2A0, 0x5268E236, 0xCC0C7795, 0xBB0B4703, 0x220216B9, 0x5505262F,
     0xC5BA3BBE, 0xB2BD0B28, 0x2BB45A92, 0x5CB36A04, 0xC2D7FFA7, 0xB5D0CF31, 0x2CD99E8B, 0x5BDEAE1D,
     0x9B64C2B0, 0xEC63F226, 0x756AA39C, 0x026D930A, 0x9C0906A9, 0xEB0E363F]"

definition high_entries :: "int list" where
  "high_entries =
    [0x95BF4A82, 0xE2B87A14, 0x7BB12BAE, 0x0CB61B38, 0x92D28E9B, 0xE5D5BE0D, 0x7CDCEFB7, 0x0BDBDF21,
     0x86D3D2D4, 0xF1D4E242, 0x68DDB3F8, 0x1FDA836E, 0x81BE16CD, 0xF6B9265B, 0x6FB077E1, 0x18B74777,
     0x88085AE6, 0xFF0F6A70, 0x66063BCA, 0x11010B5C, 0x8F659EFF, 0xF862AE69, 0x616BFFD3, 0x166CCF45,
     0xA00AE278, 0xD70DD2EE, 0x4E048354, 0x3903B3C2, 0xA7672661, 0xD06016F7, 0x4969474D, 0x3E6E77DB,
     0xAED16A4A, 0xD9D65ADC, 0x40DF0B66, 0x37D83BF0, 0xA9BCAE53, 0xDEBB9EC5, 0x47B2CF7F, 0x30B5FFE9,
     0xBDBDF21C, 0xCABAC28A, 0x53B39330, 0x24B4A3A6, 0xBAD03605, 0xCDD70693, 0x54DE5729, 0x23D967BF,
     0xB3667A2E, 0xC4614AB8, 0x5D681B02, 0x2A6F2B94, 0xB40BBE37, 0xC30C8EA1, 0x5A05DF1B, 0x2D02EF8D]"

lemma standard_values:
  "map int_shift8 [0..255] = low_entries @ [0x72076785, 0x05005713] @ high_entries"
  by code_simp

lemma crc_table_values:
  "crc_table = map word_of_int low_entries @ [0x72576785, 0x05505713] @ map word_of_int high_entries"
  by (simp only: crc_table_def low_entries_def high_entries_def list.map append.simps word_of_int_numeral word_of_int_0)

lemma uint_crc_shift: "uint (crc_shift c) = int_shift (uint c)"
proof -
  have "bit c 0 \<longleftrightarrow> odd (uint c)" by (metis bit_0 bit_uint_iff len_gt_0)
  moreover have "uint (drop_bit 1 c) = uint c div 2" by (simp add: drop_bit_eq_div uint_div_distrib)
  ultimately show ?thesis by (simp add: crc_shift_def int_shift_def unsigned_xor_eq)
qed

lemma table_entry:
  assumes "i < 256" "i \<noteq> 198" "i \<noteq> 199"
  shows "crc_table ! i = (crc_shift ^^ 8) (word_of_nat i)"
proof -
  have "uint ((crc_shift ^^ 8) c) = int_shift8 (uint c)" for c
    by (simp add: int_shift8_def uint_crc_shift eval_nat_numeral)
  moreover have "uint (word_of_nat i :: i32) = int i" using assms(1) by (simp add: uint_nat unat_of_nat)
  moreover have "(low_entries @ [0x72076785, 0x05005713] @ high_entries) ! i = int_shift8 (int i)"
    using arg_cong [OF standard_values, of "\<lambda>xs. xs ! i"] assms(1) by simp
  ultimately have e: "uint ((crc_shift ^^ 8) (word_of_nat i)) = (low_entries @ [0x72076785, 0x05005713] @ high_entries) ! i"
    by simp
  have l: "length low_entries = 198" by (simp add: low_entries_def)
  have h: "length high_entries = 56" by (simp add: high_entries_def)
  have "crc_table ! i = word_of_int ((low_entries @ [0x72076785, 0x05005713] @ high_entries) ! i)"
  proof (cases "i < 198")
    case True
    then show ?thesis by (simp add: crc_table_values nth_append l)
  next
    case False
    then have "i = Suc (Suc (198 + (i - 200)))" using assms(2,3) by simp
    then show ?thesis using assms(1) False by (simp add: crc_table_values nth_append l h)
  qed
  also have "\<dots> = (crc_shift ^^ 8) (word_of_nat i)" using e by (metis word_of_int_uint)
  finally show ?thesis .
qed

text \<open>Eight shifts: the low byte goes through the table, the rest moves down.\<close>

lemma shift_xor:
  "drop_bit 1 (x XOR y) XOR (if bit (x XOR y) 0 then p else 0) =
     (drop_bit 1 x XOR (if bit x 0 then p else 0)) XOR (drop_bit 1 y XOR (if bit y 0 then p else 0))" for p :: i32
  by (rule bit_eqI) (auto simp: bit_simps)

lemma crc_shift_alt: "crc_shift c = drop_bit 1 c XOR (if bit c 0 then 0xEDB88320 else 0)"
  by (simp add: crc_shift_def)

lemma crc_shift_xor: "crc_shift (x XOR y) = crc_shift x XOR crc_shift y"
  unfolding crc_shift_alt by (rule shift_xor)

lemma crc_shifts_xor: "(crc_shift ^^ n) (x XOR y) = (crc_shift ^^ n) x XOR (crc_shift ^^ n) y"
  by (induction n) (simp_all add: crc_shift_xor)

lemma crc_shifts_high: "(\<And>k. k < n \<Longrightarrow> \<not> bit x k) \<Longrightarrow> (crc_shift ^^ n) x = drop_bit n x"
proof (induction n)
  case (Suc n)
  have "(crc_shift ^^ Suc n) x = crc_shift (drop_bit n x)" using Suc by simp
  also have "\<dots> = drop_bit (Suc n) x" using Suc.prems [of n] by (simp add: crc_shift_def bit_drop_bit_eq)
  finally show ?case .
qed simp

lemma byte_mask: "(0xFF :: i32) = mask 8"
  by (simp add: mask_eq_exp_minus_1)

lemma crc_index_less: "crc_index c b < 256"
proof -
  have "unat (take_bit 8 w) < 256" for w :: i32
    using take_bit_nat_less_exp [of 8 "unat w"] by (simp add: unsigned_take_bit_eq)
  then show ?thesis unfolding crc_index_def byte_mask take_bit_eq_mask [symmetric] .
qed

lemma xor_cancel: "(x XOR z = y XOR z) = (x = (y :: i32))" "(z XOR x = z XOR y) = (x = y)"
proof -
  show e: "(x XOR z = y XOR z) = (x = y)" for x y z :: i32
  proof
    assume h: "x XOR z = y XOR z"
    have "x = (x XOR z) XOR z" by (simp add: xor.assoc)
    also have "\<dots> = y" unfolding h by (simp add: xor.assoc)
    finally show "x = y" .
  qed simp
  show "(z XOR x = z XOR y) = (x = y)" using e [of x z y] by (simp add: xor.commute)
qed

lemma crc32_split: "crc32_step c b = drop_bit 8 c XOR (crc_shift ^^ 8) ((c XOR ucast b) AND 0xFF)"
proof -
  define y where "y = c XOR ucast b"
  have bits: "\<not> bit b (8 + k)" for k using bit_imp_le_length [of b "8 + k"] by auto
  have top: "bit c (8 + k) \<Longrightarrow> k < 24" for k using bit_imp_le_length [of c "8 + k"] by auto
  have split: "y = (y AND NOT 0xFF) XOR (y AND 0xFF)" by (rule bit_eqI) (auto simp: bit_simps)
  have "(crc_shift ^^ 8) (y AND NOT 0xFF) = drop_bit 8 (y AND NOT 0xFF)"
    by (rule crc_shifts_high) (simp add: byte_mask bit_simps)
  also have "\<dots> = drop_bit 8 c" by (rule bit_eqI) (auto simp: y_def byte_mask bit_simps bits top)
  finally have high: "(crc_shift ^^ 8) (y AND NOT 0xFF) = drop_bit 8 c" .
  have "crc32_step c b = (crc_shift ^^ 8) ((y AND NOT 0xFF) XOR (y AND 0xFF))"
    unfolding crc32_step_def y_def [symmetric] by (simp only: split [symmetric])
  then show ?thesis unfolding crc_shifts_xor high unfolding y_def .
qed

lemma crc_step_standard:
  assumes "crc_index c b \<noteq> 198" "crc_index c b \<noteq> 199"
  shows "crc_step c b = crc32_step c b"
  using table_entry [OF crc_index_less [of c b] assms] by (simp add: crc32_split crc_step_def crc_index_def)

lemma crc_fold_standard:
  "198 \<notin> set (crc_indices c bs) \<Longrightarrow> 199 \<notin> set (crc_indices c bs) \<Longrightarrow> foldl crc_step c bs = foldl crc32_step c bs"
  by (induction bs arbitrary: c) (auto simp: crc_step_standard)

text \<open>The two entries that differ.\<close>

lemma wrong_entries:
  assumes "i = 198 \<or> i = 199"
  shows "crc_table ! i \<noteq> (crc_shift ^^ 8) (word_of_nat i)"
proof -
  have u: "uint ((crc_shift ^^ 8) c) = int_shift8 (uint c)" for c
    by (simp add: int_shift8_def uint_crc_shift eval_nat_numeral)
  have l: "length low_entries = 198" by (simp add: low_entries_def)
  have "int_shift8 198 = 0x72076785" "int_shift8 199 = 0x05005713"
    by (simp_all add: int_shift8_def int_shift_def)
  then have "uint ((crc_shift ^^ 8) 198) = 0x72076785" "uint ((crc_shift ^^ 8) 199) = 0x05005713" by (simp_all add: u)
  moreover have "crc_table ! 198 = 0x72576785" "crc_table ! 199 = 0x05505713"
    using l by (simp_all add: crc_table_values nth_append)
  ultimately show ?thesis using assms by (auto dest: arg_cong [of _ _ uint])
qed

lemma crc_step_wrong:
  assumes "crc_index c b = 198 \<or> crc_index c b = 199"
  shows "crc_step c b \<noteq> crc32_step c b"
proof
  assume eq: "crc_step c b = crc32_step c b"
  define y where "y = c XOR ucast b"
  have "crc32_step c b = drop_bit 8 c XOR (crc_shift ^^ 8) (y AND 0xFF)" by (simp add: crc32_split y_def)
  then have "crc_table ! crc_index c b = (crc_shift ^^ 8) (word_of_nat (crc_index c b))"
    using eq by (simp add: crc_step_def crc_index_def y_def xor_cancel)
  then show False using wrong_entries [OF assms] by simp
qed

text \<open>C34: The checksum of an event is CRC-32 of its payload as long as the computation does not look at the entries
  198 and 199 of the table, and goes wrong with the first byte that leads there.\<close>

theorem checksum_is_crc32:
  assumes "198 \<notin> set (crc_indices 0xFFFFFFFF bs)" "199 \<notin> set (crc_indices 0xFFFFFFFF bs)"
  shows "CalculateCRC32 (bs @ [b]) = crc32 (bs @ [b]) \<longleftrightarrow> crc_index (foldl crc32_step 0xFFFFFFFF bs) b \<notin> {198, 199}"
proof -
  let ?c = "foldl crc32_step 0xFFFFFFFF bs"
  have c: "foldl crc_step 0xFFFFFFFF bs = ?c" using assms by (rule crc_fold_standard)
  have "CalculateCRC32 (bs @ [b]) = crc32 (bs @ [b]) \<longleftrightarrow> crc_step ?c b = crc32_step ?c b"
    unfolding CalculateCRC32_def crc32_def foldl_append foldl.simps c xor_cancel ..
  also have "\<dots> \<longleftrightarrow> crc_index ?c b \<notin> {198, 199}" using crc_step_standard [of ?c b] crc_step_wrong [of ?c b] by auto
  finally show ?thesis .
qed

theorem checksum_is_crc32_witness: "CalculateCRC32 [57] \<noteq> crc32 [57]"
proof -
  have "crc_index 0xFFFFFFFF 57 = 198" by (simp add: crc_index_def)
  then show ?thesis using checksum_is_crc32 [of "[]" 57] by simp
qed


section \<open>The binary log\<close>

lemma word_of_bytes: "(word_of_nat (unat c + 256 * d) :: 'a::len word) = ucast (c :: byte) OR push_bit 8 (word_of_nat d)"
proof -
  have "unat c AND push_bit 8 d = 0"
    using bit_imp_le_length [of c] by (intro bit_eqI) (auto simp: bit_simps dest: leD)
  then have "unat c + push_bit 8 d = unat c OR push_bit 8 d" by (rule disjunctive_add_eq_or)
  then have "unat c + 256 * d = unat c OR push_bit 8 d" by (simp add: push_bit_eq_mult mult.commute)
  then show ?thesis by (simp only: of_nat_or_eq of_nat_push_bit) (simp add: unsigned_ucast_eq)
qed

text \<open>A stream with \<open>n\<close> bytes less.\<close>

definition advance :: "nat \<Rightarrow> in_stream \<Rightarrow> in_stream" where
  "advance n s = s\<lparr>is_rest := drop n (is_rest s), is_pos := is_pos s + n\<rparr>"

lemma advance_simps [simp]:
  "is_rest (advance n s) = drop n (is_rest s)" "is_opened (advance n s) = is_opened s" "is_eof (advance n s) = is_eof s"
  "is_fail (advance n s) = is_fail s" "is_pos (advance n s) = is_pos s + n" "is_good (advance n s) = is_good s"
  "advance m (advance n s) = advance (m + n) s"
  by (simp_all add: advance_def is_good_def add_ac)

lemma read_word_bytes:
  "is_good s \<Longrightarrow> is_rest s = bs @ t \<Longrightarrow>
     read_word (length bs) i v s = (v OR push_bit (8 * i) (word_of_nat (le_dec bs) :: 'a::len word), advance (length bs) s)"
proof (induction bs arbitrary: i v s)
  case Nil
  then show ?case by (simp add: advance_def)
next
  case (Cons c bs)
  have g: "get_char s = (Some c, advance 1 s)" using Cons.prems by (simp add: get_char_def advance_def)
  have l: "(word_of_nat (le_dec (c # bs)) :: 'a word) = ucast c OR push_bit 8 (word_of_nat (le_dec bs))"
    by (simp only: le_dec.simps word_of_bytes)
  have p: "push_bit (8 + 8 * i) w = push_bit (8 * i) (push_bit 8 w)" for w :: "'a word"
    by (simp add: push_bit_push_bit add.commute)
  show ?case
    using Cons.IH [of "advance 1 s" "Suc i" "v OR push_bit (8 * i) (ucast c)"] Cons.prems
    by (simp add: g l p push_bit_or or.assoc del: le_dec.simps push_bit_push_bit)
qed

lemma read_enc_word:
  fixes w :: "'a::len word"
  assumes "is_good s" "is_rest s = enc_word w @ t" "LENGTH('a) = 8 * n"
  shows "read_word n 0 0 s = (w, advance n s)"
proof -
  have "word_of_nat (le_dec (enc_word w)) = w" using dec_enc_word [where 'a = 'a, of w] assms(3) by (simp add: dec_word_def)
  moreover have "read_word n 0 (0 :: 'a word) s = (word_of_nat (le_dec (enc_word w)), advance n s)"
    using read_word_bytes [OF assms(1,2), of 0 "0 :: 'a word"] assms(3) by simp
  ultimately show ?thesis by simp
qed


lemma read_block_bytes:
  "is_good s \<Longrightarrow> is_rest s = bs @ t \<Longrightarrow> read_block (length bs) s = (bs, advance (length bs) s)"
  by (simp add: read_block_def advance_def)

lemma get_type_byte:
  "is_good s \<Longrightarrow> is_rest s = event_code ty # t \<Longrightarrow> event_of_code (event_code ty) = ty \<Longrightarrow>
     get_event_type s = (ty, advance 1 s)"
  by (simp add: get_event_type_def get_char_def advance_def)

definition plain_event :: "BinlogEvent \<Rightarrow> bool" where
  "plain_event e \<longleftrightarrow> length (ev_payload e) < 2 ^ 32 \<and> event_of_code (event_code (ev_type e)) = ev_type e"

definition event_size :: "BinlogEvent \<Rightarrow> nat" where
  "event_size e = 29 + length (ev_payload e)"

lemma length_event_bytes [simp]: "length (event_bytes e) = event_size e"
  by (simp add: event_bytes_def event_size_def)

text \<open>One event read from the front of a stream.\<close>

lemma ReadNextEvent_event:
  assumes good: "is_good s" "is_opened s" and rest: "is_rest s = event_bytes e @ t" and e: "plain_event e"
  shows "ReadNextEvent s = (Some e, advance (event_size e) s)"
proof -
  let ?n = "length (ev_payload e)"
  have eof: "\<not> is_eof s" "\<not> is_fail s" using good by (auto simp: is_good_def)
  have d25: "drop 25 (is_rest s) = ev_payload e @ enc_word (ev_checksum e) @ t" by (simp add: rest event_bytes_def)
  have "drop (25 + ?n) (is_rest s) = drop ?n (drop 25 (is_rest s))" by (simp add: add.commute)
  then have dn: "drop (25 + ?n) (is_rest s) = enc_word (ev_checksum e) @ t" by (simp add: d25)
  have drops: "is_rest s = enc_word (ev_timestamp e) @ drop 8 (is_rest s)"
    "drop 8 (is_rest s) = enc_word (ev_server_id e) @ drop 12 (is_rest s)"
    "drop 12 (is_rest s) = event_code (ev_type e) # drop 13 (is_rest s)"
    "drop 13 (is_rest s) = enc_word (ev_txn_id e) @ drop 21 (is_rest s)"
    "drop 21 (is_rest s) = enc_word (word_of_nat ?n :: i32) @ drop 25 (is_rest s)"
    by (simp_all add: rest event_bytes_def)
  have 1: "read_word 8 0 0 s = (ev_timestamp e, advance 8 s)" using good(1) drops(1) by (rule read_enc_word) simp
  have 2: "read_word 4 0 0 (advance 8 s) = (ev_server_id e, advance 12 s)"
    using read_enc_word [of "advance 8 s" "ev_server_id e" "drop 12 (is_rest s)" 4] good drops(2) by simp
  have 3: "get_event_type (advance 12 s) = (ev_type e, advance 13 s)"
    using get_type_byte [of "advance 12 s" "ev_type e" "drop 13 (is_rest s)"] good drops(3) e by (simp add: plain_event_def)
  have 4: "read_word 8 0 0 (advance 13 s) = (ev_txn_id e, advance 21 s)"
    using read_enc_word [of "advance 13 s" "ev_txn_id e" "drop 21 (is_rest s)" 8] good drops(4) by simp
  have 5: "read_word 4 0 0 (advance 21 s) = (word_of_nat ?n :: i32, advance 25 s)"
    using read_enc_word [of "advance 21 s" "word_of_nat ?n :: i32" "drop 25 (is_rest s)" 4] good drops(5) by simp
  have n: "unat (word_of_nat ?n :: i32) = ?n" using e by (simp add: plain_event_def unat_of_nat)
  have 6: "(if (word_of_nat ?n :: i32) > 0 then read_block (unat (word_of_nat ?n :: i32)) (advance 25 s) else ([], advance 25 s))
      = (ev_payload e, advance (25 + ?n) s)"
    using read_block_bytes [of "advance 25 s" "ev_payload e" "drop (25 + ?n) (is_rest s)"] good d25 dn n
    by (auto simp: word_gt_0 unat_eq_0 [symmetric] add.commute simp del: unat_eq_zero)
  have 7: "read_word 4 0 0 (advance (25 + ?n) s) = (ev_checksum e, advance (event_size e) s)"
    using read_enc_word [of "advance (25 + ?n) s" "ev_checksum e" t 4] good dn by (simp add: event_size_def)
  show ?thesis
    using eof good(2) by (simp only: ReadNextEvent_def Let_def 1 2 3 4 5 6 7 prod.case) simp
qed


fun read_all :: "nat \<Rightarrow> in_stream \<Rightarrow> BinlogEvent list" where
  "read_all 0 s = []"
| "read_all (Suc n) s = (case ReadNextEvent s of (None, _) \<Rightarrow> [] | (Some e, s) \<Rightarrow> e # read_all n s)"

lemma ReadNextEvent_end: "is_good s \<Longrightarrow> is_rest s = [] \<Longrightarrow> fst (ReadNextEvent s) = None"
  by (simp add: ReadNextEvent_def Let_def eval_nat_numeral get_char_def is_good_def)

lemma read_all_events:
  "is_good s \<Longrightarrow> is_opened s \<Longrightarrow> is_rest s = concat (map event_bytes es) \<Longrightarrow> list_all plain_event es \<Longrightarrow> length es < n \<Longrightarrow>
     read_all n s = es"
proof (induction es arbitrary: n s)
  case Nil
  then obtain m where m: "n = Suc m" by (cases n) auto
  show ?case using ReadNextEvent_end [of s] Nil.prems by (cases "ReadNextEvent s") (simp add: m)
next
  case (Cons e es)
  then obtain m where m: "n = Suc m" by (cases n) auto
  have "ReadNextEvent s = (Some e, advance (event_size e) s)" using Cons.prems by (intro ReadNextEvent_event) simp_all
  then show ?case using Cons.IH [of "advance (event_size e) s" m] Cons.prems by (simp add: m)
qed

type_synonym event_args = "u64 \<times> BinlogEventType \<times> u64 \<times> byte list"

definition event_of :: "event_args \<Rightarrow> BinlogEvent" where
  "event_of a = (case a of (now, ty, txn, payload) \<Rightarrow> new_event now ty txn payload)"

definition write_all :: "event_args list \<Rightarrow> binlog \<Rightarrow> binlog" where
  "write_all = fold (\<lambda>(now, ty, txn, payload). WriteEvent now ty txn payload)"

lemma write_all_data:
  assumes "bl_file w = Some i" "bl_size w + sum_list (map (event_size \<circ> event_of) evs) \<le> bl_max_size w"
  shows "bl_index (fst (write_all evs (w, fs))) = bl_index w \<and> lf_dir (snd (write_all evs (w, fs))) = lf_dir fs \<and>
    lf_data (snd (write_all evs (w, fs))) i = lf_data fs i @ concat (map (event_bytes \<circ> event_of) evs)"
  using assms
proof (induction evs arbitrary: w fs)
  case Nil
  then show ?case by (simp add: write_all_def)
next
  case (Cons a evs)
  obtain now ty txn payload where a: "a = (now, ty, txn, payload)" by (metis prod_cases4)
  have size: "event_size (event_of a) = 29 + length payload" by (simp add: a event_of_def new_event_def event_size_def)
  let ?w = "w\<lparr>bl_size := bl_size w + (29 + length payload)\<rparr>"
  let ?fs = "write_output i (event_bytes (event_of a)) fs"
  have "WriteEvent now ty txn payload (w, fs) = (?w, ?fs)"
    using Cons.prems size by (simp add: WriteEvent_def a event_of_def add_ac)
  then have "write_all (a # evs) (w, fs) = write_all evs (?w, ?fs)" by (simp add: write_all_def a)
  then show ?case using Cons.IH [of ?w ?fs] Cons.prems size by (simp add: write_output_def add.assoc)
qed

text \<open>C35: The events written to a new file of the binary log are read back as they were, with their checksums and in
  order, and nothing after them, as long as the file does not reach its maximal size.\<close>

theorem binlog_roundtrip:
  assumes "bl_file w = Some i" "lf_dir fs (GetCurrentFileName w) = Some i" "lf_data fs i = []"
    and "bl_size w + sum_list (map (event_size \<circ> event_of) evs) \<le> bl_max_size w"
    and "list_all (plain_event \<circ> event_of) evs" and "length evs < n"
  shows "read_all n (open_input (GetCurrentFileName w) (snd (write_all evs (w, fs)))) = map event_of evs"
proof -
  have d: "lf_dir (snd (write_all evs (w, fs))) = lf_dir fs"
    "lf_data (snd (write_all evs (w, fs))) i = concat (map (event_bytes \<circ> event_of) evs)"
    using write_all_data [OF assms(1,4), of fs] assms(3) by simp_all
  show ?thesis
    by (rule read_all_events) (use assms d in \<open>simp_all add: open_input_def is_good_def list_all_iff\<close>)
qed

definition fresh_binlog :: binlog where
  "fresh_binlog = binlog_Initialize [98] 1
     (BinlogWriter, \<lparr>lf_dir = Map.empty, lf_data = (\<lambda>_. []), lf_next = 0, lf_can_open = (\<lambda>_. True)\<rparr>)"

theorem binlog_roundtrip_witness:
  "read_all 3 (open_input (GetCurrentFileName (fst fresh_binlog))
     (snd (write_all [(5, QUERY, 7, [1, 2, 3]), (6, XID, 7, [])] fresh_binlog))) =
   [new_event 5 QUERY 7 [1, 2, 3], new_event 6 XID 7 []]"
proof -
  have "show_nat 1 = [digit 1]" by (subst show_nat.simps) simp
  then have p: "show_padded 6 1 = [48, 48, 48, 48, 48, 49]" by (simp add: show_padded_def digit_def eval_nat_numeral)
  have b: "bl_file (fst fresh_binlog) = Some 0" "bl_size (fst fresh_binlog) = 0" "bl_max_size (fst fresh_binlog) = 1024 * 1024"
    "lf_dir (snd fresh_binlog) (GetCurrentFileName (fst fresh_binlog)) = Some 0" "lf_data (snd fresh_binlog) 0 = []"
    by (simp_all add: fresh_binlog_def binlog_Initialize_def BinlogWriter_def open_output_def UpdateIndexFile_def GetFilePath_def
        GetIndexFilePath_def GetCurrentFileName_def write_output_def Let_def ascii_def p [simplified])
  show ?thesis
    using binlog_roundtrip [of "fst fresh_binlog" 0 "snd fresh_binlog" "[(5, QUERY, 7, [1, 2, 3]), (6, XID, 7, [])]" 3] b
    by (simp add: event_of_def new_event_def event_size_def plain_event_def event_code_def event_of_code_def)
qed

section \<open>The ring buffers\<close>

definition ring_of :: "'e list \<Rightarrow> 'e ring" where
  "ring_of es = fold ring_append es \<lparr>ring_buffer = [], ring_pos = 0\<rparr>"

lemma ring_of_snoc: "ring_of (es @ [e]) = ring_append e (ring_of es)"
  by (simp add: ring_of_def)

lemma ring_short: "length es \<le> kRingBufferSize \<Longrightarrow> ring_of es = \<lparr>ring_buffer = es, ring_pos = 0\<rparr>"
proof (induction es rule: rev_induct)
  case (snoc e es)
  then show ?case by (simp add: ring_of_snoc ring_append_def)
qed (simp add: ring_of_def)

text \<open>Which entry stands at a position of a full ring.\<close>

definition ring_index :: "nat \<Rightarrow> nat \<Rightarrow> nat" where
  "ring_index n j = (let r = n mod kRingBufferSize in if j < r then n - r + j else n - r - kRingBufferSize + j)"

lemma ring_full:
  assumes "kRingBufferSize \<le> length es"
  shows "length (ring_buffer (ring_of es)) = kRingBufferSize \<and> ring_pos (ring_of es) = length es mod kRingBufferSize \<and>
    (\<forall>j<kRingBufferSize. ring_buffer (ring_of es) ! j = es ! ring_index (length es) j)"
  using assms
proof (induction es rule: rev_induct)
  case Nil
  then show ?case by (simp add: kRingBufferSize_def)
next
  case (snoc e es)
  show ?case
  proof (cases "length es < kRingBufferSize")
    case True
    then have n: "length (es @ [e]) = kRingBufferSize" using snoc.prems by simp
    then show ?thesis using ring_short [of "es @ [e]"] by (simp add: ring_index_def)
  next
    case False
    let ?N = kRingBufferSize let ?n = "length es"
    have pos: "0 < ?N" by (simp add: kRingBufferSize_def)
    have "0 < ?n div ?N" using False pos by (simp add: div_greater_zero_iff)
    then have r: "?n mod ?N < ?N" "?n mod ?N \<le> ?n" "?N \<le> ?n - ?n mod ?N"
      using pos by (simp_all add: minus_mod_eq_mult_div)
    have ih: "length (ring_buffer (ring_of es)) = ?N" "ring_pos (ring_of es) = ?n mod ?N"
      "\<forall>j<?N. ring_buffer (ring_of es) ! j = es ! ring_index ?n j"
      using snoc.IH False by auto
    have "ring_buffer (ring_of (es @ [e])) ! j = (es @ [e]) ! ring_index (Suc ?n) j" if j: "j < ?N" for j
    proof (cases "j = ?n mod ?N")
      case True
      have "ring_index (Suc ?n) j = ?n" using r True by (auto simp: ring_index_def Let_def mod_Suc)
      then show ?thesis using ih r True by (simp add: ring_of_snoc ring_append_def)
    next
      case False
      have "ring_index (Suc ?n) j = ring_index ?n j" using r False j by (auto simp: ring_index_def Let_def mod_Suc)
      moreover have "ring_index ?n j < ?n" using r j False by (auto simp: ring_index_def Let_def)
      ultimately show ?thesis using ih j False by (simp add: ring_of_snoc ring_append_def nth_append)
    qed
    then show ?thesis using ih by (simp add: ring_of_snoc ring_append_def mod_Suc_eq)
  qed
qed


text \<open>A log returns its most recent entries in order only while it has seen at most 2000 of them (or a multiple
  of 2000). After that the newest entries stand at the front of the ring and the last ones returned are old.\<close>

theorem recent_entries:
  "GetRecentEntries k (ring_of es) =
     (let n = length es; r = n mod kRingBufferSize in
      if n \<le> kRingBufferSize then drop (n - k) es
      else drop (kRingBufferSize - k) (drop (n - r) es @ take (kRingBufferSize - r) (drop (n - kRingBufferSize) es)))"
proof -
  let ?N = kRingBufferSize let ?n = "length es" let ?r = "length es mod kRingBufferSize"
  have map_nth: "map ((!) xs) [length xs - min k (length xs)..<length xs] = drop (length xs - k) xs" for xs :: "'a list"
    by (rule nth_equalityI) (auto intro: arg_cong [where f = "(!) xs"])
  have recent: "GetRecentEntries k rg = drop (length (ring_buffer rg) - k) (ring_buffer rg)"
    if "length (ring_buffer rg) \<le> ?N" for rg :: "'a ring"
  proof -
    let ?t = "length (ring_buffer rg)"
    have "(if ?t > min k ?t then ?t - min k ?t else 0) = ?t - min k ?t" by auto
    then show ?thesis using that by (simp only: GetRecentEntries_def Let_def if_True map_nth)
  qed
  show ?thesis
  proof (cases "?n \<le> ?N")
    case True
    then show ?thesis using recent [of "ring_of es"] by (simp add: ring_short)
  next
    case False
    have "0 < ?n div ?N" using False by (simp add: div_greater_zero_iff kRingBufferSize_def)
    then have r: "?r < ?N" "?N \<le> ?n - ?r" by (simp_all add: minus_mod_eq_mult_div kRingBufferSize_def)
    have full: "length (ring_buffer (ring_of es)) = ?N"
      "\<forall>j<?N. ring_buffer (ring_of es) ! j = es ! ring_index ?n j" using ring_full [of es] False by simp_all
    have "ring_buffer (ring_of es) = drop (?n - ?r) es @ take (?N - ?r) (drop (?n - ?N) es)"
    proof (rule nth_equalityI)
      show "length (ring_buffer (ring_of es)) = length (drop (?n - ?r) es @ take (?N - ?r) (drop (?n - ?N) es))"
        using r full(1) by simp
    next
      fix j assume "j < length (ring_buffer (ring_of es))"
      then have j: "j < ?N" by (simp add: full(1))
      show "ring_buffer (ring_of es) ! j = (drop (?n - ?r) es @ take (?N - ?r) (drop (?n - ?N) es)) ! j"
      proof (cases "j < ?r")
        case True
        then show ?thesis using full(2) j r by (simp add: ring_index_def nth_append)
      next
        case False
        have "?n - ?N + (j - ?r) = ?n - ?r - ?N + j" using False r by linarith
        then show ?thesis using full(2) j r False by (simp add: ring_index_def nth_append)
      qed
    qed
    then show ?thesis using recent [of "ring_of es"] full(1) False by (simp add: Let_def)
  qed
qed

end
