(* ===== verification/Command_Text.thy ===== *)
theory Command_Text
  imports Auth_Manager
begin

text \<open>
  The text functions of the administrative commands (sql/executor/execution_engine.cpp), which the engine
  recognises and takes apart itself before the SQL parser sees them, and the operations of \<open>std::string\<close> they
  use: \<open>find\<close> from a position, \<open>substr\<close> (\<open>None\<close> where it throws), \<open>toupper\<close> of the C locale.
\<close>

section \<open>Strings\<close>

definition to_upper :: "str \<Rightarrow> str" where
  "to_upper s = map (\<lambda>c. if 97 \<le> c \<and> c \<le> 122 then c - 32 else c) s"

definition starts_with :: "string \<Rightarrow> str \<Rightarrow> bool" where
  "starts_with p s \<longleftrightarrow> take (length p) s = ascii p"

text \<open>\<open>find\<close> of a text in the whole string, and from a position.\<close>

fun find_text :: "str \<Rightarrow> str \<Rightarrow> nat option" where
  "find_text p [] = (if p = [] then Some 0 else None)"
| "find_text p (c # s) =
     (if take (length p) (c # s) = p then Some 0 else map_option Suc (find_text p s))"

definition find_from :: "str \<Rightarrow> nat \<Rightarrow> str \<Rightarrow> nat option" where
  "find_from p pos s = (if pos > length s then None else map_option ((+) pos) (find_text p (drop pos s)))"

definition substr_to_end :: "nat \<Rightarrow> str \<Rightarrow> str option" where
  "substr_to_end pos s = (if pos > length s then None else Some (drop pos s))"

definition substr :: "nat \<Rightarrow> nat \<Rightarrow> str \<Rightarrow> str option" where
  "substr pos len s = (if pos > length s then None else Some (take len (drop pos s)))"

fun skip_while :: "(byte \<Rightarrow> bool) \<Rightarrow> nat \<Rightarrow> str \<Rightarrow> nat" where
  "skip_while P pos [] = pos"
| "skip_while P pos (c # s) = (if P c then skip_while P (Suc pos) s else pos)"

text \<open>The loops \<open>while (pos < s.size() && P(s[pos])) pos++\<close>.\<close>

definition skip :: "(byte \<Rightarrow> bool) \<Rightarrow> nat \<Rightarrow> str \<Rightarrow> nat" where
  "skip P pos s = skip_while P pos (drop pos s)"

section \<open>Identifiers\<close>

definition trim_back :: "byte \<Rightarrow> bool" where
  "trim_back c \<longleftrightarrow> c = 59 \<or> c = 96 \<or> is_space c"

definition trim_front :: "byte \<Rightarrow> bool" where
  "trim_front c \<longleftrightarrow> c = 96 \<or> is_space c"

definition TrimIdentifier :: "str \<Rightarrow> str" where
  "TrimIdentifier s = dropWhile trim_front (rev (dropWhile trim_back (rev s)))"

text \<open>The name of a savepoint: what follows the blanks, up to the next blank or semicolon.\<close>

definition name_at :: "nat \<Rightarrow> str \<Rightarrow> str" where
  "name_at pos sql = takeWhile (\<lambda>c. \<not> is_space c \<and> c \<noteq> 59) (drop (skip is_space pos sql) sql)"

section \<open>Users and strings\<close>

definition is_quote :: "byte \<Rightarrow> bool" where
  "is_quote c \<longleftrightarrow> c = 39 \<or> c = 34"

text \<open>A text in quotes at a position: what is between the quotes and the position of the closing one.\<close>

definition quoted_at :: "nat \<Rightarrow> str \<Rightarrow> (str \<times> nat) option" where
  "quoted_at start s =
     (if start \<ge> length s \<or> \<not> is_quote (s ! start) then None
      else case find_from [s ! start] (start + 1) s of
        None \<Rightarrow> None
      | Some e \<Rightarrow> Some (take (e - (start + 1)) (drop (start + 1) s), e))"

definition ParseUserHost :: "str \<Rightarrow> nat \<Rightarrow> (str \<times> str) option" where
  "ParseUserHost s start =
     (case quoted_at (skip is_space start s) s of
        None \<Rightarrow> None
      | Some (user, e) \<Rightarrow>
          let e = skip is_space (e + 1) s in
          if e \<ge> length s \<or> s ! e \<noteq> 64 then None
          else case quoted_at (skip is_space (e + 1) s) s of
            None \<Rightarrow> None
          | Some (host, _) \<Rightarrow> Some (user, host))"

text \<open>The length of a quoted text: a backslash takes the next character with it.\<close>

fun quoted_length :: "byte \<Rightarrow> str \<Rightarrow> nat" where
  "quoted_length q [] = 0"
| "quoted_length q [c] = (if c = q then 0 else 1)"
| "quoted_length q (c # d # s) =
     (if c = q then 0 else if c = 92 then Suc (Suc (quoted_length q s)) else Suc (quoted_length q (d # s)))"

definition ParseQuotedString :: "str \<Rightarrow> nat \<Rightarrow> str" where
  "ParseQuotedString s pos =
     (let pos = skip is_space pos s in
      if pos \<ge> length s then []
      else if \<not> is_quote (s ! pos) then takeWhile (\<lambda>c. \<not> is_space c \<and> c \<noteq> 59) (drop pos s)
      else let rest = drop (pos + 1) s in take (quoted_length (s ! pos) rest) rest)"

section \<open>Privileges and objects\<close>

text \<open>\<open>std::getline\<close> with a comma: an empty text has no tokens, and a comma at the end opens none.\<close>

fun comma_tokens :: "str \<Rightarrow> str \<Rightarrow> str list" where
  "comma_tokens acc [] = (if acc = [] then [] else [acc])"
| "comma_tokens acc (c # s) = (if c = 44 then acc # comma_tokens [] s else comma_tokens (acc @ [c]) s)"

text \<open>\<open>find_first_not_of\<close> and \<open>find_last_not_of\<close>, the second with its own set, and the text between them. When the
  first finds a character and the second does not, the length \<open>npos - s + 1\<close> is 0 for \<open>s = 0\<close> and otherwise
  reaches beyond the end. \<open>None\<close> is a text of blanks.\<close>

definition is_blank_or_semi :: "byte \<Rightarrow> bool" where
  "is_blank_or_semi c \<longleftrightarrow> c = 32 \<or> c = 9 \<or> c = 10 \<or> c = 13 \<or> c = 59"

definition is_tab_blank :: "byte \<Rightarrow> bool" where
  "is_tab_blank c \<longleftrightarrow> c = 32 \<or> c = 9 \<or> c = 10 \<or> c = 13"

definition trimmed :: "(byte \<Rightarrow> bool) \<Rightarrow> str \<Rightarrow> str option" where
  "trimmed back s =
     (let front = dropWhile is_tab_blank s;
          upto = rev (dropWhile back (rev s))
      in if front = [] then None
      else if upto = [] then Some (if length front = length s then [] else front)
      else Some (take (length upto - (length s - length front)) front))"

definition privilege_of_token :: "str \<Rightarrow> u32" where
  "privilege_of_token t =
     (if t = ascii ''ALL'' \<or> t = ascii ''ALL PRIVILEGES'' then priv_bits PRIV_ALL
      else if t = ascii ''SELECT'' then priv_bits PRIV_SELECT
      else if t = ascii ''INSERT'' then priv_bits PRIV_INSERT
      else if t = ascii ''UPDATE'' then priv_bits PRIV_UPDATE
      else if t = ascii ''DELETE'' then priv_bits PRIV_DELETE
      else if t = ascii ''CREATE'' then priv_bits PRIV_CREATE
      else if t = ascii ''DROP'' then priv_bits PRIV_DROP
      else if t = ascii ''INDEX'' then priv_bits PRIV_INDEX
      else if t = ascii ''ALTER'' then priv_bits PRIV_ALTER
      else if t = ascii ''GRANT OPTION'' then priv_bits PRIV_GRANT
      else 0)"

definition ParsePrivilegeList :: "str \<Rightarrow> u32" where
  "ParsePrivilegeList priv_list =
     fold (\<lambda>token p. case trimmed is_blank_or_semi token of None \<Rightarrow> p | Some t \<Rightarrow> p OR privilege_of_token t)
       (comma_tokens [] (to_upper priv_list)) 0"

definition unquote :: "str \<Rightarrow> str" where
  "unquote s = (if s \<noteq> [] \<and> (hd s = 96 \<or> hd s = 39) then take (length s - 2) (tl s) else s)"

definition trim_part :: "str \<Rightarrow> str" where
  "trim_part s = (case trimmed is_tab_blank s of None \<Rightarrow> s | Some t \<Rightarrow> t)"

text \<open>The database and the table of a GRANT or REVOKE; without a dot they are \<open>*\<close> and \<open>*\<close>.\<close>

definition grant_object :: "str \<Rightarrow> str \<times> str" where
  "grant_object text =
     (let object = (case trimmed is_blank_or_semi text of None \<Rightarrow> text | Some t \<Rightarrow> t) in
      case find_text [46] object of
        None \<Rightarrow> (ascii ''*'', ascii ''*'')
      | Some dot \<Rightarrow> (unquote (trim_part (take dot object)), unquote (trim_part (drop (dot + 1) object))))"

section \<open>Foreign keys\<close>

definition is_tab :: "byte \<Rightarrow> bool" where
  "is_tab c \<longleftrightarrow> c = 32 \<or> c = 9"

text \<open>Splitting at blanks and tabs.\<close>

function fk_parts :: "str \<Rightarrow> str list" where
  "fk_parts s =
     (if s = [] then []
      else takeWhile (\<lambda>c. \<not> is_tab c) s # fk_parts (dropWhile is_tab (dropWhile (\<lambda>c. \<not> is_tab c) s)))"
  by auto
termination
proof (relation "measure length")
  fix s :: str
  assume s: "s \<noteq> []"
  have le: "length (dropWhile P xs) \<le> length xs" for P and xs :: str by (rule length_dropWhile_le)
  show "(dropWhile is_tab (dropWhile (\<lambda>c. \<not> is_tab c) s), s) \<in> measure length"
    using s le [of is_tab "tl s"] le [of "\<lambda>c. \<not> is_tab c" "tl s"]
      le [of is_tab "dropWhile (\<lambda>c. \<not> is_tab c) (tl s)"]
    by (cases s) auto
qed simp

declare fk_parts.simps [simp del]

definition split_dot :: "str \<Rightarrow> (str \<times> str) option" where
  "split_dot s = map_option (\<lambda>dot. (take dot s, drop (dot + 1) s)) (find_text [46] s)"

definition fk_action :: "str list \<Rightarrow> FkAction option" where
  "fk_action parts =
     (if length parts < 3 then Some CASCADE
      else let a = to_upper (parts ! 2) in
        if a = ascii ''RESTRICT'' then Some RESTRICT
        else if a = ascii ''SET_NULL'' \<or> a = ascii ''SETNULL'' then Some SET_NULL
        else if a \<noteq> ascii ''CASCADE'' then None
        else Some CASCADE)"

end
