(* ===== verification/Parser.thy ===== *)
theory Parser
  imports Ast Command_Text
begin

text \<open>
  The translation of parse trees into statements (the second part of sql/parser/parser.cpp). The lexer and the grammar
  are libpg_query, a third-party library: its parser is the argument \<open>pg\<close> of \<open>Parse\<close>, which gives an error
  message or the list of the trees. \<open>PGNode\<close> has the node types the translation looks at, with the fields it
  reads (nodes/parsenodes.hpp, primnodes.hpp and value.hpp of the library); \<open>Other_Node\<close> is a node of any other
  type, \<open>Null_Node\<close> a null pointer, and an empty list is the null list. \<open>castNode\<close> does not check the type in the
  library as it is built: reading a node as something it is not has the result \<open>None\<close>.
\<close>

section \<open>Parse trees\<close>

datatype PGAExpr_Kind = PG_AEXPR_OP | PG_AEXPR_OP_ANY | PG_AEXPR_OP_ALL | PG_AEXPR_DISTINCT | PG_AEXPR_NOT_DISTINCT
  | PG_AEXPR_NULLIF | PG_AEXPR_OF | PG_AEXPR_IN | PG_AEXPR_LIKE | PG_AEXPR_ILIKE | PG_AEXPR_GLOB | PG_AEXPR_SIMILAR
  | PG_AEXPR_BETWEEN | PG_AEXPR_NOT_BETWEEN | PG_AEXPR_BETWEEN_SYM | PG_AEXPR_NOT_BETWEEN_SYM | AEXPR_PAREN

datatype PGBoolExprType = PG_AND_EXPR | PG_OR_EXPR | PG_NOT_EXPR

datatype PGSortByDir = PG_SORTBY_DEFAULT | PG_SORTBY_ASC | PG_SORTBY_DESC | SORTBY_USING

datatype PGJoinType = PG_JOIN_INNER | PG_JOIN_LEFT | PG_JOIN_FULL | PG_JOIN_RIGHT | PG_JOIN_SEMI | PG_JOIN_ANTI
  | PG_JOIN_UNIQUE_OUTER | PG_JOIN_UNIQUE_INNER

datatype PGConstrType = PG_CONSTR_NULL | PG_CONSTR_NOTNULL | PG_CONSTR_DEFAULT | PG_CONSTR_IDENTITY | PG_CONSTR_CHECK
  | PG_CONSTR_PRIMARY | PG_CONSTR_UNIQUE | PG_CONSTR_EXCLUSION | PG_CONSTR_FOREIGN | PG_CONSTR_ATTR_DEFERRABLE
  | PG_CONSTR_ATTR_NOT_DEFERRABLE | PG_CONSTR_ATTR_DEFERRED | PG_CONSTR_ATTR_IMMEDIATE | PG_CONSTR_COMPRESSION
  | PG_CONSTR_GENERATED_VIRTUAL | PG_CONSTR_GENERATED_STORED

text \<open>
  The arguments, in order: a column reference has its fields; an operator its kind, name and operands; a function its
  name, arguments, \<open>agg_star\<close> and \<open>agg_distinct\<close>; a target its name and value; a table its name and alias; a join
  its type, \<open>isNatural\<close>, both sides, ON and USING; a column its name, type, \<open>is_not_null\<close> and constraints;
  a select its DISTINCT, targets, FROM, WHERE, GROUP BY, HAVING, ORDER BY, LIMIT, OFFSET and rows of VALUES; an index its
  name, table, elements, access method and \<open>unique\<close>.
\<close>

datatype PGNode =
    Null_Node
  | PGInteger i64
  | PGFloat str
  | PGString str
  | PGNull
  | PGAConst PGNode
  | PGColumnRef "PGNode list"
  | PGAStar "str option"
  | PGAExpr PGAExpr_Kind "PGNode list" PGNode PGNode
  | PGBoolExpr PGBoolExprType "PGNode list"
  | PGFuncCall "PGNode list" "PGNode list" bool bool
  | PGTypeCast PGNode PGNode
  | PGTypeName "PGNode list" "PGNode list"
  | PGSubLink PGNode
  | PGCaseExpr PGNode "PGNode list" PGNode
  | PGCaseWhen PGNode PGNode
  | PGNullTest PGNode bool
  | PGCoalesceExpr "PGNode list"
  | PGList "PGNode list"
  | PGMultiAssignRef PGNode
  | PGResTarget "str option" PGNode
  | PGSortBy PGNode PGSortByDir
  | PGRangeVar "str option" "str option"
  | PGJoinExpr PGJoinType bool PGNode PGNode PGNode "PGNode list"
  | PGRangeSubselect PGNode "str option"
  | PGColumnDef "str option" PGNode bool "PGNode list"
  | PGConstraint PGConstrType "PGNode list"
  | PGIndexElem "str option"
  | PGSelectStmt "PGNode list" "PGNode list" "PGNode list" PGNode "PGNode list" PGNode "PGNode list" PGNode PGNode
      "PGNode list"
  | PGInsertStmt PGNode "PGNode list" PGNode
  | PGUpdateStmt PGNode "PGNode list" PGNode
  | PGDeleteStmt PGNode PGNode
  | PGCreateStmt PGNode "PGNode list" bool
  | PGDropStmt "PGNode list" bool
  | PGIndexStmt "str option" PGNode "PGNode list" "str option" bool
  | PGRawStmt PGNode
  | Other_Node

section \<open>Names, values and types\<close>

definition text_or_empty :: "str option \<Rightarrow> str" where
  "text_or_empty t = (case t of None \<Rightarrow> [] | Some s \<Rightarrow> s)"

definition GetStringFromValue :: "PGNode \<Rightarrow> str" where
  "GetStringFromValue n = (case n of PGString s \<Rightarrow> s | PGInteger i \<Rightarrow> show_int (sint i) | PGFloat s \<Rightarrow> s | _ \<Rightarrow> [])"

definition first_string :: "PGNode list \<Rightarrow> str" where
  "first_string ns = (case ns of [] \<Rightarrow> [] | n # _ \<Rightarrow> GetStringFromValue n)"

definition ExtractRelationName :: "PGNode \<Rightarrow> str option" where
  "ExtractRelationName n = (case n of Null_Node \<Rightarrow> Some [] | PGRangeVar rel _ \<Rightarrow> Some (text_or_empty rel) | _ \<Rightarrow> None)"

text \<open>\<open>strVal\<close> of a value.\<close>

definition strVal :: "PGNode \<Rightarrow> str option" where
  "strVal n = (case n of PGString s \<Rightarrow> Some s | PGFloat s \<Rightarrow> Some s | _ \<Rightarrow> None)"

text \<open>\<open>atof\<close> on the text of a numeric literal.\<close>

definition atof :: "str \<Rightarrow> f64" where
  "atof s =
     (let ds = takeWhile is_digit s;
          s = dropWhile is_digit s;
          (fs, s) = (if s \<noteq> [] \<and> hd s = 46 then (takeWhile is_digit (tl s), dropWhile is_digit (tl s)) else ([], s));
          e = scan_exponent s - int (length fs);
          m = number 0 (ds @ fs)
      in if ds @ fs = [] then 0
         else if e \<ge> 0 then f64_of_ratio False (m * 10 ^ nat e) 1 else f64_of_ratio False m (10 ^ nat (- e)))"

fun TranslateValue :: "PGNode \<Rightarrow> Value" where
  "TranslateValue (PGInteger i) = VBigInt i"
| "TranslateValue (PGFloat s) = VDecimal (atof s)"
| "TranslateValue (PGString s) = VVarchar s"
| "TranslateValue (PGAConst n) = TranslateValue n"
| "TranslateValue _ = VInvalid"

text \<open>The length of a type: only a constant is looked at, and it is taken for an integer.\<close>

definition type_modifier :: "PGNode list \<Rightarrow> i32 option" where
  "type_modifier mods =
     (case mods of
        [] \<Rightarrow> Some 0
      | Null_Node # _ \<Rightarrow> None
      | PGAConst n # _ \<Rightarrow> (case n of PGInteger i \<Rightarrow> Some (ucast i) | _ \<Rightarrow> None)
      | _ # _ \<Rightarrow> Some 0)"

definition TranslateTypeName :: "PGNode \<Rightarrow> DataType option" where
  "TranslateTypeName n =
     (case n of
        Null_Node \<Rightarrow> Some \<lparr>kind = K_INVALID, type_length = 0\<rparr>
      | PGTypeName names mods \<Rightarrow>
          map_option (FromString (to_upper (if names = [] then [] else GetStringFromValue (List.last names)))) (type_modifier mods)
      | _ \<Rightarrow> None)"

section \<open>Tables\<close>

text \<open>The leftmost table of a join, with its alias.\<close>

fun leftmost_table :: "PGNode \<Rightarrow> (str \<times> str option) option" where
  "leftmost_table (PGRangeVar rel al) = Some (text_or_empty rel, al)"
| "leftmost_table (PGJoinExpr _ _ l _ _ _) = leftmost_table l"
| "leftmost_table _ = None"

text \<open>The name and the alias of the table FROM starts with.\<close>

definition ExtractBaseTableFromJoin :: "PGNode \<Rightarrow> str \<times> str \<Rightarrow> str \<times> str" where
  "ExtractBaseTableFromJoin n base =
     (case leftmost_table n of
        None \<Rightarrow> base
      | Some (rel, al) \<Rightarrow> (rel, case al of None \<Rightarrow> snd base | Some a \<Rightarrow> a))"

definition join_type_of :: "PGJoinType \<Rightarrow> bool \<Rightarrow> JoinType" where
  "join_type_of t natural =
     (if natural then NATURAL_JOIN
      else case t of PG_JOIN_INNER \<Rightarrow> INNER_JOIN | PG_JOIN_LEFT \<Rightarrow> LEFT_JOIN | PG_JOIN_RIGHT \<Rightarrow> RIGHT_JOIN
        | PG_JOIN_FULL \<Rightarrow> FULL_JOIN | _ \<Rightarrow> INNER_JOIN)"

text \<open>The right side of a join is read as a table, whatever it is.\<close>

definition right_table :: "PGNode \<Rightarrow> (str \<times> str) option" where
  "right_table n =
     (case n of
        Null_Node \<Rightarrow> Some ([], [])
      | PGRangeVar rel al \<Rightarrow> Some (text_or_empty rel, text_or_empty al)
      | _ \<Rightarrow> None)"

text \<open>The items of FROM, each with the joins it flattens to: the first sets the table, the others add joins.\<close>

definition first_item :: "PGNode \<Rightarrow> (str \<times> str) option" where
  "first_item n =
     (case n of
        Null_Node \<Rightarrow> None
      | PGRangeVar rel al \<Rightarrow> Some (text_or_empty rel, text_or_empty al)
      | PGJoinExpr _ _ _ _ _ _ \<Rightarrow> Some (ExtractBaseTableFromJoin n ([], []))
      | PGRangeSubselect _ al \<Rightarrow> Some (text_or_empty al, [])
      | _ \<Rightarrow> Some ([], []))"

definition cross_join :: "str option \<Rightarrow> str option \<Rightarrow> JoinClause" where
  "cross_join rel al = \<lparr>join_type = CROSS_JOIN, join_table = text_or_empty rel, join_alias = text_or_empty al,
     join_condition = Null_AST, using_columns = []\<rparr>"

fun more_items :: "(PGNode \<times> JoinClause list) list \<Rightarrow> (str \<times> str) \<times> JoinClause list \<Rightarrow>
    ((str \<times> str) \<times> JoinClause list) option" where
  "more_items [] st = Some st"
| "more_items ((n, js) # rest) (base, all) =
     (case n of
        Null_Node \<Rightarrow> None
      | PGJoinExpr _ _ _ _ _ _ \<Rightarrow>
          more_items rest (if fst base = [] then ExtractBaseTableFromJoin n base else base, all @ js)
      | PGRangeVar rel al \<Rightarrow> more_items rest (base, all @ [cross_join rel al])
      | _ \<Rightarrow> more_items rest (base, all))"

definition from_clause :: "(PGNode \<times> JoinClause list) list \<Rightarrow> ((str \<times> str) \<times> JoinClause list) option" where
  "from_clause items =
     (case items of
        [] \<Rightarrow> Some (([], []), [])
      | (n, js) # rest \<Rightarrow> Option.bind (first_item n) (\<lambda>base. more_items rest (base, js)))"

section \<open>Expressions\<close>

text \<open>Null pointers are not put into a list.\<close>

definition present :: "ASTExpression list \<Rightarrow> ASTExpression list" where
  "present es = filter (\<lambda>e. e \<noteq> Null_AST) es"

definition TranslateColumnRef :: "PGNode list \<Rightarrow> ASTExpression" where
  "TranslateColumnRef parts =
     (case parts of
        [] \<Rightarrow> ColumnRefExpression [] [] False
      | PGAStar rel # _ \<Rightarrow> ColumnRefExpression (text_or_empty rel) [] True
      | [n] \<Rightarrow> ColumnRefExpression [] (GetStringFromValue n) False
      | n # m # _ \<Rightarrow> ColumnRefExpression (GetStringFromValue n) (GetStringFromValue m) False)"

definition comparison_operators :: "str list" where
  "comparison_operators = map ascii [''='', ''<'', ''>'', ''<='', ''>='', ''<>'', ''!='']"

text \<open>An operator: whether it has no left operand, the translated operands, and the translated items when the right
  one is a list. What a kind of operator does not use is not translated.\<close>

definition TranslateAExpr ::
    "PGAExpr_Kind \<Rightarrow> str \<Rightarrow> bool \<Rightarrow> ASTExpression option \<Rightarrow> ASTExpression option \<Rightarrow> ASTExpression list option option \<Rightarrow>
     ASTExpression option" where
  "TranslateAExpr k op no_left left right items =
     (let binary = (\<lambda>f. do { l \<leftarrow> left; r \<leftarrow> right; Some (f l r) });
          between = (\<lambda>name. do {
            l \<leftarrow> left;
            xs \<leftarrow> (case items of None \<Rightarrow> Some [] | Some xs \<Rightarrow> xs);
            Some (FunctionCallExpression (ascii name) (present (l # xs)) False False) })
      in case k of
        PG_AEXPR_OP \<Rightarrow> binary (\<lambda>l r.
          if op \<in> set comparison_operators then ComparisonExpression op l r
          else if op = ascii ''AND'' \<or> op = ascii ''OR'' then BinaryOpExpression op l r
          else if no_left then UnaryOpExpression op r
          else BinaryOpExpression op l r)
      | PG_AEXPR_IN \<Rightarrow> do {
          l \<leftarrow> left;
          xs \<leftarrow> (case items of None \<Rightarrow> map_option (\<lambda>e. [e]) right | Some xs \<Rightarrow> xs);
          Some (InListExpression l (present xs) False) }
      | PG_AEXPR_LIKE \<Rightarrow> binary (ComparisonExpression op)
      | PG_AEXPR_ILIKE \<Rightarrow> binary (ComparisonExpression op)
      | PG_AEXPR_GLOB \<Rightarrow> binary (ComparisonExpression op)
      | PG_AEXPR_SIMILAR \<Rightarrow> binary (ComparisonExpression op)
      | PG_AEXPR_BETWEEN \<Rightarrow> between ''BETWEEN''
      | PG_AEXPR_NOT_BETWEEN \<Rightarrow> between ''NOT_BETWEEN''
      | PG_AEXPR_BETWEEN_SYM \<Rightarrow> between ''BETWEEN''
      | PG_AEXPR_NOT_BETWEEN_SYM \<Rightarrow> between ''NOT_BETWEEN''
      | PG_AEXPR_DISTINCT \<Rightarrow> binary (ComparisonExpression (ascii ''IS DISTINCT FROM''))
      | PG_AEXPR_NOT_DISTINCT \<Rightarrow> binary (ComparisonExpression (ascii ''IS NOT DISTINCT FROM''))
      | _ \<Rightarrow> binary (BinaryOpExpression op))"

text \<open>AND and OR over the arguments that could be translated.\<close>

definition bool_chain :: "str \<Rightarrow> ASTExpression list \<Rightarrow> ASTExpression" where
  "bool_chain op es =
     (case present es of [] \<Rightarrow> Null_AST | e # rest \<Rightarrow> foldl (\<lambda>a b. BinaryOpExpression op a b) e rest)"

text \<open>NOT translates its first argument, AND and OR translate all.\<close>

definition TranslateBoolExpr ::
    "PGBoolExprType \<Rightarrow> ASTExpression option \<Rightarrow> ASTExpression list option \<Rightarrow> ASTExpression option" where
  "TranslateBoolExpr op operand args =
     (case op of
        PG_NOT_EXPR \<Rightarrow> map_option (UnaryOpExpression (ascii ''NOT'')) operand
      | PG_AND_EXPR \<Rightarrow> map_option (bool_chain (ascii ''AND'')) args
      | PG_OR_EXPR \<Rightarrow> map_option (bool_chain (ascii ''OR'')) args)"

definition TranslateFuncCall :: "PGNode list \<Rightarrow> ASTExpression list option \<Rightarrow> bool \<Rightarrow> bool \<Rightarrow> ASTExpression option" where
  "TranslateFuncCall name args star dist =
     map_option (\<lambda>es. FunctionCallExpression (to_upper (first_string name)) (present es) dist star)
       (if star then Some [] else args)"

definition TranslateTypeCast :: "ASTExpression option \<Rightarrow> PGNode \<Rightarrow> ASTExpression option" where
  "TranslateTypeCast arg type = do {
     e \<leftarrow> arg;
     t \<leftarrow> TranslateTypeName type;
     Some (TypeCastExpression e t) }"

text \<open>The statement of a subquery, if it is a select.\<close>

definition TranslateSubLink :: "SelectStatement option option \<Rightarrow> ASTExpression option" where
  "TranslateSubLink sub = (case sub of None \<Rightarrow> Some SubqueryExpression | Some q \<Rightarrow> map_option (\<lambda>_. SubqueryExpression) q)"

definition TranslateCaseExpr ::
    "ASTExpression option \<Rightarrow> (ASTExpression option \<times> ASTExpression option) option list \<Rightarrow> ASTExpression option \<Rightarrow>
     ASTExpression option" where
  "TranslateCaseExpr arg whens els = do {
     a \<leftarrow> arg;
     ws \<leftarrow> those (map (\<lambda>w. do { (c, r) \<leftarrow> w; x \<leftarrow> c; y \<leftarrow> r; Some (WhenClause x y) }) whens);
     e \<leftarrow> els;
     Some (CaseExpression a ws e) }"

definition TranslateNullTest :: "ASTExpression option \<Rightarrow> bool \<Rightarrow> ASTExpression option" where
  "TranslateNullTest arg is_not_null = map_option (\<lambda>e. IsNullExpression e is_not_null) arg"

definition sort_order :: "PGSortByDir \<Rightarrow> OrderType" where
  "sort_order d = (case d of PG_SORTBY_ASC \<Rightarrow> ASC | PG_SORTBY_DESC \<Rightarrow> DESC | _ \<Rightarrow> DEFAULT)"

definition TranslateSortBy :: "ASTExpression option \<Rightarrow> PGSortByDir \<Rightarrow> (ASTExpression \<times> OrderType) option" where
  "TranslateSortBy e d = map_option (\<lambda>e. (e, sort_order d)) e"

definition make_select ::
    "bool \<Rightarrow> (ASTExpression \<times> str) list \<Rightarrow> ((str \<times> str) \<times> JoinClause list) \<Rightarrow> ASTExpression \<Rightarrow> ASTExpression list \<Rightarrow>
     ASTExpression \<Rightarrow> (ASTExpression \<times> OrderType) list \<Rightarrow> ASTExpression \<Rightarrow> ASTExpression \<Rightarrow> SelectStatement" where
  "make_select dist targets from whr groups having order lim off =
     \<lparr>select_list = filter (\<lambda>t. fst t \<noteq> Null_AST) targets, is_distinct = dist, select_table = fst (fst from),
      table_alias = snd (fst from), joins = snd from, where_clause = whr, group_by = present groups, having_clause = having,
      order_by = order, limit_count = lim, limit_offset = off, is_subquery = False\<rparr>"

lemma option_bind_cong [fundef_cong]:
  "x = y \<Longrightarrow> (\<And>z. y = Some z \<Longrightarrow> f z = g z) \<Longrightarrow> Option.bind x f = Option.bind y g"
  by (cases y) simp_all

fun TranslateExpression :: "PGNode \<Rightarrow> ASTExpression option"
  and TranslateSelectStmt :: "PGNode \<Rightarrow> SelectStatement option"
  and FlattenJoinTree :: "PGNode \<Rightarrow> JoinClause list option" where
  "TranslateExpression (PGColumnRef parts) = Some (TranslateColumnRef parts)"
| "TranslateExpression (PGAConst n) = Some (ConstantExpression (TranslateValue (PGAConst n)))"
| "TranslateExpression (PGInteger i) = Some (ConstantExpression (TranslateValue (PGInteger i)))"
| "TranslateExpression (PGFloat s) = Some (ConstantExpression (TranslateValue (PGFloat s)))"
| "TranslateExpression (PGString s) = Some (ConstantExpression (TranslateValue (PGString s)))"
| "TranslateExpression PGNull = Some (ConstantExpression (TranslateValue PGNull))"
| "TranslateExpression (PGAExpr k name l r) =
     TranslateAExpr k (first_string name) (l = Null_Node) (TranslateExpression l) (TranslateExpression r)
       (case r of PGList ns \<Rightarrow> Some (those (map TranslateExpression ns)) | _ \<Rightarrow> None)"
| "TranslateExpression (PGBoolExpr op args) =
     TranslateBoolExpr op (case args of [] \<Rightarrow> Some Null_AST | n # _ \<Rightarrow> TranslateExpression n)
       (those (map TranslateExpression args))"
| "TranslateExpression (PGFuncCall name args star dist) =
     TranslateFuncCall name (those (map TranslateExpression args)) star dist"
| "TranslateExpression (PGTypeCast arg type) = TranslateTypeCast (TranslateExpression arg) type"
| "TranslateExpression (PGSubLink sub) =
     TranslateSubLink (case sub of PGSelectStmt _ _ _ _ _ _ _ _ _ _ \<Rightarrow> Some (TranslateSelectStmt sub) | _ \<Rightarrow> None)"
| "TranslateExpression (PGCaseExpr arg args els) =
     TranslateCaseExpr (TranslateExpression arg)
       (map (\<lambda>n. case n of PGCaseWhen c r \<Rightarrow> Some (TranslateExpression c, TranslateExpression r) | _ \<Rightarrow> None) args)
       (TranslateExpression els)"
| "TranslateExpression (PGNullTest arg is_not_null) = TranslateNullTest (TranslateExpression arg) is_not_null"
| "TranslateExpression (PGAStar _) = Some StarExpression"
| "TranslateExpression (PGCoalesceExpr args) =
     map_option (\<lambda>es. FunctionCallExpression (ascii ''COALESCE'') (present es) False False)
       (those (map TranslateExpression args))"
| "TranslateExpression (PGList ns) = (case ns of [] \<Rightarrow> Some Null_AST | n # _ \<Rightarrow> TranslateExpression n)"
| "TranslateExpression (PGMultiAssignRef src) = TranslateExpression src"
| "TranslateExpression _ = Some Null_AST"
| "TranslateSelectStmt n =
     (case n of
        PGSelectStmt dist targets from whr groups having order lim off _ \<Rightarrow> do {
          ts \<leftarrow> those (map (\<lambda>t. case t of
                  PGResTarget name v \<Rightarrow> map_option (\<lambda>e. (e, text_or_empty name)) (TranslateExpression v)
                | _ \<Rightarrow> None) targets);
          fs \<leftarrow> those (map FlattenJoinTree from);
          base \<leftarrow> from_clause (zip from fs);
          w \<leftarrow> TranslateExpression whr;
          gs \<leftarrow> those (map TranslateExpression groups);
          h \<leftarrow> TranslateExpression having;
          os \<leftarrow> those (map (\<lambda>s. case s of
                  PGSortBy e d \<Rightarrow> TranslateSortBy (TranslateExpression e) d
                | _ \<Rightarrow> None) order);
          lm \<leftarrow> TranslateExpression lim;
          ofs \<leftarrow> TranslateExpression off;
          Some (make_select (dist \<noteq> []) ts base w gs h os lm ofs) }
      | _ \<Rightarrow> None)"
| "FlattenJoinTree n =
     (case n of
        Null_Node \<Rightarrow> None
      | PGJoinExpr t natural l r quals using \<Rightarrow> do {
          js \<leftarrow> (case l of PGJoinExpr _ _ _ _ _ _ \<Rightarrow> FlattenJoinTree l | _ \<Rightarrow> Some []);
          (rel, al) \<leftarrow> right_table r;
          c \<leftarrow> TranslateExpression quals;
          Some (js @ [\<lparr>join_type = join_type_of t natural, join_table = rel, join_alias = al, join_condition = c,
                       using_columns = map GetStringFromValue using\<rparr>]) }
      | _ \<Rightarrow> Some [])"

declare TranslateSelectStmt.simps [simp del] FlattenJoinTree.simps [simp del]

text \<open>The translation of a single join, which nothing calls: it looks at the type of the right side.\<close>

definition TranslateJoinExpr :: "PGNode \<Rightarrow> JoinClause option" where
  "TranslateJoinExpr n =
     (case n of
        PGJoinExpr t natural l r quals using \<Rightarrow>
          let (rel, al) = (case r of PGRangeVar rel al \<Rightarrow> (text_or_empty rel, text_or_empty al) | _ \<Rightarrow> ([], []))
          in map_option (\<lambda>c. \<lparr>join_type = join_type_of t natural, join_table = rel, join_alias = al, join_condition = c,
                             using_columns = map GetStringFromValue using\<rparr>) (TranslateExpression quals)
      | _ \<Rightarrow> None)"

section \<open>Definitions of tables\<close>

definition apply_constraint :: "PGNode \<Rightarrow> ColumnDefinition \<Rightarrow> ColumnDefinition option" where
  "apply_constraint n col =
     (case n of
        PGConstraint PG_CONSTR_PRIMARY _ \<Rightarrow> Some (col\<lparr>def_primary_key := True, def_nullable := False\<rparr>)
      | PGConstraint PG_CONSTR_UNIQUE _ \<Rightarrow> Some (col\<lparr>def_unique := True\<rparr>)
      | PGConstraint PG_CONSTR_NOTNULL _ \<Rightarrow> Some (col\<lparr>def_nullable := False\<rparr>)
      | PGConstraint PG_CONSTR_DEFAULT _ \<Rightarrow> Some (col\<lparr>default_value := ascii ''<default>''\<rparr>)
      | PGConstraint _ _ \<Rightarrow> Some col
      | _ \<Rightarrow> None)"

definition TranslateColumnDef :: "PGNode \<Rightarrow> ColumnDefinition option" where
  "TranslateColumnDef n =
     (case n of
        PGColumnDef name type is_not_null constraints \<Rightarrow> do {
          t \<leftarrow> TranslateTypeName type;
          fold (\<lambda>c col. Option.bind col (apply_constraint c)) constraints
            (Some \<lparr>def_name = text_or_empty name, def_type = t, def_nullable = \<not> is_not_null, def_primary_key = False,
                   def_unique = False, default_value = []\<rparr>) }
      | _ \<Rightarrow> None)"

text \<open>A key of the table: the first column of that name among those defined so far.\<close>

fun set_primary_key :: "str \<Rightarrow> ColumnDefinition list \<Rightarrow> ColumnDefinition list" where
  "set_primary_key k [] = []"
| "set_primary_key k (c # cs) =
     (if def_name c = k then c\<lparr>def_primary_key := True, def_nullable := False\<rparr> # cs else c # set_primary_key k cs)"

fun table_elements :: "PGNode list \<Rightarrow> ColumnDefinition list \<Rightarrow> ColumnDefinition list option" where
  "table_elements [] cols = Some cols"
| "table_elements (n # ns) cols =
     (case n of
        Null_Node \<Rightarrow> None
      | PGColumnDef _ _ _ _ \<Rightarrow> Option.bind (TranslateColumnDef n) (\<lambda>c. table_elements ns (cols @ [c]))
      | PGConstraint PG_CONSTR_PRIMARY ks \<Rightarrow>
          Option.bind (those (map strVal ks)) (\<lambda>names. table_elements ns (fold set_primary_key names cols))
      | _ \<Rightarrow> table_elements ns cols)"

section \<open>Statements\<close>

text \<open>A row of VALUES; an item that cannot be translated leaves no gap.\<close>

definition value_row :: "PGNode \<Rightarrow> ASTExpression list option" where
  "value_row n = (case n of PGList ns \<Rightarrow> map_option present (those (map TranslateExpression ns)) | _ \<Rightarrow> None)"

text \<open>The rows and the query of an INSERT.\<close>

definition insert_source :: "PGNode \<Rightarrow> (ASTExpression list list \<times> SelectStatement option) option" where
  "insert_source sel =
     (case sel of
        PGSelectStmt _ _ _ _ _ _ _ _ _ rows \<Rightarrow>
          (if rows \<noteq> [] then map_option (\<lambda>rs. (rs, None)) (those (map value_row rows))
           else map_option (\<lambda>q. ([], Some q)) (TranslateSelectStmt sel))
      | _ \<Rightarrow> Some ([], None))"

definition column_name_of :: "PGNode \<Rightarrow> str option option" where
  "column_name_of n = (case n of PGResTarget name _ \<Rightarrow> Some name | _ \<Rightarrow> None)"

definition TranslateInsertStmt :: "PGNode \<Rightarrow> InsertStatement option" where
  "TranslateInsertStmt n =
     (case n of
        PGInsertStmt rel cols sel \<Rightarrow> do {
          t \<leftarrow> ExtractRelationName rel;
          names \<leftarrow> those (map column_name_of cols);
          (rows, source) \<leftarrow> insert_source sel;
          Some \<lparr>insert_table = t, column_names = List.map_filter id names, value_rows = rows, select_source = source\<rparr> }
      | _ \<Rightarrow> None)"

definition set_clause :: "PGNode \<Rightarrow> (str \<times> ASTExpression) option" where
  "set_clause n =
     (case n of
        PGResTarget name v \<Rightarrow> map_option (\<lambda>e. (text_or_empty name, e)) (TranslateExpression v)
      | _ \<Rightarrow> None)"

definition TranslateUpdateStmt :: "PGNode \<Rightarrow> UpdateStatement option" where
  "TranslateUpdateStmt n =
     (case n of
        PGUpdateStmt rel targets whr \<Rightarrow> do {
          t \<leftarrow> ExtractRelationName rel;
          sets \<leftarrow> those (map set_clause targets);
          w \<leftarrow> TranslateExpression whr;
          Some \<lparr>update_table = t, set_clauses = sets, update_where = w\<rparr> }
      | _ \<Rightarrow> None)"

definition TranslateDeleteStmt :: "PGNode \<Rightarrow> DeleteStatement option" where
  "TranslateDeleteStmt n =
     (case n of
        PGDeleteStmt rel whr \<Rightarrow> do {
          t \<leftarrow> ExtractRelationName rel;
          w \<leftarrow> TranslateExpression whr;
          Some \<lparr>delete_table_name = t, delete_where = w\<rparr> }
      | _ \<Rightarrow> None)"

definition TranslateCreateStmt :: "PGNode \<Rightarrow> CreateStatement option" where
  "TranslateCreateStmt n =
     (case n of
        PGCreateStmt rel elements ignore_conflict \<Rightarrow> do {
          t \<leftarrow> ExtractRelationName rel;
          cols \<leftarrow> table_elements elements [];
          Some \<lparr>create_name = t, columns = cols, create_if_not_exists = ignore_conflict\<rparr> }
      | _ \<Rightarrow> None)"

text \<open>The name is the first part of the first object; the kind of object is not looked at.\<close>

definition dropped_name :: "PGNode list \<Rightarrow> str option" where
  "dropped_name objects =
     (case objects of
        [] \<Rightarrow> Some []
      | Null_Node # _ \<Rightarrow> Some []
      | PGList [] # _ \<Rightarrow> Some []
      | PGList (n # _) # _ \<Rightarrow> strVal n
      | _ \<Rightarrow> None)"

definition TranslateDropStmt :: "PGNode \<Rightarrow> DropStatement option" where
  "TranslateDropStmt n =
     (case n of
        PGDropStmt objects missing_ok \<Rightarrow>
          map_option (\<lambda>t. \<lparr>drop_name = t, drop_if_exists = missing_ok\<rparr>) (dropped_name objects)
      | _ \<Rightarrow> None)"

definition index_column :: "PGNode list \<Rightarrow> str option" where
  "index_column elements =
     (case elements of [] \<Rightarrow> Some [] | PGIndexElem name # _ \<Rightarrow> Some (text_or_empty name) | _ \<Rightarrow> None)"

definition TranslateIndexStmt :: "PGNode \<Rightarrow> CreateIndexStatement option" where
  "TranslateIndexStmt n =
     (case n of
        PGIndexStmt name rel elements access unique \<Rightarrow> do {
          t \<leftarrow> ExtractRelationName rel;
          c \<leftarrow> index_column elements;
          Some \<lparr>ci_name = text_or_empty name, ci_table = t, ci_column = c, ci_type = text_or_empty access,
                ci_unique = unique, ci_if_not_exists = False\<rparr> }
      | _ \<Rightarrow> None)"

section \<open>Parsing\<close>

text \<open>A statement of another type is skipped.\<close>

definition TranslateStatement :: "PGNode \<Rightarrow> ASTStatement option option" where
  "TranslateStatement n =
     (case n of
        PGSelectStmt _ _ _ _ _ _ _ _ _ _ \<Rightarrow> map_option (Some \<circ> Select_Stmt) (TranslateSelectStmt n)
      | PGInsertStmt _ _ _ \<Rightarrow> map_option (Some \<circ> Insert_Stmt) (TranslateInsertStmt n)
      | PGUpdateStmt _ _ _ \<Rightarrow> map_option (Some \<circ> Update_Stmt) (TranslateUpdateStmt n)
      | PGDeleteStmt _ _ \<Rightarrow> map_option (Some \<circ> Delete_Stmt) (TranslateDeleteStmt n)
      | PGCreateStmt _ _ _ \<Rightarrow> map_option (Some \<circ> Create_Stmt) (TranslateCreateStmt n)
      | PGDropStmt _ _ \<Rightarrow> map_option (Some \<circ> Drop_Stmt) (TranslateDropStmt n)
      | PGIndexStmt _ _ _ _ _ \<Rightarrow> map_option (Some \<circ> Create_Index_Stmt) (TranslateIndexStmt n)
      | _ \<Rightarrow> Some None)"

definition unwrap_raw :: "PGNode \<Rightarrow> PGNode" where
  "unwrap_raw n = (case n of PGRawStmt stmt \<Rightarrow> stmt | _ \<Rightarrow> Null_Node)"

type_synonym pg_parser = "str \<Rightarrow> str + PGNode list"

definition TryParse :: "pg_parser \<Rightarrow> str \<Rightarrow> (str + ASTStatement list) option" where
  "TryParse pg sql =
     (case pg sql of
        Inl msg \<Rightarrow> Some (Inl msg)
      | Inr tree \<Rightarrow>
          map_option (\<lambda>stmts. Inr (List.map_filter id stmts)) (those (map (TranslateStatement \<circ> unwrap_raw) tree)))"

text \<open>The message of the exception, or the statements.\<close>

definition Parse :: "pg_parser \<Rightarrow> str \<Rightarrow> (str + ASTStatement list) option" where
  "Parse pg sql =
     map_option (\<lambda>r. case r of Inl msg \<Rightarrow> Inl (ascii ''Parse error: '' @ msg) | Inr stmts \<Rightarrow> Inr stmts) (TryParse pg sql)"

end
