(* ===== verification/Commands.thy ===== *)
theory Commands
  imports Command_Text Parser Logs Connections Execution
begin

text \<open>
  The execution engine (sql/executor/execution_engine.h and .cpp): the dispatch of a statement to the administrative
  commands or to the pipeline parse, bind, plan, optimise, execute, and the commands themselves. The managers
  hang into the engine through pointers that may be null: they are options; the catalog, the pool and the disk manager
  are never null in the server and are the parts of \<open>engine\<close>. The parser of libpg_query is the argument \<open>pg\<close>, as in
  Parser. A reply is the return value, the rows and the schema; a command that lets an
  exception through has the status \<open>RC_THROWS\<close>. \<open>None\<close> is a command that does not come to a reply. What a
  command asks of its surroundings (the thread, the address of a new transaction, the clocks, a new salt, the hit
  rate of the pool, whose counters are not part of the pool's model) is in \<open>call_env\<close>.
\<close>

section \<open>State\<close>

record conn_handler =
  ch_connection :: connection
  ch_running :: bool
  ch_query :: str
  ch_proto :: protocol_text

record server =
  sv_engine :: engine
  sv_auth :: "auth_manager option"
  sv_txn :: "txn_manager option"
  sv_logs :: "LogManager option"
  sv_log_files :: log_fs
  sv_user :: str
  sv_host :: str
  sv_error :: str
  sv_affected :: int
  sv_txn_control :: bool
  sv_queries :: u64
  sv_shutdown :: "bool option"
  sv_net :: net_statistics
  sv_handlers :: "i32 \<Rightarrow> conn_handler option"
  sv_registry :: "i32 list"
  sv_next_conn_id :: i32

text \<open>\<open>sv_shutdown\<close> is \<open>None\<close> without a callback and otherwise whether it has been called; the registry is the list of
  the keys of a \<open>std::map\<close>.\<close>

record call_env =
  ev_thread :: nat
  ev_address :: nat
  ev_clock :: i64
  ev_salt :: str
  ev_uptime :: i64
  ev_hit_rate :: f64

datatype status = RC_OK | RC_ERROR | RC_THROWS

record reply =
  rp_status :: status
  rp_rows :: "byte list list"
  rp_schema :: "schema option"

type_synonym response = "(server \<times> reply) option"

definition succeed :: "server \<Rightarrow> response" where
  "succeed s = Some (s, \<lparr>rp_status = RC_OK, rp_rows = [], rp_schema = None\<rparr>)"

definition fail_with :: "str \<Rightarrow> server \<Rightarrow> response" where
  "fail_with msg s = Some (s\<lparr>sv_error := msg\<rparr>, \<lparr>rp_status = RC_ERROR, rp_rows = [], rp_schema = None\<rparr>)"

definition throw :: "server \<Rightarrow> response" where
  "throw s = Some (s, \<lparr>rp_status = RC_THROWS, rp_rows = [], rp_schema = None\<rparr>)"

text \<open>The rows of a SHOW command, built when the caller wants results.\<close>

definition show_rows :: "schema \<Rightarrow> bool \<Rightarrow> Value list list \<Rightarrow> server \<Rightarrow> response" where
  "show_rows sch results rows s =
     (if \<not> results then Some (s, \<lparr>rp_status = RC_OK, rp_rows = [], rp_schema = Some sch\<rparr>)
      else do {
        tuples \<leftarrow> those (map (\<lambda>vs. CreateFromValues vs (Some sch)) rows);
        Some (s, \<lparr>rp_status = RC_OK, rp_rows = tuples, rp_schema = Some sch\<rparr>) })"

abbreviation varchar :: "string \<Rightarrow> Value" where
  "varchar t \<equiv> VVarchar (ascii t)"

section \<open>The catalog\<close>

definition ExecuteShowDatabases :: "bool \<Rightarrow> server \<Rightarrow> response" where
  "ExecuteShowDatabases results s =
     (let names = ListDatabases (eng_catalog (sv_engine s)) in
      show_rows [plain_column ''Database'' VARCHAR 256] results
        (map (\<lambda>n. [VVarchar n]) (if names \<noteq> [] then names else [ascii ''goods_db''])) s)"

definition show_tables_filter :: "str \<Rightarrow> str" where
  "show_tables_filter sql =
     (case find_text (ascii '' FROM '') (to_upper sql) of
        None \<Rightarrow> []
      | Some p \<Rightarrow> TrimIdentifier (drop (p + 6) sql))"

definition ExecuteShowTables :: "str \<Rightarrow> bool \<Rightarrow> server \<Rightarrow> response" where
  "ExecuteShowTables sql results s =
     (let db = show_tables_filter sql;
          hidden = (db \<noteq> [] \<and> db \<noteq> ascii ''goods_db'' \<and> db \<noteq> ascii ''default'')
      in show_rows [plain_column ''Tables_in_goods_db'' VARCHAR 256] results
           (if hidden then [] else map (\<lambda>t. [VVarchar (table_name t)]) (GetAllTables (eng_catalog (sv_engine s)))) s)"

text \<open>The name after SHOW COLUMNS FROM, SHOW FIELDS FROM, DESCRIBE or DESC; empty when none of them fits.\<close>

definition described_name :: "str \<Rightarrow> str" where
  "described_name sql =
     (let upper = to_upper sql in
      if starts_with ''SHOW COLUMNS FROM '' upper then drop 18 sql
      else if starts_with ''SHOW FIELDS FROM '' upper then drop 17 sql
      else if starts_with ''DESCRIBE '' upper then drop 9 sql
      else if starts_with ''DESC '' upper then drop 5 sql
      else [])"

definition described_table :: "str \<Rightarrow> str" where
  "described_table full_name =
     (let full_name = TrimIdentifier full_name in
      case find_text [46] full_name of
        None \<Rightarrow> full_name
      | Some dot \<Rightarrow> TrimIdentifier (drop (dot + 1) full_name))"

definition column_type_text :: "column \<Rightarrow> str" where
  "column_type_text col =
     (case column_type col of
        BOOLEAN \<Rightarrow> ascii ''boolean'' | TINYINT \<Rightarrow> ascii ''tinyint'' | SMALLINT \<Rightarrow> ascii ''smallint''
      | INTEGER \<Rightarrow> ascii ''int'' | BIGINT \<Rightarrow> ascii ''bigint'' | DECIMAL \<Rightarrow> ascii ''decimal''
      | VARCHAR \<Rightarrow> ascii ''varchar('' @ show_nat (if max_length col \<noteq> 0 then unat (max_length col) else 255) @ ascii '')''
      | TIMESTAMP \<Rightarrow> ascii ''timestamp'' | _ \<Rightarrow> ascii ''unknown'')"

definition column_row :: "column \<Rightarrow> Value list" where
  "column_row col =
     [VVarchar (column_name col), VVarchar (column_type_text col), varchar (if is_nullable col then ''YES'' else ''NO''),
      varchar (if is_primary_key col then ''PRI'' else []), varchar (if is_nullable col then ''NULL'' else []),
      VVarchar []]"

definition show_col_schema :: schema where
  "show_col_schema = [plain_column ''Field'' VARCHAR 256, plain_column ''Type'' VARCHAR 64, plain_column ''Null'' VARCHAR 4,
     plain_column ''Key'' VARCHAR 4, plain_column ''Default'' VARCHAR 256, plain_column ''Extra'' VARCHAR 256]"

abbreviation with_catalog :: "catalog \<Rightarrow> server \<Rightarrow> server" where
  "with_catalog c s \<equiv> s\<lparr>sv_engine := (sv_engine s)\<lparr>eng_catalog := c\<rparr>\<rparr>"

definition ExecuteShowColumns :: "str \<Rightarrow> bool \<Rightarrow> server \<Rightarrow> response" where
  "ExecuteShowColumns sql results s =
     (let full_name = described_name sql in
      if full_name = [] then fail_with (ascii ''Invalid SHOW COLUMNS / DESCRIBE syntax'') s
      else
        let name = described_table full_name;
            (c, info) = GetTable name (eng_catalog (sv_engine s));
            s = with_catalog c s
        in case info of
          None \<Rightarrow> fail_with (ascii ''Table not found: '' @ name) s
        | Some t \<Rightarrow> show_rows show_col_schema results (map column_row (table_schema t)) s)"

text \<open>The name of a database after the command and an optional clause; \<open>None\<close> when \<open>substr\<close> throws.\<close>

definition command_database :: "string \<Rightarrow> string \<Rightarrow> string \<Rightarrow> nat \<Rightarrow> str \<Rightarrow> (bool \<times> str) option" where
  "command_database long short clause len sql =
     (let db_name = drop (if starts_with long (to_upper sql) then length long else length short) sql;
          has = starts_with clause (to_upper db_name)
      in map_option (\<lambda>n. (has, TrimIdentifier n)) (if has then substr_to_end len db_name else Some db_name))"

definition ExecuteCreateDatabase :: "str \<Rightarrow> server \<Rightarrow> response" where
  "ExecuteCreateDatabase sql s =
     (case command_database ''CREATE DATABASE '' ''CREATE SCHEMA '' ''IF NOT EXISTS '' 15 sql of
        None \<Rightarrow> throw s
      | Some (if_not_exists, db_name) \<Rightarrow>
          if db_name = [] then fail_with (ascii ''Missing database name in CREATE DATABASE'') s
          else
            let (c, ok) = CreateDatabase db_name if_not_exists (eng_catalog (sv_engine s)); s = with_catalog c s in
            if ok then succeed s
            else if if_not_exists then succeed (s\<lparr>sv_error := []\<rparr>)
            else fail_with (ascii ''Database already exists: '' @ db_name) s)"

definition ExecuteDropDatabase :: "str \<Rightarrow> server \<Rightarrow> response" where
  "ExecuteDropDatabase sql s =
     (case command_database ''DROP DATABASE '' ''DROP SCHEMA '' ''IF EXISTS '' 10 sql of
        None \<Rightarrow> throw s
      | Some (if_exists, db_name) \<Rightarrow>
          if db_name = [] then fail_with (ascii ''Missing database name in DROP DATABASE'') s
          else
            let (c, ok) = DropDatabase db_name if_exists (eng_catalog (sv_engine s)); s = with_catalog c s in
            if ok then succeed s
            else if if_exists then succeed (s\<lparr>sv_error := []\<rparr>)
            else fail_with (ascii ''Database not found: '' @ db_name) s)"

definition ExecuteRegisterFk :: "str \<Rightarrow> server \<Rightarrow> response" where
  "ExecuteRegisterFk sql s =
     (let args = dropWhile is_tab (rev (dropWhile is_tab (rev (drop 12 sql)))); parts = fk_parts args in
      if args = [] then fail_with (ascii ''REGISTER_FK: missing arguments'') s
      else if length parts < 2 then fail_with (ascii ''REGISTER_FK: expected at least 2 arguments'') s
      else case split_dot (parts ! 0) of
        None \<Rightarrow> fail_with (ascii ''REGISTER_FK: expected parent_table.parent_column format'') s
      | Some (pt, pc) \<Rightarrow>
          (case split_dot (parts ! 1) of
             None \<Rightarrow> fail_with (ascii ''REGISTER_FK: expected child_table.child_column format'') s
           | Some (ct, cc) \<Rightarrow>
               (case fk_action parts of
                  None \<Rightarrow> fail_with (ascii ''REGISTER_FK: unknown action '' @ [39] @ parts ! 2 @ [39]) s
                | Some action \<Rightarrow>
                    let (c, ok) = RegisterForeignKey \<lparr>parent_table = pt, parent_column = pc, child_table = ct,
                                    child_column = cc, on_delete = action\<rparr> (eng_catalog (sv_engine s));
                        s = with_catalog c s
                    in if ok then succeed s
                       else fail_with (ascii ''REGISTER_FK: failed to register FK (table not found?)'') s)))"

section \<open>Accounts\<close>

text \<open>A command of the account manager, on its state and the pool, which the engine shares; the message is for a
  result of false.\<close>

definition on_auth ::
    "(auth_manager \<times> bpm \<Rightarrow> ((auth_manager \<times> bpm) \<times> bool) option) \<Rightarrow> str \<Rightarrow> auth_manager \<Rightarrow> server \<Rightarrow> response" where
  "on_auth f msg a s = do {
     ((a, b), ok) \<leftarrow> f (a, eng_pool (sv_engine s));
     let s = s\<lparr>sv_auth := Some a, sv_engine := (sv_engine s)\<lparr>eng_pool := b\<rparr>\<rparr>;
     if ok then succeed s else fail_with msg s }"

definition no_auth :: str where "no_auth = ascii ''AuthManager not available''"

definition account_text :: "str \<Rightarrow> str \<Rightarrow> str" where
  "account_text user host = [39] @ user @ [39, 64, 39] @ host @ [39]"

definition account_syntax :: str where
  "account_syntax = account_text (ascii ''user'') (ascii ''host'')"

text \<open>The position after IDENTIFIED BY, which is looked for behind the account.\<close>

definition identified_by :: "nat \<Rightarrow> str \<Rightarrow> str \<Rightarrow> str \<Rightarrow> nat option" where
  "identified_by pos user host sql =
     map_option (\<lambda>p. p + 13) (find_from (ascii ''IDENTIFIED BY'') (pos + (length user + length host + 6)) (to_upper sql))"

definition ExecuteCreateUser :: "str \<Rightarrow> str \<Rightarrow> server \<Rightarrow> response" where
  "ExecuteCreateUser new_salt sql s =
     (case sv_auth s of
        None \<Rightarrow> fail_with no_auth s
      | Some a \<Rightarrow>
          (case ParseUserHost sql 12 of
             None \<Rightarrow> fail_with (ascii ''Invalid CREATE USER syntax. Expected: CREATE USER '' @ account_syntax @
                       ascii '' [IDENTIFIED BY '' @ [39] @ ascii ''password'' @ [39] @ ascii '']'') s
           | Some (user, host) \<Rightarrow>
               let password = (case identified_by 12 user host sql of
                                 None \<Rightarrow> [] | Some p \<Rightarrow> ParseQuotedString sql (skip is_space p sql))
               in on_auth (CreateUser user host password new_salt)
                    (ascii ''Failed to create user '' @ account_text user host @ ascii '' (may already exist)'') a s))"

definition ExecuteDropUser :: "str \<Rightarrow> server \<Rightarrow> response" where
  "ExecuteDropUser sql s =
     (case sv_auth s of
        None \<Rightarrow> fail_with no_auth s
      | Some a \<Rightarrow>
          (case ParseUserHost sql 10 of
             None \<Rightarrow> fail_with (ascii ''Invalid DROP USER syntax. Expected: DROP USER '' @ account_syntax) s
           | Some (user, host) \<Rightarrow>
               on_auth (DropUser user host)
                 (ascii ''Failed to drop user '' @ account_text user host @ ascii '' (may not exist)'') a s))"

definition ExecuteAlterUser :: "str \<Rightarrow> str \<Rightarrow> server \<Rightarrow> response" where
  "ExecuteAlterUser new_salt sql s =
     (case sv_auth s of
        None \<Rightarrow> fail_with no_auth s
      | Some a \<Rightarrow>
          (case ParseUserHost sql 11 of
             None \<Rightarrow> fail_with (ascii ''Invalid ALTER USER syntax. Expected: ALTER USER '' @ account_syntax @
                       ascii '' IDENTIFIED BY '' @ [39] @ ascii ''new_password'' @ [39]) s
           | Some (user, host) \<Rightarrow>
               (case identified_by 11 user host sql of
                  None \<Rightarrow> fail_with (ascii ''ALTER USER requires IDENTIFIED BY clause'') s
                | Some p \<Rightarrow>
                    on_auth (AlterUserPassword user host (ParseQuotedString sql p) new_salt)
                      (ascii ''Failed to alter user '' @ account_text user host) a s)))"

definition ExecuteSetPassword :: "str \<Rightarrow> str \<Rightarrow> server \<Rightarrow> response" where
  "ExecuteSetPassword new_salt sql s =
     (case sv_auth s of
        None \<Rightarrow> fail_with no_auth s
      | Some a \<Rightarrow>
          let upper = to_upper sql in
          (case (case find_text (ascii ''FOR '') upper of
                   None \<Rightarrow> Some (ascii ''root'', ascii ''localhost'')
                 | Some p \<Rightarrow> ParseUserHost sql (p + 4)) of
             None \<Rightarrow> fail_with (ascii ''Invalid SET PASSWORD syntax. Expected: SET PASSWORD FOR '' @ account_syntax @
                       ascii '' = '' @ [39] @ ascii ''new_password'' @ [39]) s
           | Some (user, host) \<Rightarrow>
               (case find_text [61] upper of
                  None \<Rightarrow> fail_with (ascii ''SET PASSWORD requires = '' @ [39] @ ascii ''password'' @ [39]) s
                | Some p \<Rightarrow>
                    on_auth (SetPassword user host (ParseQuotedString sql (p + 1)) new_salt)
                      (ascii ''Failed to set password for '' @ account_text user host) a s)))"

text \<open>The common shape of GRANT and REVOKE: privileges, ON, object, TO or FROM, account.\<close>

definition grant_parts :: "string \<Rightarrow> string \<Rightarrow> str \<Rightarrow> str + (u32 \<times> str \<times> str \<times> str \<times> str)" where
  "grant_parts verb link sql =
     (let upper = to_upper sql;
          start = (case find_text (ascii verb @ [32]) upper of None \<Rightarrow> length verb | Some p \<Rightarrow> p + length verb + 1)
      in case find_from (ascii '' ON '') start upper of
        None \<Rightarrow> Inl (ascii verb @ ascii '' syntax error: missing ON clause'')
      | Some on_pos \<Rightarrow>
          let privileges = ParsePrivilegeList (take (on_pos - start) (drop start sql)) in
          (case find_from ([32] @ ascii link @ [32]) (on_pos + 4) upper of
             None \<Rightarrow> Inl (ascii verb @ ascii '' syntax error: missing '' @ ascii link @ ascii '' clause'')
           | Some p \<Rightarrow>
               let (db, t) = grant_object (take (p - on_pos - 4) (drop (on_pos + 4) sql)) in
               (case ParseUserHost sql (p + length link + 2) of
                  None \<Rightarrow> Inl (ascii verb @ ascii '' syntax error: invalid user@host format'')
                | Some (user, host) \<Rightarrow> Inr (privileges, db, t, user, host))))"

definition ExecuteGrant :: "str \<Rightarrow> server \<Rightarrow> response" where
  "ExecuteGrant sql s =
     (case sv_auth s of
        None \<Rightarrow> fail_with no_auth s
      | Some a \<Rightarrow>
          (case grant_parts ''GRANT'' ''TO'' sql of
             Inl msg \<Rightarrow> fail_with msg s
           | Inr (privileges, db, t, user, host) \<Rightarrow>
               on_auth (GrantPrivilege user host db t privileges) (ascii ''Failed to grant privileges'') a s))"

definition ExecuteRevoke :: "str \<Rightarrow> server \<Rightarrow> response" where
  "ExecuteRevoke sql s =
     (case sv_auth s of
        None \<Rightarrow> fail_with no_auth s
      | Some a \<Rightarrow>
          (case grant_parts ''REVOKE'' ''FROM'' sql of
             Inl msg \<Rightarrow> fail_with msg s
           | Inr (privileges, db, t, user, host) \<Rightarrow>
               on_auth (RevokePrivilege user host db t privileges) (ascii ''Failed to revoke privileges'') a s))"

definition ExecuteFlushPrivileges :: "server \<Rightarrow> response" where
  "ExecuteFlushPrivileges s =
     (case sv_auth s of
        None \<Rightarrow> fail_with no_auth s
      | Some a \<Rightarrow> on_auth (\<lambda>ab. map_option (\<lambda>ab. (ab, True)) (FlushPrivileges ab)) [] a s)"

definition ExecuteFlushHosts :: "server \<Rightarrow> response" where
  "ExecuteFlushHosts s =
     (case sv_auth s of
        None \<Rightarrow> fail_with no_auth s
      | Some a \<Rightarrow> succeed (s\<lparr>sv_auth := Some (ClearBlockList a)\<rparr>))"

definition ExecuteShowUsers :: "bool \<Rightarrow> server \<Rightarrow> response" where
  "ExecuteShowUsers results s =
     (case sv_auth s of
        None \<Rightarrow> fail_with no_auth s
      | Some a \<Rightarrow>
          show_rows [plain_column ''user'' VARCHAR 64, plain_column ''host'' VARCHAR 128, plain_column ''created'' VARCHAR 128]
            results (map (\<lambda>u. [VVarchar (ur_user u), VVarchar (ur_host u), VVarchar []]) (GetUsers a)) s)"

text \<open>The map from database and table to a mask, in the order of its keys.\<close>

fun group_add :: "str \<times> str \<Rightarrow> u32 \<Rightarrow> ((str \<times> str) \<times> u32) list \<Rightarrow> ((str \<times> str) \<times> u32) list" where
  "group_add k p [] = [(k, p)]"
| "group_add k p ((k', q) # gs) =
     (if k = k' then (k', q OR p) # gs
      else if str_less (fst k) (fst k') \<or> (fst k = fst k' \<and> str_less (snd k) (snd k')) then (k, p) # (k', q) # gs
      else (k', q) # group_add k p gs)"

definition grouped_grants :: "str \<Rightarrow> str \<Rightarrow> PrivRecord list \<Rightarrow> ((str \<times> str) \<times> u32) list" where
  "grouped_grants user host privs =
     fold (\<lambda>p. group_add (pr_db p, pr_table p) (pr_privileges p))
       (filter (\<lambda>p. pr_user p = user \<and> (pr_host p = host \<or> pr_host p = ascii ''%'')) privs) []"

definition kPrivNames :: "(Privilege \<times> string) list" where
  "kPrivNames = [(PRIV_SELECT, ''SELECT''), (PRIV_INSERT, ''INSERT''), (PRIV_UPDATE, ''UPDATE''), (PRIV_DELETE, ''DELETE''),
     (PRIV_CREATE, ''CREATE''), (PRIV_DROP, ''DROP''), (PRIV_INDEX, ''INDEX''), (PRIV_ALTER, ''ALTER''),
     (PRIV_GRANT, ''GRANT OPTION'')]"

definition privilege_text :: "u32 \<Rightarrow> str" where
  "privilege_text ps =
     (let text = (if ps AND priv_bits PRIV_ALL = priv_bits PRIV_ALL then ascii ''ALL PRIVILEGES''
                  else fold (\<lambda>(p, name) t. if ps AND priv_bits p \<noteq> 0
                         then (if t \<noteq> [] then t @ ascii '', '' else t) @ ascii name else t) kPrivNames [])
      in if text = [] then ascii ''USAGE'' else text)"

definition grant_text :: "str \<Rightarrow> str \<Rightarrow> (str \<times> str) \<times> u32 \<Rightarrow> str" where
  "grant_text user host g =
     ascii ''GRANT '' @ privilege_text (snd g) @ ascii '' ON '' @ fst (fst g) @ ascii ''.'' @ snd (fst g) @ ascii '' TO '' @
     account_text user host"

definition ExecuteShowGrants :: "str \<Rightarrow> bool \<Rightarrow> server \<Rightarrow> response" where
  "ExecuteShowGrants sql results s =
     (case sv_auth s of
        None \<Rightarrow> fail_with no_auth s
      | Some a \<Rightarrow>
          (case find_text (ascii '' FOR '') (to_upper sql) of
             None \<Rightarrow> fail_with (ascii ''SHOW GRANTS requires FOR clause'') s
           | Some p \<Rightarrow>
               (case ParseUserHost sql (p + 5) of
                  None \<Rightarrow> fail_with (ascii ''Invalid user@host format in SHOW GRANTS'') s
                | Some (user, host) \<Rightarrow>
                    let gs = map (grant_text user host) (grouped_grants user host (GetPrivileges a));
                        gs = (if gs = [] then [ascii ''GRANT USAGE ON *.* TO '' @ account_text user host] else gs)
                    in show_rows [plain_column ''Grants'' VARCHAR 1024] results (map (\<lambda>g. [VVarchar g]) gs) s)))"

section \<open>Transactions\<close>

definition no_txn :: str where "no_txn = ascii ''TransactionManager not available''"

definition ExecuteStartTransaction :: "call_env \<Rightarrow> server \<Rightarrow> response" where
  "ExecuteStartTransaction env s =
     (case sv_txn s of
        None \<Rightarrow> fail_with no_txn s
      | Some m \<Rightarrow> succeed (s\<lparr>sv_txn := Some (fst (Begin (ev_address env) (ev_clock env) (ev_thread env) m))\<rparr>))"

text \<open>An operation of the transaction manager and the message for a result of false.\<close>

definition on_txn :: "(txn_manager \<Rightarrow> (txn_manager \<times> bool) option) \<Rightarrow> str \<Rightarrow> txn_manager \<Rightarrow> server \<Rightarrow> response" where
  "on_txn f msg m s = do {
     (m, ok) \<leftarrow> f m;
     let s = s\<lparr>sv_txn := Some m\<rparr>;
     if ok then succeed s else fail_with msg s }"

definition ExecuteCommit :: "call_env \<Rightarrow> server \<Rightarrow> response" where
  "ExecuteCommit env s =
     (case sv_txn s of
        None \<Rightarrow> fail_with no_txn s
      | Some m \<Rightarrow>
          (case GetCurrentTransaction (ev_thread env) m of
             None \<Rightarrow> fail_with (ascii ''No active transaction to commit'') s
           | Some p \<Rightarrow> on_txn (Commit (ev_thread env) (Some p)) (ascii ''Failed to commit transaction'') m s))"

definition ExecuteRollback :: "call_env \<Rightarrow> server \<Rightarrow> response" where
  "ExecuteRollback env s =
     (case sv_txn s of
        None \<Rightarrow> fail_with no_txn s
      | Some m \<Rightarrow>
          (case GetCurrentTransaction (ev_thread env) m of
             None \<Rightarrow> fail_with (ascii ''No active transaction to rollback'') s
           | Some p \<Rightarrow> on_txn (Rollback (ev_thread env) (Some p)) (ascii ''Failed to rollback transaction'') m s))"

text \<open>The name behind a command word, which is looked for in the whole text.\<close>

definition name_after :: "string \<Rightarrow> str \<Rightarrow> str" where
  "name_after word sql =
     (case find_text (ascii word) (to_upper sql) of
        None \<Rightarrow> name_at (length word - 1) sql
      | Some p \<Rightarrow> name_at (p + length word) sql)"

definition quoted_name :: "str \<Rightarrow> str" where "quoted_name name = [39] @ name @ [39]"

definition ExecuteSavepoint :: "call_env \<Rightarrow> str \<Rightarrow> server \<Rightarrow> response" where
  "ExecuteSavepoint env sql s =
     (case sv_txn s of
        None \<Rightarrow> fail_with no_txn s
      | Some m \<Rightarrow>
          let name = name_after ''SAVEPOINT '' sql in
          if name = [] then fail_with (ascii ''SAVEPOINT requires a name'') s
          else if GetCurrentTransaction (ev_thread env) m = None
          then fail_with (ascii ''No active transaction for SAVEPOINT'') s
          else on_txn (CreateSavepoint (ev_thread env) name) (ascii ''Failed to create savepoint '' @ quoted_name name) m s)"

definition ExecuteReleaseSavepoint :: "call_env \<Rightarrow> str \<Rightarrow> server \<Rightarrow> response" where
  "ExecuteReleaseSavepoint env sql s =
     (case sv_txn s of
        None \<Rightarrow> fail_with no_txn s
      | Some m \<Rightarrow>
          let name = name_after ''RELEASE SAVEPOINT '' sql in
          if name = [] then fail_with (ascii ''RELEASE SAVEPOINT requires a name'') s
          else on_txn (ReleaseSavepoint (ev_thread env) name)
                 (ascii ''Savepoint '' @ quoted_name name @ ascii '' not found'') m s)"

definition ExecuteRollbackToSavepoint :: "call_env \<Rightarrow> str \<Rightarrow> server \<Rightarrow> response" where
  "ExecuteRollbackToSavepoint env sql s =
     (case sv_txn s of
        None \<Rightarrow> fail_with no_txn s
      | Some m \<Rightarrow>
          let name = name_after ''ROLLBACK TO SAVEPOINT '' sql in
          if name = [] then fail_with (ascii ''ROLLBACK TO SAVEPOINT requires a name'') s
          else on_txn (RollbackToSavepoint (ev_thread env) name)
                 (ascii ''Savepoint '' @ quoted_name name @ ascii '' not found'') m s)"

definition contains :: "string \<Rightarrow> str \<Rightarrow> bool" where
  "contains t s \<longleftrightarrow> find_text (ascii t) s \<noteq> None"

definition ExecuteSetTransaction :: "str \<Rightarrow> server \<Rightarrow> response" where
  "ExecuteSetTransaction sql s =
     (case sv_txn s of
        None \<Rightarrow> fail_with no_txn s
      | Some m \<Rightarrow>
          let upper = to_upper sql;
              level = (if contains ''READ UNCOMMITTED'' upper then READ_UNCOMMITTED
                       else if contains ''READ COMMITTED'' upper then READ_COMMITTED
                       else if contains ''REPEATABLE READ'' upper then REPEATABLE_READ
                       else if contains ''SERIALIZABLE'' upper then SERIALIZABLE
                       else READ_COMMITTED)
          in succeed (s\<lparr>sv_txn := Some (SetDefaultIsolationLevel level m)\<rparr>))"

section \<open>Administration\<close>

definition ExecuteShutdown :: "server \<Rightarrow> response" where
  "ExecuteShutdown s =
     (if sv_shutdown s = None then fail_with (ascii ''Shutdown not supported (no callback registered)'') s
      else succeed (s\<lparr>sv_shutdown := Some True\<rparr>))"

definition status_rows :: "call_env \<Rightarrow> server \<Rightarrow> Value list list" where
  "status_rows env s =
     (let var = (\<lambda>name val. [varchar name, VVarchar val]);
          up = ev_uptime env; qc = sv_queries s; pool = eng_pool (sv_engine s); count = (\<lambda>n :: nat. show_nat n)
      in [var ''uptime'' (show_int (sint up)),
          var ''queries'' (count (unat qc)),
          var ''questions'' (count (unat qc)),
          var ''queries_per_second''
            (if 0 < sint up then show_f64 (f64_div (f64_of_int (uint qc)) (f64_of_int (sint up))) else ascii ''0''),
          var ''threads_connected'' (count (unat (active_connections (sv_net s)))),
          var ''max_connections'' (ascii ''151''),
          var ''max_used_connections'' (count (unat (total_connections (sv_net s)))),
          var ''bytes_received'' (count (unat (total_bytes_received (sv_net s)))),
          var ''bytes_sent'' (count (unat (total_bytes_sent (sv_net s)))),
          var ''buffer_pool_size'' (count (length (pages pool))),
          var ''buffer_pool_pages_free'' (count (GetFreeFrameCount pool)),
          var ''buffer_pool_pages_dirty'' (count (GetDirtyPageCount pool)),
          var ''buffer_pool_hit_rate'' (show_f64 (f64_mul (ev_hit_rate env) (f64_of_int 100)) @ ascii ''%''),
          var ''buffer_pool_read_requests'' (count (if qc > 0 then unat qc else 1)),
          var ''buffer_pool_reads'' (ascii ''0''),
          var ''version'' (ascii ''goods_db v0.1.0''),
          var ''server_id'' (ascii ''1'')])"

definition ExecuteShowStatus :: "call_env \<Rightarrow> bool \<Rightarrow> server \<Rightarrow> response" where
  "ExecuteShowStatus env results s =
     show_rows [plain_column ''Variable_name'' VARCHAR 128, plain_column ''Value'' VARCHAR 256] results (status_rows env s) s"

definition state_command :: "conn_state \<Rightarrow> string" where
  "state_command st = (case st of INIT \<Rightarrow> ''Connect'' | AUTH \<Rightarrow> ''Authenticate'' | READY \<Rightarrow> ''Sleep'' | QUERYING \<Rightarrow> ''Query''
     | SENDING \<Rightarrow> ''Send'' | CLOSING \<Rightarrow> ''Close'')"

definition state_detail :: "conn_state \<Rightarrow> string" where
  "state_detail st = (case st of QUERYING \<Rightarrow> ''executing'' | SENDING \<Rightarrow> ''Writing to net'' | _ \<Rightarrow> [])"

definition process_row :: "i32 \<Rightarrow> conn_handler \<Rightarrow> Value list" where
  "process_row i h =
     (let c = ch_connection h in
      [VInteger i, VVarchar (cn_user c), VVarchar (cn_remote_addr c @ ascii '':'' @ show_nat (unat (cn_remote_port c))),
       VVarchar (cn_db c), varchar (state_command (cn_state c)), VInteger 0, varchar (state_detail (cn_state c)),
       VVarchar (ch_query h)])"

definition proc_schema :: schema where
  "proc_schema = [plain_column ''Id'' INTEGER 0, plain_column ''User'' VARCHAR 64, plain_column ''Host'' VARCHAR 128,
     plain_column ''db'' VARCHAR 128, plain_column ''Command'' VARCHAR 32, plain_column ''Time'' INTEGER 0,
     plain_column ''State'' VARCHAR 64, plain_column ''Info'' VARCHAR 1024]"

text \<open>A registered handler that has been destroyed would be a use of freed memory.\<close>

definition ExecuteShowProcesslist :: "bool \<Rightarrow> server \<Rightarrow> response" where
  "ExecuteShowProcesslist results s =
     (if \<not> results then show_rows proc_schema results [] s
      else do {
        rows \<leftarrow> those (map (\<lambda>i. map_option (process_row i) (sv_handlers s i)) (sv_registry s));
        show_rows proc_schema results rows s })"

definition ExecuteFlushTables :: "server \<Rightarrow> response" where
  "ExecuteFlushTables s =
     succeed (s\<lparr>sv_engine := (sv_engine s)\<lparr>eng_pool := FlushAllPages (eng_pool (sv_engine s))\<rparr>\<rparr>)"

text \<open>\<open>ConnectionHandler::Stop\<close>.\<close>

definition stop_handler :: "i32 \<Rightarrow> server \<Rightarrow> server option" where
  "stop_handler i s =
     (case sv_handlers s i of
        None \<Rightarrow> None
      | Some h \<Rightarrow>
          let (c, g) = cn_Close (ch_connection h, sv_net s)
          in Some (s\<lparr>sv_handlers := (sv_handlers s)(i \<mapsto> h\<lparr>ch_connection := c, ch_running := False\<rparr>), sv_net := g\<rparr>))"

text \<open>The digits of the connection id; \<open>std::stoul\<close> throws when they exceed 64 bits, and the cast keeps 32.\<close>

definition ExecuteKill :: "str \<Rightarrow> server \<Rightarrow> response" where
  "ExecuteKill sql s =
     (let id_str = takeWhile is_digit (drop (skip is_space 5 sql) sql); n = number 0 id_str in
      if id_str = [] then fail_with (ascii ''KILL requires a connection ID'') s
      else if n \<ge> 2 ^ 64 then fail_with (ascii ''Invalid connection ID: '' @ id_str) s
      else
        let target = word_of_nat n in
        if target \<notin> set (sv_registry s) then fail_with (ascii ''Unknown connection ID: '' @ id_str) s
        else do {
          s \<leftarrow> stop_handler target (s\<lparr>sv_registry := remove1 target (sv_registry s)\<rparr>);
          succeed s })"

section \<open>Logs\<close>

definition no_logs :: str where "no_logs = ascii ''LogManager not available''"

definition ExecuteShowLogs :: "server \<Rightarrow> response" where
  "ExecuteShowLogs s =
     (case sv_logs s of
        None \<Rightarrow> fail_with no_logs s
      | Some _ \<Rightarrow> show_rows [plain_column ''LogFile'' VARCHAR 512, plain_column ''Type'' VARCHAR 32, plain_column ''Size'' BIGINT 0]
          True [] s)"

text \<open>The digits after a word and blanks; empty when there are none.\<close>

definition digits_after :: "string \<Rightarrow> str \<Rightarrow> str" where
  "digits_after word sql =
     (case find_text (ascii word) (to_upper sql) of
        None \<Rightarrow> []
      | Some p \<Rightarrow> takeWhile is_digit (drop (skip is_space (p + length word) sql) sql))"

definition binlog_name :: "str \<Rightarrow> str" where
  "binlog_name sql =
     (case find_text (ascii '' IN '') (to_upper sql) of
        None \<Rightarrow> []
      | Some p \<Rightarrow>
          let start = skip is_space (p + 4) sql in
          if start < length sql \<and> is_quote (sql ! start) then takeWhile (\<lambda>c. c \<noteq> sql ! start) (drop (start + 1) sql) else [])"

definition event_row :: "BinlogEventInfo \<Rightarrow> Value list" where
  "event_row e = [VVarchar (bi_log_name e), VBigInt (word_of_nat (bi_position e)), VVarchar (bi_event_type e),
     VInteger (bi_server_id e), VBigInt (word_of_nat (bi_end_log_pos e)), VVarchar (bi_info e)]"

definition binlog_events_schema :: schema where
  "binlog_events_schema = [plain_column ''LogName'' VARCHAR 256, plain_column ''Pos'' BIGINT 0,
     plain_column ''EventType'' VARCHAR 32, plain_column ''ServerId'' INTEGER 0, plain_column ''EndLogPos'' BIGINT 0,
     plain_column ''Info'' VARCHAR 1024]"

text \<open>\<open>std::stoll\<close> is called on digits without a handler for its exception.\<close>

definition ExecuteShowBinlogEvents :: "str \<Rightarrow> bool \<Rightarrow> server \<Rightarrow> response" where
  "ExecuteShowBinlogEvents sql results s =
     (case sv_logs s of
        None \<Rightarrow> fail_with no_logs s
      | Some m \<Rightarrow>
          let from_str = digits_after '' FROM '' sql; limit_str = digits_after '' LIMIT '' sql in
          if number 0 from_str \<ge> 2 ^ 63 \<or> number 0 limit_str \<ge> 2 ^ 63 then throw s
          else show_rows binlog_events_schema results
                 (map event_row (ReadEvents (binlog_name sql) (number 0 from_str)
                   (if limit_str = [] then - 1 else int (number 0 limit_str)) (binlog_writer m, sv_log_files s))) s)"

definition ExecuteShowMasterStatus :: "bool \<Rightarrow> server \<Rightarrow> response" where
  "ExecuteShowMasterStatus results s =
     (case sv_logs s of
        None \<Rightarrow> fail_with no_logs s
      | Some m \<Rightarrow>
          show_rows [plain_column ''File'' VARCHAR 256, plain_column ''Position'' BIGINT 0,
              plain_column ''Binlog_Do_DB'' VARCHAR 256, plain_column ''Binlog_Ignore_DB'' VARCHAR 256] results
            [[VVarchar (GetCurrentFileName (binlog_writer m)), VBigInt (GetCurrentPosition (binlog_writer m)),
              VVarchar [], VVarchar []]] s)"

definition ExecuteFlushLogs :: "server \<Rightarrow> response" where
  "ExecuteFlushLogs s =
     (case sv_logs s of
        None \<Rightarrow> fail_with no_logs s
      | Some m \<Rightarrow>
          let (b, fs) = binlog_Rotate (binlog_writer m, sv_log_files s);
              (q, fs) = query_Rotate (query_log m, fs)
          in succeed (s\<lparr>sv_logs := Some (m\<lparr>binlog_writer := b, query_log := q\<rparr>), sv_log_files := fs\<rparr>))"

definition ExecutePurgeBinaryLogs :: "str \<Rightarrow> server \<Rightarrow> response" where
  "ExecutePurgeBinaryLogs sql s =
     (case sv_logs s of
        None \<Rightarrow> fail_with no_logs s
      | Some m \<Rightarrow>
          (case find_text (ascii '' TO '') (to_upper sql) of
             None \<Rightarrow> fail_with (ascii ''PURGE BINARY LOGS requires TO clause'') s
           | Some p \<Rightarrow>
               let log_name = ParseQuotedString sql (p + 4) in
               if log_name = [] then fail_with (ascii ''Invalid log name in PURGE BINARY LOGS'') s
               else let (b, fs) = PurgeTo log_name (binlog_writer m, sv_log_files s)
                    in succeed (s\<lparr>sv_logs := Some (m\<lparr>binlog_writer := b\<rparr>), sv_log_files := fs\<rparr>)))"

definition ExecuteResetMaster :: "server \<Rightarrow> response" where
  "ExecuteResetMaster s =
     (case sv_logs s of
        None \<Rightarrow> fail_with no_logs s
      | Some m \<Rightarrow>
          let (b, fs) = binlog_Reset (binlog_writer m, sv_log_files s)
          in succeed (s\<lparr>sv_logs := Some (m\<lparr>binlog_writer := b\<rparr>), sv_log_files := fs\<rparr>))"

text \<open>The number of entries asked for; a number \<open>std::stoull\<close> refuses is ignored.\<close>

definition log_limit :: "str \<Rightarrow> nat" where
  "log_limit sql =
     (let d = digits_after ''LIMIT '' sql in if d = [] \<or> number 0 d \<ge> 2 ^ 64 then 200 else number 0 d)"

text \<open>The text between the first two quotes after LEVEL, in the case it was written.\<close>

definition level_filter :: "str \<Rightarrow> str" where
  "level_filter sql =
     (let upper = to_upper sql in
      case (case find_text (ascii ''LEVEL = '' @ [39]) upper of
              Some p \<Rightarrow> Some p | None \<Rightarrow> find_text (ascii ''LEVEL='' @ [39]) upper) of
        None \<Rightarrow> []
      | Some p \<Rightarrow>
          (case find_from [39] p upper of
             None \<Rightarrow> []
           | Some q \<Rightarrow>
               (case find_from [39] (q + 1) upper of
                  None \<Rightarrow> []
                | Some e \<Rightarrow> take (e - q - 1) (drop (q + 1) sql))))"

definition like_keyword :: "str \<Rightarrow> str" where
  "like_keyword sql =
     (let upper = to_upper sql in
      case find_text (ascii ''LIKE '' @ [39, 37]) upper of
        None \<Rightarrow> []
      | Some p \<Rightarrow>
          (case find_from [37, 39] (p + 7) upper of
             None \<Rightarrow> []
           | Some e \<Rightarrow> take (e - (p + 7)) (drop (p + 7) sql)))"

definition errorlog_schema :: schema where
  "errorlog_schema = [plain_column ''time'' VARCHAR 32, plain_column ''level'' VARCHAR 8, plain_column ''code'' INTEGER 0,
     plain_column ''message'' VARCHAR 1024, plain_column ''source'' VARCHAR 256]"

definition error_row :: "RingEntry \<Rightarrow> Value list" where
  "error_row e = [VVarchar (re_timestamp e), VVarchar (re_level e), VInteger (re_code e), VVarchar (re_message e),
     VVarchar (re_source e)]"

definition shown_error :: "str \<Rightarrow> RingEntry \<Rightarrow> bool" where
  "shown_error sql e \<longleftrightarrow>
     (level_filter sql = [] \<or> to_upper (re_level e) = level_filter sql) \<and>
     (like_keyword sql = [] \<or> find_text (like_keyword sql) (re_message e) \<noteq> None)"

definition ExecuteShowErrorLog :: "str \<Rightarrow> bool \<Rightarrow> server \<Rightarrow> response" where
  "ExecuteShowErrorLog sql results s =
     (case sv_logs s of
        None \<Rightarrow> fail_with no_logs s
      | Some m \<Rightarrow>
          show_rows errorlog_schema results
            (map error_row (filter (shown_error sql) (GetRecentEntries (log_limit sql) (el_ring (error_log m))))) s)"

definition querylog_schema :: schema where
  "querylog_schema = [plain_column ''time'' VARCHAR 32, plain_column ''user'' VARCHAR 64, plain_column ''host'' VARCHAR 128,
     plain_column ''database'' VARCHAR 128, plain_column ''duration'' VARCHAR 32, plain_column ''rows'' BIGINT 0,
     plain_column ''query'' VARCHAR 4096]"

definition query_row :: "QueryEntry \<Rightarrow> Value list" where
  "query_row e = [VVarchar (qe_timestamp e), VVarchar (qe_user e), VVarchar (qe_host e), VVarchar (qe_database e),
     VVarchar (show_nat (unat (qe_exec_time_ms e)) @ ascii ''ms''), VBigInt (qe_rows_affected e), VVarchar (qe_sql e)]"

definition ExecuteShowQueryLog :: "str \<Rightarrow> bool \<Rightarrow> server \<Rightarrow> response" where
  "ExecuteShowQueryLog sql results s =
     (case sv_logs s of
        None \<Rightarrow> fail_with no_logs s
      | Some m \<Rightarrow>
          show_rows querylog_schema results (map query_row (GetRecentEntries (log_limit sql) (ql_ring (query_log m)))) s)"

definition ExecuteShowBinaryLog :: "bool \<Rightarrow> server \<Rightarrow> response" where
  "ExecuteShowBinaryLog results s =
     (case sv_logs s of
        None \<Rightarrow> fail_with no_logs s
      | Some m \<Rightarrow>
          show_rows [plain_column ''LogName'' VARCHAR 256, plain_column ''Size'' BIGINT 0, plain_column ''Records'' INTEGER 0]
            results (map (\<lambda>f. [VVarchar f, VBigInt 0, VInteger 0]) (ListBinlogFiles (binlog_writer m))) s)"

section \<open>Permissions\<close>

definition table_or_star :: "str \<Rightarrow> str" where
  "table_or_star t = (if t = [] then ascii ''*'' else t)"

definition ExtractTableName :: "ASTStatement \<Rightarrow> str" where
  "ExtractTableName stmt =
     (case stmt of
        Select_Stmt x \<Rightarrow> table_or_star (select_table x)
      | Insert_Stmt x \<Rightarrow> table_or_star (insert_table x)
      | Update_Stmt x \<Rightarrow> table_or_star (update_table x)
      | Delete_Stmt x \<Rightarrow> table_or_star (delete_table_name x)
      | Create_Stmt x \<Rightarrow> table_or_star (create_name x)
      | Drop_Stmt x \<Rightarrow> table_or_star (drop_name x)
      | Create_Index_Stmt x \<Rightarrow> table_or_star (ci_table x))"

definition GetRequiredPrivilege :: "ASTStatement \<Rightarrow> Privilege" where
  "GetRequiredPrivilege stmt =
     (case stmt of
        Select_Stmt _ \<Rightarrow> PRIV_SELECT | Insert_Stmt _ \<Rightarrow> PRIV_INSERT | Update_Stmt _ \<Rightarrow> PRIV_UPDATE
      | Delete_Stmt _ \<Rightarrow> PRIV_DELETE | Create_Stmt _ \<Rightarrow> PRIV_CREATE | Drop_Stmt _ \<Rightarrow> PRIV_DROP
      | Create_Index_Stmt _ \<Rightarrow> PRIV_INDEX)"

definition trusted :: "server \<Rightarrow> bool" where
  "trusted s \<longleftrightarrow> sv_auth s = None \<or> sv_user s = [] \<or> sv_user s = ascii ''root''"

definition has_access :: "str \<Rightarrow> Privilege \<Rightarrow> server \<Rightarrow> bool" where
  "has_access t p s \<longleftrightarrow>
     (case sv_auth s of None \<Rightarrow> True | Some a \<Rightarrow> CheckAccess (sv_user s) (sv_host s) (ascii ''goods_db'') t p a)"

definition CheckPrivilegeForStatement :: "Privilege \<Rightarrow> str \<Rightarrow> server \<Rightarrow> server \<times> bool" where
  "CheckPrivilegeForStatement required t s =
     (if trusted s then (s, True)
      else if has_access t required s then (s, True)
      else (s\<lparr>sv_error := ascii ''Access denied for user '' @ quoted_name (sv_user s) @ ascii '' to table '' @ quoted_name t @
              ascii '' (requires '' @ PrivilegeToString required @ ascii '')''\<rparr>, False))"

definition CheckAdminAccess :: "server \<Rightarrow> server \<times> bool" where
  "CheckAdminAccess s =
     (if trusted s then (s, True)
      else if has_access (ascii ''*'') PRIV_GRANT s then (s, True)
      else (s\<lparr>sv_error := ascii ''Access denied for user '' @ quoted_name (sv_user s) @
              [32, 0xE2, 0x80, 0x94, 32] @ ascii ''GRANT privilege required for administrative commands''\<rparr>, False))"

text \<open>A command behind one of the two checks.\<close>

definition denied :: "server \<Rightarrow> response" where
  "denied s = Some (s, \<lparr>rp_status = RC_ERROR, rp_rows = [], rp_schema = None\<rparr>)"

definition guarded :: "(server \<Rightarrow> server \<times> bool) \<Rightarrow> (server \<Rightarrow> response) \<Rightarrow> server \<Rightarrow> response" where
  "guarded check cmd s = (let (s, ok) = check s in if ok then cmd s else denied s)"

section \<open>The dispatch\<close>

text \<open>The pipeline of a statement the engine has no command for. The first statement alone is checked and run.\<close>

definition run_statement :: "ASTStatement \<Rightarrow> bool \<Rightarrow> server \<Rightarrow> response" where
  "run_statement stmt results s = do {
     (c, err, bound) \<leftarrow> Bind stmt (eng_catalog (sv_engine s));
     let s = with_catalog c s;
     case bound of
       None \<Rightarrow> fail_with (if err = [] then ascii ''Binding failed'' else err) s
     | Some b \<Rightarrow> do {
         plan \<leftarrow> Plan b;
         out \<leftarrow> ExecutePlan (Optimize plan) results (sv_engine s);
         Some (s\<lparr>sv_engine := out_engine out, sv_affected := out_affected out\<rparr>,
               \<lparr>rp_status = RC_OK, rp_rows = out_rows out, rp_schema = out_schema out\<rparr>) } }"

definition check_statement :: "ASTStatement \<Rightarrow> server \<Rightarrow> server \<times> bool" where
  "check_statement stmt s =
     (if sv_auth s \<noteq> None \<and> sv_user s \<noteq> []
      then CheckPrivilegeForStatement (GetRequiredPrivilege stmt) (ExtractTableName stmt) s
      else (s, True))"

definition execute_parsed :: "pg_parser \<Rightarrow> str \<Rightarrow> bool \<Rightarrow> server \<Rightarrow> response" where
  "execute_parsed pg sql results s =
     (case Parse pg sql of
        None \<Rightarrow> None
      | Some (Inl msg) \<Rightarrow> fail_with (ascii ''Parse error: '' @ msg) s
      | Some (Inr []) \<Rightarrow> fail_with (ascii ''No statements parsed'') s
      | Some (Inr (stmt # _)) \<Rightarrow> guarded (check_statement stmt) (run_statement stmt results) s)"

text \<open>The commands in the order of the dispatch: those that show something, those on databases, the security
  commands, KILL, the control of transactions, the logs.\<close>

definition is_security_command :: "str \<Rightarrow> bool" where
  "is_security_command upper \<longleftrightarrow>
     starts_with ''CREATE USER '' upper \<or> starts_with ''DROP USER '' upper \<or> starts_with ''ALTER USER '' upper \<or>
     starts_with ''SET PASSWORD'' upper \<or> starts_with ''GRANT '' upper \<or> starts_with ''REVOKE '' upper \<or>
     upper = ascii ''RELOAD'' \<or> starts_with ''FLUSH HOSTS'' upper \<or> starts_with ''FLUSH PRIVILEGES'' upper"

definition security_command :: "call_env \<Rightarrow> str \<Rightarrow> server \<Rightarrow> response" where
  "security_command env sql =
     (let upper = to_upper sql in
      if starts_with ''CREATE USER '' upper then ExecuteCreateUser (ev_salt env) sql
      else if starts_with ''DROP USER '' upper then ExecuteDropUser sql
      else if starts_with ''ALTER USER '' upper then ExecuteAlterUser (ev_salt env) sql
      else if starts_with ''SET PASSWORD'' upper then ExecuteSetPassword (ev_salt env) sql
      else if starts_with ''GRANT '' upper then ExecuteGrant sql
      else if starts_with ''REVOKE '' upper then ExecuteRevoke sql
      else if upper = ascii ''RELOAD'' then ExecuteFlushPrivileges
      else if starts_with ''FLUSH HOSTS'' upper then ExecuteFlushHosts
      else ExecuteFlushPrivileges)"

definition txn_command :: "call_env \<Rightarrow> str \<Rightarrow> (server \<Rightarrow> response) option" where
  "txn_command env sql =
     (let upper = to_upper sql in
      if upper = ascii ''START TRANSACTION'' \<or> upper = ascii ''BEGIN'' \<or> starts_with ''START TRANSACTION '' upper
      then Some (ExecuteStartTransaction env)
      else if upper = ascii ''COMMIT'' \<or> starts_with ''COMMIT'' upper then Some (ExecuteCommit env)
      else if upper = ascii ''ROLLBACK'' \<or> starts_with ''ROLLBACK TO SAVEPOINT '' upper
      then Some (if starts_with ''ROLLBACK TO SAVEPOINT '' upper then ExecuteRollbackToSavepoint env sql else ExecuteRollback env)
      else if starts_with ''SAVEPOINT '' upper then Some (ExecuteSavepoint env sql)
      else if starts_with ''RELEASE SAVEPOINT '' upper then Some (ExecuteReleaseSavepoint env sql)
      else if starts_with ''SET TRANSACTION'' upper \<or> starts_with ''SET SESSION TRANSACTION'' upper
      then Some (ExecuteSetTransaction sql)
      else None)"

definition log_command :: "str \<Rightarrow> bool \<Rightarrow> (server \<Rightarrow> response) option" where
  "log_command sql results =
     (let upper = to_upper sql in
      if starts_with ''SHOW GRANTS'' upper then Some (ExecuteShowGrants sql results)
      else if starts_with ''SHOW ERRORLOG'' upper then Some (ExecuteShowErrorLog sql results)
      else if starts_with ''SHOW QUERYLOG'' upper then Some (ExecuteShowQueryLog sql results)
      else if starts_with ''SHOW BINARYLOG'' upper then Some (ExecuteShowBinaryLog results)
      else if starts_with ''SHOW LOGS'' upper then Some ExecuteShowLogs
      else if starts_with ''SHOW BINLOG EVENTS'' upper then Some (ExecuteShowBinlogEvents sql results)
      else if starts_with ''SHOW MASTER STATUS'' upper then Some (ExecuteShowMasterStatus results)
      else if starts_with ''FLUSH TABLES'' upper then Some ExecuteFlushTables
      else if starts_with ''FLUSH LOGS'' upper then Some ExecuteFlushLogs
      else if starts_with ''PURGE BINARY LOGS '' upper then Some (ExecutePurgeBinaryLogs sql)
      else if starts_with ''RESET MASTER'' upper then Some ExecuteResetMaster
      else if starts_with ''REGISTER_FK '' upper then Some (ExecuteRegisterFk sql)
      else None)"

definition show_command :: "call_env \<Rightarrow> str \<Rightarrow> bool \<Rightarrow> (server \<Rightarrow> response) option" where
  "show_command env sql results =
     (let upper = to_upper sql in
      if starts_with ''SHUTDOWN'' upper then Some (guarded CheckAdminAccess ExecuteShutdown)
      else if starts_with ''SHOW STATUS'' upper then Some (ExecuteShowStatus env results)
      else if starts_with ''SHOW PROCESSLIST'' upper then Some (ExecuteShowProcesslist results)
      else if starts_with ''SHOW USERS'' upper then Some (ExecuteShowUsers results)
      else if starts_with ''SHOW DATABASES'' upper \<or> starts_with ''SHOW SCHEMAS'' upper
      then Some (ExecuteShowDatabases results)
      else if starts_with ''SHOW TABLES'' upper then Some (ExecuteShowTables sql results)
      else if starts_with ''SHOW COLUMNS FROM'' upper \<or> starts_with ''SHOW FIELDS FROM'' upper \<or>
              starts_with ''DESCRIBE '' upper \<or> starts_with ''DESC '' upper
      then Some (ExecuteShowColumns sql results)
      else if starts_with ''CREATE DATABASE '' upper \<or> starts_with ''CREATE SCHEMA '' upper
      then Some (guarded (CheckPrivilegeForStatement PRIV_CREATE (ascii ''*'')) (ExecuteCreateDatabase sql))
      else if starts_with ''DROP DATABASE '' upper \<or> starts_with ''DROP SCHEMA '' upper
      then Some (guarded (CheckPrivilegeForStatement PRIV_DROP (ascii ''*'')) (ExecuteDropDatabase sql))
      else if is_security_command upper then Some (guarded CheckAdminAccess (security_command env sql))
      else if starts_with ''KILL '' upper then Some (guarded CheckAdminAccess (ExecuteKill sql))
      else None)"

definition ExecuteSQL :: "pg_parser \<Rightarrow> call_env \<Rightarrow> str \<Rightarrow> bool \<Rightarrow> server \<Rightarrow> response" where
  "ExecuteSQL pg env sql results s =
     (let s = s\<lparr>sv_error := [], sv_queries := sv_queries s + 1\<rparr> in
      case show_command env sql results of
        Some cmd \<Rightarrow> cmd s
      | None \<Rightarrow>
          let s = s\<lparr>sv_txn_control := False\<rparr> in
          (case txn_command env sql of
             Some cmd \<Rightarrow> cmd (s\<lparr>sv_txn_control := True\<rparr>)
           | None \<Rightarrow>
               (case log_command sql results of
                  Some cmd \<Rightarrow> cmd s
                | None \<Rightarrow> execute_parsed pg sql results s)))"

definition SetCurrentUser :: "str \<Rightarrow> str \<Rightarrow> server \<Rightarrow> server" where
  "SetCurrentUser user host s = s\<lparr>sv_user := user, sv_host := host\<rparr>"

end
