(* ===== verification/Sessions.thy ===== *)
theory Sessions
  imports Commands
begin

text \<open>
  The connection handler (sql/server/connection_handler.h and .cpp): the registry of the handlers, the handshake, the
  authentication, and the loop that takes packets from the socket, executes them through the one execution engine all
  handlers share, and sends the answers. The socket of a session is a \<open>wire\<close>: the script of what can be read, a
  script for every write, and the bytes sent so far. \<open>session_env\<close> adds to the surroundings of a command the
  formatted time, the thread, the source file and the text of an exception.
\<close>

record wire =
  wr_reads :: "read_event list"
  wr_scripts :: "write_result list list"
  wr_sent :: "byte list"

record session_env = call_env +
  se_time :: str
  se_thread :: str
  se_file :: str
  se_exception :: str
  se_now :: int

section \<open>The registry\<close>

fun registry_insert :: "i32 \<Rightarrow> i32 list \<Rightarrow> i32 list" where
  "registry_insert i [] = [i]"
| "registry_insert i (j # js) = (if i = j then j # js else if i < j then i # j # js else j # registry_insert i js)"

definition ConnectionHandler :: "int \<Rightarrow> str \<Rightarrow> i16 \<Rightarrow> server \<Rightarrow> server \<times> i32" where
  "ConnectionHandler fd addr port s =
     (let (c, g) = Connection fd addr port (sv_net s); i = sv_next_conn_id s
      in (s\<lparr>sv_net := g, sv_next_conn_id := i + 1,
            sv_handlers := (sv_handlers s)(i \<mapsto> \<lparr>ch_connection = c, ch_running = True, ch_query = [],
              ch_proto = tx_SetWriteFd fd ProtocolText\<rparr>),
            sv_registry := registry_insert i (sv_registry s)\<rparr>, i))"

definition destroy_handler :: "i32 \<Rightarrow> server \<Rightarrow> server" where
  "destroy_handler i s =
     (case sv_handlers s i of
        None \<Rightarrow> s
      | Some h \<Rightarrow>
          let (c, g) = cn_Close (ch_connection h, sv_net s)
          in s\<lparr>sv_registry := remove1 i (sv_registry s), sv_net := g, sv_handlers := (sv_handlers s)(i := None)\<rparr>)"

definition change_handler :: "i32 \<Rightarrow> (conn_handler \<Rightarrow> conn_handler) \<Rightarrow> server \<Rightarrow> server" where
  "change_handler i f s = s\<lparr>sv_handlers := (sv_handlers s)(i := map_option f (sv_handlers s i))\<rparr>"

definition set_state :: "i32 \<Rightarrow> conn_state \<Rightarrow> server \<Rightarrow> server" where
  "set_state i st = change_handler i (\<lambda>h. h\<lparr>ch_connection := (ch_connection h)\<lparr>cn_state := st\<rparr>\<rparr>)"

definition clear_query :: "i32 \<Rightarrow> server \<Rightarrow> server" where
  "clear_query i = change_handler i (\<lambda>h. h\<lparr>ch_query := []\<rparr>)"

section \<open>Input and output\<close>

type_synonym session = "server \<times> wire"

definition on_server :: "(server \<Rightarrow> server) \<Rightarrow> session \<Rightarrow> session" where
  "on_server f sw = (f (fst sw), snd sw)"

text \<open>A change of the protocol's buffer followed by \<open>Flush\<close>.\<close>

definition send :: "i32 \<Rightarrow> (protocol_text \<Rightarrow> protocol_text) \<Rightarrow> session \<Rightarrow> session" where
  "send i f sw =
     (let (s, w) = sw in
      case sv_handlers s i of
        None \<Rightarrow> sw
      | Some h \<Rightarrow>
          let script = (case wr_scripts w of [] \<Rightarrow> [] | x # _ \<Rightarrow> x);
              (p, bytes) = tx_Flush script (f (ch_proto h))
          in (s\<lparr>sv_handlers := (sv_handlers s)(i \<mapsto> h\<lparr>ch_proto := p\<rparr>)\<rparr>,
              w\<lparr>wr_scripts := tl (wr_scripts w), wr_sent := wr_sent w @ bytes\<rparr>))"

definition read_packet :: "i32 \<Rightarrow> session \<Rightarrow> byte list option \<times> session" where
  "read_packet i sw =
     (let (s, w) = sw in
      case sv_handlers s i of
        None \<Rightarrow> (None, sw)
      | Some h \<Rightarrow>
          let (r, es, (c, g)) = cn_ReadPacket (wr_reads w) (ch_connection h, sv_net s)
          in (r, s\<lparr>sv_handlers := (sv_handlers s)(i \<mapsto> h\<lparr>ch_connection := c\<rparr>), sv_net := g\<rparr>, w\<lparr>wr_reads := es\<rparr>))"

definition SendHandshake :: "i32 \<Rightarrow> session \<Rightarrow> session \<times> bool" where
  "SendHandshake i sw =
     (let (s, w) = on_server (set_state i AUTH) sw in
      case sv_handlers s i of
        None \<Rightarrow> ((s, w), False)
      | Some h \<Rightarrow>
          let script = (case wr_scripts w of [] \<Rightarrow> [] | x # _ \<Rightarrow> x);
              ((sent, ok), _, (c, g)) = cn_WritePacket script (ascii ''goods_db 0.1.0'' @ [10]) (ch_connection h, sv_net s)
          in ((s\<lparr>sv_handlers := (sv_handlers s)(i \<mapsto> h\<lparr>ch_connection := c\<rparr>), sv_net := g\<rparr>,
               w\<lparr>wr_scripts := tl (wr_scripts w), wr_sent := wr_sent w @ sent\<rparr>), ok))"

section \<open>Authentication\<close>

definition close_connection :: "i32 \<Rightarrow> server \<Rightarrow> server" where
  "close_connection i s =
     (case sv_handlers s i of
        None \<Rightarrow> s
      | Some h \<Rightarrow>
          let (c, g) = cn_Close (ch_connection h, sv_net s)
          in s\<lparr>sv_handlers := (sv_handlers s)(i \<mapsto> h\<lparr>ch_connection := c\<rparr>), sv_net := g\<rparr>)"

definition remote_addr :: "i32 \<Rightarrow> server \<Rightarrow> str" where
  "remote_addr i s = (case sv_handlers s i of None \<Rightarrow> [] | Some h \<Rightarrow> cn_remote_addr (ch_connection h))"

definition accepts :: "int \<Rightarrow> i32 \<Rightarrow> str \<Rightarrow> str \<Rightarrow> server \<Rightarrow> bool" where
  "accepts now i user password s =
     (case sv_auth s of None \<Rightarrow> True | Some a \<Rightarrow> CheckConnection (remote_addr i s) user password now a)"

definition HandleAuth :: "int \<Rightarrow> i32 \<Rightarrow> session \<Rightarrow> session \<times> bool" where
  "HandleAuth now i sw =
     (case read_packet i sw of
        (None, sw) \<Rightarrow> (sw, False)
      | (Some payload, sw) \<Rightarrow>
          (case parse_auth payload of
             None \<Rightarrow> (send i (tx_SendError 1045 (ascii ''28000'') (ascii ''Invalid auth format'')) sw, False)
           | Some (user, password) \<Rightarrow>
               if accepts now i user password (fst sw) then
                 let sw = on_server (set_state i READY \<circ>
                            change_handler i (\<lambda>h. h\<lparr>ch_connection := SetAuthenticated True user [] (ch_connection h)\<rparr>)) sw
                 in (send i (tx_SendOk 0 0 (ascii ''Authentication successful'')) sw, True)
               else
                 let sw = send i (tx_SendError 1045 (ascii ''28000'')
                            (ascii ''Access denied for user '' @ quoted_name user)) sw;
                     sw = on_server (\<lambda>s. s\<lparr>sv_auth := map_option (RecordAuthFailure (remote_addr i s) now) (sv_auth s)\<rparr>) sw
                 in (on_server (close_connection i) sw, False)))"

section \<open>Queries\<close>

definition source_line :: "session_env \<Rightarrow> nat \<Rightarrow> str" where
  "source_line env line = se_file env @ ascii '':'' @ show_nat line"

text \<open>The entries in the error log and the query log; the format \<open>%s\<close> stops at a NUL.\<close>

definition log_info :: "session_env \<Rightarrow> nat \<Rightarrow> str \<Rightarrow> server \<Rightarrow> server option" where
  "log_info env line msg s =
     (case sv_logs s of
        None \<Rightarrow> Some s
      | Some m \<Rightarrow> do {
          (e, fs) \<leftarrow> Log LEVEL_INFO (source_line env line) (se_time env) (se_thread env) msg (error_log m, sv_log_files s);
          Some (s\<lparr>sv_logs := Some (m\<lparr>error_log := e\<rparr>), sv_log_files := fs\<rparr>) })"

definition c_str :: "str \<Rightarrow> str" where "c_str t = takeWhile (\<lambda>c. c \<noteq> 0) t"

definition log_query :: "session_env \<Rightarrow> connection \<Rightarrow> str \<Rightarrow> server \<Rightarrow> server option" where
  "log_query env c sql s = do {
     s \<leftarrow> log_info env 180 (ascii ''SQL: '' @ c_str sql) s;
     case sv_logs s of
       None \<Rightarrow> Some s
     | Some m \<Rightarrow>
         let (q, fs) = LogQuery (se_time env) (cn_user c) (cn_remote_addr c) (cn_db c) sql 0 0 (query_log m, sv_log_files s)
         in Some (s\<lparr>sv_logs := Some (m\<lparr>query_log := q\<rparr>), sv_log_files := fs\<rparr>) }"

text \<open>The answer to a statement. Only after an error the query is not cleared.\<close>

definition send_reply :: "session_env \<Rightarrow> i32 \<Rightarrow> reply \<Rightarrow> session \<Rightarrow> session option" where
  "send_reply env i r sw =
     (case rp_status r of
        RC_ERROR \<Rightarrow>
          let err = sv_error (fst sw) in
          Some (on_server (set_state i READY)
            (send i (tx_SendError 1064 (ascii ''42000'') (if err = [] then ascii ''Execution failed'' else err)) sw))
      | RC_THROWS \<Rightarrow>
          Some (on_server (set_state i READY \<circ> clear_query i)
            (send i (tx_SendError 5000 (ascii ''HY000'') (ascii ''Internal error: '' @ se_exception env)) sw))
      | RC_OK \<Rightarrow> do {
          h \<leftarrow> sv_handlers (fst sw) i;
          p \<leftarrow> send_result (rp_schema r) (rp_rows r) (sv_affected (fst sw)) (ch_proto h);
          Some (on_server (set_state i READY \<circ> clear_query i) (send i (\<lambda>_. p) sw)) })"

text \<open>The user of the connection is stored in the shared engine, and the statement is executed after that: two
  steps, between which other threads run.\<close>

definition enter_query :: "session_env \<Rightarrow> i32 \<Rightarrow> str \<Rightarrow> server \<Rightarrow> server option" where
  "enter_query env i sql s = do {
     h \<leftarrow> sv_handlers s i;
     let c = ch_connection h;
     s \<leftarrow> log_query env c sql (change_handler i (\<lambda>h. h\<lparr>ch_query := sql\<rparr>) (set_state i QUERYING s));
     Some (SetCurrentUser (cn_user c) (cn_remote_addr c) s) }"

definition HandleQuery ::
    "pg_parser \<Rightarrow> session_env \<Rightarrow> i32 \<Rightarrow> str \<Rightarrow> session \<Rightarrow> session option" where
  "HandleQuery pg env i sql sw = do {
     s \<leftarrow> enter_query env i sql (fst sw);
     (s, r) \<leftarrow> ExecuteSQL pg (call_env.truncate env) sql True s;
     send_reply env i r (s, snd sw) }"

definition HandlePing :: "i32 \<Rightarrow> session \<Rightarrow> session" where
  "HandlePing i sw = send i (tx_SendOk 0 0 (ascii ''pong'')) sw"

section \<open>The loop\<close>

definition keeps_running :: "i32 \<Rightarrow> server \<Rightarrow> bool" where
  "keeps_running i s =
     (case sv_handlers s i of None \<Rightarrow> False | Some h \<Rightarrow> ch_running h \<and> 0 \<le> cn_fd (ch_connection h))"

partial_function (option) query_loop ::
    "pg_parser \<Rightarrow> (nat \<Rightarrow> session_env) \<Rightarrow> i32 \<Rightarrow> nat \<Rightarrow> session \<Rightarrow> session option" where
  "query_loop pg envs i n sw =
     (if \<not> keeps_running i (fst sw) then Some sw
      else case read_packet i sw of
        (None, sw) \<Rightarrow> Some sw
      | (Some payload, sw) \<Rightarrow>
          (case command_of payload of
             Nothing \<Rightarrow> query_loop pg envs i (n + 1) sw
           | Ping \<Rightarrow> query_loop pg envs i (n + 1) (HandlePing i sw)
           | Quit \<Rightarrow> Some sw
           | Query sql \<Rightarrow> Option.bind (HandleQuery pg (envs n) i sql sw) (query_loop pg envs i (n + 1))))"

definition closing_message :: "connection \<Rightarrow> str" where
  "closing_message c = ascii ''Connection closed: '' @ c_str (cn_user c) @ ascii ''@'' @ c_str (cn_remote_addr c) @ ascii '':'' @
     show_nat (unat (cn_remote_port c))"

definition Run ::
    "pg_parser \<Rightarrow> (nat \<Rightarrow> session_env) \<Rightarrow> i32 \<Rightarrow> session \<Rightarrow> session option" where
  "Run pg envs i sw =
     (case SendHandshake i sw of
        (sw, False) \<Rightarrow> Some sw
      | (sw, True) \<Rightarrow>
          (case HandleAuth (se_now (envs 0)) i sw of
             (sw, False) \<Rightarrow> Some sw
           | (sw, True) \<Rightarrow> do {
               sw \<leftarrow> query_loop pg envs i 1 sw;
               h \<leftarrow> sv_handlers (fst sw) i;
               s \<leftarrow> log_info (envs 0) 106 (closing_message (ch_connection h)) (fst sw);
               Some (s, snd sw) }))"

end
