(* ===== verification/Command_Props.thy ===== *)
theory Command_Props
  imports Sessions Catalog_Props Execution_Props
begin

text \<open>
  What the dispatch of the execution engine guarantees: which statements a user without privileges can run, what the
  control of transactions does to the data, and the round trip of the statements SHOW GRANTS prints.
\<close>

section \<open>Frames\<close>

text \<open>A command that leaves a part of the server as it is.\<close>

definition keeps :: "(server \<Rightarrow> 'a) \<Rightarrow> (server \<Rightarrow> response) \<Rightarrow> bool" where
  "keeps part cmd \<longleftrightarrow> (\<forall>s s' r. cmd s = Some (s', r) \<longrightarrow> part s' = part s)"

lemma commandD: "keeps part cmd \<Longrightarrow> cmd s = Some (s', r) \<Longrightarrow> part s' = part s"
  by (auto simp: keeps_def)

text \<open>What only an administrator may change: the accounts, the connections, the shutdown of the server.\<close>

definition protected :: "server \<Rightarrow> auth_manager option \<times> bool option \<times> (i32 \<Rightarrow> conn_handler option) \<times> i32 list" where
  "protected s = (sv_auth s, sv_shutdown s, sv_handlers s, sv_registry s)"

named_theorems answer_defs

lemmas answer_bases [answer_defs] = succeed_def fail_with_def throw_def show_rows_def denied_def

text \<open>The commands that only show something and those of the logs.\<close>

lemmas show_defs = ExecuteShowStatus_def ExecuteShowProcesslist_def ExecuteShowUsers_def ExecuteShowDatabases_def
  ExecuteShowTables_def ExecuteShowGrants_def ExecuteShowErrorLog_def ExecuteShowQueryLog_def ExecuteShowBinaryLog_def
  ExecuteShowLogs_def ExecuteShowBinlogEvents_def ExecuteShowMasterStatus_def

lemmas log_defs = ExecuteFlushLogs_def ExecutePurgeBinaryLogs_def ExecuteResetMaster_def

lemma keeps_show:
  "keeps part (ExecuteShowStatus env results)" "keeps part (ExecuteShowProcesslist results)"
  "keeps part (ExecuteShowUsers results)" "keeps part (ExecuteShowDatabases results)" "keeps part (ExecuteShowTables sql results)"
  "keeps part (ExecuteShowGrants sql results)" "keeps part (ExecuteShowErrorLog sql results)"
  "keeps part (ExecuteShowQueryLog sql results)" "keeps part (ExecuteShowBinaryLog results)"
  "keeps part (ExecuteShowLogs)" "keeps part (ExecuteShowBinlogEvents sql results)"
  "keeps part (ExecuteShowMasterStatus results)"
  if "\<And>s e. part (s\<lparr>sv_error := e\<rparr>) = part s"
  using that
  by (auto simp: keeps_def show_defs answer_defs Let_def split: option.splits if_splits bind_splits)

lemma keeps_txn:
  assumes "txn_command env sql = Some cmd" and "\<And>s e. part (s\<lparr>sv_error := e\<rparr>) = part s"
    "\<And>s m. part (s\<lparr>sv_txn := m\<rparr>) = part s"
  shows "keeps part cmd"
proof -
  have t: "keeps part (ExecuteStartTransaction env)" "keeps part (ExecuteCommit env)" "keeps part (ExecuteRollback env)"
    "keeps part (ExecuteSavepoint env sql)" "keeps part (ExecuteReleaseSavepoint env sql)"
    "keeps part (ExecuteRollbackToSavepoint env sql)" "keeps part (ExecuteSetTransaction sql)"
    using assms(2,3)
    by (auto simp: keeps_def ExecuteStartTransaction_def ExecuteCommit_def ExecuteRollback_def ExecuteSavepoint_def
        ExecuteReleaseSavepoint_def ExecuteRollbackToSavepoint_def ExecuteSetTransaction_def on_txn_def answer_defs Let_def
        split: option.splits if_splits bind_splits)
  show ?thesis using assms(1) t by (auto simp: txn_command_def Let_def split: if_splits)
qed

lemma keeps_guarded:
  assumes cmd: "keeps part cmd" and check: "\<And>s. part (fst (check s)) = part s"
  shows "keeps part (guarded check cmd)"
  unfolding keeps_def
proof (intro allI impI)
  fix s s' r
  assume run: "guarded check cmd s = Some (s', r)"
  obtain s1 ok where c: "check s = (s1, ok)" by fastforce
  have "part s1 = part s" using check [of s] c by simp
  then show "part s' = part s"
    using run c commandD [OF cmd, of s1 s' r] by (auto simp: guarded_def answer_defs split: if_splits)
qed

lemma checks_frame:
  "(\<And>s e. part (s\<lparr>sv_error := e\<rparr>) = part s) \<Longrightarrow> part (fst (CheckAdminAccess s)) = part s"
  "(\<And>s e. part (s\<lparr>sv_error := e\<rparr>) = part s) \<Longrightarrow> part (fst (CheckPrivilegeForStatement p t s)) = part s"
  "(\<And>s e. part (s\<lparr>sv_error := e\<rparr>) = part s) \<Longrightarrow> part (fst (check_statement stmt s)) = part s"
  by (auto simp: CheckAdminAccess_def CheckPrivilegeForStatement_def check_statement_def)

lemma protected_frame [simp]:
  "protected (s\<lparr>sv_error := e\<rparr>) = protected s" "protected (s\<lparr>sv_txn := m\<rparr>) = protected s"
  "protected (s\<lparr>sv_engine := g\<rparr>) = protected s" "protected (s\<lparr>sv_txn_control := b\<rparr>) = protected s"
  "protected (s\<lparr>sv_queries := q\<rparr>) = protected s" "protected (s\<lparr>sv_logs := l\<rparr>) = protected s"
  "protected (s\<lparr>sv_log_files := fs\<rparr>) = protected s" "protected (s\<lparr>sv_affected := n\<rparr>) = protected s"
  by (simp_all add: protected_def)

lemma keeps_protected_rest:
  "keeps protected (ExecuteShowColumns sql results)" "keeps protected (ExecuteCreateDatabase sql)"
  "keeps protected (ExecuteDropDatabase sql)" "keeps protected ExecuteFlushTables" "keeps protected ExecuteFlushLogs"
  "keeps protected (ExecutePurgeBinaryLogs sql)" "keeps protected ExecuteResetMaster" "keeps protected (ExecuteRegisterFk sql)"
  "keeps protected (run_statement stmt results)"
  by (auto simp: keeps_def ExecuteShowColumns_def ExecuteCreateDatabase_def ExecuteDropDatabase_def ExecuteFlushTables_def
      log_defs ExecuteRegisterFk_def run_statement_def answer_defs Let_def
      split: option.splits if_splits bind_splits prod.splits)

lemma denied_admin:
  assumes "\<not> trusted s" "\<not> has_access (ascii ''*'') PRIV_GRANT s"
  shows "guarded CheckAdminAccess cmd s = Some (s', r) \<Longrightarrow> protected s' = protected s \<and> sv_engine s' = sv_engine s"
  using assms by (auto simp: guarded_def CheckAdminAccess_def answer_defs)

text \<open>The rights do not depend on what a statement has set before they are looked at.\<close>

lemma rights_cong:
  "sv_auth s' = sv_auth s \<Longrightarrow> sv_user s' = sv_user s \<Longrightarrow> sv_host s' = sv_host s \<Longrightarrow>
     trusted s' = trusted s \<and> has_access t p s' = has_access t p s"
  by (auto simp: trusted_def has_access_def split: option.splits)

text \<open>The cases of the dispatch.\<close>

lemma accounts_guarded_part:
  assumes s: "\<not> trusted s" "\<not> has_access (ascii ''*'') PRIV_GRANT s"
    and run: "ExecuteSQL pg env sql results s = Some (s', r)"
  shows "protected s' = protected s"
proof -
  define s1 where "s1 = s\<lparr>sv_error := [], sv_queries := sv_queries s + 1\<rparr>"
  have p1: "protected s1 = protected s" by (simp add: s1_def)
  have rights: "\<not> trusted s1" "\<not> has_access (ascii ''*'') PRIV_GRANT s1"
    using s rights_cong [of s1 s] by (simp_all add: s1_def)
  note show_all = keeps_show [of protected, OF protected_frame(1)]
  consider cmd where "show_command env sql results = Some cmd" "cmd s1 = Some (s', r)"
    | cmd where "txn_command env sql = Some cmd" "cmd (s1\<lparr>sv_txn_control := True\<rparr>) = Some (s', r)"
    | cmd where "log_command sql results = Some cmd" "cmd (s1\<lparr>sv_txn_control := False\<rparr>) = Some (s', r)"
    | "execute_parsed pg sql results (s1\<lparr>sv_txn_control := False\<rparr>) = Some (s', r)"
    using run by (auto simp: ExecuteSQL_def s1_def [symmetric] Let_def split: option.splits)
  then show ?thesis
  proof cases
    case 1
    have "keeps protected cmd \<or> (\<exists>c. cmd = guarded CheckAdminAccess c)"
      using 1(1) show_all keeps_protected_rest
      by (auto simp: show_command_def Let_def checks_frame intro!: keeps_guarded split: if_splits)
    then show ?thesis using 1(2) p1 denied_admin [OF rights] by (auto dest: commandD)
  next
    case 2
    then show ?thesis using keeps_txn [OF 2(1), of protected] p1 by (auto dest: commandD)
  next
    case 3
    have "keeps protected cmd"
      using 3(1) show_all keeps_protected_rest by (auto simp: log_command_def Let_def split: if_splits)
    then show ?thesis using 3(2) p1 by (auto dest: commandD)
  next
    case 4
    have "keeps protected (guarded (check_statement stmt) (run_statement stmt results))" for stmt
      by (rule keeps_guarded) (simp_all add: keeps_protected_rest checks_frame)
    note st = commandD [OF this]
    show ?thesis using 4 p1 by (auto simp: execute_parsed_def answer_defs dest: st split: option.splits sum.splits list.splits)
  qed
qed

text \<open>C36: A user who is not root and has no GRANT privilege on everything cannot change the accounts, their
  privileges and the blocked hosts, cannot close the connection of another user and cannot stop the server, whatever
  the text of the statement.\<close>

theorem accounts_guarded:
  assumes "\<not> trusted s" "\<not> has_access (ascii ''*'') PRIV_GRANT s" "ExecuteSQL pg env sql results s = Some (s', r)"
  shows "protected s' = protected s"
  using assms by (rule accounts_guarded_part)

section \<open>Users without privileges\<close>

lemma engine_frame [simp]:
  "sv_engine (s\<lparr>sv_error := e\<rparr>) = sv_engine s" "sv_engine (s\<lparr>sv_txn := m\<rparr>) = sv_engine s"
  by simp_all

lemma keeps_engine_logs:
  "keeps sv_engine ExecuteFlushLogs" "keeps sv_engine (ExecutePurgeBinaryLogs sql)" "keeps sv_engine ExecuteResetMaster"
  by (auto simp: keeps_def log_defs answer_defs Let_def split: option.splits if_splits prod.splits)

lemma describe_engine:
  assumes "catalog_ok (eng_catalog (sv_engine s))" "ExecuteShowColumns sql results s = Some (s', r)"
  shows "sv_engine s' = sv_engine s"
proof -
  have "fst (GetTable n (eng_catalog (sv_engine s))) = eng_catalog (sv_engine s)" for n
    using ensure_default [OF assms(1)] by (auto simp: GetTable_def Let_def split: option.splits)
  moreover obtain c info where
    "GetTable (described_table (described_name sql)) (eng_catalog (sv_engine s)) = (c, info)" by fastforce
  ultimately have g: "GetTable (described_table (described_name sql)) (eng_catalog (sv_engine s)) =
      (eng_catalog (sv_engine s), info)" by (metis fst_conv)
  show ?thesis
    using assms(2)
    by (auto simp: ExecuteShowColumns_def answer_defs g Let_def split: option.splits if_splits bind_splits)
qed

lemma denied_statement:
  assumes "\<not> trusted s" "\<And>t p. \<not> has_access t p s"
  shows "guarded (CheckPrivilegeForStatement p t) cmd s = Some (s', r) \<Longrightarrow> sv_engine s' = sv_engine s"
    and "guarded (check_statement stmt) cmd s = Some (s', r) \<Longrightarrow> sv_engine s' = sv_engine s"
  using assms
  by (auto simp: guarded_def CheckPrivilegeForStatement_def check_statement_def answer_defs trusted_def split: if_splits)

text \<open>C37: A statement of a user to whom no record of privileges applies leaves the catalog, the tables and the pool as
  they are, and the accounts as well, unless it is FLUSH TABLES or REGISTER_FK: these two ask for no privilege.\<close>

theorem stranger_changes_nothing:
  assumes s: "\<not> trusted s" "\<And>t p. \<not> has_access t p s" and ok: "catalog_ok (eng_catalog (sv_engine s))"
    and other: "\<not> starts_with ''FLUSH TABLES'' (to_upper sql)" "\<not> starts_with ''REGISTER_FK '' (to_upper sql)"
    and run: "ExecuteSQL pg env sql results s = Some (s', r)"
  shows "sv_engine s' = sv_engine s \<and> protected s' = protected s"
proof
  show "protected s' = protected s" using s(1) s(2) run by (rule accounts_guarded_part)
  define s1 where "s1 = s\<lparr>sv_error := [], sv_queries := sv_queries s + 1\<rparr>"
  define s2 where "s2 = s1\<lparr>sv_txn_control := False\<rparr>"
  have e1: "sv_engine s1 = sv_engine s" "sv_engine s2 = sv_engine s" by (simp_all add: s1_def s2_def)
  have rights: "\<not> trusted s1" "\<And>t p. \<not> has_access t p s1" "\<not> trusted s2" "\<And>t p. \<not> has_access t p s2"
    using s rights_cong [of s1 s] rights_cong [of s2 s] by (simp_all add: s1_def s2_def)
  note show_all = keeps_show [of sv_engine, OF engine_frame(1)]
  consider cmd where "show_command env sql results = Some cmd" "cmd s1 = Some (s', r)"
    | cmd where "txn_command env sql = Some cmd" "cmd (s2\<lparr>sv_txn_control := True\<rparr>) = Some (s', r)"
    | cmd where "log_command sql results = Some cmd" "cmd s2 = Some (s', r)"
    | "execute_parsed pg sql results s2 = Some (s', r)"
    using run by (auto simp: ExecuteSQL_def s1_def [symmetric] s2_def [symmetric] Let_def split: option.splits)
  then show "sv_engine s' = sv_engine s"
  proof cases
    case 1
    define admin where "admin = (\<lambda>cmd. \<exists>c. cmd = guarded CheckAdminAccess c)"
    define privileged where "privileged = (\<lambda>cmd. \<exists>p t c. cmd = guarded (CheckPrivilegeForStatement p t) c)"
    have "admin (guarded CheckAdminAccess c)" "privileged (guarded (CheckPrivilegeForStatement p t) c)" for p t c
      by (auto simp: admin_def privileged_def)
    then have "keeps sv_engine cmd \<or> admin cmd \<or> privileged cmd \<or> cmd = ExecuteShowColumns sql results"
      using 1(1) show_all by (auto simp: show_command_def Let_def split: if_splits)
    then show ?thesis
      using 1(2) e1 denied_admin [OF rights(1,2)] denied_statement(1) [OF rights(1,2)] describe_engine [of s1] ok
      by (auto simp: admin_def privileged_def dest: commandD)
  next
    case 2
    then show ?thesis using keeps_txn [OF 2(1), of sv_engine] e1 by (auto dest: commandD)
  next
    case 3
    have "keeps sv_engine cmd"
      using 3(1) show_all keeps_engine_logs other by (auto simp: log_command_def Let_def split: if_splits)
    then show ?thesis using 3(2) e1 by (auto dest: commandD)
  next
    case 4
    then show ?thesis
      using e1 denied_statement(2) [OF rights(3,4)]
      by (auto simp: execute_parsed_def answer_defs split: option.splits sum.splits list.splits)
  qed
qed

text \<open>A server with no accounts, used by a guest.\<close>

definition guest_server :: server where
  "guest_server =
     \<lparr>sv_engine = scan_engine\<lparr>eng_catalog := Catalog\<rparr>, sv_auth = Some AuthManager, sv_txn = None, sv_logs = None,
      sv_log_files = \<lparr>lf_dir = Map.empty, lf_data = (\<lambda>_. []), lf_next = 0, lf_can_open = (\<lambda>_. True)\<rparr>,
      sv_user = ascii ''guest'', sv_host = ascii ''localhost'', sv_error = [], sv_affected = 0, sv_txn_control = False,
      sv_queries = 0, sv_shutdown = Some False,
      sv_net = \<lparr>total_bytes_sent = 0, total_bytes_received = 0, total_connections = 0, active_connections = 0\<rparr>,
      sv_handlers = (\<lambda>_. None), sv_registry = [], sv_next_conn_id = 1\<rparr>"

lemma guest_rights: "\<not> trusted guest_server" "\<not> has_access t p guest_server"
  by (simp_all add: guest_server_def trusted_def has_access_def CheckAccess_def FindBestMatch_def AuthManager_def ascii_def)

lemma guest_kill:
  "\<exists>s' r. ExecuteSQL pg env (ascii ''KILL 1'') True guest_server = Some (s', r) \<and> rp_status r = RC_ERROR"
proof -
  have k: "show_command env (ascii ''KILL 1'') True = Some (guarded CheckAdminAccess (ExecuteKill (ascii ''KILL 1'')))"
    by (simp add: show_command_def starts_with_def to_upper_def ascii_def is_security_command_def)
  have "\<not> trusted (guest_server\<lparr>sv_error := [], sv_queries := 1\<rparr>) \<and>
      \<not> has_access t p (guest_server\<lparr>sv_error := [], sv_queries := 1\<rparr>)" for t p
    using guest_rights rights_cong [of "guest_server\<lparr>sv_error := [], sv_queries := 1\<rparr>" guest_server] by simp
  moreover have "sv_queries guest_server = 0" by (simp add: guest_server_def)
  ultimately show ?thesis by (simp add: ExecuteSQL_def k Let_def guarded_def CheckAdminAccess_def denied_def)
qed

definition guest_env :: call_env where
  "guest_env = \<lparr>ev_thread = 0, ev_address = 0, ev_clock = 0, ev_salt = [], ev_uptime = 0, ev_hit_rate = 0\<rparr>"

theorem accounts_guarded_witness:
  "protected (fst (the (ExecuteSQL (\<lambda>_. Inr []) guest_env (ascii ''KILL 1'') True guest_server))) = protected guest_server"
  using guest_kill [of "\<lambda>_. Inr []" guest_env] accounts_guarded [OF guest_rights] by fastforce

theorem stranger_changes_nothing_witness:
  "sv_engine (fst (the (ExecuteSQL (\<lambda>_. Inr []) guest_env (ascii ''KILL 1'') True guest_server))) = sv_engine guest_server"
proof -
  obtain s' r where run: "ExecuteSQL (\<lambda>_. Inr []) guest_env (ascii ''KILL 1'') True guest_server = Some (s', r)"
    using guest_kill by blast
  have "catalog_ok (eng_catalog (sv_engine guest_server))" using Catalog_ok(1) by (simp add: guest_server_def)
  then have "sv_engine s' = sv_engine guest_server \<and> protected s' = protected guest_server"
    by (rule stranger_changes_nothing [OF guest_rights _ _ _ run]) (simp_all add: starts_with_def to_upper_def ascii_def)
  then show ?thesis by (simp add: run)
qed

section \<open>Transactions and data\<close>

text \<open>Nothing that controls a transaction touches the data: a rollback, of a transaction or to a savepoint, undoes
  nothing.\<close>

lemma txn_control_keeps_engine:
  assumes "show_command env sql results = None" "txn_command env sql = Some cmd"
    "ExecuteSQL pg env sql results s = Some (s', r)"
  shows "sv_engine s' = sv_engine s"
  using assms keeps_txn [OF assms(2), of sv_engine] by (auto simp: ExecuteSQL_def Let_def dest: commandD)

section \<open>Sessions\<close>

lemma send_frame [simp]:
  "sv_engine (fst (send i f sw)) = sv_engine (fst sw)" "sv_auth (fst (send i f sw)) = sv_auth (fst sw)"
  by (cases sw; auto simp: send_def Let_def split: option.splits prod.splits)+

lemma read_packet_frame:
  "read_packet i sw = (p, sw') \<Longrightarrow> sv_engine (fst sw') = sv_engine (fst sw) \<and> sv_auth (fst sw') = sv_auth (fst sw) \<and>
     remote_addr i (fst sw') = remote_addr i (fst sw)"
  by (cases sw; auto simp: read_packet_def Let_def remote_addr_def cn_ReadPacket_def count_received_def
      split: option.splits prod.splits if_splits)

lemma set_state_frame [simp]:
  "sv_engine (set_state i st s) = sv_engine s" "sv_auth (set_state i st s) = sv_auth s"
  "remote_addr i (set_state i st s) = remote_addr i s"
  by (simp_all add: set_state_def change_handler_def remote_addr_def split: option.splits)

lemma close_connection_frame [simp]:
  "sv_engine (close_connection i s) = sv_engine s" "sv_auth (close_connection i s) = sv_auth s"
  by (auto simp: close_connection_def Let_def split: option.splits prod.splits)

lemma write_packet_addr: "cn_WritePacket script d cg = (r, sc, cg') \<Longrightarrow> cn_remote_addr (fst cg') = cn_remote_addr (fst cg)"
  by (auto simp: cn_WritePacket_def count_sent_def Let_def split: if_splits prod.splits bool.splits)

lemma SendHandshake_frame:
  assumes "SendHandshake i sw = (sw', ok)"
  shows "sv_engine (fst sw') = sv_engine (fst sw) \<and> sv_auth (fst sw') = sv_auth (fst sw) \<and>
    remote_addr i (fst sw') = remote_addr i (fst sw)"
proof -
  obtain a b where sw: "sw = (a, b)" by fastforce
  have h: "cn_remote_addr (ch_connection h) = remote_addr i a" if "sv_handlers (set_state i AUTH a) i = Some h" for h
    using that set_state_frame(3) [of i AUTH a] by (simp add: remote_addr_def)
  show ?thesis
    using assms set_state_frame(3) [of i AUTH a]
    by (auto simp: sw SendHandshake_def on_server_def Let_def remote_addr_def [of i "_\<lparr>sv_handlers := _, sv_net := _\<rparr>"]
        dest!: h write_packet_addr split: option.splits prod.splits)
qed

lemma send_addr: "remote_addr i (fst (send i f sw)) = remote_addr i (fst sw)"
  by (cases sw; auto simp: send_def Let_def remote_addr_def split: option.splits prod.splits)

lemma accepts_cong:
  "sv_auth s' = sv_auth s \<Longrightarrow> remote_addr i s' = remote_addr i s \<Longrightarrow> accepts now i u p s' = accepts now i u p s"
  by (auto simp: accepts_def split: option.splits)

text \<open>C38: A client whose user and password the account manager does not accept gets nothing executed, whatever else it
  has sent: the session ends, the data is as it was, and the failure is recorded under the address of the client.\<close>

theorem unauthenticated_run:
  assumes run: "Run pg envs i (s, w) = Some (s', w')" and hand: "SendHandshake i (s, w) = (sw1, True)"
    and packet: "fst (read_packet i sw1) = Some payload" "parse_auth payload = Some (user, password)"
    and refused: "\<not> accepts (se_now (envs 0)) i user password s"
  shows "sv_engine s' = sv_engine s \<and>
    sv_auth s' = map_option (RecordAuthFailure (remote_addr i s) (se_now (envs 0))) (sv_auth s)"
proof -
  let ?now = "se_now (envs 0)"
  obtain sw2 where r: "read_packet i sw1 = (Some payload, sw2)" using packet(1) by (cases "read_packet i sw1") simp
  have f1: "sv_engine (fst sw1) = sv_engine s \<and> sv_auth (fst sw1) = sv_auth s \<and> remote_addr i (fst sw1) = remote_addr i s"
    using SendHandshake_frame [OF hand] by simp
  have f2: "sv_engine (fst sw2) = sv_engine s \<and> sv_auth (fst sw2) = sv_auth s \<and> remote_addr i (fst sw2) = remote_addr i s"
    using read_packet_frame [OF r] f1 by simp
  have no: "\<not> accepts ?now i user password (fst sw2)" using refused accepts_cong [of "fst sw2" s] f2 by simp
  define sw3 where "sw3 = send i (tx_SendError 1045 (ascii ''28000'')
      (ascii ''Access denied for user '' @ quoted_name user)) sw2"
  have f3: "sv_engine (fst sw3) = sv_engine s" "sv_auth (fst sw3) = sv_auth s" "remote_addr i (fst sw3) = remote_addr i s"
    using f2 by (simp_all add: sw3_def send_addr)
  have "HandleAuth ?now i sw1 = (on_server (close_connection i)
      (on_server (\<lambda>s. s\<lparr>sv_auth := map_option (RecordAuthFailure (remote_addr i s) ?now) (sv_auth s)\<rparr>) sw3), False)"
    using no by (simp add: HandleAuth_def r packet(2) sw3_def Let_def)
  then have "(s', w') = on_server (close_connection i)
      (on_server (\<lambda>s. s\<lparr>sv_auth := map_option (RecordAuthFailure (remote_addr i s) ?now) (sv_auth s)\<rparr>) sw3)"
    using run by (simp add: Run_def hand)
  then show ?thesis using f3 by (auto simp: on_server_def)
qed

definition session_server :: server where
  "session_server = fst (ConnectionHandler 3 [49] 7 guest_server)"

definition demo_wire :: wire where
  "demo_wire = \<lparr>wr_reads = [Chunk [4, 0, 0, 0, 120, 0, 121, 0]], wr_scripts = [[Accepted 99, Accepted 99]], wr_sent = []\<rparr>"

definition demo_session_env :: session_env where
  "demo_session_env = call_env.extend guest_env \<lparr>se_time = [], se_thread = [], se_file = [], se_exception = [], se_now = 0\<rparr>"

lemma write_at_once: "bs \<noteq> [] \<Longrightarrow> length bs \<le> 99 \<Longrightarrow> write_loop (Accepted 99 # sc) bs = (bs, True, sc)"
  by (cases bs) auto

theorem unauthenticated_run_witness:
  "\<exists>s' w'. Run (\<lambda>_. Inr []) (\<lambda>_. demo_session_env) 1 (session_server, demo_wire) = Some (s', w') \<and>
     sv_engine s' = sv_engine session_server \<and>
     sv_auth s' = map_option (RecordAuthFailure [49] 0) (sv_auth session_server)"
proof -
  have n: "se_now demo_session_env = 0" by (simp add: demo_session_env_def call_env.defs)
  have a: "remote_addr 1 session_server = [49]" "sv_auth session_server = Some AuthManager"
    by (simp_all add: session_server_def ConnectionHandler_def Connection_def guest_server_def remote_addr_def Let_def)
  define sw1 where "sw1 = fst (SendHandshake 1 (session_server, demo_wire))"
  have h: "SendHandshake 1 (session_server, demo_wire) = (sw1, True)"
    by (simp add: sw1_def SendHandshake_def on_server_def set_state_def change_handler_def session_server_def
        ConnectionHandler_def Connection_def guest_server_def demo_wire_def cn_WritePacket_def packet_header_def
        WritePacketLength_def count_sent_def ascii_def Let_def write_at_once)
  obtain ch where ch: "sv_handlers (fst sw1) 1 = Some ch" "cn_fd (ch_connection ch) = 3"
    and reads: "wr_reads (snd sw1) = [Chunk [4, 0, 0, 0, 120, 0, 121, 0]]"
    by (simp add: sw1_def SendHandshake_def on_server_def set_state_def change_handler_def session_server_def
        ConnectionHandler_def Connection_def guest_server_def demo_wire_def cn_WritePacket_def packet_header_def
        WritePacketLength_def count_sent_def ascii_def Let_def write_at_once)
  have l: "read_loop 4 [Chunk [4, 0, 0, 0, 120, 0, 121, 0]] = (Some [4, 0, 0, 0], [Chunk [120, 0, 121, 0]])"
    "read_loop 4 [Chunk [120, 0, 121, 0]] = (Some [120, 0, 121, 0], [])"
    by (simp_all add: eval_nat_numeral)
  have n4: "ReadPacketLength [4, 0, 0, 0] = 4" by (simp add: ReadPacketLength_def numeral_3_eq_3)
  have p: "fst (read_packet 1 sw1) = Some [120, 0, 121, 0]"
    by (cases sw1) (use ch reads in \<open>simp add: read_packet_def cn_ReadPacket_def l n4 kMaxPayloadLength_def split_beta\<close>)
  have u: "parse_auth [120, 0, 121, 0] = Some ([120], [121])" by (simp add: parse_auth_def ascii_def)
  have r: "\<not> accepts 0 1 [120] [121] session_server"
    by (simp add: accepts_def a CheckConnection_def IsHostBlocked_def FindUser_def AuthManager_def Let_def)
  obtain payload sw2 where rp: "read_packet 1 sw1 = (payload, sw2)" by (cases "read_packet 1 sw1")
  have "sv_auth (fst sw2) = sv_auth session_server" "remote_addr 1 (fst sw2) = remote_addr 1 session_server"
    using read_packet_frame [OF rp] SendHandshake_frame [OF h] by simp_all
  then have "\<not> accepts 0 1 [120] [121] (fst sw2)" using r accepts_cong by blast
  then obtain s' w' where run: "Run (\<lambda>_. Inr []) (\<lambda>_. demo_session_env) 1 (session_server, demo_wire) = Some (s', w')"
    using p rp u by (simp add: Run_def h n HandleAuth_def Let_def on_server_def)
  show ?thesis
    using run unauthenticated_run [OF run h p u] r a by (simp add: n)
qed

end
